(* ===== verification/Prelude.thy ===== *)
theory Prelude
  imports Main "HOL-Library.List_Lexorder" "HOL-Library.Char_ord"
begin

text \<open>
  What every component shares. Text is a list of Unicode code points, as Go's \<open>range\<close> over a
  string reads it: PostgreSQL and \<open>encoding/json\<close> both deliver valid UTF-8, so a value is
  its code points. An ASCII literal of the source is written \<open>u ''...''\<close>; an Arabic
  literal is written as its code points. The order on text is the lexicographic order of code
  points, which is also the byte order of UTF-8 that Go's \<open><\<close> on strings uses.

  A handler answers with a \<open>reply\<close>: \<open>Inr\<close> with the payload of a 200 answer, or \<open>Inl\<close> with
  the status and message of the error envelope. The body of a request reaches a handler as
  \<open>body\<close>: the decoded value, or one of the two ways \<open>decodeJSONBody\<close> refuses it. A field of type
  \<open>json.RawMessage\<close> is a \<open>json option\<close>, \<open>None\<close> when the field was not sent.
\<close>

named_theorems run_simps "what one statement or combinator does on a concrete world"
named_theorems ok_iffs "when one statement or combinator succeeds"
named_theorems run_elims "inversion of a statement that succeeded"

type_synonym str = "nat list"

definition u :: "string \<Rightarrow> str" where
  "u s = map of_char s"

lemma u_append: "u (s @ t) = u s @ u t"
  by (simp add: u_def)

lemma u_Nil [simp]: "u [] = []"
  by (simp add: u_def)

lemma u_inject [simp]: "u s = u t \<longleftrightarrow> s = t"
  by (simp add: u_def inj_map_eq_map inj_def)

lemma u_eq_Nil_iff [simp]: "u s = [] \<longleftrightarrow> s = []"
  by (simp add: u_def)

definition asciiLower :: "str \<Rightarrow> str" where
  \<comment> \<open>\<open>strings.ToLower\<close> where no character outside ASCII matters\<close>
  "asciiLower s = map (\<lambda>c. if 65 \<le> c \<and> c \<le> 90 then c + 32 else c) s"

lemma option_ext: "(\<And>v. x = Some v \<longleftrightarrow> y = Some v) \<Longrightarrow> x = y"
  by (metis not_None_eq)

section \<open>Replies and request bodies\<close>

datatype refusal = Refuse int str

type_synonym 'a reply = "refusal + 'a"

datatype meth = GET | POST | PUT | DELETE | OtherMethod

definition method_not_allowed :: refusal where
  "method_not_allowed = Refuse 405 (u ''Method not allowed'')"

definition bad_request :: "string \<Rightarrow> refusal" where
  "bad_request m = Refuse 400 (u m)"

definition unauthorized_context :: refusal where
  \<comment> \<open>the request's context carries no parent id\<close>
  "unauthorized_context = Refuse 401 (u ''Unauthorized context'')"

definition internal_error :: "string \<Rightarrow> 'e \<Rightarrow> refusal" where
  \<comment> \<open>\<open>respondInternalError\<close>: the error itself goes to the log only\<close>
  "internal_error m e = Refuse 500 (u m)"

datatype 'a body = Body 'a | Malformed | Oversized

datatype json =
    JNull
  | JBool bool
  | JInt int          \<comment> \<open>an integer literal\<close>
  | JFraction         \<comment> \<open>a number that is not an integer literal\<close>
  | JStr str
  | JBad              \<comment> \<open>a value whose bytes are not valid UTF-8\<close>
  | JOther            \<comment> \<open>an array or an object\<close>

definition status_of :: "'a reply \<Rightarrow> int" where
  "status_of r = (case r of Inr x \<Rightarrow> 200 | Inl (Refuse s m) \<Rightarrow> s)"

lemma status_of_simps [simp]: "status_of (Inr x) = 200" "status_of (Inl (Refuse s m)) = s"
  by (simp_all add: status_of_def)

text \<open>
  \<open>decodeJSONBody\<close>: 413 for an oversized body, 400 with the handler's own message for malformed
  JSON, otherwise the decoded value.
\<close>

definition decodeJSONBody :: "'a body \<Rightarrow> str \<Rightarrow> 'a reply" where
  "decodeJSONBody b badRequestMsg =
     (case b of
        Body x \<Rightarrow> Inr x
      | Oversized \<Rightarrow> Inl (Refuse 413 (u ''Request body too large''))
      | Malformed \<Rightarrow> Inl (Refuse 400 badRequestMsg))"

lemma decodeJSONBody_simps [simp]:
  "decodeJSONBody (Body x) m = Inr x"
  "decodeJSONBody Oversized m = Inl (Refuse 413 (u ''Request body too large''))"
  "decodeJSONBody Malformed m = Inl (Refuse 400 m)"
  by (simp_all add: decodeJSONBody_def)

text \<open>Checks in a row: the first problem, or the last result.\<close>

definition andThen :: "'e + 'a \<Rightarrow> ('a \<Rightarrow> 'e + 'b) \<Rightarrow> 'e + 'b" where
  "andThen r f = (case r of Inl e \<Rightarrow> Inl e | Inr x \<Rightarrow> f x)"

lemma andThen_simps [simp]: "andThen (Inl e) f = Inl e" "andThen (Inr x) f = f x"
  by (simp_all add: andThen_def)

lemma andThen_ok: "andThen r f = Inr y \<longleftrightarrow> (\<exists>x. r = Inr x \<and> f x = Inr y)"
  by (cases r) simp_all

section \<open>Numbers as text\<close>

text \<open>\<open>strconv.Itoa\<close> and \<open>%d\<close>.\<close>

fun digits_of :: "nat \<Rightarrow> str" where
  "digits_of n = (if n < 10 then [48 + n] else digits_of (n div 10) @ [48 + n mod 10])"

declare digits_of.simps [simp del]

definition itoa :: "int \<Rightarrow> str" where
  "itoa i = (if i < 0 then 45 # digits_of (nat (- i)) else digits_of (nat i))"

text \<open>\<open>%02d\<close> and \<open>%04d\<close> on values that fit.\<close>

definition pad2 :: "nat \<Rightarrow> str" where
  "pad2 n = [48 + n div 10 mod 10, 48 + n mod 10]"

definition pad4 :: "nat \<Rightarrow> str" where
  "pad4 n = [48 + n div 1000 mod 10, 48 + n div 100 mod 10, 48 + n div 10 mod 10, 48 + n mod 10]"

definition is_digit :: "nat \<Rightarrow> bool" where
  "is_digit c \<longleftrightarrow> 48 \<le> c \<and> c \<le> 57"

lemma digits_of_nonempty: "digits_of n \<noteq> []"
  by (subst digits_of.simps) simp

lemma itoa_nonempty: "itoa i \<noteq> []"
  by (simp add: itoa_def digits_of_nonempty)

lemma pad2_inject: "m < 100 \<Longrightarrow> n < 100 \<Longrightarrow> pad2 m = pad2 n \<Longrightarrow> m = n"
proof -
  assume a: "m < 100" "n < 100" "pad2 m = pad2 n"
  then have "m div 10 mod 10 = n div 10 mod 10" and lo: "m mod 10 = n mod 10"
    by (simp_all add: pad2_def)
  moreover have "m div 10 < 10" "n div 10 < 10" using a(1,2) by auto
  ultimately have "m div 10 = n div 10" by simp
  with lo show "m = n" by (metis div_mult_mod_eq)
qed

text \<open>\<open>strconv.Atoi\<close>: an optional sign and decimal digits, within the range of a 64-bit integer.\<close>

definition digits_value :: "str \<Rightarrow> nat" where
  "digits_value ds = foldl (\<lambda>n c. n * 10 + (c - 48)) 0 ds"

definition decimal :: "str \<Rightarrow> nat option" where
  "decimal ds = (if ds \<noteq> [] \<and> list_all is_digit ds then Some (digits_value ds) else None)"

definition int64 :: "int \<Rightarrow> int option" where
  "int64 i = (if - (2 ^ 63) \<le> i \<and> i < 2 ^ 63 then Some i else None)"

definition Atoi :: "str \<Rightarrow> int option" where
  "Atoi s =
     (let (neg, ds) = (case s of c # r \<Rightarrow> if c = 45 then (True, r) else if c = 43 then (False, r) else (False, s)
                       | [] \<Rightarrow> (False, [])) in
      case decimal ds of None \<Rightarrow> None | Some n \<Rightarrow> int64 (if neg then - int n else int n))"

lemma digits_value_snoc: "digits_value (ds @ [48 + k]) = digits_value ds * 10 + k"
  by (simp add: digits_value_def)

lemma digits_of_value: "digits_value (digits_of n) = n \<and> list_all is_digit (digits_of n)"
proof (induction n rule: digits_of.induct)
  case (1 n)
  show ?case
  proof (cases "n < 10")
    case True
    then show ?thesis by (simp add: digits_of.simps [of n] digits_value_def is_digit_def)
  next
    case False
    with 1 show ?thesis
      by (simp add: digits_of.simps [of n] digits_value_snoc is_digit_def)
  qed
qed

lemma Atoi_itoa: "- (2 ^ 63) \<le> i \<Longrightarrow> i < 2 ^ 63 \<Longrightarrow> Atoi (itoa i) = Some i"
proof -
  assume r: "- (2 ^ 63) \<le> i" "i < 2 ^ 63"
  have d: "decimal (digits_of n) = Some n" for n
    using digits_of_value [of n] digits_of_nonempty [of n] by (simp add: decimal_def)
  have h: "hd (digits_of n) \<noteq> 45 \<and> hd (digits_of n) \<noteq> 43" for n
    using digits_of_value [of n] digits_of_nonempty [of n]
    by (cases "digits_of n") (auto simp: is_digit_def)
  show ?thesis
  proof (cases "i < 0")
    case True
    then show ?thesis using r by (simp add: Atoi_def itoa_def d int64_def)
  next
    case False
    obtain c cs where c: "digits_of (nat i) = c # cs" using digits_of_nonempty [of "nat i"] by (cases "digits_of (nat i)") auto
    then have "c \<noteq> 45" "c \<noteq> 43" using h [of "nat i"] by auto
    then show ?thesis using False r d [of "nat i"] c by (simp add: Atoi_def itoa_def int64_def)
  qed
qed

section \<open>Trimming and length checks\<close>

text \<open>\<open>unicode.IsSpace\<close>, \<open>strings.TrimSpace\<close> and \<open>strings.TrimRight(s, " ")\<close>.\<close>

definition is_space :: "nat \<Rightarrow> bool" where
  "is_space c \<longleftrightarrow> (9 \<le> c \<and> c \<le> 13) \<or> c = 32 \<or> c = 133 \<or> c = 160 \<or> c = 5760 \<or>
     (8192 \<le> c \<and> c \<le> 8202) \<or> c = 8232 \<or> c = 8233 \<or> c = 8239 \<or> c = 8287 \<or> c = 12288"

definition trim_by :: "(nat \<Rightarrow> bool) \<Rightarrow> str \<Rightarrow> str" where
  "trim_by p s = rev (dropWhile p (rev (dropWhile p s)))"

definition TrimSpace :: "str \<Rightarrow> str" where
  "TrimSpace s = trim_by is_space s"

definition TrimRightBlank :: "str \<Rightarrow> str" where
  "TrimRightBlank s = rev (dropWhile (\<lambda>c. c = 32) (rev s))"

definition btrim :: "str \<Rightarrow> str" where
  \<comment> \<open>PostgreSQL's \<open>btrim\<close>, which removes spaces only\<close>
  "btrim s = trim_by (\<lambda>c. c = 32) s"

lemma hd_dropWhile_not: "dropWhile p xs \<noteq> [] \<Longrightarrow> \<not> p (hd (dropWhile p xs))"
  by (rule hd_dropWhile)

lemma trim_by_ends:
  assumes "trim_by p s \<noteq> []"
  shows "\<not> p (hd (trim_by p s)) \<and> \<not> p (last (trim_by p s))"
proof -
  let ?a = "dropWhile p s" and ?b = "dropWhile p (rev (dropWhile p s))"
  have b: "?b \<noteq> []" using assms by (simp add: trim_by_def)
  obtain zs where zs: "rev ?a = zs @ ?b" by (metis takeWhile_dropWhile_id)
  have a: "?a = rev ?b @ rev zs" using zs by (metis rev_append rev_rev_ident)
  have "\<not> p (hd ?b)" using b by (rule hd_dropWhile)
  moreover have "\<not> p (last ?b)"
  proof -
    have "?a \<noteq> []" using b by (metis dropWhile.simps(1) rev.simps(1))
    then have "\<not> p (hd ?a)" by (rule hd_dropWhile)
    moreover have "hd ?a = last ?b" using a b by (metis hd_append2 hd_rev rev_is_Nil_conv)
    ultimately show ?thesis by simp
  qed
  ultimately show ?thesis using b by (simp add: trim_by_def hd_rev last_rev)
qed

lemma trim_by_id: "s = [] \<or> (\<not> p (hd s) \<and> \<not> p (last s)) \<Longrightarrow> trim_by p s = s"
proof (cases s)
  case (Cons x xs)
  assume "s = [] \<or> (\<not> p (hd s) \<and> \<not> p (last s))"
  then have "\<not> p x" and l: "\<not> p (last s)" using Cons by auto
  then have "dropWhile p s = s" using Cons by simp
  moreover have "dropWhile p (rev s) = rev s"
    unfolding dropWhile_eq_self_iff using l by (simp add: hd_rev)
  ultimately show ?thesis by (simp add: trim_by_def)
qed (simp add: trim_by_def)

lemma trim_by_idem [simp]: "trim_by p (trim_by p s) = trim_by p s"
  using trim_by_ends [of p s] by (intro trim_by_id) auto

lemma set_trim_by: "set (trim_by p s) \<subseteq> set s"
  unfolding trim_by_def set_rev by (metis set_dropWhileD set_rev subsetI)

lemma TrimSpace_idem [simp]: "TrimSpace (TrimSpace s) = TrimSpace s"
  by (simp add: TrimSpace_def)

lemma btrim_idem [simp]: "btrim (btrim s) = btrim s"
  by (simp add: btrim_def)

text \<open>
  \<open>tooLong\<close> ignores trailing spaces, as \<open>varchar(n)\<close> drops them; \<open>firstProblem\<close> returns the first
  message that is not empty.
\<close>

definition tooLong :: "str \<Rightarrow> str \<Rightarrow> nat \<Rightarrow> str" where
  "tooLong field value mx =
     (if length (TrimRightBlank value) > mx
      then field @ u '' must be at most '' @ itoa (int mx) @ u '' characters'' else [])"

fun firstProblem :: "str list \<Rightarrow> str" where
  "firstProblem [] = []"
| "firstProblem (m # ms) = (if m \<noteq> [] then m else firstProblem ms)"

lemma tooLong_ok_iff: "tooLong field value mx = [] \<longleftrightarrow> length (TrimRightBlank value) \<le> mx"
  by (auto simp: tooLong_def)

lemma firstProblem_ok_iff: "firstProblem ms = [] \<longleftrightarrow> (\<forall>m \<in> set ms. m = [])"
  by (induction ms) auto

text \<open>Optional text: \<open>blankToNil\<close>, a query parameter that may be absent, and the list of the values present.\<close>

definition blankToNil :: "str option \<Rightarrow> str option" where
  "blankToNil z = Option.bind z (\<lambda>s. let t = TrimSpace s in if t \<noteq> [] then Some t else None)"

definition optional_text :: "str \<Rightarrow> str option" where
  "optional_text raw = (let s = TrimSpace raw in if s \<noteq> [] then Some s else None)"

definition positiveQueryID :: "str \<Rightarrow> int" where
  "positiveQueryID param = (case Atoi param of Some i \<Rightarrow> if 1 \<le> i then i else 0 | None \<Rightarrow> 0)"

definition opt_list :: "'a option \<Rightarrow> 'a list" where
  "opt_list z = (case z of None \<Rightarrow> [] | Some x \<Rightarrow> [x])"

definition between :: "nat \<Rightarrow> nat \<Rightarrow> str \<Rightarrow> bool" where
  "between a b s \<longleftrightarrow> a \<le> length s \<and> length s \<le> b"

text \<open>\<open>truncateChars\<close>: at most n characters, the last one an ellipsis when text was cut.\<close>

definition truncateChars :: "str \<Rightarrow> nat \<Rightarrow> str" where
  "truncateChars s n =
     (if length s \<le> n then s else if n < 1 then [] else take (n - 1) s @ [8230])"

lemma truncateChars_length: "length (truncateChars s n) \<le> n"
  by (simp add: truncateChars_def)

lemma truncateChars_id: "length s \<le> n \<Longrightarrow> truncateChars s n = s"
  by (simp add: truncateChars_def)

section \<open>Prefixes, searching and splitting\<close>

fun has_prefix :: "str \<Rightarrow> str \<Rightarrow> bool" where
  "has_prefix s [] = True"
| "has_prefix [] (p # ps) = False"
| "has_prefix (c # s) (p # ps) = (c = p \<and> has_prefix s ps)"

definition trim_prefix :: "str \<Rightarrow> str \<Rightarrow> str" where
  "trim_prefix s p = (if has_prefix s p then drop (length p) s else s)"

lemma has_prefix_iff: "has_prefix s p \<longleftrightarrow> (\<exists>r. s = p @ r)"
  by (induction s p rule: has_prefix.induct) auto

lemma has_prefix_append [simp]: "has_prefix (p @ r) p"
  by (auto simp: has_prefix_iff)

fun contains :: "str \<Rightarrow> str \<Rightarrow> bool" where
  "contains [] p = (p = [])"
| "contains (c # s) p = (has_prefix (c # s) p \<or> contains s p)"

text \<open>\<open>strings.Split\<close> on one character: always at least one piece.\<close>

fun split_on :: "nat \<Rightarrow> str \<Rightarrow> str list" where
  "split_on d [] = [[]]"
| "split_on d (c # s) =
     (if c = d then [] # split_on d s
      else (case split_on d s of [] \<Rightarrow> [[c]] | p # ps \<Rightarrow> (c # p) # ps))"

lemma split_on_nonempty [simp]: "split_on d s \<noteq> []"
  by (induction s) (auto split: list.splits)

fun join_with :: "str \<Rightarrow> str list \<Rightarrow> str" where
  "join_with sep [] = []"
| "join_with sep [x] = x"
| "join_with sep (x # y # xs) = x @ sep @ join_with sep (y # xs)"

lemma join_with_cons_char: "join_with sep ((c # p) # ps) = c # join_with sep (p # ps)"
  by (cases ps) simp_all

lemma join_with_cons_empty: "ps \<noteq> [] \<Longrightarrow> join_with sep ([] # ps) = sep @ join_with sep ps"
  by (cases ps) simp_all

lemma split_on_join: "join_with [d] (split_on d s) = s"
proof (induction s)
  case (Cons c s)
  then show ?case
    by (cases "split_on d s") (auto simp: join_with_cons_char join_with_cons_empty)
qed simp

lemma split_on_no_sep: "p \<in> set (split_on d s) \<Longrightarrow> d \<notin> set p"
proof (induction s arbitrary: p)
  case (Cons c s)
  then show ?case
    by (cases "split_on d s") (auto split: if_splits)
qed simp

definition Fields :: "str \<Rightarrow> str list" where
  \<comment> \<open>\<open>strings.Fields\<close>\<close>
  "Fields s = filter (\<lambda>p. p \<noteq> []) (split_on 32 (map (\<lambda>c. if is_space c then 32 else c) s))"

text \<open>The target of a settings change in the activity log.\<close>

definition MaxActivityTargetID :: nat where "MaxActivityTargetID = 64"

definition SettingKeysTarget :: "str list \<Rightarrow> str" where
  "SettingKeysTarget keys = truncateChars (join_with (u '','') keys) MaxActivityTargetID"

section \<open>Lists used as tables\<close>

text \<open>
  A table is the list of its rows in insertion order. \<open>SELECT ... ORDER BY k LIMIT 1\<close> is the least
  row under k, and \<open>SUM\<close> a sum over the rows.
\<close>

definition upd_where :: "('r \<Rightarrow> bool) \<Rightarrow> ('r \<Rightarrow> 'r) \<Rightarrow> 'r list \<Rightarrow> 'r list" where
  "upd_where p f rs = map (\<lambda>r. if p r then f r else r) rs"

definition del_where :: "('r \<Rightarrow> bool) \<Rightarrow> 'r list \<Rightarrow> 'r list" where
  "del_where p rs = filter (\<lambda>r. \<not> p r) rs"

definition count_where :: "('r \<Rightarrow> bool) \<Rightarrow> 'r list \<Rightarrow> int" where
  "count_where p rs = int (length (filter p rs))"

fun first_by :: "('r \<Rightarrow> 'k :: linorder) \<Rightarrow> 'r list \<Rightarrow> 'r option" where
  "first_by k [] = None"
| "first_by k (r # rs) =
     (case first_by k rs of None \<Rightarrow> Some r | Some q \<Rightarrow> if k r \<le> k q then Some r else Some q)"

lemma first_by_None [simp]: "first_by k rs = None \<longleftrightarrow> rs = []"
  by (cases rs) (auto split: option.splits)

lemma first_by_mem: "first_by k rs = Some r \<Longrightarrow> r \<in> set rs"
  by (induction rs arbitrary: r) (auto split: option.splits if_splits)

lemma first_by_le: "first_by k rs = Some r \<Longrightarrow> q \<in> set rs \<Longrightarrow> k r \<le> k q"
proof (induction rs arbitrary: r q)
  case (Cons x rs)
  show ?case
  proof (cases "first_by k rs")
    case None
    then have "rs = []" by simp
    with Cons.prems show ?thesis by simp
  next
    case (Some m)
    have m: "k m \<le> k p" if "p \<in> set rs" for p using Cons.IH [OF Some that] .
    show ?thesis
    proof (cases "k x \<le> k m")
      case True
      then have "r = x" using Cons.prems(1) Some by simp
      with True m Cons.prems(2) show ?thesis by (auto intro: order_trans)
    next
      case False
      then have "r = m" using Cons.prems(1) Some by simp
      with False m Cons.prems(2) show ?thesis by auto
    qed
  qed
qed simp

lemma first_by_eqI:
  assumes "r \<in> set rs" and "\<And>q. q \<in> set rs \<Longrightarrow> k q \<le> k r \<Longrightarrow> q = r"
  shows "first_by k rs = Some r"
proof -
  obtain q where q: "first_by k rs = Some q"
    using assms(1) by (cases "first_by k rs") auto
  have "q \<in> set rs" and "k q \<le> k r"
    using first_by_mem [OF q] first_by_le [OF q assms(1)] by simp_all
  then have "q = r" by (rule assms(2))
  with q show ?thesis by simp
qed

lemma set_upd_where: "set (upd_where p f rs) = {f r | r. r \<in> set rs \<and> p r} \<union> {r \<in> set rs. \<not> p r}"
  by (auto simp: upd_where_def)

lemma map_upd_where: "(\<And>r. p r \<Longrightarrow> g (f r) = g r) \<Longrightarrow> map g (upd_where p f rs) = map g rs"
  by (simp add: upd_where_def)

lemma length_upd_where [simp]: "length (upd_where p f rs) = length rs"
  by (simp add: upd_where_def)

lemma set_del_where [simp]: "set (del_where p rs) = {r \<in> set rs. \<not> p r}"
  by (auto simp: del_where_def)

lemma distinct_map_del_where: "distinct (map g rs) \<Longrightarrow> distinct (map g (del_where p rs))"
  by (simp add: del_where_def distinct_map inj_on_def)

lemma distinct_map_snoc:
  "distinct (map g (rs @ [r])) \<longleftrightarrow> distinct (map g rs) \<and> g r \<notin> g ` set rs"
  by simp

definition sum_where :: "('r \<Rightarrow> bool) \<Rightarrow> ('r \<Rightarrow> int) \<Rightarrow> 'r list \<Rightarrow> int" where
  "sum_where p f rs = sum_list (map f (filter p rs))"

lemma sum_where_simps [simp]:
  "sum_where p f [] = 0"
  "sum_where p f (r # rs) = (if p r then f r else 0) + sum_where p f rs"
  "sum_where p f (rs @ qs) = sum_where p f rs + sum_where p f qs"
  by (simp_all add: sum_where_def)

lemma sum_where_nonneg: "(\<And>r. r \<in> set rs \<Longrightarrow> p r \<Longrightarrow> 0 \<le> f r) \<Longrightarrow> 0 \<le> sum_where p f rs"
  by (induction rs) auto

lemma sum_where_none: "(\<And>r. r \<in> set rs \<Longrightarrow> \<not> p r) \<Longrightarrow> sum_where p f rs = 0"
  by (induction rs) auto

lemma sum_where_cong:
  "(\<And>r. r \<in> set rs \<Longrightarrow> p r = q r) \<Longrightarrow> (\<And>r. r \<in> set rs \<Longrightarrow> p r \<Longrightarrow> f r = g r) \<Longrightarrow>
   sum_where p f rs = sum_where q g rs"
  by (induction rs) auto

lemma map_sort_key: "map f (sort_key (\<lambda>x. g (f x)) xs) = sort_key g (map f xs)"
proof -
  have "map f (insort_key (\<lambda>x. g (f x)) x ys) = insort_key g (f x) (map f ys)" for x ys
    by (induction ys) auto
  then show ?thesis by (induction xs) (simp_all add: sort_key_def)
qed

end
