(* ===== verification/RateLimit.thy ===== *)
theory RateLimit
  imports Prelude "HOL-Library.AList"
begin

text \<open>
  The in-memory limiter of failed logins, \<open>internal/ratelimit/login.go\<close>. The Go map of entries is
  an association list with distinct keys, so its length is the number of tracked keys; a
  \<open>time.Time\<close> is a number of nanoseconds and \<open>Sub\<close> saturates at the bounds of \<open>time.Duration\<close>.
  Every method holds the mutex from its first statement to its last, so a concurrent execution is
  a sequence of whole method calls: the step relation \<open>gate_step\<close> is that sequence, with a ghost
  count of the attempts each key has in progress. The locale \<open>attempt_gate\<close> is what the login
  handlers rely on; \<open>gate\<close> is its interpretation on the limiter.
\<close>

section \<open>The limiter\<close>

datatype outcome = Released | Failed | Succeeded

record entry =
  start :: int
  failures :: int
  inFlight :: int

record limiter =
  MaxKeys :: int
  maxFailures :: int
  window :: int
  entries :: "(str \<times> entry) list"
  lastSweep :: int

definition DefaultMaxKeys :: int where
  "DefaultMaxKeys = 100000"

definition time_sub :: "int \<Rightarrow> int \<Rightarrow> int" where
  \<comment> \<open>\<open>time.Time.Sub\<close>: saturates at the bounds of \<open>time.Duration\<close>\<close>
  "time_sub a b = max (- (2 ^ 63)) (min (2 ^ 63 - 1) (a - b))"

definition second :: int where
  "second = 1000000000"

definition NewLoginLimiter :: "int \<Rightarrow> int \<Rightarrow> limiter" where
  "NewLoginLimiter mx win =
     \<lparr>MaxKeys = DefaultMaxKeys, maxFailures = mx, window = win, entries = [], lastSweep = 0\<rparr>"

definition expired :: "int \<Rightarrow> limiter \<Rightarrow> entry \<Rightarrow> bool" where
  "expired now l e \<longleftrightarrow> \<not> now < start e + window l"

definition sweep :: "int \<Rightarrow> limiter \<Rightarrow> limiter" where
  "sweep now l =
     (if time_sub now (lastSweep l) < window l then l
      else l\<lparr>lastSweep := now,
             entries := filter (\<lambda>(k, e). \<not> (inFlight e = 0 \<and> expired now l e)) (entries l)\<rparr>)"

definition put_entry :: "str \<Rightarrow> entry \<Rightarrow> limiter \<Rightarrow> limiter" where
  "put_entry key e l = l\<lparr>entries := AList.update key e (entries l)\<rparr>"

definition full :: "limiter \<Rightarrow> bool" where
  "full l \<longleftrightarrow> 0 < MaxKeys l \<and> MaxKeys l \<le> int (length (entries l))"

definition reserve :: "int \<Rightarrow> str \<Rightarrow> entry \<Rightarrow> limiter \<Rightarrow> (bool \<times> int) \<times> limiter" where
  \<comment> \<open>the end of \<open>Allow\<close>, once the key's entry is known\<close>
  "reserve now key e l =
     (if maxFailures l \<le> failures e + inFlight e
      then ((False, time_sub (start e + window l) now), put_entry key e l)
      else ((True, 0), put_entry key (e\<lparr>inFlight := inFlight e + 1\<rparr>) l))"

definition make_room :: "int \<Rightarrow> limiter \<Rightarrow> limiter" where
  \<comment> \<open>a full limiter sweeps again, at most once a second\<close>
  "make_room now l =
     (if full l \<and> second \<le> time_sub now (lastSweep l)
      then sweep now (l\<lparr>lastSweep := now - window l\<rparr>) else l)"

definition Allow :: "int \<Rightarrow> limiter \<Rightarrow> str \<Rightarrow> (bool \<times> int) \<times> limiter" where
  "Allow now l0 key =
     (let l = sweep now l0 in
      case map_of (entries l) key of
        None \<Rightarrow>
          (let l' = make_room now l in
           if full l' then ((False, window l'), l')
           else reserve now key \<lparr>start = now, failures = 0, inFlight = 0\<rparr> l')
      | Some e \<Rightarrow>
          reserve now key (if expired now l e then e\<lparr>start := now, failures := 0\<rparr> else e) l)"

definition Finish :: "limiter \<Rightarrow> str \<Rightarrow> outcome \<Rightarrow> limiter" where
  "Finish l key outc =
     (case map_of (entries l) key of
        None \<Rightarrow> l
      | Some e \<Rightarrow>
          (let e' = (if 0 < inFlight e then e\<lparr>inFlight := inFlight e - 1\<rparr> else e) in
           case outc of
             Released \<Rightarrow> put_entry key e' l
           | Failed \<Rightarrow> put_entry key (e'\<lparr>failures := failures e' + 1\<rparr>) l
           | Succeeded \<Rightarrow>
               (if inFlight e' = 0 then l\<lparr>entries := AList.delete key (entries l)\<rparr>
                else put_entry key (e'\<lparr>failures := 0\<rparr>) l)))"

definition Len :: "limiter \<Rightarrow> int" where
  "Len l = int (length (entries l))"

section \<open>Tracked entries\<close>

definition entry_of :: "limiter \<Rightarrow> str \<Rightarrow> entry option" where
  "entry_of l key = map_of (entries l) key"

lemma map_of_filter_keys:
  assumes "distinct (map fst xs)"
  shows "map_of (filter P xs) k = Some v \<longleftrightarrow> map_of xs k = Some v \<and> P (k, v)"
  using assms by (simp add: distinct_map_filter map_of_eq_Some_iff)

lemma length_alist_update:
  "length (AList.update k v xs) = (if k \<in> fst ` set xs then length xs else Suc (length xs))"
  by (induction xs) auto

lemma set_alist_update: "set (AList.update k v xs) \<subseteq> insert (k, v) (set xs)"
  by (induction xs) auto

lemma distinct_keys_update: "distinct (map fst xs) \<Longrightarrow> distinct (map fst (AList.update k v xs))"
  by (rule distinct_update)

definition tracked_ok :: "limiter \<Rightarrow> bool" where
  "tracked_ok l \<longleftrightarrow>
     0 \<le> maxFailures l \<and> distinct (map fst (entries l)) \<and>
     (0 < MaxKeys l \<longrightarrow> Len l \<le> MaxKeys l) \<and>
     (\<forall>(k, e) \<in> set (entries l). 0 \<le> failures e \<and> 0 \<le> inFlight e \<and>
        failures e + inFlight e \<le> maxFailures l)"

definition in_progress :: "limiter \<Rightarrow> str \<Rightarrow> int" where
  "in_progress l key = (case entry_of l key of None \<Rightarrow> 0 | Some e \<Rightarrow> inFlight e)"

definition locked_until :: "limiter \<Rightarrow> str \<Rightarrow> int \<Rightarrow> bool" where
  "locked_until l key t \<longleftrightarrow>
     (\<exists>e. entry_of l key = Some e \<and> failures e = maxFailures l \<and> start e + window l = t)"

lemma tracked_entry:
  assumes "tracked_ok l" "entry_of l k = Some e"
  shows "0 \<le> failures e" "0 \<le> inFlight e" "failures e + inFlight e \<le> maxFailures l"
proof -
  have m: "(k, e) \<in> set (entries l)" using assms(2) by (simp add: entry_of_def map_of_SomeD)
  have "\<forall>(k, e) \<in> set (entries l). 0 \<le> failures e \<and> 0 \<le> inFlight e \<and>
      failures e + inFlight e \<le> maxFailures l"
    using assms(1) by (simp add: tracked_ok_def)
  from bspec [OF this m]
  show "0 \<le> failures e" "0 \<le> inFlight e" "failures e + inFlight e \<le> maxFailures l" by simp_all
qed

lemma sweep_fields [simp]:
  "window (sweep now l) = window l" "maxFailures (sweep now l) = maxFailures l"
  "MaxKeys (sweep now l) = MaxKeys l"
  by (simp_all add: sweep_def)

lemma make_room_fields [simp]:
  "window (make_room now l) = window l" "maxFailures (make_room now l) = maxFailures l"
  "MaxKeys (make_room now l) = MaxKeys l"
  by (simp_all add: make_room_def)

lemma put_entry_fields [simp]:
  "window (put_entry k e l) = window l" "maxFailures (put_entry k e l) = maxFailures l"
  "MaxKeys (put_entry k e l) = MaxKeys l"
  by (simp_all add: put_entry_def)

lemma entry_of_put [simp]: "entry_of (put_entry k e l) k' = (if k' = k then Some e else entry_of l k')"
  by (simp add: put_entry_def entry_of_def update_conv)

lemma entry_of_sweep:
  assumes "tracked_ok l"
  shows "entry_of (sweep now l) k =
     (case entry_of l k of None \<Rightarrow> None
      | Some e \<Rightarrow> if window l \<le> time_sub now (lastSweep l) \<and> inFlight e = 0 \<and> expired now l e
                 then None else Some e)"
proof -
  have d: "distinct (map fst (entries l))" using assms by (simp add: tracked_ok_def)
  show ?thesis
    by (rule option_ext) (auto simp: sweep_def entry_of_def map_of_filter_keys [OF d] split: option.splits)
qed

lemma tracked_filter:
  assumes "tracked_ok l"
  shows "tracked_ok (l\<lparr>lastSweep := t, entries := filter P (entries l)\<rparr>)"
proof -
  have n: "int (length (filter P (entries l))) \<le> int (length (entries l))" by simp
  show ?thesis using assms
    by (auto simp: tracked_ok_def Len_def distinct_map_filter intro: order_trans [OF n])
qed

lemma tracked_sweep: "tracked_ok l \<Longrightarrow> tracked_ok (sweep now l)"
  by (simp add: sweep_def tracked_filter)

lemma tracked_lastSweep: "tracked_ok l \<Longrightarrow> tracked_ok (l\<lparr>lastSweep := t\<rparr>)"
  by (simp add: tracked_ok_def Len_def)

lemma sweep_shorter: "length (entries (sweep now l)) \<le> length (entries l)"
  by (simp add: sweep_def)

lemma make_room_shorter: "length (entries (make_room now l)) \<le> length (entries l)"
  using sweep_shorter [of now "l\<lparr>lastSweep := now - window l\<rparr>"] by (simp add: make_room_def)

lemma tracked_make_room: "tracked_ok l \<Longrightarrow> tracked_ok (make_room now l)"
  by (simp add: make_room_def tracked_sweep tracked_lastSweep)

lemma entry_of_lastSweep [simp]: "entry_of (l\<lparr>lastSweep := t\<rparr>) k = entry_of l k"
  by (simp add: entry_of_def)

text \<open>Sweeping only ever drops an entry that is idle and past its window.\<close>

lemma entry_of_make_room_cases:
  assumes "tracked_ok l"
  shows "entry_of (make_room now l) k = entry_of l k \<or>
    (\<exists>e. entry_of l k = Some e \<and> inFlight e = 0 \<and> expired now l e \<and> entry_of (make_room now l) k = None)"
  using assms
  by (auto simp: make_room_def entry_of_sweep tracked_lastSweep expired_def split: option.splits)

lemma entry_of_sweep_cases:
  assumes "tracked_ok l"
  shows "entry_of (sweep now l) k = entry_of l k \<or>
    (\<exists>e. entry_of l k = Some e \<and> inFlight e = 0 \<and> expired now l e \<and> entry_of (sweep now l) k = None)"
  using assms by (auto simp: entry_of_sweep split: option.splits)

lemma tracked_put:
  assumes "tracked_ok l" "0 \<le> failures e" "0 \<le> inFlight e" "failures e + inFlight e \<le> maxFailures l"
    and "entry_of l k \<noteq> None \<or> \<not> full l"
  shows "tracked_ok (put_entry k e l)"
proof -
  have len: "0 < MaxKeys l \<longrightarrow> Len (put_entry k e l) \<le> MaxKeys l"
    using assms(1,5)
    by (auto simp: put_entry_def Len_def length_alist_update tracked_ok_def full_def entry_of_def
        map_of_eq_None_iff)
  have "set (entries (put_entry k e l)) \<subseteq> insert (k, e) (set (entries l))"
    by (auto simp: put_entry_def dest: subsetD [OF set_alist_update])
  with assms len show ?thesis
    by (auto simp: tracked_ok_def put_entry_def distinct_update)
qed

section \<open>What one call does\<close>

lemma reserve_tracked:
  assumes "tracked_ok l" "0 \<le> failures e" "0 \<le> inFlight e" "failures e + inFlight e \<le> maxFailures l"
    and "entry_of l k \<noteq> None \<or> \<not> full l"
  shows "tracked_ok (snd (reserve now k e l))"
  using assms by (auto simp: reserve_def intro!: tracked_put)

lemma Allow_cases:
  obtains (refused) "entry_of (sweep now l0) k = None" "full (make_room now (sweep now l0))"
      "Allow now l0 k = ((False, window l0), make_room now (sweep now l0))"
  | (fresh) "entry_of (sweep now l0) k = None" "\<not> full (make_room now (sweep now l0))"
      "Allow now l0 k = reserve now k \<lparr>start = now, failures = 0, inFlight = 0\<rparr> (make_room now (sweep now l0))"
  | (renewed) e where "entry_of (sweep now l0) k = Some e" "expired now l0 e"
      "Allow now l0 k = reserve now k (e\<lparr>start := now, failures := 0\<rparr>) (sweep now l0)"
  | (current) e where "entry_of (sweep now l0) k = Some e" "\<not> expired now l0 e"
      "Allow now l0 k = reserve now k e (sweep now l0)"
proof (cases "entry_of (sweep now l0) k")
  case None
  then show thesis
    using refused fresh by (cases "full (make_room now (sweep now l0))") (auto simp: Allow_def entry_of_def Let_def)
next
  case (Some e)
  have "expired now (sweep now l0) e = expired now l0 e" by (simp add: expired_def)
  with Some show thesis
    using renewed current by (cases "expired now l0 e") (auto simp: Allow_def entry_of_def Let_def)
qed

lemma Allow_tracked:
  assumes "tracked_ok l"
  shows "tracked_ok (snd (Allow now l k))"
proof -
  have s: "tracked_ok (sweep now l)" using assms by (rule tracked_sweep)
  have max: "0 \<le> maxFailures l" using assms by (simp add: tracked_ok_def)
  show ?thesis
  proof (cases rule: Allow_cases [of now l k])
    case refused
    then show ?thesis using s by (simp add: tracked_make_room)
  next
    case fresh
    then show ?thesis using s max by (auto intro!: reserve_tracked tracked_make_room)
  next
    case (renewed e)
    then show ?thesis using s max tracked_entry [OF s renewed(1)] by (auto intro!: reserve_tracked)
  next
    case (current e)
    then show ?thesis using s max tracked_entry [OF s current(1)] by (auto intro!: reserve_tracked)
  qed
qed

lemma in_progress_sweep: "tracked_ok l \<Longrightarrow> in_progress (sweep now l) k = in_progress l k"
  using entry_of_sweep_cases [of l now k] by (auto simp: in_progress_def)

lemma in_progress_make_room: "tracked_ok l \<Longrightarrow> in_progress (make_room now l) k = in_progress l k"
  using entry_of_make_room_cases [of l now k] by (auto simp: in_progress_def)

lemma in_progress_reserve:
  "in_progress (snd (reserve now k e l)) k' =
     (if k' = k then inFlight e + (if fst (fst (reserve now k e l)) then 1 else 0) else in_progress l k')"
  by (simp add: reserve_def in_progress_def)

lemma Allow_in_progress:
  assumes "tracked_ok l"
  shows "in_progress (snd (Allow now l k)) k' =
    in_progress l k' + (if k' = k \<and> fst (fst (Allow now l k)) then 1 else 0)"
proof -
  have s: "tracked_ok (sweep now l)" using assms by (rule tracked_sweep)
  have p: "in_progress (sweep now l) k' = in_progress l k'" for k'
    using assms by (rule in_progress_sweep)
  have q: "in_progress (make_room now (sweep now l)) k' = in_progress l k'" for k'
    using in_progress_make_room [OF s] p by simp
  show ?thesis
  proof (cases rule: Allow_cases [of now l k])
    case refused
    then show ?thesis using q by simp
  next
    case fresh
    moreover have "in_progress l k = 0" using fresh(1) p [of k] by (simp add: in_progress_def)
    ultimately show ?thesis using q by (simp add: in_progress_reserve)
  next
    case (renewed e)
    moreover have "in_progress l k = inFlight e" using renewed(1) p [of k] by (simp add: in_progress_def)
    ultimately show ?thesis using p by (simp add: in_progress_reserve)
  next
    case (current e)
    moreover have "in_progress l k = inFlight e" using current(1) p [of k] by (simp add: in_progress_def)
    ultimately show ?thesis using p by (simp add: in_progress_reserve)
  qed
qed

lemma reserve_fields:
  "window (snd (reserve now k e l)) = window l"
  "maxFailures (snd (reserve now k e l)) = maxFailures l"
  "MaxKeys (snd (reserve now k e l)) = MaxKeys l"
  by (simp_all add: reserve_def)

lemma Allow_fields [simp]:
  "window (snd (Allow now l k)) = window l"
  "maxFailures (snd (Allow now l k)) = maxFailures l"
  "MaxKeys (snd (Allow now l k)) = MaxKeys l"
  by (cases rule: Allow_cases [of now l k]; simp add: reserve_fields)+

lemma locked_sweep:
  assumes "tracked_ok l" "locked_until l k t" "now < t"
  shows "entry_of (sweep now l) k = entry_of l k" "entry_of (make_room now (sweep now l)) k = entry_of l k"
proof -
  obtain e where e: "entry_of l k = Some e" and t: "start e + window l = t"
    using assms(2) by (auto simp: locked_until_def)
  have live: "\<not> expired now l e" using t assms(3) by (simp add: expired_def)
  show s: "entry_of (sweep now l) k = entry_of l k"
    using entry_of_sweep_cases [OF assms(1), of now k] e live by auto
  have "\<not> expired now (sweep now l) e" using live by (simp add: expired_def)
  then show "entry_of (make_room now (sweep now l)) k = entry_of l k"
    using entry_of_make_room_cases [of "sweep now l" now k] tracked_sweep [OF assms(1)] e s by auto
qed

lemma Allow_locked:
  assumes ok: "tracked_ok l" and lock: "locked_until l k t" and now: "now < t"
  shows "fst (Allow now l k) = (False, time_sub t now)"
proof -
  obtain e where e: "entry_of l k = Some e" "failures e = maxFailures l" and t: "start e + window l = t"
    using lock by (auto simp: locked_until_def)
  have s: "entry_of (sweep now l) k = Some e" using locked_sweep [OF assms] e by simp
  have live: "\<not> expired now l e" using t now by (simp add: expired_def)
  have "0 \<le> inFlight e" using tracked_entry [OF ok e(1)] by simp
  then have "fst (reserve now k e (sweep now l)) = (False, time_sub t now)"
    using e(2) t by (simp add: reserve_def)
  then show ?thesis
    by (cases rule: Allow_cases [of now l k]) (use s live in auto)
qed

lemma reserve_other: "k \<noteq> k' \<Longrightarrow> entry_of (snd (reserve now k' e l)) k = entry_of l k"
  by (simp add: reserve_def)

lemma Allow_keeps_lock:
  assumes ok: "tracked_ok l" and lock: "locked_until l k t" and now: "now < t"
  shows "locked_until (snd (Allow now l k')) k t"
proof -
  have ls: "entry_of (sweep now l) k = entry_of l k" "entry_of (make_room now (sweep now l)) k = entry_of l k"
    using locked_sweep [OF assms] by auto
  obtain e where e: "entry_of l k = Some e" "failures e = maxFailures l" and t: "start e + window l = t"
    using lock by (auto simp: locked_until_def)
  have live: "\<not> expired now l e" using t now by (simp add: expired_def)
  have "entry_of (snd (Allow now l k')) k = Some e"
  proof (cases "k' = k")
    case False
    then show ?thesis
      by (cases rule: Allow_cases [of now l k']) (use ls e in \<open>auto simp: reserve_other\<close>)
  next
    case True
    have "0 \<le> inFlight e" using tracked_entry [OF ok e(1)] by simp
    then have "entry_of (snd (reserve now k e (sweep now l))) k = Some e"
      using e(2) by (simp add: reserve_def)
    then show ?thesis
      by (cases rule: Allow_cases [of now l k']) (use ls e True live in auto)
  qed
  then show ?thesis using e(2) t by (auto simp: locked_until_def)
qed

lemma Finish_cases:
  assumes "entry_of l k = Some e" "0 < inFlight e"
  shows "Finish l k oc = (case oc of
      Released \<Rightarrow> put_entry k (e\<lparr>inFlight := inFlight e - 1\<rparr>) l
    | Failed \<Rightarrow> put_entry k (e\<lparr>inFlight := inFlight e - 1, failures := failures e + 1\<rparr>) l
    | Succeeded \<Rightarrow> if inFlight e = 1 then l\<lparr>entries := AList.delete k (entries l)\<rparr>
        else put_entry k (e\<lparr>inFlight := inFlight e - 1, failures := 0\<rparr>) l)"
  using assms by (simp add: Finish_def entry_of_def Let_def split: outcome.split)

lemma entry_of_delete [simp]:
  "entry_of (l\<lparr>entries := AList.delete k (entries l)\<rparr>) k' = (if k' = k then None else entry_of l k')"
  by (simp add: entry_of_def delete_conv)

lemma tracked_delete: "tracked_ok l \<Longrightarrow> tracked_ok (l\<lparr>entries := AList.delete k (entries l)\<rparr>)"
  using tracked_filter [of l, where t = "lastSweep l" and P = "\<lambda>(k', e). k \<noteq> k'"] by (simp add: AList.delete_eq)

lemma busy_entry:
  assumes "0 < in_progress l k"
  obtains e where "entry_of l k = Some e" "0 < inFlight e" "in_progress l k = inFlight e"
  using assms by (auto simp: in_progress_def split: option.splits)

lemma Finish_tracked:
  assumes ok: "tracked_ok l" and busy: "0 < in_progress l k"
  shows "tracked_ok (Finish l k oc)"
proof -
  obtain e where e: "entry_of l k = Some e" "0 < inFlight e" using busy by (rule busy_entry)
  show ?thesis
    using tracked_entry [OF ok e(1)] e ok
    by (auto simp: Finish_cases [OF e] tracked_delete intro!: tracked_put split: outcome.split)
qed

lemma Finish_in_progress:
  assumes busy: "0 < in_progress l k"
  shows "in_progress (Finish l k oc) k' = in_progress l k' - (if k' = k then 1 else 0)"
proof -
  obtain e where e: "entry_of l k = Some e" "0 < inFlight e" "in_progress l k = inFlight e"
    using busy by (rule busy_entry)
  show ?thesis
    using e(3) by (auto simp: Finish_cases [OF e(1,2)] in_progress_def split: outcome.split)
qed

lemma Finish_fields:
  "window (Finish l k oc) = window l" "maxFailures (Finish l k oc) = maxFailures l"
  "MaxKeys (Finish l k oc) = MaxKeys l"
  by (simp_all add: Finish_def Let_def split: option.split outcome.split)

lemma Finish_keeps_lock:
  assumes ok: "tracked_ok l" and lock: "locked_until l k t" and busy: "0 < in_progress l k'"
  shows "locked_until (Finish l k' oc) k t"
proof -
  obtain e where e: "entry_of l k = Some e" "failures e = maxFailures l"
    using lock by (auto simp: locked_until_def)
  have "inFlight e = 0" using tracked_entry [OF ok e(1)] e(2) by simp
  then have "in_progress l k = 0" using e(1) by (simp add: in_progress_def)
  then have ne: "k' \<noteq> k" using busy by auto
  obtain e' where e': "entry_of l k' = Some e'" "0 < inFlight e'" using busy by (rule busy_entry)
  have "entry_of (Finish l k' oc) k = entry_of l k"
    using ne by (simp add: Finish_cases [OF e'] split: outcome.split)
  then show ?thesis using lock by (simp add: locked_until_def Finish_fields)
qed

section \<open>What the login handlers rely on\<close>

text \<open>
  \<open>gate_run allow finish t s out s' out'\<close>: calls made before time t lead from gate s to s'. The
  ghost function out counts the attempts in progress of each key: a granted \<open>Allow\<close> opens one and
  a \<open>Finish\<close> closes one, which is how every handler pairs them.
\<close>

inductive gate_run ::
    "(int \<Rightarrow> 's \<Rightarrow> str \<Rightarrow> (bool \<times> int) \<times> 's) \<Rightarrow> ('s \<Rightarrow> str \<Rightarrow> outcome \<Rightarrow> 's) \<Rightarrow> int \<Rightarrow>
     's \<Rightarrow> (str \<Rightarrow> int) \<Rightarrow> 's \<Rightarrow> (str \<Rightarrow> int) \<Rightarrow> bool"
  for allow finish t s out where
  run_start: "gate_run allow finish t s out s out"
| run_allow: "gate_run allow finish t s out s' out' \<Longrightarrow> now < t \<Longrightarrow> allow now s' k = ((granted, wait), s'') \<Longrightarrow>
     gate_run allow finish t s out s'' (if granted then out'(k := out' k + 1) else out')"
| run_finish: "gate_run allow finish t s out s' out' \<Longrightarrow> 0 < out' k \<Longrightarrow>
     gate_run allow finish t s out (finish s' k oc) (out'(k := out' k - 1))"

locale attempt_gate =
  fixes allow :: "int \<Rightarrow> 's \<Rightarrow> str \<Rightarrow> (bool \<times> int) \<times> 's"
    and finish :: "'s \<Rightarrow> str \<Rightarrow> outcome \<Rightarrow> 's"
    and ok :: "'s \<Rightarrow> bool"
    and busy :: "'s \<Rightarrow> str \<Rightarrow> int"
    and locked :: "'s \<Rightarrow> str \<Rightarrow> int \<Rightarrow> bool"
  assumes allow_ok: "ok s \<Longrightarrow> ok (snd (allow now s k))"
    and allow_busy: "ok s \<Longrightarrow> busy (snd (allow now s k)) k' =
          busy s k' + (if k' = k \<and> fst (fst (allow now s k)) then 1 else 0)"
    and allow_locked: "ok s \<Longrightarrow> locked s k t \<Longrightarrow> now < t \<Longrightarrow>
          fst (allow now s k) = (False, time_sub t now)"
    and allow_keeps_lock: "ok s \<Longrightarrow> locked s k t \<Longrightarrow> now < t \<Longrightarrow> locked (snd (allow now s k')) k t"
    and finish_ok: "ok s \<Longrightarrow> 0 < busy s k \<Longrightarrow> ok (finish s k oc)"
    and finish_busy: "ok s \<Longrightarrow> 0 < busy s k \<Longrightarrow>
          busy (finish s k oc) k' = busy s k' - (if k' = k then 1 else 0)"
    and finish_keeps_lock: "ok s \<Longrightarrow> locked s k t \<Longrightarrow> 0 < busy s k' \<Longrightarrow> locked (finish s k' oc) k t"
begin

lemma run_ok:
  assumes "gate_run allow finish t s out s' out'" "ok s" "\<And>k. busy s k = out k"
  shows "ok s' \<and> (\<forall>k. busy s' k = out' k)"
  using assms
proof (induction rule: gate_run.induct)
  case (run_allow s' out' now k granted wait s'')
  then have "ok s'" "\<forall>k. busy s' k = out' k" by auto
  then show ?case
    using allow_ok [of s' now k] allow_busy [of s' now k] run_allow.hyps(3) by auto
next
  case (run_finish s' out' k oc)
  then have "ok s'" "\<forall>k. busy s' k = out' k" by auto
  then show ?case
    using finish_ok [of s' k oc] finish_busy [of s' k oc] run_finish.hyps(2) by auto
qed simp

lemma lock_holds:
  assumes "gate_run allow finish t s out s' out'" "ok s" "\<And>k. busy s k = out k" "locked s k t"
  shows "ok s' \<and> locked s' k t"
  using assms
proof (induction rule: gate_run.induct)
  case (run_allow s' out' now k' granted wait s'')
  then have "ok s'" "locked s' k t" by auto
  then show ?case
    using allow_ok [of s' now k'] allow_keeps_lock [of s' k t now k'] run_allow.hyps(2,3) by auto
next
  case (run_finish s' out' k' oc)
  then have ok: "ok s'" and l: "locked s' k t" by auto
  have "busy s' k' = out' k'" using run_ok [OF run_finish.hyps(1) run_finish.prems(1,2)] by simp
  then show ?case
    using finish_ok [OF ok, of k' oc] finish_keeps_lock [OF ok l, of k' oc] run_finish.hyps(2) by simp
qed simp

lemma locked_out:
  assumes "gate_run allow finish t s out s' out'" "ok s" "\<And>k. busy s k = out k" "locked s k t" "now < t"
  shows "fst (allow now s' k) = (False, time_sub t now)"
  using lock_holds [OF assms(1-4)] allow_locked [of s' k t now] assms(5) by simp

end

interpretation gate: attempt_gate Allow Finish tracked_ok in_progress locked_until
  by unfold_locales
    (simp_all add: Allow_tracked Allow_in_progress Allow_locked Allow_keeps_lock
      Finish_tracked Finish_in_progress Finish_keeps_lock)

lemma new_limiter_ok: "0 \<le> mx \<Longrightarrow> tracked_ok (NewLoginLimiter mx win)"
  by (simp add: NewLoginLimiter_def tracked_ok_def DefaultMaxKeys_def Len_def)

lemma new_limiter_idle [simp]: "in_progress (NewLoginLimiter mx win) k = 0"
  by (simp add: NewLoginLimiter_def in_progress_def entry_of_def)

lemma run_fields:
  assumes "gate_run Allow Finish t l out l' out'"
  shows "window l' = window l \<and> maxFailures l' = maxFailures l \<and> MaxKeys l' = MaxKeys l"
  using assms
proof (induction rule: gate_run.induct)
  case (run_allow s' out' now k granted wait s'')
  then show ?case using Allow_fields [of now s' k] by simp
qed (simp_all add: Finish_fields)

lemma run_from_new:
  assumes "gate_run Allow Finish t (NewLoginLimiter mx win) (\<lambda>_. 0) l out" "0 \<le> mx"
  shows "tracked_ok l \<and> (\<forall>k. in_progress l k = out k) \<and> maxFailures l = mx \<and> window l = win \<and>
    MaxKeys l = DefaultMaxKeys"
proof -
  have "tracked_ok l \<and> (\<forall>k. in_progress l k = out k)"
    by (rule gate.run_ok [OF assms(1)]) (simp_all add: new_limiter_ok assms(2))
  moreover have "window (NewLoginLimiter mx win) = win" "maxFailures (NewLoginLimiter mx win) = mx"
    "MaxKeys (NewLoginLimiter mx win) = DefaultMaxKeys"
    by (simp_all add: NewLoginLimiter_def)
  ultimately show ?thesis using run_fields [OF assms(1)] by simp
qed

section \<open>Properties\<close>

text \<open>
  A run used by the witnesses: one failed attempt and one in progress for the key "a".
\<close>

definition one_failure :: limiter where
  "one_failure = Finish (snd (Allow 10 (NewLoginLimiter 1 100) (u ''a''))) (u ''a'') Failed"

lemma one_failure_run:
  "gate_run Allow Finish 50 (NewLoginLimiter 1 100) (\<lambda>_. 0) one_failure ((\<lambda>_. 0)(u ''a'' := 0))"
proof -
  have a: "Allow 10 (NewLoginLimiter 1 100) (u ''a'') =
      ((True, 0), snd (Allow 10 (NewLoginLimiter 1 100) (u ''a'')))"
    by code_simp
  have "gate_run Allow Finish 50 (NewLoginLimiter 1 100) (\<lambda>_. 0)
      (snd (Allow 10 (NewLoginLimiter 1 100) (u ''a''))) ((\<lambda>_. 0)(u ''a'' := 1))"
    using gate_run.run_allow [where allow = Allow and now = 10 and t = 50 and granted = True,
        OF gate_run.run_start _ a, of Finish "\<lambda>_. 0"] by simp
  from gate_run.run_finish [OF this, of "u ''a''" Failed] show ?thesis
    by (simp add: one_failure_def)
qed

lemma one_failure_entry:
  "entry_of one_failure (u ''a'') = Some \<lparr>start = 10, failures = 1, inFlight = 0\<rparr>"
  by code_simp

text \<open>C4. However attempts of all keys interleave, failed attempts counted in a key's window plus
  attempts still in progress never exceed the limit, the attempts in progress are exactly the
  granted ones not yet finished, and the limiter never tracks more than \<open>DefaultMaxKeys\<close> keys.\<close>

theorem limiter_bound:
  assumes "gate_run Allow Finish t (NewLoginLimiter mx win) (\<lambda>_. 0) l out" "0 \<le> mx"
    and "entry_of l key = Some e"
  shows "0 \<le> failures e \<and> inFlight e = out key \<and> failures e + out key \<le> mx \<and> Len l \<le> DefaultMaxKeys"
proof -
  have l: "tracked_ok l" "in_progress l key = out key" "maxFailures l = mx" "MaxKeys l = DefaultMaxKeys"
    using run_from_new [OF assms(1,2)] by auto
  have "Len l \<le> DefaultMaxKeys" using l(1,4) by (simp add: tracked_ok_def DefaultMaxKeys_def)
  then show ?thesis
    using tracked_entry [OF l(1) assms(3)] l(2,3) assms(3) by (simp add: in_progress_def)
qed

theorem limiter_bound_witness: "(1::int) + 0 \<le> 1 \<and> Len one_failure \<le> DefaultMaxKeys"
  using limiter_bound [OF one_failure_run _ one_failure_entry] by simp

text \<open>C12. A lockout cannot be lifted early: once a key has used up its failures, every \<open>Allow\<close> of
  that key before its window ends is refused with the time left, whatever attempts of whatever
  other keys (a flood of new ones included) come in between.\<close>

theorem lockout_holds:
  assumes "gate_run Allow Finish t0 (NewLoginLimiter mx win) (\<lambda>_. 0) l out" "0 \<le> mx"
    and "entry_of l key = Some e" "failures e = mx"
    and "gate_run Allow Finish (start e + win) l out l' out'" "now < start e + win"
  shows "fst (Allow now l' key) = (False, time_sub (start e + win) now)"
proof -
  have l: "tracked_ok l" "\<And>k. in_progress l k = out k" "maxFailures l = mx" "window l = win"
    using run_from_new [OF assms(1,2)] by auto
  then have "locked_until l key (start e + win)" using assms(3,4) by (simp add: locked_until_def)
  then show ?thesis using gate.locked_out [OF assms(5) l(1,2)] assms(6) by simp
qed

theorem lockout_holds_witness: "fst (Allow 99 one_failure (u ''a'')) = (False, 11)"
proof -
  have "time_sub 110 99 = 11" by code_simp
  then show ?thesis
    using lockout_holds [OF one_failure_run _ one_failure_entry _ gate_run.run_start, of 99] by simp
qed

text \<open>C15. A lockout ends: for a key the limiter tracks, when the key's window has passed and fewer of its
  attempts than the limit are in progress, the next \<open>Allow\<close> of that key is granted, in a limiter that keeps any
  keys at all. (A key it does not track can find the limiter full, and a key whose every slot is held by an
  attempt in progress waits for one of them to finish.)\<close>

theorem lockout_ends:
  assumes "tracked_ok l" "entry_of l key = Some e" "start e + window l \<le> now"
    and "inFlight e < maxFailures l" "0 < MaxKeys l"
  shows "fst (Allow now l key) = (True, 0)"
proof -
  let ?s = "sweep now l"
  have s: "tracked_ok ?s" using assms(1) by (rule tracked_sweep)
  have gone: "expired now l e" using assms(3) by (simp add: expired_def)
  have room: "\<not> full (make_room now ?s)" if none: "entry_of ?s key = None"
  proof -
    have "(key, e) \<in> set (entries l)" using assms(2) by (simp add: entry_of_def map_of_SomeD)
    moreover have "(key, e) \<notin> set (entries ?s)"
      using none by (force simp: entry_of_def map_of_eq_None_iff)
    moreover have "?s = l \<or> entries ?s = filter (\<lambda>(k, e). \<not> (inFlight e = 0 \<and> expired now l e)) (entries l)"
      by (simp add: sweep_def)
    ultimately have "length (entries ?s) < length (entries l)"
      by (metis (no_types, lifting) filter_id_conv length_filter_less)
    moreover have "length (entries (make_room now ?s)) \<le> length (entries ?s)"
      by (rule make_room_shorter)
    moreover have "Len l \<le> MaxKeys l" using assms(1,5) by (simp add: tracked_ok_def)
    ultimately show ?thesis by (simp add: full_def Len_def)
  qed
  have r: "0 < maxFailures l" using assms(4) tracked_entry [OF assms(1,2)] by simp
  show ?thesis
  proof (cases rule: Allow_cases [of now l key])
    case refused
    then show ?thesis using room by simp
  next
    case fresh
    then show ?thesis using r by (simp add: reserve_def)
  next
    case (renewed f)
    then have "f = e" using entry_of_sweep_cases [OF assms(1), of now key] assms(2) by auto
    then show ?thesis using renewed assms(4) by (simp add: reserve_def)
  next
    case (current f)
    then have "f = e" using entry_of_sweep_cases [OF assms(1), of now key] assms(2) by auto
    then show ?thesis using current gone by simp
  qed
qed

theorem lockout_ends_witness: "fst (Allow 110 one_failure (u ''a'')) = (True, 0)"
proof -
  have ok: "tracked_ok one_failure" using run_from_new [OF one_failure_run] by simp
  have "window one_failure = 100" "maxFailures one_failure = 1" "MaxKeys one_failure = 100000"
    by code_simp+
  then show ?thesis using lockout_ends [OF ok one_failure_entry, of 110] by simp
qed

end
