(* ===== verification/Phone.thy ===== *)
theory Phone
  imports Prelude
begin

text \<open>
  Iraqi mobile numbers, \<open>internal/phone/phone.go\<close>, and the digits the teacher search keeps of what
  an admin typed (\<open>searchDigits\<close> in \<open>internal/handlers/teachers.go\<close>). Arabic-Indic digits are the
  code points 1632 to 1641 and Persian digits 1776 to 1785.
\<close>

section \<open>Normalisation\<close>

definition Ignored :: "nat list" where
  \<comment> \<open>blank, tab, dash, parentheses, dot, no-break and thin blanks, direction marks, joiners\<close>
  "Ignored = [32, 9, 45, 40, 41, 46, 160, 8201, 8239, 8206, 8207, 8204, 8205]"

definition ascii_digit :: "nat \<Rightarrow> nat" where
  "ascii_digit c =
     (if 1632 \<le> c \<and> c \<le> 1641 then c - 1632 + 48
      else if 1776 \<le> c \<and> c \<le> 1785 then c - 1776 + 48 else c)"

definition clean :: "str \<Rightarrow> str" where
  "clean raw = filter (\<lambda>c. c \<notin> set Ignored) (map ascii_digit raw)"

definition mobile :: "str \<Rightarrow> bool" where
  "mobile s \<longleftrightarrow> (case s of c # r \<Rightarrow> c = 55 \<and> length r = 9 \<and> list_all is_digit r | [] \<Rightarrow> False)"

definition strip_prefix :: "str \<Rightarrow> str option" where
  "strip_prefix s =
     (if has_prefix s (u ''+964'') then Some (trim_prefix (drop 4 s) (u ''0''))
      else if has_prefix s (u ''00964'') then Some (trim_prefix (drop 5 s) (u ''0''))
      else if has_prefix s (u ''964'') then Some (trim_prefix (drop 3 s) (u ''0''))
      else if has_prefix s (u ''0'') then Some (drop 1 s)
      else None)"

definition Normalize :: "str \<Rightarrow> str option" where
  "Normalize raw =
     (case strip_prefix (clean raw) of
        None \<Rightarrow> None
      | Some s \<Rightarrow> if \<not> mobile s then None else Some (u ''+964'' @ s))"

section \<open>The teacher search\<close>

definition typed_digit :: "nat \<Rightarrow> nat option" where
  "typed_digit c =
     (if 48 \<le> c \<and> c \<le> 57 then Some c
      else if 1632 \<le> c \<and> c \<le> 1641 then Some (48 + c - 1632)
      else if 1776 \<le> c \<and> c \<le> 1785 then Some (48 + c - 1776) else None)"

fun drop_first_prefix :: "str list \<Rightarrow> str \<Rightarrow> str" where
  "drop_first_prefix [] d = d"
| "drop_first_prefix (p # ps) d = (if has_prefix d p then drop (length p) d else drop_first_prefix ps d)"

definition searchDigits :: "str \<Rightarrow> str" where
  "searchDigits s =
     (let d = drop_first_prefix [u ''00964'', u ''964'', u ''0''] (List.map_filter typed_digit s)
      in if length d < 3 then [] else d)"

section \<open>Facts about canonical numbers\<close>

lemma literals:
  "u ''+964'' = [43, 57, 54, 52]" "u ''00964'' = [48, 48, 57, 54, 52]" "u ''964'' = [57, 54, 52]"
  "u ''0'' = [48]" "u ''+9640'' = [43, 57, 54, 52, 48]" "u ''009640'' = [48, 48, 57, 54, 52, 48]"
  "u ''9640'' = [57, 54, 52, 48]"
  by (simp_all add: u_def)

lemma mobile_iff: "mobile s \<longleftrightarrow> (\<exists>r. s = 55 # r \<and> length r = 9 \<and> list_all is_digit r)"
  by (cases s) (auto simp: mobile_def)

lemma clean_append: "clean (a @ b) = clean a @ clean b"
  by (simp add: clean_def)

lemma clean_digits: "list_all is_digit s \<Longrightarrow> clean s = s"
  by (induction s) (auto simp: clean_def ascii_digit_def is_digit_def Ignored_def)

lemma clean_canonical: "list_all is_digit s \<Longrightarrow> clean (u ''+964'' @ s) = u ''+964'' @ s"
  by (simp add: clean_append clean_digits) (simp add: literals clean_def ascii_digit_def Ignored_def)

lemma mobile_digits: "mobile s \<Longrightarrow> list_all is_digit s"
  by (auto simp: mobile_iff is_digit_def)

definition spellings :: "str \<Rightarrow> str list" where
  "spellings s = [u ''+964'' @ s, u ''+9640'' @ s, u ''00964'' @ s, u ''009640'' @ s,
     u ''964'' @ s, u ''9640'' @ s, u ''0'' @ s]"

lemma strip_spelling:
  assumes "mobile s" "t \<in> set (spellings s)"
  shows "strip_prefix t = Some s"
proof -
  obtain r where "s = 55 # r" using assms(1) by (auto simp: mobile_iff)
  with assms(2) show ?thesis
    unfolding spellings_def literals list.set by (elim insertE emptyE) (simp_all add: strip_prefix_def trim_prefix_def literals)
qed

lemma trim_zero: "trim_prefix x [48] = 55 # r \<Longrightarrow> x = 55 # r \<or> x = 48 # 55 # r"
  by (auto simp: trim_prefix_def has_prefix_iff split: if_splits)

lemma spelled:
  assumes "strip_prefix t = Some s" "mobile s"
  shows "t \<in> set (spellings s)"
proof -
  obtain r where s: "s = 55 # r" using assms(2) by (auto simp: mobile_iff)
  have "strip_prefix t = Some (55 # r)" using assms(1) s by simp
  then consider
      "has_prefix t [43, 57, 54, 52]" "trim_prefix (drop 4 t) [48] = 55 # r"
    | "has_prefix t [48, 48, 57, 54, 52]" "trim_prefix (drop 5 t) [48] = 55 # r"
    | "has_prefix t [57, 54, 52]" "trim_prefix (drop 3 t) [48] = 55 # r"
    | "has_prefix t [48]" "drop 1 t = 55 # r"
    by (simp add: strip_prefix_def literals split: if_splits)
  then show ?thesis
  proof cases
    case 1
    then obtain q where q: "t = [43, 57, 54, 52] @ q" by (auto simp: has_prefix_iff)
    with 1(2) have "q = 55 # r \<or> q = 48 # 55 # r" by (intro trim_zero) simp
    with q s show ?thesis by (auto simp: spellings_def literals)
  next
    case 2
    then obtain q where q: "t = [48, 48, 57, 54, 52] @ q" by (auto simp: has_prefix_iff)
    with 2(2) have "q = 55 # r \<or> q = 48 # 55 # r" by (intro trim_zero) simp
    with q s show ?thesis by (auto simp: spellings_def literals)
  next
    case 3
    then obtain q where q: "t = [57, 54, 52] @ q" by (auto simp: has_prefix_iff)
    with 3(2) have "q = 55 # r \<or> q = 48 # 55 # r" by (intro trim_zero) simp
    with q s show ?thesis by (auto simp: spellings_def literals)
  next
    case 4
    then obtain q where q: "t = [48] @ q" by (auto simp: has_prefix_iff)
    with 4(2) s show ?thesis by (simp add: spellings_def literals)
  qed
qed

lemma Normalize_iff:
  "Normalize raw = Some c \<longleftrightarrow> (\<exists>s. mobile s \<and> c = u ''+964'' @ s \<and> clean raw \<in> set (spellings s))"
proof
  assume "Normalize raw = Some c"
  then obtain s where "strip_prefix (clean raw) = Some s" "mobile s" "c = u ''+964'' @ s"
    by (auto simp only: Normalize_def split: option.splits if_splits)
  then show "\<exists>s. mobile s \<and> c = u ''+964'' @ s \<and> clean raw \<in> set (spellings s)"
    using spelled by blast
next
  assume "\<exists>s. mobile s \<and> c = u ''+964'' @ s \<and> clean raw \<in> set (spellings s)"
  then obtain s where s: "mobile s" "c = u ''+964'' @ s" "clean raw \<in> set (spellings s)" by blast
  from strip_spelling [OF s(1,3)] s(1,2) show "Normalize raw = Some c" by (simp add: Normalize_def)
qed

lemma Normalize_fixed: "mobile s \<Longrightarrow> Normalize (u ''+964'' @ s) = Some (u ''+964'' @ s)"
  by (auto simp: Normalize_iff clean_canonical mobile_digits spellings_def)

lemma typed_digit_ascii: "typed_digit c = (if is_digit (ascii_digit c) then Some (ascii_digit c) else None)"
proof -
  have eq: "1632 \<le> c \<and> c \<le> 1641 \<Longrightarrow> 48 + c - 1632 = c - 1632 + 48"
    "1776 \<le> c \<and> c \<le> 1785 \<Longrightarrow> 48 + c - 1776 = c - 1776 + 48" by linarith+
  have dig: "1632 \<le> c \<and> c \<le> 1641 \<Longrightarrow> is_digit (c - 1632 + 48)"
    "1776 \<le> c \<and> c \<le> 1785 \<Longrightarrow> is_digit (c - 1776 + 48)" unfolding is_digit_def by linarith+
  consider "1632 \<le> c \<and> c \<le> 1641" | "1776 \<le> c \<and> c \<le> 1785"
    | "\<not> (1632 \<le> c \<and> c \<le> 1641)" "\<not> (1776 \<le> c \<and> c \<le> 1785)" by blast
  then show ?thesis
  proof cases
    case 1
    then have "\<not> (48 \<le> c \<and> c \<le> 57)" by linarith
    with 1 eq dig show ?thesis by (simp only: typed_digit_def ascii_digit_def if_True if_False simp_thms)
  next
    case 2
    then have "\<not> (48 \<le> c \<and> c \<le> 57)" "\<not> (1632 \<le> c \<and> c \<le> 1641)" by linarith+
    with 2 eq dig show ?thesis by (simp only: typed_digit_def ascii_digit_def if_True if_False simp_thms)
  next
    case 3
    then show ?thesis by (simp only: typed_digit_def ascii_digit_def is_digit_def if_False simp_thms)
  qed
qed

lemma digit_not_ignored: "is_digit c \<Longrightarrow> c \<notin> set Ignored"
  by (auto simp: is_digit_def Ignored_def)

lemma typed_digits_clean: "List.map_filter typed_digit raw = filter is_digit (clean raw)"
proof (induction raw)
  case (Cons c raw)
  then show ?case
    using digit_not_ignored [of "ascii_digit c"]
    by (simp add: List.map_filter_simps typed_digit_ascii clean_def)
qed (simp add: List.map_filter_simps clean_def)

section \<open>Properties\<close>

text \<open>\<open>Normalize\<close> accepts exactly the documented spellings of an Iraqi mobile number, in any digit
  script and with any of the ignored characters anywhere, and maps all spellings of one number to
  the same canonical text, which it leaves unchanged.\<close>

theorem Normalize_exact:
  "(Normalize raw = Some c) =
     (\<exists>s. mobile s \<and> c = u ''+964'' @ s \<and> clean raw \<in> set (spellings s) \<and> Normalize c = Some c)"
  using Normalize_iff [of raw c] Normalize_fixed by auto

text \<open>A search for a mobile number typed in full, without a trunk zero after the country code,
  finds the stored number: the digits searched for are its last ten.\<close>

theorem searchDigits_finds:
  assumes "mobile s" "clean raw \<in> {u ''+964'' @ s, u ''00964'' @ s, u ''964'' @ s, u ''0'' @ s}"
  shows "\<exists>c. Normalize raw = Some c \<and> c = u ''+964'' @ searchDigits raw \<and> length (searchDigits raw) = 10"
proof -
  have f: "filter is_digit s = s" using mobile_digits [OF assms(1)] by (simp add: list_all_iff filter_id_conv)
  obtain r where s: "s = 55 # r" "length r = 9" using assms(1) by (auto simp: mobile_iff)
  have "drop_first_prefix [u ''00964'', u ''964'', u ''0''] (filter is_digit (clean raw)) = s"
    using assms(2) f unfolding s(1) literals by (elim insertE emptyE) (simp_all add: is_digit_def)
  then have "searchDigits raw = s" using s by (simp add: searchDigits_def typed_digits_clean)
  moreover have "length s = 10" using assms(1) by (auto simp: mobile_iff)
  moreover have "Normalize raw = Some (u ''+964'' @ s)"
  proof -
    have "clean raw \<in> set (spellings s)" using assms(2) unfolding spellings_def list.set by blast
    then show ?thesis using assms(1) Normalize_iff by blast
  qed
  ultimately show ?thesis by simp
qed

theorem searchDigits_finds_witness:
  "\<exists>c. Normalize (u ''0770 123-4567'') = Some c \<and> c = u ''+964'' @ searchDigits (u ''0770 123-4567'') \<and>
     length (searchDigits (u ''0770 123-4567'')) = 10"
proof (rule searchDigits_finds)
  let ?s = "[55, 55, 48, 49, 50, 51, 52, 53, 54, 55] :: str"
  show "mobile ?s" by (simp add: mobile_def is_digit_def)
  have "u ''0770 123-4567'' = [48, 55, 55, 48, 32, 49, 50, 51, 45, 52, 53, 54, 55]" by (simp add: u_def)
  then have "clean (u ''0770 123-4567'') = u ''0'' @ ?s"
    by (simp add: clean_def ascii_digit_def Ignored_def literals)
  then show "clean (u ''0770 123-4567'') \<in> {u ''+964'' @ ?s, u ''00964'' @ ?s, u ''964'' @ ?s, u ''0'' @ ?s}"
    by (simp only: insertI1 insertI2)
qed

end
