(* ===== verification/Calendar.thy ===== *)
theory Calendar
  imports Prelude "HOL-Library.Product_Lexorder" "HOL-Library.Monad_Syntax"
begin

text \<open>
  Dates and times of day as the handlers use them: \<open>time.Time\<close> values in the school's zone,
  Asia/Baghdad, which has no daylight saving (\<open>internal/tz/tz.go\<close>), so a time is a civil date and
  the nanoseconds since its midnight. Calendar fields are natural numbers: the clock and every
  accepted date lie in years 1 to 9999. The theory holds the layouts the code parses and formats,
  day arithmetic, the query parameters \<open>date\<close> and \<open>month\<close>, and the attendance windows.
\<close>

section \<open>Civil dates\<close>

datatype date = Date (year: nat) (mon: nat) (dom: nat)

definition date_key :: "date \<Rightarrow> nat \<times> nat \<times> nat" where
  "date_key d = (year d, mon d, dom d)"

instantiation date :: linorder
begin

definition less_eq_date :: "date \<Rightarrow> date \<Rightarrow> bool" where
  "less_eq_date a b \<longleftrightarrow> date_key a \<le> date_key b"

definition less_date :: "date \<Rightarrow> date \<Rightarrow> bool" where
  "less_date a b \<longleftrightarrow> date_key a < date_key b"

instance
  by standard (auto simp: less_eq_date_def less_date_def date_key_def date.expand)

end

lemma date_less_iff: "Date y m d < Date y' m' d' \<longleftrightarrow> y < y' \<or> y = y' \<and> (m < m' \<or> m = m' \<and> d < d')"
  by (auto simp: less_date_def date_key_def)

definition leap :: "nat \<Rightarrow> bool" where
  "leap y \<longleftrightarrow> y mod 4 = 0 \<and> (y mod 100 \<noteq> 0 \<or> y mod 400 = 0)"

definition year_length :: "nat \<Rightarrow> nat" where
  "year_length y = (if leap y then 366 else 365)"

definition days_in :: "nat \<Rightarrow> nat \<Rightarrow> nat" where
  "days_in y m = (if m = 2 then (if leap y then 29 else 28)
     else if m = 4 \<or> m = 6 \<or> m = 9 \<or> m = 11 then 30 else 31)"

definition on_calendar :: "date \<Rightarrow> bool" where
  "on_calendar d \<longleftrightarrow> 1 \<le> mon d \<and> mon d \<le> 12 \<and> 1 \<le> dom d \<and> dom d \<le> days_in (year d) (mon d)"

definition valid_date :: "date \<Rightarrow> bool" where
  "valid_date d \<longleftrightarrow> year d \<le> 9999 \<and> 1 \<le> mon d \<and> mon d \<le> 12 \<and>
     1 \<le> dom d \<and> dom d \<le> days_in (year d) (mon d)"

lemma on_calendar_valid: "valid_date d \<longleftrightarrow> on_calendar d \<and> year d \<le> 9999"
  by (auto simp: valid_date_def on_calendar_def)

lemma days_in_bounds: "28 \<le> days_in y m" "days_in y m \<le> 31"
  by (simp_all add: days_in_def)

lemma days_in_pos [simp]: "Suc 0 \<le> days_in y m"
  using days_in_bounds(1) [of y m] by linarith

text \<open>\<open>AddDate(0, 0, 1)\<close> and \<open>AddDate(0, 0, -1)\<close>.\<close>

fun next_day :: "date \<Rightarrow> date" where
  "next_day (Date y m d) =
     (if d < days_in y m then Date y m (d + 1)
      else if m < 12 then Date y (m + 1) 1 else Date (y + 1) 1 1)"

fun prev_day :: "date \<Rightarrow> date" where
  "prev_day (Date y m d) =
     (if 1 < d then Date y m (d - 1)
      else if 1 < m then Date y (m - 1) (days_in y (m - 1)) else Date (y - 1) 12 31)"

text \<open>Days since the first of January of year 0, a Saturday.\<close>

definition days_before_year :: "nat \<Rightarrow> nat" where
  "days_before_year y = 365 * y + (y + 3) div 4 - (y + 99) div 100 + (y + 399) div 400"

definition days_before_month :: "nat \<Rightarrow> nat \<Rightarrow> nat" where
  "days_before_month y m = sum_list (map (days_in y) [1..<m])"

definition day_number :: "date \<Rightarrow> nat" where
  "day_number d = days_before_year (year d) + days_before_month (year d) (mon d) + (dom d - 1)"

definition weekday :: "date \<Rightarrow> nat" where
  \<comment> \<open>\<open>time.Weekday\<close>: Sunday is 0\<close>
  "weekday d = (day_number d + 6) mod 7"

lemmas date_eval = weekday_def day_number_def days_before_year_def days_before_month_def upt_rec
  days_in_def leap_def

lemma days_before_month_Suc: "1 \<le> m \<Longrightarrow> days_before_month y (m + 1) = days_before_month y m + days_in y m"
  by (simp add: days_before_month_def)

lemma days_before_month_1 [simp]: "days_before_month y (Suc 0) = 0" "days_before_month y 1 = 0"
  by (simp_all add: days_before_month_def)

lemma days_before_month_13: "days_before_month y 13 = year_length y"
  by (simp add: days_before_month_def upt_rec days_in_def year_length_def)

lemma ceil_step:
  assumes k: "0 < (k::nat)"
  shows "(y + k) div k = (y + (k - 1)) div k + (if y mod k = 0 then 1 else 0)"
proof -
  define q where "q = y div k"
  have y: "y = k * q + y mod k" by (simp add: q_def)
  have lt: "y mod k < k" using k by simp
  have l: "(y + k) div k = q + 1" using k by (simp add: q_def div_add_self2)
  show ?thesis
  proof (cases "y mod k = 0")
    case True
    have "(y + (k - 1)) div k = q"
      by (rule div_nat_eqI) (use y True k in auto)
    with l True show ?thesis by simp
  next
    case False
    have "(y + (k - 1)) div k = q + 1"
    proof (rule div_nat_eqI)
      show "k * (q + 1) \<le> y + (k - 1)" using y False k by (simp add: algebra_simps)
      have "y + (k - 1) < k * q + k + k" using y lt k by linarith
      then show "y + (k - 1) < k * Suc (q + 1)" by (simp add: algebra_simps)
    qed
    with l False show ?thesis by simp
  qed
qed

lemma century_le: "(y + 99) div 100 \<le> (y + 3) div (4::nat)"
proof -
  have "(y + 99) div 100 = ((y + 99) div 25) div 4" by (simp add: div_mult2_eq [symmetric])
  also have "\<dots> \<le> (y + 3) div 4" by (rule div_le_mono) linarith
  finally show ?thesis .
qed

lemma leap_count:
  assumes "p' = p + (if c4 then 1 else 0)" "q' = q + (if c100 then 1 else 0)"
    and "r' = r + (if c400 then 1 else 0)" "q \<le> (p::nat)" "c100 \<Longrightarrow> c4" "c400 \<Longrightarrow> c100"
  shows "365 * (y + 1) + p' - q' + r' = 365 * y + p - q + r + (if c4 \<and> (\<not> c100 \<or> c400) then 366 else 365)"
  using assms by (cases c4; cases c100; cases c400) auto

lemma days_before_year_Suc: "days_before_year (y + 1) = days_before_year y + year_length y"
proof -
  have a: "(y + 4) div 4 = (y + 3) div 4 + (if y mod 4 = 0 then 1 else 0)"
    and b: "(y + 100) div 100 = (y + 99) div 100 + (if y mod 100 = 0 then 1 else 0)"
    and c: "(y + 400) div 400 = (y + 399) div 400 + (if y mod 400 = 0 then 1 else 0)"
    using ceil_step [of 4 y] ceil_step [of 100 y] ceil_step [of 400 y] by simp_all
  have m4: "y mod 100 = 0 \<Longrightarrow> y mod 4 = 0" using mod_mod_cancel [of 4 100 y] by simp
  have m100: "y mod 400 = 0 \<Longrightarrow> y mod 100 = 0" using mod_mod_cancel [of 100 400 y] by simp
  have n: "y + 1 + 3 = y + 4" "y + 1 + 99 = y + 100" "y + 1 + 399 = y + 400" by simp_all
  show ?thesis
    unfolding days_before_year_def n leap_def year_length_def by (rule leap_count [OF a b c century_le m4 m100])
qed

lemma day_number_next_step:
  assumes "on_calendar d"
  shows "day_number (next_day d) = day_number d + 1"
proof (cases d)
  case (Date y m dd)
  have v: "1 \<le> m" "m \<le> 12" "1 \<le> dd" "dd \<le> days_in y m"
    using assms Date by (auto simp: on_calendar_def)
  have m12: "m = 12 \<Longrightarrow> days_before_month y 12 + days_in y 12 = year_length y"
    using days_before_month_13 [of y] days_before_month_Suc [of 12 y] by simp
  show ?thesis
    using v Date m12 days_before_month_Suc [OF v(1), of y] days_before_year_Suc [of y]
    by (auto simp: day_number_def)
qed

lemma day_number_next: "valid_date d \<Longrightarrow> day_number (next_day d) = day_number d + 1"
  by (simp add: on_calendar_valid day_number_next_step)

lemma valid_next_day: "valid_date d \<Longrightarrow> year d < 9999 \<Longrightarrow> valid_date (next_day d)"
  by (cases d) (auto simp: valid_date_def)

lemma days_in_december: "days_in y 12 = 31"
  by (simp add: days_in_def)

lemma valid_prev_day: "valid_date d \<Longrightarrow> 0 < year d \<Longrightarrow> valid_date (prev_day d)"
  by (cases d) (auto simp: valid_date_def days_in_december)

lemma next_prev_day: "valid_date d \<Longrightarrow> 0 < year d \<Longrightarrow> next_day (prev_day d) = d"
  by (cases d) (auto simp: valid_date_def days_in_december)

lemma weekday_next: "on_calendar d \<Longrightarrow> weekday (next_day d) = (weekday d + 1) mod 7"
  by (simp add: weekday_def day_number_next_step mod_simps)

lemma on_calendar_next_day: "on_calendar d \<Longrightarrow> on_calendar (next_day d)"
  by (cases d) (auto simp: on_calendar_def)

lemma days_before_year_mono: "y < y' \<Longrightarrow> days_before_year y + year_length y \<le> days_before_year y'"
proof (induction y')
  case (Suc n)
  have step: "days_before_year (Suc n) = days_before_year n + year_length n"
    using days_before_year_Suc [of n] by simp
  show ?case
  proof (cases "y = n")
    case False
    then have "days_before_year y + year_length y \<le> days_before_year n"
      using Suc.IH Suc.prems by simp
    then show ?thesis using step by linarith
  qed (simp add: step)
qed simp

lemma days_before_month_mono:
  "1 \<le> m \<Longrightarrow> m < m' \<Longrightarrow> days_before_month y m + days_in y m \<le> days_before_month y m'"
proof (induction m')
  case (Suc n)
  show ?case
  proof (cases "m = n")
    case True
    then show ?thesis using days_before_month_Suc [of n y] Suc.prems by simp
  next
    case False
    then have "days_before_month y m + days_in y m \<le> days_before_month y n" using Suc by simp
    then show ?thesis using days_before_month_Suc [of n y] Suc.prems by simp
  qed
qed simp

lemma day_of_month_less_year:
  assumes "valid_date d"
  shows "days_before_month (year d) (mon d) + (dom d - 1) < year_length (year d)"
proof -
  have v: "1 \<le> mon d" "mon d < 13" "dom d - 1 < days_in (year d) (mon d)"
    using assms by (auto simp: valid_date_def)
  show ?thesis
    using days_before_month_mono [OF v(1,2), of "year d"] v(3) days_before_month_13 [of "year d"] by linarith
qed

lemma day_number_mono:
  assumes "valid_date a" "valid_date b" "a < b"
  shows "day_number a < day_number b"
proof (cases "year a = year b")
  case False
  then have "year a < year b" using assms(3) by (auto simp: less_date_def date_key_def)
  from days_before_year_mono [OF this] show ?thesis
    using day_of_month_less_year [OF assms(1)] by (simp add: day_number_def)
next
  case same: True
  show ?thesis
  proof (cases "mon a = mon b")
    case False
    then have "mon a < mon b" using assms(3) same by (auto simp: less_date_def date_key_def)
    moreover have "1 \<le> mon a" "dom a - 1 < days_in (year a) (mon a)"
      using assms(1) by (auto simp: valid_date_def)
    ultimately show ?thesis
      using days_before_month_mono [of "mon a" "mon b" "year a"] same by (simp add: day_number_def)
  next
    case True
    then have "dom a < dom b" using assms(3) same by (auto simp: less_date_def date_key_def)
    moreover have "1 \<le> dom a" using assms(1) by (simp add: valid_date_def)
    ultimately show ?thesis using same True by (simp add: day_number_def)
  qed
qed

lemma day_number_less_iff: "valid_date a \<Longrightarrow> valid_date b \<Longrightarrow> day_number a < day_number b \<longleftrightarrow> a < b"
  by (metis day_number_mono less_irrefl less_trans linorder_neqE)

lemma day_number_le_iff: "valid_date a \<Longrightarrow> valid_date b \<Longrightarrow> day_number a \<le> day_number b \<longleftrightarrow> a \<le> b"
  using day_number_less_iff [of b a] by auto

lemma next_day_greater: "valid_date d \<Longrightarrow> d < next_day d"
  by (cases d) (auto simp: date_less_iff valid_date_def)

lemma next_day_least: "valid_date a \<Longrightarrow> valid_date b \<Longrightarrow> valid_date (next_day a) \<Longrightarrow> a < b \<longleftrightarrow> next_day a \<le> b"
  by (metis day_number_le_iff day_number_less_iff day_number_next Suc_eq_plus1 Suc_le_eq)

section \<open>Instants\<close>

text \<open>A wall-clock instant: a date and the nanoseconds since its midnight.\<close>

datatype stamp = At (on_date: date) (clock_of: nat)

instantiation stamp :: linorder
begin

definition less_eq_stamp :: "stamp \<Rightarrow> stamp \<Rightarrow> bool" where
  "less_eq_stamp a b \<longleftrightarrow> (on_date a, clock_of a) \<le> (on_date b, clock_of b)"

definition less_stamp :: "stamp \<Rightarrow> stamp \<Rightarrow> bool" where
  "less_stamp a b \<longleftrightarrow> (on_date a, clock_of a) < (on_date b, clock_of b)"

instance
  by standard (auto simp: less_eq_stamp_def less_stamp_def stamp.expand)

end

lemma stamp_less_iff: "At d c < At d' c' \<longleftrightarrow> d < d' \<or> d = d' \<and> c < c'"
  by (auto simp: less_stamp_def)

lemma stamp_le_iff: "At d c \<le> At d' c' \<longleftrightarrow> d < d' \<or> d = d' \<and> c \<le> c'"
  by (auto simp: less_eq_stamp_def)

definition sec :: nat where
  "sec = 1000000000"

definition hm :: "nat \<Rightarrow> nat \<Rightarrow> nat" where
  \<comment> \<open>an hour and a minute of the day, in nanoseconds\<close>
  "hm h m = (h * 3600 + m * 60) * sec"

definition day_length :: nat where
  "day_length = 86400 * sec"

definition valid_stamp :: "stamp \<Rightarrow> bool" where
  "valid_stamp t \<longleftrightarrow> valid_date (on_date t) \<and> clock_of t < day_length"

definition to_micro :: "stamp \<Rightarrow> stamp" where
  \<comment> \<open>a \<open>timestamp\<close> column keeps microseconds; the driver drops the rest\<close>
  "to_micro t = At (on_date t) (clock_of t div 1000 * 1000)"

lemma on_date_to_micro [simp]: "on_date (to_micro t) = on_date t"
  by (simp add: to_micro_def)

lemma to_micro_idem [simp]: "to_micro (to_micro t) = to_micro t"
  by (simp add: to_micro_def)

lemma valid_to_micro: "valid_stamp t \<Longrightarrow> valid_stamp (to_micro t)"
  unfolding valid_stamp_def to_micro_def by (auto intro: le_less_trans [OF div_times_less_eq_dividend])

section \<open>Layouts\<close>

text \<open>
  \<open>time.Parse\<close> on the three layouts the code uses. As in Go, the year is exactly four digits;
  month, day, minute and second exactly two; the hour one or two; the blank of a layout matches any
  number of blanks; and digits after a point or comma that follows the seconds are read as a
  fraction, to nine digits. Nothing may follow.
\<close>

definition is2 :: "nat \<Rightarrow> nat \<Rightarrow> nat" where
  "is2 a b = (a - 48) * 10 + (b - 48)"

definition getnum :: "str \<Rightarrow> bool \<Rightarrow> (nat \<times> str) option" where
  "getnum s fixed =
     (case s of
        [] \<Rightarrow> None
      | a # s1 \<Rightarrow>
          if \<not> is_digit a then None
          else (case s1 of
                  [] \<Rightarrow> if fixed then None else Some (a - 48, [])
                | b # s2 \<Rightarrow> if is_digit b then Some (is2 a b, s2)
                    else if fixed then None else Some (a - 48, s1)))"

fun get_year :: "str \<Rightarrow> (nat \<times> str) option" where
  "get_year (a # b # c # d # r) =
     (if is_digit a \<and> is_digit b \<and> is_digit c \<and> is_digit d
      then Some (is2 a b * 100 + is2 c d, r) else None)"
| "get_year _ = None"

fun lit :: "nat \<Rightarrow> str \<Rightarrow> str option" where
  "lit c (x # r) = (if x = c then Some r else None)"
| "lit c [] = None"

definition check :: "bool \<Rightarrow> unit option" where
  "check b = (if b then Some () else None)"

definition read_month :: "str \<Rightarrow> ((nat \<times> nat) \<times> str) option" where
  "read_month s = do {
     (y, s) \<leftarrow> get_year s;
     s \<leftarrow> lit 45 s;
     (m, s) \<leftarrow> getnum s True;
     check (1 \<le> m \<and> m \<le> 12);
     Some ((y, m), s) }"

definition read_date :: "str \<Rightarrow> (date \<times> str) option" where
  \<comment> \<open>the day's range is checked after the whole text is read, which rejects the same texts\<close>
  "read_date s = do {
     ((y, m), s) \<leftarrow> read_month s;
     s \<leftarrow> lit 45 s;
     (d, s) \<leftarrow> getnum s True;
     check (1 \<le> d \<and> d \<le> days_in y m);
     Some (Date y m d, s) }"

definition parse_date :: "str \<Rightarrow> date option" where
  "parse_date s = do { (d, r) \<leftarrow> read_date s; check (r = []); Some d }"

definition parse_month :: "str \<Rightarrow> (nat \<times> nat) option" where
  "parse_month s = do { (ym, r) \<leftarrow> read_month s; check (r = []); Some ym }"

definition cut_blanks :: "str \<Rightarrow> str option" where
  "cut_blanks s = (if s \<noteq> [] \<and> hd s \<noteq> 32 then None else Some (dropWhile (\<lambda>c. c = 32) s))"

definition frac_nanos :: "str \<Rightarrow> nat" where
  \<comment> \<open>the first nine digits of a fraction, as nanoseconds\<close>
  "frac_nanos ds = (let ds = take 9 ds in foldl (\<lambda>n d. n * 10 + (d - 48)) 0 ds * 10 ^ (9 - length ds))"

definition read_fraction :: "str \<Rightarrow> nat \<times> str" where
  "read_fraction s =
     (case s of
        p # d # r \<Rightarrow>
          if (p = 46 \<or> p = 44) \<and> is_digit d
          then (frac_nanos (takeWhile is_digit (d # r)), dropWhile is_digit (d # r)) else (0, s)
      | _ \<Rightarrow> (0, s))"

definition parse_stamp :: "str \<Rightarrow> stamp option" where
  "parse_stamp s = do {
     (d, s) \<leftarrow> read_date s;
     s \<leftarrow> cut_blanks s;
     (h, s) \<leftarrow> getnum s False;
     check (h < 24);
     s \<leftarrow> lit 58 s;
     (mi, s) \<leftarrow> getnum s True;
     check (mi < 60);
     s \<leftarrow> lit 58 s;
     (se, s) \<leftarrow> getnum s True;
     check (se < 60);
     check (snd (read_fraction s) = []);
     Some (At d (hm h mi + se * sec + fst (read_fraction s))) }"

text \<open>\<open>Format\<close> on the same layouts.\<close>

definition ymd :: "date \<Rightarrow> str" where
  "ymd d = pad4 (year d) @ [45] @ pad2 (mon d) @ [45] @ pad2 (dom d)"

definition yyyy_mm :: "date \<Rightarrow> str" where
  "yyyy_mm d = pad4 (year d) @ [45] @ pad2 (mon d)"

definition hour_of :: "nat \<Rightarrow> nat" where
  "hour_of c = c div (3600 * sec)"

definition minute_of :: "nat \<Rightarrow> nat" where
  "minute_of c = c div (60 * sec) mod 60"

definition second_of :: "nat \<Rightarrow> nat" where
  "second_of c = c div sec mod 60"

definition hh_mm :: "nat \<Rightarrow> str" where
  "hh_mm c = pad2 (hour_of c) @ [58] @ pad2 (minute_of c)"

definition hh_mm_ss :: "nat \<Rightarrow> str" where
  "hh_mm_ss c = hh_mm c @ [58] @ pad2 (second_of c)"

definition rfc3339 :: "stamp \<Rightarrow> str" where
  \<comment> \<open>\<open>Format(time.RFC3339)\<close> in the school's time zone\<close>
  "rfc3339 t = ymd (on_date t) @ u ''T'' @ hh_mm_ss (clock_of t) @ u ''+03:00''"

lemma check_simps [simp]: "check True = Some ()" "check False = None"
  by (simp_all add: check_def)

lemma check_Some [simp]: "check b = Some x \<longleftrightarrow> b"
  by (cases x) (simp add: check_def)

lemma pad2_digits: "n < 100 \<Longrightarrow> pad2 n = [48 + n div 10, 48 + n mod 10]"
  by (simp add: pad2_def)

lemma is_digit_add [simp]: "is_digit (48 + n) \<longleftrightarrow> n < 10"
  by (auto simp: is_digit_def)

lemma is2_pad: "is2 (48 + n div 10) (48 + n mod 10) = n"
  by (simp add: is2_def)

lemma getnum_pad2 [simp]: "n < 100 \<Longrightarrow> getnum (pad2 n @ r) f = Some (n, r)"
  using is2_pad [of n] by (simp add: getnum_def pad2_digits)

lemma get_year_pad4 [simp]: "n < 10000 \<Longrightarrow> get_year (pad4 n @ r) = Some (n, r)"
proof -
  assume n: "n < 10000"
  have "n mod 100 = 10 * (n div 10 mod 10) + n mod 10" using mod_mult2_eq [of n 10 10] by simp
  then have lo: "n div 10 mod 10 = n mod 100 div 10" "n mod 10 = n mod 100 mod 10" by simp_all
  have hi: "n div 1000 < 10" "n div 1000 = n div 100 div 10"
    using n by (auto simp: div_mult2_eq [symmetric])
  have "is2 (48 + n div 1000) (48 + n div 100 mod 10) = n div 100"
    using is2_pad [of "n div 100"] hi by simp
  moreover have "is2 (48 + n div 10 mod 10) (48 + n mod 10) = n mod 100"
    using is2_pad [of "n mod 100"] lo by metis
  ultimately show ?thesis using hi(1) by (simp add: pad4_def)
qed

lemma valid_dateD:
  "valid_date d \<Longrightarrow> year d < 10000 \<and> 1 \<le> mon d \<and> mon d \<le> 12 \<and> 1 \<le> dom d \<and>
     dom d \<le> days_in (year d) (mon d) \<and> mon d < 100 \<and> dom d < 100"
  using days_in_bounds(2) [of "year d" "mon d"] by (auto simp: valid_date_def)

lemma lit_Cons [simp]: "lit c (c # r) = Some r"
  by simp

lemma read_date_ymd [simp]: "valid_date d \<Longrightarrow> read_date (ymd d @ r) = Some (d, r)"
  by (drule valid_dateD) (simp add: read_date_def read_month_def ymd_def)

lemma parse_date_ymd [simp]: "valid_date d \<Longrightarrow> parse_date (ymd d) = Some d"
  using read_date_ymd [of d "[]"] by (simp add: parse_date_def)

lemma parse_month_yyyy_mm: "valid_date d \<Longrightarrow> parse_month (yyyy_mm d) = Some (year d, mon d)"
  by (drule valid_dateD) (simp add: parse_month_def read_month_def yyyy_mm_def, use getnum_pad2 [of "mon d" "[]" True] in simp)

lemma is_digitE:
  assumes "is_digit c"
  obtains i where "c = 48 + i" "i < 10"
  using assms by (metis is_digit_add is_digit_def le_Suc_ex)

lemma is2_digits: "is_digit a \<Longrightarrow> is_digit b \<Longrightarrow> is2 a b < 100 \<and> pad2 (is2 a b) = [a, b]"
  by (elim is_digitE) (simp add: is2_def pad2_def)

lemma getnum_fixed:
  assumes "getnum s True = Some (n, r)"
  shows "n < 100 \<and> s = pad2 n @ r"
  using assms is2_digits by (auto simp: getnum_def split: list.splits if_splits)

lemma pad4_digits:
  "is_digit a \<Longrightarrow> is_digit b \<Longrightarrow> is_digit c \<Longrightarrow> is_digit d \<Longrightarrow>
   is2 a b * 100 + is2 c d < 10000 \<and> pad4 (is2 a b * 100 + is2 c d) = [a, b, c, d]"
proof -
  assume dig: "is_digit a" "is_digit b" "is_digit c" "is_digit d"
  define p q where "p = is2 a b" and "q = is2 c d"
  have p: "p < 100" "pad2 p = [a, b]" and q: "q < 100" "pad2 q = [c, d]"
    using is2_digits dig by (auto simp: p_def q_def)
  have "(p * 100 + q) div 100 = p" "(p * 100 + q) mod 100 = q" using q by simp_all
  moreover have "(p * 100 + q) div 1000 = (p * 100 + q) div 100 div 10" by (simp add: div_mult2_eq [symmetric])
  moreover have "(p * 100 + q) mod 10 = (p * 100 + q) mod 100 mod 10" by (rule mod_mod_cancel [symmetric]) simp
  moreover have "(p * 100 + q) div 10 mod 10 = (p * 100 + q) mod 100 div 10"
    using mod_mult2_eq [of "p * 100 + q" 10 10] by simp
  ultimately have "pad4 (p * 100 + q) = pad2 p @ pad2 q" using p q by (simp add: pad4_def pad2_def)
  then show ?thesis using p q by (simp add: p_def q_def)
qed

lemma get_year_Some: "get_year s = Some (n, r) \<Longrightarrow> n < 10000 \<and> s = pad4 n @ r"
  by (cases s rule: get_year.cases) (auto simp: pad4_digits split: if_splits)

lemma lit_Some: "lit c s = Some r \<longleftrightarrow> s = c # r"
  by (cases s) auto

lemma read_date_Some:
  assumes "read_date s = Some (d, r)"
  shows "valid_date d \<and> s = ymd d @ r"
  using assms
  by (auto simp: read_date_def read_month_def bind_eq_Some_conv lit_Some valid_date_def ymd_def
      dest!: get_year_Some getnum_fixed)

lemma parse_date_Some: "parse_date s = Some d \<longleftrightarrow> valid_date d \<and> s = ymd d"
proof
  assume "parse_date s = Some d"
  then show "valid_date d \<and> s = ymd d"
    by (auto simp: parse_date_def bind_eq_Some_conv dest!: read_date_Some)
qed simp

lemma ymd_inject: "valid_date a \<Longrightarrow> valid_date b \<Longrightarrow> ymd a = ymd b \<longleftrightarrow> a = b"
  by (metis parse_date_ymd option.inject)

lemma foldl_digits_bound:
  assumes "\<forall>d \<in> set ds. is_digit d"
  shows "foldl (\<lambda>n d. n * 10 + (d - 48)) a ds < (a + 1) * 10 ^ length ds"
  using assms
proof (induction ds arbitrary: a)
  case (Cons d ds)
  then have "d - 48 < 10" by (auto simp: is_digit_def less_diff_conv2)
  have "foldl (\<lambda>n d. n * 10 + (d - 48)) (a * 10 + (d - 48)) ds < (a * 10 + (d - 48) + 1) * 10 ^ length ds"
    using Cons by simp
  also have "\<dots> \<le> ((a + 1) * 10) * 10 ^ length ds"
    by (rule mult_le_mono1) (use \<open>d - 48 < 10\<close> in \<open>simp add: algebra_simps\<close>)
  finally show ?case by (simp add: algebra_simps)
qed simp

lemma frac_nanos_bound:
  assumes "\<forall>d \<in> set ds. is_digit d"
  shows "frac_nanos ds < sec"
proof -
  let ?n = "length (take 9 ds)"
  have "foldl (\<lambda>n d. n * 10 + (d - 48)) 0 (take 9 ds) < (0 + 1) * 10 ^ ?n"
    by (rule foldl_digits_bound) (use assms in \<open>auto dest: in_set_takeD\<close>)
  then have "frac_nanos ds < 10 ^ ?n * 10 ^ (9 - ?n)"
    by (simp add: frac_nanos_def Let_def)
  also have "\<dots> = 10 ^ 9" by (simp add: power_add [symmetric])
  finally show ?thesis by (simp add: sec_def)
qed

lemma read_fraction_bound: "fst (read_fraction s) < sec"
proof -
  have "frac_nanos (takeWhile is_digit t) < sec" for t
    by (rule frac_nanos_bound) (auto dest: set_takeWhileD)
  then show ?thesis by (simp add: read_fraction_def sec_def split: list.split del: takeWhile.simps)
qed

lemma parse_stamp_Some:
  assumes "parse_stamp s = Some t"
  obtains d h mi se f r where "valid_date d" "h < 24" "mi < 60" "se < 60" "f < sec"
    "t = At d (hm h mi + se * sec + f)" "s = ymd d @ r"
proof -
  from assms obtain d r h mi se q where "valid_date d" "s = ymd d @ r" "h < 24" "mi < 60" "se < 60"
    "t = At d (hm h mi + se * sec + fst (read_fraction q))"
    by (auto simp: parse_stamp_def bind_eq_Some_conv dest!: read_date_Some)
  with read_fraction_bound [of q] show thesis by (intro that)
qed

lemma clock_bound:
  assumes "h < 24" "mi < 60" "se < 60" "f < sec"
  shows "hm h mi + se * sec + f < day_length"
proof -
  have "hm h mi + se * sec + f < (h * 3600 + mi * 60 + se + 1) * sec"
    using assms by (simp add: hm_def algebra_simps)
  also have "\<dots> \<le> 86400 * sec" by (rule mult_le_mono1) (use assms in linarith)
  finally show ?thesis by (simp add: day_length_def)
qed

lemma parse_stamp_valid: "parse_stamp s = Some t \<Longrightarrow> valid_stamp t"
  by (erule parse_stamp_Some) (simp add: valid_stamp_def clock_bound)

text \<open>The text order of \<open>YYYY-MM-DD\<close> is the order of dates, which the code compares as text.\<close>

lemma lex_append_less:
  fixes a b :: str
  shows "length a = length b \<Longrightarrow> a @ r < b @ s \<longleftrightarrow> a < b \<or> a = b \<and> r < s"
  by (induction a b rule: list_induct2) auto

lemma div_mod_less_iff:
  assumes k: "0 < (k::nat)"
  shows "m < n \<longleftrightarrow> m div k < n div k \<or> m div k = n div k \<and> m mod k < n mod k"
proof -
  have d: "m = k * (m div k) + m mod k" "n = k * (n div k) + n mod k" by simp_all
  have l: "m mod k < k" "n mod k < k" using k by simp_all
  show ?thesis
  proof (cases "m div k" "n div k" rule: linorder_cases)
    case less
    then have "m < n" by (meson div_le_mono linorder_not_le)
    with less show ?thesis by simp
  next
    case equal
    then show ?thesis using d by (metis add_less_cancel_left nat_neq_iff)
  next
    case greater
    then have "n < m" by (meson div_le_mono linorder_not_le)
    with greater show ?thesis by simp
  qed
qed

lemma pad2_less: "m < 100 \<Longrightarrow> n < 100 \<Longrightarrow> pad2 m < pad2 n \<longleftrightarrow> m < n"
  using div_mod_less_iff [of 10 m n] by (auto simp: pad2_digits)

lemma pad4_pad2: "n < 10000 \<Longrightarrow> pad4 n = pad2 (n div 100) @ pad2 (n mod 100)"
proof -
  assume "n < 10000"
  have "n mod 100 = 10 * (n div 10 mod 10) + n mod 10" using mod_mult2_eq [of n 10 10] by simp
  moreover have "n div 1000 = n div 100 div 10" by (simp add: div_mult2_eq [symmetric])
  ultimately show ?thesis by (simp add: pad4_def pad2_def)
qed

lemma pad2_eq_iff: "m < 100 \<Longrightarrow> n < 100 \<Longrightarrow> pad2 m = pad2 n \<longleftrightarrow> m = n"
  using pad2_inject by blast

lemma length_pad [simp]: "length (pad2 n) = 2" "length (pad4 n) = 4"
  by (simp_all add: pad2_def pad4_def)

lemma pad4_less: "m < 10000 \<Longrightarrow> n < 10000 \<Longrightarrow> pad4 m < pad4 n \<longleftrightarrow> m < n"
  using div_mod_less_iff [of 100 m n]
  by (simp add: pad4_pad2 lex_append_less pad2_less pad2_eq_iff)

lemma pad4_eq_iff: "m < 10000 \<Longrightarrow> n < 10000 \<Longrightarrow> pad4 m = pad4 n \<longleftrightarrow> m = n"
  by (metis pad4_less linorder_neqE_nat less_irrefl)

lemma ymd_less:
  assumes "valid_date a" "valid_date b"
  shows "ymd a < ymd b \<longleftrightarrow> a < b"
  using valid_dateD [OF assms(1)] valid_dateD [OF assms(2)]
  by (auto simp: ymd_def lex_append_less pad4_less pad2_less pad4_eq_iff pad2_eq_iff less_date_def
      date_key_def)

lemma ymd_le:
  assumes "valid_date a" "valid_date b"
  shows "ymd a \<le> ymd b \<longleftrightarrow> a \<le> b"
  using ymd_less [OF assms(2,1)] by (simp add: linorder_not_less [symmetric])

section \<open>Accepted years, and the query parameters date and month\<close>

definition MinYear :: nat where "MinYear = 2000"

definition MaxYear :: nat where "MaxYear = 2100"

definition yearInRange :: "nat \<Rightarrow> bool" where
  "yearInRange y \<longleftrightarrow> MinYear \<le> y \<and> y \<le> MaxYear"

definition today :: "stamp \<Rightarrow> str" where
  "today now = ymd (on_date now)"

definition requestedDate :: "str \<Rightarrow> stamp \<Rightarrow> str reply" where
  "requestedDate d now =
     (if d = [] then Inr (today now)
      else case parse_date d of
             None \<Rightarrow> Inl (Refuse 400 (u ''date must be formatted as YYYY-MM-DD''))
           | Some t \<Rightarrow>
               if \<not> yearInRange (year t)
               then Inl (Refuse 400 (u ''date must have a year from 2000 to 2100''))
               else Inr d)"

definition requestedMonth :: "str \<Rightarrow> stamp \<Rightarrow> str reply" where
  "requestedMonth m now =
     (if m = [] then Inr (yyyy_mm (on_date now))
      else case parse_month m of
             None \<Rightarrow> Inl (Refuse 400 (u ''month must be formatted as YYYY-MM''))
           | Some (y, _) \<Rightarrow>
               if \<not> yearInRange y
               then Inl (Refuse 400 (u ''month must have a year from 2000 to 2100''))
               else Inr m)"

section \<open>School days\<close>

definition weekendDate :: "date \<Rightarrow> bool" where
  "weekendDate d \<longleftrightarrow> weekday d = 5 \<or> weekday d = 6"

function schoolDaysBetween :: "date \<Rightarrow> date \<Rightarrow> nat" where
  "schoolDaysBetween d end =
     (if d \<le> end then (if weekendDate d then 0 else 1) + schoolDaysBetween (next_day d) end else 0)"
  by auto

termination
proof (relation "measures [\<lambda>(d, e). Suc (year e) - year d, \<lambda>(d, e). 13 - mon d, \<lambda>(d, e). 32 - dom d]")
  fix d e :: date
  assume "d \<le> e"
  then have "year d \<le> year e" by (auto simp: less_eq_date_def date_key_def)
  moreover have "dom d < days_in (year d) (mon d) \<Longrightarrow> dom d < 31"
    using days_in_bounds(2) [of "year d" "mon d"] by linarith
  ultimately show "((next_day d, e), (d, e)) \<in> measures [\<lambda>(d, e). Suc (year e) - year d,
      \<lambda>(d, e). 13 - mon d, \<lambda>(d, e). 32 - dom d]"
    by (cases d) auto
qed simp

declare schoolDaysBetween.simps [simp del]

function nextSchoolWeekday :: "date \<Rightarrow> date" where
  "nextSchoolWeekday t = (if weekendDate t then nextSchoolWeekday (next_day t) else t)"
  by auto

termination
proof (relation "measures [\<lambda>t. if on_calendar t then 0 else 1,
    \<lambda>t. if on_calendar t then (if weekday t = 5 then 2 else if weekday t = 6 then 1 else 0) else 32 - dom t]")
  fix t
  assume w: "weekendDate t"
  let ?R = "measures [\<lambda>t. if on_calendar t then 0 else 1,
    \<lambda>t. if on_calendar t then (if weekday t = 5 then 2 else if weekday t = 6 then 1 else 0) else 32 - dom t]"
  show "(next_day t, t) \<in> ?R"
  proof (cases "on_calendar t")
    case True
    then have n: "on_calendar (next_day t)" "weekday (next_day t) = (weekday t + 1) mod 7"
      by (simp_all add: on_calendar_next_day weekday_next)
    from w consider "weekday t = 5" | "weekday t = 6" by (auto simp: weekendDate_def)
    then show ?thesis using True n by cases simp_all
  next
    case False
    have "on_calendar (next_day t) \<or> 32 - dom (next_day t) < 32 - dom t"
    proof (cases "dom t < days_in (year t) (mon t)")
      case True
      then have "dom (next_day t) = dom t + 1" "dom t < 31"
        using days_in_bounds(2) [of "year t" "mon t"] by (cases t, simp)+
      then show ?thesis by linarith
    next
      case False
      then have "on_calendar (next_day t)" by (cases t) (simp add: on_calendar_def)
      then show ?thesis by simp
    qed
    then show ?thesis using False by (cases "on_calendar (next_day t)") simp_all
  qed
qed simp

declare nextSchoolWeekday.simps [simp del]

section \<open>Attendance windows\<close>

definition CheckInWindowStart :: nat where "CheckInWindowStart = hm 6 30"

definition CheckInWindowEnd :: nat where "CheckInWindowEnd = hm 9 31"

definition CheckOutWindowStart :: nat where "CheckOutWindowStart = hm 11 30"

definition CheckOutWindowEnd :: nat where "CheckOutWindowEnd = hm 13 31"

definition in_check_in_window :: "date \<Rightarrow> stamp \<Rightarrow> bool" where
  "in_check_in_window d t \<longleftrightarrow> At d CheckInWindowStart \<le> t \<and> t < At d CheckInWindowEnd"

definition in_check_out_window :: "date \<Rightarrow> stamp \<Rightarrow> bool" where
  "in_check_out_window d t \<longleftrightarrow> At d CheckOutWindowStart \<le> t \<and> t < At d CheckOutWindowEnd"

definition beforeCheckInWindowEnd :: "stamp \<Rightarrow> bool" where
  "beforeCheckInWindowEnd now \<longleftrightarrow> now < At (on_date now) CheckInWindowEnd"

text \<open>The title and body of a punch's notification.\<close>

definition PunchNotificationText :: "str \<Rightarrow> stamp \<Rightarrow> bool \<Rightarrow> str \<times> str" where
  "PunchNotificationText studentName checkTime isCheckOut =
     (if isCheckOut
      then ([1573, 1588, 1593, 1575, 1585, 32, 1582, 1585, 1608, 1580],
            [1578, 1605, 32, 1578, 1587, 1580, 1610, 1604, 32, 1582, 1585, 1608, 1580, 32, 1575, 1604,
              1591, 1575, 1604, 1576, 32]
            @ studentName @
            [32, 1575, 1604, 1587, 1575, 1593, 1577, 32] @ hh_mm (clock_of checkTime))
      else ([1573, 1588, 1593, 1575, 1585, 32, 1583, 1582, 1608, 1604],
            [1578, 1605, 32, 1578, 1587, 1580, 1610, 1604, 32, 1583, 1582, 1608, 1604, 32, 1575, 1604,
              1591, 1575, 1604, 1576, 32]
            @ studentName @
            [32, 1575, 1604, 1587, 1575, 1593, 1577, 32] @ hh_mm (clock_of checkTime)))"

lemma windows_disjoint: "in_check_in_window d t \<Longrightarrow> \<not> in_check_out_window d t"
  by (cases t) (auto simp: in_check_in_window_def in_check_out_window_def stamp_le_iff stamp_less_iff
      CheckInWindowEnd_def CheckOutWindowStart_def hm_def sec_def)

lemma window_on_date:
  "in_check_in_window d t \<Longrightarrow> on_date t = d" "in_check_out_window d t \<Longrightarrow> on_date t = d"
  by (cases t; auto simp: in_check_in_window_def in_check_out_window_def stamp_le_iff stamp_less_iff)+

section \<open>What the day loops compute\<close>

lemma finite_dates: "finite {d. valid_date d \<and> P d}"
proof (rule finite_subset)
  show "{d. valid_date d \<and> P d} \<subseteq> (\<lambda>(y, m, d). Date y m d) ` ({..9999} \<times> {..12} \<times> {..31})"
  proof
    fix d
    assume "d \<in> {d. valid_date d \<and> P d}"
    then have v: "valid_date d" by simp
    have "d = (\<lambda>(y, m, d). Date y m d) (year d, mon d, dom d)" by (cases d) simp
    moreover have "(year d, mon d, dom d) \<in> {..9999} \<times> {..12} \<times> {..31}"
      using v days_in_bounds(2) [of "year d" "mon d"] by (auto simp: valid_date_def)
    ultimately show "d \<in> (\<lambda>(y, m, d). Date y m d) ` ({..9999} \<times> {..12} \<times> {..31})" by blast
  qed
qed simp

lemma le_year: "a \<le> b \<Longrightarrow> year a \<le> year b"
  by (auto simp: less_eq_date_def date_key_def)

lemma school_days_count:
  assumes "valid_date d" "year e < 9999" "valid_date e"
  shows "schoolDaysBetween d e = card {x. valid_date x \<and> d \<le> x \<and> x \<le> e \<and> \<not> weekendDate x}"
  using assms
proof (induction d e rule: schoolDaysBetween.induct)
  case (1 d e)
  let ?S = "\<lambda>d. {x. valid_date x \<and> d \<le> x \<and> x \<le> e \<and> \<not> weekendDate x}"
  show ?case
  proof (cases "d \<le> e")
    case False
    then have e: "?S d = {}" by auto
    show ?thesis unfolding e using False by (simp add: schoolDaysBetween.simps)
  next
    case True
    have n: "valid_date (next_day d)"
      using valid_next_day [OF "1.prems"(1)] le_year [OF True] "1.prems"(2) by simp
    define T where "T = ?S (next_day d)"
    have "?S d = (if weekendDate d then {} else {d}) \<union> T"
      unfolding T_def using True "1.prems"(1) next_day_least [OF "1.prems"(1) _ n] next_day_greater [OF "1.prems"(1)]
      by (auto simp: le_less)
    moreover have "d \<notin> T" using next_day_greater [OF "1.prems"(1)] by (auto simp: T_def)
    moreover have "finite T" unfolding T_def by (rule finite_dates)
    ultimately have "card (?S d) = (if weekendDate d then 0 else 1) + card T"
      by (cases "weekendDate d") simp_all
    with "1.IH" [OF True n "1.prems"(2,3)] True show ?thesis
      by (simp add: schoolDaysBetween.simps [of d] T_def)
  qed
qed

lemma nextSchoolWeekday_spec:
  assumes "valid_date t" "year t < 9998"
  shows "valid_date (nextSchoolWeekday t) \<and> \<not> weekendDate (nextSchoolWeekday t) \<and> t \<le> nextSchoolWeekday t \<and>
    nextSchoolWeekday t \<le> next_day (next_day t) \<and>
    (\<forall>d. valid_date d \<and> t \<le> d \<and> d < nextSchoolWeekday t \<longrightarrow> weekendDate d)"
proof -
  let ?n = "next_day t"
  have y: "year ?n \<le> Suc (year t)" by (cases t) simp
  have v: "valid_date ?n" using valid_next_day assms by simp
  have v2: "valid_date (next_day ?n)" using valid_next_day [OF v] y assms(2) by simp
  have wn: "weekday ?n = (weekday t + 1) mod 7" "weekday (next_day ?n) = (weekday ?n + 1) mod 7"
    using assms(1) v by (simp_all add: on_calendar_valid weekday_next)
  have lt: "t < ?n" "?n < next_day ?n" using next_day_greater assms(1) v by blast+
  have between: "x = t" if "valid_date x" "t \<le> x" "x < ?n" for x
    using that next_day_least [OF assms(1) that(1) v] by (auto simp: le_less)
  have between2: "x = ?n" if "valid_date x" "?n \<le> x" "x < next_day ?n" for x
    using that next_day_least [OF v that(1) v2] by (auto simp: le_less)
  show ?thesis
  proof (cases "weekendDate t")
    case False
    then have "nextSchoolWeekday t = t" by (simp add: nextSchoolWeekday.simps)
    then show ?thesis using False assms(1) lt by auto
  next
    case t: True
    show ?thesis
    proof (cases "weekendDate ?n")
      case False
      then have "nextSchoolWeekday t = ?n" using t by (simp add: nextSchoolWeekday.simps)
      then show ?thesis using False v t lt between by (auto intro: less_imp_le)
    next
      case True
      have w2: "\<not> weekendDate (next_day ?n)" using t True wn by (auto simp: weekendDate_def)
      then have r: "nextSchoolWeekday t = next_day ?n" using t True by (simp add: nextSchoolWeekday.simps)
      have "weekendDate x" if "valid_date x" "t \<le> x" "x < next_day ?n" for x
        using that between between2 t True by (cases "x < ?n") (auto simp: not_less)
      then show ?thesis using r w2 v2 lt by (auto intro: less_imp_le less_trans)
    qed
  qed
qed

section \<open>Properties\<close>

text \<open>A date parameter is accepted only as the canonical text of a real day: \<open>requestedDate\<close>
  returns today's date when the parameter is empty and otherwise exactly the \<open>YYYY-MM-DD\<close> text of
  a day of years 2000 to 2100; comparing two such texts compares the days.\<close>

theorem requestedDate_canonical:
  assumes "requestedDate d now = Inr s" "valid_date (on_date now)"
  shows "\<exists>t. valid_date t \<and> s = ymd t \<and> parse_date s = Some t \<and>
    (d = [] \<longrightarrow> t = on_date now) \<and> (d \<noteq> [] \<longrightarrow> s = d \<and> 2000 \<le> year t \<and> year t \<le> 2100) \<and>
    (\<forall>t'. valid_date t' \<longrightarrow> (s < ymd t') = (t < t') \<and> (ymd t' < s) = (t' < t))"
proof -
  obtain t where t: "valid_date t" "s = ymd t" "d = [] \<longrightarrow> t = on_date now"
    "d \<noteq> [] \<longrightarrow> s = d \<and> 2000 \<le> year t \<and> year t \<le> 2100"
  proof (cases "d = []")
    case True
    with assms show thesis by (intro that [of "on_date now"]) (auto simp: requestedDate_def today_def)
  next
    case False
    with assms(1) obtain t where "parse_date d = Some t" "yearInRange (year t)" "s = d"
      by (auto simp: requestedDate_def split: option.splits if_splits)
    with False show thesis
      by (intro that [of t]) (auto simp: parse_date_Some yearInRange_def MinYear_def MaxYear_def)
  qed
  then show ?thesis by (intro exI [of _ t]) (simp add: ymd_less)
qed

theorem requestedDate_canonical_witness:
  "\<exists>t. valid_date t \<and> ymd (Date 2026 2 28) = ymd t \<and> parse_date (ymd (Date 2026 2 28)) = Some t \<and>
    2000 \<le> year t \<and> year t \<le> 2100"
proof -
  have v: "valid_date (Date 2026 2 28)" "ymd (Date 2026 2 28) \<noteq> []"
    by (simp_all add: valid_date_def days_in_def ymd_def pad4_def)
  then have "requestedDate (ymd (Date 2026 2 28)) (At (Date 2026 1 1) 0) = Inr (ymd (Date 2026 2 28))"
    by (simp add: requestedDate_def yearInRange_def MinYear_def MaxYear_def)
  moreover have "valid_date (on_date (At (Date 2026 1 1) 0))" by (simp add: valid_date_def days_in_def)
  ultimately show ?thesis using requestedDate_canonical v(2) by blast
qed

text \<open>\<open>schoolDaysBetween\<close> returns the number of days from the first to the second date, both
  included, that are neither a Friday nor a Saturday, and \<open>nextSchoolWeekday\<close> the first such day
  on or after its argument, at most two days later.\<close>

theorem school_day_loops:
  assumes "valid_date s" "valid_date e" "year s < 9998" "year e < 9999"
  shows "schoolDaysBetween s e = card {d. valid_date d \<and> s \<le> d \<and> d \<le> e \<and> \<not> weekendDate d} \<and>
    \<not> weekendDate (nextSchoolWeekday s) \<and> s \<le> nextSchoolWeekday s \<and>
    nextSchoolWeekday s \<le> next_day (next_day s) \<and>
    (\<forall>d. valid_date d \<and> s \<le> d \<and> d < nextSchoolWeekday s \<longrightarrow> weekendDate d)"
  using school_days_count [OF assms(1,4,2)] nextSchoolWeekday_spec [OF assms(1,3)] by blast

theorem school_day_loops_witness:
  "schoolDaysBetween (Date 2026 5 1) (Date 2026 5 9) =
     card {d. valid_date d \<and> Date 2026 5 1 \<le> d \<and> d \<le> Date 2026 5 9 \<and> \<not> weekendDate d} \<and>
   \<not> weekendDate (nextSchoolWeekday (Date 2026 5 1))"
proof -
  have "valid_date (Date 2026 5 1)" "valid_date (Date 2026 5 9)"
    by (simp_all add: valid_date_def days_in_def)
  from school_day_loops [OF this] show ?thesis by simp
qed

end
