(* ===== verification/Database.thy ===== *)
theory Database
  imports Calendar
begin

text \<open>
  The PostgreSQL database the handlers work on, and how the Go code runs statements on it.

  Each table of \<open>db/migrations\<close> is the list of its rows in insertion order, one record per row; a
  nullable column is an option. A statement is a function on the whole database that returns a
  result with the new database, or the error PostgreSQL reports (its SQLSTATE and the violated
  constraint). \<open>world\<close> adds what lies outside the database: the sequences of the serial columns,
  which no rollback resets; the school's clock; the pushes handed to Firebase; what the request
  noted for the activity log; and the faults to come, one entry per statement, so that a theorem
  about every world covers every way the connection can fail. A statement that fails has no
  effect; a transaction that fails, its commit included, leaves the database as it was.
\<close>

section \<open>Rows\<close>

record student =
  s_id :: int
  s_name :: str
  s_tag :: str
  s_created :: "stamp option"
  s_grade :: "str option"
  s_section :: "str option"
  s_avatar :: "str option"
  s_parent :: "int option"
  s_active :: bool

record device =
  d_sn :: str
  d_location :: "str option"
  d_active :: bool
  d_last_sync :: "stamp option"

record punch =
  l_id :: int
  l_student :: int
  l_device :: "str option"
  l_time :: stamp
  l_sync :: "stamp option"
  l_source :: str
  l_note :: "str option"

record period =
  w_grade :: str
  w_section :: str
  w_day :: str
  w_number :: int
  w_subject :: str
  w_teacher :: "str option"

record notification =
  n_id :: int
  n_parent :: "int option"
  n_title :: str
  n_body :: str
  n_read :: bool
  n_created :: stamp
  n_broadcast :: "int option"

record leave =
  v_id :: int
  v_student :: int
  v_date :: date
  v_notes :: "str option"

record banner =
  r_id :: int
  r_title :: "str option"
  r_image_url :: str
  r_link :: "str option"
  r_active :: bool
  r_created :: stamp

record banner_image =
  i_banner :: int
  i_type :: str
  i_checksum :: str
  i_data :: "nat list"

record admin =
  a_id :: int
  a_username :: str
  a_hash :: str
  a_version :: int

record parent =
  p_id :: int
  p_name :: str
  p_phone :: str
  p_pin :: str
  p_version :: int
  p_push :: bool

record setting =
  k_key :: str
  k_value :: str

record device_token =
  t_id :: int
  t_parent :: int
  t_token :: str
  t_created :: stamp
  t_seen :: stamp

record broadcast =
  b_id :: int
  b_title :: str
  b_body :: str
  b_type :: str
  b_grade :: "str option"
  b_section :: "str option"
  b_parent :: "int option"
  b_count :: int
  b_created :: stamp

record closure_row =
  c_id :: int
  c_kind :: str
  c_start :: date
  c_end :: "date option"
  c_title :: str
  c_notes :: "str option"
  c_broadcast :: "int option"
  c_created :: stamp

record activity_row =
  y_id :: int
  y_created :: stamp
  y_actor :: str
  y_action :: str
  y_method :: str
  y_path :: str
  y_status :: int
  y_ip :: "str option"
  y_target_type :: "str option"
  y_target_id :: "str option"
  y_detail :: "str option"

record teacher =
  e_id :: int
  e_first :: str
  e_father :: str
  e_grandfather :: str
  e_phone :: str
  e_gender :: str
  e_status :: str
  e_spec :: "str option"
  e_notes :: "str option"
  e_tag :: "str option"
  e_created :: stamp
  e_updated :: stamp

record teacher_punch =
  h_teacher :: int
  h_device :: str
  h_time :: stamp

record fee =
  f_id :: int
  f_year :: str
  f_grade :: str
  f_fee :: int
  f_updated :: stamp

record account =
  q_id :: int
  q_student :: int
  q_year :: str
  q_grade :: str
  q_fee :: int
  q_discount :: int
  q_note :: "str option"
  q_updated :: stamp

record payment =
  m_id :: int
  m_account :: int
  m_amount :: int
  m_paid_at :: date
  m_note :: "str option"
  m_created :: stamp
  m_void :: "(stamp \<times> str) option"     \<comment> \<open>\<open>voided_at\<close> and \<open>void_reason\<close>, set together (\<open>tuition_payments_void_check\<close>)\<close>

record category =
  g_id :: int
  g_name :: str
  g_salary :: bool

record expense =
  x_id :: int
  x_category :: int
  x_year :: str
  x_amount :: int
  x_date :: date
  x_note :: "str option"
  x_teacher :: "int option"
  x_created :: stamp
  x_void :: "(stamp \<times> str) option"     \<comment> \<open>as \<open>m_void\<close>\<close>

record db =
  students :: "student list"
  devices :: "device list"
  attendance_logs :: "punch list"
  weekly_schedules :: "period list"
  notifications :: "notification list"
  student_leaves :: "leave list"
  banners :: "banner list"
  banner_images :: "banner_image list"
  admins :: "admin list"
  parents :: "parent list"
  settings :: "setting list"
  device_tokens :: "device_token list"
  broadcasts :: "broadcast list"
  school_closures :: "closure_row list"
  admin_activity_log :: "activity_row list"
  teachers :: "teacher list"
  teacher_attendance_logs :: "teacher_punch list"
  tuition_fees :: "fee list"
  tuition_accounts :: "account list"
  tuition_payments :: "payment list"
  expense_categories :: "category list"
  expenses :: "expense list"

datatype tbl = Students | Attendance_Logs | Student_Leaves | Notifications | Banners | Parents | Device_Tokens
  | Broadcasts | School_Closures | Admin_Activity_Log | Teachers
  | Tuition_Fees | Tuition_Accounts | Tuition_Payments | Expense_Categories | Expenses

section \<open>Errors and statements\<close>

datatype err =
    Pg str str      \<comment> \<open>a \<open>pgconn.PgError\<close>: SQLSTATE and constraint name\<close>
  | Driver          \<comment> \<open>a failure of the connection, the driver or the context\<close>

definition unique_violation :: "string \<Rightarrow> err" where
  "unique_violation c = Pg (u ''23505'') (u c)"

definition foreign_key_violation :: "string \<Rightarrow> err" where
  "foreign_key_violation c = Pg (u ''23503'') (u c)"

definition check_violation :: "string \<Rightarrow> err" where
  "check_violation c = Pg (u ''23514'') (u c)"

record push =
  push_token :: str
  push_title :: str
  push_body :: str

record world =
  db :: db
  faults :: "err option list"
  clock :: stamp
  serial :: "tbl \<Rightarrow> int"
  outbox :: "push list"
  noted :: "str \<times> str \<times> str"

type_synonym ('e, 'a) tx = "world \<Rightarrow> ('e + 'a) \<times> world"

definition ret :: "'a \<Rightarrow> ('e, 'a) tx" where
  "ret x w = (Inr x, w)"

definition fail :: "'e \<Rightarrow> ('e, 'a) tx" where
  "fail e w = (Inl e, w)"

definition bindE :: "('e, 'a) tx \<Rightarrow> ('a \<Rightarrow> ('e, 'b) tx) \<Rightarrow> ('e, 'b) tx" where
  "bindE m f w = (case m w of (Inl e, w') \<Rightarrow> (Inl e, w') | (Inr x, w') \<Rightarrow> f x w')"

definition catchE :: "('e, 'a) tx \<Rightarrow> ('e \<Rightarrow> ('f, 'a) tx) \<Rightarrow> ('f, 'a) tx" where
  "catchE m h w = (case m w of (Inl e, w') \<Rightarrow> h e w' | (Inr x, w') \<Rightarrow> (Inr x, w'))"

definition attempt :: "('e, 'a) tx \<Rightarrow> ('f, 'e + 'a) tx" where
  "attempt m w = (case m w of (r, w') \<Rightarrow> (Inr r, w'))"

definition guard :: "bool \<Rightarrow> 'e \<Rightarrow> ('e, unit) tx" where
  "guard b e = (if b then ret () else fail e)"

text \<open>One statement: the next fault decides whether it fails.\<close>

definition next_fault :: "world \<Rightarrow> err option \<times> world" where
  "next_fault w = (case faults w of [] \<Rightarrow> (None, w) | f # fs \<Rightarrow> (f, w\<lparr>faults := fs\<rparr>))"

definition stmt :: "(db \<Rightarrow> err + 'a \<times> db) \<Rightarrow> (err, 'a) tx" where
  "stmt f w =
     (case next_fault w of
        (Some e, w') \<Rightarrow> (Inl e, w')
      | (None, w') \<Rightarrow>
          (case f (db w') of Inl e \<Rightarrow> (Inl e, w') | Inr (x, d) \<Rightarrow> (Inr x, w'\<lparr>db := d\<rparr>)))"

definition query :: "(db \<Rightarrow> 'a) \<Rightarrow> (err, 'a) tx" where
  "query f = stmt (\<lambda>d. Inr (f d, d))"

definition exec :: "(db \<Rightarrow> db) \<Rightarrow> (err, unit) tx" where
  "exec f = stmt (\<lambda>d. Inr ((), f d))"

text \<open>
  An insert draws ids from its table's sequence; \<open>f\<close> receives the first free id and returns the
  next one.  Ids drawn by a statement that fails are not given back.
\<close>

definition insert_ids :: "tbl \<Rightarrow> (int \<Rightarrow> db \<Rightarrow> int \<times> (err + 'a \<times> db)) \<Rightarrow> (err, 'a) tx" where
  "insert_ids t f w =
     (case next_fault w of
        (Some e, w') \<Rightarrow> (Inl e, w')
      | (None, w') \<Rightarrow>
          (case f (serial w' t) (db w') of
             (n, Inl e) \<Rightarrow> (Inl e, w'\<lparr>serial := (serial w')(t := n)\<rparr>)
           | (n, Inr (x, d)) \<Rightarrow> (Inr x, w'\<lparr>serial := (serial w')(t := n), db := d\<rparr>)))"

definition insert_id :: "tbl \<Rightarrow> (int \<Rightarrow> db \<Rightarrow> err + 'a \<times> db) \<Rightarrow> (err, 'a) tx" where
  "insert_id t f = insert_ids t (\<lambda>i d. (i + 1, f i d))"

definition get_clock :: "('e, stamp) tx" where
  "get_clock w = (Inr (clock w), w)"

definition NoteActivity :: "str \<Rightarrow> str \<Rightarrow> str \<Rightarrow> ('e, unit) tx" where
  "NoteActivity target_type target_id detail w = (Inr (), w\<lparr>noted := (target_type, target_id, detail)\<rparr>)"

definition rollback_to :: "world \<Rightarrow> world \<Rightarrow> world" where
  "rollback_to w w' = w'\<lparr>db := db w\<rparr>"

definition control :: "(err, unit) tx" where
  \<comment> \<open>\<open>BEGIN\<close>, \<open>COMMIT\<close>, \<open>SAVEPOINT\<close>, \<open>RELEASE\<close> or a lock: no effect of its own on rows\<close>
  "control = exec (\<lambda>d. d)"

text \<open>
  \<open>BeginTx\<close>, the body, \<open>Commit\<close>, with the deferred \<open>Rollback\<close>: \<open>lift\<close> turns a failed begin or
  commit into the body's error type.
\<close>

definition in_tx :: "(err \<Rightarrow> 'e) \<Rightarrow> ('e, 'a) tx \<Rightarrow> ('e, 'a) tx" where
  "in_tx lift m w =
     (case control w of
        (Inl e, w1) \<Rightarrow> (Inl (lift e), w1)
      | (Inr _, w1) \<Rightarrow>
          (case m w1 of
             (Inl e, w2) \<Rightarrow> (Inl e, rollback_to w1 w2)
           | (Inr x, w2) \<Rightarrow>
               (case control w2 of
                  (Inl e, w3) \<Rightarrow> (Inl (lift e), rollback_to w1 w3)
                | (Inr _, w3) \<Rightarrow> (Inr x, w3))))"

text \<open>\<open>SAVEPOINT\<close> and \<open>ROLLBACK TO SAVEPOINT\<close>.\<close>

definition get_db :: "('e, db) tx" where
  "get_db w = (Inr (db w), w)"

definition put_db :: "db \<Rightarrow> ('e, unit) tx" where
  "put_db d w = (Inr (), w\<lparr>db := d\<rparr>)"

definition savepoint :: "(err, db) tx" where
  "savepoint = bindE control (\<lambda>_. get_db)"

definition rollback_savepoint :: "db \<Rightarrow> (err, unit) tx" where
  "rollback_savepoint saved = bindE control (\<lambda>_. put_db saved)"

definition lift_err :: "('e \<Rightarrow> 'f) \<Rightarrow> ('e, 'a) tx \<Rightarrow> ('f, 'a) tx" where
  "lift_err g m = catchE m (\<lambda>e. fail (g e))"

text \<open>
  Parameters the statement cannot take: PostgreSQL stores no NUL character, and the driver refuses
  to encode an \<open>int4\<close> parameter that needs more than 32 bits.
\<close>

definition text_error :: err where
  \<comment> \<open>PostgreSQL stores no NUL character (SQLSTATE 22021)\<close>
  "text_error = Pg (u ''22021'') []"

definition with_text :: "str list \<Rightarrow> (err, 'a) tx \<Rightarrow> (err, 'a) tx" where
  \<comment> \<open>a statement with these text parameters\<close>
  "with_text ts m = (if list_ex (\<lambda>t. 0 \<in> set t) ts then stmt (\<lambda>_. Inl text_error) else m)"

definition with_int4 :: "int list \<Rightarrow> (err, 'a) tx \<Rightarrow> (err, 'a) tx" where
  "with_int4 xs m = (if list_ex (\<lambda>i. i < - (2 ^ 31) \<or> 2 ^ 31 \<le> i) xs then stmt (\<lambda>_. Inl Driver) else m)"

text \<open>Concrete worlds for examples: empty tables, no fault to come.\<close>

definition empty_db :: db where
  "empty_db = \<lparr>students = [], devices = [], attendance_logs = [], weekly_schedules = [],
     notifications = [], student_leaves = [], banners = [], banner_images = [], admins = [],
     parents = [], settings = [], device_tokens = [], broadcasts = [], school_closures = [],
     admin_activity_log = [], teachers = [], teacher_attendance_logs = [],
     tuition_fees = [], tuition_accounts = [], tuition_payments = [],
     expense_categories = [], expenses = []\<rparr>"

definition quiet :: "db \<Rightarrow> stamp \<Rightarrow> world" where
  "quiet d now = \<lparr>db = d, faults = [], clock = now, serial = (\<lambda>_. 1), outbox = [], noted = ([], [], [])\<rparr>"

lemma quiet_simps [simp]:
  "db (quiet d now) = d" "faults (quiet d now) = []" "clock (quiet d now) = now" "outbox (quiet d now) = []"
  "serial (quiet d now) t = 1" "noted (quiet d now) = ([], [], [])"
  by (simp_all add: quiet_def)

text \<open>A handler's checks on values it has read.\<close>

definition of_sum :: "'e + 'a \<Rightarrow> ('e, 'a) tx" where
  "of_sum r w = (r, w)"

definition of_option :: "'e \<Rightarrow> 'a option \<Rightarrow> ('e, 'a) tx" where
  "of_option e z = (case z of None \<Rightarrow> fail e | Some x \<Rightarrow> ret x)"

definition parent_of_context :: "int option \<Rightarrow> (refusal, int) tx" where
  \<comment> \<open>\<open>r.Context().Value(ParentIDKey).(int)\<close>\<close>
  "parent_of_context = of_option unauthorized_context"

end
