(* ===== verification/Transactions.thy ===== *)
theory Transactions
  imports Database
begin

text \<open>
  Laws of the statement combinators, shared by every component: what a run that succeeded (or
  failed) went through, what a statement keeps, and that a transaction is all or nothing. The
  locales are the two contracts the components instantiate: a table with a unique key, and a
  transaction whose body keeps an invariant when it succeeds.
\<close>

section \<open>Runs\<close>

lemma ret_run [run_simps]: "ret x w = (Inr x, w)"
  by (simp add: ret_def)

lemma fail_run [run_simps]: "fail e w = (Inl e, w)"
  by (simp add: fail_def)

lemma guard_run [run_simps]: "guard b e w = (if b then (Inr (), w) else (Inl e, w))"
  by (simp add: guard_def ret_def fail_def)

lemma get_clock_run [run_simps]: "get_clock w = (Inr (clock w), w)"
  by (simp add: get_clock_def)

lemma NoteActivity_run [run_simps]: "NoteActivity a b c w = (Inr (), w\<lparr>noted := (a, b, c)\<rparr>)"
  by (simp add: NoteActivity_def)

lemma of_sum_run [run_simps]: "of_sum r w = (r, w)"
  by (simp add: of_sum_def)

lemma of_option_run [run_simps]: "of_option e z w = (case z of None \<Rightarrow> Inl e | Some x \<Rightarrow> Inr x, w)"
  by (simp add: of_option_def ret_def fail_def split: option.split)

lemma bindE_run:
  "m w = (Inr x, w1) \<Longrightarrow> bindE m f w = f x w1"
  "m w = (Inl e, w1) \<Longrightarrow> bindE m f w = (Inl e, w1)"
  by (simp_all add: bindE_def)

lemma bindE_ok [ok_iffs]:
  "bindE m f w = (Inr y, w') \<longleftrightarrow> (\<exists>x w1. m w = (Inr x, w1) \<and> f x w1 = (Inr y, w'))"
  by (auto simp: bindE_def split: prod.splits sum.splits)

lemma bindE_okE [run_elims]:
  assumes "bindE m f w = (Inr y, w')"
  obtains x w1 where "m w = (Inr x, w1)" "f x w1 = (Inr y, w')"
  using assms by (auto simp: bindE_ok)

lemma bindE_err:
  "bindE m f w = (Inl e, w') \<longleftrightarrow>
     m w = (Inl e, w') \<or> (\<exists>x w1. m w = (Inr x, w1) \<and> f x w1 = (Inl e, w'))"
  by (auto simp: bindE_def split: prod.splits sum.splits)

lemma catchE_ok:
  "catchE m h w = (Inr y, w') \<longleftrightarrow>
     m w = (Inr y, w') \<or> (\<exists>e w1. m w = (Inl e, w1) \<and> h e w1 = (Inr y, w'))"
  by (auto simp: catchE_def split: prod.splits sum.splits)

lemma catchE_err: "catchE m h w = (Inl e, w') \<longleftrightarrow> (\<exists>e1 w1. m w = (Inl e1, w1) \<and> h e1 w1 = (Inl e, w'))"
  by (auto simp: catchE_def split: prod.splits sum.splits)

lemma lift_err_ok [simp, ok_iffs]: "lift_err g m w = (Inr y, w') \<longleftrightarrow> m w = (Inr y, w')"
  by (auto simp: lift_err_def catchE_ok fail_def)

lemma lift_err_err: "lift_err g m w = (Inl e, w') \<longleftrightarrow> (\<exists>e1. m w = (Inl e1, w') \<and> e = g e1)"
  by (auto simp: lift_err_def catchE_err fail_def)

lemma lift_err_run: "lift_err g m w = (case m w of (Inl e, w') \<Rightarrow> (Inl (g e), w') | (Inr x, w') \<Rightarrow> (Inr x, w'))"
  by (auto simp: lift_err_def catchE_def fail_def split: prod.splits sum.splits)

lemma simple_ok [ok_iffs]:
  "ret x w = (Inr y, w') \<longleftrightarrow> y = x \<and> w' = w"
  "fail e w = (Inr y, w') \<longleftrightarrow> False"
  "guard b e w = (Inr z, w') \<longleftrightarrow> b \<and> w' = w"
  "get_clock w = (Inr t, w') \<longleftrightarrow> t = clock w \<and> w' = w"
  "NoteActivity p q r w = (Inr z, w') \<longleftrightarrow> w' = w\<lparr>noted := (p, q, r)\<rparr>"
  "of_sum s w = (Inr y, w') \<longleftrightarrow> s = Inr y \<and> w' = w"
  "of_option e v w = (Inr y, w') \<longleftrightarrow> v = Some y \<and> w' = w"
  by (auto simp: run_simps split: option.splits)

lemma attempt_run: "attempt m w = (Inr (fst (m w)), snd (m w))"
  by (simp add: attempt_def split: prod.splits)

lemma attempt_ok: "attempt m w = (Inr r, w') \<longleftrightarrow> m w = (r, w')"
  by (auto simp: attempt_def split: prod.splits)

lemma next_fault_fields [simp]:
  "db (snd (next_fault w)) = db w" "clock (snd (next_fault w)) = clock w"
  "serial (snd (next_fault w)) = serial w" "outbox (snd (next_fault w)) = outbox w"
  "noted (snd (next_fault w)) = noted w"
  by (simp_all add: next_fault_def split: list.split)

lemma next_fault_cases:
  obtains e w' where "next_fault w = (Some e, w')" "db w' = db w" "clock w' = clock w"
      "serial w' = serial w" "outbox w' = outbox w" "noted w' = noted w"
  | w' where "next_fault w = (None, w')" "db w' = db w" "clock w' = clock w"
      "serial w' = serial w" "outbox w' = outbox w" "noted w' = noted w"
  using next_fault_fields [of w] by (cases "next_fault w"; cases "fst (next_fault w)") auto

text \<open>A world in which no statement will fail, used to state that the code gets through.\<close>

definition reliable :: "world \<Rightarrow> bool" where
  "reliable w \<longleftrightarrow> list_all (\<lambda>f. f = None) (faults w)"

lemma reliable_next: "reliable w \<Longrightarrow> \<exists>w'. next_fault w = (None, w') \<and> reliable w'"
  by (auto simp: reliable_def next_fault_def split: list.split)

lemma reliable_nil [simp]: "faults w = [] \<Longrightarrow> reliable w"
  by (simp add: reliable_def)

lemma next_fault_nil [run_simps]: "faults w = [] \<Longrightarrow> next_fault w = (None, w)"
  by (simp add: next_fault_def)

lemma stmt_run_nil [run_simps]:
  "faults w = [] \<Longrightarrow> stmt f w =
     (case f (db w) of Inl e \<Rightarrow> (Inl e, w) | Inr (x, d) \<Rightarrow> (Inr x, w\<lparr>db := d\<rparr>))"
  by (simp add: stmt_def next_fault_nil)

lemma query_run_nil [run_simps]: "faults w = [] \<Longrightarrow> query f w = (Inr (f (db w)), w)"
  by (simp add: query_def stmt_run_nil)

lemma exec_run_nil [run_simps]: "faults w = [] \<Longrightarrow> exec f w = (Inr (), w\<lparr>db := f (db w)\<rparr>)"
  by (simp add: exec_def stmt_run_nil)

lemma control_run_nil [run_simps]: "faults w = [] \<Longrightarrow> control w = (Inr (), w)"
  by (simp add: control_def exec_run_nil)

lemma insert_ids_run_nil [run_simps]:
  "faults w = [] \<Longrightarrow> insert_ids t f w =
     (case f (serial w t) (db w) of
        (n, Inl e) \<Rightarrow> (Inl e, w\<lparr>serial := (serial w)(t := n)\<rparr>)
      | (n, Inr (x, d)) \<Rightarrow> (Inr x, w\<lparr>serial := (serial w)(t := n), db := d\<rparr>))"
  by (simp add: insert_ids_def next_fault_nil)

lemma insert_id_run_nil [run_simps]:
  "faults w = [] \<Longrightarrow> insert_id t f w =
     (case f (serial w t) (db w) of
        Inl e \<Rightarrow> (Inl e, w\<lparr>serial := (serial w)(t := serial w t + 1)\<rparr>)
      | Inr (x, d) \<Rightarrow> (Inr x, w\<lparr>serial := (serial w)(t := serial w t + 1), db := d\<rparr>))"
  by (simp add: insert_id_def insert_ids_def next_fault_nil split: sum.split)

lemma stmt_ok:
  assumes "stmt f w = (Inr x, w')"
  obtains d where "f (db w) = Inr (x, d)" "db w' = d" "clock w' = clock w" "serial w' = serial w"
    "outbox w' = outbox w" "noted w' = noted w"
  using assms by (cases rule: next_fault_cases [of w]) (auto simp: stmt_def split: sum.splits)

lemma query_ok:
  assumes "query f w = (Inr x, w')"
  shows "x = f (db w)" "db w' = db w" "clock w' = clock w" "serial w' = serial w"
    "outbox w' = outbox w" "noted w' = noted w"
  using assms by (auto simp: query_def elim: stmt_ok)

lemma query_okD:
  "query f w = (Inr x, w') \<Longrightarrow> x = f (db w) \<and> db w' = db w \<and> clock w' = clock w \<and> serial w' = serial w \<and>
     outbox w' = outbox w \<and> noted w' = noted w"
  using query_ok [of f w x w'] by simp

lemma exec_ok:
  assumes "exec f w = (Inr x, w')"
  shows "db w' = f (db w)" "clock w' = clock w" "serial w' = serial w"
    "outbox w' = outbox w" "noted w' = noted w"
  using assms by (auto simp: exec_def elim: stmt_ok)

lemma control_ok:
  assumes "control w = (Inr x, w')"
  shows "db w' = db w" "clock w' = clock w" "serial w' = serial w" "outbox w' = outbox w" "noted w' = noted w"
  using exec_ok [OF assms [unfolded control_def]] by auto

lemma insert_ids_ok:
  assumes "insert_ids t f w = (Inr x, w')"
  obtains n d where "f (serial w t) (db w) = (n, Inr (x, d))" "db w' = d" "clock w' = clock w"
    "serial w' = (serial w)(t := n)" "outbox w' = outbox w" "noted w' = noted w"
  using assms
  by (cases rule: next_fault_cases [of w]) (auto simp: insert_ids_def split: sum.splits prod.splits)

lemma insert_ids_err: "insert_ids t f w = (Inl e, w') \<Longrightarrow> db w' = db w"
  by (cases rule: next_fault_cases [of w]) (auto simp: insert_ids_def split: sum.splits prod.splits)

lemma insert_id_ok:
  assumes "insert_id t f w = (Inr x, w')"
  obtains d where "f (serial w t) (db w) = Inr (x, d)" "db w' = d" "clock w' = clock w"
    "serial w' = (serial w)(t := serial w t + 1)" "outbox w' = outbox w" "noted w' = noted w"
  using assms
  by (cases rule: next_fault_cases [of w]) (auto simp: insert_id_def insert_ids_def split: sum.splits)

lemma failed_db:
  "stmt f w = (Inl e, w') \<Longrightarrow> db w' = db w"
  "query g w = (Inl e, w') \<Longrightarrow> db w' = db w"
  "exec h w = (Inl e, w') \<Longrightarrow> db w' = db w"
  "control w = (Inl e, w') \<Longrightarrow> db w' = db w"
  "insert_id t k w = (Inl e, w') \<Longrightarrow> db w' = db w"
  by (cases rule: next_fault_cases [of w];
      auto simp: stmt_def query_def exec_def control_def insert_id_def insert_ids_def split: sum.splits)+

section \<open>All or nothing\<close>

lemma rollback_to_fields [simp]:
  "db (rollback_to w w') = db w" "clock (rollback_to w w') = clock w'" "outbox (rollback_to w w') = outbox w'"
  "serial (rollback_to w w') = serial w'" "noted (rollback_to w w') = noted w'"
  by (simp_all add: rollback_to_def)

lemma in_tx_ok:
  assumes "in_tx lift m w = (Inr x, w')"
  obtains w1 w2 where "control w = (Inr (), w1)" "m w1 = (Inr x, w2)" "control w2 = (Inr (), w')"
    "db w1 = db w" "clock w1 = clock w" "serial w1 = serial w" "outbox w1 = outbox w" "noted w1 = noted w"
    "db w' = db w2" "serial w' = serial w2" "outbox w' = outbox w2" "noted w' = noted w2" "clock w' = clock w2"
proof -
  from assms obtain u w1 w2 v where s: "control w = (Inr u, w1)" "m w1 = (Inr x, w2)" "control w2 = (Inr v, w')"
    by (auto simp: in_tx_def split: prod.splits sum.splits)
  then show thesis using control_ok [OF s(1)] control_ok [OF s(3)] by (intro that [of w1 w2]) auto
qed

theorem in_tx_rollback:
  assumes "in_tx lift m w = (Inl e, w')"
  shows "db w' = db w"
proof (cases "control w")
  case (Pair r w1)
  show ?thesis
  proof (cases r)
    case (Inl e1)
    with Pair assms show ?thesis using failed_db(4) [of w e1 w1] by (simp add: in_tx_def)
  next
    case (Inr v)
    then have "db w1 = db w" using control_ok(1) Pair by simp
    with Pair Inr assms show ?thesis by (auto simp: in_tx_def split: prod.splits sum.splits)
  qed
qed

lemma in_tx_run_nil:
  assumes "faults w = []"
  shows "in_tx lift m w =
    (case m w of
       (Inl e, w2) \<Rightarrow> (Inl e, rollback_to w w2)
     | (Inr x, w2) \<Rightarrow>
         (case control w2 of (Inl e, w3) \<Rightarrow> (Inl (lift e), rollback_to w w3) | (Inr _, w3) \<Rightarrow> (Inr x, w3)))"
  using control_run_nil [OF assms] by (simp add: in_tx_def)

section \<open>What a run keeps\<close>

text \<open>
  \<open>keeps P m\<close>: P holds after m, whatever its result, when it held before. \<open>keeps_ok P m\<close>: it holds
  after m when m succeeds. \<open>calm m\<close>: m sends no push, and the clock is read, never set.
\<close>

definition keeps :: "(db \<Rightarrow> bool) \<Rightarrow> ('e, 'a) tx \<Rightarrow> bool" where
  "keeps P m \<longleftrightarrow> (\<forall>w. P (db w) \<longrightarrow> P (db (snd (m w))))"

definition keeps_ok :: "(db \<Rightarrow> bool) \<Rightarrow> ('e, 'a) tx \<Rightarrow> bool" where
  "keeps_ok P m \<longleftrightarrow> (\<forall>w x w'. P (db w) \<longrightarrow> m w = (Inr x, w') \<longrightarrow> P (db w'))"

definition calm :: "('e, 'a) tx \<Rightarrow> bool" where
  "calm m \<longleftrightarrow> (\<forall>w. clock (snd (m w)) = clock w \<and> outbox (snd (m w)) = outbox w)"

named_theorems keeping "rules for what a run keeps"
named_theorems calming "rules for runs that send nothing"

lemma calmI: "(\<And>w r w'. m w = (r, w') \<Longrightarrow> clock w' = clock w \<and> outbox w' = outbox w) \<Longrightarrow> calm m"
  unfolding calm_def by (metis prod.collapse)

lemma calmD: "calm m \<Longrightarrow> m w = (r, w') \<Longrightarrow> clock w' = clock w \<and> outbox w' = outbox w"
  unfolding calm_def by (metis snd_conv)

lemma calm_simple [calming]:
  "calm (ret x)" "calm (fail e)" "calm (guard b e)" "calm get_clock" "calm (NoteActivity p q r)"
  "calm (of_sum s)" "calm (of_option e z)"
  by (simp_all add: calm_def run_simps)

lemma bindE_alt: "bindE m f w = (case fst (m w) of Inl e \<Rightarrow> (Inl e, snd (m w)) | Inr x \<Rightarrow> f x (snd (m w)))"
  by (cases "m w"; cases "fst (m w)") (simp_all add: bindE_def)

lemma catchE_alt: "catchE m h w = (case fst (m w) of Inl e \<Rightarrow> h e (snd (m w)) | Inr x \<Rightarrow> (Inr x, snd (m w)))"
  by (cases "m w"; cases "fst (m w)") (simp_all add: catchE_def)

lemma calm_bindE [calming]: "calm m \<Longrightarrow> (\<And>x. calm (f x)) \<Longrightarrow> calm (bindE m f)"
  by (simp add: calm_def bindE_alt split: sum.split)

lemma calm_catchE [calming]: "calm m \<Longrightarrow> (\<And>e. calm (h e)) \<Longrightarrow> calm (catchE m h)"
  by (simp add: calm_def catchE_alt split: sum.split)

lemma calm_lift_err [calming]: "calm m \<Longrightarrow> calm (lift_err g m)"
  by (simp add: lift_err_def calm_catchE calm_simple)

lemma calm_attempt [calming]: "calm m \<Longrightarrow> calm (attempt m)"
  by (simp add: calm_def attempt_run)

lemma calm_if [calming]: "(b \<Longrightarrow> calm m) \<Longrightarrow> (\<not> b \<Longrightarrow> calm n) \<Longrightarrow> calm (if b then m else n)"
  by simp

lemma calm_option [calming]:
  "(z = None \<Longrightarrow> calm m) \<Longrightarrow> (\<And>x. z = Some x \<Longrightarrow> calm (f x)) \<Longrightarrow> calm (case z of None \<Rightarrow> m | Some x \<Rightarrow> f x)"
  by (cases z) simp_all

lemma calm_sum [calming]:
  "(\<And>e. v = Inl e \<Longrightarrow> calm (h e)) \<Longrightarrow> (\<And>x. v = Inr x \<Longrightarrow> calm (k x)) \<Longrightarrow>
   calm (case v of Inl e \<Rightarrow> h e | Inr x \<Rightarrow> k x)"
  by (cases v) simp_all

lemma calm_prod [calming]: "(\<And>x y. p = (x, y) \<Longrightarrow> calm (g x y)) \<Longrightarrow> calm (case p of (x, y) \<Rightarrow> g x y)"
  by (cases p) simp

lemma next_fault_calm: "next_fault w = (f, w') \<Longrightarrow> clock w' = clock w \<and> outbox w' = outbox w"
  using next_fault_fields [of w] by simp

lemma calm_stmt [calming]: "calm (stmt f)"
  by (rule calmI)
    (auto simp: stmt_def split: prod.splits sum.splits option.splits dest!: next_fault_calm)

lemma calm_statements [calming]: "calm (query q)" "calm (exec h)" "calm control"
  by (simp_all add: query_def exec_def control_def calm_stmt)

lemma calm_insert_ids [calming]: "calm (insert_ids t f)"
  by (rule calmI)
    (auto simp: insert_ids_def split: prod.splits sum.splits option.splits dest!: next_fault_calm)

lemma calm_insert_id [calming]: "calm (insert_id t f)"
  by (simp add: insert_id_def calm_insert_ids)

lemma calm_in_tx [calming]:
  assumes "calm m"
  shows "calm (in_tx lift m)"
proof (rule calmI)
  fix w r w'
  assume "in_tx lift m w = (r, w')"
  then show "clock w' = clock w \<and> outbox w' = outbox w"
    using calmD [OF assms] calmD [OF calm_statements(3)]
    by (fastforce simp: in_tx_def split: prod.splits sum.splits)
qed

lemma keepsI: "(\<And>w r w'. P (db w) \<Longrightarrow> m w = (r, w') \<Longrightarrow> P (db w')) \<Longrightarrow> keeps P m"
  by (auto simp: keeps_def) (metis prod.collapse)

lemma keepsD: "keeps P m \<Longrightarrow> P (db w) \<Longrightarrow> m w = (r, w') \<Longrightarrow> P (db w')"
  unfolding keeps_def by (metis snd_conv)

lemma keeps_okI: "(\<And>w x w'. P (db w) \<Longrightarrow> m w = (Inr x, w') \<Longrightarrow> P (db w')) \<Longrightarrow> keeps_ok P m"
  by (simp add: keeps_ok_def)

lemma keeps_okD: "keeps_ok P m \<Longrightarrow> P (db w) \<Longrightarrow> m w = (Inr x, w') \<Longrightarrow> P (db w')"
  by (simp add: keeps_ok_def)

lemma keeps_keeps_ok: "keeps P m \<Longrightarrow> keeps_ok P m"
  by (auto intro!: keeps_okI dest: keepsD)

lemma keeps_ret [keeping]: "keeps P (ret x)"
  by (simp add: keeps_def ret_def)

lemma keeps_fail [keeping]: "keeps P (fail e)"
  by (simp add: keeps_def fail_def)

lemma keeps_guard [keeping]: "keeps P (guard b e)"
  by (simp add: keeps_def guard_run)

lemma keeps_get_clock [keeping]: "keeps P get_clock"
  by (simp add: keeps_def get_clock_def)

lemma keeps_NoteActivity [keeping]: "keeps P (NoteActivity a b c)"
  by (simp add: keeps_def NoteActivity_def)

lemma keeps_of_sum [keeping]: "keeps P (of_sum r)"
  by (simp add: keeps_def of_sum_def)

lemma keeps_of_option [keeping]: "keeps P (of_option e z)"
  by (simp add: keeps_def of_option_run)

lemma keeps_bindE [keeping]: "keeps P m \<Longrightarrow> (\<And>x. keeps P (f x)) \<Longrightarrow> keeps P (bindE m f)"
  by (rule keepsI) (auto simp: bindE_def split: prod.splits sum.splits dest: keepsD)

lemma keeps_catchE [keeping]: "keeps P m \<Longrightarrow> (\<And>e. keeps P (h e)) \<Longrightarrow> keeps P (catchE m h)"
  by (rule keepsI) (auto simp: catchE_def split: prod.splits sum.splits dest: keepsD)

lemma keeps_lift_err [keeping]: "keeps P m \<Longrightarrow> keeps P (lift_err g m)"
  by (simp add: lift_err_def keeps_catchE keeps_fail)

lemma keeps_attempt [keeping]: "keeps P m \<Longrightarrow> keeps P (attempt m)"
  by (simp add: keeps_def attempt_run)

lemma keeps_if [keeping]: "(b \<Longrightarrow> keeps P m) \<Longrightarrow> (\<not> b \<Longrightarrow> keeps P n) \<Longrightarrow> keeps P (if b then m else n)"
  by simp

lemma keeps_option [keeping]:
  "(z = None \<Longrightarrow> keeps P m) \<Longrightarrow> (\<And>x. z = Some x \<Longrightarrow> keeps P (f x)) \<Longrightarrow>
   keeps P (case z of None \<Rightarrow> m | Some x \<Rightarrow> f x)"
  by (cases z) simp_all

lemma keeps_sum [keeping]:
  "(\<And>e. z = Inl e \<Longrightarrow> keeps P (h e)) \<Longrightarrow> (\<And>x. z = Inr x \<Longrightarrow> keeps P (f x)) \<Longrightarrow>
   keeps P (case z of Inl e \<Rightarrow> h e | Inr x \<Rightarrow> f x)"
  by (cases z) simp_all

lemma keeps_prod [keeping]: "(\<And>x y. z = (x, y) \<Longrightarrow> keeps P (f x y)) \<Longrightarrow> keeps P (case z of (x, y) \<Rightarrow> f x y)"
  by (cases z) simp

lemma keeps_stmt [keeping]:
  "(\<And>d x d'. P d \<Longrightarrow> f d = Inr (x, d') \<Longrightarrow> P d') \<Longrightarrow> keeps P (stmt f)"
  by (rule keepsI, case_tac r) (auto elim!: stmt_ok dest: failed_db)

lemma keeps_query [keeping]: "keeps P (query f)"
  by (auto simp: query_def intro: keeps_stmt)

lemma keeps_exec [keeping]: "(\<And>d. P d \<Longrightarrow> P (f d)) \<Longrightarrow> keeps P (exec f)"
  by (auto simp: exec_def intro: keeps_stmt)

lemma keeps_control [keeping]: "keeps P control"
  by (simp add: control_def keeps_exec)

lemma keeps_insert_id [keeping]:
  "(\<And>d i x d'. P d \<Longrightarrow> f i d = Inr (x, d') \<Longrightarrow> P d') \<Longrightarrow> keeps P (insert_id t f)"
  by (rule keepsI, case_tac r) (auto elim!: insert_id_ok dest: failed_db)

lemma keeps_insert_ids [keeping]:
  "(\<And>d i n x d'. P d \<Longrightarrow> f i d = (n, Inr (x, d')) \<Longrightarrow> P d') \<Longrightarrow> keeps P (insert_ids t f)"
  by (rule keepsI, case_tac r) (auto elim!: insert_ids_ok dest: insert_ids_err)

lemma keeps_in_tx [keeping]:
  assumes "keeps_ok P m"
  shows "keeps P (in_tx lift m)"
proof (rule keepsI)
  fix w r w'
  assume P: "P (db w)" and run: "in_tx lift m w = (r, w')"
  show "P (db w')"
  proof (cases r)
    case (Inl e)
    then show ?thesis using P run in_tx_rollback [of lift m w e w'] by simp
  next
    case (Inr x)
    with run obtain w1 w2 where "m w1 = (Inr x, w2)" "db w1 = db w" "db w' = db w2"
      by (auto elim: in_tx_ok)
    then show ?thesis using P keeps_okD [OF assms] by metis
  qed
qed

lemma keeps_with_text [keeping]: "keeps P m \<Longrightarrow> keeps P (with_text ts m)"
  by (auto simp: with_text_def intro: keeps_stmt)

lemma with_text_ok: "with_text ts m w = (Inr x, w') \<Longrightarrow> m w = (Inr x, w')"
  by (auto simp: with_text_def elim: stmt_ok split: if_splits)

definition plain_texts :: "str list \<Rightarrow> bool" where
  \<comment> \<open>no NUL character\<close>
  "plain_texts ts \<longleftrightarrow> list_all (\<lambda>s. 0 \<notin> set s) ts"

lemma with_text_plain: "with_text ts m w = (Inr x, w') \<Longrightarrow> plain_texts ts"
  by (auto simp: with_text_def plain_texts_def list_all_iff list_ex_iff elim: stmt_ok split: if_splits)

lemma with_plain_texts: "plain_texts ts \<Longrightarrow> with_text ts m = m"
  by (auto simp: with_text_def plain_texts_def list_all_iff list_ex_iff)

lemma plain_texts_append: "plain_texts (a @ b) \<longleftrightarrow> plain_texts a \<and> plain_texts b"
  by (simp add: plain_texts_def)

lemma calm_with_text [calming]: "calm m \<Longrightarrow> calm (with_text ts m)"
  by (auto simp: with_text_def calm_stmt)

lemma with_int4_laws:
  "keeps P m \<Longrightarrow> keeps P (with_int4 xs m)" "calm m \<Longrightarrow> calm (with_int4 xs m)"
  "with_int4 xs m w = (Inr x, w') \<Longrightarrow> m w = (Inr x, w')"
  by (auto simp: with_int4_def intro: keeps_stmt calm_stmt elim: stmt_ok split: if_splits)

declare with_int4_laws(1) [keeping] with_int4_laws(2) [calming]

lemma keeps_of_sum_value: "(\<And>x. r = Inr x \<Longrightarrow> keeps P (f x)) \<Longrightarrow> keeps P (bindE (of_sum r) f)"
  by (cases r) (simp_all add: keeps_def bindE_def of_sum_run)

lemma keeps_guard_then: "(b \<Longrightarrow> keeps P (f ())) \<Longrightarrow> keeps P (bindE (guard b e) f)"
  by (simp add: keeps_def bindE_def guard_run)

lemma keeps_ok_bindE: "keeps_ok P m \<Longrightarrow> (\<And>x. keeps_ok P (f x)) \<Longrightarrow> keeps_ok P (bindE m f)"
  by (rule keeps_okI) (auto simp: bindE_ok dest: keeps_okD)

lemma keeps_ok_ret: "keeps_ok P (ret x)"
  by (simp add: keeps_ok_def ret_def)

section \<open>Savepoints\<close>

lemma calm_savepoint [calming]: "calm savepoint"
proof -
  have "calm get_db" by (simp add: calm_def get_db_def)
  then show ?thesis unfolding savepoint_def by (intro calming)
qed

lemma calm_rollback_savepoint [calming]: "calm (rollback_savepoint d)"
proof -
  have "calm (put_db d)" by (simp add: calm_def put_db_def)
  then show ?thesis unfolding rollback_savepoint_def by (intro calming)
qed

lemma savepoint_ok: "savepoint w = (Inr d, w') \<Longrightarrow> d = db w \<and> db w' = db w \<and> clock w' = clock w \<and> outbox w' = outbox w"
  by (auto simp: savepoint_def get_db_def bindE_ok control_ok)

lemma savepoint_err: "savepoint w = (Inl e, w') \<Longrightarrow> db w' = db w"
  by (auto simp: savepoint_def get_db_def bindE_err dest: failed_db)

lemma rollback_savepoint_ok:
  "rollback_savepoint d w = (Inr x, w') \<Longrightarrow> db w' = d \<and> clock w' = clock w \<and> outbox w' = outbox w"
  by (auto simp: rollback_savepoint_def put_db_def bindE_ok control_ok)

lemma keeps_bind_post:
  assumes "keeps P m" "\<And>w x w'. m w = (Inr x, w') \<Longrightarrow> Q x" "\<And>x. Q x \<Longrightarrow> keeps P (f x)"
  shows "keeps P (bindE m f)"
proof (rule keepsI)
  fix w r w'
  assume P: "P (db w)" and run: "bindE m f w = (r, w')"
  obtain z w1 where z: "m w = (z, w1)" by fastforce
  then have "P (db w1)" using keepsD [OF assms(1) P] by simp
  then show "P (db w')"
    using run z assms(2) [of w] keepsD [OF assms(3)] by (cases z) (auto simp: bindE_def)
qed

section \<open>Contracts\<close>

text \<open>
  A table with a unique key. \<open>insert_unique\<close> is an \<open>INSERT\<close> under a \<open>UNIQUE\<close> constraint; \<open>update_rows\<close>
  and \<open>delete_rows\<close> are \<open>UPDATE\<close> and \<open>DELETE\<close> with a condition.
\<close>

definition unique_key :: "('r \<Rightarrow> 'k) \<Rightarrow> 'r list \<Rightarrow> bool" where
  "unique_key key rs \<longleftrightarrow> distinct (map key rs)"

definition insert_unique :: "('r \<Rightarrow> 'k) \<Rightarrow> 'r \<Rightarrow> 'r list \<Rightarrow> 'r list option" where
  "insert_unique key r rs = (if key r \<in> key ` set rs then None else Some (rs @ [r]))"

lemma insert_unique_code [simp]:
  "insert_unique key r rs = None \<longleftrightarrow> key r \<in> key ` set rs"
  "insert_unique key r rs = Some qs \<longleftrightarrow> key r \<notin> key ` set rs \<and> qs = rs @ [r]"
  by (auto simp: insert_unique_def)

definition find_row :: "('r \<Rightarrow> bool) \<Rightarrow> 'r list \<Rightarrow> 'r option" where
  "find_row p rs = List.find p rs"

lemma find_row_Some: "find_row p rs = Some r \<Longrightarrow> r \<in> set rs \<and> p r"
  by (auto simp: find_row_def find_Some_iff)

lemma find_row_None: "find_row p rs = None \<longleftrightarrow> (\<forall>r \<in> set rs. \<not> p r)"
  by (auto simp: find_row_def find_None_iff)

lemma find_row_append:
  "find_row p (rs @ qs) = (case find_row p rs of Some r \<Rightarrow> Some r | None \<Rightarrow> find_row p qs)"
  by (induction rs) (auto simp: find_row_def)

lemma find_row_snoc:
  "find_row p (rs @ [r]) = (case find_row p rs of Some q \<Rightarrow> Some q | None \<Rightarrow> if p r then Some r else None)"
  by (induction rs) (auto simp: find_row_def)

lemma filter_unique_key: "unique_key k rs \<Longrightarrow> r \<in> set rs \<Longrightarrow> filter (\<lambda>q. k q = k r) rs = [r]"
proof (induction rs)
  case (Cons x rs)
  show ?case
  proof (cases "r = x")
    case True
    with Cons.prems(1) have "filter (\<lambda>q. k q = k x) rs = []"
      unfolding filter_empty_conv by (metis distinct.simps(2) image_eqI list.map(2) list.set_map unique_key_def)
    with True show ?thesis by simp
  next
    case False
    with Cons.prems have "r \<in> set rs" "k x \<noteq> k r" by (auto simp: unique_key_def)
    with Cons show ?thesis by (simp add: unique_key_def)
  qed
qed simp

lemma distinct_upd_const:
  "distinct (map k rs) \<Longrightarrow> k t \<notin> k ` set (del_where p rs) \<Longrightarrow> count_where p rs \<le> 1 \<Longrightarrow>
   distinct (map k (upd_where p (\<lambda>_. t) rs))"
proof (induction rs)
  case (Cons x rs)
  show ?case
  proof (cases "p x")
    case True
    with Cons.prems(3) have n: "filter p rs = []" by (simp add: count_where_def)
    then have "upd_where p (\<lambda>_. t) rs = rs"
      by (auto simp: upd_where_def filter_empty_conv intro: map_idI)
    moreover have "set (del_where p (x # rs)) = set rs" using n True by (auto simp: filter_empty_conv)
    moreover have "upd_where p (\<lambda>_. t) (x # rs) = t # upd_where p (\<lambda>_. t) rs" using True by (simp add: upd_where_def)
    ultimately show ?thesis using Cons.prems by simp
  next
    case False
    with Cons have "distinct (map k (upd_where p (\<lambda>_. t) rs))" by (simp add: del_where_def count_where_def)
    moreover have "k x \<notin> k ` set (upd_where p (\<lambda>_. t) rs)"
      using False Cons.prems by (auto simp: set_upd_where del_where_def)
    moreover have "upd_where p (\<lambda>_. t) (x # rs) = x # upd_where p (\<lambda>_. t) rs" using False by (simp add: upd_where_def)
    ultimately show ?thesis by simp
  qed
qed (simp add: upd_where_def)

lemma count_key_le_1: "unique_key k rs \<Longrightarrow> count_where (\<lambda>r. k r = v) rs \<le> 1"
proof (cases "\<exists>r \<in> set rs. k r = v")
  case True
  assume u: "unique_key k rs"
  from True obtain r where "r \<in> set rs" "k r = v" by blast
  with filter_unique_key [OF u this(1)] show ?thesis by (simp add: count_where_def)
next
  case False
  then have "filter (\<lambda>r. k r = v) rs = []" by (auto simp: filter_empty_conv)
  then show ?thesis by (simp add: count_where_def)
qed

locale keyed_table =
  fixes rows :: "db \<Rightarrow> 'r list" and put :: "'r list \<Rightarrow> db \<Rightarrow> db" and key :: "'r \<Rightarrow> 'k"
  assumes rows_put: "rows (put rs d) = rs"
    and put_rows: "put (rows d) d = d"
begin

lemma insert_keeps_unique:
  "unique_key key (rows d) \<Longrightarrow> insert_unique key r (rows d) = Some rs \<Longrightarrow>
   unique_key key (rows (put rs d))"
  by (auto simp: rows_put unique_key_def)

lemma update_keeps_unique:
  "unique_key key (rows d) \<Longrightarrow> (\<And>r. p r \<Longrightarrow> key (f r) = key r) \<Longrightarrow>
   unique_key key (rows (put (upd_where p f (rows d)) d))"
  by (simp add: rows_put unique_key_def map_upd_where)

lemma delete_keeps_unique:
  "unique_key key (rows d) \<Longrightarrow> unique_key key (rows (put (del_where p (rows d)) d))"
  by (simp add: rows_put unique_key_def distinct_map_del_where)

lemma unique_row:
  "unique_key key (rows d) \<Longrightarrow> r \<in> set (rows d) \<Longrightarrow> q \<in> set (rows d) \<Longrightarrow> key r = key q \<Longrightarrow> r = q"
  by (auto simp: unique_key_def distinct_map dest: inj_onD)

lemma find_by_key:
  "unique_key key (rows d) \<Longrightarrow> r \<in> set (rows d) \<Longrightarrow> key r = k \<Longrightarrow>
   find_row (\<lambda>q. key q = k) (rows d) = Some r"
proof (cases "find_row (\<lambda>q. key q = k) (rows d)")
  case None
  assume "r \<in> set (rows d)" "key r = k"
  with None show ?thesis by (auto simp: find_row_None)
next
  case (Some q)
  assume "unique_key key (rows d)" "r \<in> set (rows d)" "key r = k"
  then show ?thesis using Some find_row_Some [OF Some] unique_row [of d r q] by simp
qed

lemma insert_then_find:
  "insert_unique key r (rows d) = Some rs \<Longrightarrow>
   find_row (\<lambda>q. key q = k) (rows (put rs d)) =
     (if key r = k then Some r else find_row (\<lambda>q. key q = k) (rows d))"
proof (cases "find_row (\<lambda>q. key q = k) (rows d)")
  case (Some q)
  assume "insert_unique key r (rows d) = Some rs"
  then show ?thesis using Some find_row_Some [OF Some] by (auto simp: rows_put find_row_snoc)
qed (auto simp: rows_put find_row_snoc)

end

text \<open>
  A guarded write: a transaction whose body, whenever it succeeds, leads from a database that
  satisfies the invariant to one that does. Its \<open>in_tx\<close> keeps the invariant however it ends.
\<close>

locale guarded_write =
  fixes inv :: "db \<Rightarrow> bool" and body :: "('e, 'a) tx" and lift :: "err \<Rightarrow> 'e"
  assumes body_ok: "keeps_ok inv body"
begin

lemma write_keeps: "keeps inv (in_tx lift body)"
  by (rule keeps_in_tx) (rule body_ok)

lemma write_failed: "in_tx lift body w = (Inl e, w') \<Longrightarrow> db w' = db w"
  by (rule in_tx_rollback)

lemma write_inv: "inv (db w) \<Longrightarrow> inv (db (snd (in_tx lift body w)))"
  using write_keeps by (simp add: keeps_def)

end

interpretation punches: keyed_table attendance_logs "\<lambda>rs d. d\<lparr>attendance_logs := rs\<rparr>" "\<lambda>l. (l_student l, l_time l)"
  by unfold_locales simp_all

interpretation teacher_punches: keyed_table teacher_attendance_logs "\<lambda>rs d. d\<lparr>teacher_attendance_logs := rs\<rparr>"
    "\<lambda>h. (h_teacher h, h_time h)"
  by unfold_locales simp_all

interpretation tokens: keyed_table device_tokens "\<lambda>rs d. d\<lparr>device_tokens := rs\<rparr>" t_token
  by unfold_locales simp_all

interpretation parent_phones: keyed_table parents "\<lambda>rs d. d\<lparr>parents := rs\<rparr>" p_phone
  by unfold_locales simp_all

interpretation parent_ids: keyed_table parents "\<lambda>rs d. d\<lparr>parents := rs\<rparr>" p_id
  by unfold_locales simp_all

interpretation student_tags: keyed_table students "\<lambda>rs d. d\<lparr>students := rs\<rparr>" s_tag
  by unfold_locales simp_all

interpretation student_ids: keyed_table students "\<lambda>rs d. d\<lparr>students := rs\<rparr>" s_id
  by unfold_locales simp_all

interpretation leaves: keyed_table student_leaves "\<lambda>rs d. d\<lparr>student_leaves := rs\<rparr>" "\<lambda>v. (v_student v, v_date v)"
  by unfold_locales simp_all

interpretation accounts: keyed_table tuition_accounts "\<lambda>rs d. d\<lparr>tuition_accounts := rs\<rparr>"
    "\<lambda>a. (q_student a, q_year a)"
  by unfold_locales simp_all

interpretation fees: keyed_table tuition_fees "\<lambda>rs d. d\<lparr>tuition_fees := rs\<rparr>" "\<lambda>f. (f_year f, f_grade f)"
  by unfold_locales simp_all

interpretation setting_keys: keyed_table settings "\<lambda>rs d. d\<lparr>settings := rs\<rparr>" k_key
  by unfold_locales simp_all

end
