(* ===== verification/Attendance.thy ===== *)
theory Attendance
  imports Transactions "HOL-Library.Multiset"
begin

text \<open>
  What counts as attendance: the status function of migration 17, the type of a day
  (\<open>DayOn\<close> and the SQL copy of its rule, \<open>internal/handlers/attendance.go\<close>), and the handlers that
  report on it (\<open>admin.go\<close>, \<open>mobile.go\<close>) or record a leave. \<open>coll\<close> is the sort key of the
  database's collation, which the repository does not fix.
\<close>

section \<open>Status of a student on a date\<close>

datatype status = Present | Excused | Absent

definition check_in_punch :: "db \<Rightarrow> int \<Rightarrow> date \<Rightarrow> punch option" where
  "check_in_punch d sid day =
     first_by l_time (filter (\<lambda>l. l_student l = sid \<and> in_check_in_window day (l_time l)) (attendance_logs d))"

definition check_out_punch :: "db \<Rightarrow> int \<Rightarrow> date \<Rightarrow> punch option" where
  "check_out_punch d sid day =
     first_by l_time (filter (\<lambda>l. l_student l = sid \<and> in_check_out_window day (l_time l)) (attendance_logs d))"

definition has_leave :: "db \<Rightarrow> int \<Rightarrow> date \<Rightarrow> bool" where
  "has_leave d sid day \<longleftrightarrow> list_ex (\<lambda>v. v_student v = sid \<and> v_date v = day) (student_leaves d)"

definition time12 :: "stamp \<Rightarrow> str" where
  \<comment> \<open>\<open>TO_CHAR(t, 'HH12:MI AM')\<close>\<close>
  "time12 t = (let h = hour_of (clock_of t) in
     pad2 ((h + 11) mod 12 + 1) @ [58] @ pad2 (minute_of (clock_of t)) @ (if h < 12 then u '' AM'' else u '' PM''))"

definition get_student_status :: "db \<Rightarrow> int \<Rightarrow> date \<Rightarrow> status \<times> str option \<times> str option" where
  "get_student_status d sid day =
     (let check_in = check_in_punch d sid day; check_out = check_out_punch d sid day in
      (if check_in \<noteq> None \<or> check_out \<noteq> None then Present
       else if has_leave d sid day then Excused else Absent,
       map_option (\<lambda>l. time12 (l_time l)) check_in, map_option (\<lambda>l. time12 (l_time l)) check_out))"

definition status_on :: "db \<Rightarrow> int \<Rightarrow> date \<Rightarrow> status" where
  "status_on d sid day = fst (get_student_status d sid day)"

definition existed_on :: "student \<Rightarrow> date \<Rightarrow> bool" where
  \<comment> \<open>\<open>studentExistedOnSQL\<close>\<close>
  "existed_on s day \<longleftrightarrow> (case s_created s of None \<Rightarrow> True | Some t \<Rightarrow> on_date t \<le> day)"

section \<open>Types of days\<close>

record day_type =
  Type :: str
  Title :: "str option"
  Notes :: "str option"

definition DaySchool :: str where "DaySchool = u ''school''"

definition DayWeekend :: str where "DayWeekend = u ''weekend''"

definition DayHoliday :: str where "DayHoliday = u ''holiday''"

definition DayPause :: str where "DayPause = u ''pause''"

definition School :: "day_type \<Rightarrow> bool" where
  "School d \<longleftrightarrow> Type d = DaySchool"

definition covers :: "date \<Rightarrow> closure_row \<Rightarrow> bool" where
  "covers day c \<longleftrightarrow> c_start c \<le> day \<and> (case c_end c of None \<Rightarrow> True | Some e \<Rightarrow> day \<le> e)"

definition school_day :: "db \<Rightarrow> date \<Rightarrow> bool" where
  \<comment> \<open>\<open>schoolDaySQL\<close>\<close>
  "school_day d day \<longleftrightarrow> \<not> (weekday day = 5 \<or> weekday day = 6) \<and> \<not> list_ex (covers day) (school_closures d)"

definition covering_closure :: "db \<Rightarrow> date \<Rightarrow> closure_row option" where
  \<comment> \<open>\<open>ORDER BY kind = 'pause' DESC, start_date LIMIT 1\<close>\<close>
  "covering_closure d day =
     first_by (\<lambda>c. (c_kind c \<noteq> DayPause, c_start c)) (filter (covers day) (school_closures d))"

definition closure_day :: "closure_row option \<Rightarrow> day_type" where
  "closure_day c =
     (case c of
        None \<Rightarrow> \<lparr>Type = DaySchool, Title = None, Notes = None\<rparr>
      | Some c \<Rightarrow> \<lparr>Type = c_kind c, Title = Some (c_title c), Notes = c_notes c\<rparr>)"

definition DayOn :: "str \<Rightarrow> (err, day_type) tx" where
  "DayOn dat =
     (case parse_date dat of
        None \<Rightarrow> fail Driver
      | Some day \<Rightarrow>
          if weekday day = 5 \<or> weekday day = 6
          then ret \<lparr>Type = DayWeekend, Title = None, Notes = None\<rparr>
          else bindE (query (\<lambda>d. covering_closure d day)) (\<lambda>c. ret (closure_day c)))"

section \<open>The dashboard\<close>

record DashboardStats =
  TotalStudents :: int
  TotalParents :: int
  PresentToday :: int
  ExcusedToday :: int
  AbsentToday :: int

definition active_students :: "db \<Rightarrow> student list" where
  "active_students d = filter s_active (students d)"

definition dashboard_query :: "date \<Rightarrow> db \<Rightarrow> DashboardStats" where
  "dashboard_query day d =
     (let total = count_where (\<lambda>_. True) (active_students d);
          present = count_where (\<lambda>s. status_on d (s_id s) day = Present) (active_students d);
          excused = count_where (\<lambda>s. status_on d (s_id s) day = Excused) (active_students d)
      in \<lparr>TotalStudents = total, TotalParents = count_where (\<lambda>_. True) (parents d), PresentToday = present,
          ExcusedToday = excused, AbsentToday = max 0 (total - present - excused)\<rparr>)"

definition closed_day_query :: "db \<Rightarrow> DashboardStats" where
  "closed_day_query d =
     \<lparr>TotalStudents = count_where (\<lambda>_. True) (active_students d), TotalParents = count_where (\<lambda>_. True) (parents d),
      PresentToday = 0, ExcusedToday = 0, AbsentToday = 0\<rparr>"

definition AdminDashboardHandler :: "meth \<Rightarrow> (refusal, str \<times> DashboardStats \<times> day_type) tx" where
  "AdminDashboardHandler meth =
     bindE (guard (meth = GET) method_not_allowed) (\<lambda>_.
     bindE get_clock (\<lambda>now.
     bindE (lift_err (internal_error ''Database error'') (DayOn (today now))) (\<lambda>day.
     bindE (lift_err (internal_error ''Database error'')
       (query (if School day then dashboard_query (on_date now) else closed_day_query))) (\<lambda>stats.
     ret (today now, stats, day)))))"

section \<open>The daily report\<close>

record ManualPunch =
  mp_id :: int
  mp_out :: bool
  mp_time :: str
  mp_note :: "str option"

record DailyAttendance =
  StudentID :: int
  FullName :: str
  Status :: status
  CheckInTime :: "str option"
  CheckOutTime :: "str option"

record AdminDailyAttendance = DailyAttendance +
  CheckInSource :: "str option"
  CheckOutSource :: "str option"
  ManualPunches :: "ManualPunch list"

definition manual_punches :: "db \<Rightarrow> int \<Rightarrow> date \<Rightarrow> ManualPunch list" where
  \<comment> \<open>\<open>manualPunchesSQL\<close>\<close>
  "manual_punches d sid day =
     map (\<lambda>l. \<lparr>mp_id = l_id l, mp_out = (\<not> in_check_in_window day (l_time l)),
               mp_time = hh_mm_ss (clock_of (l_time l)), mp_note = l_note l\<rparr>)
       (sort_key l_time (filter (\<lambda>l. l_student l = sid \<and> l_source l = u ''manual'' \<and> on_date (l_time l) = day)
          (attendance_logs d)))"

definition status_rank :: "status \<Rightarrow> nat" where
  \<comment> \<open>\<open>ORDER BY status DESC\<close>\<close>
  "status_rank s = (case s of Present \<Rightarrow> 0 | Excused \<Rightarrow> 1 | Absent \<Rightarrow> 2)"

definition daily_row :: "db \<Rightarrow> date \<Rightarrow> student \<Rightarrow> AdminDailyAttendance" where
  "daily_row d day s =
     (case get_student_status d (s_id s) day of (st, check_in, check_out) \<Rightarrow>
       \<lparr>StudentID = s_id s, FullName = s_name s, Status = st, CheckInTime = check_in, CheckOutTime = check_out,
        CheckInSource = map_option l_source (check_in_punch d (s_id s) day),
        CheckOutSource = map_option l_source (check_out_punch d (s_id s) day),
        ManualPunches = manual_punches d (s_id s) day\<rparr>)"

definition daily_query :: "(str \<Rightarrow> str) \<Rightarrow> date \<Rightarrow> db \<Rightarrow> AdminDailyAttendance list" where
  "daily_query coll day d =
     sort_key (\<lambda>r. (status_rank (Status r), coll (FullName r), StudentID r))
       (map (daily_row d day) (filter (\<lambda>s. s_active s \<and> existed_on s day) (students d)))"

definition AdminDailyAttendanceHandler ::
    "(str \<Rightarrow> str) \<Rightarrow> meth \<Rightarrow> str \<Rightarrow> (refusal, str \<times> AdminDailyAttendance list \<times> day_type) tx" where
  "AdminDailyAttendanceHandler coll meth dateQuery =
     bindE (guard (meth = GET) method_not_allowed) (\<lambda>_.
     bindE get_clock (\<lambda>now.
     bindE (of_sum (requestedDate dateQuery now)) (\<lambda>dateParam.
     bindE (lift_err (internal_error ''Database error'') (DayOn dateParam)) (\<lambda>day.
     if \<not> School day then ret (dateParam, [], day)
     else bindE (lift_err (internal_error ''Database error'')
            (query (daily_query coll (the (parse_date dateParam))))) (\<lambda>records.
          ret (dateParam, records, day))))))"

section \<open>The parent's views\<close>

definition today_row :: "db \<Rightarrow> date \<Rightarrow> student \<Rightarrow> DailyAttendance" where
  "today_row d day s =
     (case get_student_status d (s_id s) day of (st, check_in, check_out) \<Rightarrow>
       \<lparr>StudentID = s_id s, FullName = s_name s, Status = st, CheckInTime = check_in, CheckOutTime = check_out\<rparr>)"

definition children :: "db \<Rightarrow> int \<Rightarrow> student list" where
  \<comment> \<open>a parent's active students, by id\<close>
  "children d pid = sort_key s_id (filter (\<lambda>s. s_parent s = Some pid \<and> s_active s) (students d))"

definition MobileTodayAttendanceHandler ::
    "meth \<Rightarrow> int option \<Rightarrow> (refusal, str \<times> DailyAttendance list \<times> day_type) tx" where
  "MobileTodayAttendanceHandler meth parentID =
     bindE (guard (meth = GET) method_not_allowed) (\<lambda>_.
     bindE (parent_of_context parentID) (\<lambda>pid.
     bindE get_clock (\<lambda>now.
     bindE (lift_err (internal_error ''Database error'') (DayOn (today now))) (\<lambda>day.
     if \<not> School day then ret (today now, [], day)
     else bindE (lift_err (internal_error ''Database error'')
            (query (\<lambda>d. map (today_row d (on_date now)) (children d pid)))) (\<lambda>records.
          ret (today now, records, day))))))"

definition month_dates :: "nat \<times> nat \<Rightarrow> date list" where
  "month_dates ym = map (\<lambda>n. Date (fst ym) (snd ym) n) [1..<days_in (fst ym) (snd ym) + 1]"

definition counted_day :: "db \<Rightarrow> date \<Rightarrow> bool \<Rightarrow> student \<Rightarrow> date \<Rightarrow> bool" where
  \<comment> \<open>the conditions both month queries share\<close>
  "counted_day d td early s day \<longleftrightarrow> day \<le> td \<and> school_day d day \<and> existed_on s day \<and>
     \<not> (early \<and> day = td \<and> status_on d (s_id s) day = Absent)"

record StudentSummary =
  sm_student :: int
  sm_name :: str
  sm_present :: int
  sm_excused :: int
  sm_absent :: int

definition count_status :: "db \<Rightarrow> student \<Rightarrow> date list \<Rightarrow> status \<Rightarrow> int" where
  "count_status d s days st = count_where (\<lambda>day. status_on d (s_id s) day = st) days"

definition summary_query :: "int \<Rightarrow> nat \<times> nat \<Rightarrow> date \<Rightarrow> bool \<Rightarrow> db \<Rightarrow> StudentSummary list" where
  \<comment> \<open>the days run to the earlier of the month's end and today; a student without a counted day is
      in no group\<close>
  "summary_query pid ym td early d =
     List.map_filter (\<lambda>s.
       let valid_days = filter (\<lambda>day. day \<le> td \<and> school_day d day) (month_dates ym);
           days = filter (\<lambda>day. existed_on s day \<and>
             \<not> (early \<and> day = td \<and> status_on d (s_id s) day = Absent)) valid_days
       in if days = [] then None
          else Some \<lparr>sm_student = s_id s, sm_name = s_name s, sm_present = count_status d s days Present,
                     sm_excused = count_status d s days Excused, sm_absent = count_status d s days Absent\<rparr>)
       (children d pid)"

definition MobileAttendanceSummaryHandler ::
    "meth \<Rightarrow> int option \<Rightarrow> str \<Rightarrow> (refusal, str \<times> StudentSummary list) tx" where
  "MobileAttendanceSummaryHandler meth parentID monthQuery =
     bindE (guard (meth = GET) method_not_allowed) (\<lambda>_.
     bindE (parent_of_context parentID) (\<lambda>pid.
     bindE get_clock (\<lambda>now.
     bindE (of_sum (requestedMonth monthQuery now)) (\<lambda>monthParam.
     bindE (lift_err (internal_error ''Database error'')
       (query (summary_query pid (the (parse_month monthParam)) (on_date now) (beforeCheckInWindowEnd now))))
       (\<lambda>summaries.
     ret (monthParam, summaries))))))"

record MonthlyRecord =
  mr_date :: date
  mr_status :: status
  mr_in :: "str option"
  mr_out :: "str option"

record StudentMonthlyReport =
  rp_student :: int
  rp_name :: str
  rp_records :: "MonthlyRecord list"

definition monthly_query ::
    "int \<Rightarrow> nat \<times> nat \<Rightarrow> date \<Rightarrow> bool \<Rightarrow> db \<Rightarrow> (int \<times> str \<times> MonthlyRecord) list" where
  "monthly_query pid ym td early d =
     concat (map (\<lambda>s.
       map (\<lambda>day. case get_student_status d (s_id s) day of (st, check_in, check_out) \<Rightarrow>
              (s_id s, s_name s, \<lparr>mr_date = day, mr_status = st, mr_in = check_in, mr_out = check_out\<rparr>))
         (rev (filter (counted_day d td early s) (month_dates ym)))) (children d pid))"

fun add_record :: "int \<times> str \<times> MonthlyRecord \<Rightarrow> StudentMonthlyReport list \<Rightarrow> StudentMonthlyReport list" where
  "add_record (sid, name, r) [] = [\<lparr>rp_student = sid, rp_name = name, rp_records = [r]\<rparr>]"
| "add_record (sid, name, r) (p # ps) =
     (if rp_student p = sid then p\<lparr>rp_records := rp_records p @ [r]\<rparr> # ps
      else p # add_record (sid, name, r) ps)"

definition group_records :: "(int \<times> str \<times> MonthlyRecord) list \<Rightarrow> StudentMonthlyReport list" where
  \<comment> \<open>\<open>reportMap\<close> with \<open>studentIDs\<close>, the order in which students first appear\<close>
  "group_records rows = fold add_record rows []"

definition MobileMonthlyAttendanceHandler ::
    "meth \<Rightarrow> int option \<Rightarrow> str \<Rightarrow> (refusal, str \<times> StudentMonthlyReport list) tx" where
  "MobileMonthlyAttendanceHandler meth parentID monthQuery =
     bindE (guard (meth = GET) method_not_allowed) (\<lambda>_.
     bindE (parent_of_context parentID) (\<lambda>pid.
     bindE get_clock (\<lambda>now.
     bindE (of_sum (requestedMonth monthQuery now)) (\<lambda>monthParam.
     bindE (lift_err (internal_error ''Database error'')
       (query (monthly_query pid (the (parse_month monthParam)) (on_date now) (beforeCheckInWindowEnd now))))
       (\<lambda>rows.
     ret (monthParam, group_records rows))))))"

section \<open>Leaves\<close>

record LeavePayload =
  lp_student :: int
  lp_date :: str
  lp_notes :: str

definition insert_leave :: "int \<Rightarrow> date \<Rightarrow> str \<Rightarrow> int \<Rightarrow> db \<Rightarrow> err + int option \<times> db" where
  \<comment> \<open>\<open>INSERT ... SELECT ... ON CONFLICT DO UPDATE ... RETURNING id\<close>\<close>
  "insert_leave sid day notes i d =
     (if \<not> list_ex (\<lambda>s. s_id s = sid \<and> s_active s) (students d) then Inr (None, d)
      else case find_row (\<lambda>v. (v_student v, v_date v) = (sid, day)) (student_leaves d) of
        Some v \<Rightarrow> Inr (Some (v_id v), d\<lparr>student_leaves :=
          upd_where (\<lambda>v. (v_student v, v_date v) = (sid, day)) (v_notes_update (\<lambda>_. Some notes)) (student_leaves d)\<rparr>)
      | None \<Rightarrow> Inr (Some i, d\<lparr>student_leaves :=
          student_leaves d @ [\<lparr>v_id = i, v_student = sid, v_date = day, v_notes = Some notes\<rparr>]\<rparr>))"

definition leave_date :: "string \<Rightarrow> str \<Rightarrow> (refusal, date) tx" where
  \<comment> \<open>both leave handlers' check of a date they name \<open>field\<close>\<close>
  "leave_date field dat =
     bindE (of_option (bad_request (field @ '' must be formatted as YYYY-MM-DD'')) (parse_date dat)) (\<lambda>t.
     bindE (guard (yearInRange (year t)) (bad_request (field @ '' must have a year from 2000 to 2100''))) (\<lambda>_.
     ret t))"

definition cancelLeave :: "str \<Rightarrow> str \<Rightarrow> (refusal, unit) tx" where
  "cancelLeave idParam dat =
     bindE (guard (idParam \<noteq> [] \<and> dat \<noteq> []) (bad_request ''student_id and date are required'')) (\<lambda>_.
     bindE (of_option (bad_request ''student_id must be a positive student id'') (Atoi idParam)) (\<lambda>studentID.
     bindE (guard (1 \<le> studentID) (bad_request ''student_id must be a positive student id'')) (\<lambda>_.
     bindE (NoteActivity (u ''student'') (itoa studentID) []) (\<lambda>_.
     bindE (leave_date ''date'' dat) (\<lambda>leaveDate.
     bindE (NoteActivity (u ''student'') (itoa studentID) (u ''date='' @ ymd leaveDate)) (\<lambda>_.
     lift_err (internal_error ''Failed to cancel leave'')
       (with_int4 [studentID] (exec (\<lambda>d. d\<lparr>student_leaves :=
          del_where (\<lambda>v. v_student v = studentID \<and> v_date v = leaveDate) (student_leaves d)\<rparr>)))))))))"

definition create_leave :: "LeavePayload body \<Rightarrow> (refusal, int) tx" where
  "create_leave b =
     bindE (of_sum (decodeJSONBody b (u ''Invalid request payload''))) (\<lambda>req.
     bindE (guard (lp_student req \<noteq> 0 \<and> lp_date req \<noteq> [])
       (bad_request ''student_id and leave_date are required'')) (\<lambda>_.
     bindE (guard (\<not> lp_student req < 0) (bad_request ''student_id must be a positive student id'')) (\<lambda>_.
     bindE (NoteActivity (u ''student'') (itoa (lp_student req)) []) (\<lambda>_.
     bindE (leave_date ''leave_date'' (lp_date req)) (\<lambda>leaveDate.
     bindE (NoteActivity (u ''student'') (itoa (lp_student req)) (u ''date='' @ ymd leaveDate)) (\<lambda>_.
     bindE (lift_err (internal_error ''Failed to create leave record'')
       (with_int4 [lp_student req] (with_text [lp_notes req]
          (insert_id Student_Leaves (insert_leave (lp_student req) leaveDate (lp_notes req)))))) (\<lambda>leaveID.
     of_option (Refuse 404 (u ''Student not found'')) leaveID)))))))"

definition AdminCreateLeaveHandler :: "meth \<Rightarrow> str \<Rightarrow> str \<Rightarrow> LeavePayload body \<Rightarrow> (refusal, int option) tx" where
  \<comment> \<open>the new leave's id, or \<open>None\<close> for a cancelled one\<close>
  "AdminCreateLeaveHandler meth idParam dat b =
     (if meth = DELETE then bindE (cancelLeave idParam dat) (\<lambda>_. ret None)
      else bindE (guard (meth = POST) method_not_allowed) (\<lambda>_. bindE (create_leave b) (\<lambda>i. ret (Some i))))"

section \<open>Status: what the function computes\<close>

definition punched :: "db \<Rightarrow> int \<Rightarrow> date \<Rightarrow> bool" where
  "punched d sid day \<longleftrightarrow> (\<exists>l \<in> set (attendance_logs d). l_student l = sid \<and>
     (in_check_in_window day (l_time l) \<or> in_check_out_window day (l_time l)))"

lemma check_in_punch_None:
  "check_in_punch d sid day = None \<longleftrightarrow>
     (\<forall>l \<in> set (attendance_logs d). l_student l = sid \<longrightarrow> \<not> in_check_in_window day (l_time l))"
  by (auto simp: check_in_punch_def filter_empty_conv)

lemma check_out_punch_None:
  "check_out_punch d sid day = None \<longleftrightarrow>
     (\<forall>l \<in> set (attendance_logs d). l_student l = sid \<longrightarrow> \<not> in_check_out_window day (l_time l))"
  by (auto simp: check_out_punch_def filter_empty_conv)

lemma status_cases:
  "status_on d sid day =
     (if punched d sid day then Present else if has_leave d sid day then Excused else Absent)"
  using check_in_punch_None [of d sid day] check_out_punch_None [of d sid day]
  by (auto simp: status_on_def get_student_status_def Let_def punched_def)

lemma check_in_punch_Some:
  assumes "check_in_punch d sid day = Some l"
  shows "l \<in> set (attendance_logs d)" "l_student l = sid" "in_check_in_window day (l_time l)"
    "\<And>q. q \<in> set (attendance_logs d) \<Longrightarrow> l_student q = sid \<Longrightarrow> in_check_in_window day (l_time q) \<Longrightarrow>
       l_time l \<le> l_time q"
  using assms first_by_mem [of l_time _ l] first_by_le [of l_time _ l]
  unfolding check_in_punch_def by fastforce+

lemma check_out_punch_Some:
  assumes "check_out_punch d sid day = Some l"
  shows "l \<in> set (attendance_logs d)" "l_student l = sid" "in_check_out_window day (l_time l)"
    "\<And>q. q \<in> set (attendance_logs d) \<Longrightarrow> l_student q = sid \<Longrightarrow> in_check_out_window day (l_time q) \<Longrightarrow>
       l_time l \<le> l_time q"
  using assms first_by_mem [of l_time _ l] first_by_le [of l_time _ l]
  unfolding check_out_punch_def by fastforce+

section \<open>Types of days\<close>

definition closure_kinds :: "db \<Rightarrow> bool" where
  \<comment> \<open>the check on \<open>school_closures.kind\<close>\<close>
  "closure_kinds d \<longleftrightarrow> list_all (\<lambda>c. c_kind c = DayHoliday \<or> c_kind c = DayPause) (school_closures d)"

lemma day_names: "DayHoliday \<noteq> DaySchool" "DayPause \<noteq> DaySchool" "DayWeekend \<noteq> DaySchool"
  by (simp_all add: DayHoliday_def DayPause_def DayWeekend_def DaySchool_def)

lemma covering_closure_None: "covering_closure d day = None \<longleftrightarrow> \<not> list_ex (covers day) (school_closures d)"
  by (auto simp: covering_closure_def filter_empty_conv list_ex_iff)

lemma covering_closure_Some:
  assumes "covering_closure d day = Some c"
  shows "c \<in> set (school_closures d) \<and> covers day c"
  using first_by_mem assms unfolding covering_closure_def by fastforce

lemma DayOn_ok:
  assumes "DayOn dat w = (Inr day, w')"
  obtains t where "parse_date dat = Some t" "db w' = db w" "clock w' = clock w"
    "weekendDate t \<and> Type day = DayWeekend \<or>
     \<not> weekendDate t \<and> (case covering_closure (db w) t of
        None \<Rightarrow> Type day = DaySchool
      | Some c \<Rightarrow> Type day = c_kind c \<and> Title day = Some (c_title c) \<and> Notes day = c_notes c)"
proof (cases "parse_date dat")
  case (Some t)
  show thesis
  proof (cases "weekendDate t")
    case True
    with assms Some show thesis by (intro that [of t]) (auto simp: DayOn_def weekendDate_def ret_def)
  next
    case False
    then have "bindE (query (\<lambda>d. covering_closure d t)) (\<lambda>c. ret (closure_day c)) w = (Inr day, w')"
      using assms Some by (simp add: DayOn_def weekendDate_def)
    then obtain c w1 where c: "query (\<lambda>d. covering_closure d t) w = (Inr c, w1)"
      and r: "day = closure_day c" "w' = w1"
      by (auto simp: ret_def elim: bindE_okE)
    from r query_ok [OF c] False Some show thesis
      by (intro that [of t]) (auto simp: closure_day_def split: option.splits)
  qed
qed (use assms in \<open>simp add: DayOn_def fail_def\<close>)

lemma DayOn_school:
  assumes "DayOn dat w = (Inr day, w')" "closure_kinds (db w)"
  obtains t where "parse_date dat = Some t" "db w' = db w" "clock w' = clock w" "School day \<longleftrightarrow> school_day (db w) t"
  using assms(1)
proof (rule DayOn_ok)
  fix t
  assume t: "parse_date dat = Some t" "db w' = db w" "clock w' = clock w"
    and k: "weekendDate t \<and> Type day = DayWeekend \<or> \<not> weekendDate t \<and> (case covering_closure (db w) t of
        None \<Rightarrow> Type day = DaySchool
      | Some c \<Rightarrow> Type day = c_kind c \<and> Title day = Some (c_title c) \<and> Notes day = c_notes c)"
  have "c_kind c \<noteq> DaySchool" if "covering_closure (db w) t = Some c" for c
    using covering_closure_Some [OF that] assms(2) day_names by (auto simp: closure_kinds_def list_all_iff)
  with k have "School day \<longleftrightarrow> school_day (db w) t"
    using covering_closure_None [of "db w" t] day_names
    by (auto simp: School_def school_day_def weekendDate_def split: option.splits)
  with t show thesis by (rule that)
qed

section \<open>The month views agree\<close>

definition report_of :: "db \<Rightarrow> student \<Rightarrow> date list \<Rightarrow> MonthlyRecord list" where
  "report_of d s days =
     map (\<lambda>day. case get_student_status d (s_id s) day of (st, check_in, check_out) \<Rightarrow>
       \<lparr>mr_date = day, mr_status = st, mr_in = check_in, mr_out = check_out\<rparr>) days"

lemma add_record_new:
  "sid \<notin> rp_student ` set acc \<Longrightarrow>
   add_record (sid, nm, r) acc = acc @ [\<lparr>rp_student = sid, rp_name = nm, rp_records = [r]\<rparr>]"
  by (induction acc) auto

lemma add_record_last:
  "sid \<notin> rp_student ` set acc \<Longrightarrow>
   add_record (sid, nm, r) (acc @ [\<lparr>rp_student = sid, rp_name = nm, rp_records = rs\<rparr>]) =
   acc @ [\<lparr>rp_student = sid, rp_name = nm, rp_records = rs @ [r]\<rparr>]"
  by (induction acc) auto

lemma fold_add_more:
  "sid \<notin> rp_student ` set acc \<Longrightarrow>
   fold add_record (map (\<lambda>r. (sid, nm, r)) rs) (acc @ [\<lparr>rp_student = sid, rp_name = nm, rp_records = qs\<rparr>]) =
   acc @ [\<lparr>rp_student = sid, rp_name = nm, rp_records = qs @ rs\<rparr>]"
  by (induction rs arbitrary: qs) (simp_all add: add_record_last)

lemma fold_add_group:
  "sid \<notin> rp_student ` set acc \<Longrightarrow>
   fold add_record (map (\<lambda>r. (sid, nm, r)) rs) acc =
   (if rs = [] then acc else acc @ [\<lparr>rp_student = sid, rp_name = nm, rp_records = rs\<rparr>])"
  by (cases rs) (simp_all add: add_record_new fold_add_more)

lemma fold_add_groups:
  assumes "distinct (map s_id ss)" "s_id ` set ss \<inter> rp_student ` set acc = {}"
  shows "fold add_record (concat (map (\<lambda>s. map (\<lambda>r. (s_id s, s_name s, r)) (f s)) ss)) acc =
    acc @ map (\<lambda>s. \<lparr>rp_student = s_id s, rp_name = s_name s, rp_records = f s\<rparr>) (filter (\<lambda>s. f s \<noteq> []) ss)"
  using assms
proof (induction ss arbitrary: acc)
  case (Cons s ss)
  have s: "s_id s \<notin> rp_student ` set acc" using Cons.prems(2) by auto
  let ?acc = "if f s = [] then acc else acc @ [\<lparr>rp_student = s_id s, rp_name = s_name s, rp_records = f s\<rparr>]"
  have "s_id ` set ss \<inter> rp_student ` set ?acc = {}" using Cons.prems by auto
  with Cons.IH [of ?acc] Cons.prems(1) fold_add_group [OF s, of "s_name s" "f s"] show ?case by auto
qed simp

definition counted_days :: "db \<Rightarrow> nat \<times> nat \<Rightarrow> date \<Rightarrow> bool \<Rightarrow> student \<Rightarrow> date list" where
  "counted_days d ym td early s = filter (counted_day d td early s) (month_dates ym)"

lemma distinct_children: "distinct (map s_id (students d)) \<Longrightarrow> distinct (map s_id (children d pid))"
proof -
  assume "distinct (map s_id (students d))"
  then have "distinct (map s_id (filter (\<lambda>s. s_parent s = Some pid \<and> s_active s) (students d)))"
    by (rule distinct_map_filter)
  moreover have "mset (map s_id (children d pid)) =
      mset (map s_id (filter (\<lambda>s. s_parent s = Some pid \<and> s_active s) (students d)))"
    by (simp add: children_def)
  ultimately show ?thesis by (metis mset_eq_imp_distinct_iff)
qed

lemma group_monthly:
  assumes "distinct (map s_id (students d))"
  shows "group_records (monthly_query pid ym td early d) =
    map (\<lambda>s. \<lparr>rp_student = s_id s, rp_name = s_name s,
               rp_records = report_of d s (rev (counted_days d ym td early s))\<rparr>)
      (filter (\<lambda>s. counted_days d ym td early s \<noteq> []) (children d pid))"
proof -
  have "monthly_query pid ym td early d = concat (map (\<lambda>s. map (\<lambda>r. (s_id s, s_name s, r))
      (report_of d s (rev (counted_days d ym td early s)))) (children d pid))"
    unfolding monthly_query_def report_of_def counted_days_def
    by (intro arg_cong [where f = concat] map_cong refl) (simp add: comp_def split_def)
  then show ?thesis
    using fold_add_groups [of "children d pid" "[]" "\<lambda>s. report_of d s (rev (counted_days d ym td early s))"]
      distinct_children [OF assms, of pid]
    by (simp add: group_records_def report_of_def)
qed

lemma count_report: "count_where (\<lambda>r. mr_status r = st) (report_of d s days) = count_status d s days st"
  by (induction days) (auto simp: report_of_def count_where_def count_status_def status_on_def split: prod.split)

lemma count_where_rev [simp]: "count_where p (rev xs) = count_where p xs"
  by (simp add: count_where_def rev_filter [symmetric])

lemma count_status_rev [simp]: "count_status d s (rev days) st = count_status d s days st"
  by (simp add: count_status_def)

lemma summary_days:
  "filter (\<lambda>day. existed_on s day \<and> \<not> (early \<and> day = td \<and> status_on d (s_id s) day = Absent))
     (filter (\<lambda>day. day \<le> td \<and> school_day d day) (month_dates ym)) = counted_days d ym td early s"
  by (auto simp: counted_days_def counted_day_def intro!: filter_cong)

lemma summary_query_eq:
  "summary_query pid ym td early d =
     map (\<lambda>s. let days = counted_days d ym td early s in
       \<lparr>sm_student = s_id s, sm_name = s_name s, sm_present = count_status d s days Present,
        sm_excused = count_status d s days Excused, sm_absent = count_status d s days Absent\<rparr>)
       (filter (\<lambda>s. counted_days d ym td early s \<noteq> []) (children d pid))"
  unfolding summary_query_def summary_days Let_def
  by (induction "children d pid") (auto simp: List.map_filter_def)

section \<open>Properties\<close>

text \<open>The earliest of a student's punches in a window of a date.\<close>

definition earliest_punch :: "(date \<Rightarrow> stamp \<Rightarrow> bool) \<Rightarrow> db \<Rightarrow> int \<Rightarrow> date \<Rightarrow> punch \<Rightarrow> bool" where
  "earliest_punch window d sid day l \<longleftrightarrow>
     l \<in> set (attendance_logs d) \<and> l_student l = sid \<and> window day (l_time l) \<and>
     (\<forall>q \<in> set (attendance_logs d). l_student q = sid \<and> window day (l_time q) \<longrightarrow> l_time l \<le> l_time q)"

lemma earliest_time:
  assumes "\<And>l. chosen = Some l \<Longrightarrow> earliest_punch window d sid day l"
    and "chosen = None \<longleftrightarrow> (\<forall>l \<in> set (attendance_logs d). l_student l = sid \<longrightarrow> \<not> window day (l_time l))"
  shows "map_option (\<lambda>l. time12 (l_time l)) chosen = Some t \<longleftrightarrow> (\<exists>l. earliest_punch window d sid day l \<and> t = time12 (l_time l))"
proof (cases chosen)
  case None
  with assms(2) show ?thesis by (auto simp: earliest_punch_def)
next
  case (Some c)
  note c = assms(1) [OF Some]
  have "l_time l = l_time c" if "earliest_punch window d sid day l" for l
    using that c unfolding earliest_punch_def by (intro order_antisym) blast+
  then have "time12 (l_time c) = t \<longleftrightarrow> (\<exists>l. earliest_punch window d sid day l \<and> t = time12 (l_time l))"
    using c by metis
  then show ?thesis by (simp add: Some)
qed

lemma earliest_check_in: "check_in_punch d sid day = Some l \<Longrightarrow> earliest_punch in_check_in_window d sid day l"
  using check_in_punch_Some [of d sid day l] unfolding earliest_punch_def by blast

lemma earliest_check_out: "check_out_punch d sid day = Some l \<Longrightarrow> earliest_punch in_check_out_window d sid day l"
  using check_out_punch_Some [of d sid day l] unfolding earliest_punch_def by blast

text \<open>C9. The status function reports a student Present exactly when one of the student's punches
  lies in the check-in or the check-out window of the date, Excused exactly when none does and a
  leave is recorded, Absent otherwise. The first check it shows is the time t exactly when t is that of
  the earliest punch of the check-in window, the last check exactly when t is that of the earliest punch
  of the check-out window; each is empty exactly when its window has no punch of the student.\<close>

theorem get_student_status_spec:
  "(fst (get_student_status d sid day) = Present) = punched d sid day \<and>
   (fst (get_student_status d sid day) = Excused) = (\<not> punched d sid day \<and> has_leave d sid day) \<and>
   (fst (get_student_status d sid day) = Absent) = (\<not> punched d sid day \<and> \<not> has_leave d sid day) \<and>
   (\<forall>t. fst (snd (get_student_status d sid day)) = Some t \<longleftrightarrow>
      (\<exists>l. earliest_punch in_check_in_window d sid day l \<and> t = time12 (l_time l))) \<and>
   (\<forall>t. snd (snd (get_student_status d sid day)) = Some t \<longleftrightarrow>
      (\<exists>l. earliest_punch in_check_out_window d sid day l \<and> t = time12 (l_time l))) \<and>
   (fst (snd (get_student_status d sid day)) = None \<longleftrightarrow>
      (\<forall>l \<in> set (attendance_logs d). l_student l = sid \<longrightarrow> \<not> in_check_in_window day (l_time l))) \<and>
   (snd (snd (get_student_status d sid day)) = None \<longleftrightarrow>
      (\<forall>l \<in> set (attendance_logs d). l_student l = sid \<longrightarrow> \<not> in_check_out_window day (l_time l)))"
proof -
  have s: "fst (get_student_status d sid day) =
     (if punched d sid day then Present else if has_leave d sid day then Excused else Absent)"
    using status_cases [of d sid day] by (simp add: status_on_def)
  have checks: "snd (get_student_status d sid day) =
     (map_option (\<lambda>l. time12 (l_time l)) (check_in_punch d sid day), map_option (\<lambda>l. time12 (l_time l)) (check_out_punch d sid day))"
    by (simp add: get_student_status_def Let_def)
  show ?thesis
    using earliest_time [OF earliest_check_in check_in_punch_None] earliest_time [OF earliest_check_out check_out_punch_None]
    by (simp only: s checks fst_conv snd_conv option.map_disc_iff check_in_punch_None check_out_punch_None) simp
qed

definition busy_day :: db where
  \<comment> \<open>a student with a leave who came all the same: two punches in the morning and two at noon\<close>
  "busy_day = empty_db\<lparr>student_leaves := [\<lparr>v_id = 1, v_student = 7, v_date = Date 2026 3 2, v_notes = None\<rparr>],
     attendance_logs := map (\<lambda>(i, h, m). \<lparr>l_id = i, l_student = 7, l_device = None, l_time = At (Date 2026 3 2) (hm h m),
         l_sync = None, l_source = u ''device'', l_note = None\<rparr>)
       [(1, 8, 15), (2, 13, 5), (3, 7, 40), (4, 12, 30)]\<rparr>"

theorem get_student_status_spec_witness:
  "get_student_status busy_day 7 (Date 2026 3 2) = (Present, Some (u ''07:40 AM''), Some (u ''12:30 PM''))"
proof -
  define early where "early = \<lparr>l_id = 3, l_student = 7, l_device = None, l_time = At (Date 2026 3 2) (hm 7 40),
         l_sync = None, l_source = u ''device'', l_note = None\<rparr>"
  define noon where "noon = \<lparr>l_id = 4, l_student = 7, l_device = None, l_time = At (Date 2026 3 2) (hm 12 30),
         l_sync = None, l_source = u ''device'', l_note = None\<rparr>"
  note windows = in_check_in_window_def in_check_out_window_def CheckInWindowStart_def CheckInWindowEnd_def
    CheckOutWindowStart_def CheckOutWindowEnd_def hm_def
  have first: "earliest_punch in_check_in_window busy_day 7 (Date 2026 3 2) early"
    by (simp add: earliest_punch_def busy_day_def early_def windows stamp_le_iff stamp_less_iff sec_def)
  have last: "earliest_punch in_check_out_window busy_day 7 (Date 2026 3 2) noon"
    by (simp add: earliest_punch_def busy_day_def noon_def windows stamp_le_iff stamp_less_iff sec_def)
  have times: "time12 (l_time early) = u ''07:40 AM''" "time12 (l_time noon) = u ''12:30 PM''"
    by (simp_all add: early_def noon_def time12_def hm_def hour_of_def minute_of_def pad2_def u_def sec_def Let_def)
  have p: "punched busy_day 7 (Date 2026 3 2)"
    using first by (auto simp: earliest_punch_def punched_def)
  show ?thesis
    using get_student_status_spec [of busy_day 7 "Date 2026 3 2"] p first last times
    by (intro prod_eqI) auto
qed

text \<open>\<open>DayOn\<close> and the SQL condition \<open>schoolDaySQL\<close> are the same rule: whenever \<open>DayOn\<close> answers
  for a date, it calls the date a school day exactly when the SQL condition holds.\<close>

theorem DayOn_is_schoolDaySQL:
  assumes "DayOn (ymd t) w = (Inr info, w')" "closure_kinds (db w)" "valid_date t"
  shows "School info = school_day (db w) t \<and> db w' = db w"
  using DayOn_school [OF assms(1,2)] assms(3) by (metis option.inject parse_date_ymd)

theorem DayOn_is_schoolDaySQL_witness: "school_day empty_db (Date 2026 3 2)"
proof -
  let ?w = "quiet empty_db (At (Date 2026 3 2) 0)"
  have v: "valid_date (Date 2026 3 2)" by (simp add: valid_date_def days_in_def)
  have wd: "weekday (Date 2026 3 2) = 1" by (simp add: date_eval)
  have none: "school_closures empty_db = []" by (simp add: empty_db_def)
  have "DayOn (ymd (Date 2026 3 2)) ?w = (Inr \<lparr>Type = DaySchool, Title = None, Notes = None\<rparr>, ?w)"
    by (simp add: DayOn_def v wd bindE_def run_simps covering_closure_def closure_day_def none)
  moreover have "closure_kinds (db ?w)" by (simp add: closure_kinds_def none)
  ultimately have "School \<lparr>Type = DaySchool, Title = None, Notes = None\<rparr> = school_day (db ?w) (Date 2026 3 2)"
    using DayOn_is_schoolDaySQL v by blast
  then show ?thesis by (simp add: School_def)
qed

text \<open>The two month views of a parent agree: run on the same data at the same moment, the summary
  lists the same children as the monthly report, in the same order, and its totals of present,
  excused and absent days are the numbers of records of each status in the report.\<close>

theorem month_views_agree:
  assumes "MobileAttendanceSummaryHandler GET (Some pid) q w = (Inr (mp, sums), w1)"
    and "MobileMonthlyAttendanceHandler GET (Some pid) q w' = (Inr (mp', reports), w2)"
    and "db w' = db w" "clock w' = clock w" "unique_key s_id (students (db w))"
  shows "mp = mp' \<and>
    map (\<lambda>s. (sm_student s, sm_name s, sm_present s, sm_excused s, sm_absent s)) sums =
    map (\<lambda>r. (rp_student r, rp_name r, count_where (\<lambda>x. mr_status x = Present) (rp_records r),
              count_where (\<lambda>x. mr_status x = Excused) (rp_records r),
              count_where (\<lambda>x. mr_status x = Absent) (rp_records r))) reports"
proof -
  let ?q = "\<lambda>f. f pid (the (parse_month mp)) (on_date (clock w)) (beforeCheckInWindowEnd (clock w))"
  have mp: "requestedMonth q (clock w) = Inr mp" and s: "sums = ?q summary_query (db w)"
    using assms(1)
    by (auto simp: MobileAttendanceSummaryHandler_def ok_iffs parent_of_context_def dest: query_okD)
  have mp': "requestedMonth q (clock w') = Inr mp'"
    and r: "reports = group_records (monthly_query pid (the (parse_month mp')) (on_date (clock w'))
      (beforeCheckInWindowEnd (clock w')) (db w'))"
    using assms(2)
    by (auto simp: MobileMonthlyAttendanceHandler_def ok_iffs parent_of_context_def dest: query_okD)
  have eq: "mp' = mp" using mp mp' assms(4) by simp
  have "distinct (map s_id (students (db w)))" using assms(5) by (simp add: unique_key_def)
  then show ?thesis
    unfolding s r eq assms(3,4) summary_query_eq
    by (simp add: group_monthly Let_def comp_def count_report)
qed

theorem month_views_agree_witness:
  "[] = map (\<lambda>r. (rp_student r, rp_name r, count_where (\<lambda>x. mr_status x = Present) (rp_records r),
              count_where (\<lambda>x. mr_status x = Excused) (rp_records r),
              count_where (\<lambda>x. mr_status x = Absent) (rp_records r)))
      (group_records (monthly_query 5 (2026, 3) (Date 2026 3 9) True empty_db))"
proof -
  let ?w = "quiet empty_db (At (Date 2026 3 9) 0)"
  have none: "students empty_db = []" by (simp add: empty_db_def)
  have early: "beforeCheckInWindowEnd (At (Date 2026 3 9) 0) = True"
    by (simp add: beforeCheckInWindowEnd_def stamp_less_iff CheckInWindowEnd_def hm_def sec_def)
  have m: "requestedMonth [] (At (Date 2026 3 9) 0) = Inr (yyyy_mm (Date 2026 3 9))"
    by (simp add: requestedMonth_def)
  have p: "parse_month (yyyy_mm (Date 2026 3 9)) = Some (2026, 3)"
    using parse_month_yyyy_mm [of "Date 2026 3 9"] by (simp add: valid_date_def days_in_def)
  have none2: "summary_query 5 (2026, 3) (Date 2026 3 9) True empty_db = []"
    by (simp add: summary_query_def children_def none List.map_filter_simps)
  have "MobileAttendanceSummaryHandler GET (Some 5) [] ?w = (Inr (yyyy_mm (Date 2026 3 9), []), ?w)"
    by (simp add: MobileAttendanceSummaryHandler_def parent_of_context_def bindE_def run_simps m p early
        lift_err_run none2)
  moreover have "MobileMonthlyAttendanceHandler GET (Some 5) [] ?w =
      (Inr (yyyy_mm (Date 2026 3 9), group_records (monthly_query 5 (2026, 3) (Date 2026 3 9) True empty_db)), ?w)"
    by (simp add: MobileMonthlyAttendanceHandler_def parent_of_context_def bindE_def run_simps m p early
        lift_err_run)
  ultimately show ?thesis
    using month_views_agree [of 5 "[]" ?w _ "[]" ?w ?w] none by (simp add: unique_key_def)
qed

end
