(* ===== verification/Notify.thy ===== *)
theory Notify
  imports Transactions
begin

text \<open>
  Notifications and pushes, \<open>internal/notify/notify.go\<close>. Firebase is a parameter: \<open>None\<close> when no
  client is configured, otherwise the answer it gives to each push. Work the code starts with
  \<open>background.Group.Go\<close> runs here at the point where it is started; its own errors are logged only,
  so \<open>quietly\<close> drops them.
\<close>

datatype fcm = Sent | Unregistered | SendFailed

type_synonym fcm_client = "(push \<Rightarrow> fcm) option"

definition quietly :: "(err, unit) tx \<Rightarrow> ('e, unit) tx" where
  "quietly m = catchE m (\<lambda>_. ret ())"

definition insert_notification ::
    "int \<Rightarrow> str \<Rightarrow> str \<Rightarrow> int option \<Rightarrow> stamp \<Rightarrow> int \<Rightarrow> db \<Rightarrow> err + unit \<times> db" where
  "insert_notification pid title body bc now i d =
     (if 255 < length title then Inl (Pg (u ''22001'') [])
      else if \<not> list_ex (\<lambda>p. p_id p = pid) (parents d)
      then Inl (foreign_key_violation ''notifications_parent_id_fkey'')
      else Inr ((), d\<lparr>notifications := notifications d @
        [\<lparr>n_id = i, n_parent = Some pid, n_title = title, n_body = body, n_read = False, n_created = to_micro now,
          n_broadcast = bc\<rparr>]\<rparr>))"

definition SaveNotificationTx :: "int \<Rightarrow> str \<Rightarrow> str \<Rightarrow> (err, unit) tx" where
  "SaveNotificationTx parentID title body =
     bindE get_clock (\<lambda>now. insert_id Notifications (insert_notification parentID title body None now))"

definition SaveNotificationHistory :: "int \<Rightarrow> str \<Rightarrow> str \<Rightarrow> ('e, unit) tx" where
  "SaveNotificationHistory parentID title body = quietly (SaveNotificationTx parentID title body)"

definition clearDeadToken :: "str \<Rightarrow> ('e, unit) tx" where
  "clearDeadToken token =
     quietly (exec (\<lambda>d. d\<lparr>device_tokens := del_where (\<lambda>t. t_token t = token) (device_tokens d)\<rparr>))"

definition push_out :: "push \<Rightarrow> ('e, unit) tx" where
  "push_out p w = (Inr (), w\<lparr>outbox := outbox w @ [p]\<rparr>)"

definition SendPushNotification :: "fcm_client \<Rightarrow> str \<Rightarrow> str \<Rightarrow> str \<Rightarrow> ('e, unit) tx" where
  "SendPushNotification client token title body =
     (case client of
        None \<Rightarrow> ret ()
      | Some send \<Rightarrow>
          if token = [] then ret ()
          else let msg = \<lparr>push_token = token, push_title = title, push_body = body\<rparr> in
               bindE (push_out msg) (\<lambda>_. if send msg = Unregistered then clearDeadToken token else ret ()))"

fun SendToDevices :: "fcm_client \<Rightarrow> str list \<Rightarrow> str \<Rightarrow> str \<Rightarrow> ('e, unit) tx" where
  "SendToDevices client [] title body = ret ()"
| "SendToDevices client (token # tokens) title body =
     bindE (SendPushNotification client token title body) (\<lambda>_. SendToDevices client tokens title body)"

definition parent_device_tokens :: "db \<Rightarrow> int option \<Rightarrow> str option" where
  \<comment> \<open>\<open>ParentDeviceTokensSQL\<close>: \<open>string_agg(token, ',' ORDER BY id)\<close>\<close>
  "parent_device_tokens d pid =
     (case pid of
        None \<Rightarrow> None
      | Some p \<Rightarrow>
          (case map t_token (sort_key t_id (filter (\<lambda>t. t_parent t = p) (device_tokens d))) of
             [] \<Rightarrow> None | ts \<Rightarrow> Some (join_with [44] ts)))"

definition DeviceTokens :: "str option \<Rightarrow> str list" where
  "DeviceTokens list =
     (case list of None \<Rightarrow> [] | Some s \<Rightarrow> if s = [] then [] else split_on 44 s)"

section \<open>Facts\<close>

lemma split_on_plain: "d \<notin> set s \<Longrightarrow> split_on d s = [s]"
  by (induction s) auto

lemma split_on_append: "d \<notin> set s \<Longrightarrow> split_on d (s @ d # r) = s # split_on d r"
  by (induction s) auto

lemma split_join: "ts \<noteq> [] \<Longrightarrow> \<forall>t \<in> set ts. d \<notin> set t \<Longrightarrow> split_on d (join_with [d] ts) = ts"
proof (induction ts)
  case (Cons x xs)
  then show ?case
    using split_on_append [of d x "join_with [d] xs"] by (cases xs) (auto simp: split_on_plain)
qed simp

definition plain_tokens :: "db \<Rightarrow> bool" where
  \<comment> \<open>every stored token is non-empty and has no comma (\<open>validDeviceToken\<close>)\<close>
  "plain_tokens d \<longleftrightarrow> list_all (\<lambda>t. t_token t \<noteq> [] \<and> 44 \<notin> set (t_token t)) (device_tokens d)"

definition tokens_of :: "db \<Rightarrow> int \<Rightarrow> str list" where
  "tokens_of d pid = map t_token (sort_key t_id (filter (\<lambda>t. t_parent t = pid) (device_tokens d)))"

lemma join_with_nonempty: "x \<noteq> [] \<Longrightarrow> join_with sep (x # xs) \<noteq> []"
  by (cases xs) auto

lemma DeviceTokens_exact:
  assumes "plain_tokens d"
  shows "DeviceTokens (parent_device_tokens d (Some pid)) = tokens_of d pid"
proof -
  have p: "\<forall>t \<in> set (tokens_of d pid). t \<noteq> [] \<and> 44 \<notin> set t"
    using assms by (auto simp: tokens_of_def plain_tokens_def list_all_iff)
  show ?thesis
  proof (cases "tokens_of d pid")
    case Nil
    then show ?thesis by (simp add: DeviceTokens_def parent_device_tokens_def tokens_of_def)
  next
    case (Cons t ts)
    have j: "parent_device_tokens d (Some pid) = Some (join_with [44] (t # ts))"
      using Cons by (simp add: parent_device_tokens_def tokens_of_def)
    have "join_with [44] (t # ts) \<noteq> []" using p Cons by (intro join_with_nonempty) auto
    moreover have "split_on 44 (join_with [44] (t # ts)) = t # ts"
      using p Cons by (intro split_join) auto
    ultimately show ?thesis using Cons by (simp add: DeviceTokens_def j)
  qed
qed

lemma quietly_never_fails: "\<exists>w'. quietly m w = (Inr (), w')"
  by (cases "m w") (auto simp: quietly_def catchE_def ret_def split: sum.split)

lemma keeps_quietly [keeping]: "keeps P m \<Longrightarrow> keeps P (quietly m)"
  by (simp add: quietly_def keeps_catchE keeps_ret)

lemma keeps_push_out [keeping]: "keeps P (push_out p)"
  by (simp add: keeps_def push_out_def)

text \<open>What touches only notifications and device tokens keeps every property of the rest.\<close>

definition blind_to_notices :: "(db \<Rightarrow> bool) \<Rightarrow> bool" where
  "blind_to_notices P \<longleftrightarrow> (\<forall>d n t. P d \<longrightarrow> P (d\<lparr>notifications := n\<rparr>) \<and> P (d\<lparr>device_tokens := t\<rparr>))"

lemma keeps_SaveNotificationTx: "blind_to_notices P \<Longrightarrow> keeps P (SaveNotificationTx pid t b)"
  unfolding SaveNotificationTx_def
  by (intro keeping) (auto simp: insert_notification_def blind_to_notices_def split: if_splits)

lemma keeps_SaveNotificationHistory: "blind_to_notices P \<Longrightarrow> keeps P (SaveNotificationHistory pid t b)"
  by (simp add: SaveNotificationHistory_def keeps_quietly keeps_SaveNotificationTx)

lemma keeps_SendPushNotification:
  "blind_to_notices P \<Longrightarrow> keeps P (SendPushNotification client token title body)"
  unfolding SendPushNotification_def clearDeadToken_def Let_def
  by (intro keeping) (auto simp: blind_to_notices_def)

lemma keeps_SendToDevices: "blind_to_notices P \<Longrightarrow> keeps P (SendToDevices client tokens title body)"
  by (induction tokens) (auto intro!: keeping keeps_SendPushNotification)

end
