(* ===== verification/Hardware.thy ===== *)
theory Hardware
  imports Attendance Notify
begin

text \<open>
  Punches from the attendance devices, \<open>internal/handlers/hardware.go\<close> and \<open>zkteco_handler.go\<close>:
  parsing an ATTLOG body, storing a batch in one transaction with its savepoints, deciding which
  punches a parent is told about, and the two endpoints devices call. A log line is the list of its
  code points. Timeouts and failed reads of rows are faults of the statement concerned.
\<close>

section \<open>Parsing\<close>

record AttendanceEvent =
  PIN :: str
  CheckTime :: stamp

fun key_value :: "str \<Rightarrow> (str \<times> str) option" where
  "key_value f = (if 61 \<in> set f then Some (TrimSpace (takeWhile (\<lambda>c. c \<noteq> 61) f), TrimSpace (tl (dropWhile (\<lambda>c. c \<noteq> 61) f)))
                  else None)"

definition line_fields :: "str \<Rightarrow> (str \<times> str) option" where
  \<comment> \<open>the PIN and the date-time text of a non-empty trimmed line, in either format\<close>
  "line_fields line =
     (let fields = split_on 9 line in
      if 61 \<in> set (hd fields)
      then let kv = map_of (rev (List.map_filter key_value fields)) in
           (case (kv (u ''PIN''), kv (u ''DateTime'')) of (Some p, Some t) \<Rightarrow> Some (p, t) | _ \<Rightarrow> None)
      else if length fields < 2 then None
      else Some (TrimSpace (fields ! 0), TrimSpace (fields ! 1)))"

definition parse_line :: "str \<Rightarrow> AttendanceEvent option" where
  "parse_line raw =
     (let line = TrimSpace raw in
      if line = [] then None
      else case line_fields line of
        None \<Rightarrow> None
      | Some (pin, dateTimeStr) \<Rightarrow>
          if pin = [] then None
          else map_option (\<lambda>t. \<lparr>PIN = pin, CheckTime = t\<rparr>) (parse_stamp dateTimeStr))"

definition parseATTLOG :: "str \<Rightarrow> AttendanceEvent list" where
  "parseATTLOG rawBody = List.map_filter parse_line (split_on 10 (TrimSpace rawBody))"

section \<open>Storing a batch\<close>

definition isTransientDBError :: "err \<Rightarrow> bool" where
  "isTransientDBError e =
     (case e of
        Driver \<Rightarrow> True
      | Pg code _ \<Rightarrow>
          take 2 code \<in> {u ''08'', u ''53'', u ''57'', u ''58''} \<or> code \<in> {u ''40001'', u ''40P01'', u ''55P03''})"

type_synonym storedPunch = "int \<times> stamp"

definition insert_punch_row ::
    "str \<Rightarrow> stamp \<Rightarrow> int \<Rightarrow> storedPunch \<Rightarrow> punch list \<Rightarrow> punch list option" where
  "insert_punch_row sn now i p logs =
     insert_unique (\<lambda>l. (l_student l, l_time l))
       \<lparr>l_id = i, l_student = fst p, l_device = Some sn, l_time = to_micro (snd p), l_sync = Some (to_micro now),
        l_source = u ''device'', l_note = None\<rparr> logs"

fun insert_punch_rows ::
    "str \<Rightarrow> stamp \<Rightarrow> int \<Rightarrow> storedPunch list \<Rightarrow> punch list \<Rightarrow> int \<times> punch list \<times> storedPunch list" where
  "insert_punch_rows sn now i [] logs = (i, logs, [])"
| "insert_punch_rows sn now i (p # ps) logs =
     (case insert_punch_row sn now i p logs of
        None \<Rightarrow> insert_punch_rows sn now (i + 1) ps logs
      | Some logs' \<Rightarrow>
          (case insert_punch_rows sn now (i + 1) ps logs' of
             (n, out, stored) \<Rightarrow> (n, out, (fst p, to_micro (snd p)) # stored)))"

definition insert_punches :: "str \<Rightarrow> storedPunch list \<Rightarrow> (err, storedPunch list) tx" where
  \<comment> \<open>\<open>insertPunchesSQL\<close>, and with one punch the statement of \<open>insertPunchesEach\<close>\<close>
  "insert_punches sn ps =
     bindE get_clock (\<lambda>now.
     insert_ids Attendance_Logs (\<lambda>i d.
       case insert_punch_rows sn now i ps (attendance_logs d) of
         (n, out, stored) \<Rightarrow>
           (n, if stored \<noteq> [] \<and> \<not> list_ex (\<lambda>v. d_sn v = sn) (devices d)
               then Inl (foreign_key_violation ''attendance_logs_device_sn_fkey'')
               else Inr (stored, d\<lparr>attendance_logs := out\<rparr>))))"

definition insertPunchesBulk :: "str \<Rightarrow> storedPunch list \<Rightarrow> (err, storedPunch list) tx" where
  "insertPunchesBulk sn batch =
     (if batch = [] then ret []
      else bindE savepoint (\<lambda>saved.
           catchE (insert_punches sn batch) (\<lambda>e.
             if \<not> isTransientDBError e then bindE (rollback_savepoint saved) (\<lambda>_. fail e) else fail e)))"

fun insertPunchesEach :: "str \<Rightarrow> storedPunch list \<Rightarrow> (err, storedPunch list \<times> int) tx" where
  "insertPunchesEach sn [] = ret ([], 0)"
| "insertPunchesEach sn (p # ps) =
     bindE savepoint (\<lambda>saved.
     bindE (attempt (insert_punches sn [p])) (\<lambda>r.
     case r of
       Inr stored \<Rightarrow>
         bindE control (\<lambda>_.
         bindE (insertPunchesEach sn ps) (\<lambda>(more, rejected). ret (stored @ more, rejected)))
     | Inl e \<Rightarrow>
         if isTransientDBError e then fail e
         else bindE (rollback_savepoint saved) (\<lambda>_.
              bindE (insertPunchesEach sn ps) (\<lambda>(more, rejected). ret (more, rejected + 1)))))"

fun insert_teacher_rows ::
    "str \<Rightarrow> storedPunch list \<Rightarrow> teacher_punch list \<Rightarrow> teacher_punch list \<times> int" where
  "insert_teacher_rows sn [] logs = (logs, 0)"
| "insert_teacher_rows sn (p # ps) logs =
     (case insert_unique (\<lambda>h. (h_teacher h, h_time h))
             \<lparr>h_teacher = fst p, h_device = sn, h_time = to_micro (snd p)\<rparr> logs of
        None \<Rightarrow> insert_teacher_rows sn ps logs
      | Some logs' \<Rightarrow> (case insert_teacher_rows sn ps logs' of (out, n) \<Rightarrow> (out, n + 1)))"

definition tag_ids :: "('r \<Rightarrow> str option) \<Rightarrow> ('r \<Rightarrow> int) \<Rightarrow> str list \<Rightarrow> 'r list \<Rightarrow> str \<rightharpoonup> int" where
  \<comment> \<open>\<open>SELECT rfid_tag, id ... WHERE rfid_tag = ANY(pins)\<close> read into a map\<close>
  "tag_ids tag ident pins rs =
     map_of (rev (List.map_filter (\<lambda>r. case tag r of None \<Rightarrow> None
       | Some t \<Rightarrow> if t \<in> set pins then Some (t, ident r) else None) rs))"

definition storeTeacherPunches ::
    "str \<Rightarrow> AttendanceEvent list \<Rightarrow> str list \<Rightarrow> (err, int \<times> int \<times> str list) tx" where
  "storeTeacherPunches sn events pins =
     bindE (with_text pins (query (\<lambda>d. tag_ids e_tag e_id pins (teachers d)))) (\<lambda>ids.
     let unknown = filter (\<lambda>p. ids p = None) pins;
         punches = List.map_filter (\<lambda>ev. map_option (\<lambda>i. (i, CheckTime ev)) (ids (PIN ev))) events in
     if punches = [] then ret (0, 0, unknown)
     else bindE savepoint (\<lambda>saved.
          bindE (attempt (stmt (\<lambda>d.
            case insert_teacher_rows sn punches (teacher_attendance_logs d) of
              (out, n) \<Rightarrow> if n \<noteq> 0 \<and> \<not> list_ex (\<lambda>v. d_sn v = sn) (devices d)
                then Inl (foreign_key_violation ''teacher_attendance_logs_device_sn_fkey'')
                else Inr (n, d\<lparr>teacher_attendance_logs := out\<rparr>)))) (\<lambda>r.
          case r of
            Inr n \<Rightarrow> ret (n, int (length punches) - n, unknown)
          | Inl e \<Rightarrow>
              if isTransientDBError e then fail e
              else bindE (rollback_savepoint saved) (\<lambda>_. ret (0, 0, unknown)))))"

record attlogResult =
  inserted :: "storedPunch list"
  duplicates :: int
  teacherInserted :: int
  teacherDuplicates :: int
  unknownPINs :: "str list"
  rejected :: int

fun first_seen :: "str list \<Rightarrow> str list \<Rightarrow> str list" where
  \<comment> \<open>the loops with \<open>seen\<close>: each PIN once, in the order of its first record\<close>
  "first_seen seen [] = []"
| "first_seen seen (p # ps) = (if p \<in> set seen then first_seen seen ps else p # first_seen (p # seen) ps)"

definition store_batch :: "str \<Rightarrow> AttendanceEvent list \<Rightarrow> (err, attlogResult) tx" where
  \<comment> \<open>what \<open>persistATTLOG\<close> does between \<open>BeginTx\<close> and \<open>Commit\<close>\<close>
  "store_batch sn events =
     (let pins = first_seen [] (map PIN events) in
      bindE (with_text pins (query (\<lambda>d. tag_ids (\<lambda>s. Some (s_tag s)) s_id pins (students d)))) (\<lambda>ids.
      let unknown = filter (\<lambda>p. ids p = None) pins;
          batch = List.map_filter (\<lambda>ev. map_option (\<lambda>i. (i, CheckTime ev)) (ids (PIN ev))) events in
      bindE (catchE (bindE (insertPunchesBulk sn batch) (\<lambda>ins. ret (ins, 0)))
               (\<lambda>e. if \<not> isTransientDBError e then insertPunchesEach sn batch else fail e)) (\<lambda>(ins, rej).
      bindE (if unknown \<noteq> [] then storeTeacherPunches sn events unknown else ret (0, 0, unknown))
        (\<lambda>(tin, tdup, unk).
      ret \<lparr>inserted = ins, duplicates = int (length batch) - int (length ins) - rej, teacherInserted = tin,
           teacherDuplicates = tdup, unknownPINs = unk, rejected = rej\<rparr>))))"

definition persistATTLOG :: "str \<Rightarrow> AttendanceEvent list \<Rightarrow> (err, attlogResult) tx" where
  "persistATTLOG sn events = in_tx (\<lambda>e. e) (store_batch sn events)"

section \<open>Notifying parents\<close>

fun splitPunchesByDay :: "storedPunch list \<Rightarrow> str \<Rightarrow> storedPunch list \<times> int \<times> int" where
  "splitPunchesByDay [] td = ([], 0, 0)"
| "splitPunchesByDay (p # ps) td =
     (case splitPunchesByDay ps td of
        (todays, stale, future) \<Rightarrow>
          (let day = ymd (on_date (snd p)) in
           if day < td then (todays, stale + 1, future)
           else if td < day then (todays, stale, future + 1)
           else (p # todays, stale, future)))"

definition minute_start :: "stamp \<Rightarrow> nat" where
  "minute_start t = clock_of t div (60 * sec)"

definition notified_punch :: "db \<Rightarrow> storedPunch \<Rightarrow> bool" where
  \<comment> \<open>the \<open>WHERE\<close> clause of \<open>notifyPunchesSQL\<close>\<close>
  "notified_punch d p =
     (case get_student_status d (fst p) (on_date (snd p)) of
        (st, first_check, last_check) \<Rightarrow>
          (first_check = Some (time12 (snd p)) \<or> last_check = Some (time12 (snd p))) \<and>
          \<not> list_ex (\<lambda>a. l_student a = fst p \<and> l_time a < snd p \<and> on_date (l_time a) = on_date (snd p) \<and>
                         minute_start (l_time a) = minute_start (snd p)) (attendance_logs d) \<and>
          school_day d (on_date (snd p)))"

record notice =
  nt_time :: stamp
  nt_name :: str
  nt_tokens :: "str option"
  nt_parent :: "int option"
  nt_out :: bool

definition notice_for :: "db \<Rightarrow> storedPunch \<Rightarrow> notice option" where
  "notice_for d p =
     (case find_row (\<lambda>s. s_id s = fst p) (students d) of
        None \<Rightarrow> None
      | Some s \<Rightarrow>
          if notified_punch d p
          then Some \<lparr>nt_time = snd p, nt_name = s_name s, nt_tokens = parent_device_tokens d (s_parent s),
                     nt_parent = s_parent s,
                     nt_out = (snd (snd (get_student_status d (fst p) (on_date (snd p)))) = Some (time12 (snd p)))\<rparr>
          else None)"

definition notifyPunchesSQL :: "storedPunch list \<Rightarrow> db \<Rightarrow> notice list" where
  "notifyPunchesSQL ps d = List.map_filter (notice_for d) ps"

definition sendPunchNotification :: "fcm_client \<Rightarrow> notice \<Rightarrow> ('e, unit) tx" where
  "sendPunchNotification client n =
     (case PunchNotificationText (nt_name n) (nt_time n) (nt_out n) of
        (title, body) \<Rightarrow>
          bindE (case nt_parent n of None \<Rightarrow> ret () | Some pid \<Rightarrow> SaveNotificationHistory pid title body)
            (\<lambda>_. SendToDevices client (DeviceTokens (nt_tokens n)) title body))"

fun send_notices :: "fcm_client \<Rightarrow> notice list \<Rightarrow> ('e, unit) tx" where
  "send_notices client [] = ret ()"
| "send_notices client (n # ns) = bindE (sendPunchNotification client n) (\<lambda>_. send_notices client ns)"

definition notifyPunches :: "fcm_client \<Rightarrow> storedPunch list \<Rightarrow> ('e, unit) tx" where
  "notifyPunches client punches =
     (if punches = [] then ret ()
      else catchE (bindE (query (notifyPunchesSQL punches)) (send_notices client)) (\<lambda>_ :: err. ret ()))"

section \<open>The endpoints\<close>

datatype adms = ADMS_OK | ADMS_Retry

datatype adms_body = Read_Body str | Body_Too_Large | Read_Failed

definition settle :: "('a, 'a) tx \<Rightarrow> world \<Rightarrow> 'a \<times> world" where
  \<comment> \<open>an early return and the last line give the same kind of answer\<close>
  "settle m w = (case m w of (Inl r, w') \<Rightarrow> (r, w') | (Inr r, w') \<Rightarrow> (r, w'))"

definition find_device :: "str \<Rightarrow> db \<Rightarrow> bool option" where
  "find_device sn d = map_option d_active (find_row (\<lambda>v. d_sn v = sn) (devices d))"

definition touch_device :: "str \<Rightarrow> ('e, unit) tx" where
  \<comment> \<open>the background update of \<open>last_sync\<close>\<close>
  "touch_device sn = quietly (bindE get_clock (\<lambda>now.
     exec (\<lambda>d. d\<lparr>devices := upd_where (\<lambda>v. d_sn v = sn) (\<lambda>v. v\<lparr>d_last_sync := Some (to_micro now)\<rparr>) (devices d)\<rparr>)))"

definition ADMSHandler :: "fcm_client \<Rightarrow> meth \<Rightarrow> str \<Rightarrow> str \<Rightarrow> adms_body \<Rightarrow> world \<Rightarrow> adms \<times> world" where
  "ADMSHandler client meth deviceSN table body = settle (
     bindE (guard (meth = POST) ADMS_OK) (\<lambda>_.
     bindE (guard (deviceSN \<noteq> []) ADMS_OK) (\<lambda>_.
     bindE (lift_err (\<lambda>e. if isTransientDBError e then ADMS_Retry else ADMS_OK)
       (with_text [deviceSN] (query (find_device deviceSN)))) (\<lambda>device.
     bindE (of_option ADMS_OK device) (\<lambda>isActive.
     bindE (guard isActive ADMS_OK) (\<lambda>_.
     bindE (touch_device deviceSN) (\<lambda>_.
     bindE (guard (table = u ''ATTLOG'') ADMS_OK) (\<lambda>_.
     case body of
       Body_Too_Large \<Rightarrow> ret ADMS_OK
     | Read_Failed \<Rightarrow> ret ADMS_Retry
     | Read_Body rawBody \<Rightarrow>
         let events = parseATTLOG rawBody in
         if events = [] then ret ADMS_OK
         else bindE (lift_err (\<lambda>_. ADMS_Retry) (persistATTLOG deviceSN events)) (\<lambda>res.
              bindE get_clock (\<lambda>now.
              bindE (notifyPunches client (fst (splitPunchesByDay (inserted res) (today now)))) (\<lambda>_.
              ret ADMS_OK)))))))))))"

definition ADMSCdataHandler :: adms where
  "ADMSCdataHandler = ADMS_OK"

definition ADMSGetRequestHandler :: adms where
  "ADMSGetRequestHandler = ADMS_OK"

record HardwarePushPayload =
  hp_device_sn :: str
  hp_rfid_tag :: str
  hp_push_time :: str

definition HardwareAttendancePushHandler ::
    "meth \<Rightarrow> str option \<Rightarrow> HardwarePushPayload body \<Rightarrow> (refusal, str) tx" where
  "HardwareAttendancePushHandler meth authenticated b =
     bindE (guard (meth = POST) method_not_allowed) (\<lambda>_.
     bindE (of_option (Refuse 500 (u ''Internal server error'')) authenticated) (\<lambda>deviceSN.
     bindE (guard (deviceSN \<noteq> []) (Refuse 500 (u ''Internal server error''))) (\<lambda>_.
     bindE (of_sum (decodeJSONBody b (u ''Invalid payload''))) (\<lambda>req.
     let claimed = TrimSpace (hp_device_sn req); tag = TrimSpace (hp_rfid_tag req) in
     bindE (guard (claimed \<noteq> []) (bad_request ''device_sn is required'')) (\<lambda>_.
     bindE (guard (claimed = deviceSN) (Refuse 403 (u ''device_sn does not match the authenticated device''))) (\<lambda>_.
     bindE (guard (tag \<noteq> []) (bad_request ''rfid_tag is required'')) (\<lambda>_.
     bindE (of_option (bad_request ''push_time must be formatted as YYYY-MM-DD HH:MM:SS'')
       (parse_stamp (TrimSpace (hp_push_time req)))) (\<lambda>pushTime.
     bindE (lift_err (\<lambda>e. if isTransientDBError e
                 then Refuse 503 (u ''Service temporarily unavailable, retry later'')
                 else internal_error ''Database error'' e)
       (with_text [tag] (bindE get_clock (\<lambda>now.
        insert_ids Attendance_Logs (\<lambda>i d.
          case find_row (\<lambda>s. s_tag s = tag) (students d) of
            None \<Rightarrow> (i, Inr (0 :: int, d))
          | Some s \<Rightarrow>
              (case insert_punch_row deviceSN now i (s_id s, pushTime) (attendance_logs d) of
                 None \<Rightarrow> (i + 1, Inr (0, d))
               | Some logs \<Rightarrow>
                   (i + 1, if \<not> list_ex (\<lambda>v. d_sn v = deviceSN) (devices d)
                           then Inl (foreign_key_violation ''attendance_logs_device_sn_fkey'')
                           else Inr (1, d\<lparr>attendance_logs := logs\<rparr>)))))))) (\<lambda>rowsAffected.
     ret (if rowsAffected = 0 then u ''Ignored or Duplicate'' else u ''Punched successfully''))))))))))"

section \<open>What a batch stores\<close>

abbreviation punch_key :: "punch \<Rightarrow> storedPunch" where
  "punch_key l \<equiv> (l_student l, l_time l)"

definition norm :: "storedPunch \<Rightarrow> storedPunch" where
  \<comment> \<open>the punch as the column keeps it\<close>
  "norm p = (fst p, to_micro (snd p))"

text \<open>
  \<open>batch_stored old ps ins rej out\<close>: from the rows old, storing the punches ps appended rows whose
  keys are ins, in that order, left rej of them out as rejected, and led to the rows out.
\<close>

definition batch_stored ::
    "punch list \<Rightarrow> storedPunch list \<Rightarrow> storedPunch list \<Rightarrow> int \<Rightarrow> punch list \<Rightarrow> bool" where
  "batch_stored old ps ins rej out \<longleftrightarrow>
     (\<exists>new. out = old @ new \<and> map punch_key new = ins) \<and> set ins \<subseteq> norm ` set ps \<and> distinct ins \<and>
     set ins \<inter> punch_key ` set old = {} \<and> 0 \<le> rej \<and> int (length ins) + rej \<le> int (length ps) \<and>
     (rej = 0 \<longrightarrow> norm ` set ps \<subseteq> punch_key ` set out)"

lemma set_first_seen: "set seen \<union> set (first_seen seen ps) = set seen \<union> set ps"
  by (induction ps arbitrary: seen) (auto, (metis Un_iff insert_iff list.simps(15))+)

lemma batch_stored_Nil: "batch_stored old [] [] 0 old"
  by (simp add: batch_stored_def)

lemma batch_stored_unique:
  assumes "batch_stored old ps ins rej out" "unique_key punch_key old"
  shows "unique_key punch_key out"
proof -
  obtain new where n: "out = old @ new" "map punch_key new = ins"
    using assms(1) by (auto simp: batch_stored_def)
  then have k: "punch_key ` set new = set ins" by (metis list.set_map)
  have d: "distinct ins" "set ins \<inter> punch_key ` set old = {}"
    using assms(1) by (auto simp: batch_stored_def)
  show ?thesis
    using assms(2) d(1) unfolding unique_key_def n(1) map_append distinct_append n(2) set_map
    using d(2) by (simp add: Int_commute)
qed

lemma batch_stored_append:
  assumes a: "batch_stored old ps ins rej mid" and b: "batch_stored mid qs ins' rej' out"
  shows "batch_stored old (ps @ qs) (ins @ ins') (rej + rej') out"
proof -
  obtain new where n: "mid = old @ new" "map punch_key new = ins" using a by (auto simp: batch_stored_def)
  obtain new' where n': "out = mid @ new'" "map punch_key new' = ins'" using b by (auto simp: batch_stored_def)
  have k: "punch_key ` set new = set ins" using n(2) by (metis list.set_map)
  have d: "set ins' \<inter> (punch_key ` set old \<union> set ins) = {}"
    using b n(1) k by (simp add: batch_stored_def image_Un)
  have all: "rej + rej' = 0 \<longrightarrow> norm ` set (ps @ qs) \<subseteq> punch_key ` set out"
  proof
    assume "rej + rej' = 0"
    moreover have "0 \<le> rej" "0 \<le> rej'" using a b by (auto simp: batch_stored_def)
    ultimately have "rej = 0" "rej' = 0" by auto
    then have "norm ` set ps \<subseteq> punch_key ` set mid" "norm ` set qs \<subseteq> punch_key ` set out"
      using a b by (auto simp: batch_stored_def)
    then show "norm ` set (ps @ qs) \<subseteq> punch_key ` set out" using n'(1) by auto
  qed
  have rows: "\<exists>new. out = old @ new \<and> map punch_key new = ins @ ins'"
    using n n' by (intro exI [of _ "new @ new'"]) simp
  have ab: "set ins \<subseteq> norm ` set ps" "set ins' \<subseteq> norm ` set qs" "distinct ins" "distinct ins'"
    "set ins \<inter> punch_key ` set old = {}" "0 \<le> rej" "0 \<le> rej'"
    "int (length ins) + rej \<le> int (length ps)" "int (length ins') + rej' \<le> int (length qs)"
    using a b by (auto simp: batch_stored_def)
  show ?thesis unfolding batch_stored_def
  proof (intro conjI)
    show "set (ins @ ins') \<subseteq> norm ` set (ps @ qs)" using ab(1,2) by auto
    show "distinct (ins @ ins')" using ab(3,4) d by auto
    show "set (ins @ ins') \<inter> punch_key ` set old = {}" using ab(5) d by auto
    show "int (length (ins @ ins')) + (rej + rej') \<le> int (length (ps @ qs))" using ab(8,9) by simp
  qed (use rows all ab in auto)
qed

lemma insert_punch_row_cases:
  "insert_punch_row sn now i p logs = None \<and> norm p \<in> punch_key ` set logs \<or>
   (\<exists>l. insert_punch_row sn now i p logs = Some (logs @ [l]) \<and> punch_key l = norm p \<and>
      norm p \<notin> punch_key ` set logs)"
  by (auto simp: insert_punch_row_def norm_def)

lemma batch_stored_one:
  assumes "punch_key l = norm p" "norm p \<notin> punch_key ` set logs"
  shows "batch_stored logs [p] [norm p] 0 (logs @ [l])"
  using assms by (auto simp: batch_stored_def)

lemma batch_stored_dup: "norm p \<in> punch_key ` set logs \<Longrightarrow> batch_stored logs [p] [] 0 logs"
  by (auto simp: batch_stored_def)

lemma insert_punch_rows_stored:
  "insert_punch_rows sn now i ps logs = (n, out, stored) \<Longrightarrow> batch_stored logs ps stored 0 out"
proof (induction ps arbitrary: i logs n out stored)
  case Nil
  then show ?case by (simp add: batch_stored_Nil)
next
  case (Cons p ps)
  from insert_punch_row_cases [of sn now i p logs] show ?case
  proof (elim disjE conjE exE)
    assume "insert_punch_row sn now i p logs = None" and dup: "norm p \<in> punch_key ` set logs"
    with Cons.prems have "insert_punch_rows sn now (i + 1) ps logs = (n, out, stored)" by simp
    from batch_stored_append [OF batch_stored_dup [OF dup] Cons.IH [OF this]] show ?thesis by simp
  next
    fix l
    assume s: "insert_punch_row sn now i p logs = Some (logs @ [l])" and l: "punch_key l = norm p"
      "norm p \<notin> punch_key ` set logs"
    obtain n' out' st' where r: "insert_punch_rows sn now (i + 1) ps (logs @ [l]) = (n', out', st')"
      by (cases "insert_punch_rows sn now (i + 1) ps (logs @ [l])") auto
    with Cons.prems s have "out = out'" "stored = norm p # st'" by (auto simp: norm_def)
    with batch_stored_append [OF batch_stored_one [OF l] Cons.IH [OF r]] show ?thesis by simp
  qed
qed

lemma insert_punches_ok:
  assumes "insert_punches sn ps w = (Inr ins, w')"
  obtains out where "batch_stored (attendance_logs (db w)) ps ins 0 out"
    "db w' = (db w)\<lparr>attendance_logs := out\<rparr>" "clock w' = clock w" "outbox w' = outbox w"
proof -
  from assms obtain w1 where w1: "w1 = w" and run: "insert_ids Attendance_Logs (\<lambda>i d.
       case insert_punch_rows sn (clock w) i ps (attendance_logs d) of
         (n, out, stored) \<Rightarrow>
           (n, if stored \<noteq> [] \<and> \<not> list_ex (\<lambda>v. d_sn v = sn) (devices d)
               then Inl (foreign_key_violation ''attendance_logs_device_sn_fkey'')
               else Inr (stored, d\<lparr>attendance_logs := out\<rparr>))) w = (Inr ins, w')"
    by (auto simp: insert_punches_def ok_iffs)
  from run show thesis
  proof (rule insert_ids_ok)
    fix n d
    assume f: "(case insert_punch_rows sn (clock w) (serial w Attendance_Logs) ps (attendance_logs (db w)) of
         (n, out, stored) \<Rightarrow>
           (n, if stored \<noteq> [] \<and> \<not> list_ex (\<lambda>v. d_sn v = sn) (devices (db w))
               then Inl (foreign_key_violation ''attendance_logs_device_sn_fkey'')
               else Inr (stored, (db w)\<lparr>attendance_logs := out\<rparr>))) = (n, Inr (ins, d))"
      and rest: "db w' = d" "clock w' = clock w" "outbox w' = outbox w"
    obtain n' out st where i: "insert_punch_rows sn (clock w) (serial w Attendance_Logs) ps (attendance_logs (db w)) =
        (n', out, st)" by (cases "insert_punch_rows sn (clock w) (serial w Attendance_Logs) ps (attendance_logs (db w))") auto
    with f have "st = ins" "d = (db w)\<lparr>attendance_logs := out\<rparr>" by (auto split: if_splits)
    with insert_punch_rows_stored [OF i] rest show thesis by (intro that [of out]) auto
  qed
qed

lemma insert_punches_err: "insert_punches sn ps w = (Inl e, w') \<Longrightarrow> db w' = db w"
  by (auto simp: insert_punches_def bindE_err get_clock_run dest: insert_ids_err)

lemma calm_insert_punches: "calm (insert_punches sn ps)"
  unfolding insert_punches_def by (intro calming)

definition stored_run :: "storedPunch list \<Rightarrow> world \<Rightarrow> storedPunch list \<Rightarrow> int \<Rightarrow> world \<Rightarrow> bool" where
  "stored_run ps w ins rej w' \<longleftrightarrow>
     (\<exists>out. batch_stored (attendance_logs (db w)) ps ins rej out \<and> db w' = (db w)\<lparr>attendance_logs := out\<rparr>) \<and>
     clock w' = clock w \<and> outbox w' = outbox w"

lemma insertPunchesBulk_ok:
  assumes "insertPunchesBulk sn batch w = (Inr ins, w')"
  shows "stored_run batch w ins 0 w'"
proof (cases "batch = []")
  case True
  have "\<exists>out. batch_stored (attendance_logs (db w)) [] [] 0 out \<and> db w = (db w)\<lparr>attendance_logs := out\<rparr>"
    by (rule exI [of _ "attendance_logs (db w)"]) (simp add: batch_stored_Nil)
  with True assms show ?thesis by (simp add: insertPunchesBulk_def ok_iffs stored_run_def)
next
  case False
  with assms obtain saved w1 where s: "savepoint w = (Inr saved, w1)"
    and c: "catchE (insert_punches sn batch) (\<lambda>e.
             if \<not> isTransientDBError e then bindE (rollback_savepoint saved) (\<lambda>_. fail e) else fail e) w1 = (Inr ins, w')"
    by (auto simp: insertPunchesBulk_def bindE_ok)
  from c have "insert_punches sn batch w1 = (Inr ins, w')"
    by (auto simp: catchE_ok ok_iffs split: if_splits)
  then show ?thesis using savepoint_ok [OF s] by (elim insert_punches_ok) (auto simp: stored_run_def)
qed

lemma insertPunchesBulk_err:
  assumes "insertPunchesBulk sn batch w = (Inl e, w')"
  shows "db w' = db w \<or> isTransientDBError e"
proof (cases "batch = []")
  case True
  with assms show ?thesis by (simp add: insertPunchesBulk_def ret_def)
next
  case False
  with assms consider "savepoint w = (Inl e, w')"
    | saved w1 e1 w2 where "savepoint w = (Inr saved, w1)" "insert_punches sn batch w1 = (Inl e1, w2)"
      "(if \<not> isTransientDBError e1 then bindE (rollback_savepoint saved) (\<lambda>_. fail e1) else fail e1) w2 =
       ((Inl e, w') :: (err + storedPunch list) \<times> world)"
    by (auto simp: insertPunchesBulk_def bindE_err catchE_err)
  then show ?thesis
  proof cases
    case 1
    then show ?thesis by (simp add: savepoint_err)
  next
    case 2
    have d: "db w1 = db w" "db w2 = db w1" using savepoint_ok [OF 2(1)] insert_punches_err [OF 2(2)] by auto
    show ?thesis
    proof (cases "isTransientDBError e1")
      case True
      with 2(3) show ?thesis by (simp add: fail_def)
    next
      case False
      with 2(3) consider "rollback_savepoint saved w2 = (Inl e, w')"
        | x where "rollback_savepoint saved w2 = (Inr x, w')"
        by (auto simp: bindE_err fail_def)
      then show ?thesis
      proof cases
        case 1
        then have "db w' = db w2" by (auto simp: rollback_savepoint_def put_db_def bindE_err dest: failed_db)
        with d show ?thesis by simp
      next
        case (2 x)
        with savepoint_ok \<open>savepoint w = (Inr saved, w1)\<close> rollback_savepoint_ok [OF 2] show ?thesis by blast
      qed
    qed
  qed
qed

lemma insertPunchesEach_ok:
  "insertPunchesEach sn ps w = (Inr (ins, rej), w') \<Longrightarrow> stored_run ps w ins rej w'"
proof (induction ps arbitrary: w ins rej w')
  case Nil
  have "\<exists>out. batch_stored (attendance_logs (db w)) [] [] 0 out \<and> db w = (db w)\<lparr>attendance_logs := out\<rparr>"
    by (rule exI [of _ "attendance_logs (db w)"]) (simp add: batch_stored_Nil)
  with Nil show ?case by (simp add: ok_iffs stored_run_def)
next
  case (Cons p ps)
  from Cons.prems obtain saved w1 r w2 where s: "savepoint w = (Inr saved, w1)"
    and r: "insert_punches sn [p] w1 = (r, w2)"
    and k: "(case r of
       Inr stored \<Rightarrow>
         bindE control (\<lambda>_.
         bindE (insertPunchesEach sn ps) (\<lambda>(more, rejected). ret (stored @ more, rejected)))
     | Inl e \<Rightarrow>
         if isTransientDBError e then fail e
         else bindE (rollback_savepoint saved) (\<lambda>_.
              bindE (insertPunchesEach sn ps) (\<lambda>(more, rejected). ret (more, rejected + 1)))) w2 = (Inr (ins, rej), w')"
    by (auto simp: bindE_ok attempt_ok)
  have w1: "saved = db w" "db w1 = db w" "clock w1 = clock w" "outbox w1 = outbox w"
    using savepoint_ok [OF s] by auto
  show ?case
  proof (cases r)
    case (Inr stored)
    with k obtain u w3 more where w3: "control w2 = (Inr u, w3)"
      and m: "insertPunchesEach sn ps w3 = (Inr (more, rej), w')" and ins: "ins = stored @ more"
      by (auto simp: ok_iffs)
    obtain out where a: "batch_stored (attendance_logs (db w)) [p] stored 0 out"
      "db w2 = (db w)\<lparr>attendance_logs := out\<rparr>" "clock w2 = clock w" "outbox w2 = outbox w"
      using r Inr w1 by (auto elim: insert_punches_ok)
    obtain out' where b: "batch_stored (attendance_logs (db w3)) ps more rej out'"
      "db w' = (db w3)\<lparr>attendance_logs := out'\<rparr>" "clock w' = clock w3" "outbox w' = outbox w3"
      using Cons.IH [OF m] by (auto simp: stored_run_def)
    have "batch_stored out ps more rej out'" using b(1) a(2) control_ok(1) [OF w3] by simp
    from batch_stored_append [OF a(1) this]
    have "batch_stored (attendance_logs (db w)) (p # ps) ins rej out'" by (simp add: ins)
    then show ?thesis
      using a b control_ok [OF w3] unfolding stored_run_def by (intro conjI exI [of _ out']) simp_all
  next
    case (Inl e)
    with k obtain u w3 rej0 where w3: "rollback_savepoint saved w2 = (Inr u, w3)"
      and m: "insertPunchesEach sn ps w3 = (Inr (ins, rej0), w')" and rej: "rej = rej0 + 1"
      by (auto simp: ok_iffs split: if_splits)
    have w3d: "db w3 = db w" "clock w3 = clock w2" "outbox w3 = outbox w2"
      using rollback_savepoint_ok [OF w3] w1 by auto
    have w2: "clock w2 = clock w1" "outbox w2 = outbox w1" using calmD [OF calm_insert_punches r] by auto
    obtain out where b: "batch_stored (attendance_logs (db w)) ps ins rej0 out"
      "db w' = (db w)\<lparr>attendance_logs := out\<rparr>" "clock w' = clock w" "outbox w' = outbox w"
      using Cons.IH [OF m] w3d w1 w2 by (auto simp: stored_run_def)
    have one: "batch_stored old [p] [] 1 old" for old by (simp add: batch_stored_def)
    from batch_stored_append [OF one b(1)]
    have "batch_stored (attendance_logs (db w)) (p # ps) ins rej out" by (simp add: rej add.commute)
    then show ?thesis using b unfolding stored_run_def by (intro conjI exI [of _ out]) simp_all
  qed
qed

lemma calm_insertPunchesBulk: "calm (insertPunchesBulk sn batch)"
  unfolding insertPunchesBulk_def by (intro calming calm_insert_punches)

lemma calm_insertPunchesEach: "calm (insertPunchesEach sn batch)"
  by (induction batch) (auto intro!: calming calm_insert_punches split: sum.split)

lemma calm_storeTeacherPunches: "calm (storeTeacherPunches sn events pins)"
  unfolding storeTeacherPunches_def Let_def by (intro calming)

abbreviation teacher_key :: "teacher_punch \<Rightarrow> storedPunch" where
  "teacher_key h \<equiv> (h_teacher h, h_time h)"

lemma insert_teacher_rows_unique:
  "insert_teacher_rows sn ps logs = (out, n) \<Longrightarrow> unique_key teacher_key logs \<Longrightarrow> unique_key teacher_key out"
proof (induction ps arbitrary: logs out n)
  case (Cons p ps)
  let ?h = "\<lparr>h_teacher = fst p, h_device = sn, h_time = to_micro (snd p)\<rparr>"
  show ?case
  proof (cases "insert_unique teacher_key ?h logs")
    case None
    with Cons show ?thesis by (simp del: insert_unique_code)
  next
    case (Some logs')
    then have "unique_key teacher_key logs'" using Cons.prems(2) by (auto simp: unique_key_def)
    with Cons Some show ?thesis by (auto simp del: insert_unique_code split: prod.splits)
  qed
qed simp

definition teacher_run :: "world \<Rightarrow> world \<Rightarrow> bool" where
  "teacher_run w w' \<longleftrightarrow>
     (\<exists>out. db w' = (db w)\<lparr>teacher_attendance_logs := out\<rparr> \<and>
        (unique_key teacher_key (teacher_attendance_logs (db w)) \<longrightarrow> unique_key teacher_key out))"

lemma teacher_run_refl: "db w' = db w \<Longrightarrow> teacher_run w w'"
  unfolding teacher_run_def by (rule exI [of _ "teacher_attendance_logs (db w)"]) simp

lemma storeTeacherPunches_ok:
  assumes "storeTeacherPunches sn events pins w = (Inr res, w')"
  shows "teacher_run w w'"
proof -
  let ?q = "query (\<lambda>d. tag_ids e_tag e_id pins (teachers d))"
  let ?punches = "\<lambda>ids. List.map_filter (\<lambda>ev. map_option (\<lambda>i. (i, CheckTime ev)) (ids (PIN ev))) events"
  from assms obtain ids w1 where q: "with_text pins ?q w = (Inr ids, w1)"
    and k: "(let unknown = filter (\<lambda>p. ids p = None) pins; punches = ?punches ids in
     if punches = [] then ret (0, 0, unknown)
     else bindE savepoint (\<lambda>saved.
          bindE (attempt (stmt (\<lambda>d.
            case insert_teacher_rows sn punches (teacher_attendance_logs d) of
              (out, n) \<Rightarrow> if n \<noteq> 0 \<and> \<not> list_ex (\<lambda>v. d_sn v = sn) (devices d)
                then Inl (foreign_key_violation ''teacher_attendance_logs_device_sn_fkey'')
                else Inr (n, d\<lparr>teacher_attendance_logs := out\<rparr>)))) (\<lambda>r.
          case r of
            Inr n \<Rightarrow> ret (n, int (length punches) - n, unknown)
          | Inl e \<Rightarrow>
              if isTransientDBError e then fail e
              else bindE (rollback_savepoint saved) (\<lambda>_. ret (0, 0, unknown))))) w1 = (Inr res, w')"
    unfolding storeTeacherPunches_def by (auto elim: bindE_okE)
  have w1: "db w1 = db w" using query_ok(2) [OF with_text_ok [OF q]] .
  show ?thesis
  proof (cases "?punches ids = []")
    case True
    with k w1 show ?thesis by (simp add: Let_def ok_iffs teacher_run_refl)
  next
    case False
    let ?f = "\<lambda>d. case insert_teacher_rows sn (?punches ids) (teacher_attendance_logs d) of
              (out, n) \<Rightarrow> if n \<noteq> 0 \<and> \<not> list_ex (\<lambda>v. d_sn v = sn) (devices d)
                then Inl (foreign_key_violation ''teacher_attendance_logs_device_sn_fkey'')
                else Inr (n, d\<lparr>teacher_attendance_logs := out\<rparr>)"
    from k False obtain saved w2 r w3 where s: "savepoint w1 = (Inr saved, w2)"
      and r: "stmt ?f w2 = (r, w3)"
      and t: "(case r of
            Inr n \<Rightarrow> ret (n, int (length (?punches ids)) - n, filter (\<lambda>p. ids p = None) pins)
          | Inl e \<Rightarrow>
              if isTransientDBError e then fail e
              else bindE (rollback_savepoint saved) (\<lambda>_. ret (0, 0, filter (\<lambda>p. ids p = None) pins))) w3 = (Inr res, w')"
      by (auto simp: Let_def bindE_ok attempt_ok)
    have saved: "saved = db w" "db w2 = db w" using savepoint_ok [OF s] w1 by auto
    show ?thesis
    proof (cases r)
      case (Inl e)
      with t obtain x where "rollback_savepoint saved w3 = (Inr x, w')" by (auto simp: ok_iffs split: if_splits)
      then show ?thesis using rollback_savepoint_ok saved by (auto intro: teacher_run_refl)
    next
      case (Inr n)
      with r have "stmt ?f w2 = (Inr n, w3)" by simp
      then obtain d where d: "?f (db w2) = Inr (n, d)" "db w3 = d" by (rule stmt_ok)
      obtain out m where i: "insert_teacher_rows sn (?punches ids) (teacher_attendance_logs (db w2)) = (out, m)"
        by (cases "insert_teacher_rows sn (?punches ids) (teacher_attendance_logs (db w2))") auto
      with d have "db w3 = (db w)\<lparr>teacher_attendance_logs := out\<rparr>" using saved by (auto split: if_splits)
      moreover have "w' = w3" using t Inr by (simp add: ok_iffs)
      ultimately show ?thesis using insert_teacher_rows_unique [OF i] saved by (auto simp: teacher_run_def)
    qed
  qed
qed

definition batch_of :: "db \<Rightarrow> AttendanceEvent list \<Rightarrow> storedPunch list" where
  \<comment> \<open>the records whose PIN is a student's tag\<close>
  "batch_of d events =
     List.map_filter (\<lambda>ev. map_option (\<lambda>i. (i, CheckTime ev))
       (tag_ids (\<lambda>s. Some (s_tag s)) s_id (first_seen [] (map PIN events)) (students d) (PIN ev))) events"

lemma store_batch_ok:
  assumes "store_batch sn events w = (Inr res, w')"
  shows "\<exists>out touts.
    batch_stored (attendance_logs (db w)) (batch_of (db w) events) (inserted res) (rejected res) out \<and>
    db w' = (db w)\<lparr>attendance_logs := out, teacher_attendance_logs := touts\<rparr> \<and>
    (unique_key teacher_key (teacher_attendance_logs (db w)) \<longrightarrow> unique_key teacher_key touts) \<and>
    duplicates res = int (length (batch_of (db w) events)) - int (length (inserted res)) - rejected res \<and>
    clock w' = clock w \<and> outbox w' = outbox w"
proof -
  define pins where "pins = first_seen [] (map PIN events)"
  let ?q = "query (\<lambda>d. tag_ids (\<lambda>s. Some (s_tag s)) s_id pins (students d))"
  let ?batch = "\<lambda>ids. List.map_filter (\<lambda>ev. map_option (\<lambda>i. (i, CheckTime ev)) (ids (PIN ev))) events"
  let ?unknown = "\<lambda>ids :: str \<rightharpoonup> int. filter (\<lambda>p. ids p = None) pins"
  from assms obtain ids w1 ins rej w2 tin tdup unk where
      q: "with_text pins ?q w = (Inr ids, w1)"
    and b: "catchE (bindE (insertPunchesBulk sn (?batch ids)) (\<lambda>ins. ret (ins, 0)))
               (\<lambda>e. if \<not> isTransientDBError e then insertPunchesEach sn (?batch ids) else fail e) w1 =
             (Inr (ins, rej), w2)"
    and t: "(if ?unknown ids \<noteq> [] then storeTeacherPunches sn events (?unknown ids) else ret (0, 0, ?unknown ids)) w2 =
             (Inr (tin, tdup, unk), w')"
    and res: "res = \<lparr>inserted = ins, duplicates = int (length (?batch ids)) - int (length ins) - rej,
           teacherInserted = tin, teacherDuplicates = tdup, unknownPINs = unk, rejected = rej\<rparr>"
    unfolding store_batch_def Let_def pins_def by (auto simp: bindE_ok ok_iffs)
  have w1: "db w1 = db w" "clock w1 = clock w" "outbox w1 = outbox w"
    and ids: "ids = tag_ids (\<lambda>s. Some (s_tag s)) s_id pins (students (db w))"
    using query_ok [OF with_text_ok [OF q]] by auto
  have batch: "?batch ids = batch_of (db w) events" by (simp add: batch_of_def ids pins_def)
  have "stored_run (?batch ids) w1 ins rej w2"
  proof -
    from b consider "insertPunchesBulk sn (?batch ids) w1 = (Inr ins, w2)" "rej = 0"
      | e w3 where "insertPunchesBulk sn (?batch ids) w1 = (Inl e, w3)" "\<not> isTransientDBError e"
          "insertPunchesEach sn (?batch ids) w3 = (Inr (ins, rej), w2)"
      by (auto simp: catchE_ok bindE_ok bindE_err ok_iffs ret_def split: if_splits)
    then show ?thesis
    proof cases
      case 1
      then show ?thesis using insertPunchesBulk_ok by simp
    next
      case 2
      have "db w3 = db w1" using insertPunchesBulk_err [OF 2(1)] 2(2) by simp
      moreover have "clock w3 = clock w1" "outbox w3 = outbox w1"
        using calmD [OF calm_insertPunchesBulk 2(1)] by auto
      ultimately show ?thesis using insertPunchesEach_ok [OF 2(3)] by (simp add: stored_run_def)
    qed
  qed
  then obtain out where out: "batch_stored (attendance_logs (db w)) (batch_of (db w) events) ins rej out"
    "db w2 = (db w)\<lparr>attendance_logs := out\<rparr>" "clock w2 = clock w" "outbox w2 = outbox w"
    using w1 batch by (auto simp: stored_run_def)
  have tr: "teacher_run w2 w'" "clock w' = clock w2" "outbox w' = outbox w2"
    using t storeTeacherPunches_ok calmD [OF calm_storeTeacherPunches]
    by (auto simp: ok_iffs teacher_run_refl split: if_splits)
  then obtain touts where "db w' = (db w2)\<lparr>teacher_attendance_logs := touts\<rparr>"
    "unique_key teacher_key (teacher_attendance_logs (db w2)) \<longrightarrow> unique_key teacher_key touts"
    by (auto simp: teacher_run_def)
  then show ?thesis using out tr res batch by (intro exI [of _ out] exI [of _ touts]) simp
qed

text \<open>The transaction of a batch is a guarded write: it keeps the uniqueness of both kinds of punch.\<close>

definition punches_ok :: "db \<Rightarrow> bool" where
  "punches_ok d \<longleftrightarrow> unique_key punch_key (attendance_logs d) \<and>
     unique_key teacher_key (teacher_attendance_logs d)"

lemma keeps_ok_store_batch: "keeps_ok punches_ok (store_batch sn events)"
proof (rule keeps_okI)
  fix w x w'
  assume p: "punches_ok (db w)" and run: "store_batch sn events w = (Inr x, w')"
  from store_batch_ok [OF run] p show "punches_ok (db w')"
    by (auto simp: punches_ok_def dest: batch_stored_unique)
qed

interpretation batch_write: guarded_write punches_ok "store_batch sn events" "\<lambda>e. e"
  by unfold_locales (rule keeps_ok_store_batch)

lemma persist_ok:
  assumes "persistATTLOG sn events w = (Inr res, w')"
  shows "\<exists>out touts.
    batch_stored (attendance_logs (db w)) (batch_of (db w) events) (inserted res) (rejected res) out \<and>
    db w' = (db w)\<lparr>attendance_logs := out, teacher_attendance_logs := touts\<rparr> \<and>
    duplicates res = int (length (batch_of (db w) events)) - int (length (inserted res)) - rejected res \<and>
    clock w' = clock w \<and> outbox w' = outbox w"
proof -
  from assms obtain w1 w2 where s: "store_batch sn events w1 = (Inr res, w2)" "db w1 = db w" "clock w1 = clock w"
    "outbox w1 = outbox w" "db w' = db w2" "outbox w' = outbox w2" "clock w' = clock w2"
    unfolding persistATTLOG_def by (rule in_tx_ok)
  show ?thesis using store_batch_ok [OF s(1)] s(2-) by auto
qed

lemma keeps_punches_persist: "keeps punches_ok (persistATTLOG sn events)"
  unfolding persistATTLOG_def by (rule batch_write.write_keeps)

lemma blind_punches: "blind_to_notices punches_ok"
  by (simp add: blind_to_notices_def punches_ok_def)

lemma keeps_send_notices: "blind_to_notices P \<Longrightarrow> keeps P (send_notices client ns)"
  by (induction ns)
    (auto intro!: keeping keeps_SaveNotificationHistory keeps_SendToDevices
      simp: sendPunchNotification_def split: prod.split)

lemma keeps_notifyPunches: "blind_to_notices P \<Longrightarrow> keeps P (notifyPunches client ps)"
  unfolding notifyPunches_def by (intro keeping keeps_send_notices)

lemma keeps_punches_touch: "keeps punches_ok (touch_device sn)"
  unfolding touch_device_def by (intro keeping) (simp add: punches_ok_def)

lemma settle_snd: "snd (settle m w) = snd (m w)"
  by (simp add: settle_def split: prod.split sum.split)

section \<open>Transient failures\<close>

text \<open>\<open>passing w\<close>: every failure to come is one the code calls transient.\<close>

definition passing :: "world \<Rightarrow> bool" where
  "passing w \<longleftrightarrow> list_all (\<lambda>f. case f of None \<Rightarrow> True | Some e \<Rightarrow> isTransientDBError e) (faults w)"

definition passes :: "('e, 'a) tx \<Rightarrow> bool" where
  "passes m \<longleftrightarrow> (\<forall>w. passing w \<longrightarrow> passing (snd (m w)))"

named_theorems passing_rules "runs that use up faults in order"

lemma passesD: "passes m \<Longrightarrow> passing w \<Longrightarrow> m w = (r, w') \<Longrightarrow> passing w'"
  unfolding passes_def by (metis snd_conv)

lemma passing_next: "passing w \<Longrightarrow> next_fault w = (f, w') \<Longrightarrow> passing w' \<and> (\<forall>e. f = Some e \<longrightarrow> isTransientDBError e)"
  by (auto simp: passing_def next_fault_def split: list.splits)

lemma next_fault_db: "next_fault w = (f, w') \<Longrightarrow> db w' = db w"
  using next_fault_fields(1) [of w] by simp

lemma passing_world [simp]:
  "passing (w\<lparr>db := d\<rparr>) = passing w" "passing (w\<lparr>serial := s\<rparr>) = passing w" "passing (w\<lparr>outbox := ob\<rparr>) = passing w"
  by (simp_all add: passing_def)

lemma passes_simple [passing_rules]: "passes (ret x)" "passes (fail e)" "passes get_clock"
  by (simp_all add: passes_def run_simps)

lemma passes_bindE [passing_rules]: "passes m \<Longrightarrow> (\<And>x. passes (f x)) \<Longrightarrow> passes (bindE m f)"
  by (simp add: passes_def bindE_alt split: sum.split)

lemma passes_catchE [passing_rules]: "passes m \<Longrightarrow> (\<And>e. passes (h e)) \<Longrightarrow> passes (catchE m h)"
  by (simp add: passes_def catchE_alt split: sum.split)

lemma passes_stmt [passing_rules]: "passes (stmt f)"
  unfolding passes_def stmt_def
  by (auto split: prod.splits sum.splits option.splits dest: passing_next)

lemma passes_insert_ids [passing_rules]: "passes (insert_ids t f)"
  unfolding passes_def insert_ids_def
  by (auto split: prod.splits sum.splits option.splits dest: passing_next)

lemma passes_statements [passing_rules]: "passes (query q)" "passes (exec h)" "passes control"
  by (simp_all add: query_def exec_def control_def passes_stmt)

lemma insert_punches_transient:
  assumes "passing w" "list_ex (\<lambda>v. d_sn v = sn) (devices (db w))"
    and "insert_punches sn ps w = (Inl e, w')"
  shows "isTransientDBError e"
proof -
  from assms(3) have "insert_ids Attendance_Logs (\<lambda>i d.
       case insert_punch_rows sn (clock w) i ps (attendance_logs d) of
         (n, out, stored) \<Rightarrow>
           (n, if stored \<noteq> [] \<and> \<not> list_ex (\<lambda>v. d_sn v = sn) (devices d)
               then Inl (foreign_key_violation ''attendance_logs_device_sn_fkey'')
               else Inr (stored, d\<lparr>attendance_logs := out\<rparr>))) w = (Inl e, w')"
    by (simp add: insert_punches_def bindE_def get_clock_run)
  then show ?thesis
    using assms(2) passing_next [OF assms(1)]
    by (auto simp: insert_ids_def split: prod.splits option.splits sum.splits if_splits dest!: next_fault_db)
qed

lemma bulk_transient:
  assumes "passing w" "list_ex (\<lambda>v. d_sn v = sn) (devices (db w))"
    and "insertPunchesBulk sn batch w = (Inl e, w')"
  shows "isTransientDBError e"
proof (cases "batch = []")
  case True
  with assms(3) show ?thesis by (simp add: insertPunchesBulk_def ret_def)
next
  case False
  have sp: "passes savepoint"
    unfolding savepoint_def by (intro passing_rules) (simp add: passes_def get_db_def)
  from False assms(3) consider "savepoint w = (Inl e, w')"
    | saved w1 e1 w2 where "savepoint w = (Inr saved, w1)" "insert_punches sn batch w1 = (Inl e1, w2)"
      "(if \<not> isTransientDBError e1 then bindE (rollback_savepoint saved) (\<lambda>_. fail e1) else fail e1) w2 =
       ((Inl e, w') :: (err + storedPunch list) \<times> world)"
    by (auto simp: insertPunchesBulk_def bindE_err catchE_err)
  then show ?thesis
  proof cases
    case 1
    then show ?thesis using passing_next [OF assms(1)]
      by (auto simp: savepoint_def get_db_def bindE_err control_def exec_def stmt_def
          split: prod.splits option.splits)
  next
    case 2
    have "passing w1" using passesD [OF sp assms(1) 2(1)] .
    moreover have "list_ex (\<lambda>v. d_sn v = sn) (devices (db w1))" using savepoint_ok [OF 2(1)] assms(2) by simp
    ultimately have "isTransientDBError e1" using insert_punches_transient 2(2) by blast
    with 2(3) show ?thesis by (simp add: fail_def)
  qed
qed

lemma persist_nothing_rejected:
  assumes "passing w" "list_ex (\<lambda>v. d_sn v = sn) (devices (db w))"
    and "persistATTLOG sn events w = (Inr res, w')"
  shows "rejected res = 0"
proof -
  from assms(3) obtain w1 w2 where c: "control w = (Inr (), w1)" and s: "store_batch sn events w1 = (Inr res, w2)"
    and d: "db w1 = db w"
    unfolding persistATTLOG_def by (rule in_tx_ok)
  have p1: "passing w1" using passesD [OF passes_statements(3) assms(1) c] .
  define pins where "pins = first_seen [] (map PIN events)"
  let ?q = "query (\<lambda>d. tag_ids (\<lambda>s. Some (s_tag s)) s_id pins (students d))"
  let ?batch = "\<lambda>ids. List.map_filter (\<lambda>ev. map_option (\<lambda>i. (i, CheckTime ev)) (ids (PIN ev))) events"
  from s obtain ids w3 ins rej w4 where q: "with_text pins ?q w1 = (Inr ids, w3)"
    and b: "catchE (bindE (insertPunchesBulk sn (?batch ids)) (\<lambda>ins. ret (ins, 0)))
               (\<lambda>e. if \<not> isTransientDBError e then insertPunchesEach sn (?batch ids) else fail e) w3 =
             (Inr (ins, rej), w4)"
    and res: "rejected res = rej"
    unfolding store_batch_def Let_def pins_def by (auto simp: bindE_ok ok_iffs)
  have q': "?q w1 = (Inr ids, w3)" using with_text_ok [OF q] .
  have p3: "passing w3" using passesD [OF passes_statements(1) p1 q'] .
  have "list_ex (\<lambda>v. d_sn v = sn) (devices (db w3))" using query_ok(2) [OF q'] d assms(2) by simp
  with b bulk_transient [OF p3] have "rej = 0"
    by (auto simp: catchE_ok bindE_ok bindE_err ok_iffs ret_def split: if_splits)
  with res show ?thesis by simp
qed

lemma notifyPunches_never_fails: "\<exists>w'. notifyPunches client ps w = (Inr (), w')"
  by (cases "catchE (bindE (query (notifyPunchesSQL ps)) (send_notices client)) (\<lambda>_ :: err. ret ()) w" rule: prod.exhaust)
    (auto simp: notifyPunches_def ret_def catchE_def split: prod.splits sum.splits)

lemma touch_device_never_fails: "\<exists>w'. touch_device sn w = (Inr (), w')"
  unfolding touch_device_def by (rule quietly_never_fails)

lemma touch_device_run:
  assumes "(touch_device sn :: (adms, unit) tx) w = (r, w')"
  shows "attendance_logs (db w') = attendance_logs (db w)"
    "teacher_attendance_logs (db w') = teacher_attendance_logs (db w)"
    "students (db w') = students (db w)" "notifications (db w') = notifications (db w)"
    "map d_sn (devices (db w')) = map d_sn (devices (db w))" "outbox w' = outbox w" "clock w' = clock w"
    "passing w \<Longrightarrow> passing w'"
proof -
  let ?P = "\<lambda>d'. attendance_logs d' = attendance_logs (db w) \<and>
    teacher_attendance_logs d' = teacher_attendance_logs (db w) \<and> students d' = students (db w) \<and>
    notifications d' = notifications (db w) \<and> map d_sn (devices d') = map d_sn (devices (db w))"
  have k: "keeps ?P (touch_device sn :: (adms, unit) tx)"
    unfolding touch_device_def by (intro keeping) (simp add: map_upd_where)
  have c: "calm (touch_device sn :: (adms, unit) tx)"
    unfolding touch_device_def quietly_def by (intro calming)
  have p: "passes (touch_device sn :: (adms, unit) tx)"
    unfolding touch_device_def quietly_def by (intro passing_rules)
  show "attendance_logs (db w') = attendance_logs (db w)"
    "teacher_attendance_logs (db w') = teacher_attendance_logs (db w)"
    "students (db w') = students (db w)" "notifications (db w') = notifications (db w)"
    "map d_sn (devices (db w')) = map d_sn (devices (db w))"
    using keepsD [OF k _ assms] by auto
  show "outbox w' = outbox w" "clock w' = clock w" using calmD [OF c assms] by auto
  show "passing w \<Longrightarrow> passing w'" using passesD [OF p _ assms] by simp
qed

section \<open>One push from a device\<close>

lemma blind_logs: "blind_to_notices (\<lambda>d. attendance_logs d = x)"
  by (simp add: blind_to_notices_def)

lemma batch_of_students: "students d' = students d \<Longrightarrow> batch_of d' events = batch_of d events"
  by (simp add: batch_of_def)

text \<open>The handler on a readable ATTLOG push of a registered, active device, step by step.\<close>

lemma ADMS_cases:
  assumes dev: "find_device sn (db w) = Some True" and sn: "sn \<noteq> []" "0 \<notin> set sn"
  obtains (lookup) e w1 where "query (find_device sn) w = (Inl e, w1)"
      "ADMSHandler client POST sn (u ''ATTLOG'') (Read_Body raw) w =
        (if isTransientDBError e then ADMS_Retry else ADMS_OK, w1)"
  | (stored) w1 w2 where "query (find_device sn) w = (Inr (Some True), w1)"
      "(touch_device sn :: (adms, unit) tx) w1 = (Inr (), w2)"
      "parseATTLOG raw = []"
      "ADMSHandler client POST sn (u ''ATTLOG'') (Read_Body raw) w = (ADMS_OK, w2)"
  | (failed) w1 w2 e w3 where "query (find_device sn) w = (Inr (Some True), w1)"
      "(touch_device sn :: (adms, unit) tx) w1 = (Inr (), w2)"
      "persistATTLOG sn (parseATTLOG raw) w2 = (Inl e, w3)"
      "ADMSHandler client POST sn (u ''ATTLOG'') (Read_Body raw) w = (ADMS_Retry, w3)"
  | (notified) w1 w2 res w3 w4 where "query (find_device sn) w = (Inr (Some True), w1)"
      "(touch_device sn :: (adms, unit) tx) w1 = (Inr (), w2)"
      "persistATTLOG sn (parseATTLOG raw) w2 = (Inr res, w3)"
      "(notifyPunches client (fst (splitPunchesByDay (inserted res) (today (clock w3)))) :: (adms, unit) tx) w3 =
         (Inr (), w4)"
      "ADMSHandler client POST sn (u ''ATTLOG'') (Read_Body raw) w = (ADMS_OK, w4)"
proof (cases "query (find_device sn) w")
  case (Pair r w1)
  show thesis
  proof (cases r)
    case (Inl e)
    with Pair sn show thesis
      by (intro lookup [of e w1])
        (simp_all add: ADMSHandler_def settle_def bindE_def run_simps with_text_def lift_err_run)
  next
    case (Inr v)
    then have q: "query (find_device sn) w = (Inr (Some True), w1)" using Pair query_ok [of _ w] dev by metis
    obtain w2 where t: "(touch_device sn :: (adms, unit) tx) w1 = (Inr (), w2)"
      using touch_device_never_fails by blast
    show thesis
    proof (cases "parseATTLOG raw = []")
      case True
      with q t sn show thesis
        by (intro stored [OF q t])
          (simp_all add: ADMSHandler_def settle_def bindE_def run_simps with_text_def lift_err_run Let_def)
    next
      case ne: False
      show thesis
      proof (cases "persistATTLOG sn (parseATTLOG raw) w2")
        case (Pair r w3)
        show thesis
        proof (cases r)
          case (Inl e)
          with Pair q t sn ne show thesis
            by (intro failed [OF q t])
              (simp_all add: ADMSHandler_def settle_def bindE_def run_simps with_text_def lift_err_run Let_def)
        next
          case (Inr res)
          obtain w4 where "(notifyPunches client (fst (splitPunchesByDay (inserted res) (today (clock w3)))) ::
              (adms, unit) tx) w3 = (Inr (), w4)"
            using notifyPunches_never_fails by blast
          with Inr Pair q t sn ne show thesis
            by (intro notified [OF q t])
              (simp_all add: ADMSHandler_def settle_def bindE_def run_simps with_text_def lift_err_run Let_def)
        qed
      qed
    qed
  qed
qed

section \<open>The first punch of a window\<close>

definition minute :: nat where
  "minute = 60 * sec"

lemma minute_pos: "0 < minute"
  by (simp add: minute_def sec_def)

lemma hm_minutes: "hm h m = (h * 60 + m) * minute"
  by (simp add: hm_def minute_def algebra_simps)

lemma windows_by_minute:
  "in_check_in_window day (At day c) \<longleftrightarrow> 390 \<le> c div minute \<and> c div minute < 571"
  "in_check_out_window day (At day c) \<longleftrightarrow> 690 \<le> c div minute \<and> c div minute < 811"
  using minute_pos
  by (simp_all add: in_check_in_window_def in_check_out_window_def stamp_le_iff stamp_less_iff
      CheckInWindowStart_def CheckInWindowEnd_def CheckOutWindowStart_def CheckOutWindowEnd_def hm_minutes
      less_eq_div_iff_mult_less_eq div_less_iff_less_mult)

definition time12_of :: "nat \<Rightarrow> str" where
  "time12_of m = pad2 ((m div 60 + 11) mod 12 + 1) @ [58] @ pad2 (m mod 60) @
     (if m div 60 < 12 then u '' AM'' else u '' PM'')"

lemma time12_by_minute: "time12 t = time12_of (clock_of t div minute)"
proof -
  have "hour_of c = c div minute div 60" for c
    by (simp add: hour_of_def minute_def div_mult2_eq [symmetric])
  moreover have "minute_of c = c div minute mod 60" for c by (simp add: minute_of_def minute_def)
  ultimately show ?thesis by (simp add: time12_def time12_of_def Let_def)
qed

lemma hour12_inject:
  assumes "a < 24" "b < (24::nat)" "(a + 11) mod 12 = (b + 11) mod 12" "a < 12 \<longleftrightarrow> b < 12"
  shows "a = b"
proof -
  have "(a + 11 + 1) mod 12 = (b + 11 + 1) mod 12" using assms(3) by (rule mod_add_cong) simp
  then have eq: "a mod 12 = b mod 12" by simp
  have red: "x < 24 \<Longrightarrow> x mod 12 = (if x < 12 then x else x - 12)" for x :: nat
    by (simp add: le_mod_geq not_less)
  show ?thesis
  proof (cases "a < 12")
    case True
    then show ?thesis using eq red [OF assms(1)] red [OF assms(2)] assms(4) by simp
  next
    case False
    then show ?thesis using eq red [OF assms(1)] red [OF assms(2)] assms(4) by simp
  qed
qed

lemma time12_of_inject:
  assumes "m < 1440" "n < 1440" "time12_of m = time12_of n"
  shows "m = n"
proof -
  let ?h = "\<lambda>m::nat. (m div 60 + 11) mod 12 + 1"
  have e: "pad2 (?h m) = pad2 (?h n) \<and> pad2 (m mod 60) = pad2 (n mod 60) \<and>
      (if m div 60 < 12 then u '' AM'' else u '' PM'') = (if n div 60 < 12 then u '' AM'' else u '' PM'')"
    using assms(3) by (simp add: time12_of_def append_eq_append_conv)
  have b: "?h m < 100" "?h n < 100" "m mod 60 < 100" "n mod 60 < 100"
    using mod_less_divisor [of 12 "m div 60 + 11"] mod_less_divisor [of 12 "n div 60 + 11"]
      mod_less_divisor [of 60 m] mod_less_divisor [of 60 n] by linarith+
  have "?h m = ?h n" "m mod 60 = n mod 60" using e b pad2_eq_iff by blast+
  then have c: "(m div 60 + 11) mod 12 = (n div 60 + 11) mod 12" "m mod 60 = n mod 60" by simp_all
  have "u '' AM'' \<noteq> u '' PM''" by (simp add: u_def)
  then have ap: "m div 60 < 12 \<longleftrightarrow> n div 60 < 12" using e by argo
  have "m div 60 < 24" "n div 60 < 24" using assms(1,2) by (simp_all add: div_less_iff_less_mult)
  then have "m div 60 = n div 60" using c(1) ap by (rule hour12_inject)
  then show "m = n" using c(2) by (metis div_mult_mod_eq)
qed

lemma time12_eq_iff:
  assumes "valid_stamp a" "valid_stamp b"
  shows "time12 a = time12 b \<longleftrightarrow> clock_of a div minute = clock_of b div minute"
proof -
  have "day_length = 1440 * minute" by (simp add: day_length_def minute_def)
  then have "clock_of a div minute < 1440" "clock_of b div minute < 1440"
    using assms minute_pos by (simp_all add: valid_stamp_def div_less_iff_less_mult)
  then show ?thesis using time12_of_inject by (auto simp: time12_by_minute)
qed

definition first_in :: "(date \<Rightarrow> stamp \<Rightarrow> bool) \<Rightarrow> db \<Rightarrow> storedPunch \<Rightarrow> bool" where
  \<comment> \<open>the earliest of the student's punches in a window of its date\<close>
  "first_in win d p \<longleftrightarrow> win (on_date (snd p)) (snd p) \<and>
     (\<forall>l \<in> set (attendance_logs d). l_student l = fst p \<longrightarrow> win (on_date (snd p)) (l_time l) \<longrightarrow> snd p \<le> l_time l)"

lemma same_minute_window:
  assumes "on_date a = on_date b" "clock_of a div minute = clock_of b div minute"
  shows "in_check_in_window (on_date a) a = in_check_in_window (on_date a) b"
    "in_check_out_window (on_date a) a = in_check_out_window (on_date a) b"
proof -
  obtain ca cb where "a = At (on_date a) ca" "b = At (on_date a) cb"
    using assms(1) by (metis stamp.collapse)
  then show "in_check_in_window (on_date a) a = in_check_in_window (on_date a) b"
    "in_check_out_window (on_date a) a = in_check_out_window (on_date a) b"
    using windows_by_minute assms(2) by (metis stamp.sel(2))+
qed

lemma first_in_one_window:
  assumes valid: "\<forall>l \<in> set (attendance_logs d). valid_stamp (l_time l)" "valid_stamp (snd p)"
    and mem: "p \<in> punch_key ` set (attendance_logs d)"
    and win: "win = in_check_in_window \<or> win = in_check_out_window"
    and first: "chk = None \<longleftrightarrow> (\<forall>l \<in> set (attendance_logs d). l_student l = fst p \<longrightarrow> \<not> win (on_date (snd p)) (l_time l))"
    and some: "\<And>l. chk = Some l \<Longrightarrow> l \<in> set (attendance_logs d) \<and> l_student l = fst p \<and>
        win (on_date (snd p)) (l_time l) \<and>
        (\<forall>q \<in> set (attendance_logs d). l_student q = fst p \<longrightarrow> win (on_date (snd p)) (l_time q) \<longrightarrow> l_time l \<le> l_time q)"
  shows "map_option (\<lambda>l. time12 (l_time l)) chk = Some (time12 (snd p)) \<and>
     \<not> list_ex (\<lambda>a. l_student a = fst p \<and> l_time a < snd p \<and> on_date (l_time a) = on_date (snd p) \<and>
                    minute_start (l_time a) = minute_start (snd p)) (attendance_logs d) \<longleftrightarrow> first_in win d p"
    (is "?L \<and> ?N \<longleftrightarrow> _")
proof -
  have ms: "minute_start t = clock_of t div minute" for t by (simp add: minute_start_def minute_def)
  obtain lp where lp: "lp \<in> set (attendance_logs d)" "l_student lp = fst p" "l_time lp = snd p"
    using mem by auto
  have date: "win dd t \<Longrightarrow> on_date t = dd" for dd t using win window_on_date by blast
  have same: "win (on_date a) a = win (on_date a) b"
    if "on_date a = on_date b" "clock_of a div minute = clock_of b div minute" for a b
    using same_minute_window [OF that] win by auto
  show ?thesis
  proof
    assume LN: "?L \<and> ?N"
    then obtain l where l: "chk = Some l" "time12 (l_time l) = time12 (snd p)" by auto
    note ls = some [OF l(1)]
    have d: "on_date (l_time l) = on_date (snd p)" using ls date by blast
    have m: "clock_of (l_time l) div minute = clock_of (snd p) div minute"
      using l(2) time12_eq_iff valid ls by blast
    have "\<not> l_time l < snd p" using LN ls d m by (auto simp: list_ex_iff ms)
    moreover have w: "win (on_date (snd p)) (snd p)" using same [OF d m] ls d by simp
    moreover have "l_time l \<le> snd p" using ls lp w by metis
    ultimately have "l_time l = snd p" by simp
    then show "first_in win d p" using ls w by (simp add: first_in_def)
  next
    assume f: "first_in win d p"
    then have w: "win (on_date (snd p)) (snd p)" by (simp add: first_in_def)
    then obtain l where l: "chk = Some l" using first lp by (metis option.exhaust)
    have "l_time l = snd p" using some [OF l] f lp w by (intro order_antisym) (metis, auto simp: first_in_def)
    then have "?L" using l by simp
    moreover have "?N"
    proof -
      have "\<not> l_time a < snd p" if "a \<in> set (attendance_logs d)" "l_student a = fst p"
        "on_date (l_time a) = on_date (snd p)" "clock_of (l_time a) div minute = clock_of (snd p) div minute" for a
        using f w same [OF that(3,4)] that by (auto simp: first_in_def not_less)
      then show ?thesis by (auto simp: list_ex_iff ms)
    qed
    ultimately show "?L \<and> ?N" by simp
  qed
qed

lemma notified_punch_iff:
  assumes "\<forall>l \<in> set (attendance_logs d). valid_stamp (l_time l)" "valid_stamp (snd p)"
    and "p \<in> punch_key ` set (attendance_logs d)"
  shows "notified_punch d p \<longleftrightarrow>
    school_day d (on_date (snd p)) \<and> (first_in in_check_in_window d p \<or> first_in in_check_out_window d p)"
proof -
  let ?dd = "on_date (snd p)"
  have i: "map_option (\<lambda>l. time12 (l_time l)) (check_in_punch d (fst p) ?dd) = Some (time12 (snd p)) \<and>
     \<not> list_ex (\<lambda>a. l_student a = fst p \<and> l_time a < snd p \<and> on_date (l_time a) = on_date (snd p) \<and>
                    minute_start (l_time a) = minute_start (snd p)) (attendance_logs d) \<longleftrightarrow>
     first_in in_check_in_window d p"
    using check_in_punch_None check_in_punch_Some by (intro first_in_one_window [OF assms]) blast+
  have o: "map_option (\<lambda>l. time12 (l_time l)) (check_out_punch d (fst p) ?dd) = Some (time12 (snd p)) \<and>
     \<not> list_ex (\<lambda>a. l_student a = fst p \<and> l_time a < snd p \<and> on_date (l_time a) = on_date (snd p) \<and>
                    minute_start (l_time a) = minute_start (snd p)) (attendance_logs d) \<longleftrightarrow>
     first_in in_check_out_window d p"
    using check_out_punch_None check_out_punch_Some by (intro first_in_one_window [OF assms]) blast+
  show ?thesis
    unfolding notified_punch_def get_student_status_def Let_def split using i o by blast
qed

lemma told_departure:
  assumes "\<forall>l \<in> set (attendance_logs d). valid_stamp (l_time l)" "valid_stamp (snd p)"
    and "p \<in> punch_key ` set (attendance_logs d)" "notified_punch d p"
  shows "snd (snd (get_student_status d (fst p) (on_date (snd p)))) = Some (time12 (snd p)) \<longleftrightarrow>
    first_in in_check_out_window d p"
proof -
  have "map_option (\<lambda>l. time12 (l_time l)) (check_out_punch d (fst p) (on_date (snd p))) = Some (time12 (snd p)) \<and>
     \<not> list_ex (\<lambda>a. l_student a = fst p \<and> l_time a < snd p \<and> on_date (l_time a) = on_date (snd p) \<and>
                    minute_start (l_time a) = minute_start (snd p)) (attendance_logs d) \<longleftrightarrow>
     first_in in_check_out_window d p"
    using check_out_punch_None check_out_punch_Some by (intro first_in_one_window [OF assms(1-3)]) blast+
  then show ?thesis using assms(4) unfolding notified_punch_def get_student_status_def Let_def split by simp
qed

lemma split_by_day:
  assumes "\<forall>p \<in> set ps. valid_date (on_date (snd p))" "valid_date t"
  shows "splitPunchesByDay ps (ymd t) =
    (filter (\<lambda>p. on_date (snd p) = t) ps, count_where (\<lambda>p. on_date (snd p) < t) ps,
     count_where (\<lambda>p. t < on_date (snd p)) ps)"
  using assms
proof (induction ps)
  case (Cons p ps)
  then have v: "valid_date (on_date (snd p))" by simp
  have less: "ymd (on_date (snd p)) < ymd t \<longleftrightarrow> on_date (snd p) < t" "ymd t < ymd (on_date (snd p)) \<longleftrightarrow> t < on_date (snd p)"
    using ymd_less v Cons.prems(2) by blast+
  from Cons less show ?case
    by (cases "on_date (snd p)" t rule: linorder_cases) (auto simp: count_where_def Let_def)
qed (simp add: count_where_def)

lemma parse_stamp_text:
  assumes "valid_date d" "h < 24" "mi < 60" "se < 60"
  shows "parse_stamp (ymd d @ [32] @ pad2 h @ [58] @ pad2 mi @ [58] @ pad2 se) = Some (At d (hm h mi + se * sec))"
proof -
  have b: "h < 100" "mi < 100" "se < 100" using assms by auto
  have "pad2 h = (48 + h div 10) # [48 + h mod 10]" using b by (simp add: pad2_digits)
  then have c: "cut_blanks (32 # pad2 h @ r) = Some (pad2 h @ r)" for r
    using b by (simp add: cut_blanks_def)
  have e: "getnum (pad2 se) True = Some (se, [])" using getnum_pad2 [OF b(3), of "[]" True] by simp
  show ?thesis using assms b by (simp add: parse_stamp_def c e read_fraction_def)
qed

text \<open>A line as the devices write it.\<close>

definition attlog_line :: "AttendanceEvent \<Rightarrow> str" where
  "attlog_line ev = PIN ev @ [9] @ ymd (on_date (CheckTime ev)) @ [32] @ hh_mm_ss (clock_of (CheckTime ev))"

definition plain_event :: "AttendanceEvent \<Rightarrow> bool" where
  \<comment> \<open>a PIN that is one word, at a whole second\<close>
  "plain_event ev \<longleftrightarrow> PIN ev \<noteq> [] \<and> list_all (\<lambda>c. \<not> is_space c \<and> c \<noteq> 61) (PIN ev) \<and>
     valid_stamp (CheckTime ev) \<and> sec dvd clock_of (CheckTime ev)"

lemma digit_not_space: "n < 10 \<Longrightarrow> \<not> is_space (48 + n)"
  by (simp add: is_space_def)

lemma stamp_text_plain:
  "c \<in> set (ymd d @ [32] @ hh_mm_ss k) \<Longrightarrow> c = 32 \<or> c = 45 \<or> c = 58 \<or> (48 \<le> c \<and> c \<le> 57)"
  by (auto simp: ymd_def hh_mm_ss_def hh_mm_def pad2_def pad4_def)

lemma stamp_text_ends:
  "ymd d @ [32] @ hh_mm_ss k \<noteq> [] \<and> \<not> is_space (hd (ymd d @ [32] @ hh_mm_ss k)) \<and>
   \<not> is_space (last (ymd d @ [32] @ hh_mm_ss k))"
  by (auto simp: ymd_def hh_mm_ss_def pad2_def pad4_def is_space_def)

lemma parse_whole_second:
  assumes "valid_stamp t" "sec dvd clock_of t"
  shows "parse_stamp (ymd (on_date t) @ [32] @ hh_mm_ss (clock_of t)) = Some t"
proof -
  obtain k where k: "clock_of t = sec * k" using assms(2) by (auto elim: dvdE)
  have sp: "0 < sec" by (simp add: sec_def)
  have kb: "k < 86400" using assms(1) sp by (simp add: valid_stamp_def k day_length_def mult.commute)
  have parts: "hour_of (clock_of t) = k div 3600" "minute_of (clock_of t) = k div 60 mod 60"
    "second_of (clock_of t) = k mod 60"
    using sp by (simp_all add: k hour_of_def minute_of_def second_of_def mult.commute [of _ sec])
  have shown_as: "hh_mm_ss (clock_of t) = pad2 (k div 3600) @ [58] @ pad2 (k div 60 mod 60) @ [58] @ pad2 (k mod 60)"
    by (simp add: hh_mm_ss_def hh_mm_def parts)
  have sum: "(k div 3600) * 3600 + (k div 60 mod 60) * 60 + k mod 60 = k"
  proof -
    have "k div 3600 = k div 60 div 60" by (simp add: div_mult2_eq [symmetric])
    then show ?thesis using div_mult_mod_eq [of k 60] div_mult_mod_eq [of "k div 60" 60] by linarith
  qed
  have "hm (k div 3600) (k div 60 mod 60) + k mod 60 * sec = clock_of t"
    unfolding hm_def k using sum by (metis add_mult_distrib mult.commute)
  moreover have "k div 3600 < 24" using kb by (simp add: div_less_iff_less_mult)
  ultimately show ?thesis
    using parse_stamp_text [of "on_date t" "k div 3600" "k div 60 mod 60" "k mod 60"] assms(1)
    by (simp add: shown_as valid_stamp_def)
qed

lemma is_space_32: "is_space 32" "is_space 9" "is_space 10"
  by (simp_all add: is_space_def)

lemma line_fields_tab:
  assumes "split_on 9 line = [p, t]" "61 \<notin> set p"
  shows "line_fields line = Some (TrimSpace p, TrimSpace t)"
  using assms(2) by (simp add: line_fields_def assms(1))

lemma parse_line_attlog:
  assumes "plain_event ev"
  shows "parse_line (attlog_line ev) = Some ev"
proof -
  let ?t = "ymd (on_date (CheckTime ev)) @ [32] @ hh_mm_ss (clock_of (CheckTime ev))"
  have pin: "PIN ev \<noteq> []" "\<And>c. c \<in> set (PIN ev) \<Longrightarrow> \<not> is_space c \<and> c \<noteq> 61"
    and t: "valid_stamp (CheckTime ev)" "sec dvd clock_of (CheckTime ev)"
    using assms by (auto simp: plain_event_def list_all_iff)
  have ends: "\<not> is_space (hd (PIN ev))" "\<not> is_space (last (PIN ev))" using pin by auto
  have tp: "TrimSpace (PIN ev) = PIN ev" unfolding TrimSpace_def using ends by (intro trim_by_id) auto
  have tt: "TrimSpace ?t = ?t"
    unfolding TrimSpace_def using stamp_text_ends by (intro trim_by_id) auto
  have line: "attlog_line ev = PIN ev @ 9 # ?t" by (simp add: attlog_line_def)
  have tl: "TrimSpace (attlog_line ev) = attlog_line ev"
    unfolding TrimSpace_def line using ends pin(1) stamp_text_ends
    by (intro trim_by_id) (auto simp: hd_append)
  have "9 \<notin> set (PIN ev)" using pin(2) is_space_32 by blast
  moreover have "9 \<notin> set ?t" using stamp_text_plain by fastforce
  ultimately have sp: "split_on 9 (attlog_line ev) = [PIN ev, ?t]"
    unfolding line using split_on_append [of 9 "PIN ev" ?t] split_on_plain [of 9 ?t] by simp
  have "line_fields (attlog_line ev) = Some (PIN ev, ?t)"
    using line_fields_tab [OF sp] pin(2) [of 61] tp tt by auto
  moreover have "attlog_line ev \<noteq> []" by (simp add: line)
  ultimately show ?thesis using pin(1) parse_whole_second [OF t] by (simp add: parse_line_def tl Let_def)
qed

lemma attlog_line_no_newline: "plain_event ev \<Longrightarrow> 10 \<notin> set (attlog_line ev)"
  using is_space_32(3) stamp_text_plain [of 10]
  by (auto simp: attlog_line_def plain_event_def list_all_iff)

lemma attlog_body_ends:
  assumes "\<forall>ev \<in> set evs. plain_event ev" "evs \<noteq> []"
  shows "TrimSpace (join_with [10] (map attlog_line evs)) = join_with [10] (map attlog_line evs)"
proof -
  have ends: "attlog_line ev \<noteq> [] \<and> \<not> is_space (hd (attlog_line ev)) \<and> \<not> is_space (last (attlog_line ev))"
    if "plain_event ev" for ev
  proof -
    have "PIN ev \<noteq> []" "\<not> is_space (hd (PIN ev))"
      using that by (cases "PIN ev"; auto simp: plain_event_def)+
    then show ?thesis using stamp_text_ends by (auto simp: attlog_line_def hd_append)
  qed
  have "join_with [10] ls \<noteq> [] \<and> hd (join_with [10] ls) = hd (hd ls) \<and> last (join_with [10] ls) = last (last ls)"
    if "ls \<noteq> []" "\<forall>l \<in> set ls. l \<noteq> []" for ls :: "str list"
    using that by (induction ls rule: join_with.induct [of _ "[10]"]) auto
  from this [of "map attlog_line evs"]
  show ?thesis unfolding TrimSpace_def using assms ends
    by (intro trim_by_id) (auto simp: hd_map last_map)
qed

section \<open>Properties\<close>

text \<open>A stored batch: exactly the records whose PIN is a student's tag are considered, the rows
  appended are the ones reported as inserted and none was stored before, inserted, duplicate and
  rejected records add up to the batch, with no record rejected every punch of the batch is in the
  table, and nothing outside the two punch tables changes. A batch that fails changes nothing.\<close>

theorem batch_stored_exactly:
  "case persistATTLOG sn events w of
     (Inl e, w') \<Rightarrow> db w' = db w
   | (Inr res, w') \<Rightarrow>
       (\<exists>new touts. db w' = (db w)\<lparr>attendance_logs := attendance_logs (db w) @ new,
                                  teacher_attendance_logs := touts\<rparr> \<and>
          map punch_key new = inserted res \<and> distinct (inserted res) \<and>
          set (inserted res) \<inter> punch_key ` set (attendance_logs (db w)) = {} \<and>
          set (inserted res) \<subseteq> norm ` set (batch_of (db w) events) \<and>
          (rejected res = 0 \<longrightarrow>
             norm ` set (batch_of (db w) events) \<subseteq> punch_key ` set (attendance_logs (db w'))) \<and>
          0 \<le> duplicates res \<and> 0 \<le> rejected res \<and>
          int (length (inserted res)) + duplicates res + rejected res = int (length (batch_of (db w) events)))"
proof (cases "persistATTLOG sn events w")
  case (Pair r w')
  show ?thesis
  proof (cases r)
    case (Inl e)
    with Pair show ?thesis by (simp add: persistATTLOG_def in_tx_rollback)
  next
    case (Inr res)
    with Pair have run: "persistATTLOG sn events w = (Inr res, w')" by simp
    from persist_ok [OF run] obtain out touts where
        b: "batch_stored (attendance_logs (db w)) (batch_of (db w) events) (inserted res) (rejected res) out"
      and d: "db w' = (db w)\<lparr>attendance_logs := out, teacher_attendance_logs := touts\<rparr>"
      and n: "duplicates res = int (length (batch_of (db w) events)) - int (length (inserted res)) - rejected res"
      by blast
    from b obtain new where new: "out = attendance_logs (db w) @ new" "map punch_key new = inserted res"
      by (auto simp: batch_stored_def)
    show ?thesis
      using b d n new run
      by (auto simp: batch_stored_def intro!: exI [of _ new] exI [of _ touts])
  qed
qed

text \<open>A school with one parent, one child enrolled under PIN 1, and one device, for the witnesses.\<close>

definition demo_db :: db where
  "demo_db = empty_db\<lparr>
     parents := [\<lparr>p_id = 3, p_name = u ''P'', p_phone = u ''+9647701234567'', p_pin = u ''h'', p_version = 0, p_push = True\<rparr>],
     students := [\<lparr>s_id = 5, s_name = u ''C'', s_tag = u ''1'', s_created = None, s_grade = None, s_section = None,
                   s_avatar = None, s_parent = Some 3, s_active = True\<rparr>],
     devices := [\<lparr>d_sn = u ''SN1'', d_location = None, d_active = True, d_last_sync = None\<rparr>]\<rparr>"

definition demo_event :: AttendanceEvent where
  "demo_event = \<lparr>PIN = u ''1'', CheckTime = At (Date 2026 3 2) (hm 7 0)\<rparr>"

definition demo_row :: punch where
  "demo_row = \<lparr>l_id = 1, l_student = 5, l_device = Some (u ''SN1''), l_time = At (Date 2026 3 2) (hm 7 0),
     l_sync = Some (At (Date 2026 3 2) (hm 8 0)), l_source = u ''device'', l_note = None\<rparr>"

definition demo_now :: stamp where
  "demo_now = At (Date 2026 3 2) (hm 8 0)"

lemma demo_db_simps:
  "attendance_logs demo_db = []" "teacher_attendance_logs demo_db = []" "teachers demo_db = []"
  "students demo_db = [\<lparr>s_id = 5, s_name = u ''C'', s_tag = u ''1'', s_created = None, s_grade = None,
     s_section = None, s_avatar = None, s_parent = Some 3, s_active = True\<rparr>]"
  "devices demo_db = [\<lparr>d_sn = u ''SN1'', d_location = None, d_active = True, d_last_sync = None\<rparr>]"
  by (simp_all add: demo_db_def empty_db_def)

lemma to_micro_demo: "to_micro (At d (hm h m)) = At d (hm h m)"
  by (simp add: to_micro_def hm_def sec_def)

lemma demo_persist:
  "persistATTLOG (u ''SN1'') [demo_event] (quiet demo_db demo_now) =
     (Inr \<lparr>inserted = [(5, At (Date 2026 3 2) (hm 7 0))], duplicates = 0, teacherInserted = 0,
           teacherDuplicates = 0, unknownPINs = [], rejected = 0\<rparr>,
      (quiet demo_db demo_now)\<lparr>db := demo_db\<lparr>attendance_logs := [demo_row]\<rparr>,
         serial := (\<lambda>_. 1)(Attendance_Logs := 2)\<rparr>)"
proof -
  have nul: "0 \<notin> set (u ''1'')" by (simp add: u_def)
  show ?thesis
    by (simp add: persistATTLOG_def in_tx_run_nil store_batch_def bindE_def run_simps with_text_def nul
        insertPunchesBulk_def catchE_def List.map_filter_simps demo_db_simps tag_ids_def demo_event_def
        savepoint_def get_db_def insert_punches_def insert_punch_row_def insert_unique_def to_micro_demo
        demo_row_def demo_now_def Let_def quiet_def)
qed

theorem batch_stored_exactly_witness:
  "case persistATTLOG (u ''SN1'') [demo_event] (quiet demo_db demo_now) of
     (Inl e, w') \<Rightarrow> False
   | (Inr res, w') \<Rightarrow> norm ` set (batch_of demo_db [demo_event]) \<subseteq> punch_key ` set (attendance_logs (db w'))"
  using batch_stored_exactly [where sn = "u ''SN1''" and events = "[demo_event]" and w = "quiet demo_db demo_now"]
  unfolding demo_persist by auto

lemma ADMS_registered:
  assumes "find_device sn (db w) = Some True" "sn \<noteq> []" "0 \<notin> set sn" "passing w"
  shows "case ADMSHandler client POST sn (u ''ATTLOG'') (Read_Body raw) w of
      (ADMS_OK, w') \<Rightarrow>
        norm ` set (batch_of (db w) (parseATTLOG raw)) \<subseteq> punch_key ` set (attendance_logs (db w'))
    | (ADMS_Retry, w') \<Rightarrow>
        attendance_logs (db w') = attendance_logs (db w) \<and>
        teacher_attendance_logs (db w') = teacher_attendance_logs (db w) \<and>
        notifications (db w') = notifications (db w) \<and> outbox w' = outbox w"
proof (cases rule: ADMS_cases [OF assms(1-3), where client = client and raw = raw, case_names lookup stored failed notified])
  case (lookup e w1)
  then have "isTransientDBError e"
    using passing_next [OF assms(4)]
    by (auto simp: query_def stmt_def split: prod.splits option.splits)
  moreover have "db w1 = db w" "outbox w1 = outbox w"
    using failed_db(2) lookup(1) calmD [OF calm_statements(1) lookup(1)] by auto
  ultimately show ?thesis using lookup by simp
next
  case (stored w1 w2)
  then show ?thesis by (simp add: batch_of_def List.map_filter_simps)
next
  case (failed w1 w2 e w3)
  have w1: "db w1 = db w" "outbox w1 = outbox w" using query_ok [OF failed(1)] by auto
  have "db w3 = db w2" using failed(3) by (simp add: persistATTLOG_def in_tx_rollback)
  moreover have "outbox w3 = outbox w2"
  proof -
    have "calm (persistATTLOG sn (parseATTLOG raw))"
      unfolding persistATTLOG_def store_batch_def Let_def
      by (intro calming calm_insertPunchesBulk calm_storeTeacherPunches calm_insertPunchesEach)
    then show ?thesis using calmD failed(3) by blast
  qed
  moreover have "attendance_logs (db w2) = attendance_logs (db w1)"
    "teacher_attendance_logs (db w2) = teacher_attendance_logs (db w1)"
    "notifications (db w2) = notifications (db w1)" "outbox w2 = outbox w1"
    using touch_device_run [OF failed(2)] by auto
  ultimately show ?thesis using failed(4) w1 by simp
next
  case (notified w1 w2 res w3 w4)
  have w1: "db w1 = db w" "passing w1"
    using query_ok [OF notified(1)] passesD [OF passes_statements(1) assms(4) notified(1)] by auto
  have w2: "passing w2" "students (db w2) = students (db w1)" "map d_sn (devices (db w2)) = map d_sn (devices (db w1))"
    using touch_device_run [OF notified(2)] w1(2) by auto
  have "sn \<in> set (map d_sn (devices (db w)))"
    using assms(1) by (auto simp: find_device_def dest!: find_row_Some)
  then have "sn \<in> set (map d_sn (devices (db w2)))" using w2(3) w1(1) by metis
  then have "list_ex (\<lambda>v. d_sn v = sn) (devices (db w2))" by (auto simp: list_ex_iff)
  then have "rejected res = 0" using persist_nothing_rejected [OF w2(1) _ notified(3)] by simp
  with persist_ok [OF notified(3)]
  have "norm ` set (batch_of (db w2) (parseATTLOG raw)) \<subseteq> punch_key ` set (attendance_logs (db w3))"
    by (auto simp: batch_stored_def)
  moreover have "attendance_logs (db w4) = attendance_logs (db w3)"
    using keepsD [OF keeps_notifyPunches [OF blind_logs] _ notified(4), of "attendance_logs (db w3)"] by simp
  ultimately show ?thesis
    using notified(5) batch_of_students [of "db w2" "db w"] w2(2) w1(1) by simp
qed

text \<open>A device that is not registered, or is switched off, changes nothing, whatever it sends; and neither does a
  request without a serial number.\<close>

lemma ADMS_stranger:
  assumes "find_device sn (db w) \<noteq> Some True \<or> sn = [] \<or> 0 \<in> set sn"
    and "ADMSHandler client meth sn table body w = (answer, w')"
  shows "db w' = db w \<and> outbox w' = outbox w"
proof (cases "meth = POST \<and> sn \<noteq> []")
  case False
  then show ?thesis using assms(2) by (auto simp: ADMSHandler_def settle_def bindE_def run_simps split: if_splits)
next
  case True
  obtain r w1 where q: "with_text [sn] (query (find_device sn)) w = (r, w1)" by fastforce
  have "calm (with_text [sn] (query (find_device sn)))"
    unfolding with_text_def by (auto intro: calm_stmt calm_statements)
  then have w1: "outbox w1 = outbox w" using calmD q by blast
  have d1: "db w1 = db w"
    using q failed_db(1,2) query_ok(2) by (cases r) (auto simp: with_text_def elim!: stmt_ok split: if_splits)
  have "r = Inr v \<Longrightarrow> v \<noteq> Some True" for v
    using assms(1) True q query_okD [of "find_device sn" w v w1] by (auto simp: with_text_def elim!: stmt_ok split: if_splits)
  then have "w' = w1"
    using assms(2) True q
    by (cases r) (auto simp: ADMSHandler_def settle_def bindE_def run_simps lift_err_run split: if_splits option.splits)
  then show ?thesis using w1 d1 by simp
qed

text \<open>C2. No punch is lost and none is stored by half, provided every failure is a transient one and the body of
  the push was read: a registered, switched-on device that reads OK after pushing its ATTLOG buffer knows that
  every record of an enrolled child is in the table, and one told to retry knows that no punch was stored and no
  parent was told. A device that is not registered, or is switched off, stores nothing and tells nobody,
  whatever it is answered.\<close>

theorem ADMS_all_or_nothing:
  assumes "passing w"
  shows "case ADMSHandler client POST sn (u ''ATTLOG'') (Read_Body raw) w of (answer, w') \<Rightarrow>
    if find_device sn (db w) = Some True \<and> sn \<noteq> [] \<and> 0 \<notin> set sn \<and> answer = ADMS_OK
    then norm ` set (batch_of (db w) (parseATTLOG raw)) \<subseteq> punch_key ` set (attendance_logs (db w'))
    else attendance_logs (db w') = attendance_logs (db w) \<and>
      teacher_attendance_logs (db w') = teacher_attendance_logs (db w) \<and>
      notifications (db w') = notifications (db w) \<and> outbox w' = outbox w"
proof (cases "ADMSHandler client POST sn (u ''ATTLOG'') (Read_Body raw) w")
  case (Pair answer w')
  show ?thesis
  proof (cases "find_device sn (db w) = Some True \<and> sn \<noteq> [] \<and> 0 \<notin> set sn")
    case True
    then show ?thesis using ADMS_registered [where sn = sn and w = w and client = client and raw = raw] assms by (cases answer) (auto simp: Pair)
  next
    case False
    then show ?thesis using ADMS_stranger [OF _ Pair] Pair by auto
  qed
qed

lemma demo_plain: "plain_event demo_event"
  by (simp add: plain_event_def demo_event_def u_def is_space_def valid_stamp_def valid_date_def days_in_def
      day_length_def hm_def sec_def)

definition demo_body :: str where
  "demo_body = attlog_line demo_event"

definition demo_touched :: db where
  "demo_touched = demo_db\<lparr>devices := [\<lparr>d_sn = u ''SN1'', d_location = None, d_active = True, d_last_sync = Some demo_now\<rparr>]\<rparr>"

lemma demo_parsed: "parseATTLOG demo_body = [demo_event]"
proof -
  have "TrimSpace demo_body = demo_body" "10 \<notin> set demo_body"
    using attlog_body_ends [of "[demo_event]"] attlog_line_no_newline [OF demo_plain] demo_plain by (simp_all add: demo_body_def)
  then show ?thesis
    using parse_line_attlog [OF demo_plain] by (simp add: parseATTLOG_def split_on_plain List.map_filter_simps demo_body_def)
qed

text \<open>The witness: one buffer pushed in a calm moment and told OK, pushed while the database is away and told to
  retry, and pushed by a device nobody registered.\<close>

theorem ADMS_all_or_nothing_witness:
  "(let push = ADMSHandler None POST (u ''SN1'') (u ''ATTLOG'') (Read_Body demo_body) in
    (case push (quiet demo_db demo_now) of (answer, w') \<Rightarrow>
       answer = ADMS_OK \<and> (5, At (Date 2026 3 2) (hm 7 0)) \<in> punch_key ` set (attendance_logs (db w'))) \<and>
    (case push ((quiet demo_db demo_now)\<lparr>faults := [None, None, None, Some Driver]\<rparr>) of (answer, w') \<Rightarrow>
       answer = ADMS_Retry \<and> attendance_logs (db w') = [])) \<and>
   attendance_logs (db (snd (ADMSHandler None POST (u ''SN9'') (u ''ATTLOG'') (Read_Body demo_body) (quiet demo_db demo_now)))) = []"
proof -
  let ?push = "ADMSHandler None POST (u ''SN1'') (u ''ATTLOG'') (Read_Body demo_body)"
  let ?w = "quiet demo_db demo_now" and ?x = "(quiet demo_db demo_now)\<lparr>faults := [None, None, None, Some Driver]\<rparr>"
  have n: "u ''SN1'' \<noteq> []" "0 \<notin> set (u ''SN1'')" "u ''SN9'' \<noteq> u ''SN1''" by (simp_all add: u_def)
  have nul: "0 \<notin> set (u ''1'')" by (simp add: u_def)
  have d: "find_device (u ''SN1'') demo_db = Some True" "find_device (u ''SN9'') demo_db = None"
    using n(3) by (simp_all add: find_device_def find_row_def demo_db_simps)
  have p: "passing ?w" "passing ?x" by (simp_all add: passing_def isTransientDBError_def)
  have batch: "norm ` set (batch_of demo_db [demo_event]) = {(5, At (Date 2026 3 2) (hm 7 0))}"
    by (simp add: batch_of_def demo_event_def demo_db_simps List.map_filter_simps norm_def to_micro_demo tag_ids_def)
  have touched: "(touch_device (u ''SN1'') :: (adms, unit) tx) ?w = (Inr (), ?w\<lparr>db := demo_touched\<rparr>)"
    by (simp add: touch_device_def quietly_def catchE_def bindE_def run_simps demo_touched_def upd_where_def demo_db_simps
        to_micro_demo demo_now_def)
  have persist: "\<exists>res w3. persistATTLOG (u ''SN1'') [demo_event] (?w\<lparr>db := demo_touched\<rparr>) = (Inr res, w3)"
    by (simp add: persistATTLOG_def in_tx_run_nil store_batch_def bindE_def run_simps with_text_def nul
        insertPunchesBulk_def catchE_def List.map_filter_simps demo_db_simps demo_touched_def tag_ids_def demo_event_def
        savepoint_def get_db_def insert_punches_def insert_punch_row_def insert_unique_def to_micro_demo Let_def)
  have ok: "fst (?push ?w) = ADMS_OK"
    using demo_parsed touched persist
    by (cases rule: ADMS_cases [OF _ n(1,2), of ?w, where client = None and raw = demo_body, case_names dev lookup stored failed notified])
      (auto simp: d query_run_nil)
  have retry: "fst (?push ?x) = ADMS_Retry"
    by (simp add: ADMSHandler_def settle_def bindE_def run_simps with_text_def n lift_err_run query_def stmt_def exec_def
        control_def next_fault_def d touch_device_def quietly_def catchE_def demo_parsed Let_def persistATTLOG_def in_tx_def
        store_batch_def demo_event_def nul)
  show ?thesis
    using ADMS_all_or_nothing [OF p(1), where client = None and sn = "u ''SN1''" and raw = demo_body] ADMS_all_or_nothing [OF p(2), where client = None and sn = "u ''SN1''" and raw = demo_body]
      ADMS_all_or_nothing [OF p(1), where client = None and sn = "u ''SN9''" and raw = demo_body] ok retry n
    by (auto simp: Let_def split_def d demo_parsed batch demo_db_simps)
qed

text \<open>Whatever a device pushes and whatever fails, a student never has two punches at the same
  time and neither has a teacher.\<close>

theorem ADMS_keeps_punches_unique:
  assumes "punches_ok (db w)"
  shows "punches_ok (db (snd (ADMSHandler client meth sn table body w)))"
proof -
  have "keeps punches_ok
     (bindE (guard (meth = POST) ADMS_OK) (\<lambda>_.
     bindE (guard (sn \<noteq> []) ADMS_OK) (\<lambda>_.
     bindE (lift_err (\<lambda>e. if isTransientDBError e then ADMS_Retry else ADMS_OK)
       (with_text [sn] (query (find_device sn)))) (\<lambda>device.
     bindE (of_option ADMS_OK device) (\<lambda>isActive.
     bindE (guard isActive ADMS_OK) (\<lambda>_.
     bindE (touch_device sn) (\<lambda>_.
     bindE (guard (table = u ''ATTLOG'') ADMS_OK) (\<lambda>_.
     case body of
       Body_Too_Large \<Rightarrow> ret ADMS_OK
     | Read_Failed \<Rightarrow> ret ADMS_Retry
     | Read_Body rawBody \<Rightarrow>
         let events = parseATTLOG rawBody in
         if events = [] then ret ADMS_OK
         else bindE (lift_err (\<lambda>_. ADMS_Retry) (persistATTLOG sn events)) (\<lambda>res.
              bindE get_clock (\<lambda>now.
              bindE (notifyPunches client (fst (splitPunchesByDay (inserted res) (today now)))) (\<lambda>_.
              ret ADMS_OK)))))))))))"
    unfolding Let_def
    by (intro keeping keeps_punches_touch; (cases body)?;
        simp add: keeps_ret keeps_bindE keeps_lift_err keeps_punches_persist keeps_get_clock
          keeps_notifyPunches [OF blind_punches])
  then show ?thesis using assms by (simp add: ADMSHandler_def settle_snd keeps_def)
qed

theorem ADMS_keeps_punches_unique_witness:
  "punches_ok (db (snd (ADMSHandler None POST (u ''SN1'') (u ''ATTLOG'') (Read_Body (u ''1'')) (quiet demo_db demo_now))))"
  by (rule ADMS_keeps_punches_unique) (simp add: punches_ok_def demo_db_simps unique_key_def)


text \<open>Parsing inverts the devices' own format: a body of tab-separated lines, one per event, gives
  back exactly those events in their order.\<close>

theorem parseATTLOG_inverts:
  assumes "\<forall>ev \<in> set evs. plain_event ev"
  shows "parseATTLOG (join_with [10] (map attlog_line evs)) = evs"
proof (cases "evs = []")
  case True
  then show ?thesis by (simp add: parseATTLOG_def TrimSpace_def trim_by_def parse_line_def List.map_filter_simps)
next
  case False
  have split: "split_on 10 (join_with [10] (map attlog_line evs)) = map attlog_line evs"
    using assms False attlog_line_no_newline by (intro split_join) auto
  have "List.map_filter parse_line (map attlog_line evs) = evs"
    using assms by (induction evs) (auto simp: List.map_filter_simps parse_line_attlog)
  with split show ?thesis using attlog_body_ends [OF assms False] by (simp add: parseATTLOG_def)
qed

theorem parseATTLOG_inverts_witness:
  "parseATTLOG (join_with [10] (map attlog_line [demo_event, demo_event])) = [demo_event, demo_event]"
  by (rule parseATTLOG_inverts) (simp add: demo_plain)

text \<open>Resending is harmless: when a device pushes a stored batch again, because our answer was lost,
  no row is added, nothing is reported as new, and so no parent is told twice.\<close>

theorem resend_is_harmless:
  assumes "persistATTLOG sn events w = (Inr res, w1)" "rejected res = 0"
    and "db w2 = db w1" "persistATTLOG sn events w2 = (Inr res', w3)"
  shows "inserted res' = [] \<and> attendance_logs (db w3) = attendance_logs (db w1) \<and>
    (notifyPunches client (fst (splitPunchesByDay (inserted res') day)) :: (adms, unit) tx) w3 = (Inr (), w3)"
proof -
  have all: "norm ` set (batch_of (db w) events) \<subseteq> punch_key ` set (attendance_logs (db w1))"
    using persist_ok [OF assms(1)] assms(2) by (auto simp: batch_stored_def)
  have "students (db w1) = students (db w)" using persist_ok [OF assms(1)] by auto
  then have b: "batch_of (db w1) events = batch_of (db w) events"
    by (rule batch_of_students)
  from persist_ok [OF assms(4)] obtain out touts where
      "batch_stored (attendance_logs (db w2)) (batch_of (db w2) events) (inserted res') (rejected res') out"
      "db w3 = (db w2)\<lparr>attendance_logs := out, teacher_attendance_logs := touts\<rparr>"
    by blast
  then have out: "batch_stored (attendance_logs (db w1)) (batch_of (db w) events) (inserted res') (rejected res') out"
      "attendance_logs (db w3) = out"
    unfolding assms(3) b by simp_all
  have none: "inserted res' = []"
    using out(1) all unfolding batch_stored_def by (metis disjoint_iff hd_in_set subset_iff)
  then have "attendance_logs (db w3) = attendance_logs (db w1)" using out by (auto simp: batch_stored_def)
  with none show ?thesis by (simp add: notifyPunches_def ret_def)
qed

definition punched_db :: db where
  "punched_db = demo_db\<lparr>attendance_logs := [demo_row]\<rparr>"

definition demo_stored :: world where
  "demo_stored = (quiet demo_db demo_now)\<lparr>db := demo_db\<lparr>attendance_logs := [demo_row]\<rparr>,
         serial := (\<lambda>_. 1)(Attendance_Logs := 2)\<rparr>"

lemma demo_stored_simps:
  "db demo_stored = punched_db" "faults demo_stored = []" "clock demo_stored = demo_now"
  "serial demo_stored Attendance_Logs = 2"
  by (simp_all add: demo_stored_def punched_db_def)

lemma punched_db_simps:
  "attendance_logs punched_db = [demo_row]" "students punched_db = students demo_db"
  "punched_db\<lparr>attendance_logs := [demo_row]\<rparr> = punched_db"
  by (simp_all add: punched_db_def)

lemma demo_again:
  "persistATTLOG (u ''SN1'') [demo_event] demo_stored =
     (Inr \<lparr>inserted = [], duplicates = 1, teacherInserted = 0, teacherDuplicates = 0, unknownPINs = [], rejected = 0\<rparr>,
      demo_stored\<lparr>serial := (serial demo_stored)(Attendance_Logs := 3), db := punched_db\<rparr>)"
proof -
  have nul: "0 \<notin> set (u ''1'')" by (simp add: u_def)
  have row: "insert_punch_row (u ''SN1'') demo_now 2 (5, At (Date 2026 3 2) (hm 7 0)) [demo_row] = None"
    by (simp add: insert_punch_row_def demo_row_def to_micro_demo)
  then have rows: "insert_punch_rows (u ''SN1'') demo_now 2 [(5, At (Date 2026 3 2) (hm 7 0))] [demo_row] = (3, [demo_row], [])"
    by simp
  show ?thesis
    by (simp add: persistATTLOG_def in_tx_run_nil store_batch_def bindE_def run_simps with_text_def nul
        insertPunchesBulk_def catchE_def List.map_filter_simps demo_db_simps demo_stored_simps punched_db_simps
        tag_ids_def demo_event_def savepoint_def get_db_def insert_punches_def rows Let_def
        del: insert_punch_rows.simps)
qed

theorem resend_is_harmless_witness:
  "case persistATTLOG (u ''SN1'') [demo_event] (quiet demo_db demo_now) of
     (Inl e, w1) \<Rightarrow> False
   | (Inr res, w1) \<Rightarrow> (case persistATTLOG (u ''SN1'') [demo_event] w1 of
        (Inl e, w3) \<Rightarrow> False | (Inr res', w3) \<Rightarrow> inserted res' = [] \<and> attendance_logs (db w3) = [demo_row])"
  using resend_is_harmless [OF demo_persist _ _ demo_again, where client = None and day = "[]"]
  unfolding demo_persist demo_stored_def [symmetric] by (simp add: demo_again punched_db_simps)

text \<open>Who is told about a punch: a stored punch gives a notice exactly when its student exists, its
  date is a school day, and it is the student's earliest punch of that day in the check-in or in
  the check-out window; the text says departure exactly for the check-out window's punch.\<close>

theorem told_of_first_punch:
  assumes "\<forall>l \<in> set (attendance_logs d). valid_stamp (l_time l)" "valid_stamp (snd p)"
    and "p \<in> punch_key ` set (attendance_logs d)"
  shows "case notice_for d p of
      None \<Rightarrow> \<not> list_ex (\<lambda>s. s_id s = fst p) (students d) \<or> \<not> school_day d (on_date (snd p)) \<or>
        \<not> (first_in in_check_in_window d p \<or> first_in in_check_out_window d p)
    | Some n \<Rightarrow> list_ex (\<lambda>s. s_id s = fst p \<and> s_name s = nt_name n \<and> s_parent s = nt_parent n) (students d) \<and>
        school_day d (on_date (snd p)) \<and> nt_time n = snd p \<and>
        (nt_out n \<longleftrightarrow> first_in in_check_out_window d p) \<and>
        (nt_out n \<or> first_in in_check_in_window d p)"
proof (cases "find_row (\<lambda>s. s_id s = fst p) (students d)")
  case None
  then have "\<not> list_ex (\<lambda>s. s_id s = fst p) (students d)" by (auto simp: find_row_None list_ex_iff)
  then show ?thesis by (simp add: notice_for_def None)
next
  case (Some s)
  have s: "s \<in> set (students d)" "s_id s = fst p" using find_row_Some [OF Some] by auto
  show ?thesis
  proof (cases "notified_punch d p")
    case False
    then show ?thesis using notified_punch_iff [OF assms] Some by (auto simp: notice_for_def)
  next
    case True
    then show ?thesis
      using notified_punch_iff [OF assms] told_departure [OF assms] Some s
      by (auto simp: notice_for_def list_ex_iff)
  qed
qed


theorem told_of_first_punch_witness:
  "notice_for punched_db (5, At (Date 2026 3 2) (hm 7 0)) =
     Some \<lparr>nt_time = At (Date 2026 3 2) (hm 7 0), nt_name = u ''C'', nt_tokens = None, nt_parent = Some 3, nt_out = False\<rparr>"
proof -
  let ?p = "(5 :: int, At (Date 2026 3 2) (hm 7 0))"
  have st: "students punched_db = students demo_db" "attendance_logs punched_db = [demo_row]"
    by (simp_all add: punched_db_def)
  have day: "school_day punched_db (Date 2026 3 2)"
    by (simp add: school_day_def punched_db_def demo_db_def empty_db_def weekendDate_def date_eval)
  have v: "valid_stamp (At (Date 2026 3 2) (hm 7 0))"
    by (simp add: valid_stamp_def valid_date_def days_in_def day_length_def hm_def sec_def)
  have f: "first_in in_check_in_window punched_db ?p" "\<not> first_in in_check_out_window punched_db ?p"
    by (simp_all add: first_in_def st demo_row_def in_check_in_window_def in_check_out_window_def
        CheckInWindowStart_def CheckInWindowEnd_def CheckOutWindowStart_def CheckOutWindowEnd_def hm_def sec_def
        stamp_less_iff stamp_le_iff)
  have find: "notice_for punched_db ?p =
      (if notified_punch punched_db ?p
       then Some \<lparr>nt_time = snd ?p, nt_name = u ''C'', nt_tokens = None, nt_parent = Some 3,
          nt_out = (snd (snd (get_student_status punched_db 5 (Date 2026 3 2))) = Some (time12 (snd ?p)))\<rparr> else None)"
    by (simp add: notice_for_def find_row_def st demo_db_simps parent_device_tokens_def punched_db_def demo_db_def empty_db_def)
  have told: "case notice_for punched_db ?p of
      None \<Rightarrow> \<not> list_ex (\<lambda>s. s_id s = fst ?p) (students punched_db) \<or> \<not> school_day punched_db (on_date (snd ?p)) \<or>
        \<not> (first_in in_check_in_window punched_db ?p \<or> first_in in_check_out_window punched_db ?p)
    | Some n \<Rightarrow> list_ex (\<lambda>s. s_id s = fst ?p \<and> s_name s = nt_name n \<and> s_parent s = nt_parent n) (students punched_db) \<and>
        school_day punched_db (on_date (snd ?p)) \<and> nt_time n = snd ?p \<and>
        (nt_out n \<longleftrightarrow> first_in in_check_out_window punched_db ?p) \<and>
        (nt_out n \<or> first_in in_check_in_window punched_db ?p)"
    using v by (intro told_of_first_punch) (auto simp: st demo_row_def)
  then have "notified_punch punched_db ?p"
    using f day unfolding find by (auto simp: st demo_db_simps split: if_splits)
  then show ?thesis using told f unfolding find by simp
qed

text \<open>C16. A record whose PIN the database cannot hold as text blocks the whole buffer: although no
  failure is transient, the device is told to send the same buffer again, at every attempt.\<close>

theorem unreadable_pin_blocks_buffer:
  assumes "find_device sn (db w) = Some True" "sn \<noteq> []" "0 \<notin> set sn" "faults w = []"
    and "ev \<in> set (parseATTLOG raw)" "0 \<in> set (PIN ev)"
  shows "\<not> isTransientDBError text_error \<and>
    fst (ADMSHandler client POST sn (u ''ATTLOG'') (Read_Body raw) w) = ADMS_Retry"
proof
  show "\<not> isTransientDBError text_error" by (simp add: isTransientDBError_def text_error_def u_def)
  have "PIN ev \<in> set (first_seen [] (map PIN evs))" if "ev \<in> set evs" for evs
    using that set_first_seen [of "[]" "map PIN evs"] by auto
  then have nul: "list_ex (\<lambda>t. 0 \<in> set t) (first_seen [] (map PIN (parseATTLOG raw)))"
    using assms(5,6) by (auto simp: list_ex_iff)
  have no: "persistATTLOG sn (parseATTLOG raw) w' \<noteq> (Inr res, w'')" for w' res w''
    by (auto simp: persistATTLOG_def store_batch_def with_text_def nul Let_def bindE_ok
        elim!: in_tx_ok stmt_ok)
  show "fst (ADMSHandler client POST sn (u ''ATTLOG'') (Read_Body raw) w) = ADMS_Retry"
    using assms(4,5) no
    by (cases rule: ADMS_cases [OF assms(1-3), where client = client and raw = raw, case_names lookup stored failed notified])
      (auto simp: query_run_nil)
qed


theorem unreadable_pin_blocks_buffer_witness:
  "fst (ADMSHandler None POST (u ''SN1'') (u ''ATTLOG'')
     (Read_Body (0 # [9] @ ymd (Date 2026 3 2) @ [32] @ hh_mm_ss (hm 7 0))) (quiet demo_db demo_now)) = ADMS_Retry"
proof -
  let ?ev = "\<lparr>PIN = [0], CheckTime = At (Date 2026 3 2) (hm 7 0)\<rparr>"
  have plain: "plain_event ?ev"
    using demo_plain by (simp add: plain_event_def demo_event_def is_space_def)
  let ?body = "0 # [9] @ ymd (Date 2026 3 2) @ [32] @ hh_mm_ss (hm 7 0)"
  have line: "attlog_line ?ev = ?body" by (simp add: attlog_line_def)
  have "TrimSpace ?body = ?body" "10 \<notin> set ?body"
    using attlog_body_ends [of "[?ev]"] attlog_line_no_newline [OF plain] plain by (simp_all add: line del: append.simps)
  then have "parseATTLOG ?body = [?ev]"
    using parse_line_attlog [OF plain] by (simp add: parseATTLOG_def split_on_plain List.map_filter_simps line)
  then show ?thesis
    by (intro conjunct2 [OF unreadable_pin_blocks_buffer [where ev = ?ev]])
      (simp_all add: find_device_def find_row_def demo_db_simps u_def)
qed

end
