(* ===== verification/Search.thy ===== *)
theory Search
  imports Prelude
begin

text \<open>
  Searching names: \<open>likePattern\<close> of \<open>internal/handlers/teachers.go\<close> builds the pattern, and PostgreSQL
  matches it with \<open>ILIKE\<close>. \<open>like\<close> is the matcher (\<open>%\<close> any text, \<open>_\<close> any character, backslash
  quotes the next one); case folding is a parameter, character by character, since the database's
  locale decides it.
\<close>

fun like :: "str \<Rightarrow> str \<Rightarrow> bool" where
  "like [] s = (s = [])"
| "like (c # p) s =
     (if c = 37 then like p s \<or> (case s of [] \<Rightarrow> False | _ # r \<Rightarrow> like (c # p) r)
      else if c = 92 then (case p of [] \<Rightarrow> False | q # p' \<Rightarrow> (case s of [] \<Rightarrow> False | x # r \<Rightarrow> x = q \<and> like p' r))
      else case s of [] \<Rightarrow> False | x # r \<Rightarrow> (c = 95 \<or> x = c) \<and> like p r)"

definition ilike :: "(nat \<Rightarrow> nat) \<Rightarrow> str \<Rightarrow> str \<Rightarrow> bool" where
  "ilike low s p = like (map low p) (map low s)"

fun like_escape :: "str \<Rightarrow> str" where
  \<comment> \<open>the replacer: a backslash before each backslash, percent sign and underscore\<close>
  "like_escape [] = []"
| "like_escape (c # s) = (if c = 92 \<or> c = 37 \<or> c = 95 then 92 # c # like_escape s else c # like_escape s)"

definition likePattern :: "str \<Rightarrow> str" where
  "likePattern s = [37] @ like_escape s @ [37]"

lemma contains_iff: "contains s p \<longleftrightarrow> (\<exists>a b. s = a @ p @ b)"
proof (induction s p rule: contains.induct)
  case (2 c s p)
  have "(\<exists>a b. c # s = a @ p @ b) \<longleftrightarrow> (\<exists>b. c # s = p @ b) \<or> (\<exists>a b. s = a @ p @ b)"
    by (metis append_Cons append_Nil list.exhaust list.inject)
  with 2 show ?case by (simp add: has_prefix_iff)
qed simp

lemma like_escaped: "like (like_escape x @ p) s \<longleftrightarrow> (\<exists>r. s = x @ r \<and> like p r)"
proof (induction x arbitrary: s)
  case (Cons c x)
  then show ?case by (cases s) auto
qed simp

lemma like_percent: "like (37 # p) s \<longleftrightarrow> (\<exists>a r. s = a @ r \<and> like p r)"
proof (induction s)
  case (Cons c s)
  have "(\<exists>a r. c # s = a @ r \<and> like p r) \<longleftrightarrow> like p (c # s) \<or> (\<exists>a r. s = a @ r \<and> like p r)"
    by (metis append_Cons append_Nil list.exhaust list.inject)
  with Cons show ?case by simp
qed simp

lemma like_any: "like [37] s"
  unfolding like_percent by (rule exI [of _ s]) simp

lemma like_likePattern: "like (likePattern x) s \<longleftrightarrow> contains s x"
proof -
  have "like (37 # (like_escape x @ [37])) s \<longleftrightarrow> (\<exists>a r. s = a @ r \<and> like (like_escape x @ [37]) r)"
    by (rule like_percent)
  then show ?thesis
    by (simp add: likePattern_def like_escaped like_any contains_iff del: like.simps) blast
qed

text \<open>A case folding of letters: it leaves the three special characters alone and reaches none of them.\<close>

definition folds_letters :: "(nat \<Rightarrow> nat) \<Rightarrow> bool" where
  "folds_letters low \<longleftrightarrow> (\<forall>c. (c \<in> {37, 92, 95} \<longrightarrow> low c = c) \<and> (low c \<in> {37, 92, 95} \<longrightarrow> low c = c))"

lemma fold_pattern: "folds_letters low \<Longrightarrow> map low (likePattern x) = likePattern (map low x)"
proof -
  assume f: "folds_letters low"
  have "map low (like_escape x) = like_escape (map low x)"
  proof (induction x)
    case (Cons c x)
    have "low c = 92 \<or> low c = 37 \<or> low c = 95 \<longleftrightarrow> c = 92 \<or> c = 37 \<or> c = 95" "low 92 = 92"
      using f unfolding folds_letters_def by (metis insert_iff empty_iff)+
    with Cons show ?case by auto
  qed simp
  then show ?thesis using f by (simp add: likePattern_def folds_letters_def)
qed

text \<open>What is typed into the search box is looked for literally: percent signs, underscores and
  backslashes in it have no special meaning, and letters match in either case.\<close>

theorem search_is_literal:
  assumes "folds_letters low"
  shows "ilike low name (likePattern typed) \<longleftrightarrow> (\<exists>a b. map low name = a @ map low typed @ b)"
  using fold_pattern [OF assms] by (simp add: ilike_def like_likePattern contains_iff)

definition ascii_lower :: "nat \<Rightarrow> nat" where
  "ascii_lower c = (if 65 \<le> c \<and> c \<le> 90 then c + 32 else c)"

theorem search_is_literal_witness:
  "ilike ascii_lower (u ''Ali 50%'') (likePattern (u ''ali'')) \<and> \<not> ilike ascii_lower (u ''Ali'') (likePattern (u ''%''))"
proof -
  have f: "folds_letters ascii_lower" by (auto simp: folds_letters_def ascii_lower_def)
  have "map ascii_lower (u ''Ali 50%'') = [] @ map ascii_lower (u ''ali'') @ u '' 50%''"
    by (simp add: u_def ascii_lower_def)
  moreover have "\<not> (\<exists>a b. map ascii_lower (u ''Ali'') = a @ map ascii_lower (u ''%'') @ b)"
  proof
    assume "\<exists>a b. map ascii_lower (u ''Ali'') = a @ map ascii_lower (u ''%'') @ b"
    then obtain a b where e: "map ascii_lower (u ''Ali'') = a @ map ascii_lower (u ''%'') @ b" by blast
    have "ascii_lower 37 \<in> set (map ascii_lower (u ''Ali''))" unfolding e by (simp add: u_def)
    then show False by (simp add: u_def ascii_lower_def)
  qed
  ultimately show ?thesis unfolding search_is_literal [OF f] by blast
qed

end
