(* ===== verification/Tuition.thy ===== *)
theory Tuition
  imports Transactions Search
begin

text \<open>
  Tuition, \<open>internal/handlers/tuition.go\<close>: fees per grade and academic year, one account per student
  and year that freezes the grade, fee and discount, payments that are voided but never deleted, and
  the change of the academic year. Amounts are whole dinars; every stored amount is between 0 and
  10^9 and a body's amount is a 64-bit integer, so no sum here reaches the 64-bit range. The order of
  names is the database's collation, the parameter \<open>coll\<close>, and its case folding is \<open>low\<close>. A write
  holds the rows it locks until its transaction ends, so the transaction runs as one step.
\<close>

section \<open>Academic years and refusals\<close>

definition MaxTuitionAmount :: int where "MaxTuitionAmount = 1000000000"

definition MaxTuitionGrade :: nat where "MaxTuitionGrade = 50"

definition MaxTuitionNote :: nat where "MaxTuitionNote = 200"

definition AcademicYearMessage :: string where
  "AcademicYearMessage = ''academic_year must be two consecutive years, for example 2026-2027''"

definition TuitionStudentIDMessage :: string where
  "TuitionStudentIDMessage = ''student_id must be a positive student id''"

fun academicYearRE :: "str \<Rightarrow> bool" where
  "academicYearRE [a, b, c, d, e, f, g, h, i] =
     (a = 50 \<and> b = 48 \<and> is_digit c \<and> is_digit d \<and> e = 45 \<and> f = 50 \<and> g = 48 \<and> is_digit h \<and> is_digit i)"
| "academicYearRE _ = False"

definition validAcademicYear :: "str \<Rightarrow> bool" where
  "validAcademicYear y \<longleftrightarrow> academicYearRE y \<and> digits_value (drop 5 y) = digits_value (take 4 y) + 1"

datatype terr =
    Refused refusal     \<comment> \<open>a \<open>tuitionRefusal\<close>\<close>
  | AcademicYearMissing
  | Failed err

definition respondTuitionError :: "terr \<Rightarrow> refusal" where
  "respondTuitionError e = (case e of Refused r \<Rightarrow> r | _ \<Rightarrow> internal_error ''Internal server error'' e)"

definition errTuitionStudentNotFound :: terr where
  "errTuitionStudentNotFound = Refused (Refuse 404 (u ''Student not found''))"

definition errTuitionPaymentNotFound :: terr where
  "errTuitionPaymentNotFound = Refused (Refuse 404 (u ''Payment not found''))"

definition errTuitionFeeNotSet :: terr where
  "errTuitionFeeNotSet = Refused (Refuse 409 (u ''Set the fee for this grade first''))"

definition errTuitionOverpay :: terr where
  "errTuitionOverpay = Refused (Refuse 409 (u ''Payment exceeds the remaining balance''))"

definition errTuitionDiscountOverFee :: terr where
  "errTuitionDiscountOverFee = Refused (Refuse 409 (u ''Discount exceeds the fee''))"

definition errTuitionDiscountOverRemaining :: terr where
  "errTuitionDiscountOverRemaining = Refused (Refuse 409 (u ''Discount exceeds the remaining balance''))"

definition errTuitionAlreadyVoided :: terr where
  "errTuitionAlreadyVoided = Refused (Refuse 409 (u ''Payment is already voided''))"

definition stored_year :: "db \<Rightarrow> str option" where
  "stored_year d = map_option k_value (find_row (\<lambda>k. k_key k = u ''academic_year'') (settings d))"

definition currentAcademicYear :: "(terr, str) tx" where
  "currentAcademicYear =
     bindE (lift_err Failed (query stored_year)) (\<lambda>y.
     case y of
       None \<Rightarrow> fail AcademicYearMissing
     | Some y \<Rightarrow> if validAcademicYear y then ret y else fail AcademicYearMissing)"

definition tuitionYear :: "str \<Rightarrow> (refusal, str \<times> bool) tx" where
  "tuitionYear requested =
     bindE (lift_err respondTuitionError currentAcademicYear) (\<lambda>cur.
     let requested = TrimSpace requested in
     if requested = [] then ret (cur, True)
     else bindE (guard (validAcademicYear requested) (bad_request AcademicYearMessage)) (\<lambda>_.
          ret (requested, requested = cur)))"

section \<open>A student's figures\<close>

record TuitionRow =
  tr_student :: int
  tr_name :: str
  tr_grade :: "str option"
  tr_section :: "str option"
  tr_active :: bool
  tr_fee :: "int option"
  tr_discount :: int
  tr_paid :: int
  tr_remaining :: "int option"
  tr_fee_set :: bool

record tuitionRecord = TuitionRow +
  discountNote :: "str option"
  accountID :: "int option"
  lastUpdated :: "stamp option"

record tuitionFilter =
  tf_year :: str
  tf_current :: bool
  tf_student :: "int option"
  tf_parent :: "int option"
  tf_grade :: "str option"
  tf_section :: "str option"
  tf_name :: "str option"

definition account_of :: "db \<Rightarrow> int \<Rightarrow> str \<Rightarrow> account option" where
  "account_of d sid y = find_row (\<lambda>a. (q_student a, q_year a) = (sid, y)) (tuition_accounts d)"

definition fee_of :: "db \<Rightarrow> str \<Rightarrow> str option \<Rightarrow> fee option" where
  "fee_of d y g = find_row (\<lambda>f. f_year f = y \<and> Some (f_grade f) = g) (tuition_fees d)"

definition live_payment :: "int \<Rightarrow> payment \<Rightarrow> bool" where
  "live_payment acc m \<longleftrightarrow> m_account m = acc \<and> m_void m = None"

definition paid_on :: "db \<Rightarrow> int \<Rightarrow> int" where
  \<comment> \<open>\<open>SELECT COALESCE(SUM(amount), 0) ... WHERE account_id = $1 AND voided_at IS NULL\<close>\<close>
  "paid_on d acc = sum_where (live_payment acc) m_amount (tuition_payments d)"

definition latest :: "stamp option list \<Rightarrow> stamp option" where
  \<comment> \<open>\<open>GREATEST\<close> and \<open>MAX\<close>, which skip nulls\<close>
  "latest ts = (case List.map_filter (\<lambda>t. t) ts of [] \<Rightarrow> None | t # rest \<Rightarrow> Some (fold max rest t))"

definition last_payment :: "db \<Rightarrow> int \<Rightarrow> stamp option" where
  "last_payment d acc =
     latest (map (\<lambda>m. Some (case m_void m of Some (t, _) \<Rightarrow> t | None \<Rightarrow> m_created m))
       (filter (\<lambda>m. m_account m = acc) (tuition_payments d)))"

definition live_fee :: "db \<Rightarrow> str \<Rightarrow> bool \<Rightarrow> student \<Rightarrow> fee option" where
  \<comment> \<open>the fee row joined when the student has no account\<close>
  "live_fee d y cur s =
     (case account_of d (s_id s) y of
        Some _ \<Rightarrow> None
      | None \<Rightarrow> if cur then fee_of d y (map_option btrim (s_grade s)) else None)"

definition nullif_empty :: "str option \<Rightarrow> str option" where
  "nullif_empty z = (if z = Some [] then None else z)"

definition tuition_record :: "db \<Rightarrow> str \<Rightarrow> bool \<Rightarrow> student \<Rightarrow> tuitionRecord" where
  "tuition_record d y cur s =
     (let a = account_of d (s_id s) y; f = live_fee d y cur s;
          fee = (case a of Some q \<Rightarrow> Some (q_fee q) | None \<Rightarrow> map_option f_fee f);
          discount = (case a of Some q \<Rightarrow> q_discount q | None \<Rightarrow> 0);
          paid = (case a of Some q \<Rightarrow> paid_on d (q_id q) | None \<Rightarrow> 0) in
      \<lparr>tr_student = s_id s, tr_name = s_name s,
       tr_grade = (case a of Some q \<Rightarrow> Some (q_grade q) | None \<Rightarrow> nullif_empty (map_option btrim (s_grade s))),
       tr_section = s_section s, tr_active = s_active s, tr_fee = fee, tr_discount = discount, tr_paid = paid,
       tr_remaining = map_option (\<lambda>f. f - discount - paid) fee, tr_fee_set = (fee \<noteq> None),
       discountNote = Option.bind a q_note, accountID = map_option q_id a,
       lastUpdated = latest [map_option q_updated a, Option.bind a (\<lambda>q. last_payment d (q_id q)), map_option f_updated f]\<rparr>)"

definition selected :: "(nat \<Rightarrow> nat) \<Rightarrow> tuitionFilter \<Rightarrow> db \<Rightarrow> student \<Rightarrow> bool" where
  \<comment> \<open>the \<open>WHERE\<close> clause\<close>
  "selected low f d s \<longleftrightarrow>
     (let a = account_of d (s_id s) (tf_year f) in
      (case tf_student f of None \<Rightarrow> s_active s \<or> a \<noteq> None | Some i \<Rightarrow> s_id s = i) \<and>
      (case tf_parent f of None \<Rightarrow> True | Some p \<Rightarrow> s_parent s = Some p \<and> s_active s) \<and>
      (case tf_grade f of None \<Rightarrow> True
       | Some g \<Rightarrow> (case a of Some q \<Rightarrow> Some (q_grade q) | None \<Rightarrow> map_option btrim (s_grade s)) = Some g) \<and>
      (case tf_section f of None \<Rightarrow> True | Some c \<Rightarrow> map_option btrim (s_section s) = Some c) \<and>
      (case tf_name f of None \<Rightarrow> True | Some p \<Rightarrow> ilike low (s_name s) p))"

definition tuition_query :: "(str \<Rightarrow> str) \<Rightarrow> (nat \<Rightarrow> nat) \<Rightarrow> tuitionFilter \<Rightarrow> db \<Rightarrow> tuitionRecord list" where
  "tuition_query coll low f d =
     sort_key (\<lambda>r. (coll (tr_name r), tr_student r))
       (map (tuition_record d (tf_year f) (tf_current f)) (filter (selected low f d) (students d)))"

definition tuitionRows :: "(str \<Rightarrow> str) \<Rightarrow> (nat \<Rightarrow> nat) \<Rightarrow> tuitionFilter \<Rightarrow> (err, tuitionRecord list) tx" where
  "tuitionRows coll low f =
     with_int4 (opt_list (tf_student f) @ opt_list (tf_parent f))
       (with_text (concat (map opt_list [tf_grade f, tf_section f, tf_name f])) (query (tuition_query coll low f)))"

record TuitionPayment =
  tp_id :: int
  tp_amount :: int
  tp_paid_at :: str
  tp_note :: "str option"
  tp_status :: str
  tp_created :: str
  tp_voided :: "str option"
  tp_reason :: "str option"

record TuitionDetail =
  td_row :: TuitionRow
  td_note :: "str option"
  td_payments :: "TuitionPayment list"

definition shown_payment :: "payment \<Rightarrow> TuitionPayment" where
  "shown_payment m =
     \<lparr>tp_id = m_id m, tp_amount = m_amount m, tp_paid_at = ymd (m_paid_at m), tp_note = m_note m,
      tp_status = (if m_void m = None then u ''active'' else u ''voided''), tp_created = rfc3339 (m_created m),
      tp_voided = map_option (rfc3339 \<circ> fst) (m_void m), tp_reason = map_option snd (m_void m)\<rparr>"

definition payments_of :: "int \<Rightarrow> db \<Rightarrow> TuitionPayment list" where
  "payments_of acc d =
     map shown_payment (sort_key (\<lambda>m. - m_id m) (filter (\<lambda>m. m_account m = acc) (tuition_payments d)))"

definition any_student :: "str \<Rightarrow> bool \<Rightarrow> tuitionFilter" where
  \<comment> \<open>\<open>tuitionFilter{year: year, current: current}\<close>\<close>
  "any_student y cur = \<lparr>tf_year = y, tf_current = cur, tf_student = None, tf_parent = None, tf_grade = None,
     tf_section = None, tf_name = None\<rparr>"

definition tuitionDetail ::
    "(str \<Rightarrow> str) \<Rightarrow> (nat \<Rightarrow> nat) \<Rightarrow> int \<Rightarrow> str \<Rightarrow> bool \<Rightarrow> (terr, TuitionDetail) tx" where
  "tuitionDetail coll low studentID y cur =
     bindE (lift_err Failed (tuitionRows coll low ((any_student y cur)\<lparr>tf_student := Some studentID\<rparr>))) (\<lambda>records.
     case records of
       [] \<Rightarrow> fail errTuitionStudentNotFound
     | r # _ \<Rightarrow>
         let row = TuitionRow.truncate r in
         (case accountID r of
            None \<Rightarrow> ret \<lparr>td_row = row, td_note = discountNote r, td_payments = []\<rparr>
          | Some acc \<Rightarrow>
              bindE (lift_err Failed (query (payments_of acc))) (\<lambda>ps.
              ret \<lparr>td_row = row, td_note = discountNote r, td_payments = ps\<rparr>)))"

section \<open>Reading handlers\<close>

record TuitionSummary =
  TotalFee :: int
  TotalDiscount :: int
  TotalCollected :: int
  TotalRemaining :: int
  NotSetCount :: int

definition owes :: "tuitionRecord \<Rightarrow> bool" where
  "owes r \<longleftrightarrow> (case tr_remaining r of None \<Rightarrow> False | Some x \<Rightarrow> 0 < x)"

fun sum_rows :: "tuitionRecord list \<Rightarrow> TuitionSummary \<Rightarrow> TuitionSummary" where
  "sum_rows [] s = s"
| "sum_rows (r # rs) s =
     (let s = (if tr_fee_set r
               then s\<lparr>TotalFee := TotalFee s + the (tr_fee r), TotalRemaining := TotalRemaining s + the (tr_remaining r)\<rparr>
               else s\<lparr>NotSetCount := NotSetCount s + 1\<rparr>) in
      sum_rows rs (s\<lparr>TotalDiscount := TotalDiscount s + tr_discount r, TotalCollected := TotalCollected s + tr_paid r\<rparr>))"

record tuition_params =
  pa_year :: str
  pa_grade :: str
  pa_section :: str
  pa_search :: str
  pa_has_remaining :: str

definition AdminTuitionHandler ::
    "(str \<Rightarrow> str) \<Rightarrow> (nat \<Rightarrow> nat) \<Rightarrow> tuition_params \<Rightarrow> (refusal, str \<times> TuitionSummary \<times> TuitionRow list) tx" where
  "AdminTuitionHandler coll low q =
     bindE (tuitionYear (pa_year q)) (\<lambda>(y, cur).
     let f = (any_student y cur)\<lparr>tf_grade := optional_text (pa_grade q), tf_section := optional_text (pa_section q),
               tf_name := map_option likePattern (optional_text (pa_search q))\<rparr> in
     bindE (guard (pa_has_remaining q \<in> {[], u ''false'', u ''true''})
       (bad_request ''has_remaining must be true or false'')) (\<lambda>_.
     bindE (lift_err (internal_error ''Database error'') (tuitionRows coll low f)) (\<lambda>records.
     let records = (if pa_has_remaining q = u ''true'' then filter owes records else records) in
     ret (y, sum_rows records \<lparr>TotalFee = 0, TotalDiscount = 0, TotalCollected = 0, TotalRemaining = 0, NotSetCount = 0\<rparr>,
          map TuitionRow.truncate records))))"

definition AdminTuitionStudentHandler ::
    "(str \<Rightarrow> str) \<Rightarrow> (nat \<Rightarrow> nat) \<Rightarrow> str \<Rightarrow> str \<Rightarrow> (refusal, str \<times> TuitionDetail) tx" where
  "AdminTuitionStudentHandler coll low idParam yearParam =
     (let studentID = positiveQueryID idParam in
      bindE (guard (studentID \<noteq> 0) (bad_request TuitionStudentIDMessage)) (\<lambda>_.
      bindE (tuitionYear yearParam) (\<lambda>(y, cur).
      bindE (lift_err respondTuitionError (tuitionDetail coll low studentID y cur)) (\<lambda>td.
      ret (y, td)))))"

record MobileTuitionItem =
  mt_student :: int
  mt_name :: str
  mt_year :: str
  mt_remaining :: "int option"
  mt_fee_set :: bool
  mt_updated :: "str option"

definition MobileTuitionHandler ::
    "(str \<Rightarrow> str) \<Rightarrow> (nat \<Rightarrow> nat) \<Rightarrow> int option \<Rightarrow> (refusal, MobileTuitionItem list) tx" where
  "MobileTuitionHandler coll low parentID =
     bindE (parent_of_context parentID) (\<lambda>pid.
     bindE (lift_err respondTuitionError currentAcademicYear) (\<lambda>y.
     bindE (lift_err (internal_error ''Database error'')
       (tuitionRows coll low ((any_student y True)\<lparr>tf_parent := Some pid\<rparr>))) (\<lambda>records.
     ret (map (\<lambda>r. \<lparr>mt_student = tr_student r, mt_name = tr_name r, mt_year = y, mt_remaining = tr_remaining r,
                     mt_fee_set = tr_fee_set r, mt_updated = map_option rfc3339 (lastUpdated r)\<rparr>) records))))"

section \<open>Fees\<close>

record TuitionFee =
  tu_grade :: str
  tu_fee :: "int option"
  tu_updated :: "str option"

definition listed_grades :: "str \<Rightarrow> db \<Rightarrow> str list" where
  "listed_grades y d =
     remdups (List.map_filter (\<lambda>s. if s_active s then nullif_empty (map_option btrim (s_grade s)) else None) (students d) @
              map f_grade (filter (\<lambda>f. f_year f = y) (tuition_fees d)))"

definition fees_query :: "(str \<Rightarrow> str) \<Rightarrow> str \<Rightarrow> db \<Rightarrow> TuitionFee list" where
  "fees_query coll y d =
     map (\<lambda>g. let f = fee_of d y (Some g) in
               \<lparr>tu_grade = g, tu_fee = map_option f_fee f, tu_updated = map_option (rfc3339 \<circ> f_updated) f\<rparr>)
       (sort_key coll (listed_grades y d))"

definition list_fees :: "(str \<Rightarrow> str) \<Rightarrow> (refusal, str \<times> TuitionFee list) tx" where
  "list_fees coll =
     bindE (tuitionYear []) (\<lambda>(y, _).
     bindE (lift_err (internal_error ''Database error'') (query (fees_query coll y))) (\<lambda>fees.
     ret (y, fees)))"

definition amountProblem :: "string \<Rightarrow> int option \<Rightarrow> int \<Rightarrow> str" where
  "amountProblem field v mn =
     (case v of
        None \<Rightarrow> u (field @ '' is required'')
      | Some x \<Rightarrow> if x < mn \<or> MaxTuitionAmount < x
          then u (field @ '' must be from '') @ itoa mn @ u '' to '' @ itoa MaxTuitionAmount else [])"

record TuitionFeeRequest =
  fr_grade :: str
  fr_fee :: "int option"
  fr_apply :: bool

definition upsert_fee :: "str \<Rightarrow> str \<Rightarrow> int \<Rightarrow> stamp \<Rightarrow> int \<Rightarrow> db \<Rightarrow> err + int \<times> db" where
  "upsert_fee y g fee now i d =
     (case fee_of d y (Some g) of
        Some f \<Rightarrow> Inr (f_id f, d\<lparr>tuition_fees := upd_where (\<lambda>f. f_year f = y \<and> f_grade f = g)
          (\<lambda>f. f\<lparr>f_fee := fee, f_updated := to_micro now\<rparr>) (tuition_fees d)\<rparr>)
      | None \<Rightarrow>
          if i \<in> f_id ` set (tuition_fees d) then Inl (unique_violation ''tuition_fees_pkey'')
          else Inr (i, d\<lparr>tuition_fees := tuition_fees d @
            [\<lparr>f_id = i, f_year = y, f_grade = g, f_fee = fee, f_updated = to_micro now\<rparr>]\<rparr>))"

definition now_in_grade :: "db \<Rightarrow> str \<Rightarrow> str \<Rightarrow> account \<Rightarrow> bool" where
  \<comment> \<open>an account of the year whose student is in the grade now\<close>
  "now_in_grade d y g a \<longleftrightarrow> q_year a = y \<and>
     list_ex (\<lambda>s. s_id s = q_student a \<and> map_option btrim (s_grade s) = Some g) (students d)"

fun negative_balances :: "int \<Rightarrow> account list \<Rightarrow> (err, str list) tx" where
  "negative_balances fee [] = ret []"
| "negative_balances fee (a # as) =
     bindE (query (\<lambda>d. paid_on d (q_id a))) (\<lambda>paid.
     bindE (negative_balances fee as) (\<lambda>ns.
     ret (if fee - q_discount a - paid < 0 then itoa (q_student a) # ns else ns)))"

definition reprice :: "str \<Rightarrow> str \<Rightarrow> int \<Rightarrow> stamp \<Rightarrow> db \<Rightarrow> err + int \<times> db" where
  "reprice y g fee now d =
     (if list_ex (\<lambda>a. now_in_grade d y g a \<and> fee < q_discount a) (tuition_accounts d)
      then Inl (check_violation ''tuition_accounts_check'')
      else Inr (count_where (now_in_grade d y g) (tuition_accounts d),
        d\<lparr>tuition_accounts := upd_where (now_in_grade d y g)
            (\<lambda>a. a\<lparr>q_grade := g, q_fee := fee, q_updated := to_micro now\<rparr>) (tuition_accounts d)\<rparr>))"

definition MaxNegativeStudentIDs :: nat where "MaxNegativeStudentIDs = 10"

definition negative_message :: "str list \<Rightarrow> str" where
  "negative_message ns =
     u ''apply_to_existing would make '' @ itoa (int (length ns)) @ u '' balances negative (student ids: '' @
     join_with (u '', '') (take (min (length ns) MaxNegativeStudentIDs) ns) @ u '')''"

text \<open>
  Under READ COMMITTED every statement sees what the other transactions have committed by then. The
  locking SELECT holds the rows of the accounts it found; it holds neither the students nor the place
  of an account that does not exist yet, and the re-pricing that follows updates by predicate. What
  the others commit between the two is the parameter \<open>meanwhile\<close>, any function of the database.
\<close>

definition others_commit :: "(db \<Rightarrow> db) \<Rightarrow> ('e, unit) tx" where
  \<comment> \<open>the commits of other transactions\<close>
  "others_commit meanwhile w = (Inr (), w\<lparr>db := meanwhile (db w)\<rparr>)"

definition apply_fee :: "(db \<Rightarrow> db) \<Rightarrow> str \<Rightarrow> str \<Rightarrow> int \<Rightarrow> (terr, int) tx" where
  "apply_fee meanwhile y g fee =
     bindE get_clock (\<lambda>now.
     bindE (lift_err Failed (query (\<lambda>d. sort_key q_student (filter (now_in_grade d y g) (tuition_accounts d))))) (\<lambda>accounts.
     bindE (lift_err Failed (negative_balances fee accounts)) (\<lambda>negative.
     bindE (guard (negative = []) (Refused (Refuse 409 (negative_message negative)))) (\<lambda>_.
     bindE (others_commit meanwhile) (\<lambda>_.
     lift_err Failed (stmt (reprice y g fee now)))))))"

definition set_fee :: "(db \<Rightarrow> db) \<Rightarrow> TuitionFeeRequest \<Rightarrow> int \<Rightarrow> (terr, str \<times> int \<times> int) tx" where
  "set_fee meanwhile req fee =
     bindE currentAcademicYear (\<lambda>y.
     bindE get_clock (\<lambda>now.
     bindE (lift_err Failed (with_text [fr_grade req]
       (insert_id Tuition_Fees (upsert_fee y (fr_grade req) fee now)))) (\<lambda>feeID.
     bindE (if fr_apply req then apply_fee meanwhile y (fr_grade req) fee
            else bindE (others_commit meanwhile) (\<lambda>_. ret 0)) (\<lambda>updated.
     ret (y, feeID, updated)))))"

definition setTuitionFee :: "(db \<Rightarrow> db) \<Rightarrow> TuitionFeeRequest \<Rightarrow> int \<Rightarrow> (terr, str \<times> int \<times> int) tx" where
  \<comment> \<open>a rollback takes back this transaction, not what the others committed\<close>
  "setTuitionFee meanwhile req fee =
     catchE (in_tx Failed (set_fee meanwhile req fee)) (\<lambda>e. bindE (others_commit meanwhile) (\<lambda>_. fail e))"

definition put_fee :: "(db \<Rightarrow> db) \<Rightarrow> TuitionFeeRequest body \<Rightarrow> (refusal, str \<times> str \<times> int \<times> int) tx" where
  "put_fee meanwhile b =
     bindE (of_sum (decodeJSONBody b (u ''Invalid request body''))) (\<lambda>req.
     let req = req\<lparr>fr_grade := TrimSpace (fr_grade req)\<rparr>;
         msg = firstProblem [tooLong (u ''grade'') (fr_grade req) MaxTuitionGrade, amountProblem ''fee'' (fr_fee req) 1] in
     bindE (guard (fr_grade req \<noteq> []) (bad_request ''grade is required'')) (\<lambda>_.
     bindE (guard (msg = []) (Refuse 400 msg)) (\<lambda>_.
     let fee = the (fr_fee req) in
     bindE (lift_err respondTuitionError (setTuitionFee meanwhile req fee)) (\<lambda>(y, feeID, updated).
     bindE (NoteActivity (u ''fee'') (itoa feeID) (u ''year='' @ y @ u '' accounts='' @ itoa updated)) (\<lambda>_.
     ret (y, fr_grade req, fee, updated))))))"

definition AdminTuitionFeesHandler ::
    "(str \<Rightarrow> str) \<Rightarrow> (db \<Rightarrow> db) \<Rightarrow> meth \<Rightarrow> TuitionFeeRequest body \<Rightarrow>
     (refusal, str \<times> TuitionFee list + str \<times> str \<times> int \<times> int) tx" where
  "AdminTuitionFeesHandler coll meanwhile meth b =
     (case meth of
        GET \<Rightarrow> bindE (list_fees coll) (\<lambda>r. ret (Inl r))
      | PUT \<Rightarrow> bindE (put_fee meanwhile b) (\<lambda>r. ret (Inr r))
      | _ \<Rightarrow> fail method_not_allowed)"

section \<open>Discounts and payments\<close>

fun freeze_accounts :: "str \<Rightarrow> stamp \<Rightarrow> int \<Rightarrow> (int \<times> fee) list \<Rightarrow> account list \<Rightarrow> int \<times> (err + int \<times> account list)" where
  \<comment> \<open>\<open>INSERT ... ON CONFLICT (student_id, academic_year) DO NOTHING\<close>, with the rows inserted\<close>
  "freeze_accounts y now i [] as = (i, Inr (0, as))"
| "freeze_accounts y now i ((sid, f) # rest) as =
     (if list_ex (\<lambda>a. (q_student a, q_year a) = (sid, y)) as then freeze_accounts y now (i + 1) rest as
      else if i \<in> q_id ` set as then (i + 1, Inl (unique_violation ''tuition_accounts_pkey''))
      else case freeze_accounts y now (i + 1) rest (as @
               [\<lparr>q_id = i, q_student = sid, q_year = y, q_grade = f_grade f, q_fee = f_fee f, q_discount = 0,
                 q_note = None, q_updated = to_micro now\<rparr>]) of
             (n, Inl e) \<Rightarrow> (n, Inl e)
           | (n, Inr (k, out)) \<Rightarrow> (n, Inr (k + 1, out)))"

definition freeze_rows :: "str \<Rightarrow> student list \<Rightarrow> db \<Rightarrow> (int \<times> fee) list" where
  \<comment> \<open>\<open>students s JOIN tuition_fees f ON ... f.grade = btrim(s.grade)\<close>\<close>
  "freeze_rows y ss d =
     List.map_filter (\<lambda>s. map_option (Pair (s_id s)) (fee_of d y (map_option btrim (s_grade s)))) ss"

definition freeze :: "(student \<Rightarrow> bool) \<Rightarrow> str \<Rightarrow> (err, int) tx" where
  "freeze p y =
     bindE get_clock (\<lambda>now.
     insert_ids Tuition_Accounts (\<lambda>i d.
       case freeze_accounts y now i (freeze_rows y (filter p (students d)) d) (tuition_accounts d) of
         (n, Inl e) \<Rightarrow> (n, Inl e)
       | (n, Inr (k, out)) \<Rightarrow> (n, Inr (k, d\<lparr>tuition_accounts := out\<rparr>))))"

definition lockTuitionAccount :: "int \<Rightarrow> str \<Rightarrow> bool \<Rightarrow> (terr, int \<times> int \<times> int \<times> int) tx" where
  "lockTuitionAccount studentID y cur =
     bindE (lift_err Failed (with_int4 [studentID] (query (\<lambda>d. list_ex (\<lambda>s. s_id s = studentID) (students d))))) (\<lambda>exists.
     bindE (guard exists errTuitionStudentNotFound) (\<lambda>_.
     bindE (if cur then bindE (lift_err Failed (freeze (\<lambda>s. s_id s = studentID) y)) (\<lambda>_. ret ()) else ret ()) (\<lambda>_.
     bindE (lift_err Failed (query (\<lambda>d. account_of d studentID y))) (\<lambda>acc.
     bindE (of_option errTuitionFeeNotSet acc) (\<lambda>a.
     bindE (lift_err Failed (query (\<lambda>d. paid_on d (q_id a)))) (\<lambda>paid.
     ret (q_id a, q_fee a, q_discount a, paid)))))))"

definition tuitionWrite ::
    "(str \<Rightarrow> str) \<Rightarrow> (nat \<Rightarrow> nat) \<Rightarrow> int \<Rightarrow> str \<Rightarrow> (str \<Rightarrow> bool \<Rightarrow> (terr, unit) tx) \<Rightarrow>
     (refusal, str \<times> TuitionDetail) tx" where
  "tuitionWrite coll low studentID requestedYear write =
     bindE (tuitionYear requestedYear) (\<lambda>(y, _).
     bindE (lift_err respondTuitionError (in_tx Failed
       (bindE currentAcademicYear (\<lambda>cur. bindE (write y (y = cur)) (\<lambda>_. ret (y = cur)))))) (\<lambda>current.
     bindE (lift_err respondTuitionError (tuitionDetail coll low studentID y current)) (\<lambda>td.
     ret (y, td))))"

definition optionalNote :: "str \<Rightarrow> str option \<Rightarrow> str option \<times> str" where
  "optionalNote field z =
     (case blankToNil z of None \<Rightarrow> (None, []) | Some s \<Rightarrow> (Some s, tooLong field s MaxTuitionNote))"

record TuitionDiscountRequest =
  dr_student :: int
  dr_year :: str
  dr_discount :: "int option"
  dr_note :: "str option"

definition write_discount :: "int \<Rightarrow> int \<Rightarrow> str option \<Rightarrow> str \<Rightarrow> bool \<Rightarrow> (terr, unit) tx" where
  \<comment> \<open>the closure \<open>AdminTuitionDiscountHandler\<close> passes to \<open>tuitionWrite\<close>\<close>
  "write_discount studentID discount note y cur =
     bindE (NoteActivity (u ''student'') (itoa studentID) (u ''year='' @ y)) (\<lambda>_.
     bindE (lockTuitionAccount studentID y cur) (\<lambda>(acc, fee, _, paid).
     bindE (guard (\<not> fee < discount) errTuitionDiscountOverFee) (\<lambda>_.
     bindE (guard (\<not> fee < discount + paid) errTuitionDiscountOverRemaining) (\<lambda>_.
     bindE get_clock (\<lambda>now.
     lift_err Failed (with_text (opt_list note) (exec (\<lambda>d. d\<lparr>tuition_accounts :=
       upd_where (\<lambda>a. q_id a = acc) (\<lambda>a. a\<lparr>q_discount := discount, q_note := note, q_updated := to_micro now\<rparr>)
         (tuition_accounts d)\<rparr>))))))))"

definition AdminTuitionDiscountHandler ::
    "(str \<Rightarrow> str) \<Rightarrow> (nat \<Rightarrow> nat) \<Rightarrow> TuitionDiscountRequest body \<Rightarrow> (refusal, str \<times> TuitionDetail) tx" where
  "AdminTuitionDiscountHandler coll low b =
     bindE (of_sum (decodeJSONBody b (u ''Invalid request body''))) (\<lambda>req.
     bindE (guard (\<not> dr_student req < 1) (bad_request TuitionStudentIDMessage)) (\<lambda>_.
     let (note, noteProblem) = optionalNote (u ''note'') (dr_note req);
         msg = firstProblem [amountProblem ''discount'' (dr_discount req) 0, noteProblem] in
     bindE (guard (msg = []) (Refuse 400 msg)) (\<lambda>_.
     tuitionWrite coll low (dr_student req) (dr_year req)
       (write_discount (dr_student req) (the (dr_discount req)) note))))"

record TuitionPaymentRequest =
  pr_student :: int
  pr_year :: str
  pr_amount :: "int option"
  pr_paid_at :: str
  pr_note :: "str option"

definition insert_payment :: "int \<Rightarrow> int \<Rightarrow> date \<Rightarrow> str option \<Rightarrow> stamp \<Rightarrow> int \<Rightarrow> db \<Rightarrow> err + int \<times> db" where
  "insert_payment acc amount paidAt note now i d =
     (if i \<in> m_id ` set (tuition_payments d) then Inl (unique_violation ''tuition_payments_pkey'')
      else Inr (i, d\<lparr>tuition_payments := tuition_payments d @
        [\<lparr>m_id = i, m_account = acc, m_amount = amount, m_paid_at = paidAt, m_note = note, m_created = to_micro now,
          m_void = None\<rparr>]\<rparr>))"

definition write_payment :: "int \<Rightarrow> int \<Rightarrow> date \<Rightarrow> str option \<Rightarrow> str \<Rightarrow> bool \<Rightarrow> (terr, unit) tx" where
  \<comment> \<open>the closure \<open>AdminTuitionPaymentsHandler\<close> passes to \<open>tuitionWrite\<close>\<close>
  "write_payment studentID amount paidAt note y cur =
     bindE (lockTuitionAccount studentID y cur) (\<lambda>(acc, fee, discount, paid).
     bindE (guard (\<not> fee - discount - paid < amount) errTuitionOverpay) (\<lambda>_.
     bindE get_clock (\<lambda>now.
     bindE (lift_err Failed (with_text (opt_list note)
       (insert_id Tuition_Payments (insert_payment acc amount paidAt note now)))) (\<lambda>paymentID.
     NoteActivity (u ''payment'') (itoa paymentID) (u ''student='' @ itoa studentID @ u '' year='' @ y)))))"

definition payment_date :: "str \<Rightarrow> str \<Rightarrow> refusal + date" where
  \<comment> \<open>the checks of \<open>paid_at\<close>, with the present day as text\<close>
  "payment_date raw day =
     (let paidAt = (if TrimSpace raw = [] then day else TrimSpace raw) in
      case parse_date paidAt of
        None \<Rightarrow> Inl (bad_request ''paid_at must be formatted as YYYY-MM-DD'')
      | Some t \<Rightarrow>
          if \<not> yearInRange (year t) then Inl (bad_request ''paid_at must be formatted as YYYY-MM-DD'')
          else if day < paidAt then Inl (bad_request ''paid_at cannot be in the future'')
          else Inr t)"

definition AdminTuitionPaymentsHandler ::
    "(str \<Rightarrow> str) \<Rightarrow> (nat \<Rightarrow> nat) \<Rightarrow> TuitionPaymentRequest body \<Rightarrow> (refusal, str \<times> TuitionDetail) tx" where
  "AdminTuitionPaymentsHandler coll low b =
     bindE (of_sum (decodeJSONBody b (u ''Invalid request body''))) (\<lambda>req.
     bindE (guard (\<not> pr_student req < 1) (bad_request TuitionStudentIDMessage)) (\<lambda>_.
     let (note, noteProblem) = optionalNote (u ''note'') (pr_note req);
         msg = firstProblem [amountProblem ''amount'' (pr_amount req) 1, noteProblem] in
     bindE (guard (msg = []) (Refuse 400 msg)) (\<lambda>_.
     bindE get_clock (\<lambda>now.
     bindE (of_sum (payment_date (pr_paid_at req) (today now))) (\<lambda>paidAt.
     tuitionWrite coll low (pr_student req) (pr_year req)
       (write_payment (pr_student req) (the (pr_amount req)) paidAt note))))))"

record TuitionVoidRequest =
  vr_id :: int
  vr_reason :: str

definition find_payment :: "int \<Rightarrow> db \<Rightarrow> (int \<times> str \<times> bool) option" where
  "find_payment pid d =
     Option.bind (find_row (\<lambda>m. m_id m = pid) (tuition_payments d)) (\<lambda>m.
     map_option (\<lambda>a. (q_student a, q_year a, m_void m \<noteq> None))
       (find_row (\<lambda>a. q_id a = m_account m) (tuition_accounts d)))"

definition void_payment :: "int \<Rightarrow> str \<Rightarrow> (terr, int \<times> str) tx" where
  \<comment> \<open>the transaction of \<open>AdminTuitionVoidHandler\<close>\<close>
  "void_payment pid reason =
     bindE (lift_err Failed (query (find_payment pid))) (\<lambda>found.
     bindE (of_option errTuitionPaymentNotFound found) (\<lambda>(studentID, y, voided).
     bindE (guard (\<not> voided) errTuitionAlreadyVoided) (\<lambda>_.
     bindE get_clock (\<lambda>now.
     bindE (lift_err Failed (with_text [reason] (exec (\<lambda>d. d\<lparr>tuition_payments :=
       upd_where (\<lambda>m. m_id m = pid) (\<lambda>m. m\<lparr>m_void := Some (to_micro now, reason)\<rparr>) (tuition_payments d)\<rparr>)))) (\<lambda>_.
     ret (studentID, y))))))"

definition AdminTuitionVoidHandler ::
    "(str \<Rightarrow> str) \<Rightarrow> (nat \<Rightarrow> nat) \<Rightarrow> TuitionVoidRequest body \<Rightarrow> (refusal, str \<times> TuitionDetail) tx" where
  "AdminTuitionVoidHandler coll low b =
     bindE (of_sum (decodeJSONBody b (u ''Invalid request body''))) (\<lambda>req.
     bindE (guard (\<not> vr_id req < 1) (bad_request ''id must be a positive payment id'')) (\<lambda>_.
     bindE (NoteActivity (u ''payment'') (itoa (vr_id req)) []) (\<lambda>_.
     let reason = TrimSpace (vr_reason req); msg = tooLong (u ''reason'') reason MaxTuitionNote in
     bindE (guard (reason \<noteq> []) (bad_request ''reason is required'')) (\<lambda>_.
     bindE (guard (msg = []) (Refuse 400 msg)) (\<lambda>_.
     bindE (lift_err respondTuitionError (in_tx Failed (void_payment (vr_id req) reason))) (\<lambda>(studentID, y).
     bindE (NoteActivity (u ''payment'') (itoa (vr_id req)) (u ''student='' @ itoa studentID)) (\<lambda>_.
     bindE (lift_err respondTuitionError currentAcademicYear) (\<lambda>cur.
     bindE (lift_err respondTuitionError (tuitionDetail coll low studentID y (y = cur))) (\<lambda>td.
     ret (y, td))))))))))"

section \<open>The change of the academic year\<close>

definition switch_year :: "str \<Rightarrow> (terr + unit, int) tx" where
  \<comment> \<open>the transaction of \<open>changeAcademicYear\<close>; \<open>Inr ()\<close> is its early return when the year is the same\<close>
  "switch_year y =
     bindE (lift_err Inl currentAcademicYear) (\<lambda>old.
     bindE (guard (old \<noteq> y) (Inr ())) (\<lambda>_.
     bindE (lift_err (Inl \<circ> Failed) (freeze s_active old)) (\<lambda>frozen.
     bindE (lift_err (Inl \<circ> Failed) (exec (\<lambda>d. d\<lparr>settings :=
       upd_where (\<lambda>k. k_key k = u ''academic_year'') (\<lambda>k. k\<lparr>k_value := y\<rparr>) (settings d)\<rparr>))) (\<lambda>_.
     ret frozen))))"

definition changeAcademicYear :: "str \<Rightarrow> (refusal, unit) tx" where
  "changeAcademicYear v =
     (let y = TrimSpace v in
      bindE (guard (validAcademicYear y) (bad_request AcademicYearMessage)) (\<lambda>_.
      bindE (catchE (in_tx (Inl \<circ> Failed) (switch_year y))
        (\<lambda>e. case e of Inl e \<Rightarrow> fail (respondTuitionError e) | Inr _ \<Rightarrow> ret 0)) (\<lambda>frozen.
      NoteActivity (u ''setting'') (SettingKeysTarget [u ''academic_year'']) (u ''accounts='' @ itoa frozen))))"

section \<open>Balances\<close>

text \<open>The ledger's invariant: keys are unique, payments belong to accounts, and no balance is negative.\<close>

abbreviation year_key :: "account \<Rightarrow> int \<times> str" where
  "year_key a \<equiv> (q_student a, q_year a)"

definition balance :: "db \<Rightarrow> account \<Rightarrow> int" where
  "balance d a = q_fee a - q_discount a - paid_on d (q_id a)"

definition tuition_ok :: "db \<Rightarrow> bool" where
  "tuition_ok d \<longleftrightarrow>
     unique_key q_id (tuition_accounts d) \<and> unique_key year_key (tuition_accounts d) \<and>
     (\<forall>a \<in> set (tuition_accounts d). 0 \<le> q_discount a \<and> 0 \<le> balance d a) \<and>
     (\<forall>m \<in> set (tuition_payments d). 0 < m_amount m \<and> m_account m \<in> q_id ` set (tuition_accounts d)) \<and>
     (\<forall>f \<in> set (tuition_fees d). 0 < f_fee f)"

lemma tuition_ok_cong:
  "tuition_accounts d' = tuition_accounts d \<Longrightarrow> tuition_payments d' = tuition_payments d \<Longrightarrow>
   tuition_fees d' = tuition_fees d \<Longrightarrow> tuition_ok d' = tuition_ok d"
  by (simp add: tuition_ok_def balance_def paid_on_def)

interpretation accounts_by_id: keyed_table tuition_accounts "\<lambda>rs d. d\<lparr>tuition_accounts := rs\<rparr>" q_id
  by unfold_locales simp_all

lemma paid_on_payments: "tuition_payments d' = tuition_payments d \<Longrightarrow> paid_on d' acc = paid_on d acc"
  by (simp add: paid_on_def)

lemma paid_on_nonneg: "tuition_ok d \<Longrightarrow> 0 \<le> paid_on d acc"
  unfolding paid_on_def tuition_ok_def by (intro sum_where_nonneg) auto

lemma paid_on_new: "tuition_ok d \<Longrightarrow> acc \<notin> q_id ` set (tuition_accounts d) \<Longrightarrow> paid_on d acc = 0"
  unfolding paid_on_def tuition_ok_def by (intro sum_where_none) (auto simp: live_payment_def)

text \<open>What an insert of frozen accounts adds.\<close>

definition frozen_from :: "str \<Rightarrow> (int \<times> fee) list \<Rightarrow> account list \<Rightarrow> account list \<Rightarrow> bool" where
  "frozen_from y rows old new \<longleftrightarrow>
     (\<forall>a \<in> set new. \<exists>f. (q_student a, f) \<in> set rows \<and> q_year a = y \<and> q_grade a = f_grade f \<and> q_fee a = f_fee f \<and>
        q_discount a = 0 \<and> q_note a = None) \<and>
     (q_id ` set new) \<inter> (q_id ` set old) = {} \<and> (year_key ` set new) \<inter> (year_key ` set old) = {} \<and>
     (unique_key q_id old \<longrightarrow> unique_key q_id (old @ new)) \<and> (unique_key year_key old \<longrightarrow> unique_key year_key (old @ new)) \<and>
     (\<forall>(sid, f) \<in> set rows. (sid, y) \<in> year_key ` set (old @ new))"

lemma freeze_accounts_ok:
  "freeze_accounts y now i rows as = (n, Inr (k, out)) \<Longrightarrow> \<exists>new. out = as @ new \<and> k = int (length new) \<and> frozen_from y rows as new"
proof (induction rows arbitrary: i as n k out)
  case Nil
  then show ?case by (auto simp: frozen_from_def)
next
  case (Cons r rows)
  obtain sid f where r: "r = (sid, f)" by (cases r)
  show ?case
  proof (cases "list_ex (\<lambda>a. (q_student a, q_year a) = (sid, y)) as")
    case True
    with Cons.prems r have "freeze_accounts y now (i + 1) rows as = (n, Inr (k, out))" by simp
    from Cons.IH [OF this] obtain new where new: "out = as @ new" "k = int (length new)" "frozen_from y rows as new" by blast
    have "(sid, y) \<in> year_key ` set as" using True by (auto simp: list_ex_iff)
    with new(3) have "frozen_from y (r # rows) as new"
      unfolding frozen_from_def r by fastforce
    with new show ?thesis by blast
  next
    case False
    let ?a = "\<lparr>q_id = i, q_student = sid, q_year = y, q_grade = f_grade f, q_fee = f_fee f, q_discount = 0,
                 q_note = None, q_updated = to_micro now\<rparr>"
    from False Cons.prems r obtain k' where i: "i \<notin> q_id ` set as" and k: "k = k' + 1"
      and run: "freeze_accounts y now (i + 1) rows (as @ [?a]) = (n, Inr (k', out))"
      by (auto split: if_splits prod.splits sum.splits)
    from Cons.IH [OF run] obtain new where new: "out = (as @ [?a]) @ new" "k' = int (length new)"
      "frozen_from y rows (as @ [?a]) new" by blast
    have fresh: "(sid, y) \<notin> year_key ` set as" using False by (auto simp: list_ex_iff)
    have "frozen_from y (r # rows) as (?a # new)"
      using new(3) i fresh unfolding frozen_from_def r
      by (intro conjI) (auto simp: unique_key_def)
    then show ?thesis using new k by (intro exI [of _ "?a # new"]) simp
  qed
qed

lemma freeze_ok:
  assumes "freeze p y w = (Inr k, w')"
  obtains new where "db w' = (db w)\<lparr>tuition_accounts := tuition_accounts (db w) @ new\<rparr>" "k = int (length new)"
    "frozen_from y (freeze_rows y (filter p (students (db w))) (db w)) (tuition_accounts (db w)) new"
proof -
  from assms obtain i n out where
    f: "freeze_accounts y (clock w) i (freeze_rows y (filter p (students (db w))) (db w)) (tuition_accounts (db w)) = (n, Inr (k, out))"
    and d: "db w' = (db w)\<lparr>tuition_accounts := out\<rparr>"
    by (auto simp: freeze_def ok_iffs elim!: insert_ids_ok split: prod.splits sum.splits)
  from freeze_accounts_ok [OF f] d that show thesis by blast
qed

lemma freeze_rows_mem:
  "(sid, f) \<in> set (freeze_rows y ss d) \<longleftrightarrow>
     (\<exists>s \<in> set ss. s_id s = sid \<and> fee_of d y (map_option btrim (s_grade s)) = Some f)"
  by (induction ss) (auto simp: freeze_rows_def List.map_filter_simps split: option.splits)

lemma freeze_rows_fee: "(sid, f) \<in> set (freeze_rows y ss d) \<Longrightarrow> f \<in> set (tuition_fees d)"
  by (auto simp: freeze_rows_def fee_of_def List.map_filter_def dest: find_row_Some)

lemma tuition_ok_freeze:
  assumes ok: "tuition_ok d" and new: "frozen_from y (freeze_rows y ss d) (tuition_accounts d) new"
  shows "tuition_ok (d\<lparr>tuition_accounts := tuition_accounts d @ new\<rparr>)" (is "tuition_ok ?d")
proof -
  have paid: "paid_on ?d acc = paid_on d acc" for acc by (rule paid_on_payments) simp
  have "0 \<le> q_discount a \<and> 0 \<le> balance ?d a" if a: "a \<in> set new" for a
  proof -
    from new a obtain f where f: "(q_student a, f) \<in> set (freeze_rows y ss d)" "q_fee a = f_fee f" "q_discount a = 0"
      by (auto simp: frozen_from_def)
    have "0 < f_fee f" using freeze_rows_fee [OF f(1)] ok by (auto simp: tuition_ok_def)
    moreover have "paid_on d (q_id a) = 0" using new a by (intro paid_on_new [OF ok]) (auto simp: frozen_from_def)
    ultimately show ?thesis using f by (simp add: balance_def paid)
  qed
  moreover have "balance ?d a = balance d a" for a by (simp add: balance_def paid)
  ultimately show ?thesis using ok new unfolding tuition_ok_def frozen_from_def by auto
qed

lemma keeps_freeze [keeping]: "keeps tuition_ok (freeze p y)"
proof (rule keepsI)
  fix w r w'
  assume ok: "tuition_ok (db w)" and run: "freeze p y w = (r, w')"
  show "tuition_ok (db w')"
  proof (cases r)
    case (Inl e)
    with run ok show ?thesis by (auto simp: freeze_def bindE_err get_clock_run dest: insert_ids_err)
  next
    case (Inr k)
    with run have "freeze p y w = (Inr k, w')" by simp
    then show ?thesis using ok tuition_ok_freeze by (auto elim!: freeze_ok)
  qed
qed

lemma account_of_Some:
  "account_of d sid y = Some a \<Longrightarrow> a \<in> set (tuition_accounts d) \<and> q_student a = sid \<and> q_year a = y"
  by (auto simp: account_of_def dest: find_row_Some)

lemma freeze_ok_db:
  "freeze p y w = (Inr k, w') \<Longrightarrow> tuition_payments (db w') = tuition_payments (db w) \<and> students (db w') = students (db w) \<and>
     tuition_fees (db w') = tuition_fees (db w) \<and> settings (db w') = settings (db w)"
  by (erule freeze_ok) simp

text \<open>What a successful \<open>lockTuitionAccount\<close> returns is the stored account and the sum of its payments.\<close>

lemma lock_ok:
  assumes "lockTuitionAccount sid y cur w = (Inr (acc, fee, discount, paid), w')"
  obtains a where "account_of (db w') sid y = Some a" "acc = q_id a" "fee = q_fee a" "discount = q_discount a"
    "paid = paid_on (db w') acc" "tuition_ok (db w) \<Longrightarrow> tuition_ok (db w')"
    "tuition_payments (db w') = tuition_payments (db w)" "students (db w') = students (db w)"
    "tuition_fees (db w') = tuition_fees (db w)" "settings (db w') = settings (db w)"
    "account_of (db w) sid y \<noteq> None \<Longrightarrow> account_of (db w) sid y = Some a"
    "account_of (db w) sid y = None \<Longrightarrow> cur \<and> q_discount a = 0 \<and>
       (\<exists>s \<in> set (students (db w)). s_id s = sid \<and> fee_of (db w) y (map_option btrim (s_grade s)) \<noteq> None \<and>
          q_fee a = f_fee (the (fee_of (db w) y (map_option btrim (s_grade s)))))"
    "account_of (db w) sid y = None \<Longrightarrow> tuition_ok (db w) \<Longrightarrow> paid = 0"
proof -
  let ?p = "\<lambda>s. s_id s = sid"
  have "\<exists>w1 w2 a. db w1 = db w \<and>
      (if cur then bindE (lift_err Failed (freeze ?p y)) (\<lambda>_. ret ()) else ret ()) w1 = (Inr (), w2) \<and>
      account_of (db w2) sid y = Some a \<and> acc = q_id a \<and> fee = q_fee a \<and> discount = q_discount a \<and>
      paid = paid_on (db w2) acc \<and> db w' = db w2"
    using assms unfolding lockTuitionAccount_def
    by (auto simp: ok_iffs simp del: split_paired_Ex dest!: query_okD with_int4_laws(3)) blast
  then obtain w1 w2 a where w1: "db w1 = db w"
    and f: "(if cur then bindE (lift_err Failed (freeze ?p y)) (\<lambda>_. ret ()) else ret ()) w1 = (Inr (), w2)"
    and a: "account_of (db w2) sid y = Some a"
    and res: "acc = q_id a" "fee = q_fee a" "discount = q_discount a" "paid = paid_on (db w2) acc" "db w' = db w2"
    by blast
  have cases: "(\<exists>k. cur \<and> freeze ?p y w1 = (Inr k, w2)) \<or> (\<not> cur \<and> w2 = w1)"
    using f by (auto simp: ok_iffs split: if_splits)
  have keep: "tuition_payments (db w2) = tuition_payments (db w1) \<and> students (db w2) = students (db w1) \<and>
     tuition_fees (db w2) = tuition_fees (db w1) \<and> settings (db w2) = settings (db w1)"
    using cases freeze_ok_db by auto
  have ok: "tuition_ok (db w1) \<Longrightarrow> tuition_ok (db w2)" using cases keepsD [OF keeps_freeze] by blast
  have old: "account_of (db w1) sid y = Some a" if "account_of (db w1) sid y \<noteq> None"
    using cases a that by (auto elim!: freeze_ok simp: account_of_def find_row_append)
  have new: "cur \<and> q_discount a = 0 \<and>
       (\<exists>s \<in> set (students (db w1)). s_id s = sid \<and> fee_of (db w1) y (map_option btrim (s_grade s)) \<noteq> None \<and>
          q_fee a = f_fee (the (fee_of (db w1) y (map_option btrim (s_grade s)))))"
    if none: "account_of (db w1) sid y = None"
  proof -
    from cases a none obtain k where cur and fr: "freeze ?p y w1 = (Inr k, w2)" by auto
    from fr obtain new where d: "db w2 = (db w1)\<lparr>tuition_accounts := tuition_accounts (db w1) @ new\<rparr>"
      and fz: "frozen_from y (freeze_rows y (filter ?p (students (db w1))) (db w1)) (tuition_accounts (db w1)) new"
      by (rule freeze_ok)
    have "a \<in> set new" using account_of_Some [OF a] none d by (auto simp: account_of_def find_row_None)
    with fz obtain f where f: "(q_student a, f) \<in> set (freeze_rows y (filter ?p (students (db w1))) (db w1))"
      "q_fee a = f_fee f" "q_discount a = 0" unfolding frozen_from_def by blast
    then obtain s where "s \<in> set (students (db w1))" "s_id s = sid" "fee_of (db w1) y (map_option btrim (s_grade s)) = Some f"
      by (auto simp: freeze_rows_def List.map_filter_def)
    with f \<open>cur\<close> show ?thesis by fastforce
  qed
  have unpaid: "paid_on (db w2) (q_id a) = 0" if none: "account_of (db w1) sid y = None" and ok1: "tuition_ok (db w1)"
  proof -
    from cases a none obtain k where "freeze ?p y w1 = (Inr k, w2)" by auto
    then obtain new where d: "db w2 = (db w1)\<lparr>tuition_accounts := tuition_accounts (db w1) @ new\<rparr>"
      and fz: "frozen_from y (freeze_rows y (filter ?p (students (db w1))) (db w1)) (tuition_accounts (db w1)) new"
      by (rule freeze_ok)
    have "a \<in> set new" using account_of_Some [OF a] none d by (auto simp: account_of_def find_row_None)
    then have "q_id a \<notin> q_id ` set (tuition_accounts (db w1))" using fz by (auto simp: frozen_from_def)
    then show ?thesis using paid_on_new [OF ok1] paid_on_payments [of "db w2" "db w1"] keep by simp
  qed
  show thesis
    using a res(1-4) ok keep old new unpaid unfolding w1 res(5) [symmetric] by (intro that [of a]) simp_all
qed

lemma keeps_lock [keeping]: "keeps tuition_ok (lockTuitionAccount sid y cur)"
  unfolding lockTuitionAccount_def by (intro keeping)

lemma paid_on_append:
  "tuition_payments d' = tuition_payments d @ [m] \<Longrightarrow>
   paid_on d' acc = paid_on d acc + (if live_payment acc m then m_amount m else 0)"
  by (simp add: paid_on_def)

lemma discount_keeps_ok:
  assumes ok: "tuition_ok d" and a: "a \<in> set (tuition_accounts d)"
    and amount: "0 \<le> discount" "discount + paid_on d (q_id a) \<le> q_fee a"
  shows "tuition_ok (d\<lparr>tuition_accounts := upd_where (\<lambda>b. q_id b = q_id a)
      (\<lambda>b. b\<lparr>q_discount := discount, q_note := note, q_updated := t\<rparr>) (tuition_accounts d)\<rparr>)" (is "tuition_ok ?d")
proof -
  have ids: "map q_id (tuition_accounts ?d) = map q_id (tuition_accounts d)"
    and keys: "map year_key (tuition_accounts ?d) = map year_key (tuition_accounts d)"
    by (simp_all add: map_upd_where)
  have idset: "q_id ` set (tuition_accounts ?d) = q_id ` set (tuition_accounts d)" using ids by (metis list.set_map)
  have paid: "paid_on ?d acc = paid_on d acc" for acc by (rule paid_on_payments) simp
  have "0 \<le> q_discount b \<and> 0 \<le> balance ?d b" if b: "b \<in> set (tuition_accounts ?d)" for b
  proof -
    from b consider c where "c \<in> set (tuition_accounts d)" "q_id c = q_id a"
        "b = c\<lparr>q_discount := discount, q_note := note, q_updated := t\<rparr>"
      | "b \<in> set (tuition_accounts d)" by (auto simp: set_upd_where)
    then show ?thesis
    proof cases
      case 1
      then have "c = a" using ok a accounts_by_id.unique_row [of d c a] by (simp add: tuition_ok_def)
      with 1 amount show ?thesis by (simp add: balance_def paid)
    next
      case 2
      then show ?thesis using ok by (simp add: tuition_ok_def balance_def paid)
    qed
  qed
  then show ?thesis using ok ids keys idset unfolding tuition_ok_def unique_key_def by simp
qed

lemma keeps_write_discount: "0 \<le> discount \<Longrightarrow> keeps_ok tuition_ok (write_discount sid discount note y cur)"
proof (rule keeps_okI)
  fix w x w'
  assume d0: "0 \<le> discount" and ok: "tuition_ok (db w)" and run: "write_discount sid discount note y cur w = (Inr x, w')"
  from run obtain w0 acc fee disc paid w1 where l: "lockTuitionAccount sid y cur w0 = (Inr (acc, fee, disc, paid), w1)"
    and w0: "db w0 = db w" and g: "\<not> fee < discount + paid"
    and d: "db w' = (db w1)\<lparr>tuition_accounts := upd_where (\<lambda>a. q_id a = acc)
       (\<lambda>a. a\<lparr>q_discount := discount, q_note := note, q_updated := to_micro (clock w1)\<rparr>) (tuition_accounts (db w1))\<rparr>"
    by (auto simp: write_discount_def ok_iffs dest!: with_text_ok exec_ok(1))
  from l show "tuition_ok (db w')"
  proof (rule lock_ok)
    fix a
    assume a: "account_of (db w1) sid y = Some a" "acc = q_id a" "fee = q_fee a" "paid = paid_on (db w1) acc"
      and ok1: "tuition_ok (db w0) \<Longrightarrow> tuition_ok (db w1)"
    show "tuition_ok (db w')"
      unfolding d a(2) using ok1 ok w0 account_of_Some [OF a(1)] d0 g a by (intro discount_keeps_ok) auto
  qed
qed

lemma payment_keeps_ok:
  assumes ok: "tuition_ok d" and a: "a \<in> set (tuition_accounts d)"
    and m: "m_account m = q_id a" "0 < m_amount m" "m_amount m \<le> balance d a"
  shows "tuition_ok (d\<lparr>tuition_payments := tuition_payments d @ [m]\<rparr>)" (is "tuition_ok ?d")
proof -
  have paid: "paid_on ?d acc = paid_on d acc + (if live_payment acc m then m_amount m else 0)" for acc
    by (rule paid_on_append) simp
  have "0 \<le> balance ?d b" if b: "b \<in> set (tuition_accounts d)" for b
  proof (cases "q_id b = q_id a")
    case True
    then have "b = a" using ok a b accounts_by_id.unique_row [of d b a] by (simp add: tuition_ok_def)
    then show ?thesis using m b ok by (auto simp: balance_def paid tuition_ok_def)
  next
    case False
    then show ?thesis using m b ok by (simp add: balance_def paid live_payment_def tuition_ok_def)
  qed
  then show ?thesis using ok m a unfolding tuition_ok_def by auto
qed

lemma keeps_write_payment: "0 < amount \<Longrightarrow> keeps_ok tuition_ok (write_payment sid amount paidAt note y cur)"
proof (rule keeps_okI)
  fix w x w'
  assume amount: "0 < amount" and ok: "tuition_ok (db w)"
    and run: "write_payment sid amount paidAt note y cur w = (Inr x, w')"
  from run obtain acc fee disc paid w1 pid w2 where l: "lockTuitionAccount sid y cur w = (Inr (acc, fee, disc, paid), w1)"
    and g: "\<not> fee - disc - paid < amount"
    and ins: "insert_id Tuition_Payments (insert_payment acc amount paidAt note (clock w1)) w1 = (Inr pid, w2)"
    and w': "db w' = db w2"
    by (auto simp: write_payment_def ok_iffs dest!: with_text_ok)
  from l show "tuition_ok (db w')"
  proof (rule lock_ok)
    fix a
    assume a: "account_of (db w1) sid y = Some a" "acc = q_id a" "fee = q_fee a" "disc = q_discount a"
        "paid = paid_on (db w1) acc" and ok1: "tuition_ok (db w) \<Longrightarrow> tuition_ok (db w1)"
    have "db w2 = (db w1)\<lparr>tuition_payments := tuition_payments (db w1) @
        [\<lparr>m_id = pid, m_account = acc, m_amount = amount, m_paid_at = paidAt, m_note = note,
          m_created = to_micro (clock w1), m_void = None\<rparr>]\<rparr>"
      using ins by (auto simp: insert_payment_def elim!: insert_id_ok split: if_splits)
    then show "tuition_ok (db w')"
      unfolding w' using ok1 [OF ok] account_of_Some [OF a(1)] a g amount
      by (auto intro!: payment_keeps_ok simp: balance_def)
  qed
qed

lemma paid_after_void:
  assumes "\<forall>m \<in> set ms. 0 < m_amount m"
  shows "sum_where (live_payment acc) m_amount (upd_where p (\<lambda>m. m\<lparr>m_void := Some v\<rparr>) ms) \<le>
         sum_where (live_payment acc) m_amount ms"
  using assms by (induction ms) (auto simp: upd_where_def live_payment_def)

lemma void_keeps_ok:
  assumes ok: "tuition_ok d"
  shows "tuition_ok (d\<lparr>tuition_payments := upd_where p (\<lambda>m. m\<lparr>m_void := Some v\<rparr>) (tuition_payments d)\<rparr>)"
    (is "tuition_ok ?d")
proof -
  have "paid_on ?d acc \<le> paid_on d acc" for acc
    using ok paid_after_void [of "tuition_payments d" acc] by (simp add: paid_on_def tuition_ok_def)
  then have "balance d a \<le> balance ?d a" for a by (simp add: balance_def)
  then have "\<forall>a \<in> set (tuition_accounts d). 0 \<le> q_discount a \<and> 0 \<le> balance ?d a"
    using ok unfolding tuition_ok_def by (meson order_trans)
  moreover have "\<forall>m \<in> set (tuition_payments ?d). 0 < m_amount m \<and> m_account m \<in> q_id ` set (tuition_accounts d)"
    using ok by (auto simp: set_upd_where tuition_ok_def)
  ultimately show ?thesis using ok unfolding tuition_ok_def by simp
qed

lemma keeps_void_payment: "keeps tuition_ok (void_payment pid reason)"
  unfolding void_payment_def by (intro keeping) (auto intro: void_keeps_ok)

lemma reprice_keeps_ok:
  assumes ok: "tuition_ok d" and fee: "0 < fee"
    and no: "\<forall>a \<in> set (tuition_accounts d). now_in_grade d y g a \<longrightarrow> 0 \<le> fee - q_discount a - paid_on d (q_id a)"
    and run: "reprice y g fee now d = Inr (k, d')"
  shows "tuition_ok d'"
proof -
  let ?up = "\<lambda>a. a\<lparr>q_grade := g, q_fee := fee, q_updated := to_micro now\<rparr>"
  have d': "d' = d\<lparr>tuition_accounts := upd_where (now_in_grade d y g) ?up (tuition_accounts d)\<rparr>"
    using run by (auto simp: reprice_def split: if_splits)
  have ids: "map q_id (tuition_accounts d') = map q_id (tuition_accounts d)"
    and keys: "map year_key (tuition_accounts d') = map year_key (tuition_accounts d)"
    by (simp_all add: d' map_upd_where)
  have idset: "q_id ` set (tuition_accounts d') = q_id ` set (tuition_accounts d)" using ids by (metis list.set_map)
  have paid: "paid_on d' acc = paid_on d acc" for acc by (rule paid_on_payments) (simp add: d')
  have "0 \<le> q_discount b \<and> 0 \<le> balance d' b" if "b \<in> set (tuition_accounts d')" for b
    using that no ok unfolding d' by (auto simp: set_upd_where balance_def paid [unfolded d'] tuition_ok_def)
  then show ?thesis using ok ids keys idset unfolding tuition_ok_def unique_key_def by (simp add: d')
qed

lemma negative_balances_ok:
  "negative_balances fee as w = (Inr ns, w') \<Longrightarrow>
     db w' = db w \<and> ns = map (itoa \<circ> q_student) (filter (\<lambda>a. fee - q_discount a - paid_on (db w) (q_id a) < 0) as)"
proof (induction as arbitrary: w ns w')
  case Nil
  then show ?case by (simp add: ok_iffs)
next
  case (Cons a as)
  from Cons.prems obtain w1 ms where "db w1 = db w" and m: "negative_balances fee as w1 = (Inr ms, w')"
    and "ns = (if fee - q_discount a - paid_on (db w) (q_id a) < 0 then itoa (q_student a) # ms else ms)"
    by (auto simp: ok_iffs dest!: query_okD)
  with Cons.IH [OF m] show ?case by simp
qed

lemma apply_fee_ok:
  assumes "apply_fee meanwhile y g fee w = (Inr k, w')"
  shows "\<forall>a \<in> set (tuition_accounts (db w)). now_in_grade (db w) y g a \<longrightarrow> 0 \<le> fee - q_discount a - paid_on (db w) (q_id a)"
    "reprice y g fee (clock w) (meanwhile (db w)) = Inr (k, db w')"
proof -
  let ?as = "sort_key q_student (filter (now_in_grade (db w) y g) (tuition_accounts (db w)))"
  from assms obtain w1 w2 where w1: "db w1 = db w" and n: "negative_balances fee ?as w1 = (Inr [], w2)"
    and r: "stmt (reprice y g fee (clock w)) (w2\<lparr>db := meanwhile (db w2)\<rparr>) = (Inr k, w')"
    by (auto simp: apply_fee_def others_commit_def ok_iffs dest!: query_okD)
  note nb = negative_balances_ok [OF n]
  then have "filter (\<lambda>a. fee - q_discount a - paid_on (db w1) (q_id a) < 0) ?as = []" by simp
  then show "\<forall>a \<in> set (tuition_accounts (db w)). now_in_grade (db w) y g a \<longrightarrow> 0 \<le> fee - q_discount a - paid_on (db w) (q_id a)"
    by (auto simp: filter_empty_conv w1)
  show "reprice y g fee (clock w) (meanwhile (db w)) = Inr (k, db w')" using r nb w1 by (auto elim!: stmt_ok)
qed

lemma upsert_keeps_ok: "tuition_ok d \<Longrightarrow> 0 < fee \<Longrightarrow> upsert_fee y g fee now i d = Inr (k, d') \<Longrightarrow> tuition_ok d'"
  by (auto simp: upsert_fee_def tuition_ok_def set_upd_where balance_def paid_on_def split: option.splits if_splits)

text \<open>
  What the ledger asks of the commits in between: they keep the ledger sound, as every request does;
  the accounts that were locked keep their discount and get no further payment, which the row locks
  see to; and no account comes into the grade, which nothing in the code sees to.
\<close>

definition leaves_grade :: "(db \<Rightarrow> db) \<Rightarrow> str \<Rightarrow> str \<Rightarrow> bool" where
  "leaves_grade meanwhile y g \<longleftrightarrow>
     (\<forall>d. tuition_ok d \<longrightarrow> tuition_ok (meanwhile d) \<and>
       (\<forall>a \<in> set (tuition_accounts (meanwhile d)). now_in_grade (meanwhile d) y g a \<longrightarrow>
         (\<exists>b \<in> set (tuition_accounts d). now_in_grade d y g b \<and> q_id b = q_id a \<and> q_discount b = q_discount a \<and>
            paid_on (meanwhile d) (q_id a) \<le> paid_on d (q_id b))))"

lemma leaves_grade_ok: "leaves_grade meanwhile y g \<Longrightarrow> tuition_ok d \<Longrightarrow> tuition_ok (meanwhile d)"
  by (simp add: leaves_grade_def)

lemma leaves_grade_checked:
  assumes "leaves_grade meanwhile y g" "tuition_ok d"
    and "\<forall>b \<in> set (tuition_accounts d). now_in_grade d y g b \<longrightarrow> 0 \<le> fee - q_discount b - paid_on d (q_id b)"
  shows "\<forall>a \<in> set (tuition_accounts (meanwhile d)). now_in_grade (meanwhile d) y g a \<longrightarrow>
    0 \<le> fee - q_discount a - paid_on (meanwhile d) (q_id a)"
  using assms unfolding leaves_grade_def by fastforce

lemma keeps_set_fee:
  assumes fee: "0 < fee" and alone: "\<And>y. leaves_grade meanwhile y (fr_grade req)"
  shows "keeps_ok tuition_ok (set_fee meanwhile req fee)"
proof (rule keeps_okI)
  fix w x w'
  assume ok: "tuition_ok (db w)" and run: "set_fee meanwhile req fee w = (Inr x, w')"
  have cur: "keeps tuition_ok currentAcademicYear" unfolding currentAcademicYear_def by (intro keeping)
  from run obtain y w1 i w2 k where c: "currentAcademicYear w = (Inr y, w1)"
    and ins: "insert_id Tuition_Fees (upsert_fee y (fr_grade req) fee (clock w1)) w1 = (Inr i, w2)"
    and ap: "(if fr_apply req then apply_fee meanwhile y (fr_grade req) fee
              else bindE (others_commit meanwhile) (\<lambda>_. ret 0)) w2 = (Inr k, w')"
    by (auto simp: set_fee_def ok_iffs dest!: with_text_ok)
  have "tuition_ok (db w1)" using keepsD [OF cur ok c] .
  then have ok2: "tuition_ok (db w2)" using ins fee upsert_keeps_ok by (auto elim!: insert_id_ok)
  show "tuition_ok (db w')"
  proof (cases "fr_apply req")
    case True
    with ap have "apply_fee meanwhile y (fr_grade req) fee w2 = (Inr k, w')" by simp
    note ap = apply_fee_ok [OF this]
    show ?thesis
      using reprice_keeps_ok [OF leaves_grade_ok [OF alone ok2] fee leaves_grade_checked [OF alone ok2 ap(1)] ap(2)] .
  next
    case False
    with ap ok2 leaves_grade_ok [OF alone] show ?thesis by (auto simp: ok_iffs others_commit_def)
  qed
qed

section \<open>Every request keeps the ledger sound\<close>

lemma keeps_reads [keeping]:
  "keeps P currentAcademicYear" "keeps P (tuitionYear req)" "keeps P (tuitionRows coll low f)"
  "keeps P (tuitionDetail coll low sid y cur)"
  unfolding currentAcademicYear_def tuitionYear_def tuitionRows_def tuitionDetail_def Let_def
  by (intro keeping keeps_lift_err; auto intro!: keeping split: list.split)+

lemma keeps_tuitionWrite:
  assumes "\<And>y cur. keeps_ok tuition_ok (write y cur)"
  shows "keeps tuition_ok (tuitionWrite coll low sid req write)"
proof -
  have "keeps_ok tuition_ok (bindE currentAcademicYear (\<lambda>cur. bindE (write y (y = cur)) (\<lambda>_. ret (y = cur))))" for y
    by (intro keeps_ok_bindE keeps_keeps_ok [OF keeps_reads(1)] assms keeps_ok_ret)
  then show ?thesis unfolding tuitionWrite_def by (intro keeping) 
qed

lemma amountProblem_ok: "firstProblem [amountProblem field v mn, msg] = [] \<Longrightarrow> mn \<le> the v \<and> the v \<le> MaxTuitionAmount"
  by (auto simp: amountProblem_def u_def split: option.splits if_splits)

lemma keeps_discount_handler: "keeps tuition_ok (AdminTuitionDiscountHandler coll low b)"
proof -
  have w: "keeps tuition_ok (tuitionWrite coll low sid y (write_discount sid2 (the v) nt))"
    if "firstProblem [amountProblem ''discount'' v 0, msg] = []" for sid y sid2 v nt msg
    using amountProblem_ok [OF that] by (intro keeps_tuitionWrite keeps_write_discount) simp
  show ?thesis unfolding AdminTuitionDiscountHandler_def Let_def
    by (intro keeps_bindE keeps_of_sum keeps_guard keeps_prod keeps_guard_then) (rule w)
qed

lemma keeps_payments_handler: "keeps tuition_ok (AdminTuitionPaymentsHandler coll low b)"
proof -
  have w: "keeps tuition_ok (tuitionWrite coll low sid y (write_payment sid2 (the v) t nt))"
    if "firstProblem [amountProblem ''amount'' v 1, msg] = []" for sid y sid2 v t nt msg
    using amountProblem_ok [OF that] by (intro keeps_tuitionWrite keeps_write_payment) simp
  show ?thesis unfolding AdminTuitionPaymentsHandler_def Let_def
    by (intro keeps_bindE keeps_of_sum keeps_guard keeps_prod keeps_guard_then keeps_get_clock) (rule w)
qed

interpretation void_write: guarded_write tuition_ok "void_payment pid reason" Failed
  by unfold_locales (rule keeps_keeps_ok [OF keeps_void_payment])

lemma keeps_void_handler: "keeps tuition_ok (AdminTuitionVoidHandler coll low b)"
  unfolding AdminTuitionVoidHandler_def Let_def
  by (intro keeps_bindE keeps_of_sum keeps_guard keeps_prod keeps_NoteActivity keeps_lift_err void_write.write_keeps
      keeps_reads keeps_ret)

lemma keeps_switch_year: "keeps tuition_ok (switch_year y)"
  unfolding switch_year_def
  by (intro keeping) (simp add: tuition_ok_def balance_def paid_on_def)

interpretation year_write: guarded_write tuition_ok "switch_year y" "Inl \<circ> Failed"
  by unfold_locales (rule keeps_keeps_ok [OF keeps_switch_year])

lemma keeps_changeAcademicYear: "keeps tuition_ok (changeAcademicYear v)"
  unfolding changeAcademicYear_def Let_def
  apply (intro keeps_bindE keeps_guard keeps_catchE year_write.write_keeps keeps_NoteActivity)
  subgoal for _ e by (cases e) (simp_all add: keeps_fail keeps_ret)
  done

lemma keeps_others: "(\<And>d. P d \<Longrightarrow> P (meanwhile d)) \<Longrightarrow> keeps P (others_commit meanwhile)"
  by (simp add: keeps_def others_commit_def)

definition undisturbed :: "(db \<Rightarrow> db) \<Rightarrow> TuitionFeeRequest body \<Rightarrow> bool" where
  \<comment> \<open>no account comes into the grade of the request while it is served\<close>
  "undisturbed meanwhile b \<longleftrightarrow> (\<forall>req y. b = Body req \<longrightarrow> leaves_grade meanwhile y (TrimSpace (fr_grade req)))"

lemma keeps_setTuitionFee:
  assumes "0 < fee" "\<And>y. leaves_grade meanwhile y (fr_grade req)"
  shows "keeps tuition_ok (setTuitionFee meanwhile req fee)"
proof -
  have "keeps tuition_ok (others_commit meanwhile)" by (intro keeps_others leaves_grade_ok [OF assms(2)])
  then show ?thesis unfolding setTuitionFee_def
    by (intro keeps_catchE keeps_in_tx keeps_set_fee assms keeps_bindE keeps_fail)
qed

lemma keeps_fees_handler:
  assumes "undisturbed meanwhile b"
  shows "keeps tuition_ok (AdminTuitionFeesHandler coll meanwhile meth b)"
proof -
  have f: "keeps tuition_ok (setTuitionFee meanwhile (req\<lparr>fr_grade := TrimSpace (fr_grade req)\<rparr>) (the v))"
    if "decodeJSONBody b e = Inr req" "firstProblem [msg, amountProblem ''fee'' v 1] = []" for req v msg e
  proof -
    have b: "b = Body req" using that(1) by (cases b) (auto split: if_splits)
    have "firstProblem [amountProblem ''fee'' v 1, msg] = []" using that(2) by (simp add: firstProblem_ok_iff del: firstProblem.simps)
    then show ?thesis using amountProblem_ok assms b
      by (intro keeps_setTuitionFee) (fastforce simp: undisturbed_def)+
  qed
  have "keeps tuition_ok (put_fee meanwhile b)" unfolding put_fee_def Let_def
    by (rule keeps_of_sum_value) (intro keeps_bindE keeps_guard keeps_guard_then keeps_lift_err keeps_prod keeps_NoteActivity keeps_ret f)
  moreover have "keeps tuition_ok (list_fees coll)" unfolding list_fees_def by (intro keeping)
  ultimately show ?thesis unfolding AdminTuitionFeesHandler_def
    by (cases meth) (auto intro!: keeps_bindE keeps_ret keeps_fail)
qed

text \<open>
  The ledger over time: each step is one request to a handler of this file, whatever its body and
  whatever fails, or anything else the system does, which leaves the three tables alone.
\<close>

inductive tuition_step :: "world \<Rightarrow> world \<Rightarrow> bool" where
  discount: "tuition_step w (snd (AdminTuitionDiscountHandler coll low b w))"
| payment: "tuition_step w (snd (AdminTuitionPaymentsHandler coll low p w))"
| void: "tuition_step w (snd (AdminTuitionVoidHandler coll low v w))"
| fees: "undisturbed meanwhile f \<Longrightarrow> tuition_step w (snd (AdminTuitionFeesHandler coll meanwhile meth f w))"
| switch: "tuition_step w (snd (changeAcademicYear y w))"
| elsewhere: "tuition_accounts (db w') = tuition_accounts (db w) \<Longrightarrow> tuition_payments (db w') = tuition_payments (db w) \<Longrightarrow>
    tuition_fees (db w') = tuition_fees (db w) \<Longrightarrow> tuition_step w w'"

lemma step_keeps_ledger: "tuition_step w w' \<Longrightarrow> tuition_ok (db w) \<Longrightarrow> tuition_ok (db w')"
proof (induction rule: tuition_step.induct)
  case (elsewhere w' w)
  then show ?case using tuition_ok_cong by blast
qed (use keeps_discount_handler keeps_payments_handler keeps_void_handler keeps_fees_handler keeps_changeAcademicYear
      in \<open>simp_all add: keeps_def\<close>)

lemma steps_keep_ledger: "tuition_step\<^sup>*\<^sup>* w w' \<Longrightarrow> tuition_ok (db w) \<Longrightarrow> tuition_ok (db w')"
  by (induction rule: rtranclp_induct) (auto intro: step_keeps_ledger)

lemma remaining_nonneg:
  assumes "tuition_ok d" "tr_remaining (tuition_record d y cur s) = Some r"
  shows "0 \<le> r"
proof (cases "account_of d (s_id s) y")
  case None
  with assms(2) obtain f where "live_fee d y cur s = Some f" "r = f_fee f"
    by (auto simp: tuition_record_def Let_def)
  moreover then have "f \<in> set (tuition_fees d)"
    by (auto simp: live_fee_def fee_of_def split: option.splits if_splits dest: find_row_Some)
  ultimately show ?thesis using assms(1) by (fastforce simp: tuition_ok_def)
next
  case (Some a)
  with assms(2) have "r = balance d a" by (simp add: tuition_record_def Let_def balance_def)
  then show ?thesis using assms(1) account_of_Some [OF Some] by (simp add: tuition_ok_def)
qed

text \<open>What \<open>lockTuitionAccount\<close> works on is the remaining amount the student's row shows.\<close>

lemma lock_remaining:
  assumes l: "lockTuitionAccount sid y cur w = (Inr (acc, fee, discount, paid), w')"
    and ok: "tuition_ok (db w)" and ids: "unique_key s_id (students (db w))"
    and s: "s \<in> set (students (db w))" "s_id s = sid"
  shows "tr_remaining (tuition_record (db w) y cur s) = Some (fee - discount - paid)"
  using l
proof (rule lock_ok)
  fix a
  assume a: "acc = q_id a" "fee = q_fee a" "discount = q_discount a" "paid = paid_on (db w') acc"
    and pay: "tuition_payments (db w') = tuition_payments (db w)"
    and old: "account_of (db w) sid y \<noteq> None \<Longrightarrow> account_of (db w) sid y = Some a"
    and new: "account_of (db w) sid y = None \<Longrightarrow> cur \<and> q_discount a = 0 \<and>
       (\<exists>s \<in> set (students (db w)). s_id s = sid \<and> fee_of (db w) y (map_option btrim (s_grade s)) \<noteq> None \<and>
          q_fee a = f_fee (the (fee_of (db w) y (map_option btrim (s_grade s)))))"
    and unpaid: "account_of (db w) sid y = None \<Longrightarrow> tuition_ok (db w) \<Longrightarrow> paid = 0"
  have p: "paid = paid_on (db w) (q_id a)" using a paid_on_payments [OF pay] by simp
  show ?thesis
  proof (cases "account_of (db w) sid y")
    case None
    from new [OF None] obtain s2 where s2: "s2 \<in> set (students (db w))" "s_id s2 = sid"
      "fee_of (db w) y (map_option btrim (s_grade s2)) \<noteq> None"
      "q_fee a = f_fee (the (fee_of (db w) y (map_option btrim (s_grade s2))))" by blast
    have "s2 = s" using student_ids.unique_row [OF ids s2(1) s(1)] s2(2) s(2) by simp
    with s2 obtain f where f: "fee_of (db w) y (map_option btrim (s_grade s)) = Some f" "q_fee a = f_fee f" by auto
    show ?thesis using f None new [OF None] unpaid [OF None ok] s a
      by (simp add: tuition_record_def live_fee_def Let_def)
  next
    case (Some b)
    with old s a p show ?thesis by (simp add: tuition_record_def Let_def)
  qed
qed

lemma truncate_sel: "tr_name (TuitionRow.truncate r) = tr_name r" "tr_student (TuitionRow.truncate r) = tr_student r"
  by (simp_all add: TuitionRow.truncate_def)

lemma rows_of_query:
  "map TuitionRow.truncate (tuition_query coll low f d) =
   sort_key (\<lambda>r. (coll (tr_name r), tr_student r))
     (map (\<lambda>s. TuitionRow.truncate (tuition_record d (tf_year f) (tf_current f) s)) (filter (selected low f d) (students d)))"
  unfolding tuition_query_def
  using map_sort_key [of "TuitionRow.truncate :: tuitionRecord \<Rightarrow> TuitionRow" "\<lambda>r. (coll (tr_name r), tr_student r)"]
  by (simp add: truncate_sel comp_def)

text \<open>A year that closes: the rows that froze are those of the active students with a fee.\<close>

lemma frozen_row:
  assumes ok: "tuition_ok d" and ids: "unique_key s_id (students d)" and gr: "\<forall>f \<in> set (tuition_fees d). f_grade f \<noteq> []"
    and new: "frozen_from y (freeze_rows y (filter s_active (students d)) d) (tuition_accounts d) new"
    and d': "d' = d\<lparr>tuition_accounts := tuition_accounts d @ new, settings := st\<rparr>"
    and s: "s \<in> set (students d)"
  shows "selected low (any_student y False) d' s = selected low (any_student y True) d s \<and>
    (selected low (any_student y True) d s \<longrightarrow>
      TuitionRow.truncate (tuition_record d' y False s) = TuitionRow.truncate (tuition_record d y True s))"
proof -
  have paid: "paid_on d' acc = paid_on d acc" for acc by (rule paid_on_payments) (simp add: d')
  have acc': "account_of d' (s_id s) y = (case account_of d (s_id s) y of Some a \<Rightarrow> Some a
      | None \<Rightarrow> find_row (\<lambda>a. (q_student a, q_year a) = (s_id s, y)) new)"
  proof -
    have "tuition_accounts d' = tuition_accounts d @ new" by (simp add: d')
    then show ?thesis by (simp only: account_of_def find_row_append)
  qed
  have from_row: "\<exists>f. s_active s \<and> fee_of d y (map_option btrim (s_grade s)) = Some f \<and> q_grade q = f_grade f \<and>
      q_fee q = f_fee f \<and> q_discount q = 0 \<and> paid_on d (q_id q) = 0"
    if q: "find_row (\<lambda>a. (q_student a, q_year a) = (s_id s, y)) new = Some q" for q
  proof -
    have q': "q \<in> set new" "q_student q = s_id s" using find_row_Some [OF q] by auto
    with new obtain f where f: "(s_id s, f) \<in> set (freeze_rows y (filter s_active (students d)) d)"
      "q_grade q = f_grade f" "q_fee q = f_fee f" "q_discount q = 0" "q_id q \<notin> q_id ` set (tuition_accounts d)"
      unfolding frozen_from_def by fastforce
    from f(1) obtain s2 where s2: "s2 \<in> set (students d)" "s_active s2" "s_id s2 = s_id s"
      "fee_of d y (map_option btrim (s_grade s2)) = Some f"
      by (auto simp: freeze_rows_def List.map_filter_def)
    have "s2 = s" using student_ids.unique_row [OF ids s2(1) s s2(3)] .
    then show ?thesis using s2 f paid_on_new [OF ok f(5)] by auto
  qed
  have no_row: "\<not> (s_active s \<and> fee_of d y (map_option btrim (s_grade s)) \<noteq> None)"
    if none: "account_of d (s_id s) y = None" "find_row (\<lambda>a. (q_student a, q_year a) = (s_id s, y)) new = None"
  proof
    assume "s_active s \<and> fee_of d y (map_option btrim (s_grade s)) \<noteq> None"
    then obtain f where "(s_id s, f) \<in> set (freeze_rows y (filter s_active (students d)) d)"
      using s by (auto simp: freeze_rows_mem)
    then have "(s_id s, y) \<in> year_key ` set (tuition_accounts d @ new)" using new by (auto simp: frozen_from_def)
    then show False using none by (auto simp: account_of_def find_row_None)
  qed
  have grade: "nullif_empty (map_option btrim (s_grade s)) = Some (f_grade f)"
    if "fee_of d y (map_option btrim (s_grade s)) = Some f" for f
    using that gr by (cases "s_grade s") (auto simp: fee_of_def nullif_empty_def dest!: find_row_Some)
  show ?thesis
  proof (cases "account_of d (s_id s) y")
    case (Some a)
    then show ?thesis using acc'
      by (simp add: selected_def any_student_def tuition_record_def live_fee_def paid TuitionRow.truncate_def Let_def)
  next
    case None
    show ?thesis
    proof (cases "find_row (\<lambda>a. (q_student a, q_year a) = (s_id s, y)) new")
      case none2: None
      then show ?thesis using None acc' no_row
        by (auto simp: selected_def any_student_def tuition_record_def live_fee_def TuitionRow.truncate_def Let_def
            split: option.splits)
    next
      case (Some q)
      from from_row [OF Some] obtain f where f: "s_active s" "fee_of d y (map_option btrim (s_grade s)) = Some f"
        "q_grade q = f_grade f" "q_fee q = f_fee f" "q_discount q = 0" "paid_on d (q_id q) = 0" by blast
      then show ?thesis using None Some acc' grade [OF f(2)]
        by (simp add: selected_def any_student_def tuition_record_def live_fee_def paid TuitionRow.truncate_def Let_def)
    qed
  qed
qed

lemma stored_year_current:
  "currentAcademicYear w = (Inr y, w') \<Longrightarrow> stored_year (db w) = Some y \<and> validAcademicYear y \<and> db w' = db w"
proof -
  assume "currentAcademicYear w = (Inr y, w')"
  then obtain v w1 where q: "query stored_year w = (Inr v, w1)"
    and k: "(case v of None \<Rightarrow> fail AcademicYearMissing
      | Some y \<Rightarrow> if validAcademicYear y then ret y else fail AcademicYearMissing) w1 = (Inr y, w')"
    unfolding currentAcademicYear_def by (auto elim!: bindE_okE)
  from k have "v = Some y \<and> validAcademicYear y \<and> w' = w1"
    by (cases v) (simp_all add: ok_iffs split: if_splits)
  with query_ok(1,2) [OF q] show ?thesis by simp
qed

lemma year_changed:
  assumes "changeAcademicYear v w = (Inr (), w')"
  obtains (same) "stored_year (db w) = Some (TrimSpace v)" "db w' = db w"
  | (switched) old new st where "stored_year (db w) = Some old" "old \<noteq> TrimSpace v"
      "frozen_from old (freeze_rows old (filter s_active (students (db w))) (db w)) (tuition_accounts (db w)) new"
      "db w' = (db w)\<lparr>tuition_accounts := tuition_accounts (db w) @ new, settings := st\<rparr>"
      "st = upd_where (\<lambda>k. k_key k = u ''academic_year'') (\<lambda>k. k\<lparr>k_value := TrimSpace v\<rparr>) (settings (db w))"
proof -
  from assms obtain k w1 where
    c: "catchE (in_tx (Inl \<circ> Failed) (switch_year (TrimSpace v)))
        (\<lambda>e. case e of Inl e \<Rightarrow> fail (respondTuitionError e) | Inr _ \<Rightarrow> ret 0) w = (Inr k, w1)"
    and w': "db w' = db w1"
    by (auto simp: changeAcademicYear_def Let_def ok_iffs)
  from c consider "in_tx (Inl \<circ> Failed) (switch_year (TrimSpace v)) w = (Inr k, w1)"
    | e w2 where "in_tx (Inl \<circ> Failed) (switch_year (TrimSpace v)) w = (Inl e, w2)"
        "(case e of Inl e \<Rightarrow> fail (respondTuitionError e) | Inr _ \<Rightarrow> ret 0) w2 = ((Inr k, w1) :: (refusal + int) \<times> world)"
    by (auto simp: catchE_ok)
  then show thesis
  proof cases
    case 1
    then obtain wa wb where s: "switch_year (TrimSpace v) wa = (Inr k, wb)" "db wa = db w" "db w1 = db wb"
      by (rule in_tx_ok)
    from s(1) obtain old w3 w4 where cur: "currentAcademicYear wa = (Inr old, w3)" and ne: "old \<noteq> TrimSpace v"
      and fr: "freeze s_active old w3 = (Inr k, w4)"
      and d: "db wb = (db w4)\<lparr>settings :=
        upd_where (\<lambda>k. k_key k = u ''academic_year'') (\<lambda>k. k\<lparr>k_value := TrimSpace v\<rparr>) (settings (db w4))\<rparr>"
      by (auto simp: switch_year_def ok_iffs dest!: exec_ok(1))
    note c = stored_year_current [OF cur]
    from fr obtain new where new: "db w4 = (db w3)\<lparr>tuition_accounts := tuition_accounts (db w3) @ new\<rparr>"
      "frozen_from old (freeze_rows old (filter s_active (students (db w3))) (db w3)) (tuition_accounts (db w3)) new"
      by (rule freeze_ok)
    show thesis
      using c ne new d s w' by (intro switched [of old new]) auto
  next
    case (2 e w2)
    then have e: "e = Inr ()" "db w1 = db w2" by (auto simp: ok_iffs split: sum.splits)
    have db2: "db w2 = db w" using 2(1) by (rule in_tx_rollback)
    from 2(1) e(1) have "stored_year (db w) = Some (TrimSpace v)"
      by (auto simp: in_tx_def switch_year_def bindE_err lift_err_err guard_run ret_run ok_iffs
          dest!: stored_year_current control_ok(1) split: prod.splits sum.splits if_splits)
    then show thesis using same e db2 w' by simp
  qed
qed

lemma detail_ok:
  assumes run: "tuitionDetail coll low (s_id s) y cur w = (Inr td, w')"
    and ids: "unique_key s_id (students (db w))" and s: "s \<in> set (students (db w))"
  shows "td_row td = TuitionRow.truncate (tuition_record (db w) y cur s)"
proof -
  let ?f = "(any_student y cur)\<lparr>tf_student := Some (s_id s)\<rparr>"
  from run obtain rows w1 where rows: "tuitionRows coll low ?f w = (Inr rows, w1)"
    and k: "(case rows of
       [] \<Rightarrow> fail errTuitionStudentNotFound
     | r # _ \<Rightarrow>
         let row = TuitionRow.truncate r in
         (case accountID r of
            None \<Rightarrow> ret \<lparr>td_row = row, td_note = discountNote r, td_payments = []\<rparr>
          | Some acc \<Rightarrow>
              bindE (lift_err Failed (query (payments_of acc))) (\<lambda>ps.
              ret \<lparr>td_row = row, td_note = discountNote r, td_payments = ps\<rparr>))) w1 = (Inr td, w')"
    unfolding tuitionDetail_def by (auto elim!: bindE_okE)
  have "rows = tuition_query coll low ?f (db w)"
    using rows unfolding tuitionRows_def by (auto dest!: with_int4_laws(3) with_text_ok query_okD)
  moreover have "selected low ?f (db w) = (\<lambda>t. s_id t = s_id s)"
    by (simp add: selected_def any_student_def fun_eq_iff)
  ultimately have "rows = [tuition_record (db w) y cur s]"
    using filter_unique_key [OF ids s] by (simp add: tuition_query_def any_student_def)
  with k show ?thesis by (auto simp: Let_def ok_iffs split: option.splits)
qed

text \<open>A row without a fee has no discount and no payment, as it has no account.\<close>

definition sound_row :: "tuitionRecord \<Rightarrow> bool" where
  "sound_row r \<longleftrightarrow>
     (case tr_fee r of
        None \<Rightarrow> tr_remaining r = None \<and> \<not> tr_fee_set r \<and> tr_discount r = 0 \<and> tr_paid r = 0
      | Some f \<Rightarrow> tr_remaining r = Some (f - tr_discount r - tr_paid r) \<and> tr_fee_set r)"

lemma sound_record: "sound_row (tuition_record d y cur s)"
  by (simp add: sound_row_def tuition_record_def Let_def split: option.split)

definition tr_remaining_or_0 :: "'a TuitionRow_scheme \<Rightarrow> int" where
  "tr_remaining_or_0 r = (case tr_remaining r of None \<Rightarrow> 0 | Some x \<Rightarrow> x)"

lemma sum_rows_total:
  assumes "\<forall>r \<in> set rs. sound_row r"
  shows "TotalCollected (sum_rows rs t) = TotalCollected t + sum_list (map tr_paid rs) \<and>
     TotalDiscount (sum_rows rs t) = TotalDiscount t + sum_list (map tr_discount rs) \<and>
     TotalRemaining (sum_rows rs t) = TotalRemaining t + sum_list (map tr_remaining_or_0 rs) \<and>
     TotalFee (sum_rows rs t) = TotalFee t + sum_list (map tr_remaining_or_0 rs) +
       sum_list (map tr_discount rs) + sum_list (map tr_paid rs) \<and>
     NotSetCount (sum_rows rs t) = NotSetCount t + count_where (\<lambda>r. \<not> tr_fee_set r) rs"
  using assms
proof (induction rs arbitrary: t)
  case (Cons r rs)
  then have r: "sound_row r" and ih: "\<forall>r \<in> set rs. sound_row r" by auto
  show ?case
    using Cons.IH [OF ih] r by (cases "tr_fee r") (simp_all add: sound_row_def count_where_def Let_def tr_remaining_or_0_def)
qed (simp add: count_where_def)

section \<open>Properties\<close>

text \<open>C1. No student ever owes a negative amount, provided no fee is re-priced while an account comes
  into its grade: from a sound ledger, whatever requests the tuition handlers serve in whatever order,
  however they fail, and whatever else changes students, settings or the clock in between, no row of
  any academic year ever shows a negative remaining amount. The proviso is \<open>undisturbed\<close>: what other
  transactions commit between the balance check and the update of one saved fee keeps the ledger sound,
  leaves the accounts locked for the check their discount and no greater payments (as the locks make
  it do), and brings no further account into the grade (which no lock prevents).\<close>

theorem remaining_never_negative:
  assumes "tuition_ok (db w)" "tuition_step\<^sup>*\<^sup>* w w'"
  shows "case tr_remaining (tuition_record (db w') y cur s) of None \<Rightarrow> True | Some r \<Rightarrow> 0 \<le> r"
  using remaining_nonneg [OF steps_keep_ledger [OF assms(2,1)]] by (simp split: option.split)

definition pupil :: student where
  "pupil = \<lparr>s_id = 5, s_name = u ''C'', s_tag = u ''1'', s_created = None, s_grade = Some (u ''G''), s_section = None,
     s_avatar = None, s_parent = None, s_active = True\<rparr>"

definition ledger_db :: db where
  "ledger_db = empty_db\<lparr>students := [pupil],
     settings := [\<lparr>k_key = u ''academic_year'', k_value = u ''2025-2026''\<rparr>],
     tuition_fees := [\<lparr>f_id = 4, f_year = u ''2025-2026'', f_grade = u ''G'', f_fee = 900,
       f_updated = At (Date 2025 9 3) 0\<rparr>]\<rparr>"

definition ledger_now :: stamp where
  "ledger_now = At (Date 2025 10 5) 0"

definition a_payment :: TuitionPaymentRequest where
  "a_payment = \<lparr>pr_student = 5, pr_year = [], pr_amount = Some 300, pr_paid_at = [], pr_note = None\<rparr>"

lemma pupil_id: "s_id pupil = 5"
  by (simp add: pupil_def)

lemma ledger_simps:
  "students ledger_db = [pupil]" "tuition_accounts ledger_db = []" "tuition_payments ledger_db = []"
  "settings ledger_db = [\<lparr>k_key = u ''academic_year'', k_value = u ''2025-2026''\<rparr>]"
  "tuition_fees ledger_db = [\<lparr>f_id = 4, f_year = u ''2025-2026'', f_grade = u ''G'', f_fee = 900,
       f_updated = At (Date 2025 9 3) 0\<rparr>]"
  by (simp_all add: ledger_db_def empty_db_def)

lemma ledger_ok: "tuition_ok ledger_db"
  by (simp add: tuition_ok_def unique_key_def ledger_simps)

definition a_fee :: "int \<Rightarrow> TuitionFeeRequest" where
  "a_fee amount = \<lparr>fr_grade = u ''G'', fr_fee = Some amount, fr_apply = True\<rparr>"

definition void_all :: "db \<Rightarrow> db" where
  \<comment> \<open>what requests that void every payment commit: voiding locks the payments, not the accounts\<close>
  "void_all d = d\<lparr>tuition_payments := upd_where (\<lambda>_. True) (\<lambda>m. m\<lparr>m_void := Some (ledger_now, [])\<rparr>) (tuition_payments d)\<rparr>"

lemma void_all_leaves_grade: "leaves_grade void_all y g"
proof -
  have "paid_on (void_all d) acc \<le> paid_on d acc" if "tuition_ok d" for d acc
    using that paid_after_void [of "tuition_payments d" acc] by (simp add: void_all_def paid_on_def tuition_ok_def)
  moreover have "tuition_accounts (void_all d) = tuition_accounts d" "now_in_grade (void_all d) = now_in_grade d" for d
    by (simp_all add: void_all_def now_in_grade_def fun_eq_iff)
  moreover have "tuition_ok (void_all d)" if "tuition_ok d" for d
    unfolding void_all_def using that by (rule void_keeps_ok)
  ultimately show ?thesis unfolding leaves_grade_def by auto
qed

theorem remaining_never_negative_witness:
  "let pay = AdminTuitionPaymentsHandler (\<lambda>n. n) ascii_lower (Body a_payment);
       fee = AdminTuitionFeesHandler (\<lambda>n. n) void_all PUT (Body (a_fee 200));
       after = db (snd (fee (snd (pay (quiet ledger_db ledger_now)))))
   in case tr_remaining (tuition_record after (u ''2025-2026'') True pupil) of None \<Rightarrow> True | Some r \<Rightarrow> 0 \<le> r"
  unfolding Let_def
  by (rule remaining_never_negative [of "quiet ledger_db ledger_now"])
    (auto simp: ledger_ok undisturbed_def void_all_leaves_grade
      intro!: rtranclp.rtrancl_into_rtrancl [OF r_into_rtranclp] tuition_step.payment tuition_step.fees)


text \<open>A recorded payment lowers the remaining amount by exactly itself, and only a payment that does
  not exceed it is recorded: the detail answered shows the amount owed before, less the payment.\<close>

theorem payment_lowers_remaining:
  assumes "AdminTuitionPaymentsHandler coll low (Body req) w = (Inr (y, td), w')"
    and "tuition_ok (db w)" "unique_key s_id (students (db w))" "s \<in> set (students (db w))" "s_id s = pr_student req"
  shows "\<exists>amount owed. pr_amount req = Some amount \<and> 1 \<le> amount \<and> amount \<le> owed \<and>
     tr_remaining (tuition_record (db w) y (stored_year (db w) = Some y) s) = Some owed \<and>
     tr_remaining (td_row td) = Some (owed - amount)"
proof -
  obtain nt msg where n: "optionalNote (u ''note'') (pr_note req) = (nt, msg)" by (cases "optionalNote (u ''note'') (pr_note req)")
  let ?m = "the (pr_amount req)"
  from assms(1) obtain paidAt where fp: "firstProblem [amountProblem ''amount'' (pr_amount req) 1, msg] = []"
    and tw: "tuitionWrite coll low (pr_student req) (pr_year req) (write_payment (pr_student req) ?m paidAt nt) w = (Inr (y, td), w')"
    unfolding AdminTuitionPaymentsHandler_def Let_def by (auto simp: ok_iffs n simp del: firstProblem.simps)
  have amount: "pr_amount req = Some ?m" "1 \<le> ?m"
    using fp amountProblem_ok [OF fp] by (auto simp: amountProblem_def u_def split: option.splits if_splits)
  from tw obtain w0 w1 w2 cur w3 where w0: "db w0 = db w"
    and tx: "in_tx Failed (bindE currentAcademicYear (\<lambda>cur. bindE (write_payment (pr_student req) ?m paidAt nt y (y = cur))
        (\<lambda>_. ret (y = cur)))) w0 = (Inr cur, w3)"
    and det: "tuitionDetail coll low (pr_student req) y cur w3 = (Inr td, w')"
    unfolding tuitionWrite_def by (auto simp: ok_iffs tuitionYear_def Let_def dest!: stored_year_current split: if_splits)
  from tx obtain wa wb where b: "bindE currentAcademicYear (\<lambda>cur. bindE (write_payment (pr_student req) ?m paidAt nt y (y = cur))
        (\<lambda>_. ret (y = cur))) wa = (Inr cur, wb)" "db wa = db w0" "db w3 = db wb"
    by (rule in_tx_ok)
  from b(1) obtain yc wc wd where c: "currentAcademicYear wa = (Inr yc, wc)" "cur = (y = yc)"
    and pay: "write_payment (pr_student req) ?m paidAt nt y cur wc = (Inr (), wd)" and wd: "db wb = db wd"
    by (auto simp: ok_iffs)
  have cur: "cur = (stored_year (db w) = Some y)" "db wc = db w" using stored_year_current [OF c(1)] c(2) b w0 by auto
  from pay obtain acc fee disc paid we pid wf where l: "lockTuitionAccount (pr_student req) y cur wc = (Inr (acc, fee, disc, paid), we)"
    and g: "\<not> fee - disc - paid < ?m"
    and ins: "insert_id Tuition_Payments (insert_payment acc ?m paidAt nt (clock we)) we = (Inr pid, wf)" and wf: "db wd = db wf"
    by (auto simp: write_payment_def ok_iffs dest!: with_text_ok)
  have before: "tr_remaining (tuition_record (db w) y cur s) = Some (fee - disc - paid)"
    using lock_remaining [OF l] assms(2-5) cur(2) by simp
  from l obtain a where a: "account_of (db we) (pr_student req) y = Some a" "acc = q_id a" "fee = q_fee a" "disc = q_discount a"
      "paid = paid_on (db we) acc" "students (db we) = students (db wc)"
    by (rule lock_ok)
  have d: "db w3 = (db we)\<lparr>tuition_payments := tuition_payments (db we) @
        [\<lparr>m_id = pid, m_account = acc, m_amount = ?m, m_paid_at = paidAt, m_note = nt,
          m_created = to_micro (clock we), m_void = None\<rparr>]\<rparr>"
    using ins wf wd b(3) by (auto simp: insert_payment_def elim!: insert_id_ok split: if_splits)
  let ?p = "\<lparr>m_id = pid, m_account = acc, m_amount = ?m, m_paid_at = paidAt, m_note = nt,
          m_created = to_micro (clock we), m_void = None\<rparr>"
  have "live_payment acc ?p" "m_amount ?p = ?m" "tuition_payments (db w3) = tuition_payments (db we) @ [?p]"
    by (simp_all add: live_payment_def d)
  then have "paid_on (db w3) acc = paid + ?m" unfolding a(5) by (simp only: paid_on_append if_True)
  moreover have "account_of (db w3) (s_id s) y = Some a" using a(1) assms(5) by (simp add: d account_of_def)
  ultimately have "tr_remaining (tuition_record (db w3) y cur s) = Some (fee - disc - paid - ?m)"
    using a by (simp add: tuition_record_def Let_def)
  moreover have "td_row td = TuitionRow.truncate (tuition_record (db w3) y cur s)"
    using det assms(3-5) a(6) cur(2) by (intro detail_ok) (simp_all add: d)
  ultimately show ?thesis using before amount g cur(1)
    by (intro exI [of _ ?m] exI [of _ "fee - disc - paid"]) (simp add: TuitionRow.truncate_def)
qed

text \<open>The witness: 300 of 900 dinars, on an account the payment itself opens.\<close>

lemma ledger_year: "validAcademicYear (u ''2025-2026'')"
  by (simp add: validAcademicYear_def u_def is_digit_def digits_value_def)

lemma ledger_current:
  "faults w = [] \<Longrightarrow> settings (db w) = settings ledger_db \<Longrightarrow> currentAcademicYear w = (Inr (u ''2025-2026''), w)"
  by (simp add: currentAcademicYear_def bindE_def lift_err_run run_simps stored_year_def ledger_simps find_row_def ledger_year)

lemma ledger_date: "payment_date [] (today ledger_now) = Inr (Date 2025 10 5)"
proof -
  have v: "valid_date (Date 2025 10 5)" by (simp add: valid_date_def days_in_def)
  show ?thesis
    by (simp add: payment_date_def today_def ledger_now_def v TrimSpace_def trim_by_def yearInRange_def MinYear_def MaxYear_def)
qed

definition ledger_account :: account where
  "ledger_account = \<lparr>q_id = 1, q_student = 5, q_year = u ''2025-2026'', q_grade = u ''G'', q_fee = 900,
     q_discount = 0, q_note = None, q_updated = ledger_now\<rparr>"

definition opened_world :: world where
  "opened_world = (quiet ledger_db ledger_now)\<lparr>db := ledger_db\<lparr>tuition_accounts := [ledger_account]\<rparr>,
     serial := (\<lambda>_. 1)(Tuition_Accounts := 2)\<rparr>"

lemma ledger_freeze:
  assumes "p pupil"
  shows "freeze p (u ''2025-2026'') (quiet ledger_db ledger_now) = (Inr 1, opened_world)"
proof -
  have g: "map_option btrim (s_grade pupil) = Some (u ''G'')" by (simp add: pupil_def btrim_def trim_by_def u_def)
  have rows: "freeze_rows (u ''2025-2026'') (filter p (students ledger_db)) ledger_db = [(5, hd (tuition_fees ledger_db))]"
    using assms by (simp add: freeze_rows_def List.map_filter_simps ledger_simps g fee_of_def find_row_def pupil_id)
  have now: "to_micro ledger_now = ledger_now" by (simp add: to_micro_def ledger_now_def)
  show ?thesis
    by (simp add: freeze_def bindE_def run_simps rows)
      (simp add: ledger_simps opened_world_def ledger_account_def now quiet_def)
qed

lemma ledger_lock:
  "lockTuitionAccount 5 (u ''2025-2026'') True (quiet ledger_db ledger_now) = (Inr (1, 900, 0, 0), opened_world)"
proof -
  have one: "list_ex (\<lambda>s. s_id s = 5) (students ledger_db)" by (simp add: ledger_simps pupil_id)
  have opened: "faults opened_world = []" "account_of (db opened_world) 5 (u ''2025-2026'') = Some ledger_account"
    "paid_on (db opened_world) 1 = 0"
    by (simp_all add: opened_world_def account_of_def find_row_def ledger_account_def paid_on_def ledger_simps)
  show ?thesis
    by (simp add: lockTuitionAccount_def bindE_def run_simps lift_err_run with_int4_def ledger_freeze pupil_id one opened)
      (simp add: ledger_account_def opened)
qed

definition ledger_payment :: payment where
  "ledger_payment = \<lparr>m_id = 1, m_account = 1, m_amount = 300, m_paid_at = Date 2025 10 5, m_note = None,
     m_created = ledger_now, m_void = None\<rparr>"

definition paid_db :: db where
  "paid_db = ledger_db\<lparr>tuition_accounts := [ledger_account], tuition_payments := [ledger_payment]\<rparr>"

lemma ledger_paid:
  "\<exists>td w'. AdminTuitionPaymentsHandler (\<lambda>n. n) ascii_lower (Body a_payment) (quiet ledger_db ledger_now) =
     (Inr (u ''2025-2026'', td), w') \<and> db w' = paid_db"
proof -
  let ?w = "quiet ledger_db ledger_now" and ?y = "u ''2025-2026''"
  have p: "pr_student a_payment = 5" "pr_amount a_payment = Some 300" "pr_paid_at a_payment = []" "pr_year a_payment = []"
    "optionalNote (u ''note'') (pr_note a_payment) = (None, [])"
    by (simp_all add: a_payment_def optionalNote_def blankToNil_def)
  have amount: "firstProblem [amountProblem ''amount'' (Some 300) 1, []] = []"
    by (simp add: amountProblem_def MaxTuitionAmount_def)
  have opened: "faults opened_world = []" "clock opened_world = ledger_now" "tuition_payments (db opened_world) = []"
    "settings (db opened_world) = settings ledger_db" "students (db opened_world) = [pupil]"
    by (simp_all add: opened_world_def ledger_simps)
  obtain w1 where w1: "write_payment 5 300 (Date 2025 10 5) None ?y True ?w = (Inr (), w1)" "faults w1 = []"
      "db w1 = paid_db"
    by (simp add: write_payment_def bindE_def ledger_lock run_simps lift_err_run with_text_def opt_list_def opened
        insert_payment_def) (simp add: opened_world_def paid_db_def ledger_payment_def ledger_simps to_micro_def ledger_now_def)
  have d1: "students (db w1) = [pupil]" "settings (db w1) = settings ledger_db" by (simp_all add: w1 paid_db_def ledger_simps)
  have tx: "in_tx Failed (bindE currentAcademicYear (\<lambda>cur. bindE (write_payment 5 300 (Date 2025 10 5) None ?y (?y = cur))
        (\<lambda>_. ret (?y = cur)))) ?w = (Inr True, w1)"
    by (simp add: in_tx_run_nil bindE_def ledger_current w1(1,2) d1 run_simps)
  let ?rec = "tuition_record (db w1) ?y True pupil"
  have rows: "tuitionRows (\<lambda>n. n) ascii_lower ((any_student ?y True)\<lparr>tf_student := Some 5\<rparr>) w1 = (Inr [?rec], w1)"
    by (simp add: tuitionRows_def with_int4_def with_text_def opt_list_def any_student_def run_simps w1(2) d1 tuition_query_def
        selected_def pupil_id)
  obtain td where det: "tuitionDetail (\<lambda>n. n) ascii_lower 5 ?y True w1 = (Inr td, w1)"
    by (cases "accountID ?rec") (simp_all add: tuitionDetail_def bindE_def lift_err_run rows run_simps w1(2) Let_def)
  have ty: "tuitionYear [] ?w = (Inr (?y, True), ?w)"
    by (simp add: tuitionYear_def bindE_def lift_err_run ledger_current TrimSpace_def trim_by_def run_simps)
  have "AdminTuitionPaymentsHandler (\<lambda>n. n) ascii_lower (Body a_payment) ?w = (Inr (?y, td), w1)"
    using amount by (simp add: AdminTuitionPaymentsHandler_def bindE_def run_simps p ledger_date tuitionWrite_def ty
        lift_err_run tx det del: firstProblem.simps)
  then show ?thesis using w1(3) by blast
qed


theorem payment_lowers_remaining_witness:
  "case AdminTuitionPaymentsHandler (\<lambda>n. n) ascii_lower (Body a_payment) (quiet ledger_db ledger_now) of
     (Inl e, w') \<Rightarrow> False
   | (Inr (y, td), w') \<Rightarrow> (\<exists>amount owed. pr_amount a_payment = Some amount \<and> tr_remaining (td_row td) = Some (owed - amount))"
proof -
  let ?w = "quiet ledger_db ledger_now"
  obtain td w2 where run: "AdminTuitionPaymentsHandler (\<lambda>n. n) ascii_lower (Body a_payment) ?w = (Inr (u ''2025-2026'', td), w2)"
    using ledger_paid by blast
  have "unique_key s_id (students (db ?w))" "pupil \<in> set (students (db ?w))" "s_id pupil = pr_student a_payment"
    by (simp_all add: ledger_simps unique_key_def pupil_def a_payment_def)
  from payment_lowers_remaining [OF run _ this] show ?thesis unfolding run by (auto simp: ledger_ok)
qed

text \<open>The totals of the tuition page are those of the rows it lists: what is collected and what
  remains make up the fees less the discounts, rows without a fee count only as not set.\<close>

theorem tuition_totals_add_up:
  assumes "AdminTuitionHandler coll low q w = (Inr (y, sums, rows), w')"
  shows "TotalCollected sums = sum_list (map tr_paid rows) \<and> TotalDiscount sums = sum_list (map tr_discount rows) \<and>
     TotalRemaining sums = sum_list (map tr_remaining_or_0 rows) \<and>
     TotalFee sums - TotalDiscount sums - TotalCollected sums = TotalRemaining sums \<and>
     NotSetCount sums = count_where (\<lambda>r. \<not> tr_fee_set r) rows"
proof -
  let ?zero = "\<lparr>TotalFee = 0, TotalDiscount = 0, TotalCollected = 0, TotalRemaining = 0, NotSetCount = 0\<rparr>"
  let ?listed = "\<lambda>rs. if pa_has_remaining q = u ''true'' then filter owes rs else rs"
  have "\<exists>f w1 rs w2. tuitionRows coll low f w1 = (Inr rs, w2) \<and> sums = sum_rows (?listed rs) ?zero \<and>
      rows = map TuitionRow.truncate (?listed rs)"
    using assms unfolding AdminTuitionHandler_def Let_def
    by (auto simp: ok_iffs simp del: split_paired_Ex) blast+
  then obtain f w1 rs w2 where r: "tuitionRows coll low f w1 = (Inr rs, w2)" and sums: "sums = sum_rows (?listed rs) ?zero"
    and rows: "rows = map TuitionRow.truncate (?listed rs)" by blast
  define recs where "recs = ?listed rs"
  have "rs = tuition_query coll low f (db w1)"
    using r unfolding tuitionRows_def by (auto dest!: with_int4_laws(3) with_text_ok query_okD)
  then have recs: "set recs \<subseteq> set (tuition_query coll low f (db w1))" by (auto simp: recs_def)
  have "\<forall>r \<in> set recs. sound_row r" using recs by (auto simp: tuition_query_def sound_record)
  then show ?thesis
    using sum_rows_total [of recs "\<lparr>TotalFee = 0, TotalDiscount = 0, TotalCollected = 0, TotalRemaining = 0, NotSetCount = 0\<rparr>"]
    by (simp add: sums rows recs_def [symmetric] count_where_def filter_map comp_def TuitionRow.truncate_def tr_remaining_or_0_def [abs_def])
qed

theorem tuition_totals_add_up_witness:
  "case AdminTuitionHandler (\<lambda>n. n) ascii_lower \<lparr>pa_year = [], pa_grade = [], pa_section = [], pa_search = [],
       pa_has_remaining = []\<rparr> (quiet ledger_db ledger_now) of
     (Inl e, w') \<Rightarrow> False
   | (Inr (y, sums, rows), w') \<Rightarrow> TotalFee sums - TotalDiscount sums - TotalCollected sums = TotalRemaining sums"
proof -
  let ?q = "\<lparr>pa_year = [], pa_grade = [], pa_section = [], pa_search = [], pa_has_remaining = []\<rparr>"
  have ty: "tuitionYear [] (quiet ledger_db ledger_now) = (Inr (u ''2025-2026'', True), quiet ledger_db ledger_now)"
    by (simp add: tuitionYear_def bindE_def lift_err_run ledger_current TrimSpace_def trim_by_def run_simps)
  obtain y sums rows w' where
    run: "AdminTuitionHandler (\<lambda>n. n) ascii_lower ?q (quiet ledger_db ledger_now) = (Inr (y, sums, rows), w')"
    by (simp add: AdminTuitionHandler_def bindE_def ty run_simps lift_err_run tuitionRows_def with_int4_def with_text_def
        optional_text_def TrimSpace_def trim_by_def opt_list_def any_student_def Let_def)
  from tuition_totals_add_up [OF run] show ?thesis unfolding run by simp
qed

definition overtaking_payment :: "db \<Rightarrow> db" where
  \<comment> \<open>the payment sees the fees as committed, not the one this transaction is writing\<close>
  "overtaking_payment d =
     (db (snd (AdminTuitionPaymentsHandler (\<lambda>n. n) ascii_lower (Body a_payment)
        (quiet (d\<lparr>tuition_fees := tuition_fees ledger_db\<rparr>) ledger_now))))\<lparr>tuition_fees := tuition_fees d\<rparr>"

lemma overtaken:
  "overtaking_payment (ledger_db\<lparr>tuition_fees := fs\<rparr>) = paid_db\<lparr>tuition_fees := fs\<rparr>"
proof -
  have "ledger_db\<lparr>tuition_fees := tuition_fees ledger_db\<rparr> = ledger_db" by simp
  then show ?thesis using ledger_paid by (auto simp: overtaking_payment_def)
qed

text \<open>C14. Re-pricing can overdraw an account: a fee of 200 is saved with \<open>apply_to_existing\<close> for a grade
  whose only pupil has no account yet; a payment of 300 for that pupil, which still sees the committed fee
  of 900, commits after the accounts of the grade were locked and checked and before they are updated.
  Both requests succeed and the ledger was sound, but the pupil ends up owing a negative amount, which
  the refusal of \<open>setTuitionFee\<close> is there to prevent.\<close>

theorem repricing_can_overdraw:
  "let w = quiet ledger_db ledger_now;
       alone = AdminTuitionPaymentsHandler (\<lambda>n. n) ascii_lower (Body a_payment) w;
       both = AdminTuitionFeesHandler (\<lambda>n. n) overtaking_payment PUT (Body (a_fee 200)) w
   in tuition_ok (db w) \<and> \<not> isl (fst alone) \<and> \<not> isl (fst both) \<and>
     tr_remaining (tuition_record (db (snd both)) (u ''2025-2026'') True pupil) = Some (- 100)"
proof -
  let ?w = "quiet ledger_db ledger_now" and ?y = "u ''2025-2026''" and ?g = "u ''G''"
  define fs where "fs = [\<lparr>f_id = 4, f_year = ?y, f_grade = ?g, f_fee = 200, f_updated = ledger_now\<rparr>]"
  define w1 where "w1 = ?w\<lparr>serial := (serial ?w)(Tuition_Fees := 2), db := ledger_db\<lparr>tuition_fees := fs\<rparr>\<rparr>"
  define after where "after = paid_db\<lparr>tuition_fees := fs, tuition_accounts := [ledger_account\<lparr>q_fee := 200\<rparr>]\<rparr>"
  have now: "to_micro ledger_now = ledger_now" by (simp add: to_micro_def ledger_now_def)
  have g: "map_option btrim (s_grade pupil) = Some ?g" by (simp add: pupil_def btrim_def trim_by_def u_def)
  have g2: "\<exists>z. s_grade pupil = Some z \<and> btrim z = ?g" using g by (cases "s_grade pupil") simp_all
  have t: "TrimSpace ?g = ?g" unfolding TrimSpace_def by (rule trim_by_id) (simp add: u_def is_space_def)
  have ne: "?g \<noteq> []" "0 \<notin> set ?g" by (simp_all add: u_def)
  note plain = ne(2)
  have checks: "firstProblem [tooLong (u ''grade'') ?g MaxTuitionGrade, amountProblem ''fee'' (Some 200) 1] = []"
    by (simp add: tooLong_def amountProblem_def MaxTuitionAmount_def MaxTuitionGrade_def u_def TrimRightBlank_def trim_by_def)
  have ins: "insert_id Tuition_Fees (upsert_fee ?y ?g 200 ledger_now) ?w = (Inr 4, w1)"
    by (simp add: run_simps upsert_fee_def fee_of_def find_row_def ledger_simps upd_where_def now w1_def fs_def)
  have w1: "faults w1 = []" "db w1 = ledger_db\<lparr>tuition_fees := fs\<rparr>" "clock w1 = ledger_now"
    by (simp_all add: w1_def)
  have rep: "reprice ?y ?g 200 ledger_now (paid_db\<lparr>tuition_fees := fs\<rparr>) = Inr (1, after)"
    by (simp add: reprice_def now_in_grade_def paid_db_def after_def ledger_simps ledger_account_def pupil_id g2 upd_where_def
        count_where_def now)
  have ap: "apply_fee overtaking_payment ?y ?g 200 w1 = (Inr 1, w1\<lparr>db := after\<rparr>)"
    by (simp add: apply_fee_def bindE_def run_simps lift_err_run w1 ledger_simps others_commit_def overtaken rep)
  have set: "set_fee overtaking_payment \<lparr>fr_grade = ?g, fr_fee = Some 200, fr_apply = True\<rparr> 200 ?w =
      (Inr (?y, 4, 1), w1\<lparr>db := after\<rparr>)"
    by (simp add: set_fee_def bindE_def run_simps lift_err_run ledger_current with_text_def plain ins [simplified run_simps] ap)
  have both: "AdminTuitionFeesHandler (\<lambda>n. n) overtaking_payment PUT (Body (a_fee 200)) ?w =
      (Inr (Inr (?y, ?g, 200, 1)), w1\<lparr>db := after, noted := (u ''fee'', itoa 4, u ''year='' @ ?y @ u '' accounts='' @ itoa 1)\<rparr>)"
    using checks ne
    by (simp add: AdminTuitionFeesHandler_def put_fee_def bindE_def run_simps lift_err_run a_fee_def t setTuitionFee_def
        catchE_def in_tx_run_nil set w1 del: firstProblem.simps)
  have "tr_remaining (tuition_record after ?y True pupil) = Some (- 100)"
    by (simp add: tuition_record_def after_def account_of_def find_row_def ledger_account_def pupil_id paid_on_def
        ledger_payment_def live_payment_def paid_db_def Let_def)
  moreover have "\<not> isl (fst (AdminTuitionPaymentsHandler (\<lambda>n. n) ascii_lower (Body a_payment) ?w))"
    using ledger_paid by auto
  ultimately show ?thesis by (simp add: both ledger_ok)
qed

end
