(* ===== verification/Teachers.thy ===== *)
theory Teachers
  imports Attendance Search Phone
begin

text \<open>
  Teachers, \<open>internal/handlers/teachers.go\<close>: the admin's list, the create and replace operations with
  their validation, the daily attendance view and the suggestions of subject names. The order of names
  is the database's collation \<open>coll\<close> and its case folding is \<open>low\<close>. The \<open>INSERT\<close> and \<open>UPDATE\<close> carry every
  \<open>CHECK\<close> and \<open>UNIQUE\<close> constraint of the table, in the order PostgreSQL checks them.
\<close>

section \<open>Validation\<close>

definition TeacherActive :: str where "TeacherActive = u ''active''"

definition TeacherOnLeave :: str where "TeacherOnLeave = u ''on_leave''"

definition TeacherTransferred :: str where "TeacherTransferred = u ''transferred''"

definition TeacherRetired :: str where "TeacherRetired = u ''retired''"

definition teacherStatuses :: "str list" where
  "teacherStatuses = [TeacherActive, TeacherOnLeave, TeacherTransferred, TeacherRetired]"

definition MaxTeacherName :: nat where "MaxTeacherName = 100"

definition MaxTeacherSpecialization :: nat where "MaxTeacherSpecialization = 100"

definition MaxTeacherNotes :: nat where "MaxTeacherNotes = 500"

definition TeacherPhoneMessage :: string where
  "TeacherPhoneMessage = ''phone must be an Iraqi mobile number, for example 07XXXXXXXXX or +9647XXXXXXXXX''"

definition TeacherGenderMessage :: string where
  "TeacherGenderMessage = ''gender must be male or female''"

definition TeacherStatusMessage :: string where
  "TeacherStatusMessage = ''status must be active, on_leave, transferred or retired''"

definition TeacherRFIDTagMessage :: string where
  "TeacherRFIDTagMessage =
     ''rfid_tag must be the teacher'' @ CHR 0x27 # ''s user ID on the device: 1 to 99, digits only, not starting with 0''"

definition TeacherIDMessage :: string where
  "TeacherIDMessage = ''id must be a positive teacher id''"

fun teacherTagRE :: "str \<Rightarrow> bool" where
  "teacherTagRE [a] = (49 \<le> a \<and> a \<le> 57)"
| "teacherTagRE [a, b] = (49 \<le> a \<and> a \<le> 57 \<and> is_digit b)"
| "teacherTagRE _ = False"

record TeacherWriteRequest =
  tw_id :: int
  tw_first :: str
  tw_father :: str
  tw_grandfather :: str
  tw_phone :: str
  tw_gender :: str
  tw_status :: str
  tw_spec :: "str option"
  tw_notes :: "str option"
  tw_tag :: "str option"

definition trimTeacher :: "TeacherWriteRequest \<Rightarrow> TeacherWriteRequest" where
  "trimTeacher req =
     \<lparr>tw_id = tw_id req, tw_first = TrimSpace (tw_first req), tw_father = TrimSpace (tw_father req),
      tw_grandfather = TrimSpace (tw_grandfather req), tw_phone = TrimSpace (tw_phone req),
      tw_gender = TrimSpace (tw_gender req), tw_status = TrimSpace (tw_status req),
      tw_spec = blankToNil (tw_spec req), tw_notes = blankToNil (tw_notes req), tw_tag = blankToNil (tw_tag req)\<rparr>"

fun required_field :: "(string \<times> str) list \<Rightarrow> str" where
  "required_field [] = []"
| "required_field ((name, value) # fs) = (if value = [] then u (name @ '' is required'') else required_field fs)"

definition optionalTooLong :: "str \<Rightarrow> str option \<Rightarrow> nat \<Rightarrow> str" where
  "optionalTooLong field s mx = (case s of None \<Rightarrow> [] | Some t \<Rightarrow> tooLong field t mx)"

definition lengthProblem :: "TeacherWriteRequest \<Rightarrow> str" where
  "lengthProblem r = firstProblem
     [tooLong (u ''first_name'') (tw_first r) MaxTeacherName,
      tooLong (u ''father_name'') (tw_father r) MaxTeacherName,
      tooLong (u ''grandfather_name'') (tw_grandfather r) MaxTeacherName,
      optionalTooLong (u ''specialization'') (tw_spec r) MaxTeacherSpecialization,
      optionalTooLong (u ''notes'') (tw_notes r) MaxTeacherNotes]"

definition validateTeacher :: "TeacherWriteRequest \<Rightarrow> bool \<Rightarrow> str + TeacherWriteRequest" where
  \<comment> \<open>the first problem, or the request as trimmed and normalised in place\<close>
  "validateTeacher req update =
     (let r = trimTeacher req;
          missing = required_field [(''first_name'', tw_first r), (''father_name'', tw_father r),
            (''grandfather_name'', tw_grandfather r), (''phone'', tw_phone r), (''gender'', tw_gender r)] in
      if missing \<noteq> [] then Inl missing
      else if update \<and> tw_status r = [] then Inl (u ''status is required'')
      else let r = (if tw_status r = [] then r\<lparr>tw_status := TeacherActive\<rparr> else r) in
      case Normalize (tw_phone r) of
        None \<Rightarrow> Inl (u TeacherPhoneMessage)
      | Some canonical \<Rightarrow>
          let r = r\<lparr>tw_phone := canonical\<rparr> in
          if tw_gender r \<noteq> u ''male'' \<and> tw_gender r \<noteq> u ''female'' then Inl (u TeacherGenderMessage)
          else if tw_status r \<notin> set teacherStatuses then Inl (u TeacherStatusMessage)
          else if lengthProblem r \<noteq> [] then Inl (lengthProblem r)
          else if (case tw_tag r of None \<Rightarrow> False | Some tag \<Rightarrow> \<not> teacherTagRE tag) then Inl (u TeacherRFIDTagMessage)
          else Inr r)"

section \<open>Writing\<close>

record Teacher =
  sh_id :: int
  sh_first :: str
  sh_father :: str
  sh_grandfather :: str
  sh_full :: str
  sh_phone :: str
  sh_gender :: str
  sh_status :: str
  sh_spec :: "str option"
  sh_notes :: "str option"
  sh_tag :: "str option"
  sh_created :: str
  sh_updated :: str

definition teacherFullName :: "str \<Rightarrow> str \<Rightarrow> str \<Rightarrow> str" where
  "teacherFullName first father grandfather = first @ u '' '' @ father @ u '' '' @ grandfather"

definition scanTeacher :: "teacher \<Rightarrow> Teacher" where
  "scanTeacher t =
     \<lparr>sh_id = e_id t, sh_first = e_first t, sh_father = e_father t, sh_grandfather = e_grandfather t,
      sh_full = teacherFullName (e_first t) (e_father t) (e_grandfather t), sh_phone = e_phone t, sh_gender = e_gender t,
      sh_status = e_status t, sh_spec = e_spec t, sh_notes = e_notes t, sh_tag = e_tag t,
      sh_created = rfc3339 (e_created t), sh_updated = rfc3339 (e_updated t)\<rparr>"

definition teacher_checks :: "teacher \<Rightarrow> bool" where
  \<comment> \<open>the \<open>CHECK\<close> constraints of the table; a null passes\<close>
  "teacher_checks t \<longleftrightarrow>
     between 1 100 (e_first t) \<and> between 1 100 (e_father t) \<and> between 1 100 (e_grandfather t) \<and>
     has_prefix (e_phone t) (u ''+964'') \<and> mobile (drop 4 (e_phone t)) \<and>
     e_gender t \<in> {u ''male'', u ''female''} \<and>
     e_status t \<in> {u ''active'', u ''on_leave'', u ''transferred'', u ''retired''} \<and>
     (case e_spec t of None \<Rightarrow> True | Some s \<Rightarrow> between 1 100 s) \<and>
     (case e_notes t of None \<Rightarrow> True | Some s \<Rightarrow> between 1 500 s) \<and>
     (case e_tag t of None \<Rightarrow> True | Some s \<Rightarrow> teacherTagRE s)"

definition teacher_conflict :: "teacher \<Rightarrow> teacher list \<Rightarrow> err option" where
  \<comment> \<open>the constraint a row violates next to the other rows\<close>
  "teacher_conflict t others =
     (if \<not> teacher_checks t then Some (check_violation ''teachers_check'')
      else if e_id t \<in> e_id ` set others then Some (unique_violation ''teachers_pkey'')
      else if e_phone t \<in> e_phone ` set others then Some (unique_violation ''teachers_phone_key'')
      else if e_tag t \<noteq> None \<and> e_tag t \<in> e_tag ` set others then Some (unique_violation ''teachers_rfid_tag_key'')
      else None)"

definition teacher_row :: "TeacherWriteRequest \<Rightarrow> int \<Rightarrow> stamp \<Rightarrow> stamp \<Rightarrow> teacher" where
  "teacher_row r i created updated =
     \<lparr>e_id = i, e_first = tw_first r, e_father = tw_father r, e_grandfather = tw_grandfather r, e_phone = tw_phone r,
      e_gender = tw_gender r, e_status = tw_status r, e_spec = tw_spec r, e_notes = tw_notes r, e_tag = tw_tag r,
      e_created = created, e_updated = updated\<rparr>"

definition insert_teacher :: "TeacherWriteRequest \<Rightarrow> stamp \<Rightarrow> int \<Rightarrow> db \<Rightarrow> err + teacher option \<times> db" where
  "insert_teacher r now i d =
     (let t = teacher_row r i (to_micro now) (to_micro now) in
      case teacher_conflict t (teachers d) of
        Some e \<Rightarrow> Inl e
      | None \<Rightarrow> Inr (Some t, d\<lparr>teachers := teachers d @ [t]\<rparr>))"

definition update_teacher :: "TeacherWriteRequest \<Rightarrow> stamp \<Rightarrow> db \<Rightarrow> err + teacher option \<times> db" where
  "update_teacher r now d =
     (case find_row (\<lambda>t. e_id t = tw_id r) (teachers d) of
        None \<Rightarrow> Inr (None, d)
      | Some old \<Rightarrow>
          let t = teacher_row r (tw_id r) (e_created old) (to_micro now) in
          (case teacher_conflict t (del_where (\<lambda>t. e_id t = tw_id r) (teachers d)) of
             Some e \<Rightarrow> Inl e
           | None \<Rightarrow> Inr (Some t, d\<lparr>teachers := upd_where (\<lambda>t. e_id t = tw_id r) (\<lambda>_. t) (teachers d)\<rparr>)))"

datatype teacher_err = TagStudent | NoTeacher | TeacherFailed err

definition request_texts :: "TeacherWriteRequest \<Rightarrow> str list" where
  "request_texts r = [tw_first r, tw_father r, tw_grandfather r, tw_phone r, tw_gender r, tw_status r] @
     opt_list (tw_spec r) @ opt_list (tw_notes r) @ opt_list (tw_tag r)"

definition tag_free :: "str option \<Rightarrow> (teacher_err, unit) tx" where
  "tag_free z =
     (case z of
        None \<Rightarrow> ret ()
      | Some tag \<Rightarrow>
          bindE (lift_err TeacherFailed (with_text [tag] (query (\<lambda>d. list_ex (\<lambda>s. s_tag s = tag) (students d))))) (\<lambda>held.
          guard (\<not> held) TagStudent))"

definition store_teacher :: "TeacherWriteRequest \<Rightarrow> (err, teacher option) tx" where
  "store_teacher req =
     bindE get_clock (\<lambda>now.
     with_int4 (if tw_id req = 0 then [] else [tw_id req]) (with_text (request_texts req)
       (if tw_id req = 0 then insert_id Teachers (insert_teacher req now) else stmt (update_teacher req now))))"

definition write_teacher :: "TeacherWriteRequest \<Rightarrow> (teacher_err, Teacher) tx" where
  "write_teacher req =
     bindE (tag_free (tw_tag req)) (\<lambda>_.
     bindE (lift_err TeacherFailed (store_teacher req)) (\<lambda>row.
     bindE (of_option NoTeacher row) (\<lambda>t. ret (scanTeacher t))))"

definition writeTeacher :: "TeacherWriteRequest \<Rightarrow> (teacher_err, Teacher) tx" where
  "writeTeacher req = in_tx TeacherFailed (write_teacher req)"

definition respondTeacherWriteError :: "teacher_err \<Rightarrow> refusal" where
  "respondTeacherWriteError e =
     (case e of
        NoTeacher \<Rightarrow> Refuse 404 (u ''Teacher not found'')
      | TagStudent \<Rightarrow> Refuse 409 (u ''rfid_tag is already used by a student'')
      | TeacherFailed f \<Rightarrow>
          if f = unique_violation ''teachers_phone_key'' then Refuse 409 (u ''phone is already used by another teacher'')
          else if f = unique_violation ''teachers_rfid_tag_key''
          then Refuse 409 (u ''rfid_tag is already used by another teacher'')
          else internal_error ''Internal server error'' f)"

section \<open>Handlers\<close>

record teacher_params =
  tq_status :: str
  tq_id :: str
  tq_search :: str

definition teacher_match ::
    "(nat \<Rightarrow> nat) \<Rightarrow> str option \<Rightarrow> int option \<Rightarrow> str option \<Rightarrow> str option \<Rightarrow> teacher \<Rightarrow> bool" where
  \<comment> \<open>the \<open>WHERE\<close> clause; \<open>LIKE\<close> with a null pattern is not true\<close>
  "teacher_match low st i name digits t \<longleftrightarrow>
     (case st of None \<Rightarrow> True | Some s \<Rightarrow> e_status t = s) \<and>
     (case i of None \<Rightarrow> True | Some n \<Rightarrow> e_id t = n) \<and>
     (case name of None \<Rightarrow> True
      | Some p \<Rightarrow> ilike low (teacherFullName (e_first t) (e_father t) (e_grandfather t)) p \<or>
          (case digits of None \<Rightarrow> False | Some q \<Rightarrow> like q (e_phone t)))"

definition teacher_order :: "(str \<Rightarrow> str) \<Rightarrow> teacher \<Rightarrow> str \<times> str \<times> str \<times> int" where
  "teacher_order coll t = (coll (e_first t), coll (e_father t), coll (e_grandfather t), e_id t)"

definition optionalQueryID :: "string \<Rightarrow> str \<Rightarrow> refusal + int option" where
  "optionalQueryID msg v =
     (if v = [] then Inr None
      else case Atoi v of None \<Rightarrow> Inl (bad_request msg) | Some n \<Rightarrow> if n < 1 then Inl (bad_request msg) else Inr (Some n))"

definition listTeachers :: "(str \<Rightarrow> str) \<Rightarrow> (nat \<Rightarrow> nat) \<Rightarrow> teacher_params \<Rightarrow> (refusal, Teacher list) tx" where
  "listTeachers coll low q =
     (let st = optional_text (tq_status q); search = optional_text (tq_search q);
          name = map_option likePattern search;
          digits = Option.bind search (\<lambda>s. if searchDigits s \<noteq> [] then Some (likePattern (searchDigits s)) else None) in
      bindE (guard (case st of None \<Rightarrow> True | Some s \<Rightarrow> s \<in> set teacherStatuses) (bad_request TeacherStatusMessage)) (\<lambda>_.
      bindE (of_sum (optionalQueryID TeacherIDMessage (tq_id q))) (\<lambda>i.
      bindE (lift_err (internal_error ''Database error'')
        (with_int4 (opt_list i) (with_text (concat (map opt_list [st, name, digits]))
          (query (\<lambda>d. map scanTeacher (sort_key (teacher_order coll)
             (filter (teacher_match low st i name digits) (teachers d)))))))) (\<lambda>ts.
      bindE (guard (\<not> (i \<noteq> None \<and> ts = [])) (Refuse 404 (u ''Teacher not found''))) (\<lambda>_.
      ret ts)))))"

definition put_teacher :: "bool \<Rightarrow> TeacherWriteRequest body \<Rightarrow> (refusal, Teacher) tx" where
  \<comment> \<open>the \<open>POST\<close> and \<open>PUT\<close> cases\<close>
  "put_teacher update b =
     bindE (of_sum (decodeJSONBody b (u ''Invalid request body''))) (\<lambda>req.
     bindE (if update then bindE (guard (\<not> tw_id req < 1) (bad_request TeacherIDMessage)) (\<lambda>_.
              NoteActivity (u ''teacher'') (itoa (tw_id req)) []) else ret ()) (\<lambda>_.
     let req = (if update then req else req\<lparr>tw_id := 0\<rparr>) in
     bindE (lift_err (Refuse 400) (of_sum (validateTeacher req update))) (\<lambda>req.
     bindE (lift_err respondTeacherWriteError (writeTeacher req)) (\<lambda>t.
     bindE (if update then ret () else NoteActivity (u ''teacher'') (itoa (sh_id t)) []) (\<lambda>_.
     ret t)))))"

definition AdminTeachersHandler ::
    "(str \<Rightarrow> str) \<Rightarrow> (nat \<Rightarrow> nat) \<Rightarrow> meth \<Rightarrow> teacher_params \<Rightarrow> TeacherWriteRequest body \<Rightarrow>
     (refusal, Teacher list + Teacher) tx" where
  "AdminTeachersHandler coll low meth q b =
     (case meth of
        GET \<Rightarrow> bindE (listTeachers coll low q) (\<lambda>ts. ret (Inl ts))
      | POST \<Rightarrow> bindE (put_teacher False b) (\<lambda>t. ret (Inr t))
      | PUT \<Rightarrow> bindE (put_teacher True b) (\<lambda>t. ret (Inr t))
      | _ \<Rightarrow> fail method_not_allowed)"

record TeacherAttendanceItem =
  ti_teacher :: int
  ti_name :: str
  ti_status :: str
  ti_first :: "str option"
  ti_last :: "str option"
  ti_count :: int
  ti_not_punched :: bool

definition teacher_times :: "db \<Rightarrow> date \<Rightarrow> int \<Rightarrow> stamp list" where
  \<comment> \<open>a teacher's punches of the day, in order\<close>
  "teacher_times d day tid = sort (map h_time (filter (\<lambda>h. h_teacher h = tid \<and> on_date (h_time h) = day) (teacher_attendance_logs d)))"

definition attendance_item :: "bool \<Rightarrow> db \<Rightarrow> date \<Rightarrow> teacher \<Rightarrow> TeacherAttendanceItem" where
  "attendance_item canMiss d day t =
     (let ts = teacher_times d day (e_id t) in
      \<lparr>ti_teacher = e_id t, ti_name = teacherFullName (e_first t) (e_father t) (e_grandfather t), ti_status = e_status t,
       ti_first = (if ts = [] then None else Some (time12 (hd ts))),
       ti_last = (if 1 < length ts then Some (time12 (last ts)) else None), ti_count = int (length ts),
       ti_not_punched = (canMiss \<and> e_status t = TeacherActive \<and> ts = [])\<rparr>)"

definition arrival_key :: "db \<Rightarrow> date \<Rightarrow> teacher \<Rightarrow> bool \<times> stamp" where
  \<comment> \<open>\<open>p.first_at NULLS LAST\<close>\<close>
  "arrival_key d day t =
     (case teacher_times d day (e_id t) of [] \<Rightarrow> (True, At (Date 0 0 0) 0) | a # _ \<Rightarrow> (False, a))"

definition teacher_day_query :: "(str \<Rightarrow> str) \<Rightarrow> bool \<Rightarrow> date \<Rightarrow> db \<Rightarrow> TeacherAttendanceItem list" where
  "teacher_day_query coll canMiss day d =
     map (attendance_item canMiss d day)
       (sort_key (\<lambda>t. (arrival_key d day t, teacher_order coll t))
          (filter (\<lambda>t. teacher_times d day (e_id t) \<noteq> [] \<or> (e_status t = u ''active'' \<and> on_date (e_created t) \<le> day))
             (teachers d)))"

definition AdminTeachersAttendanceHandler ::
    "(str \<Rightarrow> str) \<Rightarrow> str \<Rightarrow> (refusal, str \<times> TeacherAttendanceItem list \<times> day_type) tx" where
  "AdminTeachersAttendanceHandler coll dateQuery =
     bindE get_clock (\<lambda>now.
     bindE (of_sum (requestedDate dateQuery now)) (\<lambda>dat.
     bindE (lift_err (internal_error ''Database error'') (DayOn dat)) (\<lambda>day.
     bindE (lift_err (internal_error ''Database error'')
       (query (teacher_day_query coll (School day \<and> dat \<le> today now) (the (parse_date dat))))) (\<lambda>items.
     ret (dat, items, day)))))"

definition AdminTeacherSpecializationsHandler :: "(str \<Rightarrow> str) \<Rightarrow> (refusal, str list) tx" where
  "AdminTeacherSpecializationsHandler coll =
     lift_err (internal_error ''Database error'')
       (query (\<lambda>d. sort_key coll (filter (\<lambda>v. v \<noteq> []) (remdups
          (map (\<lambda>p. btrim (w_subject p)) (weekly_schedules d) @
           map btrim (List.map_filter e_spec (teachers d)))))))"

section \<open>The table's constraints\<close>

definition teachers_ok :: "db \<Rightarrow> bool" where
  "teachers_ok d \<longleftrightarrow>
     (\<forall>t \<in> set (teachers d). teacher_checks t) \<and> unique_key e_id (teachers d) \<and> unique_key e_phone (teachers d) \<and>
     (\<forall>s \<in> set (teachers d). \<forall>t \<in> set (teachers d). e_tag s = e_tag t \<longrightarrow> e_tag s \<noteq> None \<longrightarrow> s = t)"

definition tags_apart :: "db \<Rightarrow> bool" where
  \<comment> \<open>no PIN belongs to a teacher and to a student\<close>
  "tags_apart d \<longleftrightarrow> (\<forall>t \<in> set (teachers d). \<forall>s \<in> set (students d). e_tag t \<noteq> Some (s_tag s))"

interpretation teacher_ids: keyed_table teachers "\<lambda>rs d. d\<lparr>teachers := rs\<rparr>" e_id
  by unfold_locales simp_all

interpretation teacher_phones: keyed_table teachers "\<lambda>rs d. d\<lparr>teachers := rs\<rparr>" e_phone
  by unfold_locales simp_all

lemma no_conflict:
  "teacher_conflict t others = None \<longleftrightarrow>
     teacher_checks t \<and> e_id t \<notin> e_id ` set others \<and> e_phone t \<notin> e_phone ` set others \<and>
     (e_tag t = None \<or> e_tag t \<notin> e_tag ` set others)"
  by (simp add: teacher_conflict_def)

lemma insert_keeps_teachers:
  assumes "teachers_ok d" "insert_teacher r now i d = Inr (z, d')"
  shows "teachers_ok d'"
proof -
  let ?t = "teacher_row r i (to_micro now) (to_micro now)"
  from assms(2) have c: "teacher_conflict ?t (teachers d) = None" and d': "d' = d\<lparr>teachers := teachers d @ [?t]\<rparr>"
    by (auto simp: insert_teacher_def Let_def split: option.splits)
  have "e_tag s = e_tag q \<longrightarrow> e_tag s \<noteq> None \<longrightarrow> s = q"
    if "s \<in> set (teachers d) \<or> s = ?t" "q \<in> set (teachers d) \<or> q = ?t" for s q
    using that assms(1) c unfolding teachers_ok_def no_conflict by (metis image_eqI)
  moreover have "\<forall>t \<in> set (teachers d'). teacher_checks t" "unique_key e_id (teachers d')" "unique_key e_phone (teachers d')"
    using assms(1) c by (simp_all add: d' teachers_ok_def no_conflict unique_key_def)
  ultimately show ?thesis by (simp add: teachers_ok_def d')
qed

lemma update_teacher_ok:
  assumes "update_teacher r now d = Inr (Some t, d')"
  obtains old where "old \<in> set (teachers d)" "e_id old = tw_id r"
    "t = teacher_row r (tw_id r) (e_created old) (to_micro now)"
    "teacher_conflict t (del_where (\<lambda>t. e_id t = tw_id r) (teachers d)) = None"
    "d' = d\<lparr>teachers := upd_where (\<lambda>t. e_id t = tw_id r) (\<lambda>_. t) (teachers d)\<rparr>"
  using assms
  by (auto simp: update_teacher_def Let_def split: option.splits dest!: find_row_Some intro: that)

lemma update_keeps_teachers:
  assumes ok: "teachers_ok d" and run: "update_teacher r now d = Inr (z, d')"
  shows "teachers_ok d'"
proof (cases z)
  case None
  with run have "d' = d" by (auto simp: update_teacher_def Let_def split: option.splits)
  with ok show ?thesis by simp
next
  case (Some t)
  let ?p = "\<lambda>t. e_id t = tw_id r"
  from run [unfolded Some] show ?thesis
  proof (rule update_teacher_ok)
    fix old
    assume t: "t = teacher_row r (tw_id r) (e_created old) (to_micro now)"
      and c: "teacher_conflict t (del_where ?p (teachers d)) = None"
      and d': "d' = d\<lparr>teachers := upd_where ?p (\<lambda>_. t) (teachers d)\<rparr>"
    have u: "unique_key e_id (teachers d)" "unique_key e_phone (teachers d)" using ok by (simp_all add: teachers_ok_def)
    have n: "count_where ?p (teachers d) \<le> 1" using count_key_le_1 [OF u(1)] .
    have "unique_key e_id (teachers d')" "unique_key e_phone (teachers d')"
      using u n c by (auto simp: d' unique_key_def no_conflict intro!: distinct_upd_const)
    moreover have "\<forall>t \<in> set (teachers d'). teacher_checks t"
      using ok c by (auto simp: d' set_upd_where teachers_ok_def no_conflict)
    moreover have "\<forall>s \<in> set (teachers d'). \<forall>q \<in> set (teachers d'). e_tag s = e_tag q \<longrightarrow> e_tag s \<noteq> None \<longrightarrow> s = q"
    proof (intro ballI)
      fix s q
      assume "s \<in> set (teachers d')" "q \<in> set (teachers d')"
      then have "s = t \<or> s \<in> set (del_where ?p (teachers d))" "q = t \<or> q \<in> set (del_where ?p (teachers d))"
        by (auto simp: d' set_upd_where)
      moreover have "e_tag s = e_tag q \<longrightarrow> e_tag s \<noteq> None \<longrightarrow> s = q"
        if "s \<in> set (del_where ?p (teachers d))" "q \<in> set (del_where ?p (teachers d))"
        using that ok unfolding teachers_ok_def by simp
      ultimately show "e_tag s = e_tag q \<longrightarrow> e_tag s \<noteq> None \<longrightarrow> s = q"
        using c unfolding no_conflict by (metis image_eqI)
    qed
    ultimately show ?thesis by (simp add: teachers_ok_def)
  qed
qed

lemma keeps_store_teacher: "keeps teachers_ok (store_teacher r)"
  unfolding store_teacher_def
  by (intro keeping) (auto intro: insert_keeps_teachers update_keeps_teachers)

lemma tag_free_ok:
  assumes "tag_free z w = (Inr x, w')"
  shows "db w' = db w" "z = Some tag \<Longrightarrow> tag \<notin> s_tag ` set (students (db w))"
  using assms by (auto simp: tag_free_def ok_iffs list_ex_iff split: option.splits dest!: query_okD with_text_ok)

lemma store_teacher_ok:
  assumes "store_teacher r w = (Inr z, w')"
  shows "students (db w') = students (db w)"
    "set (teachers (db w')) \<subseteq> set (teachers (db w)) \<union> {t. z = Some t}" "z = Some t \<Longrightarrow> e_tag t = tw_tag r"
proof -
  have i: "insert_teacher r now i d = Inr (z, d') \<Longrightarrow> students d' = students d \<and>
      set (teachers d') \<subseteq> set (teachers d) \<union> {t. z = Some t} \<and> (z = Some t \<longrightarrow> e_tag t = tw_tag r)" for now i d d'
    by (auto simp: insert_teacher_def Let_def teacher_row_def split: option.splits)
  have u: "update_teacher r now d = Inr (z, d') \<Longrightarrow> students d' = students d \<and>
      set (teachers d') \<subseteq> set (teachers d) \<union> {t. z = Some t} \<and> (z = Some t \<longrightarrow> e_tag t = tw_tag r)" for now d d'
    by (auto simp: update_teacher_def Let_def teacher_row_def set_upd_where split: option.splits)
  have "students (db w') = students (db w) \<and>
      set (teachers (db w')) \<subseteq> set (teachers (db w)) \<union> {t. z = Some t} \<and> (z = Some t \<longrightarrow> e_tag t = tw_tag r)"
    using assms i u
    by (auto simp: store_teacher_def ok_iffs split: if_splits dest!: with_int4_laws(3) with_text_ok
        elim!: insert_id_ok stmt_ok) blast+
  then show "students (db w') = students (db w)"
    "set (teachers (db w')) \<subseteq> set (teachers (db w)) \<union> {t. z = Some t}" "z = Some t \<Longrightarrow> e_tag t = tw_tag r"
    by blast+
qed

lemma stored_row:
  assumes "store_teacher r w = (Inr (Some t), w')"
  shows "t \<in> set (teachers (db w'))"
proof -
  have i: "insert_teacher r now i d = Inr (Some t, d') \<Longrightarrow> t \<in> set (teachers d')" for now i d d'
    by (auto simp: insert_teacher_def Let_def split: option.splits)
  have u: "update_teacher r now d = Inr (Some t, d') \<Longrightarrow> t \<in> set (teachers d')" for now d d'
    by (auto simp: set_upd_where elim!: update_teacher_ok)
  show ?thesis
    using assms i u
    by (auto simp: store_teacher_def ok_iffs split: if_splits dest!: with_int4_laws(3) with_text_ok elim!: insert_id_ok stmt_ok)
qed

lemma keeps_apart: "keeps_ok tags_apart (write_teacher r)"
proof (rule keeps_okI)
  fix w x w'
  assume apart: "tags_apart (db w)" and run: "write_teacher r w = (Inr x, w')"
  from run obtain w1 v t where s: "tag_free (tw_tag r) w = (Inr v, w1)" "store_teacher r w1 = (Inr (Some t), w')"
    by (auto simp: write_teacher_def ok_iffs)
  have e: "e_tag t = tw_tag r" "students (db w') = students (db w)"
    and sub: "set (teachers (db w')) \<subseteq> set (teachers (db w)) \<union> {t}"
    using store_teacher_ok [OF s(2)] tag_free_ok(1) [OF s(1)] by auto
  show "tags_apart (db w')"
    unfolding tags_apart_def e(2)
  proof (intro ballI)
    fix q p
    assume q: "q \<in> set (teachers (db w'))" and p: "p \<in> set (students (db w))"
    show "e_tag q \<noteq> Some (s_tag p)"
    proof (cases "q = t")
      case True
      with p e(1) tag_free_ok(2) [OF s(1), of "s_tag p"] show ?thesis by auto
    next
      case False
      with q sub have "q \<in> set (teachers (db w))" by auto
      with p apart show ?thesis by (simp add: tags_apart_def)
    qed
  qed
qed

lemma keeps_write_teacher: "keeps_ok teachers_ok (write_teacher r)"
proof (rule keeps_keeps_ok)
  have "keeps teachers_ok (tag_free z)" for z
    unfolding tag_free_def
    by (intro keeps_option keeps_ret keeps_bindE keeps_lift_err keeps_with_text keeps_query keeps_guard)
  then show "keeps teachers_ok (write_teacher r)"
    unfolding write_teacher_def
    by (intro keeps_bindE keeps_lift_err keeps_store_teacher keeps_of_option keeps_ret)
qed

interpretation teacher_write: guarded_write teachers_ok "write_teacher r" TeacherFailed
  by unfold_locales (rule keeps_write_teacher)

interpretation tag_write: guarded_write tags_apart "write_teacher r" TeacherFailed
  by unfold_locales (rule keeps_apart)

lemma keeps_put_teacher: "keeps P (put_teacher update b)" if "\<And>r. keeps P (writeTeacher r)"
  unfolding put_teacher_def Let_def
  by (intro keeps_bindE keeps_of_sum keeps_guard keeps_if keeps_NoteActivity keeps_ret keeps_lift_err that)

lemma keeps_listTeachers: "keeps P (listTeachers coll low q)"
  unfolding listTeachers_def Let_def
  by (intro keeps_bindE keeps_of_sum keeps_guard keeps_lift_err keeps_with_text with_int4_laws(1) keeps_query keeps_ret)

lemma keeps_teachers_handler:
  assumes "\<And>r. keeps P (writeTeacher r)"
  shows "keeps P (AdminTeachersHandler coll low meth q b)"
  using assms unfolding AdminTeachersHandler_def
  by (cases meth) (auto intro!: keeps_bindE keeps_ret keeps_fail keeps_put_teacher keeps_listTeachers)

lemma teachers_handler_keeps:
  "keeps teachers_ok (AdminTeachersHandler coll low meth q b)" "keeps tags_apart (AdminTeachersHandler coll low meth q b)"
  by (rule keeps_teachers_handler, simp add: writeTeacher_def teacher_write.write_keeps tag_write.write_keeps)+

section \<open>What validation gives\<close>

lemma required_ok: "required_field fs = [] \<longleftrightarrow> (\<forall>(name, v) \<in> set fs. v \<noteq> [])"
  by (induction fs rule: required_field.induct) auto

lemma validate_ok:
  assumes "validateTeacher req update = Inr r"
  obtains canonical where "Normalize (TrimSpace (tw_phone req)) = Some canonical" "tw_phone r = canonical"
    "tw_id r = tw_id req" "tw_first r = TrimSpace (tw_first req)" "tw_father r = TrimSpace (tw_father req)"
    "tw_grandfather r = TrimSpace (tw_grandfather req)" "tw_gender r = TrimSpace (tw_gender req)"
    "tw_spec r = blankToNil (tw_spec req)" "tw_notes r = blankToNil (tw_notes req)" "tw_tag r = blankToNil (tw_tag req)"
    "tw_first r \<noteq> []" "tw_father r \<noteq> []" "tw_grandfather r \<noteq> []" "tw_gender r \<in> {u ''male'', u ''female''}"
    "tw_status r \<in> set teacherStatuses" "lengthProblem r = []"
    "\<And>tag. tw_tag r = Some tag \<Longrightarrow> teacherTagRE tag"
proof -
  let ?r = "trimTeacher req"
  let ?s = "if tw_status ?r = [] then ?r\<lparr>tw_status := TeacherActive\<rparr> else ?r"
  have miss: "required_field [(''first_name'', tw_first ?r), (''father_name'', tw_father ?r),
            (''grandfather_name'', tw_grandfather ?r), (''phone'', tw_phone ?r), (''gender'', tw_gender ?r)] = []"
    using assms unfolding validateTeacher_def Let_def by (metis Inl_Inr_False)
  obtain c where c: "Normalize (tw_phone ?s) = Some c"
    using assms unfolding validateTeacher_def Let_def
    by (cases "Normalize (tw_phone ?s)") (simp_all split: if_splits)
  let ?q = "?s\<lparr>tw_phone := c\<rparr>"
  have k: "tw_gender ?q \<in> {u ''male'', u ''female''} \<and> tw_status ?q \<in> set teacherStatuses \<and> lengthProblem ?q = [] \<and>
      \<not> (case tw_tag ?q of None \<Rightarrow> False | Some tag \<Rightarrow> \<not> teacherTagRE tag) \<and> r = ?q"
    using assms c miss unfolding validateTeacher_def Let_def
    by (simp del: required_field.simps split: if_splits)
  have f: "tw_first r = tw_first ?r" "tw_father r = tw_father ?r" "tw_grandfather r = tw_grandfather ?r"
    "tw_gender r = tw_gender ?r" "tw_spec r = tw_spec ?r" "tw_notes r = tw_notes ?r" "tw_tag r = tw_tag ?r" "tw_id r = tw_id ?r"
    using k by auto
  show thesis
    by (rule that [of c]) (use c k f miss in \<open>auto simp: trimTeacher_def required_ok split: if_splits\<close>)
qed

lemma TrimRightBlank_trimmed: "TrimSpace s = s \<Longrightarrow> TrimRightBlank s = s"
proof (cases s rule: rev_cases)
  case (snoc xs x)
  assume "TrimSpace s = s"
  then have "\<not> is_space (last (trim_by is_space s))"
    using trim_by_ends [of is_space s] snoc by (simp add: TrimSpace_def)
  then have "x \<noteq> 32" using \<open>TrimSpace s = s\<close> snoc by (auto simp: TrimSpace_def is_space_def)
  with snoc show ?thesis by (simp add: TrimRightBlank_def)
qed (simp add: TrimRightBlank_def)

lemma trimmed_short: "tooLong f (TrimSpace s) n = [] \<Longrightarrow> TrimSpace s \<noteq> [] \<Longrightarrow> between 1 n (TrimSpace s)"
  by (simp add: tooLong_ok_iff TrimRightBlank_trimmed between_def Suc_le_eq)

lemma optional_short:
  "optionalTooLong f (blankToNil z) n = [] \<Longrightarrow> blankToNil z = Some s \<Longrightarrow> between 1 n s"
  using trimmed_short
  by (auto simp: blankToNil_def optionalTooLong_def bind_eq_Some_conv Let_def simp flip: One_nat_def split: if_splits)

lemma canonical_phone: "Normalize raw = Some c \<Longrightarrow> has_prefix c (u ''+964'') \<and> mobile (drop 4 c)"
  by (auto simp: Normalize_iff) (simp add: u_def)

lemma validated_checks: "validateTeacher req update = Inr r \<Longrightarrow> teacher_checks (teacher_row r i a b)"
proof (erule validate_ok)
  fix c
  assume c: "Normalize (TrimSpace (tw_phone req)) = Some c" "tw_phone r = c"
    and n: "tw_first r = TrimSpace (tw_first req)" "tw_father r = TrimSpace (tw_father req)"
      "tw_grandfather r = TrimSpace (tw_grandfather req)" "tw_first r \<noteq> []" "tw_father r \<noteq> []" "tw_grandfather r \<noteq> []"
    and o: "tw_spec r = blankToNil (tw_spec req)" "tw_notes r = blankToNil (tw_notes req)"
    and g: "tw_gender r \<in> {u ''male'', u ''female''}" "tw_status r \<in> set teacherStatuses"
    and l: "lengthProblem r = []" and tag: "\<And>tag. tw_tag r = Some tag \<Longrightarrow> teacherTagRE tag"
  have t: "tooLong (u ''first_name'') (tw_first r) 100 = []" "tooLong (u ''father_name'') (tw_father r) 100 = []"
    "tooLong (u ''grandfather_name'') (tw_grandfather r) 100 = []"
    "optionalTooLong (u ''specialization'') (tw_spec r) 100 = []" "optionalTooLong (u ''notes'') (tw_notes r) 500 = []"
    using l by (simp_all add: lengthProblem_def firstProblem_ok_iff MaxTeacherName_def MaxTeacherSpecialization_def
      MaxTeacherNotes_def del: firstProblem.simps)
  have names: "between 1 100 (tw_first r)" "between 1 100 (tw_father r)" "between 1 100 (tw_grandfather r)"
    using t(1-3) n trimmed_short by metis+
  have opts: "tw_spec r = Some s \<Longrightarrow> between 1 100 s" "tw_notes r = Some s \<Longrightarrow> between 1 500 s" for s
    using t(4,5) o optional_short by metis+
  have st: "tw_status r \<in> {u ''active'', u ''on_leave'', u ''transferred'', u ''retired''}"
    using g(2) unfolding teacherStatuses_def TeacherActive_def TeacherOnLeave_def TeacherTransferred_def TeacherRetired_def
    by (simp del: u_inject)
  show ?thesis
    unfolding teacher_checks_def teacher_row_def teacher.simps
    using names opts st g(1) canonical_phone [OF c(1)] c(2) tag by (auto split: option.split simp del: u_inject)
qed

section \<open>Failures of a write\<close>

lemma plain_TrimSpace: "0 \<notin> set s \<Longrightarrow> 0 \<notin> set (TrimSpace s)"
  using set_trim_by [of is_space s] by (auto simp: TrimSpace_def)

lemma plain_blankToNil: "plain_texts (opt_list z) \<Longrightarrow> plain_texts (opt_list (blankToNil z))"
  by (cases z) (auto simp: plain_texts_def opt_list_def blankToNil_def Let_def dest: plain_TrimSpace)

lemma plain_phone: "Normalize raw = Some c \<Longrightarrow> 0 \<notin> set c"
proof -
  assume "Normalize raw = Some c"
  then obtain s where s: "mobile s" "c = u ''+964'' @ s" by (auto simp: Normalize_iff)
  have "\<forall>x \<in> set s. is_digit x" using mobile_digits [OF s(1)] by (simp add: list_all_iff)
  then have "0 \<notin> set s" by (auto simp: is_digit_def)
  with s(2) show ?thesis by (simp add: literals)
qed

lemma validated_plain:
  assumes "validateTeacher req update = Inr r" "plain_texts (request_texts req)"
  shows "plain_texts (request_texts r)"
  using assms(1)
proof (rule validate_ok)
  fix c
  assume "Normalize (TrimSpace (tw_phone req)) = Some c" "tw_phone r = c"
    and s: "tw_first r = TrimSpace (tw_first req)" "tw_father r = TrimSpace (tw_father req)"
      "tw_grandfather r = TrimSpace (tw_grandfather req)" "tw_gender r = TrimSpace (tw_gender req)"
      "tw_spec r = blankToNil (tw_spec req)" "tw_notes r = blankToNil (tw_notes req)" "tw_tag r = blankToNil (tw_tag req)"
    and st: "tw_status r \<in> set teacherStatuses"
  then have ph: "0 \<notin> set (tw_phone r)" using plain_phone by auto
  have "0 \<notin> set (tw_status r)"
    using st by (auto simp: teacherStatuses_def TeacherActive_def TeacherOnLeave_def TeacherTransferred_def
      TeacherRetired_def u_def)
  moreover have "plain_texts (opt_list (tw_spec r))" "plain_texts (opt_list (tw_notes r))" "plain_texts (opt_list (tw_tag r))"
    using assms(2) s(5-7) by (simp_all only: request_texts_def plain_texts_append plain_blankToNil)
  moreover have "0 \<notin> set (tw_first r)" "0 \<notin> set (tw_father r)" "0 \<notin> set (tw_grandfather r)" "0 \<notin> set (tw_gender r)"
    using assms(2) s(1-4) by (simp_all add: request_texts_def plain_texts_def plain_TrimSpace)
  ultimately show ?thesis using ph by (simp add: request_texts_def plain_texts_def)
qed

definition taken_or_missing :: "teacher_err \<Rightarrow> bool" where
  "taken_or_missing e \<longleftrightarrow> e \<in> {TagStudent, NoTeacher, TeacherFailed (unique_violation ''teachers_phone_key''),
     TeacherFailed (unique_violation ''teachers_rfid_tag_key'')}"

lemma taken_or_missing_status: "taken_or_missing e \<Longrightarrow> status_of (Inl (respondTeacherWriteError e) :: 'a reply) \<in> {404, 409}"
  by (auto simp: taken_or_missing_def respondTeacherWriteError_def unique_violation_def)

lemma conflict_only_taken:
  assumes "teacher_conflict t others = Some e" "teacher_checks t" "e_id t \<notin> e_id ` set others"
  shows "taken_or_missing (TeacherFailed e)"
  using assms by (auto simp: teacher_conflict_def taken_or_missing_def split: if_splits)

lemma insert_only_taken:
  assumes "insert_teacher r now i d = Inl e" "\<And>a b. teacher_checks (teacher_row r i a b)" "i \<notin> e_id ` set (teachers d)"
  shows "taken_or_missing (TeacherFailed e)"
  using assms
  by (auto simp: insert_teacher_def Let_def teacher_row_def split: option.splits elim!: conflict_only_taken)

lemma update_only_taken:
  assumes "update_teacher r now d = Inl e" "\<And>a b. teacher_checks (teacher_row r (tw_id r) a b)"
  shows "taken_or_missing (TeacherFailed e)"
proof -
  from assms(1) obtain old :: teacher where
    "teacher_conflict (teacher_row r (tw_id r) (e_created old) (to_micro now))
       (del_where (\<lambda>t. e_id t = tw_id r) (teachers d)) = Some e"
    by (auto simp: update_teacher_def Let_def split: option.splits)
  then show ?thesis by (rule conflict_only_taken) (use assms(2) in \<open>auto simp: teacher_row_def\<close>)
qed

lemma store_only_taken:
  assumes "store_teacher r w = (Inl e, w')" "faults w = []" "plain_texts (request_texts r)" "0 \<le> tw_id r" "tw_id r < 2 ^ 31"
    and "\<And>i a b. teacher_checks (teacher_row r i a b)" "serial w Teachers \<notin> e_id ` set (teachers (db w))"
  shows "taken_or_missing (TeacherFailed e)"
proof -
  have n: "with_int4 (if tw_id r = 0 then [] else [tw_id r]) m = m" for m :: "(err, teacher option) tx"
    using assms(4,5) by (simp add: with_int4_def)
  show ?thesis
    using assms insert_only_taken update_only_taken
    by (fastforce simp: store_teacher_def n with_plain_texts bindE_def run_simps split: if_splits sum.splits)
qed

lemma store_keeps_faults: "store_teacher r w = (x, w') \<Longrightarrow> faults w = [] \<Longrightarrow> faults w' = []"
  by (auto simp: store_teacher_def with_int4_def with_text_def bindE_def run_simps split: if_splits sum.splits)

lemma write_only_taken:
  assumes run: "writeTeacher r w = (Inl e, w')" and w: "faults w = []" "plain_texts (request_texts r)"
    "0 \<le> tw_id r" "tw_id r < 2 ^ 31"
    and c: "\<And>i a b. teacher_checks (teacher_row r i a b)" and s: "serial w Teachers \<notin> e_id ` set (teachers (db w))"
  shows "taken_or_missing e"
proof -
  have tag: "tag_free (tw_tag r) w = (Inr (), w) \<or> tag_free (tw_tag r) w = (Inl TagStudent, w)"
  proof (cases "tw_tag r")
    case (Some tag)
    then have "plain_texts [tag]" using w(2) by (simp add: request_texts_def plain_texts_def opt_list_def)
    with Some w(1) show ?thesis by (simp add: tag_free_def with_plain_texts bindE_def run_simps lift_err_run)
  qed (simp add: tag_free_def run_simps)
  show ?thesis
  proof (cases "store_teacher r w")
    case (Pair z w1)
    then have f: "faults w1 = []" using w(1) by (rule store_keeps_faults)
    show ?thesis
      using run tag Pair f store_only_taken [OF _ w c s] w(1)
      by (cases z)
        (auto simp: writeTeacher_def write_teacher_def in_tx_run_nil bindE_def lift_err_run run_simps taken_or_missing_def
          split: option.splits)
  qed
qed

section \<open>Properties\<close>

text \<open>C7. Whatever is sent to \<open>/api/admin/teachers\<close> and whatever fails, the rows of the teacher table stay
  within every \<open>CHECK\<close> constraint, no two teachers share an id, a phone number or a device user id, and no
  teacher gets a device user id a student holds.\<close>

theorem teacher_table_typed:
  assumes "teachers_ok (db w)" "tags_apart (db w)"
  shows "teachers_ok (db (snd (AdminTeachersHandler coll low meth q b w))) \<and>
    tags_apart (db (snd (AdminTeachersHandler coll low meth q b w)))"
  using assms teachers_handler_keeps by (simp add: keeps_def)

text \<open>When no statement fails, a create or replace request without NUL characters is answered 200, 400,
  404 or 409: validation lets nothing through that a \<open>CHECK\<close> constraint would refuse, so the only
  database errors left are the two unique keys, and each has its message.\<close>

theorem teacher_write_never_500:
  assumes w: "faults w = []" "\<forall>t \<in> set (teachers (db w)). e_id t < serial w Teachers"
    and req: "plain_texts (request_texts req)" "tw_id req < 2 ^ 31" "meth \<in> {POST, PUT}"
  shows "status_of (fst (AdminTeachersHandler coll low meth q (Body req) w)) \<in> {200, 400, 404, 409}"
proof -
  have put: "status_of (fst (put_teacher update (Body req) w)) \<in> {200, 400, 404, 409}" for update
  proof (cases "update \<and> tw_id req < 1")
    case True
    then show ?thesis by (simp add: put_teacher_def bindE_def run_simps bad_request_def)
  next
    case False
    let ?q = "if update then req else req\<lparr>tw_id := 0\<rparr>"
    obtain w1 where w1: "faults w1 = []" "db w1 = db w" "serial w1 = serial w"
      and k: "put_teacher update (Body req) w =
        bindE (lift_err (Refuse 400) (of_sum (validateTeacher ?q update))) (\<lambda>req.
        bindE (lift_err respondTeacherWriteError (writeTeacher req)) (\<lambda>t.
        bindE (if update then ret () else NoteActivity (u ''teacher'') (itoa (sh_id t)) []) (\<lambda>_. ret t))) w1"
    proof
      let ?w = "if update then w\<lparr>noted := (u ''teacher'', itoa (tw_id req), [])\<rparr> else w"
      show "faults ?w = []" "db ?w = db w" "serial ?w = serial w" using w(1) by simp_all
      show "put_teacher update (Body req) w =
        bindE (lift_err (Refuse 400) (of_sum (validateTeacher ?q update))) (\<lambda>req.
        bindE (lift_err respondTeacherWriteError (writeTeacher req)) (\<lambda>t.
        bindE (if update then ret () else NoteActivity (u ''teacher'') (itoa (sh_id t)) []) (\<lambda>_. ret t))) ?w"
        using False by (simp add: put_teacher_def bindE_def [of "of_sum _"] bindE_def [of "guard _ _"]
          bindE_def [of "NoteActivity _ _ _"] bindE_def [of "ret _"] run_simps Let_def) (simp add: bindE_def run_simps)
    qed
    have q: "0 \<le> tw_id ?q" "tw_id ?q < 2 ^ 31" "plain_texts (request_texts ?q)"
      using False req(1,2) by (cases update; simp add: request_texts_def)+
    show ?thesis
    proof (cases "validateTeacher ?q update")
      case (Inl msg)
      then show ?thesis unfolding k by (simp add: bindE_def lift_err_run run_simps)
    next
      case (Inr r)
      have i: "tw_id r = tw_id ?q" using Inr by (rule validate_ok)
      obtain z w2 where z: "writeTeacher r w1 = (z, w2)" by fastforce
      have fresh: "serial w1 Teachers \<notin> e_id ` set (teachers (db w1))" using w(2) w1 by auto
      have t: "taken_or_missing e" if "z = Inl e" for e
        by (rule write_only_taken [of r w1])
          (use z that w1 validated_plain [OF Inr q(3)] validated_checks [OF Inr] fresh q i in simp_all)
      show ?thesis
        using Inr z taken_or_missing_status [OF t]
        unfolding k by (cases z) (auto simp: bindE_def lift_err_run run_simps)
    qed
  qed
  have e: "status_of (Inl x :: (Teacher list + Teacher) reply) = status_of (Inl x :: Teacher reply)" for x
    by (cases x) simp
  show ?thesis
    using req(3) put [of False] put [of True]
    by (auto simp: AdminTeachersHandler_def bindE_alt [of "put_teacher _ _"] run_simps e split: sum.splits)
qed

text \<open>What a create or replace answers is what the database holds: right afterwards, a search by the id it
  returned finds exactly that teacher, with every field as shown.\<close>

theorem teacher_read_back:
  assumes ok: "teachers_ok (db w)"
    and run: "AdminTeachersHandler coll low meth q b w = (Inr (Inr t), w')"
    and w': "faults w' = []" and i: "1 \<le> sh_id t" "sh_id t < 2 ^ 31"
  shows "AdminTeachersHandler coll low GET \<lparr>tq_status = [], tq_id = itoa (sh_id t), tq_search = []\<rparr> b' w' = (Inr (Inl [t]), w')"
proof -
  from run obtain update where "put_teacher update b w = (Inr t, w')"
    by (auto simp: AdminTeachersHandler_def ok_iffs split: meth.splits)
  then obtain r w1 w2 where "writeTeacher r w1 = (Inr t, w2)" and d': "db w' = db w2" and w1: "db w1 = db w"
    by (auto simp: put_teacher_def ok_iffs Let_def split: if_splits)
  then obtain w3 w4 row where s: "store_teacher r w3 = (Inr (Some row), w4)" "t = scanTeacher row"
    and d3: "db w3 = db w" and d4: "db w' = db w4"
    by (auto simp: writeTeacher_def write_teacher_def ok_iffs dest!: tag_free_ok(1) elim!: in_tx_ok)
  have "teachers_ok (db w4)" using ok d3 s(1) keeps_store_teacher by (metis keepsD)
  moreover have "row \<in> set (teachers (db w4))"
    using s(1) by (rule stored_row)
  ultimately have f: "filter (\<lambda>q. e_id q = e_id row) (teachers (db w')) = [row]"
    using d4 by (auto simp: teachers_ok_def intro: filter_unique_key)
  have p: "optionalQueryID TeacherIDMessage (itoa (sh_id t)) = Inr (Some (sh_id t))"
    using i by (simp add: optionalQueryID_def Atoi_itoa itoa_nonempty)
  have m: "teacher_match low None (Some (sh_id t)) None None = (\<lambda>q. e_id q = e_id row)"
    by (simp add: teacher_match_def s(2) scanTeacher_def fun_eq_iff)
  show ?thesis
    using w' p i f m s(2)
    by (simp add: AdminTeachersHandler_def listTeachers_def optional_text_def TrimSpace_def trim_by_def bindE_def
        run_simps lift_err_run with_int4_def with_text_def opt_list_def)
qed

section \<open>Examples\<close>

definition a_teacher :: TeacherWriteRequest where
  "a_teacher = \<lparr>tw_id = 0, tw_first = u '' Sara'', tw_father = u ''Ali'', tw_grandfather = u ''Omar'',
     tw_phone = u ''0770 123-4567'', tw_gender = u ''female'', tw_status = [], tw_spec = None, tw_notes = Some (u '' ''),
     tw_tag = Some (u ''7'')\<rparr>"

definition stored_request :: TeacherWriteRequest where
  "stored_request = \<lparr>tw_id = 0, tw_first = u ''Sara'', tw_father = u ''Ali'', tw_grandfather = u ''Omar'',
     tw_phone = u ''+9647701234567'', tw_gender = u ''female'', tw_status = u ''active'', tw_spec = None, tw_notes = None,
     tw_tag = Some (u ''7'')\<rparr>"

definition staff_world :: world where
  "staff_world = quiet empty_db (At (Date 2025 10 5) (hm 8 0))"

lemma a_teacher_valid: "validateTeacher a_teacher False = Inr stored_request"
proof -
  have "Normalize (u ''0770 123-4567'') = Some (u ''+9647701234567'')"
    by (simp add: Normalize_def clean_def ascii_digit_def Ignored_def strip_prefix_def trim_prefix_def mobile_def is_digit_def u_def)
  then show ?thesis
    by (simp add: validateTeacher_def a_teacher_def stored_request_def trimTeacher_def TrimSpace_def trim_by_def is_space_def
        u_def blankToNil_def lengthProblem_def tooLong_def TrimRightBlank_def optionalTooLong_def teacherStatuses_def
        TeacherActive_def TeacherOnLeave_def TeacherTransferred_def TeacherRetired_def MaxTeacherName_def Let_def)
qed

definition sara :: teacher where
  "sara = teacher_row stored_request 1 (clock staff_world) (clock staff_world)"

lemma sara_checks: "teacher_checks sara"
  using validated_checks [OF a_teacher_valid] by (simp add: sara_def)

lemma staff_world_simps:
  "faults staff_world = []" "teachers (db staff_world) = []" "students (db staff_world) = []" "serial staff_world tb = 1"
  by (simp_all add: staff_world_def empty_db_def)

lemma staff_clock: "to_micro (clock staff_world) = clock staff_world"
  by (simp add: staff_world_def to_micro_def hm_def sec_def)

definition staffed :: world where
  "staffed = staff_world\<lparr>serial := (serial staff_world)(Teachers := 2), db := (db staff_world)\<lparr>teachers := [sara]\<rparr>,
     noted := (u ''teacher'', itoa 1, [])\<rparr>"

lemma a_teacher_stored:
  "AdminTeachersHandler coll low POST q (Body a_teacher) staff_world = (Inr (Inr (scanTeacher sara)), staffed)"
proof -
  have p: "plain_texts (request_texts stored_request)" "plain_texts [u ''7'']"
    by (simp_all add: plain_texts_def request_texts_def stored_request_def opt_list_def u_def)
  have "a_teacher\<lparr>tw_id := 0\<rparr> = a_teacher" "tw_id stored_request = 0" "tw_tag stored_request = Some (u ''7'')"
    by (simp_all add: a_teacher_def stored_request_def)
  moreover have "insert_teacher stored_request (clock staff_world) 1 (db staff_world) =
      Inr (Some sara, (db staff_world)\<lparr>teachers := [sara]\<rparr>)"
    using sara_checks by (simp add: insert_teacher_def Let_def staff_clock teacher_conflict_def staff_world_simps sara_def)
  ultimately show ?thesis
    using a_teacher_valid p
    by (simp add: AdminTeachersHandler_def put_teacher_def writeTeacher_def write_teacher_def tag_free_def store_teacher_def
        bindE_def run_simps lift_err_run in_tx_run_nil staff_world_simps with_plain_texts with_int4_def staffed_def
        scanTeacher_def sara_def teacher_row_def)
qed

theorem teacher_table_typed_witness:
  "teachers_ok (db staffed) \<and> tags_apart (db staffed)"
  using teacher_table_typed [of staff_world "\<lambda>s. s" "\<lambda>c. c" POST "\<lparr>tq_status = [], tq_id = [], tq_search = []\<rparr>" "Body a_teacher"]
  by (simp add: a_teacher_stored teachers_ok_def tags_apart_def unique_key_def staff_world_simps)

theorem teacher_write_never_500_witness:
  "status_of (fst (AdminTeachersHandler (\<lambda>s. s) (\<lambda>c. c) POST \<lparr>tq_status = [], tq_id = [], tq_search = []\<rparr>
     (Body a_teacher) staff_world)) \<in> {200, 400, 404, 409}"
  by (rule teacher_write_never_500)
    (simp_all add: staff_world_simps a_teacher_def plain_texts_def request_texts_def opt_list_def u_def)

theorem teacher_read_back_witness:
  "AdminTeachersHandler (\<lambda>s. s) (\<lambda>c. c) GET \<lparr>tq_status = [], tq_id = itoa 1, tq_search = []\<rparr> Malformed staffed =
     (Inr (Inl [scanTeacher sara]), staffed)"
proof -
  have i: "sh_id (scanTeacher sara) = 1" by (simp add: scanTeacher_def sara_def teacher_row_def)
  show ?thesis
    using teacher_read_back [OF _ a_teacher_stored [of "\<lambda>s. s" "\<lambda>c. c" "\<lparr>tq_status = [], tq_id = [], tq_search = []\<rparr>"], of Malformed]
    by (simp add: i teachers_ok_def unique_key_def staff_world_simps staffed_def)
qed

end
