(* ===== verification/Expenses.thy ===== *)
theory Expenses
  imports Tuition Teachers
begin

text \<open>
  Expenses, \<open>internal/handlers/expenses.go\<close>: the categories, recording and voiding an expense, the list
  of a year and its summary by category and by month, next to the tuition collected. Amounts are whole
  dinars between 1 and 10^9, so no sum here reaches the 64-bit range. \<open>low\<close> is the database's \<open>lower\<close>,
  character by character, under which category names are unique.
\<close>

section \<open>Refusals\<close>

definition MaxExpenseCategoryName :: nat where "MaxExpenseCategoryName = 50"

definition ExpenseCategoryIDMessage :: string where
  "ExpenseCategoryIDMessage = ''category_id must be a positive category id''"

definition ExpenseTeacherIDMessage :: string where
  "ExpenseTeacherIDMessage = ''teacher_id must be a positive teacher id''"

definition ExpenseIDMessage :: string where
  "ExpenseIDMessage = ''id must be a positive expense id''"

definition ExpenseDateMessage :: string where
  "ExpenseDateMessage = ''expense_date must be formatted as YYYY-MM-DD''"

definition ExpenseDateFutureMessage :: string where
  "ExpenseDateFutureMessage = ''expense_date cannot be in the future''"

definition errExpenseCategoryNotFound :: terr where
  "errExpenseCategoryNotFound = Refused (Refuse 404 (u ''Category not found''))"

definition errExpenseTeacherNotFound :: terr where
  "errExpenseTeacherNotFound = Refused (Refuse 404 (u ''Teacher not found''))"

definition errExpenseNotFound :: terr where
  "errExpenseNotFound = Refused (Refuse 404 (u ''Expense not found''))"

definition errExpenseNotSalary :: terr where
  "errExpenseNotSalary = Refused (Refuse 409 (u ''teacher_id is allowed only for the salary category''))"

definition errExpenseAlreadyVoided :: terr where
  "errExpenseAlreadyVoided = Refused (Refuse 409 (u ''Expense is already voided''))"

definition errExpenseCategoryTaken :: terr where
  "errExpenseCategoryTaken = Refused (Refuse 409 (u ''name is already used by another category''))"

section \<open>Reading expenses\<close>

record ExpenseCategory =
  ec_id :: int
  ec_name :: str
  ec_salary :: bool

record Expense =
  ex_id :: int
  ex_category :: "int \<times> str"
  ex_amount :: int
  ex_date :: str
  ex_note :: "str option"
  ex_teacher :: "(int \<times> str) option"
  ex_year :: str
  ex_status :: str
  ex_created :: str
  ex_voided :: "str option"
  ex_reason :: "str option"

definition category_of :: "db \<Rightarrow> int \<Rightarrow> category option" where
  "category_of d i = find_row (\<lambda>c. g_id c = i) (expense_categories d)"

definition teacher_of :: "db \<Rightarrow> int \<Rightarrow> teacher option" where
  "teacher_of d i = find_row (\<lambda>t. e_id t = i) (teachers d)"

definition scanExpense :: "db \<Rightarrow> expense \<Rightarrow> Expense option" where
  \<comment> \<open>a row of \<open>expenseSelect\<close>: the category is joined, the teacher left-joined\<close>
  "scanExpense d x = map_option (\<lambda>c.
     \<lparr>ex_id = x_id x, ex_category = (g_id c, g_name c), ex_amount = x_amount x, ex_date = ymd (x_date x), ex_note = x_note x,
      ex_teacher = map_option (\<lambda>t. (e_id t, teacherFullName (e_first t) (e_father t) (e_grandfather t)))
        (Option.bind (x_teacher x) (teacher_of d)),
      ex_year = x_year x, ex_status = (if x_void x = None then u ''active'' else u ''voided''),
      ex_created = rfc3339 (x_created x), ex_voided = map_option (rfc3339 \<circ> fst) (x_void x),
      ex_reason = map_option snd (x_void x)\<rparr>) (category_of d (x_category x))"

definition readExpense :: "int \<Rightarrow> (err, Expense) tx" where
  "readExpense i =
     bindE (query (\<lambda>d. Option.bind (find_row (\<lambda>x. x_id x = i) (expenses d)) (scanExpense d))) (\<lambda>e.
     of_option Driver e)"

definition expenseYear :: "str \<Rightarrow> (refusal, str) tx" where
  "expenseYear requested =
     bindE (lift_err respondTuitionError currentAcademicYear) (\<lambda>cur.
     let requested = TrimSpace requested in
     if requested = [] then ret cur
     else bindE (guard (validAcademicYear requested) (bad_request AcademicYearMessage)) (\<lambda>_. ret requested))"

record expense_params =
  xp_year :: str
  xp_category :: str
  xp_teacher :: str
  xp_month :: str

definition expense_match :: "str \<Rightarrow> int option \<Rightarrow> int option \<Rightarrow> str option \<Rightarrow> expense \<Rightarrow> bool" where
  \<comment> \<open>the \<open>WHERE\<close> clause\<close>
  "expense_match y cat tid mth x \<longleftrightarrow> x_year x = y \<and>
     (case cat of None \<Rightarrow> True | Some c \<Rightarrow> x_category x = c) \<and>
     (case tid of None \<Rightarrow> True | Some t \<Rightarrow> x_teacher x = Some t) \<and>
     (case mth of None \<Rightarrow> True | Some m \<Rightarrow> yyyy_mm (x_date x) = m)"

definition expense_query :: "str \<Rightarrow> int option \<Rightarrow> int option \<Rightarrow> str option \<Rightarrow> db \<Rightarrow> Expense list" where
  \<comment> \<open>\<open>ORDER BY expense_date DESC, id DESC\<close>\<close>
  "expense_query y cat tid mth d =
     List.map_filter (scanExpense d)
       (rev (sort_key (\<lambda>x. (x_date x, x_id x)) (filter (expense_match y cat tid mth) (expenses d))))"

fun sum_active :: "Expense list \<Rightarrow> int \<Rightarrow> int" where
  \<comment> \<open>the row loop of \<open>listExpenses\<close>\<close>
  "sum_active [] total_so_far = total_so_far"
| "sum_active (e # es) total_so_far =
     sum_active es (if ex_status e = u ''active'' then total_so_far + ex_amount e else total_so_far)"

definition optional_month :: "str \<Rightarrow> stamp \<Rightarrow> refusal + str option" where
  "optional_month v now =
     (if v = [] then Inr None else case requestedMonth v now of Inl e \<Rightarrow> Inl e | Inr m \<Rightarrow> Inr (Some m))"

definition listExpenses :: "expense_params \<Rightarrow> (refusal, str \<times> int \<times> Expense list) tx" where
  "listExpenses q =
     bindE (expenseYear (xp_year q)) (\<lambda>y.
     bindE (of_sum (optionalQueryID ExpenseCategoryIDMessage (xp_category q))) (\<lambda>cat.
     bindE (of_sum (optionalQueryID ExpenseTeacherIDMessage (xp_teacher q))) (\<lambda>tid.
     bindE get_clock (\<lambda>now.
     bindE (of_sum (optional_month (xp_month q) now)) (\<lambda>mth.
     bindE (lift_err (internal_error ''Database error'')
       (with_int4 (opt_list cat @ opt_list tid) (query (expense_query y cat tid mth)))) (\<lambda>es.
     ret (y, sum_active es 0, es)))))))"

section \<open>Categories\<close>

definition category_checks :: "category \<Rightarrow> bool" where
  "category_checks c \<longleftrightarrow> between 1 50 (g_name c) \<and> g_name c = btrim (g_name c)"

definition insert_category :: "(nat \<Rightarrow> nat) \<Rightarrow> str \<Rightarrow> int \<Rightarrow> db \<Rightarrow> err + int \<times> db" where
  "insert_category low name i d =
     (let c = \<lparr>g_id = i, g_name = name, g_salary = False\<rparr> in
      if \<not> category_checks c then Inl (check_violation ''expense_categories_name_check'')
      else if i \<in> g_id ` set (expense_categories d) then Inl (unique_violation ''expense_categories_pkey'')
      else if map low name \<in> (\<lambda>c. map low (g_name c)) ` set (expense_categories d)
      then Inl (unique_violation ''expense_categories_name_key'')
      else Inr (i, d\<lparr>expense_categories := expense_categories d @ [c]\<rparr>))"

definition list_categories :: "(refusal, ExpenseCategory list) tx" where
  "list_categories =
     lift_err (internal_error ''Database error'') (query (\<lambda>d.
       map (\<lambda>c. \<lparr>ec_id = g_id c, ec_name = g_name c, ec_salary = g_salary c\<rparr>) (sort_key g_id (expense_categories d))))"

definition add_category :: "(nat \<Rightarrow> nat) \<Rightarrow> str body \<Rightarrow> (refusal, ExpenseCategory) tx" where
  "add_category low b =
     bindE (of_sum (decodeJSONBody b (u ''Invalid request body''))) (\<lambda>raw.
     let name = join_with (u '' '') (Fields raw); msg = tooLong (u ''name'') name MaxExpenseCategoryName in
     bindE (guard (name \<noteq> []) (bad_request ''name is required'')) (\<lambda>_.
     bindE (guard (msg = []) (Refuse 400 msg)) (\<lambda>_.
     bindE (lift_err (\<lambda>e. respondTuitionError
         (if e = unique_violation ''expense_categories_name_key'' then errExpenseCategoryTaken else Failed e))
       (with_text [name] (insert_id Expense_Categories (insert_category low name)))) (\<lambda>i.
     bindE (NoteActivity (u ''category'') (itoa i) []) (\<lambda>_.
     ret \<lparr>ec_id = i, ec_name = name, ec_salary = False\<rparr>)))))"

definition AdminExpenseCategoriesHandler ::
    "(nat \<Rightarrow> nat) \<Rightarrow> meth \<Rightarrow> str body \<Rightarrow> (refusal, ExpenseCategory list + ExpenseCategory) tx" where
  "AdminExpenseCategoriesHandler low meth b =
     (case meth of
        GET \<Rightarrow> bindE list_categories (\<lambda>cs. ret (Inl cs))
      | POST \<Rightarrow> bindE (add_category low b) (\<lambda>c. ret (Inr c))
      | _ \<Rightarrow> fail method_not_allowed)"

section \<open>Recording and voiding\<close>

record ExpenseRequest =
  er_category :: int
  er_amount :: "int option"
  er_date :: str
  er_note :: "str option"
  er_teacher :: "int option"
  er_year :: str

definition expense_date :: "str \<Rightarrow> str \<Rightarrow> refusal + date" where
  \<comment> \<open>the checks of \<open>expense_date\<close>, with the present day as text\<close>
  "expense_date raw day =
     (let dat = (if TrimSpace raw = [] then day else TrimSpace raw) in
      case parse_date dat of
        None \<Rightarrow> Inl (bad_request ExpenseDateMessage)
      | Some t \<Rightarrow>
          if \<not> yearInRange (year t) then Inl (bad_request ExpenseDateMessage)
          else if day < dat then Inl (bad_request ExpenseDateFutureMessage)
          else Inr t)"

definition expense_checks :: "expense \<Rightarrow> bool" where
  "expense_checks x \<longleftrightarrow>
     validAcademicYear (x_year x) \<and> 1 \<le> x_amount x \<and> x_amount x \<le> 1000000000 \<and>
     (case x_note x of None \<Rightarrow> True | Some s \<Rightarrow> between 1 200 s) \<and>
     (case x_void x of None \<Rightarrow> True | Some (_, s) \<Rightarrow> between 1 200 s)"

definition insert_expense ::
    "int \<Rightarrow> str \<Rightarrow> int \<Rightarrow> date \<Rightarrow> str option \<Rightarrow> int option \<Rightarrow> stamp \<Rightarrow> int \<Rightarrow> db \<Rightarrow> err + int \<times> db" where
  "insert_expense cat y amount dat note tid now i d =
     (let x = \<lparr>x_id = i, x_category = cat, x_year = y, x_amount = amount, x_date = dat, x_note = note, x_teacher = tid,
               x_created = to_micro now, x_void = None\<rparr> in
      if \<not> expense_checks x then Inl (check_violation ''expenses_check'')
      else if i \<in> x_id ` set (expenses d) then Inl (unique_violation ''expenses_pkey'')
      else if category_of d cat = None then Inl (foreign_key_violation ''expenses_category_id_fkey'')
      else if (case tid of None \<Rightarrow> False | Some t \<Rightarrow> teacher_of d t = None)
      then Inl (foreign_key_violation ''expenses_teacher_id_fkey'')
      else Inr (i, d\<lparr>expenses := expenses d @ [x]\<rparr>))"

definition salary_teacher :: "int option \<Rightarrow> bool \<Rightarrow> (terr, unit) tx" where
  "salary_teacher tid salary =
     (case tid of
        None \<Rightarrow> ret ()
      | Some t \<Rightarrow>
          bindE (guard salary errExpenseNotSalary) (\<lambda>_.
          bindE (lift_err Failed (with_int4 [t] (query (\<lambda>d. teacher_of d t \<noteq> None)))) (\<lambda>exists.
          guard exists errExpenseTeacherNotFound)))"

definition record_expense :: "ExpenseRequest \<Rightarrow> str \<Rightarrow> str option \<Rightarrow> date \<Rightarrow> (terr, int \<times> str) tx" where
  \<comment> \<open>the transaction of \<open>createExpense\<close>\<close>
  "record_expense req requested note dat =
     bindE currentAcademicYear (\<lambda>cur.
     let y = (if requested \<noteq> [] then requested else cur) in
     bindE (lift_err Failed (with_int4 [er_category req] (query (\<lambda>d. category_of d (er_category req))))) (\<lambda>cat.
     bindE (of_option errExpenseCategoryNotFound cat) (\<lambda>c.
     bindE (salary_teacher (er_teacher req) (g_salary c)) (\<lambda>_.
     bindE get_clock (\<lambda>now.
     bindE (lift_err Failed (with_text (opt_list note) (insert_id Expenses
       (insert_expense (er_category req) y (the (er_amount req)) dat note (er_teacher req) now)))) (\<lambda>i.
     ret (i, y)))))))"

definition createExpense :: "ExpenseRequest body \<Rightarrow> (refusal, Expense) tx" where
  "createExpense b =
     bindE (of_sum (decodeJSONBody b (u ''Invalid request body''))) (\<lambda>req.
     bindE (guard (\<not> er_category req < 1) (bad_request ExpenseCategoryIDMessage)) (\<lambda>_.
     bindE (guard (case er_teacher req of None \<Rightarrow> True | Some t \<Rightarrow> \<not> t < 1) (bad_request ExpenseTeacherIDMessage)) (\<lambda>_.
     let (note, noteProblem) = optionalNote (u ''note'') (er_note req);
         msg = firstProblem [amountProblem ''amount'' (er_amount req) 1, noteProblem] in
     bindE (guard (msg = []) (Refuse 400 msg)) (\<lambda>_.
     bindE get_clock (\<lambda>now.
     bindE (of_sum (expense_date (er_date req) (today now))) (\<lambda>dat.
     let requested = TrimSpace (er_year req) in
     bindE (guard (requested = [] \<or> validAcademicYear requested) (bad_request AcademicYearMessage)) (\<lambda>_.
     bindE (lift_err respondTuitionError (in_tx Failed (record_expense req requested note dat))) (\<lambda>(i, y).
     bindE (NoteActivity (u ''expense'') (itoa i) (u ''category='' @ itoa (er_category req) @ u '' year='' @ y)) (\<lambda>_.
     lift_err (internal_error ''Database error'') (readExpense i))))))))))"

definition AdminExpensesHandler ::
    "meth \<Rightarrow> expense_params \<Rightarrow> ExpenseRequest body \<Rightarrow> (refusal, str \<times> int \<times> Expense list + Expense) tx" where
  "AdminExpensesHandler meth q b =
     (case meth of
        GET \<Rightarrow> bindE (listExpenses q) (\<lambda>r. ret (Inl r))
      | POST \<Rightarrow> bindE (createExpense b) (\<lambda>e. ret (Inr e))
      | _ \<Rightarrow> fail method_not_allowed)"

record ExpenseVoidRequest =
  ev_id :: int
  ev_reason :: str

definition set_void :: "int \<Rightarrow> str \<Rightarrow> stamp \<Rightarrow> db \<Rightarrow> err + unit \<times> db" where
  "set_void i reason now d =
     (if \<not> between 1 200 reason \<and> i \<in> x_id ` set (expenses d) then Inl (check_violation ''expenses_void_reason_check'')
      else Inr ((), d\<lparr>expenses := upd_where (\<lambda>x. x_id x = i) (\<lambda>x. x\<lparr>x_void := Some (to_micro now, reason)\<rparr>) (expenses d)\<rparr>))"

definition void_expense :: "int \<Rightarrow> str \<Rightarrow> (terr, unit) tx" where
  \<comment> \<open>the transaction of \<open>AdminExpenseVoidHandler\<close>\<close>
  "void_expense i reason =
     bindE (lift_err Failed (query (\<lambda>d. map_option (\<lambda>x. x_void x \<noteq> None) (find_row (\<lambda>x. x_id x = i) (expenses d))))) (\<lambda>found.
     bindE (of_option errExpenseNotFound found) (\<lambda>voided.
     bindE (guard (\<not> voided) errExpenseAlreadyVoided) (\<lambda>_.
     bindE get_clock (\<lambda>now.
     lift_err Failed (with_text [reason] (stmt (set_void i reason now)))))))"

definition AdminExpenseVoidHandler :: "ExpenseVoidRequest body \<Rightarrow> (refusal, Expense) tx" where
  "AdminExpenseVoidHandler b =
     bindE (of_sum (decodeJSONBody b (u ''Invalid request body''))) (\<lambda>req.
     bindE (guard (\<not> ev_id req < 1) (bad_request ExpenseIDMessage)) (\<lambda>_.
     bindE (NoteActivity (u ''expense'') (itoa (ev_id req)) []) (\<lambda>_.
     let reason = TrimSpace (ev_reason req); msg = tooLong (u ''reason'') reason MaxTuitionNote in
     bindE (guard (reason \<noteq> []) (bad_request ''reason is required'')) (\<lambda>_.
     bindE (guard (msg = []) (Refuse 400 msg)) (\<lambda>_.
     bindE (lift_err respondTuitionError (in_tx Failed (void_expense (ev_id req) reason))) (\<lambda>_.
     lift_err (internal_error ''Database error'') (readExpense (ev_id req))))))))"

section \<open>The summary\<close>

record ExpenseTotals =
  et_expenses :: int
  et_collected :: "int option"
  et_difference :: "int option"

record ExpenseMonth = ExpenseTotals +
  em_month :: str

record ExpenseCategoryTotal =
  ct_category :: int
  ct_name :: str
  ct_total :: int

definition live_expense :: "str \<Rightarrow> expense \<Rightarrow> bool" where
  "live_expense y x \<longleftrightarrow> x_year x = y \<and> x_void x = None"

definition by_category_query :: "str \<Rightarrow> int option \<Rightarrow> db \<Rightarrow> ExpenseCategoryTotal list" where
  "by_category_query y cat d =
     map (\<lambda>c. \<lparr>ct_category = g_id c, ct_name = g_name c,
                ct_total = sum_where (\<lambda>x. x_category x = g_id c \<and> live_expense y x) x_amount (expenses d)\<rparr>)
       (sort_key g_id (filter (\<lambda>c. case cat of None \<Rightarrow> True | Some i \<Rightarrow> g_id c = i) (expense_categories d)))"

definition grouped :: "('r \<Rightarrow> str) \<Rightarrow> ('r \<Rightarrow> int) \<Rightarrow> 'r list \<Rightarrow> (str \<times> int) list" where
  \<comment> \<open>\<open>SELECT key, SUM(f) ... GROUP BY 1\<close>\<close>
  "grouped key f rs = map (\<lambda>k. (k, sum_where (\<lambda>r. key r = k) f rs)) (remdups (map key rs))"

definition expense_months :: "str \<Rightarrow> int option \<Rightarrow> db \<Rightarrow> (str \<times> int) list" where
  "expense_months y cat d =
     grouped (\<lambda>x. yyyy_mm (x_date x)) x_amount
       (filter (\<lambda>x. live_expense y x \<and> (case cat of None \<Rightarrow> True | Some c \<Rightarrow> x_category x = c)) (expenses d))"

definition collected_payment :: "str \<Rightarrow> db \<Rightarrow> payment \<Rightarrow> bool" where
  "collected_payment y d p \<longleftrightarrow>
     m_void p = None \<and> list_ex (\<lambda>a. q_id a = m_account p \<and> q_year a = y) (tuition_accounts d)"

definition collected_months :: "str \<Rightarrow> db \<Rightarrow> (str \<times> int) list" where
  "collected_months y d =
     grouped (\<lambda>p. yyyy_mm (m_paid_at p)) m_amount (filter (collected_payment y d) (tuition_payments d))"

fun at_month :: "str \<Rightarrow> (ExpenseMonth \<Rightarrow> ExpenseMonth) \<Rightarrow> ExpenseMonth list \<Rightarrow> ExpenseMonth list" where
  \<comment> \<open>\<open>add(month(m), amount)\<close> on the map of months, kept as the list of its values\<close>
  "at_month m f [] = [f \<lparr>et_expenses = 0, et_collected = None, et_difference = None, em_month = m\<rparr>]"
| "at_month m f (e # es) = (if em_month e = m then f e # es else e # at_month m f es)"

fun add_expense_months :: "(str \<times> int) list \<Rightarrow> ExpenseMonth list \<Rightarrow> ExpenseMonth list" where
  "add_expense_months [] ms = ms"
| "add_expense_months ((m, v) # rs) ms = add_expense_months rs (at_month m (et_expenses_update (\<lambda>_. v)) ms)"

fun add_collected_months :: "(str \<times> int) list \<Rightarrow> ExpenseMonth list \<Rightarrow> int \<Rightarrow> ExpenseMonth list \<times> int" where
  "add_collected_months [] ms collected = (ms, collected)"
| "add_collected_months ((m, v) # rs) ms collected =
     add_collected_months rs (at_month m (et_collected_update (\<lambda>_. Some v)) ms) (collected + v)"

definition month_difference :: "ExpenseMonth \<Rightarrow> ExpenseMonth" where
  "month_difference m =
     (let c = (case et_collected m of None \<Rightarrow> 0 | Some v \<Rightarrow> v) in
      m\<lparr>et_collected := Some c, et_difference := Some (c - et_expenses m)\<rparr>)"

fun sum_categories :: "ExpenseCategoryTotal list \<Rightarrow> int" where
  "sum_categories [] = 0"
| "sum_categories (c # cs) = ct_total c + sum_categories cs"

definition AdminExpensesSummaryHandler ::
    "str \<Rightarrow> str \<Rightarrow>
     (refusal, str \<times> int option \<times> ExpenseTotals \<times> ExpenseCategoryTotal list \<times> ExpenseMonth list) tx" where
  "AdminExpensesSummaryHandler yearParam categoryParam =
     bindE (expenseYear yearParam) (\<lambda>y.
     bindE (of_sum (optionalQueryID ExpenseCategoryIDMessage categoryParam)) (\<lambda>cat.
     bindE (if cat = None then ret () else
              bindE (lift_err (respondTuitionError \<circ> Failed)
                (with_int4 (opt_list cat) (query (\<lambda>d. category_of d (the cat) \<noteq> None)))) (\<lambda>exists.
              guard exists (respondTuitionError errExpenseCategoryNotFound))) (\<lambda>_.
     bindE (lift_err (respondTuitionError \<circ> Failed) (query (by_category_query y cat))) (\<lambda>byCategory.
     let expensesTotal = sum_categories byCategory in
     bindE (lift_err (respondTuitionError \<circ> Failed) (query (expense_months y cat))) (\<lambda>xs.
     let months = add_expense_months xs [] in
     if cat \<noteq> None
     then ret (y, cat, \<lparr>et_expenses = expensesTotal, et_collected = None, et_difference = None\<rparr>, byCategory,
       sort_key em_month months)
     else bindE (lift_err (respondTuitionError \<circ> Failed) (query (collected_months y))) (\<lambda>ps.
       let (months, collected) = add_collected_months ps months 0 in
       ret (y, cat, \<lparr>et_expenses = expensesTotal, et_collected = Some collected,
           et_difference = Some (collected - expensesTotal)\<rparr>, byCategory,
         sort_key em_month (map month_difference months))))))))"

section \<open>Sums\<close>

lemma sum_where_insort: "sum_where p f (insort_key k x xs) = (if p x then f x else 0) + sum_where p f xs"
  by (induction xs) auto

lemma sum_where_sort [simp]: "sum_where p f (sort_key k xs) = sum_where p f xs"
  by (induction xs) (simp_all add: sort_key_def sum_where_insort)

lemma sum_where_rev [simp]: "sum_where p f (rev xs) = sum_where p f xs"
  by (induction xs) simp_all

lemma sum_where_filter: "sum_where p f (filter q xs) = sum_where (\<lambda>x. q x \<and> p x) f xs"
  by (induction xs) auto

lemma sum_list_insort: "sum_list (map f (insort_key k x xs)) = (f x :: int) + sum_list (map f xs)"
  by (induction xs) auto

lemma sum_list_sort [simp]: "sum_list (map f (sort_key k xs)) = (sum_list (map f xs) :: int)"
  by (induction xs) (simp_all add: sort_key_def sum_list_insort)

lemma sum_one_key: "distinct ks \<Longrightarrow> sum_list (map (\<lambda>k. if a = k \<and> b then x else 0) ks) = (if a \<in> set ks \<and> b then x else (0 :: int))"
  by (induction ks) auto

text \<open>A sum split by a key, whose values are all listed once.\<close>

lemma sum_by_key:
  assumes "distinct ks" "\<And>r. r \<in> set rs \<Longrightarrow> p r \<Longrightarrow> key r \<in> set ks"
  shows "sum_list (map (\<lambda>k. sum_where (\<lambda>r. key r = k \<and> p r) f rs) ks) = sum_where p f rs"
  using assms(2)
proof (induction rs)
  case (Cons r rs)
  have "sum_list (map (\<lambda>k. sum_where (\<lambda>r. key r = k \<and> p r) f (r # rs)) ks) =
      sum_list (map (\<lambda>k. if key r = k \<and> p r then f r else 0) ks) + sum_list (map (\<lambda>k. sum_where (\<lambda>r. key r = k \<and> p r) f rs) ks)"
    by (simp add: sum_list_addf)
  then show ?case using Cons assms(1) by (auto simp: sum_one_key)
qed (simp add: sum_list_0)

lemma sum_grouped: "sum_list (map snd (grouped key f rs)) = sum_where (\<lambda>_. True) f rs"
  using sum_by_key [of "remdups (map key rs)" rs "\<lambda>_. True" key f]
  by (simp add: grouped_def o_def)

lemma distinct_grouped: "distinct (map fst (grouped key f rs))"
  by (simp add: grouped_def o_def)

section \<open>The months of a summary\<close>

definition collected_or_0 :: "ExpenseMonth \<Rightarrow> int" where
  "collected_or_0 m = (case et_collected m of None \<Rightarrow> 0 | Some v \<Rightarrow> v)"

lemma at_month_months:
  "(\<And>e. em_month (f e) = em_month e) \<Longrightarrow>
   em_month ` set (at_month m f ms) = insert m (em_month ` set ms)"
  by (induction ms) auto

lemma at_month_distinct:
  "(\<And>e. em_month (f e) = em_month e) \<Longrightarrow> distinct (map em_month ms) \<Longrightarrow> distinct (map em_month (at_month m f ms))"
  by (induction ms) (auto simp: at_month_months)

lemma at_month_value:
  "(\<And>e. em_month (f e) = em_month e) \<Longrightarrow> e \<in> set (at_month m f ms) \<Longrightarrow> em_month e \<noteq> m \<Longrightarrow> e \<in> set ms"
  by (induction ms) (auto split: if_splits)

lemma at_month_expenses:
  "m \<notin> em_month ` set ms \<Longrightarrow>
   sum_list (map et_expenses (at_month m (et_expenses_update (\<lambda>_. v)) ms)) = sum_list (map et_expenses ms) + v"
  "sum_list (map et_expenses (at_month m (et_collected_update g) ms)) = sum_list (map et_expenses ms)"
  by (induction ms) auto

lemma at_month_collected:
  "(\<And>e. e \<in> set ms \<Longrightarrow> em_month e = m \<Longrightarrow> et_collected e = None) \<Longrightarrow>
   sum_list (map collected_or_0 (at_month m (et_collected_update (\<lambda>_. Some v)) ms)) = sum_list (map collected_or_0 ms) + v"
  by (induction ms) (auto simp: collected_or_0_def)

lemma add_expense_months_sum:
  "distinct (map fst rs) \<Longrightarrow> distinct (map em_month ms) \<Longrightarrow> fst ` set rs \<inter> em_month ` set ms = {} \<Longrightarrow>
   \<forall>e \<in> set ms. et_collected e = None \<Longrightarrow>
   distinct (map em_month (add_expense_months rs ms)) \<and>
   (\<forall>e \<in> set (add_expense_months rs ms). et_collected e = None) \<and>
   sum_list (map et_expenses (add_expense_months rs ms)) = sum_list (map et_expenses ms) + sum_list (map snd rs)"
proof (induction rs ms rule: add_expense_months.induct)
  case (2 m v rs ms)
  let ?ms = "at_month m (et_expenses_update (\<lambda>_. v)) ms"
  have fresh: "m \<notin> em_month ` set ms" using 2(4) by auto
  have "\<forall>e \<in> set ?ms. et_collected e = None" using 2(5) by (induction ms) auto
  moreover have "distinct (map em_month ?ms)" using 2(3) by (simp add: at_month_distinct)
  moreover have "fst ` set rs \<inter> em_month ` set ?ms = {}" using 2(2,4) by (auto simp: at_month_months)
  ultimately show ?case using 2(1,2) at_month_expenses(1) [OF fresh] by simp
qed simp

lemma add_collected_months_sum:
  "distinct (map fst rs) \<Longrightarrow> distinct (map em_month ms) \<Longrightarrow>
   \<forall>e \<in> set ms. em_month e \<in> fst ` set rs \<longrightarrow> et_collected e = None \<Longrightarrow>
   add_collected_months rs ms c = (ms', c') \<Longrightarrow>
   distinct (map em_month ms') \<and> c' = c + sum_list (map snd rs) \<and>
   sum_list (map et_expenses ms') = sum_list (map et_expenses ms) \<and>
   sum_list (map collected_or_0 ms') = sum_list (map collected_or_0 ms) + sum_list (map snd rs)"
proof (induction rs ms c arbitrary: ms' c' rule: add_collected_months.induct)
  case (2 m v rs ms c)
  let ?ms = "at_month m (et_collected_update (\<lambda>_. Some v)) ms"
  have none: "e \<in> set ms \<Longrightarrow> em_month e = m \<Longrightarrow> et_collected e = None" for e using 2(4) by auto
  have later: "\<forall>e \<in> set ?ms. em_month e \<in> fst ` set rs \<longrightarrow> et_collected e = None"
  proof (intro ballI impI)
    fix e
    assume e: "e \<in> set ?ms" and k: "em_month e \<in> fst ` set rs"
    then have "em_month e \<noteq> m" using 2(2) by auto
    moreover from this have "e \<in> set ms" using e by (intro at_month_value [of _ e m ms]) auto
    ultimately show "et_collected e = None" using k 2(4) by auto
  qed
  have d: "distinct (map em_month ?ms)" using 2(3) by (simp add: at_month_distinct)
  have "distinct (map fst rs)" using 2(2) by simp
  from 2(1) [OF this d later, of ms' c'] 2(5)
  have ih: "distinct (map em_month ms') \<and> c' = c + v + sum_list (map snd rs) \<and>
     sum_list (map et_expenses ms') = sum_list (map et_expenses ?ms) \<and>
     sum_list (map collected_or_0 ms') = sum_list (map collected_or_0 ?ms) + sum_list (map snd rs)"
    by simp
  show ?case
    using ih at_month_expenses(2) [of m "\<lambda>_. Some v" ms] at_month_collected [of ms m v, OF none]
    by simp
qed simp

lemma month_difference_fields [simp]:
  "em_month (month_difference m) = em_month m" "et_expenses (month_difference m) = et_expenses m"
  "et_collected (month_difference m) = Some (collected_or_0 m)"
  "et_difference (month_difference m) = Some (collected_or_0 m - et_expenses m)"
  by (simp_all add: month_difference_def collected_or_0_def Let_def)

lemma sum_categories_list: "sum_categories cs = sum_list (map ct_total cs)"
  by (induction cs) simp_all

section \<open>The tables\<close>

definition expenses_ok :: "(nat \<Rightarrow> nat) \<Rightarrow> db \<Rightarrow> bool" where
  "expenses_ok low d \<longleftrightarrow>
     unique_key g_id (expense_categories d) \<and> unique_key (\<lambda>c. map low (g_name c)) (expense_categories d) \<and>
     (\<forall>c \<in> set (expense_categories d). category_checks c) \<and>
     unique_key x_id (expenses d) \<and>
     (\<forall>x \<in> set (expenses d). expense_checks x \<and>
        (\<exists>c \<in> set (expense_categories d). g_id c = x_category x \<and> (x_teacher x \<noteq> None \<longrightarrow> g_salary c)) \<and>
        (\<forall>t. x_teacher x = Some t \<longrightarrow> t \<in> e_id ` set (teachers d)))"

definition later_expense :: "expense \<Rightarrow> expense \<Rightarrow> bool" where
  \<comment> \<open>unchanged, or voided since\<close>
  "later_expense x x' \<longleftrightarrow> x' = x \<or> (x_void x = None \<and> x_void x' \<noteq> None \<and> x'\<lparr>x_void := None\<rparr> = x)"

definition expenses_grow :: "db \<Rightarrow> db \<Rightarrow> bool" where
  "expenses_grow d d' \<longleftrightarrow> list_all2 later_expense (expenses d) (take (length (expenses d)) (expenses d'))"

interpretation categories: keyed_table expense_categories "\<lambda>rs d. d\<lparr>expense_categories := rs\<rparr>" g_id
  by unfold_locales simp_all

interpretation expense_ids: keyed_table expenses "\<lambda>rs d. d\<lparr>expenses := rs\<rparr>" x_id
  by unfold_locales simp_all

lemma expenses_ok_cong:
  "expense_categories d' = expense_categories d \<Longrightarrow> expenses d' = expenses d \<Longrightarrow>
   e_id ` set (teachers d) \<subseteq> e_id ` set (teachers d') \<Longrightarrow> expenses_ok low d \<Longrightarrow> expenses_ok low d'"
  unfolding expenses_ok_def by (auto 0 3)

lemma later_refl [simp]: "later_expense x x"
  by (simp add: later_expense_def)

lemma later_trans: "later_expense x y \<Longrightarrow> later_expense y z \<Longrightarrow> later_expense x z"
  by (auto simp: later_expense_def)

lemma grow_same: "expenses d' = expenses d \<Longrightarrow> expenses_grow d d'"
  by (simp add: expenses_grow_def list.rel_refl)

lemma grow_refl [simp]: "expenses_grow d d"
  by (rule grow_same) simp

lemma grow_trans: "expenses_grow a b \<Longrightarrow> expenses_grow b c \<Longrightarrow> expenses_grow a c"
proof -
  assume ab: "expenses_grow a b" and bc: "expenses_grow b c"
  let ?n = "length (expenses a)"
  have n: "?n \<le> length (expenses b)" using list_all2_lengthD [OF ab [unfolded expenses_grow_def]] by simp
  have "list_all2 later_expense (take ?n (expenses b)) (take ?n (take (length (expenses b)) (expenses c)))"
    using bc unfolding expenses_grow_def by (rule list_all2_takeI)
  then have "list_all2 later_expense (take ?n (expenses b)) (take ?n (expenses c))" using n by (simp add: min_absorb1)
  with ab show ?thesis unfolding expenses_grow_def by (rule list_all2_trans [rotated -2]) (rule later_trans)
qed

lemma grow_insert: "expenses d' = expenses d @ xs \<Longrightarrow> expenses_grow d d'"
  by (simp add: expenses_grow_def list.rel_refl)

lemma category_of_Some: "category_of d i = Some c \<Longrightarrow> c \<in> set (expense_categories d) \<and> g_id c = i"
  by (auto simp: category_of_def dest!: find_row_Some)

lemma teacher_of_Some: "teacher_of d i = Some t \<Longrightarrow> i \<in> e_id ` set (teachers d)"
  by (auto simp: teacher_of_def dest!: find_row_Some)

lemma expense_category: "expenses_ok low d \<Longrightarrow> x \<in> set (expenses d) \<Longrightarrow> category_of d (x_category x) \<noteq> None"
  unfolding expenses_ok_def category_of_def find_row_None by fastforce

section \<open>What requests do to the tables\<close>

definition sound_since :: "(nat \<Rightarrow> nat) \<Rightarrow> db \<Rightarrow> db \<Rightarrow> bool" where
  "sound_since low d0 d \<longleftrightarrow> expenses_ok low d \<and> expenses_grow d0 d"

lemma insert_category_keeps: "sound_since low d0 d \<Longrightarrow> insert_category low name i d = Inr (x, d') \<Longrightarrow> sound_since low d0 d'"
proof -
  assume s: "sound_since low d0 d" and run: "insert_category low name i d = Inr (x, d')"
  let ?c = "\<lparr>g_id = i, g_name = name, g_salary = False\<rparr>"
  have c: "category_checks ?c" "i \<notin> g_id ` set (expense_categories d)"
    "map low name \<notin> (\<lambda>c. map low (g_name c)) ` set (expense_categories d)"
    and d': "d' = d\<lparr>expense_categories := expense_categories d @ [?c]\<rparr>"
    using run by (auto simp: insert_category_def Let_def split: if_splits)
  have "expenses_ok low d'"
    using s c unfolding d' sound_since_def expenses_ok_def unique_key_def by auto
  moreover have "expenses_grow d d'" by (simp add: d' grow_same)
  ultimately show ?thesis using s grow_trans unfolding sound_since_def by blast
qed

lemma later_set_void:
  "find_row (\<lambda>x. x_id x = i) (expenses d) = Some x \<Longrightarrow> x_void x = None \<Longrightarrow> unique_key x_id (expenses d) \<Longrightarrow>
   set_void i reason now d = Inr (v, d') \<Longrightarrow> expenses_grow d d'"
proof -
  assume f: "find_row (\<lambda>x. x_id x = i) (expenses d) = Some x" "x_void x = None" and q: "unique_key x_id (expenses d)"
    and run: "set_void i reason now d = Inr (v, d')"
  have open_row: "x_void y = None" if "y \<in> set (expenses d)" "x_id y = i" for y
    using that f find_row_Some [OF f(1)] expense_ids.unique_row [OF q] by auto
  have "list_all2 later_expense (expenses d)
      (upd_where (\<lambda>x. x_id x = i) (\<lambda>x. x\<lparr>x_void := Some (to_micro now, reason)\<rparr>) (expenses d))"
    unfolding upd_where_def list_all2_map2
    by (rule list.rel_refl_strong) (auto simp: later_expense_def open_row)
  with run show ?thesis by (auto simp: set_void_def expenses_grow_def split: if_splits)
qed

lemma set_void_keeps: "expenses_ok low d \<Longrightarrow> set_void i reason now d = Inr (v, d') \<Longrightarrow> expenses_ok low d'"
proof -
  assume ok: "expenses_ok low d" and run: "set_void i reason now d = Inr (v, d')"
  let ?f = "\<lambda>x. x\<lparr>x_void := Some (to_micro now, reason)\<rparr>"
  have d': "d' = d\<lparr>expenses := upd_where (\<lambda>x. x_id x = i) ?f (expenses d)\<rparr>"
    and r: "between 1 200 reason \<or> i \<notin> x_id ` set (expenses d)"
    using run by (auto simp: set_void_def split: if_splits)
  have checked: "expense_checks (?f x)" if "x \<in> set (expenses d)" "x_id x = i" for x
    using that ok r by (auto simp: expenses_ok_def expense_checks_def)
  have "unique_key x_id (upd_where (\<lambda>x. x_id x = i) ?f (expenses d))"
    using ok expense_ids.update_keeps_unique [of d "\<lambda>x. x_id x = i" ?f] by (simp add: expenses_ok_def)
  then show ?thesis
    using ok checked unfolding d' expenses_ok_def by (auto simp: set_upd_where)
qed

lemma insert_expense_keeps:
  assumes s: "sound_since low d0 d" and run: "insert_expense cat y amount dat note tid now i d = Inr (k, d')"
    and c: "category_of d cat = Some c" "tid \<noteq> None \<Longrightarrow> g_salary c"
  shows "sound_since low d0 d'"
proof -
  let ?x = "\<lparr>x_id = i, x_category = cat, x_year = y, x_amount = amount, x_date = dat, x_note = note, x_teacher = tid,
               x_created = to_micro now, x_void = None\<rparr>"
  have d': "d' = d\<lparr>expenses := expenses d @ [?x]\<rparr>" and i: "i \<notin> x_id ` set (expenses d)" "expense_checks ?x"
    and t: "tid = Some t \<Longrightarrow> teacher_of d t \<noteq> None" for t
    using run by (auto simp: insert_expense_def Let_def split: if_splits)
  have "\<exists>c \<in> set (expense_categories d). g_id c = cat \<and> (tid \<noteq> None \<longrightarrow> g_salary c)"
    using c category_of_Some [OF c(1)] by blast
  moreover have "tid = Some t \<Longrightarrow> t \<in> e_id ` set (teachers d)" for t using t teacher_of_Some by blast
  ultimately have "expenses_ok low d'"
    using s i unfolding d' sound_since_def expenses_ok_def unique_key_def by auto
  moreover have "expenses_grow d d'" by (rule grow_insert) (simp add: d')
  ultimately show ?thesis using s grow_trans unfolding sound_since_def by blast
qed

lemma record_keeps: "keeps_ok (sound_since low d0) (record_expense req requested note dat)"
proof (rule keeps_okI)
  fix w x w'
  assume P: "sound_since low d0 (db w)" and run: "record_expense req requested note dat w = (Inr x, w')"
  from run obtain y w1 w2 w3 c where y: "currentAcademicYear w = (Inr y, w1)"
    and c: "db w2 = db w1" "category_of (db w1) (er_category req) = Some c"
    and s: "salary_teacher (er_teacher req) (g_salary c) w2 = (Inr (), w3)"
    and i: "\<exists>y now i. insert_id Expenses (insert_expense (er_category req) y (the (er_amount req)) dat note
        (er_teacher req) now) w3 = (Inr i, w')"
    by (auto simp: record_expense_def ok_iffs Let_def dest!: with_int4_laws(3) query_okD with_text_ok split del: if_split) metis
  have d: "db w1 = db w" using y by (auto simp: currentAcademicYear_def ok_iffs dest!: query_okD split: option.splits if_splits)
  have d3: "db w3 = db w2" "er_teacher req \<noteq> None \<Longrightarrow> g_salary c"
    using s by (auto simp: salary_teacher_def ok_iffs dest!: with_int4_laws(3) query_okD split: option.splits)
  from i obtain y now i where "insert_id Expenses (insert_expense (er_category req) y (the (er_amount req)) dat note
        (er_teacher req) now) w3 = (Inr i, w')" by blast
  then obtain d' where "insert_expense (er_category req) y (the (er_amount req)) dat note (er_teacher req) now
      (serial w3 Expenses) (db w3) = Inr (i, d')" "db w' = d'" by (rule insert_id_ok)
  moreover have "db w3 = db w" using c(1) d d3(1) by simp
  ultimately show "sound_since low d0 (db w')"
    using insert_expense_keeps [OF P _ _ d3(2)] c(2) d by simp
qed

lemma void_keeps: "keeps_ok (sound_since low d0) (void_expense i reason)"
proof (rule keeps_okI)
  fix w x w'
  assume P: "sound_since low d0 (db w)" and run: "void_expense i reason w = (Inr x, w')"
  from run obtain w1 v now
    where q: "query (\<lambda>d. map_option (\<lambda>x. x_void x \<noteq> None) (find_row (\<lambda>x. x_id x = i) (expenses d))) w = (Inr (Some v), w1)"
      and v: "\<not> v" and s: "stmt (set_void i reason now) w1 = (Inr x, w')"
    by (auto simp: void_expense_def ok_iffs dest!: with_text_ok)
  from query_okD [OF q] have w1: "db w1 = db w"
    and some: "map_option (\<lambda>x. x_void x \<noteq> None) (find_row (\<lambda>x. x_id x = i) (expenses (db w))) = Some v" by auto
  from some v obtain r where f: "find_row (\<lambda>x. x_id x = i) (expenses (db w)) = Some r" "x_void r = None"
    by (auto simp del: not_None_eq)
  from s obtain d where d: "set_void i reason now (db w1) = Inr (x, d)" "db w' = d" by (rule stmt_ok)
  have "unique_key x_id (expenses (db w))" using P by (simp add: sound_since_def expenses_ok_def)
  then have "expenses_grow (db w) (db w')" using later_set_void [OF f] d w1 by simp
  moreover have "expenses_ok low (db w')" using P set_void_keeps d w1 by (auto simp: sound_since_def)
  ultimately show "sound_since low d0 (db w')" using P grow_trans unfolding sound_since_def by blast
qed

interpretation expense_write: guarded_write "sound_since low d0" "record_expense req requested note dat" Failed
  by unfold_locales (rule record_keeps)

interpretation expense_void: guarded_write "sound_since low d0" "void_expense i reason" Failed
  by unfold_locales (rule void_keeps)

lemma keeps_expense_reads: "keeps P (expenseYear y)" "keeps P (readExpense i)" "keeps P (listExpenses q)"
proof -
  have c: "keeps P currentAcademicYear" by (rule keeps_reads)
  show y: "keeps P (expenseYear y)" for y unfolding expenseYear_def Let_def
    by (intro keeps_bindE keeps_lift_err c keeps_if keeps_ret keeps_guard)
  show "keeps P (readExpense i)" unfolding readExpense_def
    by (intro keeps_bindE keeps_query keeps_of_option)
  show "keeps P (listExpenses q)" unfolding listExpenses_def
    by (intro keeps_bindE y keeps_of_sum keeps_get_clock keeps_lift_err with_int4_laws(1) keeps_query keeps_ret)
qed

lemma expense_handlers_keep:
  "keeps (sound_since low d0) (AdminExpensesHandler meth q b)"
  "keeps (sound_since low d0) (AdminExpenseVoidHandler v)"
  "keeps (sound_since low d0) (AdminExpenseCategoriesHandler low meth n)"
proof -
  have "keeps (sound_since low d0) (createExpense b)" unfolding createExpense_def Let_def
    by (intro keeps_bindE keeps_of_sum keeps_guard keeps_prod keeps_get_clock keeps_lift_err expense_write.write_keeps
        keeps_NoteActivity keeps_expense_reads)
  then show "keeps (sound_since low d0) (AdminExpensesHandler meth q b)"
    unfolding AdminExpensesHandler_def
    by (cases meth) (auto intro!: keeps_bindE keeps_ret keeps_fail keeps_expense_reads)
  show "keeps (sound_since low d0) (AdminExpenseVoidHandler v)" unfolding AdminExpenseVoidHandler_def Let_def
    by (intro keeps_bindE keeps_of_sum keeps_guard keeps_NoteActivity keeps_lift_err expense_void.write_keeps keeps_expense_reads)
  have "keeps (sound_since low d0) (insert_id Expense_Categories (insert_category low name))" for name
    by (rule keeps_insert_id) (rule insert_category_keeps)
  then have "keeps (sound_since low d0) (add_category low n)" unfolding add_category_def Let_def
    by (intro keeps_bindE keeps_of_sum keeps_guard keeps_lift_err keeps_with_text keeps_NoteActivity keeps_ret)
  then show "keeps (sound_since low d0) (AdminExpenseCategoriesHandler low meth n)"
    unfolding AdminExpenseCategoriesHandler_def list_categories_def
    by (cases meth) (auto intro!: keeps_bindE keeps_ret keeps_fail keeps_lift_err keeps_query)
qed

lemma sound_teachers:
  "sound_since low d0 d \<Longrightarrow> e_id ` set (teachers d) \<subseteq> e_id ` set ts \<Longrightarrow> sound_since low d0 (d\<lparr>teachers := ts\<rparr>)"
proof -
  assume s: "sound_since low d0 d" and ids: "e_id ` set (teachers d) \<subseteq> e_id ` set ts"
  have "expenses_ok low (d\<lparr>teachers := ts\<rparr>)"
    by (rule expenses_ok_cong [of _ d]) (use s ids in \<open>simp_all add: sound_since_def\<close>)
  moreover have "expenses_grow d (d\<lparr>teachers := ts\<rparr>)" by (rule grow_same) simp
  ultimately show ?thesis using s grow_trans unfolding sound_since_def by blast
qed

lemma teacher_handler_sound: "keeps (sound_since low d0) (AdminTeachersHandler coll low' meth q b)"
proof (rule keeps_teachers_handler)
  fix r
  have ins: "sound_since low d0 d \<Longrightarrow> insert_teacher r now i d = Inr (z, d') \<Longrightarrow> sound_since low d0 d'" for now i d z d'
    by (auto simp: insert_teacher_def Let_def split: option.splits intro!: sound_teachers)
  have upd: "sound_since low d0 d \<Longrightarrow> update_teacher r now d = Inr (z, d') \<Longrightarrow> sound_since low d0 d'" for now d z d'
  proof (cases z)
    case (Some t)
    assume s: "sound_since low d0 d" and "update_teacher r now d = Inr (z, d')"
    then have t: "e_id t = tw_id r" and d': "d' = d\<lparr>teachers := upd_where (\<lambda>t. e_id t = tw_id r) (\<lambda>_. t) (teachers d)\<rparr>"
      using Some by (auto elim!: update_teacher_ok simp: teacher_row_def)
    have "map e_id (upd_where (\<lambda>t. e_id t = tw_id r) (\<lambda>_. t) (teachers d)) = map e_id (teachers d)"
      by (simp add: upd_where_def t)
    then have "e_id ` set (upd_where (\<lambda>t. e_id t = tw_id r) (\<lambda>_. t) (teachers d)) = e_id ` set (teachers d)"
      by (metis list.set_map)
    then show ?thesis using s unfolding d' by (intro sound_teachers) simp_all
  qed (auto simp: update_teacher_def Let_def split: option.splits)
  have "keeps (sound_since low d0) (store_teacher r)" unfolding store_teacher_def
    by (intro keeps_bindE keeps_get_clock with_int4_laws(1) keeps_with_text keeps_if keeps_insert_id keeps_stmt)
      (auto intro: ins upd)
  then show "keeps (sound_since low d0) (writeTeacher r)"
    unfolding writeTeacher_def write_teacher_def tag_free_def
    by (intro keeps_in_tx keeps_keeps_ok keeps_bindE keeps_lift_err keeps_of_option keeps_ret keeps_option keeps_with_text
        keeps_query keeps_guard)
qed

text \<open>
  One request to a handler of this file or of the teachers, or anything else the system does, which
  leaves the three tables alone.
\<close>

inductive expense_step :: "(nat \<Rightarrow> nat) \<Rightarrow> world \<Rightarrow> world \<Rightarrow> bool" for low where
  expenses_request: "AdminExpensesHandler meth q b w = (r, w') \<Longrightarrow> expense_step low w w'"
| void_request: "AdminExpenseVoidHandler v w = (r, w') \<Longrightarrow> expense_step low w w'"
| categories_request: "AdminExpenseCategoriesHandler low meth n w = (r, w') \<Longrightarrow> expense_step low w w'"
| teachers_request: "AdminTeachersHandler coll low' meth tq tb w = (r, w') \<Longrightarrow> expense_step low w w'"
| elsewhere: "expenses (db w') = expenses (db w) \<Longrightarrow> expense_categories (db w') = expense_categories (db w) \<Longrightarrow>
    teachers (db w') = teachers (db w) \<Longrightarrow> expense_step low w w'"

lemma step_sound: "expense_step low w w' \<Longrightarrow> sound_since low d0 (db w) \<Longrightarrow> sound_since low d0 (db w')"
proof (induction rule: expense_step.induct)
  case (expenses_request meth q b w r w')
  then show ?case by (metis keepsD expense_handlers_keep(1))
next
  case (void_request v w r w')
  then show ?case by (metis keepsD expense_handlers_keep(2))
next
  case (categories_request meth n w r w')
  then show ?case by (metis keepsD expense_handlers_keep(3))
next
  case (teachers_request coll low' meth tq tb w r w')
  then show ?case by (metis keepsD teacher_handler_sound)
next
  case (elsewhere w' w)
  have "expenses_ok low (db w')"
    by (rule expenses_ok_cong [of _ "db w"]) (use elsewhere in \<open>simp_all add: sound_since_def\<close>)
  moreover have "expenses_grow (db w) (db w')" using elsewhere by (simp add: grow_same)
  ultimately show ?case using elsewhere grow_trans unfolding sound_since_def by blast
qed

lemma steps_sound: "(expense_step low)\<^sup>*\<^sup>* w w' \<Longrightarrow> sound_since low d0 (db w) \<Longrightarrow> sound_since low d0 (db w')"
  by (induction rule: rtranclp_induct) (auto intro: step_sound)

section \<open>Properties\<close>

text \<open>C11. However many requests are served and whatever fails, no expense is edited or deleted, only voided,
  and once; only expenses of the salary category name a teacher; every expense has an existing category
  and teacher; and the rows stay within the constraints of their tables.\<close>

theorem expenses_only_grow:
  assumes "(expense_step low)\<^sup>*\<^sup>* w w'" "expenses_ok low (db w)"
  shows "expenses_ok low (db w') \<and> expenses_grow (db w) (db w')"
  using steps_sound [OF assms(1), of "db w"] assms(2) by (simp add: sound_since_def)

lemma active_not_voided: "u ''active'' \<noteq> u ''voided''"
  by simp

lemma sum_active_list: "sum_active es t = t + sum_where (\<lambda>e. ex_status e = u ''active'') ex_amount es"
  by (induction es t rule: sum_active.induct) auto

lemma sum_scanned:
  "(\<And>x. x \<in> set xs \<Longrightarrow> category_of d (x_category x) \<noteq> None) \<Longrightarrow>
   sum_where (\<lambda>e. ex_status e = u ''active'') ex_amount (List.map_filter (scanExpense d) xs) =
   sum_where (\<lambda>x. x_void x = None) x_amount xs"
proof (induction xs)
  case (Cons x xs)
  then obtain c where c: "category_of d (x_category x) = Some c" by fastforce
  have "sum_where (\<lambda>e. ex_status e = u ''active'') ex_amount (List.map_filter (scanExpense d) xs) =
      sum_where (\<lambda>x. x_void x = None) x_amount xs" using Cons by simp
  moreover obtain e where "scanExpense d x = Some e" "ex_amount e = x_amount x"
    "ex_status e = u ''active'' \<longleftrightarrow> x_void x = None"
    using c by (simp add: scanExpense_def)
  ultimately show ?case by (simp add: List.map_filter_simps)
qed (simp add: List.map_filter_simps)

lemma expenseYear_db: "expenseYear yp w = (Inr y, w1) \<Longrightarrow> db w1 = db w"
  by (auto simp: expenseYear_def currentAcademicYear_def ok_iffs Let_def dest!: query_okD split: option.splits if_splits)

lemma expenseYear_eq: "expenseYear yp w = (Inr y, w1) \<Longrightarrow> expenseYear yp w2 = (Inr y', w3) \<Longrightarrow> db w2 = db w \<Longrightarrow> y' = y"
proof -
  have v: "y = (if TrimSpace yp = [] then the (stored_year (db w)) else TrimSpace yp)"
    if "expenseYear yp w = (Inr y, w1)" for y w w1
    using that
    by (auto simp: expenseYear_def currentAcademicYear_def ok_iffs Let_def dest!: query_okD split: option.splits if_splits)
      (metis option.sel)+
  assume "expenseYear yp w = (Inr y, w1)" "expenseYear yp w2 = (Inr y', w3)" "db w2 = db w"
  from v [OF this(1)] v [OF this(2)] this(3) show ?thesis by simp
qed

lemma summary_ok:
  assumes "AdminExpensesSummaryHandler yp [] w = (Inr (y, cat, totals, byCategory, byMonth), w')"
  obtains w1 ms c where "expenseYear yp w = (Inr y, w1)"
    "add_collected_months (collected_months y (db w)) (add_expense_months (expense_months y None (db w)) []) 0 = (ms, c)"
    "totals = \<lparr>et_expenses = sum_categories (by_category_query y None (db w)), et_collected = Some c,
        et_difference = Some (c - sum_categories (by_category_query y None (db w)))\<rparr>"
    "byCategory = by_category_query y None (db w)" "byMonth = sort_key em_month (map month_difference ms)"
proof -
  from assms obtain y0 w1 where y0: "expenseYear yp w = (Inr y0, w1)"
    and k: "bindE (lift_err (respondTuitionError \<circ> Failed) (query (by_category_query y0 None))) (\<lambda>byCategory.
      bindE (lift_err (respondTuitionError \<circ> Failed) (query (expense_months y0 None))) (\<lambda>xs.
      bindE (lift_err (respondTuitionError \<circ> Failed) (query (collected_months y0))) (\<lambda>ps.
      case add_collected_months ps (add_expense_months xs []) 0 of (months, collected) \<Rightarrow>
        ret (y0, None, \<lparr>et_expenses = sum_categories byCategory, et_collected = Some collected,
           et_difference = Some (collected - sum_categories byCategory)\<rparr>, byCategory,
         sort_key em_month (map month_difference months))))) w1 = (Inr (y, cat, totals, byCategory, byMonth), w')"
    by (auto simp: AdminExpensesSummaryHandler_def optionalQueryID_def bindE_def [of "expenseYear _"]
        bindE_def [of "of_sum _"] bindE_def [of "ret _"] run_simps Let_def split: prod.splits sum.splits)
  have d: "db w1 = db w" using expenseYear_db [OF y0] .
  obtain ms c where ms:
    "add_collected_months (collected_months y0 (db w)) (add_expense_months (expense_months y0 None (db w)) []) 0 = (ms, c)"
    by fastforce
  from k obtain bc xs ps w2 w3 w4 where q: "query (by_category_query y0 None) w1 = (Inr bc, w2)"
      "query (expense_months y0 None) w2 = (Inr xs, w3)" "query (collected_months y0) w3 = (Inr ps, w4)"
    and fin: "(case add_collected_months ps (add_expense_months xs []) 0 of (months, collected) \<Rightarrow>
        ret (y0, None, \<lparr>et_expenses = sum_categories bc, et_collected = Some collected,
           et_difference = Some (collected - sum_categories bc)\<rparr>, bc,
         sort_key em_month (map month_difference months))) w4 = (Inr (y, cat, totals, byCategory, byMonth) :: refusal + _, w')"
    unfolding bindE_ok lift_err_ok by blast
  have "bc = by_category_query y0 None (db w)" "xs = expense_months y0 None (db w)" "ps = collected_months y0 (db w)"
    using query_okD [OF q(1)] query_okD [OF q(2)] query_okD [OF q(3)] d by simp_all
  with fin ms have "y = y0 \<and> totals = \<lparr>et_expenses = sum_categories (by_category_query y (None :: int option) (db w)), et_collected = Some c,
        et_difference = Some (c - sum_categories (by_category_query y None (db w)))\<rparr> \<and>
      byCategory = by_category_query y None (db w) \<and> byMonth = sort_key em_month (map month_difference ms)"
    by (auto simp: ok_iffs)
  with ms y0 show thesis by (intro that) auto
qed

lemma list_ok:
  assumes "listExpenses \<lparr>xp_year = yp, xp_category = [], xp_teacher = [], xp_month = []\<rparr> w = (Inr (y, listed, es), w')"
  obtains w1 where "expenseYear yp w = (Inr y, w1)" "listed = sum_active (expense_query y None None None (db w)) 0"
proof -
  from assms obtain w1 where y: "expenseYear yp w = (Inr y, w1)"
    and k: "query (expense_query y None None None) w1 = (Inr es, w')" "listed = sum_active es 0"
    by (auto simp: listExpenses_def optionalQueryID_def optional_month_def ok_iffs dest!: with_int4_laws(3))
  show thesis by (rule that [OF y]) (use k query_okD [OF k(1)] expenseYear_db [OF y] in simp)
qed

lemma by_category_sum:
  assumes "expenses_ok low d"
  shows "sum_categories (by_category_query y None d) = sum_where (live_expense y) x_amount (expenses d)"
proof -
  have "sum_list (map (\<lambda>c. sum_where (\<lambda>x. x_category x = g_id c \<and> live_expense y x) x_amount (expenses d)) (expense_categories d)) =
      sum_list (map (\<lambda>k. sum_where (\<lambda>x. x_category x = k \<and> live_expense y x) x_amount (expenses d)) (map g_id (expense_categories d)))"
    by (simp add: o_def)
  also have "\<dots> = sum_where (live_expense y) x_amount (expenses d)"
    using assms by (intro sum_by_key) (force simp: expenses_ok_def unique_key_def)+
  finally show ?thesis by (simp add: sum_categories_list by_category_query_def o_def)
qed

lemma expense_months_sum:
  "sum_list (map snd (expense_months y None d)) = sum_where (live_expense y) x_amount (expenses d)"
  by (simp add: expense_months_def sum_grouped sum_where_filter)

lemma collected_months_sum:
  "sum_list (map snd (collected_months y d)) = sum_where (collected_payment y d) m_amount (tuition_payments d)"
  by (simp add: collected_months_def sum_grouped sum_where_filter)

text \<open>C6. The summary of a year adds up: the expenses are the sum of the categories, of the months, of the
  expenses not voided, and the total the list of the same year shows; the tuition collected is the sum of
  the year's payments not voided, and of the months; the months are listed once each, in order; and every
  difference is collected minus expenses.\<close>

theorem summary_adds_up:
  assumes ok: "expenses_ok low (db w)"
    and run: "AdminExpensesSummaryHandler yp [] w = (Inr (y, cat, totals, byCategory, byMonth), w')"
    and list: "listExpenses \<lparr>xp_year = yp, xp_category = [], xp_teacher = [], xp_month = []\<rparr> w2 = (Inr (y2, listed, es), w3)"
      "db w2 = db w"
  shows "y2 = y \<and> et_expenses totals = listed \<and>
    et_expenses totals = sum_where (live_expense y) x_amount (expenses (db w)) \<and>
    et_expenses totals = sum_list (map ct_total byCategory) \<and> et_expenses totals = sum_list (map et_expenses byMonth) \<and>
    et_collected totals = Some (sum_where (collected_payment y (db w)) m_amount (tuition_payments (db w))) \<and>
    et_collected totals = Some (sum_list (map collected_or_0 byMonth)) \<and>
    et_difference totals = Some (the (et_collected totals) - et_expenses totals) \<and>
    (\<forall>m \<in> set byMonth. et_difference m = Some (the (et_collected m) - et_expenses m)) \<and>
    sorted (map em_month byMonth) \<and> distinct (map em_month byMonth)"
proof -
  let ?d = "db w"
  let ?ms = "add_expense_months (expense_months y None ?d) []"
  from run obtain w1 ms c where y: "expenseYear yp w = (Inr y, w1)"
    and ms: "add_collected_months (collected_months y ?d) ?ms 0 = (ms, c)"
    and res: "totals = \<lparr>et_expenses = sum_categories (by_category_query y None ?d), et_collected = Some c,
        et_difference = Some (c - sum_categories (by_category_query y None ?d))\<rparr>"
      "byCategory = by_category_query y None ?d" "byMonth = sort_key em_month (map month_difference ms)"
    by (rule summary_ok)
  have e: "distinct (map em_month ?ms) \<and> (\<forall>e \<in> set ?ms. et_collected e = None) \<and>
      sum_list (map et_expenses ?ms) = sum_where (live_expense y) x_amount (expenses ?d)"
    using add_expense_months_sum [of "expense_months y None ?d" "[]"] expense_months_sum [of y ?d]
    by (simp add: expense_months_def distinct_grouped)
  have "sum_list (map collected_or_0 ?ms) = 0"
    using e by (simp add: collected_or_0_def sum_list_eq_0_iff cong: map_cong)
  moreover have "distinct (map fst (collected_months y ?d))" by (simp add: collected_months_def distinct_grouped)
  ultimately have m: "distinct (map em_month ms)" "c = sum_where (collected_payment y ?d) m_amount (tuition_payments ?d)"
    "sum_list (map et_expenses ms) = sum_where (live_expense y) x_amount (expenses ?d)" "sum_list (map collected_or_0 ms) = c"
    using add_collected_months_sum [OF _ _ _ ms] e collected_months_sum [of y ?d] by auto
  have d: "collected_or_0 (month_difference e) = collected_or_0 e" for e by (simp add: collected_or_0_def)
  have "map em_month byMonth = sort_key (\<lambda>m. m) (map em_month ms)"
    using map_sort_key [of em_month "\<lambda>m. m" "map month_difference ms"] by (simp add: res(3) o_def)
  then have shown: "sum_list (map et_expenses byMonth) = sum_where (live_expense y) x_amount (expenses ?d)"
    "sum_list (map collected_or_0 byMonth) = c" "distinct (map em_month byMonth)" "sorted (map em_month byMonth)"
    using m by (simp_all add: res(3) o_def d)
  have "y2 = y \<and> listed = sum_where (live_expense y) x_amount (expenses ?d)"
  proof -
    from list(1) obtain w4 where y2: "expenseYear yp w2 = (Inr y2, w4)" "listed = sum_active (expense_query y2 None None None (db w2)) 0"
      by (rule list_ok)
    have "y2 = y" using expenseYear_eq [OF y y2(1) list(2)] .
    moreover have "listed = sum_where (\<lambda>x. x_year x = y2 \<and> x_void x = None) x_amount (expenses ?d)"
      using y2(2) list(2) sum_scanned [of "rev (sort_key (\<lambda>x. (x_date x, x_id x)) (filter (expense_match y2 None None None) (expenses ?d)))" ?d]
        expense_category [OF ok]
      by (simp add: sum_active_list expense_query_def expense_match_def sum_where_filter)
    ultimately show ?thesis by (simp add: live_expense_def [abs_def])
  qed
  then show ?thesis
    using res(1,2) shown m(2) by_category_sum [OF ok, of y] by (auto simp: res(3) sum_categories_list)
qed

section \<open>An example\<close>

definition rent :: expense where
  "rent = \<lparr>x_id = 1, x_category = 2, x_year = u ''2025-2026'', x_amount = 500, x_date = Date 2025 10 2, x_note = None,
     x_teacher = None, x_created = ledger_now, x_void = None\<rparr>"

definition mistake :: expense where
  "mistake = \<lparr>x_id = 2, x_category = 2, x_year = u ''2025-2026'', x_amount = 70, x_date = Date 2025 10 3, x_note = None,
     x_teacher = None, x_created = ledger_now, x_void = Some (ledger_now, u ''wrong'')\<rparr>"

definition spent_db :: db where
  "spent_db = ledger_db\<lparr>expense_categories := [\<lparr>g_id = 1, g_name = u ''salaries'', g_salary = True\<rparr>,
     \<lparr>g_id = 2, g_name = u ''rent'', g_salary = False\<rparr>], expenses := [rent, mistake]\<rparr>"

lemma spent_simps:
  "settings spent_db = settings ledger_db" "expenses spent_db = [rent, mistake]"
  "expense_categories spent_db = [\<lparr>g_id = 1, g_name = u ''salaries'', g_salary = True\<rparr>,
     \<lparr>g_id = 2, g_name = u ''rent'', g_salary = False\<rparr>]"
  "tuition_payments spent_db = []" "tuition_accounts spent_db = []" "teachers spent_db = []"
  by (simp_all add: spent_db_def ledger_db_def empty_db_def)

lemma spent_ok: "expenses_ok (\<lambda>c. c) spent_db"
  by (simp add: expenses_ok_def spent_simps unique_key_def category_checks_def expense_checks_def rent_def mistake_def
      ledger_year between_def btrim_def trim_by_def) (simp add: u_def)

theorem expenses_only_grow_witness:
  "let w' = snd (AdminExpenseVoidHandler (Body \<lparr>ev_id = 1, ev_reason = u ''twice''\<rparr>) (quiet spent_db ledger_now)) in
   expenses_ok (\<lambda>c. c) (db w') \<and> expenses_grow spent_db (db w')"
  using expenses_only_grow [of "\<lambda>c. c" "quiet spent_db ledger_now"
      "snd (AdminExpenseVoidHandler (Body \<lparr>ev_id = 1, ev_reason = u ''twice''\<rparr>) (quiet spent_db ledger_now))"]
  by (simp add: spent_ok Let_def r_into_rtranclp void_request [OF surjective_pairing])

lemma spent_year: "expenseYear [] (quiet spent_db now) = (Inr (u ''2025-2026''), quiet spent_db now)"
  by (simp add: expenseYear_def TrimSpace_def trim_by_def bindE_def lift_err_run run_simps ledger_current spent_simps)

lemma october: "yyyy_mm (Date 2025 10 d) = u ''2025-10''"
  by (simp add: yyyy_mm_def pad4_def pad2_def u_def)

theorem summary_adds_up_witness:
  "\<exists>totals byCategory byMonth listed es.
     AdminExpensesSummaryHandler [] [] (quiet spent_db ledger_now) =
       (Inr (u ''2025-2026'', None, totals, byCategory, byMonth), quiet spent_db ledger_now) \<and>
     listExpenses \<lparr>xp_year = [], xp_category = [], xp_teacher = [], xp_month = []\<rparr> (quiet spent_db ledger_now) =
       (Inr (u ''2025-2026'', listed, es), quiet spent_db ledger_now) \<and>
     listed = 500 \<and> et_expenses totals = listed \<and> et_difference totals = Some (- 500) \<and>
     et_expenses totals = sum_list (map et_expenses byMonth)"
proof -
  let ?w = "quiet spent_db ledger_now"
  let ?y = "u ''2025-2026''"
  have m: "expense_months ?y None spent_db = [(u ''2025-10'', 500)]" "collected_months ?y spent_db = []"
    by (simp_all add: expense_months_def collected_months_def grouped_def spent_simps live_expense_def rent_def mistake_def october)
  have c: "sum_categories (by_category_query ?y None spent_db) = 500"
    by (simp add: by_category_query_def spent_simps live_expense_def rent_def mistake_def sum_categories_list)
  obtain totals byCategory byMonth where run:
      "AdminExpensesSummaryHandler [] [] ?w = (Inr (?y, None, totals, byCategory, byMonth), ?w)" "et_difference totals = Some (- 500)"
    using m c
    by (simp add: AdminExpensesSummaryHandler_def bindE_def lift_err_run run_simps spent_year optionalQueryID_def Let_def)
  obtain listed es where list:
      "listExpenses \<lparr>xp_year = [], xp_category = [], xp_teacher = [], xp_month = []\<rparr> ?w = (Inr (?y, listed, es), ?w)"
    by (simp add: listExpenses_def bindE_def lift_err_run run_simps spent_year optionalQueryID_def optional_month_def
        with_int4_def opt_list_def)
  have "et_expenses totals = sum_where (live_expense ?y) x_amount (expenses spent_db) \<and> et_expenses totals = listed \<and>
      et_expenses totals = sum_list (map et_expenses byMonth)"
    using summary_adds_up [OF _ run(1) list, of "\<lambda>c. c"] spent_ok by simp
  moreover have "sum_where (live_expense ?y) x_amount (expenses spent_db) = 500"
    by (simp add: spent_simps live_expense_def rent_def mistake_def)
  ultimately show ?thesis using run list by (intro exI [of _ totals] exI [of _ byCategory] exI [of _ byMonth] exI) auto
qed

end
