(* ===== verification/Broadcasts.thy ===== *)
theory Broadcasts
  imports Notify Phone
begin

text \<open>
  Broadcasts to parents: the engine of \<open>internal/notify/broadcast.go\<close> (audience, recording, the batched
  push) and the admin endpoints of \<open>internal/handlers/broadcasts.go\<close>. The table lock makes creating a
  broadcast one step. Firebase's multicast call is a parameter: \<open>None\<close> when no client is configured;
  otherwise its answer to a batch, one response per token, or \<open>None\<close> when the call as a whole fails.
\<close>

section \<open>The engine\<close>

definition AudienceAll :: str where "AudienceAll = u ''all''"

definition AudienceParent :: str where "AudienceParent = u ''parent''"

definition AudienceClass :: str where "AudienceClass = u ''class''"

record Audience =
  au_type :: str
  au_grade :: "str option"
  au_section :: "str option"
  au_parent :: "int option"

datatype berr = ErrNoRecipients | BroadcastDB err

definition in_audience :: "db \<Rightarrow> Audience \<Rightarrow> parent \<Rightarrow> bool" where
  \<comment> \<open>\<open>recipientsSQL\<close>; a comparison with null is not true\<close>
  "in_audience d a p \<longleftrightarrow>
     (if au_type a = AudienceAll then True
      else if au_type a = AudienceParent then au_parent a = Some (p_id p)
      else list_ex (\<lambda>s. s_parent s = Some (p_id p) \<and> s_active s \<and>
             (case au_grade a of None \<Rightarrow> True | Some g \<Rightarrow> s_grade s = Some g) \<and>
             (case au_section a of None \<Rightarrow> True | Some c \<Rightarrow> s_section s = Some c)) (students d))"

definition recipients :: "Audience \<Rightarrow> db \<Rightarrow> parent list" where
  "recipients a d = sort_key p_id (filter (in_audience d a) (parents d))"

definition audience_texts :: "Audience \<Rightarrow> str list" where
  "audience_texts a = au_type a # opt_list (au_grade a) @ opt_list (au_section a)"

definition CountRecipients :: "Audience \<Rightarrow> (err, int) tx" where
  "CountRecipients a = with_text (audience_texts a) (query (\<lambda>d. count_where (in_audience d a) (parents d)))"

definition LockBroadcasts :: "(err, unit) tx" where
  "LockBroadcasts = control"

definition seconds_before :: "nat \<Rightarrow> stamp \<Rightarrow> stamp" where
  \<comment> \<open>\<open>t - make_interval(secs => n)\<close> for less than a day\<close>
  "seconds_before n t =
     (if n * sec \<le> clock_of t then At (on_date t) (clock_of t - n * sec)
      else At (prev_day (on_date t)) (clock_of t + day_length - n * sec))"

definition RecentDuplicate :: "str \<Rightarrow> str \<Rightarrow> Audience \<Rightarrow> nat \<Rightarrow> (err, bool) tx" where
  "RecentDuplicate title body a within =
     bindE get_clock (\<lambda>now.
     with_text ([title, body] @ audience_texts a) (query (\<lambda>d.
       list_ex (\<lambda>b. b_title b = title \<and> b_body b = body \<and> b_type b = au_type a \<and> b_parent b = au_parent a \<and>
         b_grade b = au_grade a \<and> b_section b = au_section a \<and> seconds_before within (to_micro now) < b_created b)
         (broadcasts d))))"

definition broadcast_checks :: "broadcast \<Rightarrow> bool" where
  "broadcast_checks b \<longleftrightarrow> between 1 100 (b_title b) \<and> between 1 500 (b_body b) \<and>
     (case b_grade b of None \<Rightarrow> True | Some s \<Rightarrow> between 1 50 s) \<and>
     (case b_section b of None \<Rightarrow> True | Some s \<Rightarrow> between 1 50 s) \<and> 0 \<le> b_count b \<and>
     (b_type b = u ''all'' \<and> b_grade b = None \<and> b_section b = None \<and> b_parent b = None \<or>
      b_type b = u ''parent'' \<and> b_grade b = None \<and> b_section b = None \<or>
      b_type b = u ''class'' \<and> b_parent b = None \<and> (b_grade b \<noteq> None \<or> b_section b \<noteq> None))"

definition insert_broadcast :: "str \<Rightarrow> str \<Rightarrow> Audience \<Rightarrow> stamp \<Rightarrow> int \<Rightarrow> db \<Rightarrow> err + int \<times> db" where
  "insert_broadcast title body a now i d =
     (let b = \<lparr>b_id = i, b_title = title, b_body = body, b_type = au_type a, b_grade = au_grade a, b_section = au_section a,
               b_parent = au_parent a, b_count = 0, b_created = to_micro now\<rparr> in
      if \<not> broadcast_checks b then Inl (check_violation ''broadcasts_check'')
      else if i \<in> b_id ` set (broadcasts d) then Inl (unique_violation ''broadcasts_pkey'')
      else if (case au_parent a of None \<Rightarrow> False | Some p \<Rightarrow> p \<notin> p_id ` set (parents d))
      then Inl (foreign_key_violation ''broadcasts_audience_parent_id_fkey'')
      else Inr (i, d\<lparr>broadcasts := broadcasts d @ [b]\<rparr>))"

fun add_notices ::
    "str \<Rightarrow> str \<Rightarrow> int \<Rightarrow> stamp \<Rightarrow> int \<Rightarrow> parent list \<Rightarrow> notification list \<Rightarrow> int \<times> (err + notification list)" where
  "add_notices title body bid now i [] ns = (i, Inr ns)"
| "add_notices title body bid now i (p # ps) ns =
     (if 255 < length title then (i + 1, Inl (Pg (u ''22001'') []))
      else if i \<in> n_id ` set ns then (i + 1, Inl (unique_violation ''notifications_pkey''))
      else add_notices title body bid now (i + 1) ps (ns @
        [\<lparr>n_id = i, n_parent = Some (p_id p), n_title = title, n_body = body, n_read = False, n_created = to_micro now,
          n_broadcast = Some bid\<rparr>]))"

definition notify_recipients :: "str \<Rightarrow> str \<Rightarrow> Audience \<Rightarrow> int \<Rightarrow> stamp \<Rightarrow> (err, int) tx" where
  \<comment> \<open>\<open>INSERT INTO notifications ... SELECT\<close>, with the rows affected\<close>
  "notify_recipients title body a bid now =
     insert_ids Notifications (\<lambda>i d.
       case add_notices title body bid now i (recipients a d) (notifications d) of
         (n, Inl e) \<Rightarrow> (n, Inl e)
       | (n, Inr ns) \<Rightarrow> (n, Inr (int (length (recipients a d)), d\<lparr>notifications := ns\<rparr>)))"

definition CreateBroadcast :: "str \<Rightarrow> str \<Rightarrow> Audience \<Rightarrow> (berr, int \<times> int) tx" where
  "CreateBroadcast title body a =
     bindE get_clock (\<lambda>now.
     bindE (lift_err BroadcastDB (with_int4 (opt_list (au_parent a)) (with_text ([title, body] @ audience_texts a)
       (insert_id Broadcasts (insert_broadcast title body a now))))) (\<lambda>i.
     bindE (lift_err BroadcastDB (notify_recipients title body a i now)) (\<lambda>n.
     bindE (guard (n \<noteq> 0) ErrNoRecipients) (\<lambda>_.
     bindE (lift_err BroadcastDB (exec (\<lambda>d. d\<lparr>broadcasts := upd_where (\<lambda>b. b_id b = i) (\<lambda>b. b\<lparr>b_count := n\<rparr>) (broadcasts d)\<rparr>))) (\<lambda>_.
     ret (i, n))))))"

type_synonym multicast = "(str list \<Rightarrow> str \<Rightarrow> str \<Rightarrow> fcm list option) option"

definition PushBatchSize :: nat where "PushBatchSize = 500"

function batches :: "'a list \<Rightarrow> 'a list list" where
  \<comment> \<open>the slices \<open>tokens[start:min(start+PushBatchSize, len(tokens))]\<close> of the loop\<close>
  "batches ts = (if ts = [] then [] else take PushBatchSize ts # batches (drop PushBatchSize ts))"
  by pat_completeness auto
termination
  by (relation "measure length") (auto simp: PushBatchSize_def)

declare batches.simps [simp del]

fun clear_unregistered :: "str list \<Rightarrow> fcm list \<Rightarrow> ('e, unit) tx" where
  "clear_unregistered (t # ts) (r # rs) =
     bindE (if r = Unregistered then clearDeadToken t else ret ()) (\<lambda>_. clear_unregistered ts rs)"
| "clear_unregistered _ _ = ret ()"

definition push_batch :: "(str list \<Rightarrow> str \<Rightarrow> str \<Rightarrow> fcm list option) \<Rightarrow> str \<Rightarrow> str \<Rightarrow> str list \<Rightarrow> ('e, unit) tx" where
  "push_batch send title body batch w =
     (let w' = w\<lparr>outbox := outbox w @ map (\<lambda>t. \<lparr>push_token = t, push_title = title, push_body = body\<rparr>) batch\<rparr> in
      case send batch title body of
        None \<Rightarrow> (Inr (), w')
      | Some responses \<Rightarrow> clear_unregistered batch responses w')"

fun push_batches :: "(str list \<Rightarrow> str \<Rightarrow> str \<Rightarrow> fcm list option) \<Rightarrow> str \<Rightarrow> str \<Rightarrow> str list list \<Rightarrow> ('e, unit) tx" where
  "push_batches send title body [] = ret ()"
| "push_batches send title body (b # bs) = bindE (push_batch send title body b) (\<lambda>_. push_batches send title body bs)"

definition broadcastTokens :: "int \<Rightarrow> db \<Rightarrow> str list" where
  "broadcastTokens bid d =
     map t_token (sort_key t_id (concat (map (\<lambda>n. filter (\<lambda>t. n_parent n = Some (t_parent t)) (device_tokens d))
       (filter (\<lambda>n. n_broadcast n = Some bid) (notifications d)))))"

definition PushBroadcast :: "multicast \<Rightarrow> int \<Rightarrow> str \<Rightarrow> str \<Rightarrow> ('e, unit) tx" where
  "PushBroadcast client bid title body =
     (case client of
        None \<Rightarrow> ret ()
      | Some send \<Rightarrow>
          catchE (bindE (query (broadcastTokens bid)) (\<lambda>tokens. push_batches send title body (batches tokens)))
            (\<lambda>_ :: err. ret ()))"

section \<open>Checking a request\<close>

definition MaxBroadcastTitleChars :: nat where "MaxBroadcastTitleChars = 100"

definition MaxBroadcastBodyChars :: nat where "MaxBroadcastBodyChars = 500"

definition BroadcastsPageSize :: nat where "BroadcastsPageSize = 50"

definition BroadcastDuplicateWait :: nat where
  \<comment> \<open>in seconds\<close>
  "BroadcastDuplicateWait = 60"

definition InvalidParentPhoneMessage :: string where
  "InvalidParentPhoneMessage = ''parent_phone must be an Iraqi mobile number, for example 07XXXXXXXXX or +9647XXXXXXXXX''"

definition broadcastText :: "string \<Rightarrow> json option \<Rightarrow> nat \<Rightarrow> str + str" where
  \<comment> \<open>the problem, or the text\<close>
  "broadcastText name raw mx =
     (case raw of
        None \<Rightarrow> Inl (u (name @ '' is required''))
      | Some JNull \<Rightarrow> Inl (u (name @ '' is required''))
      | Some JBad \<Rightarrow> Inl (u (name @ '' must be text''))
      | Some (JStr v) \<Rightarrow>
          if 0 \<in> set v then Inl (u (name @ '' must be text''))
          else if TrimSpace v = [] then Inl (u (name @ '' is required''))
          else if tooLong (u name) (TrimSpace v) mx \<noteq> [] then Inl (tooLong (u name) (TrimSpace v) mx)
          else Inr (TrimSpace v)
      | Some _ \<Rightarrow> Inl (u (name @ '' must be a string'')))"

definition audienceClassField :: "string \<Rightarrow> str option \<Rightarrow> str + str option" where
  "audienceClassField name v =
     (case v of
        None \<Rightarrow> Inr None
      | Some s \<Rightarrow>
          if TrimSpace s = [] then Inl (u (name @ '' must not be blank''))
          else if tooLong (u name) (TrimSpace s) 50 \<noteq> [] then Inl (tooLong (u name) (TrimSpace s) 50)
          else Inr (Some (TrimSpace s)))"

record broadcastAudienceRequest =
  ar_type :: "str option"
  ar_grade :: "str option"
  ar_section :: "str option"
  ar_phone :: "str option"

definition simple_audience :: "str \<Rightarrow> Audience" where
  "simple_audience t = \<lparr>au_type = t, au_grade = None, au_section = None, au_parent = None\<rparr>"

definition parseAudience :: "broadcastAudienceRequest option \<Rightarrow> str + Audience \<times> str" where
  "parseAudience req =
     (case req of
        None \<Rightarrow> Inl (u ''audience is required'')
      | Some a \<Rightarrow>
     (case ar_type a of
        None \<Rightarrow> Inl (u ''audience.type is required'')
      | Some t \<Rightarrow>
          if t = AudienceAll then
            (if ar_grade a \<noteq> None \<or> ar_section a \<noteq> None \<or> ar_phone a \<noteq> None
             then Inl (u ''audience.grade, audience.section and audience.parent_phone must not be sent when audience.type is all'')
             else Inr (simple_audience AudienceAll, []))
          else if t = AudienceParent then
            (if ar_grade a \<noteq> None \<or> ar_section a \<noteq> None
             then Inl (u ''audience.grade and audience.section must not be sent when audience.type is parent'')
             else case ar_phone a of
               None \<Rightarrow> Inl (u ''audience.parent_phone is required when audience.type is parent'')
             | Some raw \<Rightarrow>
                 (case Normalize raw of
                    None \<Rightarrow> Inl (u (''audience.'' @ InvalidParentPhoneMessage))
                  | Some canonical \<Rightarrow> Inr (simple_audience AudienceParent, canonical)))
          else if t = AudienceClass then
            (if ar_phone a \<noteq> None
             then Inl (u ''audience.parent_phone must not be sent when audience.type is class'')
             else case audienceClassField ''audience.grade'' (ar_grade a) of
               Inl e \<Rightarrow> Inl e
             | Inr grade \<Rightarrow>
                 (case audienceClassField ''audience.section'' (ar_section a) of
                    Inl e \<Rightarrow> Inl e
                  | Inr sect \<Rightarrow>
                      if grade = None \<and> sect = None
                      then Inl (u ''audience.grade or audience.section is required when audience.type is class'')
                      else Inr (\<lparr>au_type = AudienceClass, au_grade = grade, au_section = sect, au_parent = None\<rparr>, [])))
          else Inl (u ''audience.type must be all, parent or class'')))"

definition dry_run_flag :: "json option \<Rightarrow> str + bool" where
  "dry_run_flag raw =
     (case raw of
        None \<Rightarrow> Inr False
      | Some JNull \<Rightarrow> Inr False
      | Some (JBool b) \<Rightarrow> Inr b
      | Some _ \<Rightarrow> Inl (u ''dry_run must be true or false''))"

definition dryRunDetail :: "bool \<Rightarrow> str list \<Rightarrow> str" where
  "dryRunDetail dryRun parts = join_with (u '' '') (if dryRun then parts @ [u ''dry_run''] else parts)"

section \<open>Sending\<close>

record broadcastRequest =
  bq_title :: "json option"
  bq_body :: "json option"
  bq_audience :: "broadcastAudienceRequest option"
  bq_dry_run :: "json option"

record BroadcastSent =
  bs_id :: "int option"
  bs_count :: int
  bs_dry_run :: bool

datatype send_err = Duplicate | NotSent berr

definition send_refusal :: "send_err \<Rightarrow> refusal" where
  "send_refusal e =
     (case e of
        Duplicate \<Rightarrow> Refuse 409 (u ''The same broadcast was sent to this audience less than a minute ago'')
      | NotSent ErrNoRecipients \<Rightarrow> bad_request ''No parents match this audience''
      | NotSent (BroadcastDB f) \<Rightarrow> internal_error ''Failed to send broadcast'' f)"

definition send_broadcast :: "str \<Rightarrow> str \<Rightarrow> Audience \<Rightarrow> (send_err, int \<times> int) tx" where
  \<comment> \<open>the transaction of \<open>createBroadcast\<close>\<close>
  "send_broadcast title body a =
     bindE (lift_err (NotSent \<circ> BroadcastDB) LockBroadcasts) (\<lambda>_.
     bindE (lift_err (NotSent \<circ> BroadcastDB) (RecentDuplicate title body a BroadcastDuplicateWait)) (\<lambda>duplicate.
     bindE (guard (\<not> duplicate) Duplicate) (\<lambda>_.
     lift_err NotSent (CreateBroadcast title body a))))"

definition find_audience :: "Audience \<Rightarrow> str \<Rightarrow> (refusal, Audience) tx" where
  "find_audience a parentPhone =
     (if au_type a \<noteq> AudienceParent then ret a
      else bindE (lift_err (internal_error ''Failed to send broadcast'')
             (query (\<lambda>d. map_option p_id (find_row (\<lambda>p. p_phone p = parentPhone) (parents d))))) (\<lambda>found.
           bindE (of_option (Refuse 404 (u ''No parent has this phone number'')) found) (\<lambda>i.
           ret (a\<lparr>au_parent := Some i\<rparr>))))"

definition createBroadcast :: "multicast \<Rightarrow> broadcastRequest body \<Rightarrow> (refusal, BroadcastSent) tx" where
  "createBroadcast client b =
     bindE (of_sum (decodeJSONBody b (u ''Invalid request body''))) (\<lambda>req.
     bindE (lift_err (Refuse 400) (of_sum (broadcastText ''title'' (bq_title req) MaxBroadcastTitleChars))) (\<lambda>title.
     bindE (lift_err (Refuse 400) (of_sum (broadcastText ''body'' (bq_body req) MaxBroadcastBodyChars))) (\<lambda>body.
     bindE (lift_err (Refuse 400) (of_sum (parseAudience (bq_audience req)))) (\<lambda>(a, parentPhone).
     bindE (lift_err (Refuse 400) (of_sum (dry_run_flag (bq_dry_run req)))) (\<lambda>dryRun.
     bindE (NoteActivity [] [] (dryRunDetail dryRun [u ''audience='' @ au_type a])) (\<lambda>_.
     bindE (find_audience a parentPhone) (\<lambda>a.
     if dryRun then
       bindE (lift_err (internal_error ''Failed to send broadcast'') (CountRecipients a)) (\<lambda>n.
       bindE (guard (n \<noteq> 0) (bad_request ''No parents match this audience'')) (\<lambda>_.
       bindE (NoteActivity [] [] (dryRunDetail True [u ''audience='' @ au_type a, u ''recipients='' @ itoa n])) (\<lambda>_.
       ret \<lparr>bs_id = None, bs_count = n, bs_dry_run = True\<rparr>)))
     else
       bindE (lift_err send_refusal (in_tx (NotSent \<circ> BroadcastDB) (send_broadcast title body a))) (\<lambda>(i, n).
       bindE (NoteActivity (u ''broadcast'') (itoa i) (u ''audience='' @ au_type a @ u '' recipients='' @ itoa n)) (\<lambda>_.
       bindE (PushBroadcast client i title body) (\<lambda>_.
       ret \<lparr>bs_id = Some i, bs_count = n, bs_dry_run = False\<rparr>))))))))))"

section \<open>The sent log\<close>

record BroadcastLogItem =
  bl_id :: int
  bl_title :: str
  bl_body :: str
  bl_type :: str
  bl_grade :: "str option"
  bl_section :: "str option"
  bl_parent_name :: "str option"
  bl_parent_phone :: "str option"
  bl_recipients :: int
  bl_read :: int
  bl_created :: str

definition log_item :: "db \<Rightarrow> broadcast \<Rightarrow> BroadcastLogItem" where
  "log_item d b =
     (let p = Option.bind (b_parent b) (\<lambda>i. find_row (\<lambda>p. p_id p = i) (parents d)) in
      \<lparr>bl_id = b_id b, bl_title = b_title b, bl_body = b_body b, bl_type = b_type b, bl_grade = b_grade b,
       bl_section = b_section b, bl_parent_name = map_option p_name p, bl_parent_phone = map_option p_phone p,
       bl_recipients = b_count b, bl_read = 0, bl_created = rfc3339 (b_created b)\<rparr>)"

definition log_query :: "int option \<Rightarrow> db \<Rightarrow> BroadcastLogItem list" where
  "log_query before d =
     map (log_item d) (take (BroadcastsPageSize + 1)
       (rev (sort_key b_id (filter (\<lambda>b. case before of None \<Rightarrow> True | Some i \<Rightarrow> b_id b < i) (broadcasts d)))))"

definition read_counts :: "int list \<Rightarrow> db \<Rightarrow> (int \<times> int) list" where
  \<comment> \<open>\<open>SELECT broadcast_id, COUNT(*) FILTER (WHERE is_read) ... GROUP BY broadcast_id\<close>\<close>
  "read_counts ids d =
     map (\<lambda>i. (i, count_where (\<lambda>n. n_broadcast n = Some i \<and> n_read n) (notifications d)))
       (filter (\<lambda>i. list_ex (\<lambda>n. n_broadcast n = Some i) (notifications d)) ids)"

definition with_read :: "(int \<times> int) list \<Rightarrow> BroadcastLogItem \<Rightarrow> BroadcastLogItem" where
  "with_read counts it = (case map_of counts (bl_id it) of None \<Rightarrow> it | Some n \<Rightarrow> it\<lparr>bl_read := n\<rparr>)"

definition before_param :: "str \<Rightarrow> refusal + int option" where
  "before_param v =
     (if v = [] then Inr None
      else case Atoi v of
        None \<Rightarrow> Inl (bad_request ''before must be a positive broadcast id'')
      | Some i \<Rightarrow> if i < 1 then Inl (bad_request ''before must be a positive broadcast id'') else Inr (Some i))"

definition listBroadcasts :: "str \<Rightarrow> (refusal, BroadcastLogItem list \<times> bool \<times> int option) tx" where
  \<comment> \<open>the page, \<open>has_more\<close> and \<open>next_before\<close>\<close>
  "listBroadcasts v =
     bindE (of_sum (before_param v)) (\<lambda>before.
     bindE (lift_err (internal_error ''Database error'') (query (log_query before))) (\<lambda>items.
     let hasMore = BroadcastsPageSize < length items;
         items = (if hasMore then take BroadcastsPageSize items else items);
         nextBefore = (if hasMore then Some (bl_id (last items)) else None) in
     if items = [] then ret (items, hasMore, nextBefore)
     else bindE (lift_err (internal_error ''Database error'') (query (read_counts (map bl_id items)))) (\<lambda>counts.
          ret (map (with_read counts) items, hasMore, nextBefore))))"

definition AdminBroadcastsHandler ::
    "multicast \<Rightarrow> meth \<Rightarrow> str \<Rightarrow> broadcastRequest body \<Rightarrow>
     (refusal, BroadcastSent + BroadcastLogItem list \<times> bool \<times> int option) tx" where
  "AdminBroadcastsHandler client meth before b =
     (case meth of
        POST \<Rightarrow> bindE (createBroadcast client b) (\<lambda>r. ret (Inl r))
      | GET \<Rightarrow> bindE (listBroadcasts before) (\<lambda>r. ret (Inr r))
      | _ \<Rightarrow> fail method_not_allowed)"

section \<open>The push\<close>

lemma batches_cover: "concat (batches ts) = ts"
  by (induction ts rule: batches.induct) (simp add: batches.simps)

lemma batches_bounds: "b \<in> set (batches ts) \<Longrightarrow> 0 < length b \<and> length b \<le> PushBatchSize"
proof (induction ts rule: batches.induct)
  case (1 ts)
  show ?case
  proof (cases "ts = []")
    case False
    then have "b = take PushBatchSize ts \<or> b \<in> set (batches (drop PushBatchSize ts))"
      using 1(2) by (simp add: batches.simps [of ts])
    with 1(1) False show ?thesis by (auto simp: PushBatchSize_def)
  qed (use 1(2) in \<open>simp add: batches.simps\<close>)
qed

lemma keeps_clear_unregistered:
  "(\<And>d t. P d \<Longrightarrow> P (d\<lparr>device_tokens := t\<rparr>)) \<Longrightarrow> keeps P (clear_unregistered ts rs)"
  by (induction ts rs rule: clear_unregistered.induct)
    (auto intro!: keeping simp: clearDeadToken_def)

lemma push_batch_alt:
  "push_batch send title body batch =
     bindE (\<lambda>w. (Inr (), w\<lparr>outbox := outbox w @ map (\<lambda>t. \<lparr>push_token = t, push_title = title, push_body = body\<rparr>) batch\<rparr>))
       (\<lambda>_. case send batch title body of None \<Rightarrow> ret () | Some rs \<Rightarrow> clear_unregistered batch rs)"
  by (rule ext) (simp add: push_batch_def bindE_def ret_def Let_def split: option.split)

lemma keeps_push_batch:
  assumes "\<And>d t. P d \<Longrightarrow> P (d\<lparr>device_tokens := t\<rparr>)"
  shows "keeps P (push_batch send title body batch)"
proof -
  have "keeps P (\<lambda>w. (Inr (), w\<lparr>outbox := outbox w @ map (\<lambda>t. \<lparr>push_token = t, push_title = title, push_body = body\<rparr>) batch\<rparr>))"
    by (simp add: keeps_def)
  then show ?thesis unfolding push_batch_alt
    by (intro keeps_bindE keeps_option keeps_ret keeps_clear_unregistered assms)
qed

lemma keeps_PushBroadcast:
  assumes "\<And>d t. P d \<Longrightarrow> P (d\<lparr>device_tokens := t\<rparr>)"
  shows "keeps P (PushBroadcast client i title body)"
proof -
  have "keeps P (push_batches send title body bs)" for send bs
    by (induction bs) (auto intro!: keeping keeps_push_batch assms)
  then show ?thesis unfolding PushBroadcast_def
    by (intro keeps_option keeps_ret keeps_catchE keeps_bindE keeps_query)
qed

lemma clear_unregistered_run:
  "\<exists>w'. clear_unregistered ts rs w = (Inr () :: 'e + unit, w') \<and> outbox w' = outbox w \<and> (faults w = [] \<longrightarrow> faults w' = [])"
proof (induction ts rs arbitrary: w rule: clear_unregistered.induct)
  case (1 t ts r rs)
  have "\<exists>w1. (if r = Unregistered then clearDeadToken t else ret ()) w = (Inr () :: 'e + unit, w1) \<and> outbox w1 = outbox w \<and>
      (faults w = [] \<longrightarrow> faults w1 = [])"
    by (cases rule: next_fault_cases [of w])
      (auto simp: clearDeadToken_def quietly_def catchE_def exec_def stmt_def ret_def next_fault_def split: list.splits)
  then obtain w1 where "(if r = Unregistered then clearDeadToken t else ret ()) w = (Inr () :: 'e + unit, w1)" "outbox w1 = outbox w"
    "faults w = [] \<longrightarrow> faults w1 = []" by blast
  with 1 [of w1] show ?case by (auto simp: bindE_def)
qed (auto simp: ret_def)

lemma push_batches_run:
  "\<exists>w'. push_batches send title body bs w = (Inr () :: 'e + unit, w') \<and>
     outbox w' = outbox w @ map (\<lambda>t. \<lparr>push_token = t, push_title = title, push_body = body\<rparr>) (concat bs)"
proof (induction bs arbitrary: w)
  case (Cons b bs)
  let ?w = "w\<lparr>outbox := outbox w @ map (\<lambda>t. \<lparr>push_token = t, push_title = title, push_body = body\<rparr>) b\<rparr>"
  have "\<exists>w1. push_batch send title body b w = (Inr () :: 'e + unit, w1) \<and> outbox w1 = outbox ?w"
    using clear_unregistered_run [of b _ ?w]
    by (cases "send b title body") (auto simp: push_batch_def Let_def)
  then obtain w1 where "push_batch send title body b w = (Inr () :: 'e + unit, w1)" "outbox w1 = outbox ?w" by blast
  with Cons [of w1] show ?case by (auto simp: bindE_def)
qed (simp add: ret_def)

section \<open>What is recorded\<close>

definition notice_of :: "str \<Rightarrow> str \<Rightarrow> int \<Rightarrow> notification \<Rightarrow> bool" where
  \<comment> \<open>an unread notification of the broadcast\<close>
  "notice_of title body i n \<longleftrightarrow>
     n_title n = title \<and> n_body n = body \<and> n_broadcast n = Some i \<and> \<not> n_read n"

lemma add_notices_ok:
  "add_notices title body bid now i ps ns = (k, Inr out) \<Longrightarrow>
   \<exists>new. out = ns @ new \<and> map n_parent new = map (\<lambda>p. Some (p_id p)) ps \<and> (\<forall>n \<in> set new. notice_of title body bid n)"
proof (induction title body bid now i ps ns arbitrary: out rule: add_notices.induct)
  case (2 title body bid now i p ps ns)
  let ?n = "\<lparr>n_id = i, n_parent = Some (p_id p), n_title = title, n_body = body, n_read = False, n_created = to_micro now,
          n_broadcast = Some bid\<rparr>"
  have "add_notices title body bid now (i + 1) ps (ns @ [?n]) = (k, Inr out)" and c: "\<not> 255 < length title" "i \<notin> n_id ` set ns"
    using 2(2) by (simp_all split: if_splits)
  from 2(1) [OF c this(1)] obtain new where "out = (ns @ [?n]) @ new" "map n_parent new = map (\<lambda>p. Some (p_id p)) ps"
    "\<forall>n \<in> set new. notice_of title body bid n" by blast
  then show ?case by (intro exI [of _ "?n # new"]) (simp add: notice_of_def)
qed simp

definition sent :: "db \<Rightarrow> db \<Rightarrow> str \<Rightarrow> str \<Rightarrow> Audience \<Rightarrow> int \<Rightarrow> int \<Rightarrow> bool" where
  \<comment> \<open>what sending adds: one row and one unread notification for each parent of the audience\<close>
  "sent d d' title body a i n \<longleftrightarrow>
     (\<exists>new. notifications d' = notifications d @ new \<and> map n_parent new = map (\<lambda>p. Some (p_id p)) (recipients a d) \<and>
        (\<forall>x \<in> set new. notice_of title body i x)) \<and>
     n = int (length (recipients a d)) \<and> 0 < n \<and>
     i \<notin> b_id ` set (broadcasts d) \<and>
     (\<exists>b. broadcasts d' = broadcasts d @ [b] \<and> b_id b = i \<and> b_title b = title \<and> b_body b = body \<and> b_type b = au_type a \<and>
        b_count b = n \<and> broadcast_checks b) \<and>
     parents d' = parents d \<and> students d' = students d \<and> school_closures d' = school_closures d"

lemma insert_broadcast_ok:
  assumes "insert_broadcast title body a now i d = Inr (k, d')"
  obtains b where "k = i" "d' = d\<lparr>broadcasts := broadcasts d @ [b]\<rparr>" "i \<notin> b_id ` set (broadcasts d)" "broadcast_checks b"
    "b_id b = i" "b_title b = title" "b_body b = body" "b_type b = au_type a"
  using assms by (auto simp: insert_broadcast_def Let_def split: if_splits)

lemma CreateBroadcast_ok:
  assumes "CreateBroadcast title body a w = (Inr (i, n), w')"
  shows "sent (db w) (db w') title body a i n"
proof -
  from assms obtain w1 w2 now where s1: "insert_id Broadcasts (insert_broadcast title body a now) w = (Inr i, w1)"
    and s2: "notify_recipients title body a i now w1 = (Inr n, w2)" and n: "n \<noteq> 0"
    and s3: "exec (\<lambda>d. d\<lparr>broadcasts := upd_where (\<lambda>b. b_id b = i) (\<lambda>b. b\<lparr>b_count := n\<rparr>) (broadcasts d)\<rparr>) w2 = (Inr (), w')"
    by (auto simp: CreateBroadcast_def ok_iffs dest!: with_int4_laws(3) with_text_ok)
  from s1 obtain d1 where "insert_broadcast title body a now (serial w Broadcasts) (db w) = Inr (i, d1)" "db w1 = d1"
    by (rule insert_id_ok)
  then obtain b where b: "db w1 = (db w)\<lparr>broadcasts := broadcasts (db w) @ [b]\<rparr>" "i \<notin> b_id ` set (broadcasts (db w))"
    "broadcast_checks b" "b_id b = i" "b_title b = title" "b_body b = body" "b_type b = au_type a"
    using insert_broadcast_ok [of title body a now "serial w Broadcasts" "db w" i d1] by metis
  from s2 obtain k d2 where "(case add_notices title body i now (serial w1 Notifications) (recipients a (db w1)) (notifications (db w1)) of
         (n, Inl e) \<Rightarrow> (n, Inl e)
       | (n, Inr ns) \<Rightarrow> (n, Inr (int (length (recipients a (db w1))), (db w1)\<lparr>notifications := ns\<rparr>))) = (k, Inr (n, d2))" "db w2 = d2"
    unfolding notify_recipients_def by (rule insert_ids_ok)
  then obtain ns where ns: "add_notices title body i now (serial w1 Notifications) (recipients a (db w1)) (notifications (db w1)) = (k, Inr ns)"
    "n = int (length (recipients a (db w1)))" "db w2 = (db w1)\<lparr>notifications := ns\<rparr>"
    by (auto split: prod.splits sum.splits)
  have same: "in_audience (db w1) a = in_audience (db w) a"
    by (rule ext) (simp add: in_audience_def b(1))
  have r: "recipients a (db w1) = recipients a (db w)" by (simp only: recipients_def same) (simp add: b(1))
  have d': "db w' = (db w2)\<lparr>broadcasts := upd_where (\<lambda>b. b_id b = i) (\<lambda>b. b\<lparr>b_count := n\<rparr>) (broadcasts (db w2))\<rparr>"
    using exec_ok(1) [OF s3] .
  have "upd_where (\<lambda>b. b_id b = i) (\<lambda>b. b\<lparr>b_count := n\<rparr>) (broadcasts (db w) @ [b]) = broadcasts (db w) @ [b\<lparr>b_count := n\<rparr>]"
  proof -
    have "b_id x \<noteq> i" if "x \<in> set (broadcasts (db w))" for x using b(2) that by auto
    then show ?thesis using b(4) by (simp add: upd_where_def map_idI)
  qed
  then have bs: "broadcasts (db w') = broadcasts (db w) @ [b\<lparr>b_count := n\<rparr>]" by (simp add: d' ns(3) b(1))
  have "broadcast_checks (b\<lparr>b_count := n\<rparr>)" using b(3) ns(2) by (simp add: broadcast_checks_def)
  moreover have "\<exists>new. notifications (db w') = notifications (db w) @ new \<and> map n_parent new = map (\<lambda>p. Some (p_id p)) (recipients a (db w)) \<and>
        (\<forall>x \<in> set new. notice_of title body i x)"
    using add_notices_ok [OF ns(1)] unfolding r by (simp add: d' ns(3) b(1))
  moreover have "n = int (length (recipients a (db w)))" using ns(2) by (simp add: r)
  moreover have "parents (db w') = parents (db w)" "students (db w') = students (db w)"
    "school_closures (db w') = school_closures (db w)"
    by (simp_all add: d' ns(3) b(1))
  ultimately show ?thesis
    using b(2-7) n bs unfolding sent_def by auto
qed

definition audience_of :: "db \<Rightarrow> broadcastRequest \<Rightarrow> Audience \<Rightarrow> bool" where
  \<comment> \<open>the audience a request names, its parent looked up\<close>
  "audience_of d req a \<longleftrightarrow>
     (case parseAudience (bq_audience req) of
        Inl _ \<Rightarrow> False
      | Inr (a0, ph) \<Rightarrow>
          if au_type a0 = AudienceParent
          then (case find_row (\<lambda>p. p_phone p = ph) (parents d) of None \<Rightarrow> False | Some p \<Rightarrow> a = a0\<lparr>au_parent := Some (p_id p)\<rparr>)
          else a = a0)"

lemma find_audience_ok:
  "find_audience a ph w = (Inr a', w') \<Longrightarrow> db w' = db w \<and>
     (if au_type a = AudienceParent
      then (case find_row (\<lambda>p. p_phone p = ph) (parents (db w)) of None \<Rightarrow> False | Some p \<Rightarrow> a' = a\<lparr>au_parent := Some (p_id p)\<rparr>)
      else a' = a)"
  by (auto simp: find_audience_def ok_iffs split: if_splits option.splits dest!: query_okD)

lemma audience_unique: "audience_of d req a \<Longrightarrow> audience_of d req b \<Longrightarrow> a = b"
  by (auto simp: audience_of_def split: sum.splits if_splits option.splits)

lemma send_broadcast_ok:
  assumes "in_tx (NotSent \<circ> BroadcastDB) (send_broadcast title body a) w = (Inr (i, n), w')"
  shows "sent (db w) (db w') title body a i n"
proof -
  from assms obtain w1 w2 where s: "send_broadcast title body a w1 = (Inr (i, n), w2)" "db w1 = db w" "db w' = db w2"
    by (auto elim: in_tx_ok)
  then obtain w3 where c: "CreateBroadcast title body a w3 = (Inr (i, n), w2)" "db w3 = db w1"
    by (auto simp: send_broadcast_def LockBroadcasts_def RecentDuplicate_def ok_iffs dest!: control_ok(1) with_text_ok query_okD)
  show ?thesis using CreateBroadcast_ok [OF c(1)] c(2) s by simp
qed

lemma createBroadcast_ok:
  assumes "createBroadcast client (Body req) w = (Inr r, w')"
  obtains a where "audience_of (db w) req a" "bs_dry_run r" "bs_id r = None" "db w' = db w"
      "bs_count r = count_where (in_audience (db w) a) (parents (db w))" "dry_run_flag (bq_dry_run req) = Inr True"
  | a title body i d where "audience_of (db w) req a" "\<not> bs_dry_run r" "bs_id r = Some i" "sent (db w) d title body a i (bs_count r)"
      "broadcastText ''title'' (bq_title req) MaxBroadcastTitleChars = Inr title"
      "broadcastText ''body'' (bq_body req) MaxBroadcastBodyChars = Inr body" "dry_run_flag (bq_dry_run req) = Inr False"
      "\<exists>dt. db w' = d\<lparr>device_tokens := dt\<rparr>"
proof -
  from assms obtain title body a0 ph dry a w1 w2 where t: "broadcastText ''title'' (bq_title req) MaxBroadcastTitleChars = Inr title"
      "broadcastText ''body'' (bq_body req) MaxBroadcastBodyChars = Inr body" "parseAudience (bq_audience req) = Inr (a0, ph)"
      "dry_run_flag (bq_dry_run req) = Inr dry"
    and f: "find_audience a0 ph w1 = (Inr a, w2)" and w1: "db w1 = db w"
    and k: "(if dry then
       bindE (lift_err (internal_error ''Failed to send broadcast'') (CountRecipients a)) (\<lambda>n.
       bindE (guard (n \<noteq> 0) (bad_request ''No parents match this audience'')) (\<lambda>_.
       bindE (NoteActivity [] [] (dryRunDetail True [u ''audience='' @ au_type a, u ''recipients='' @ itoa n])) (\<lambda>_.
       ret \<lparr>bs_id = None, bs_count = n, bs_dry_run = True\<rparr>)))
     else
       bindE (lift_err send_refusal (in_tx (NotSent \<circ> BroadcastDB) (send_broadcast title body a))) (\<lambda>(i, n).
       bindE (NoteActivity (u ''broadcast'') (itoa i) (u ''audience='' @ au_type a @ u '' recipients='' @ itoa n)) (\<lambda>_.
       bindE (PushBroadcast client i title body) (\<lambda>_.
       ret \<lparr>bs_id = Some i, bs_count = n, bs_dry_run = False\<rparr>)))) w2 = (Inr r, w')"
    by (auto simp: createBroadcast_def bindE_ok simple_ok lift_err_ok split del: if_split simp del: not_None_eq)
  have a: "audience_of (db w) req a" and d: "db w2 = db w"
    using find_audience_ok [OF f] t(3) w1 by (auto simp: audience_of_def)
  show thesis
  proof (cases dry)
    case True
    with k d have "bs_dry_run r \<and> bs_id r = None \<and> db w' = db w \<and> bs_count r = count_where (in_audience (db w) a) (parents (db w))"
      by (auto simp: CountRecipients_def ok_iffs dest!: with_text_ok query_okD)
    with True t(4) show thesis by (intro that(1) [OF a]) auto
  next
    case False
    with k obtain i n w3 where s: "in_tx (NotSent \<circ> BroadcastDB) (send_broadcast title body a) w2 = (Inr (i, n), w3)"
      and k2: "bindE (NoteActivity (u ''broadcast'') (itoa i) (u ''audience='' @ au_type a @ u '' recipients='' @ itoa n)) (\<lambda>_.
       bindE (PushBroadcast client i title body) (\<lambda>_.
       ret \<lparr>bs_id = Some i, bs_count = n, bs_dry_run = False\<rparr>)) w3 = (Inr r :: refusal + BroadcastSent, w')"
      by (auto simp: bindE_ok [of "lift_err _ _"])
    let ?nt = "(u ''broadcast'', itoa i, u ''audience='' @ au_type a @ u '' recipients='' @ itoa n)"
    have p: "PushBroadcast client i title body (w3\<lparr>noted := ?nt\<rparr>) = (Inr () :: refusal + unit, w')"
      and r: "r = \<lparr>bs_id = Some i, bs_count = n, bs_dry_run = False\<rparr>"
      using k2 by (auto simp: bindE_ok simple_ok)
    have "keeps (\<lambda>d. \<exists>dt. d = (db w3)\<lparr>device_tokens := dt\<rparr>) (PushBroadcast client i title body :: (refusal, unit) tx)"
      by (rule keeps_PushBroadcast) auto
    moreover have "\<exists>dt. db (w3\<lparr>noted := ?nt\<rparr>) = (db w3)\<lparr>device_tokens := dt\<rparr>"
      by (rule exI [of _ "device_tokens (db w3)"]) simp
    ultimately have "\<exists>dt. db w' = (db w3)\<lparr>device_tokens := dt\<rparr>" using p by (rule keepsD)
    with send_broadcast_ok [OF s] d r t False show thesis by (intro that(2) [OF a]) auto
  qed
qed

section \<open>Properties\<close>

text \<open>C5. A broadcast answered as sent gave each parent of its audience, and nobody else, one unread
  notification with the trimmed title and body; it is recorded once under the id answered, with the number
  of those parents, which is not zero; and no earlier notification or broadcast changed.\<close>

theorem broadcast_reaches_audience:
  assumes "createBroadcast client (Body req) w = (Inr r, w')" "bs_id r = Some i"
  shows "\<exists>a title body new. audience_of (db w) req a \<and>
    broadcastText ''title'' (bq_title req) MaxBroadcastTitleChars = Inr title \<and>
    broadcastText ''body'' (bq_body req) MaxBroadcastBodyChars = Inr body \<and>
    notifications (db w') = notifications (db w) @ new \<and>
    map n_parent new = map (\<lambda>p. Some (p_id p)) (recipients a (db w)) \<and>
    (\<forall>n \<in> set new. notice_of title body i n) \<and>
    bs_count r = int (length new) \<and> 0 < bs_count r \<and>
    (\<exists>b. broadcasts (db w') = broadcasts (db w) @ [b] \<and> b_id b = i \<and> i \<notin> b_id ` set (broadcasts (db w)) \<and>
       b_title b = title \<and> b_body b = body \<and> b_count b = bs_count r \<and> broadcast_checks b)"
  using assms(1)
proof (cases rule: createBroadcast_ok)
  case (2 a title body j d)
  then have s: "sent (db w) d title body a i (bs_count r)" using assms(2) by simp
  then obtain new where new: "notifications d = notifications (db w) @ new" "map n_parent new = map (\<lambda>p. Some (p_id p)) (recipients a (db w))"
    "\<forall>n \<in> set new. notice_of title body i n" unfolding sent_def by blast
  have "length new = length (recipients a (db w))" using new(2) by (metis length_map)
  with 2 s new show ?thesis
    by (intro exI [of _ a] exI [of _ title] exI [of _ body] exI [of _ new]) (auto simp: sent_def)
qed (use assms(2) in simp)

text \<open>The preview is exact: asked about the same database, a dry run announces as many recipients as
  sending then reaches, and changes nothing.\<close>

theorem preview_counts_recipients:
  assumes "createBroadcast client (Body req) w = (Inr r, w')" "bs_id r = Some i"
    and "createBroadcast client' (Body (req\<lparr>bq_dry_run := Some (JBool True)\<rparr>)) v = (Inr p, v')" "db v = db w"
  shows "bs_count p = bs_count r \<and> bs_id p = None \<and> db v' = db v"
  using assms(1)
proof (cases rule: createBroadcast_ok)
  case (2 a title body j d)
  note sent = this
  show ?thesis
    using assms(3)
  proof (cases rule: createBroadcast_ok)
    case (1 b)
    have "a = b" using 1(1) sent(1) assms(4) by (intro audience_unique [of "db w" req]) (simp_all add: audience_of_def)
    moreover have "count_where (in_audience (db w) a) (parents (db w)) = int (length (recipients a (db w)))"
      by (simp add: count_where_def recipients_def)
    ultimately show ?thesis using 1 sent assms(4) by (auto simp: sent_def)
  qed (simp add: dry_run_flag_def)
qed (use assms(2) in simp)

text \<open>The push of a broadcast hands Firebase every device of every recipient, each exactly once, in calls
  of at most 500 devices and never of none.\<close>

theorem every_device_pushed_once:
  assumes "PushBroadcast (Some send) i title body w = (r, w')" "faults w = []"
    and "unique_key t_token (device_tokens (db w))"
    and "distinct (map n_parent (filter (\<lambda>n. n_broadcast n = Some i) (notifications (db w))))"
  shows "outbox w' = outbox w @ map (\<lambda>t. \<lparr>push_token = t, push_title = title, push_body = body\<rparr>) (broadcastTokens i (db w)) \<and>
    distinct (broadcastTokens i (db w)) \<and>
    set (broadcastTokens i (db w)) =
      {t_token t | t n. t \<in> set (device_tokens (db w)) \<and> n \<in> set (notifications (db w)) \<and> n_broadcast n = Some i \<and>
         n_parent n = Some (t_parent t)} \<and>
    concat (batches (broadcastTokens i (db w))) = broadcastTokens i (db w) \<and>
    (\<forall>b \<in> set (batches (broadcastTokens i (db w))). 0 < length b \<and> length b \<le> 500)"
proof -
  let ?ts = "broadcastTokens i (db w)"
  obtain w1 where "push_batches send title body (batches ?ts) w = (Inr () :: err + unit, w1)"
    "outbox w1 = outbox w @ map (\<lambda>t. \<lparr>push_token = t, push_title = title, push_body = body\<rparr>) (concat (batches ?ts))"
    using push_batches_run by blast
  then have out: "outbox w' = outbox w @ map (\<lambda>t. \<lparr>push_token = t, push_title = title, push_body = body\<rparr>) ?ts"
    using assms(1,2) by (auto simp: PushBroadcast_def catchE_def bindE_def run_simps batches_cover)
  let ?ns = "filter (\<lambda>n. n_broadcast n = Some i) (notifications (db w))"
  let ?tok = "\<lambda>n. filter (\<lambda>t. n_parent n = Some (t_parent t)) (device_tokens (db w))"
  have "distinct (device_tokens (db w))" using assms(3) by (simp add: unique_key_def distinct_map)
  then have "distinct (concat (map ?tok ns))" if "distinct (map n_parent ns)" for ns
    using that
  proof (induction ns)
    case (Cons n ns)
    have "set (?tok n) \<inter> set (concat (map ?tok ns)) = {}" using Cons.prems(2) by (auto simp: image_iff)
    with Cons show ?case by simp
  qed simp
  then have "distinct (concat (map ?tok ?ns))" using assms(4) by blast
  then have d: "distinct (sort_key t_id (concat (map ?tok ?ns)))" by simp
  have "inj_on t_token (set (device_tokens (db w)))" using assms(3) by (simp add: unique_key_def distinct_map)
  then have "distinct ?ts" using d unfolding broadcastTokens_def distinct_map by (auto intro: inj_on_subset)
  moreover have "set ?ts = {t_token t | t n. t \<in> set (device_tokens (db w)) \<and> n \<in> set (notifications (db w)) \<and>
      n_broadcast n = Some i \<and> n_parent n = Some (t_parent t)}"
    by (auto simp: broadcastTokens_def)
  ultimately show ?thesis using out batches_bounds [of _ ?ts] by (auto simp: batches_cover PushBatchSize_def)
qed

section \<open>An example\<close>

definition families_db :: db where
  "families_db = empty_db\<lparr>parents :=
     [\<lparr>p_id = 3, p_name = u ''Mona'', p_phone = u ''+9647701234567'', p_pin = [], p_version = 1, p_push = True\<rparr>,
      \<lparr>p_id = 4, p_name = u ''Omar'', p_phone = u ''+9647701234568'', p_pin = [], p_version = 1, p_push = True\<rparr>],
     device_tokens := [\<lparr>t_id = 8, t_parent = 4, t_token = u ''tok'', t_created = At (Date 2025 9 3) 0, t_seen = At (Date 2025 9 3) 0\<rparr>]\<rparr>"

definition hello :: broadcastRequest where
  "hello = \<lparr>bq_title = Some (JStr (u '' Hi'')), bq_body = Some (JStr (u ''Hello'')),
     bq_audience = Some \<lparr>ar_type = Some (u ''all''), ar_grade = None, ar_section = None, ar_phone = None\<rparr>, bq_dry_run = None\<rparr>"

definition families_world :: world where
  "families_world = quiet families_db (At (Date 2025 10 5) 0)"

definition hello_notice :: "int \<Rightarrow> int \<Rightarrow> notification" where
  "hello_notice i p = \<lparr>n_id = i, n_parent = Some p, n_title = u ''Hi'', n_body = u ''Hello'', n_read = False,
     n_created = At (Date 2025 10 5) 0, n_broadcast = Some 1\<rparr>"

definition hello_row :: "int \<Rightarrow> broadcast" where
  "hello_row n = \<lparr>b_id = 1, b_title = u ''Hi'', b_body = u ''Hello'', b_type = u ''all'', b_grade = None, b_section = None,
     b_parent = None, b_count = n, b_created = At (Date 2025 10 5) 0\<rparr>"

definition told_world :: world where
  "told_world = families_world\<lparr>noted := (u ''broadcast'', itoa 1, u ''audience='' @ AudienceAll @ u '' recipients='' @ itoa 2),
     serial := (serial families_world)(Broadcasts := 2, Notifications := 3),
     db := families_db\<lparr>broadcasts := [hello_row 2], notifications := [hello_notice 1 3, hello_notice 2 4]\<rparr>\<rparr>"

lemma families_simps:
  "db families_world = families_db" "faults families_world = []" "clock families_world = At (Date 2025 10 5) 0"
  "serial families_world x = 1" "outbox families_world = []"
  "broadcasts families_db = []" "notifications families_db = []" "map p_id (parents families_db) = [3, 4]"
  "device_tokens families_db = [\<lparr>t_id = 8, t_parent = 4, t_token = u ''tok'', t_created = At (Date 2025 9 3) 0, t_seen = At (Date 2025 9 3) 0\<rparr>]"
  by (simp_all add: families_world_def families_db_def empty_db_def)

lemma hello_texts:
  "broadcastText ''title'' (bq_title hello) MaxBroadcastTitleChars = Inr (u ''Hi'')"
  "broadcastText ''body'' (bq_body hello) MaxBroadcastBodyChars = Inr (u ''Hello'')"
  "parseAudience (bq_audience hello) = Inr (simple_audience AudienceAll, [])" "dry_run_flag (bq_dry_run hello) = Inr False"
  "simple_audience AudienceAll = \<lparr>au_type = u ''all'', au_grade = None, au_section = None, au_parent = None\<rparr>"
  by (simp_all add: hello_def broadcastText_def u_def TrimSpace_def trim_by_def is_space_def tooLong_def TrimRightBlank_def
      MaxBroadcastTitleChars_def MaxBroadcastBodyChars_def parseAudience_def AudienceAll_def dry_run_flag_def simple_audience_def)

lemma hello_plain: "with_text ([u ''Hi'', u ''Hello''] @ audience_texts (simple_audience AudienceAll)) m = m"
  by (rule with_plain_texts) (simp add: plain_texts_def audience_texts_def simple_audience_def AudienceAll_def opt_list_def u_def)

lemma hello_recipients:
  "parents d = parents families_db \<Longrightarrow> map p_id (recipients (simple_audience AudienceAll) d) = [3, 4]"
  by (simp add: recipients_def in_audience_def simple_audience_def families_db_def)

lemma hello_notices:
  "map p_id ps = [3, 4] \<Longrightarrow> add_notices (u ''Hi'') (u ''Hello'') 1 (At (Date 2025 10 5) 0) 1 ps [] =
     (3, Inr [hello_notice 1 3, hello_notice 2 4])"
  by (cases ps; cases "tl ps") (auto simp: hello_notice_def to_micro_def u_def)

lemma hello_inserted:
  "insert_broadcast (u ''Hi'') (u ''Hello'') (simple_audience AudienceAll) (At (Date 2025 10 5) 0) 1 families_db =
     Inr (1, families_db\<lparr>broadcasts := [hello_row 0]\<rparr>)"
  by (simp add: insert_broadcast_def hello_texts(5) broadcast_checks_def between_def families_simps hello_row_def to_micro_def)
    (simp add: u_def)

lemma hello_audience:
  "au_type (simple_audience AudienceAll) = AudienceAll" "au_parent (simple_audience AudienceAll) = None"
  "AudienceAll \<noteq> AudienceParent" "find_audience (simple_audience AudienceAll) ph v = (Inr (simple_audience AudienceAll), v)"
  by (simp_all add: simple_audience_def AudienceAll_def AudienceParent_def find_audience_def ret_def)

lemma hello_written:
  "in_tx (NotSent \<circ> BroadcastDB) (send_broadcast (u ''Hi'') (u ''Hello'') (simple_audience AudienceAll)) (families_world\<lparr>noted := nt\<rparr>) =
     (Inr (1, 2), told_world\<lparr>noted := nt\<rparr>)"
proof -
  let ?a = "simple_audience AudienceAll"
  have r: "length (recipients ?a d) = 2" if "parents d = parents families_db" for d
    using arg_cong [OF hello_recipients [OF that], of length] by simp
  have n: "add_notices (u ''Hi'') (u ''Hello'') 1 (At (Date 2025 10 5) 0) 1 (recipients ?a d) [] =
      (3, Inr [hello_notice 1 3, hello_notice 2 4])" if "parents d = parents families_db" for d
    using hello_notices [OF hello_recipients [OF that]] .
  have "RecentDuplicate (u ''Hi'') (u ''Hello'') ?a BroadcastDuplicateWait (families_world\<lparr>noted := nt\<rparr>) =
      (Inr False, families_world\<lparr>noted := nt\<rparr>)"
    by (simp add: RecentDuplicate_def hello_plain [simplified] bindE_def run_simps families_simps)
  moreover have "CreateBroadcast (u ''Hi'') (u ''Hello'') ?a (families_world\<lparr>noted := nt\<rparr>) = (Inr (1, 2), told_world\<lparr>noted := nt\<rparr>)"
    by (simp add: CreateBroadcast_def notify_recipients_def bindE_def run_simps lift_err_run hello_plain [simplified] families_simps
        with_int4_def opt_list_def hello_inserted n r hello_audience told_world_def hello_row_def upd_where_def)
  moreover have "faults told_world = []" by (simp add: told_world_def families_simps)
  ultimately show ?thesis
    by (simp add: in_tx_run_nil families_simps send_broadcast_def LockBroadcasts_def bindE_def run_simps lift_err_run)
qed

lemma hello_sent:
  "createBroadcast None (Body hello) families_world = (Inr \<lparr>bs_id = Some 1, bs_count = 2, bs_dry_run = False\<rparr>, told_world)"
  by (simp add: createBroadcast_def hello_texts(1-4) hello_audience hello_written bindE_def run_simps lift_err_run PushBroadcast_def)
    (simp add: told_world_def)

lemma hello_previewed:
  "createBroadcast None (Body (hello\<lparr>bq_dry_run := Some (JBool True)\<rparr>)) families_world =
     (Inr \<lparr>bs_id = None, bs_count = 2, bs_dry_run = True\<rparr>,
      families_world\<lparr>noted := ([], [], dryRunDetail True [u ''audience='' @ AudienceAll, u ''recipients='' @ itoa 2])\<rparr>)"
proof -
  have c: "CountRecipients (simple_audience AudienceAll) (families_world\<lparr>noted := nt\<rparr>) = (Inr 2, families_world\<lparr>noted := nt\<rparr>)" for nt
    using hello_plain
    by (simp add: CountRecipients_def with_text_def audience_texts_def simple_audience_def AudienceAll_def opt_list_def run_simps
        families_simps families_db_def in_audience_def count_where_def) (simp add: u_def run_simps families_simps)
  show ?thesis
    by (simp add: createBroadcast_def hello_texts(1-3) hello_audience c bindE_def run_simps lift_err_run dry_run_flag_def)
qed

theorem broadcast_reaches_audience_witness:
  "\<exists>new. notifications (db told_world) = new \<and> map n_parent new = [Some 3, Some 4] \<and>
     (\<forall>n \<in> set new. notice_of (u ''Hi'') (u ''Hello'') 1 n)"
proof -
  have "\<exists>a title body new. audience_of families_db hello a \<and> broadcastText ''title'' (bq_title hello) MaxBroadcastTitleChars = Inr title \<and>
      broadcastText ''body'' (bq_body hello) MaxBroadcastBodyChars = Inr body \<and> notifications (db told_world) = new \<and>
      map n_parent new = map (\<lambda>p. Some (p_id p)) (recipients a families_db) \<and> (\<forall>n \<in> set new. notice_of title body 1 n)"
    using broadcast_reaches_audience [OF hello_sent, of 1] by (auto simp: families_simps)
  moreover have "a = simple_audience AudienceAll" if "audience_of families_db hello a" for a
    using that hello_texts(3) hello_audience by (simp add: audience_of_def)
  moreover have "map (\<lambda>p. Some (p_id p)) (recipients (simple_audience AudienceAll) families_db) = [Some 3, Some 4]"
    using arg_cong [OF hello_recipients [of families_db], of "map Some"] by (simp add: o_def)
  ultimately show ?thesis using hello_texts(1,2) by auto
qed

theorem preview_counts_recipients_witness:
  "\<exists>p v'. createBroadcast None (Body (hello\<lparr>bq_dry_run := Some (JBool True)\<rparr>)) families_world = (Inr p, v') \<and>
     bs_count p = 2 \<and> bs_id p = None \<and> db v' = families_db"
  using preview_counts_recipients [OF hello_sent _ hello_previewed] hello_previewed by (simp add: families_simps)

theorem every_device_pushed_once_witness:
  "outbox (snd (PushBroadcast (Some (\<lambda>_ _ _. None)) 1 (u ''Hi'') (u ''Hello'') told_world :: (err + unit) \<times> world)) =
     [\<lparr>push_token = u ''tok'', push_title = u ''Hi'', push_body = u ''Hello''\<rparr>]"
proof -
  have t: "broadcastTokens 1 (db told_world) = [u ''tok'']"
    by (simp add: broadcastTokens_def told_world_def families_simps hello_notice_def)
  have w: "faults told_world = []" "unique_key t_token (device_tokens (db told_world))" "outbox told_world = []"
    "distinct (map n_parent (filter (\<lambda>n. n_broadcast n = Some 1) (notifications (db told_world))))"
    by (simp_all add: told_world_def families_simps unique_key_def hello_notice_def)
  obtain r :: "err + unit" and w' where
    run: "PushBroadcast (Some (\<lambda>_ _ _. None)) 1 (u ''Hi'') (u ''Hello'') told_world = (r, w')" by (meson surj_pair)
  show ?thesis using every_device_pushed_once [OF run w(1,2,4)] run w(3) t by simp
qed

end
