(* ===== verification/Closures.thy ===== *)
theory Closures
  imports Broadcasts Attendance
begin

text \<open>
  School closures, \<open>internal/handlers/holidays.go\<close>: registering a holiday or a pause, cancelling one from
  today onward, the admin's list and the parent's list of closed days. The table lock makes a write one
  step. Which characters \<open>%q\<close> prints as they are is the Unicode table of the Go library, the parameter \<open>isPrint\<close>.
\<close>

section \<open>Fields of a request\<close>

definition ClosureHoliday :: str where "ClosureHoliday = u ''holiday''"

definition ClosurePause :: str where "ClosurePause = u ''pause''"

definition MaxClosureTitleChars :: nat where "MaxClosureTitleChars = 80"

definition MaxClosureNotesChars :: nat where "MaxClosureNotesChars = 500"

definition MaxHolidayDays :: nat where "MaxHolidayDays = 60"

definition absent :: "json option \<Rightarrow> bool" where
  "absent raw \<longleftrightarrow> raw = None \<or> raw = Some JNull"

definition jsonBool :: "string \<Rightarrow> json option \<Rightarrow> bool \<Rightarrow> str + bool" where
  "jsonBool name raw def =
     (case raw of
        None \<Rightarrow> Inr def
      | Some JNull \<Rightarrow> Inr def
      | Some (JBool b) \<Rightarrow> Inr b
      | Some _ \<Rightarrow> Inl (u (name @ '' must be true or false'')))"

definition jsonDate :: "string \<Rightarrow> json option \<Rightarrow> str + date option" where
  "jsonDate name raw =
     (if absent raw then Inr None
      else case raw of
        Some (JStr v) \<Rightarrow>
          (case parse_date v of
             None \<Rightarrow> Inl (u (name @ '' must be formatted as YYYY-MM-DD''))
           | Some t \<Rightarrow>
               if \<not> yearInRange (year t) then Inl (u (name @ '' must have a year from 2000 to 2100'')) else Inr (Some t))
      | _ \<Rightarrow> Inl (u (name @ '' must be formatted as YYYY-MM-DD'')))"

definition optionalText :: "string \<Rightarrow> json option \<Rightarrow> nat \<Rightarrow> str + str option" where
  "optionalText name raw mx =
     (if absent raw then Inr None
      else case raw of
        Some JBad \<Rightarrow> Inl (u (name @ '' must be text''))
      | Some (JStr v) \<Rightarrow>
          if 0 \<in> set v then Inl (u (name @ '' must be text''))
          else if TrimSpace v = [] then Inr None
          else if tooLong (u name) (TrimSpace v) mx \<noteq> [] then Inl (tooLong (u name) (TrimSpace v) mx)
          else Inr (Some (TrimSpace v))
      | _ \<Rightarrow> Inl (u (name @ '' must be a string'')))"

record closureRequest =
  cq_kind :: "json option"
  cq_start :: "json option"
  cq_end :: "json option"
  cq_title :: "json option"
  cq_notes :: "json option"
  cq_notify :: "json option"
  cq_confirm :: "json option"
  cq_dry_run :: "json option"

record closure =
  cl_kind :: str
  cl_start :: date
  cl_end :: "date option"
  cl_title :: str
  cl_notes :: "str option"
  cl_notify :: bool
  cl_confirm :: bool
  cl_dry_run :: bool

definition closure_kind :: "json option \<Rightarrow> str + str" where
  "closure_kind raw =
     (if absent raw then Inl (u ''kind is required'')
      else case raw of
        Some (JStr k) \<Rightarrow> if k = ClosureHoliday \<or> k = ClosurePause then Inr k else Inl (u ''kind must be holiday or pause'')
      | _ \<Rightarrow> Inl (u ''kind must be holiday or pause''))"

definition start_date :: "json option \<Rightarrow> str + date" where
  "start_date raw =
     (if absent raw then Inl (u ''start_date is required'')
      else case jsonDate ''start_date'' raw of Inl e \<Rightarrow> Inl e | Inr z \<Rightarrow> Inr (the z))"

definition settle_closure :: "closure \<Rightarrow> date \<Rightarrow> str + closure" where
  \<comment> \<open>the rules between the fields\<close>
  "settle_closure c day =
     (if (case cl_end c of None \<Rightarrow> False | Some e \<Rightarrow> e < cl_start c) then Inl (u ''end_date must not be before start_date'')
      else if cl_kind c = ClosureHoliday then
        (let e = (case cl_end c of None \<Rightarrow> cl_start c | Some e \<Rightarrow> e) in
         if MaxHolidayDays \<le> day_number e - day_number (cl_start c)
         then Inl (u ''a holiday can be at most '' @ itoa (int MaxHolidayDays) @ u '' days; use a pause for a longer closure'')
         else Inr (c\<lparr>cl_end := Some e\<rparr>))
      else if \<not> cl_confirm c \<and> \<not> cl_dry_run c then Inl (u ''confirm must be true for a pause'')
      else if cl_start c < day then Inl (u ''a pause cannot start in the past'')
      else Inr c)"

definition parseClosure :: "closureRequest \<Rightarrow> date \<Rightarrow> str + closure" where
  "parseClosure req day =
     andThen (closure_kind (cq_kind req)) (\<lambda>kind.
     andThen (start_date (cq_start req)) (\<lambda>start.
     andThen (jsonDate ''end_date'' (cq_end req)) (\<lambda>end_on.
     andThen (broadcastText ''title'' (cq_title req) MaxClosureTitleChars) (\<lambda>title.
     andThen (optionalText ''notes'' (cq_notes req) MaxClosureNotesChars) (\<lambda>notes.
     andThen (jsonBool ''notify'' (cq_notify req) True) (\<lambda>notify.
     andThen (jsonBool ''confirm'' (cq_confirm req) False) (\<lambda>confirm.
     andThen (jsonBool ''dry_run'' (cq_dry_run req) False) (\<lambda>dryRun.
     settle_closure \<lparr>cl_kind = kind, cl_start = start, cl_end = end_on, cl_title = title, cl_notes = notes,
       cl_notify = notify, cl_confirm = confirm, cl_dry_run = dryRun\<rparr> day))))))))"

text \<open>The notification's text: the notes, or a fixed sentence with the dates.\<close>

definition closed_from :: str where
  "closed_from = [1578, 1593, 1591, 1610, 1604, 32, 1575, 1604, 1583, 1608, 1575, 1605, 32, 1575, 1593, 1578,
    1576, 1575, 1585, 1575, 1611, 32, 1605, 1606, 32]"

definition closed_until :: str where
  "closed_until = [32, 1581, 1578, 1609, 32]"

definition holiday_on :: str where
  "holiday_on = [1593, 1591, 1604, 1577, 32, 1585, 1587, 1605, 1610, 1577, 32, 1610, 1608, 1605, 32]"

definition holiday_from :: str where
  "holiday_from = [1593, 1591, 1604, 1577, 32, 1585, 1587, 1605, 1610, 1577, 32, 1605, 1606, 32]"

definition holiday_to :: str where
  "holiday_to = [32, 1573, 1604, 1609, 32]"

definition closure_body :: "closure \<Rightarrow> str" where
  "closure_body c =
     (case cl_notes c of
        Some notes \<Rightarrow> notes
      | None \<Rightarrow>
          if cl_kind c = ClosurePause \<and> cl_end c = None then closed_from @ ymd (cl_start c)
          else if cl_kind c = ClosurePause then closed_from @ ymd (cl_start c) @ closed_until @ ymd (the (cl_end c))
          else if cl_end c = Some (cl_start c) then holiday_on @ ymd (cl_start c)
          else holiday_from @ ymd (cl_start c) @ holiday_to @ ymd (the (cl_end c)))"

section \<open>Quoting\<close>

definition hex_digit :: "nat \<Rightarrow> nat" where
  "hex_digit n = (if n < 10 then 48 + n else 87 + n)"

fun hex_digits :: "nat \<Rightarrow> nat \<Rightarrow> str" where
  "hex_digits 0 n = []"
| "hex_digits (Suc k) n = hex_digits k (n div 16) @ [hex_digit (n mod 16)]"

definition quote_char :: "(nat \<Rightarrow> bool) \<Rightarrow> nat \<Rightarrow> str" where
  "quote_char isPrint c =
     (if c = 34 \<or> c = 92 then [92, c]
      else if isPrint c then [c]
      else if c = 7 then [92, 97] else if c = 8 then [92, 98] else if c = 12 then [92, 102] else if c = 10 then [92, 110]
      else if c = 13 then [92, 114] else if c = 9 then [92, 116] else if c = 11 then [92, 118]
      else if c < 32 \<or> c = 127 then [92, 120] @ hex_digits 2 c
      else if c < 65536 then [92, 117] @ hex_digits 4 c
      else [92, 85] @ hex_digits 8 c)"

definition quoted :: "(nat \<Rightarrow> bool) \<Rightarrow> str \<Rightarrow> str" where
  \<comment> \<open>\<open>%q\<close>\<close>
  "quoted isPrint s = [34] @ concat (map (quote_char isPrint) s) @ [34]"

section \<open>Overlaps and notifications\<close>

datatype closure_err = Problem refusal | ClosureDB err

definition closure_refusal :: "string \<Rightarrow> closure_err \<Rightarrow> refusal" where
  "closure_refusal m e = (case e of Problem r \<Rightarrow> r | ClosureDB f \<Rightarrow> internal_error m f)"

definition lockClosures :: "(err, unit) tx" where
  "lockClosures = control"

definition meets :: "date \<Rightarrow> date option \<Rightarrow> closure_row \<Rightarrow> bool" where
  \<comment> \<open>the \<open>WHERE\<close> clause, with no end as \<open>infinity\<close>\<close>
  "meets start end_on c \<longleftrightarrow>
     (case end_on of None \<Rightarrow> True | Some e \<Rightarrow> c_start c \<le> e) \<and> (case c_end c of None \<Rightarrow> True | Some e \<Rightarrow> start \<le> e)"

definition overlap_message :: "(nat \<Rightarrow> bool) \<Rightarrow> closure_row \<Rightarrow> str" where
  "overlap_message isPrint c =
     u ''Overlaps closure '' @ itoa (c_id c) @ u '' '' @ quoted isPrint (c_title c) @ u '' ('' @
     (case c_end c of
        None \<Rightarrow> u ''from '' @ ymd (c_start c) @ u '', open-ended''
      | Some e \<Rightarrow> ymd (c_start c) @ u '' to '' @ ymd e) @
     u ''); cancel it first or choose other dates''"

definition overlap :: "(nat \<Rightarrow> bool) \<Rightarrow> date \<Rightarrow> date option \<Rightarrow> (err, str) tx" where
  "overlap isPrint start end_on =
     bindE (query (\<lambda>d. first_by (\<lambda>c. (c_start c, c_id c)) (filter (meets start end_on) (school_closures d)))) (\<lambda>found.
     ret (case found of None \<Rightarrow> [] | Some c \<Rightarrow> overlap_message isPrint c))"

definition closureBroadcast :: "str \<Rightarrow> str \<Rightarrow> (err, (int \<times> int) option) tx" where
  \<comment> \<open>the broadcast's id and recipients, or \<open>None\<close> (the source's id 0) when nobody receives it\<close>
  "closureBroadcast title body =
     bindE savepoint (\<lambda>saved.
     bindE (attempt (CreateBroadcast title body (simple_audience AudienceAll))) (\<lambda>r.
     case r of
       Inr (i, n) \<Rightarrow> ret (Some (i, n))
     | Inl ErrNoRecipients \<Rightarrow> bindE (rollback_savepoint saved) (\<lambda>_. ret None)
     | Inl (BroadcastDB e) \<Rightarrow> fail e))"

definition countAllParents :: "(err, int) tx" where
  "countAllParents = CountRecipients (simple_audience AudienceAll)"

section \<open>Registering a closure\<close>

definition closure_checks :: "closure_row \<Rightarrow> bool" where
  "closure_checks c \<longleftrightarrow>
     c_kind c \<in> {u ''holiday'', u ''pause''} \<and> between 1 80 (c_title c) \<and>
     (case c_notes c of None \<Rightarrow> True | Some s \<Rightarrow> length s \<le> 500) \<and>
     (case c_end c of None \<Rightarrow> True | Some e \<Rightarrow> c_start c \<le> e) \<and>
     (c_kind c = u ''holiday'' \<longrightarrow> (case c_end c of None \<Rightarrow> False | Some e \<Rightarrow> day_number e < day_number (c_start c) + 60))"

definition insert_closure :: "closure \<Rightarrow> stamp \<Rightarrow> int \<Rightarrow> db \<Rightarrow> err + int \<times> db" where
  "insert_closure c now i d =
     (let row = \<lparr>c_id = i, c_kind = cl_kind c, c_start = cl_start c, c_end = cl_end c, c_title = cl_title c,
                 c_notes = cl_notes c, c_broadcast = None, c_created = to_micro now\<rparr> in
      if \<not> closure_checks row then Inl (check_violation ''school_closures_check'')
      else if i \<in> c_id ` set (school_closures d) then Inl (unique_violation ''school_closures_pkey'')
      else Inr (i, d\<lparr>school_closures := school_closures d @ [row]\<rparr>))"

definition announce_closure :: "int \<Rightarrow> str \<Rightarrow> str \<Rightarrow> (err, (int \<times> int) option) tx" where
  \<comment> \<open>the broadcast of a new closure and the link to it\<close>
  "announce_closure i title body =
     bindE (closureBroadcast title body) (\<lambda>sent_to.
     bindE (case sent_to of
              None \<Rightarrow> ret ()
            | Some (b, _) \<Rightarrow> exec (\<lambda>d. d\<lparr>school_closures :=
                upd_where (\<lambda>c. c_id c = i) (\<lambda>c. c\<lparr>c_broadcast := Some b\<rparr>) (school_closures d)\<rparr>)) (\<lambda>_.
     ret sent_to))"

definition register_closure :: "(nat \<Rightarrow> bool) \<Rightarrow> closure \<Rightarrow> bool \<Rightarrow> (closure_err, int \<times> (int \<times> int) option) tx" where
  \<comment> \<open>the transaction of \<open>createClosure\<close>\<close>
  "register_closure isPrint c willNotify =
     bindE (lift_err ClosureDB lockClosures) (\<lambda>_.
     bindE (lift_err ClosureDB (overlap isPrint (cl_start c) (cl_end c))) (\<lambda>conflict.
     bindE (guard (conflict = []) (Problem (Refuse 409 conflict))) (\<lambda>_.
     bindE get_clock (\<lambda>now.
     bindE (lift_err ClosureDB (with_text ([cl_kind c, cl_title c] @ opt_list (cl_notes c))
       (insert_id School_Closures (insert_closure c now)))) (\<lambda>i.
     bindE (if willNotify then lift_err ClosureDB (announce_closure i (cl_title c) (closure_body c)) else ret None) (\<lambda>sent_to.
     ret (i, sent_to)))))))"

record ClosureRegistered =
  cr_id :: "int option"
  cr_kind :: str
  cr_start :: str
  cr_end :: "str option"
  cr_school_days :: "int option"
  cr_notified :: bool
  cr_recipients :: int
  cr_dry_run :: bool

definition closure_reply :: "closure \<Rightarrow> int option \<Rightarrow> bool \<Rightarrow> int \<Rightarrow> ClosureRegistered" where
  \<comment> \<open>\<open>respond\<close>\<close>
  "closure_reply c i notified n =
     \<lparr>cr_id = i, cr_kind = cl_kind c, cr_start = ymd (cl_start c), cr_end = map_option ymd (cl_end c),
      cr_school_days = map_option (\<lambda>e. int (schoolDaysBetween (cl_start c) e)) (cl_end c), cr_notified = notified,
      cr_recipients = n, cr_dry_run = cl_dry_run c\<rparr>"

definition preview_closure :: "(nat \<Rightarrow> bool) \<Rightarrow> closure \<Rightarrow> bool \<Rightarrow> (closure_err, int) tx" where
  "preview_closure isPrint c willNotify =
     bindE (lift_err ClosureDB (overlap isPrint (cl_start c) (cl_end c))) (\<lambda>conflict.
     bindE (guard (conflict = []) (Problem (Refuse 409 conflict))) (\<lambda>_.
     if willNotify then lift_err ClosureDB countAllParents else ret 0))"

definition createClosure :: "(nat \<Rightarrow> bool) \<Rightarrow> multicast \<Rightarrow> closureRequest body \<Rightarrow> (refusal, ClosureRegistered) tx" where
  "createClosure isPrint client b =
     bindE (of_sum (decodeJSONBody b (u ''Invalid request body''))) (\<lambda>req.
     bindE get_clock (\<lambda>now.
     let day = on_date now in
     bindE (lift_err (Refuse 400) (of_sum (parseClosure req day))) (\<lambda>c.
     bindE (NoteActivity [] [] (dryRunDetail (cl_dry_run c) [u ''kind='' @ cl_kind c])) (\<lambda>_.
     let willNotify = (cl_notify c \<and> \<not> (case cl_end c of None \<Rightarrow> False | Some e \<Rightarrow> e < day)) in
     if cl_dry_run c then
       bindE (lift_err (closure_refusal ''Failed to register closure'') (preview_closure isPrint c willNotify)) (\<lambda>n.
       ret (closure_reply c None (0 < n) n))
     else
       bindE (lift_err (closure_refusal ''Failed to register closure'')
         (in_tx ClosureDB (register_closure isPrint c willNotify))) (\<lambda>(i, sent_to).
       bindE (NoteActivity (u ''closure'') (itoa i) (u ''kind='' @ cl_kind c)) (\<lambda>_.
       bindE (case sent_to of None \<Rightarrow> ret () | Some (bid, _) \<Rightarrow> PushBroadcast client bid (cl_title c) (closure_body c)) (\<lambda>_.
       ret (closure_reply c (Some i) (sent_to \<noteq> None) (case sent_to of None \<Rightarrow> 0 | Some (_, n) \<Rightarrow> n)))))))))"

section \<open>Cancelling a closure\<close>

record cancelPlan =
  pl_kind :: str
  pl_action :: str
  pl_newEnd :: "date option"
  pl_started :: bool
  pl_title :: str

definition plan_for :: "closure_row \<Rightarrow> date \<Rightarrow> closure_err + cancelPlan" where
  \<comment> \<open>the \<open>switch\<close>, which compares the dates as text\<close>
  "plan_for c day =
     (let t = ymd day; start = ymd (c_start c);
          p = \<lparr>pl_kind = c_kind c, pl_action = u ''deleted'', pl_newEnd = None, pl_started = False, pl_title = c_title c\<rparr> in
      if (case c_end c of None \<Rightarrow> False | Some e \<Rightarrow> ymd e < t)
      then Inl (Problem (Refuse 409 (u ''This closure is already over'')))
      else if t < start then Inr p
      else if start = t then Inr (p\<lparr>pl_started := True\<rparr>)
      else Inr (p\<lparr>pl_action := u ''shortened'', pl_newEnd := Some (prev_day day), pl_started := True\<rparr>))"

definition planCancel :: "int \<Rightarrow> date \<Rightarrow> (closure_err, cancelPlan) tx" where
  "planCancel i day =
     bindE (lift_err ClosureDB (query (\<lambda>d. find_row (\<lambda>c. c_id c = i) (school_closures d)))) (\<lambda>found.
     bindE (of_option (Problem (Refuse 404 (u ''Closure not found''))) found) (\<lambda>c.
     of_sum (plan_for c day)))"

definition cancelled_title :: str where
  "cancelled_title = [1578, 1605, 32, 1573, 1604, 1594, 1575, 1569, 32, 1575, 1604, 1593, 1591, 1604, 1577]"

definition cancelled_prefix :: str where
  "cancelled_prefix = [1578, 1605, 32, 1573, 1604, 1594, 1575, 1569, 58, 32]"

definition ended_title :: str where
  "ended_title = [1578, 1605, 32, 1573, 1606, 1607, 1575, 1569, 32, 1575, 1604, 1593, 1591, 1604, 1577, 32,
    1608, 1575, 1587, 1578, 1574, 1606, 1575, 1601, 32, 1575, 1604, 1583, 1608, 1575, 1605]"

definition ended_prefix :: str where
  "ended_prefix = [1593, 1575, 1583, 32, 1575, 1604, 1583, 1608, 1575, 1605, 32, 1575, 1593, 1578, 1576, 1575,
    1585, 1575, 1611, 32, 1605, 1606, 32]"

definition cancel_message :: "cancelPlan \<Rightarrow> date \<Rightarrow> str option \<Rightarrow> str \<times> str" where
  \<comment> \<open>\<open>cancelPlan.message\<close>\<close>
  "cancel_message p resume notes =
     (let title = (if pl_started p then ended_title else cancelled_title);
          prefix = (if pl_started p then ended_prefix @ ymd resume @ u '': '' else cancelled_prefix);
          tail = (case notes of None \<Rightarrow> [] | Some s \<Rightarrow> [10, 10] @ s);
          room = MaxBroadcastBodyChars - length prefix - length tail;
          body = prefix @ truncateChars (pl_title p) (max room 1) @ tail in
      (title, truncateChars body MaxBroadcastBodyChars))"

definition end_closure :: "int \<Rightarrow> date \<Rightarrow> db \<Rightarrow> err + unit \<times> db" where
  "end_closure i e d =
     (if list_ex (\<lambda>c. c_id c = i \<and> \<not> closure_checks (c\<lparr>c_end := Some e\<rparr>)) (school_closures d)
      then Inl (check_violation ''school_closures_dates'')
      else Inr ((), d\<lparr>school_closures := upd_where (\<lambda>c. c_id c = i) (\<lambda>c. c\<lparr>c_end := Some e\<rparr>) (school_closures d)\<rparr>))"

definition cancel_closure :: "int \<Rightarrow> date \<Rightarrow> bool \<Rightarrow> str option \<Rightarrow> (closure_err, cancelPlan \<times> (int \<times> int) option) tx" where
  \<comment> \<open>the transaction of \<open>AdminCancelHolidayHandler\<close>\<close>
  "cancel_closure i day notifyParents notes =
     bindE (lift_err ClosureDB lockClosures) (\<lambda>_.
     bindE (planCancel i day) (\<lambda>p.
     bindE (lift_err ClosureDB
       (case pl_newEnd p of
          Some e \<Rightarrow> stmt (end_closure i e)
        | None \<Rightarrow> exec (\<lambda>d. d\<lparr>school_closures := del_where (\<lambda>c. c_id c = i) (school_closures d)\<rparr>))) (\<lambda>_.
     bindE (if notifyParents
            then case cancel_message p (nextSchoolWeekday day) notes of
                   (title, body) \<Rightarrow> lift_err ClosureDB (closureBroadcast title body)
            else ret None) (\<lambda>sent_to.
     ret (p, sent_to)))))"

record closureCancelRequest =
  cc_id :: "json option"
  cc_notify :: "json option"
  cc_notes :: "json option"
  cc_dry_run :: "json option"

record ClosureCancelled =
  ca_id :: int
  ca_action :: str
  ca_end :: "str option"
  ca_notified :: bool
  ca_recipients :: int
  ca_dry_run :: bool

definition closure_id :: "json option \<Rightarrow> str + int" where
  "closure_id raw =
     (if absent raw then Inl (u ''id is required'')
      else case raw of
        Some (JInt i) \<Rightarrow> if i < 1 \<or> 2 ^ 31 - 1 < i then Inl (u ''id must be a positive closure id'') else Inr i
      | _ \<Rightarrow> Inl (u ''id must be a positive closure id''))"

definition cancel_reply :: "int \<Rightarrow> bool \<Rightarrow> cancelPlan \<Rightarrow> bool \<Rightarrow> int \<Rightarrow> ClosureCancelled" where
  \<comment> \<open>\<open>respond\<close>\<close>
  "cancel_reply i dryRun p notified n =
     \<lparr>ca_id = i, ca_action = pl_action p, ca_end = map_option ymd (pl_newEnd p), ca_notified = notified, ca_recipients = n,
      ca_dry_run = dryRun\<rparr>"

definition preview_cancel :: "int \<Rightarrow> date \<Rightarrow> bool \<Rightarrow> (refusal, ClosureCancelled) tx" where
  \<comment> \<open>the handler's answer to a dry run\<close>
  "preview_cancel i day notifyParents =
     bindE (lift_err (closure_refusal ''Failed to cancel closure'') (planCancel i day)) (\<lambda>p.
     bindE (if notifyParents then lift_err (internal_error ''Failed to cancel closure'') countAllParents else ret 0) (\<lambda>n.
     bindE (NoteActivity (u ''closure'') (itoa i)
       (dryRunDetail True [u ''kind='' @ pl_kind p, u ''action='' @ pl_action p])) (\<lambda>_.
     ret (cancel_reply i True p (0 < n) n))))"

definition perform_cancel :: "multicast \<Rightarrow> int \<Rightarrow> date \<Rightarrow> bool \<Rightarrow> str option \<Rightarrow> (refusal, ClosureCancelled) tx" where
  \<comment> \<open>the rest of the handler: the transaction, then the push\<close>
  "perform_cancel client i day notifyParents notes =
     bindE (lift_err (closure_refusal ''Failed to cancel closure'')
       (in_tx ClosureDB (cancel_closure i day notifyParents notes))) (\<lambda>(p, sent_to).
     bindE (NoteActivity (u ''closure'') (itoa i) (u ''kind='' @ pl_kind p @ u '' action='' @ pl_action p)) (\<lambda>_.
     bindE (case sent_to of
              None \<Rightarrow> ret ()
            | Some (bid, _) \<Rightarrow>
                (case cancel_message p (nextSchoolWeekday day) notes of (title, body) \<Rightarrow> PushBroadcast client bid title body)) (\<lambda>_.
     ret (cancel_reply i False p (sent_to \<noteq> None) (case sent_to of None \<Rightarrow> 0 | Some (_, n) \<Rightarrow> n)))))"

definition AdminCancelHolidayHandler :: "multicast \<Rightarrow> meth \<Rightarrow> closureCancelRequest body \<Rightarrow> (refusal, ClosureCancelled) tx" where
  "AdminCancelHolidayHandler client meth b =
     bindE (guard (meth = POST) method_not_allowed) (\<lambda>_.
     bindE (of_sum (decodeJSONBody b (u ''Invalid request body''))) (\<lambda>req.
     bindE (lift_err (Refuse 400) (of_sum (closure_id (cc_id req)))) (\<lambda>i.
     bindE (lift_err (Refuse 400) (of_sum (jsonBool ''notify'' (cc_notify req) True))) (\<lambda>notifyParents.
     bindE (lift_err (Refuse 400) (of_sum (optionalText ''notes'' (cc_notes req) MaxClosureNotesChars))) (\<lambda>notes.
     bindE (lift_err (Refuse 400) (of_sum (jsonBool ''dry_run'' (cc_dry_run req) False))) (\<lambda>dryRun.
     bindE (NoteActivity (u ''closure'') (itoa i) (dryRunDetail dryRun [])) (\<lambda>_.
     bindE get_clock (\<lambda>now.
     let day = on_date now in
     if dryRun then preview_cancel i day notifyParents else perform_cancel client i day notifyParents notes))))))))"

section \<open>Lists\<close>

record ClosureItem =
  ci_id :: int
  ci_kind :: str
  ci_start :: str
  ci_end :: "str option"
  ci_title :: str
  ci_notes :: "str option"
  ci_created :: str
  ci_active :: bool
  ci_notified :: bool
  ci_recipients :: "int option"

definition closure_item :: "db \<Rightarrow> date \<Rightarrow> closure_row \<Rightarrow> ClosureItem" where
  "closure_item d day c =
     \<lparr>ci_id = c_id c, ci_kind = c_kind c, ci_start = ymd (c_start c), ci_end = map_option ymd (c_end c), ci_title = c_title c,
      ci_notes = c_notes c, ci_created = rfc3339 (c_created c), ci_active = covers day c, ci_notified = (c_broadcast c \<noteq> None),
      ci_recipients = Option.bind (c_broadcast c) (\<lambda>b. map_option b_count (find_row (\<lambda>r. b_id r = b) (broadcasts d)))\<rparr>"

definition listed :: "(nat \<times> nat) option \<Rightarrow> date \<Rightarrow> closure_row \<Rightarrow> bool" where
  \<comment> \<open>the \<open>CASE\<close> of the \<open>WHERE\<close> clause\<close>
  "listed mth day c \<longleftrightarrow>
     (case mth of
        None \<Rightarrow> (case c_end c of None \<Rightarrow> True | Some e \<Rightarrow> day \<le> e)
      | Some (y, m) \<Rightarrow> c_start c \<le> Date y m (days_in y m) \<and> (case c_end c of None \<Rightarrow> True | Some e \<Rightarrow> Date y m 1 \<le> e))"

definition closures_query :: "(nat \<times> nat) option \<Rightarrow> date \<Rightarrow> db \<Rightarrow> ClosureItem list" where
  "closures_query mth day d =
     map (closure_item d day) (sort_key (\<lambda>c. (c_start c, c_id c)) (filter (listed mth day) (school_closures d)))"

definition listClosures :: "str \<Rightarrow> (refusal, ClosureItem list) tx" where
  "listClosures monthParam =
     bindE get_clock (\<lambda>now.
     bindE (if monthParam = [] then ret None
            else bindE (of_sum (requestedMonth monthParam now)) (\<lambda>m. ret (parse_month m))) (\<lambda>mth.
     lift_err (internal_error ''Database error'') (query (closures_query mth (on_date now)))))"

definition AdminHolidaysHandler ::
    "(nat \<Rightarrow> bool) \<Rightarrow> multicast \<Rightarrow> meth \<Rightarrow> str \<Rightarrow> closureRequest body \<Rightarrow> (refusal, ClosureRegistered + ClosureItem list) tx" where
  "AdminHolidaysHandler isPrint client meth monthParam b =
     (case meth of
        POST \<Rightarrow> bindE (createClosure isPrint client b) (\<lambda>r. ret (Inl r))
      | GET \<Rightarrow> bindE (listClosures monthParam) (\<lambda>r. ret (Inr r))
      | _ \<Rightarrow> fail method_not_allowed)"

record ClosedDay =
  cd_date :: str
  cd_kind :: str
  cd_title :: str
  cd_notes :: "str option"

definition closed_days_query :: "nat \<times> nat \<Rightarrow> db \<Rightarrow> ClosedDay list" where
  \<comment> \<open>\<open>SELECT DISTINCT ON (g.d) ... ORDER BY g.d, c.kind = 'pause' DESC, c.start_date\<close>\<close>
  "closed_days_query ym d =
     List.map_filter (\<lambda>day.
       map_option (\<lambda>c. \<lparr>cd_date = ymd day, cd_kind = c_kind c, cd_title = c_title c, cd_notes = c_notes c\<rparr>)
         (first_by (\<lambda>c. (c_kind c \<noteq> ClosurePause, c_start c)) (filter (covers day) (school_closures d))))
       (filter (\<lambda>day. weekday day \<noteq> 5 \<and> weekday day \<noteq> 6) (month_dates ym))"

definition MobileHolidaysHandler :: "str \<Rightarrow> (refusal, str \<times> ClosedDay list) tx" where
  "MobileHolidaysHandler monthParam =
     bindE get_clock (\<lambda>now.
     bindE (of_sum (requestedMonth monthParam now)) (\<lambda>m.
     bindE (lift_err (internal_error ''Database error'') (query (closed_days_query (the (parse_month m))))) (\<lambda>days.
     ret (m, days))))"

section \<open>The calendar the table stands for\<close>

definition dated :: "closure_row \<Rightarrow> bool" where
  "dated c \<longleftrightarrow> valid_date (c_start c) \<and> (case c_end c of None \<Rightarrow> True | Some e \<Rightarrow> valid_date e)"

definition closures_ok :: "db \<Rightarrow> bool" where
  "closures_ok d \<longleftrightarrow>
     unique_key c_id (school_closures d) \<and> (\<forall>c \<in> set (school_closures d). closure_checks c \<and> dated c) \<and>
     (\<forall>a \<in> set (school_closures d). \<forall>b \<in> set (school_closures d). c_id a \<noteq> c_id b \<longrightarrow> \<not> meets (c_start a) (c_end a) b)"

definition closed_days :: "db \<Rightarrow> date set" where
  \<comment> \<open>the abstract calendar\<close>
  "closed_days d = {day. valid_date day \<and> list_ex (covers day) (school_closures d)}"

definition span :: "date \<Rightarrow> date option \<Rightarrow> date set" where
  "span start end_on = {day. valid_date day \<and> start \<le> day \<and> (case end_on of None \<Rightarrow> True | Some e \<Rightarrow> day \<le> e)}"

definition good_clock :: "stamp \<Rightarrow> bool" where
  "good_clock t \<longleftrightarrow> valid_date (on_date t) \<and> 0 < year (on_date t)"

interpretation closure_ids: keyed_table school_closures "\<lambda>rs d. d\<lparr>school_closures := rs\<rparr>" c_id
  by unfold_locales simp_all

lemma closed_days_span: "closed_days d = (\<Union>c \<in> set (school_closures d). span (c_start c) (c_end c))"
  by (auto simp: closed_days_def span_def covers_def list_ex_iff)

lemma meets_sym: "meets (c_start a) (c_end a) b \<longleftrightarrow> meets (c_start b) (c_end b) a"
  by (auto simp: meets_def split: option.splits)

lemma closures_ok_cong: "school_closures d' = school_closures d \<Longrightarrow> closures_ok d' = closures_ok d"
  by (simp add: closures_ok_def)

lemma prev_day_less: "valid_date d \<Longrightarrow> 0 < year d \<Longrightarrow> prev_day d < d"
  using next_day_greater [OF valid_prev_day] by (simp add: next_prev_day)

lemma day_before:
  assumes "valid_date d" "0 < year d" "valid_date x"
  shows "x \<le> prev_day d \<longleftrightarrow> x < d"
proof
  assume "x \<le> prev_day d"
  then show "x < d" using prev_day_less [OF assms(1,2)] by simp
next
  assume "x < d"
  then have "next_day x \<le> d \<or> \<not> valid_date (next_day x)"
    using next_day_least [OF assms(3,1)] by blast
  show "x \<le> prev_day d"
  proof (rule ccontr)
    assume "\<not> x \<le> prev_day d"
    then have "prev_day d < x" by simp
    moreover have "valid_date (next_day (prev_day d))" using assms by (simp add: next_prev_day)
    ultimately have "next_day (prev_day d) \<le> x"
      using next_day_least [OF valid_prev_day [OF assms(1,2)] assms(3)] by blast
    with \<open>x < d\<close> show False using assms by (simp add: next_prev_day)
  qed
qed

section \<open>What a broadcast leaves of the closures\<close>

lemma closureBroadcast_ok:
  assumes "closureBroadcast title body w = (Inr z, w')"
  shows "school_closures (db w') = school_closures (db w) \<and>
    (case z of None \<Rightarrow> db w' = db w | Some (i, n) \<Rightarrow> sent (db w) (db w') title body (simple_audience AudienceAll) i n)"
proof -
  from assms obtain saved w1 r w2 where s: "savepoint w = (Inr saved, w1)"
    and c: "CreateBroadcast title body (simple_audience AudienceAll) w1 = (r, w2)"
    and k: "(case r of
       Inr (i, n) \<Rightarrow> ret (Some (i, n))
     | Inl ErrNoRecipients \<Rightarrow> bindE (rollback_savepoint saved) (\<lambda>_. ret None)
     | Inl (BroadcastDB e) \<Rightarrow> fail e) w2 = (Inr z, w')"
    unfolding closureBroadcast_def by (auto simp: bindE_ok attempt_ok)
  have d: "saved = db w" "db w1 = db w" using savepoint_ok [OF s] by auto
  show ?thesis
  proof (cases r)
    case (Inr x)
    obtain i n where x: "x = (i, n)" by fastforce
    have "sent (db w) (db w2) title body (simple_audience AudienceAll) i n" using CreateBroadcast_ok c d Inr x by metis
    with k Inr x show ?thesis by (auto simp: simple_ok sent_def)
  next
    case (Inl e)
    with k d show ?thesis
      by (cases e) (auto simp: simple_ok bindE_ok dest: rollback_savepoint_ok)
  qed
qed

lemma announce_ok:
  assumes "announce_closure i title body w = (Inr z, w')"
  shows "\<exists>bc. school_closures (db w') = upd_where (\<lambda>c. c_id c = i) (\<lambda>c. c\<lparr>c_broadcast := bc c\<rparr>) (school_closures (db w))"
proof -
  from assms obtain w1 where c: "closureBroadcast title body w = (Inr z, w1)"
    and k: "(case z of
              None \<Rightarrow> ret ()
            | Some (b, _) \<Rightarrow> exec (\<lambda>d. d\<lparr>school_closures :=
                upd_where (\<lambda>c. c_id c = i) (\<lambda>c. c\<lparr>c_broadcast := Some b\<rparr>) (school_closures d)\<rparr>)) w1 = (Inr (), w')"
    by (auto simp: announce_closure_def bindE_ok simple_ok)
  have d: "school_closures (db w1) = school_closures (db w)" using closureBroadcast_ok [OF c] by simp
  show ?thesis
  proof (cases z)
    case None
    have same: "upd_where (\<lambda>c. c_id c = i) (\<lambda>c. c\<lparr>c_broadcast := c_broadcast c\<rparr>) cs = cs" for cs
      by (simp add: upd_where_def map_idI)
    have "w' = w1" using None k by (simp add: simple_ok)
    show ?thesis unfolding \<open>w' = w1\<close> d by (rule exI [of _ c_broadcast]) (rule same [symmetric])
  next
    case (Some x)
    with k d show ?thesis by (cases x) (auto dest!: exec_ok(1))
  qed
qed

lemma overlap_ok: "overlap isPrint start end_on w = (Inr [], w') \<Longrightarrow>
    db w' = db w \<and> clock w' = clock w \<and> (\<forall>c \<in> set (school_closures (db w)). \<not> meets start end_on c)"
proof -
  assume "overlap isPrint start end_on w = (Inr [], w')"
  then obtain z where q: "query (\<lambda>d. first_by (\<lambda>c. (c_start c, c_id c)) (filter (meets start end_on) (school_closures d))) w = (Inr z, w')"
      and z: "(case z of None \<Rightarrow> [] | Some c \<Rightarrow> overlap_message isPrint c) = []"
    by (auto simp: overlap_def ok_iffs)
  have "z = None" using z by (cases z) (auto simp: overlap_message_def)
  with query_okD [OF q] show ?thesis by (auto simp: filter_empty_conv dest: sym)
qed

definition new_row :: "closure \<Rightarrow> int \<Rightarrow> int option \<Rightarrow> stamp \<Rightarrow> closure_row" where
  "new_row c i bc now = \<lparr>c_id = i, c_kind = cl_kind c, c_start = cl_start c, c_end = cl_end c, c_title = cl_title c,
     c_notes = cl_notes c, c_broadcast = bc, c_created = to_micro now\<rparr>"

lemma register_ok:
  assumes "register_closure isPrint c willNotify w = (Inr (i, z), w')"
  obtains bc now where "school_closures (db w') = school_closures (db w) @ [new_row c i bc now]"
    "i \<notin> c_id ` set (school_closures (db w))" "closure_checks (new_row c i bc now)"
    "\<forall>r \<in> set (school_closures (db w)). \<not> meets (cl_start c) (cl_end c) r"
proof -
  from assms obtain w0 w1 w2 w3 where lock: "lockClosures w = (Inr (), w0)" and o: "overlap isPrint (cl_start c) (cl_end c) w0 = (Inr [], w1)"
    and i: "insert_id School_Closures (insert_closure c (clock w1)) w1 = (Inr i, w2)"
    and a: "(if willNotify then lift_err ClosureDB (announce_closure i (cl_title c) (closure_body c)) else ret None) w2 = (Inr z, w')"
    unfolding register_closure_def by (auto simp: bindE_ok simple_ok lift_err_ok dest!: with_text_ok)
  have d: "db w1 = db w" "\<forall>r \<in> set (school_closures (db w)). \<not> meets (cl_start c) (cl_end c) r"
    using overlap_ok [OF o] lock by (auto simp: lockClosures_def dest: control_ok(1))
  from i obtain d2 where "insert_closure c (clock w1) (serial w1 School_Closures) (db w1) = Inr (i, d2)" "db w2 = d2"
    by (rule insert_id_ok)
  then have "insert_closure c (clock w1) (serial w1 School_Closures) (db w) = Inr (i, db w2)"
    by (simp only: d)
  then have row: "school_closures (db w2) = school_closures (db w) @ [new_row c i None (clock w1)]"
    "i \<notin> c_id ` set (school_closures (db w))" "closure_checks (new_row c i None (clock w1))"
    by (auto simp: insert_closure_def Let_def new_row_def split: if_splits dest: sym)
  have old: "upd_where (\<lambda>r. c_id r = i) f (school_closures (db w)) = school_closures (db w)" for f
    using row(2) by (auto simp: upd_where_def intro!: map_idI)
  obtain bc where "school_closures (db w') = school_closures (db w) @ [new_row c i bc (clock w1)]"
  proof (cases willNotify)
    case True
    with a obtain bc where "school_closures (db w') = upd_where (\<lambda>r. c_id r = i) (\<lambda>r. r\<lparr>c_broadcast := bc r\<rparr>) (school_closures (db w2))"
      using announce_ok by fastforce
    with old have "school_closures (db w') = school_closures (db w) @ [new_row c i (bc (new_row c i None (clock w1))) (clock w1)]"
      by (simp add: row(1) upd_where_def new_row_def)
    then show thesis by (rule that)
  next
    case False
    with a row(1) show thesis by (intro that [of None]) (simp add: simple_ok)
  qed
  moreover have "closure_checks (new_row c i bc (clock w1))" for bc
    using row(3) unfolding new_row_def closure_checks_def by (auto split: option.splits)
  ultimately show thesis using row(2) d(2) that by blast
qed

lemma parse_ok:
  assumes "parseClosure req day = Inr c"
  shows "valid_date (cl_start c)" "cl_end c = Some e \<Longrightarrow> valid_date e"
proof -
  have jd: "jsonDate name raw = Inr (Some t) \<Longrightarrow> valid_date t" for name raw t
    by (auto simp: jsonDate_def parse_date_Some split: option.splits json.splits if_splits)
  have sd: "start_date raw = Inr t \<Longrightarrow> valid_date t" for raw t
  proof -
    assume s: "start_date raw = Inr t"
    then obtain z where z: "jsonDate ''start_date'' raw = Inr z" "t = the z" and a: "\<not> absent raw"
      by (auto simp: start_date_def split: if_splits sum.splits)
    have "jsonDate ''start_date'' raw \<noteq> Inr None"
      using a by (simp add: jsonDate_def split: option.split json.split)
    with z(1) have "z \<noteq> None" by auto
    with z jd show ?thesis by fastforce
  qed
  from assms obtain kind start end_on title nt notify confirm dryRun where s: "start_date (cq_start req) = Inr start"
      "jsonDate ''end_date'' (cq_end req) = Inr end_on"
    and k: "settle_closure \<lparr>cl_kind = kind, cl_start = start, cl_end = end_on, cl_title = title, cl_notes = nt,
       cl_notify = notify, cl_confirm = confirm, cl_dry_run = dryRun\<rparr> day = Inr c"
    unfolding parseClosure_def andThen_ok by blast
  have "cl_start c = start" "cl_end c = end_on \<or> cl_end c = Some start"
    using k by (auto simp: settle_closure_def Let_def split: if_splits option.splits)
  with s jd sd show "valid_date (cl_start c)" "cl_end c = Some e \<Longrightarrow> valid_date e" by auto
qed

lemma added_ok:
  assumes "closures_ok d" "school_closures d' = school_closures d @ [r]" "c_id r \<notin> c_id ` set (school_closures d)"
    "closure_checks r" "dated r" "\<forall>x \<in> set (school_closures d). \<not> meets (c_start r) (c_end r) x"
  shows "closures_ok d'"
  using assms meets_sym unfolding closures_ok_def unique_key_def by (auto 0 3)

section \<open>Cancelling on the calendar\<close>

lemma same_closure:
  assumes "closures_ok d" "a \<in> set (school_closures d)" "b \<in> set (school_closures d)" "covers x a" "covers x b"
  shows "c_id a = c_id b"
proof (rule ccontr)
  assume "c_id a \<noteq> c_id b"
  moreover have "meets (c_start a) (c_end a) b"
    using assms(4,5) by (auto simp: meets_def covers_def split: option.splits)
  ultimately show False using assms(1-3) unfolding closures_ok_def by blast
qed

lemma deleted_ok:
  assumes "closures_ok d" "c \<in> set (school_closures d)" "day \<le> c_start c"
    and d': "d' = d\<lparr>school_closures := del_where (\<lambda>r. c_id r = c_id c) (school_closures d)\<rparr>"
  shows "closures_ok d' \<and> closed_days d' = closed_days d - {x \<in> span (c_start c) (c_end c). day \<le> x}"
proof
  have "unique_key c_id (school_closures d')"
    using assms(1) closure_ids.delete_keeps_unique unfolding d' closures_ok_def by blast
  then show "closures_ok d'" using assms(1) unfolding closures_ok_def by (auto simp: d' del_where_def)
  have "covers x c \<longleftrightarrow> c_id r = c_id c" if "r \<in> set (school_closures d)" "covers x r" for x r
    using that assms(1,2) same_closure closure_ids.unique_row unfolding closures_ok_def by metis
  then show "closed_days d' = closed_days d - {x \<in> span (c_start c) (c_end c). day \<le> x}"
    using assms(3) by (fastforce simp: closed_days_def span_def d' del_where_def list_ex_iff covers_def)
qed

lemma shortened_ok:
  assumes "closures_ok d" "c \<in> set (school_closures d)" "c_start c < day" "(case c_end c of None \<Rightarrow> True | Some e \<Rightarrow> day \<le> e)"
    and day: "valid_date day" "0 < year day"
    and e: "end_closure (c_id c) (prev_day day) d = Inr ((), d')"
  shows "closures_ok d' \<and> closed_days d' = closed_days d - {x \<in> span (c_start c) (c_end c). day \<le> x}"
proof
  let ?f = "\<lambda>r. r\<lparr>c_end := Some (prev_day day)\<rparr>"
  have rows: "school_closures d' = upd_where (\<lambda>r. c_id r = c_id c) ?f (school_closures d)"
    and chk: "\<And>r. r \<in> set (school_closures d) \<Longrightarrow> c_id r = c_id c \<Longrightarrow> closure_checks (?f r)"
    using e by (auto simp: end_closure_def list_ex_iff split: if_splits)
  have key: "\<And>r. r \<in> set (school_closures d) \<Longrightarrow> c_id r = c_id c \<Longrightarrow> r = c"
    using assms(1,2) closure_ids.unique_row unfolding closures_ok_def by blast
  have prev: "prev_day day < day" "valid_date (prev_day day)" using day by (simp_all add: prev_day_less valid_prev_day)
  have mem: "r \<in> set (school_closures d') \<longleftrightarrow> r = ?f c \<or> r \<in> set (school_closures d) \<and> c_id r \<noteq> c_id c" for r
    using assms(2) key by (auto simp: rows upd_where_def)
  have cut: "meets start end_on (?f c) \<Longrightarrow> meets start end_on c" for start end_on
    using assms(4) prev(1) by (auto simp: meets_def split: option.splits)
  have cut2: "meets (c_start (?f c)) (c_end (?f c)) r \<Longrightarrow> meets (c_start c) (c_end c) r" for r
    using assms(4) prev(1) by (auto simp: meets_def split: option.splits)
  have u: "unique_key c_id (school_closures d')"
    using assms(1) unfolding closures_ok_def rows unique_key_def by (simp add: map_upd_where)
  have "closure_checks (?f c) \<and> dated (?f c)"
    using assms(1,2) chk prev(2) by (auto simp: closures_ok_def dated_def)
  moreover have apart: "\<not> meets (c_start a) (c_end a) b"
    if "a \<in> set (school_closures d)" "b \<in> set (school_closures d)" "c_id a \<noteq> c_id b" for a b
    using that assms(1) unfolding closures_ok_def by blast
  have "\<not> meets (c_start a) (c_end a) b"
    if a: "a \<in> set (school_closures d')" and b: "b \<in> set (school_closures d')" and ne: "c_id a \<noteq> c_id b" for a b
  proof (cases "a = ?f c")
    case True
    then have "b \<in> set (school_closures d)" "c_id c \<noteq> c_id b" using b ne mem by auto
    with True show ?thesis using cut2 apart assms(2) by blast
  next
    case False
    then have "a \<in> set (school_closures d)" "c_id a \<noteq> c_id c" using a mem by auto
    with b ne show ?thesis using cut apart assms(2) mem by metis
  qed
  ultimately show "closures_ok d'"
    unfolding closures_ok_def using u assms(1) by (auto simp: mem closures_ok_def)
  have one: "covers x c \<longleftrightarrow> c_id r = c_id c" if "r \<in> set (school_closures d)" "covers x r" for x r
    using that assms(1,2) same_closure closure_ids.unique_row unfolding closures_ok_def by metis
  have cov: "covers x (?f c) \<longleftrightarrow> covers x c \<and> x < day" if "valid_date x" for x
    using day_before [OF day that] assms(4) by (auto simp: covers_def split: option.splits)
  have sp: "x \<in> span (c_start c) (c_end c) \<longleftrightarrow> valid_date x \<and> covers x c" for x
    by (auto simp: span_def covers_def)
  show "closed_days d' = closed_days d - {x \<in> span (c_start c) (c_end c). day \<le> x}"
  proof (rule set_eqI)
    fix x
    have "x \<in> closed_days d' \<longleftrightarrow> valid_date x \<and> (covers x (?f c) \<or> (\<exists>r \<in> set (school_closures d). c_id r \<noteq> c_id c \<and> covers x r))"
      unfolding closed_days_def list_ex_iff mem_Collect_eq by (metis mem)
    also have "\<dots> \<longleftrightarrow> valid_date x \<and> (\<exists>r \<in> set (school_closures d). covers x r) \<and> \<not> (covers x c \<and> day \<le> x)"
      using cov [of x] one [of _ x] assms(2) by (metis not_le)
    also have "\<dots> \<longleftrightarrow> x \<in> closed_days d - {x \<in> span (c_start c) (c_end c). day \<le> x}"
      by (auto simp: closed_days_def list_ex_iff sp)
    finally show "x \<in> closed_days d' \<longleftrightarrow> x \<in> closed_days d - {x \<in> span (c_start c) (c_end c). day \<le> x}" .
  qed
qed

lemma plan_ok:
  assumes "plan_for c day = Inr p" "dated c" "valid_date day"
  shows "case pl_newEnd p of
      None \<Rightarrow> day \<le> c_start c
    | Some e \<Rightarrow> e = prev_day day \<and> c_start c < day \<and> (case c_end c of None \<Rightarrow> True | Some e \<Rightarrow> day \<le> e)"
  using assms ymd_inject [of "c_start c" day] ymd_less [of day "c_start c"] ymd_less [of _ day]
  by (auto simp: plan_for_def Let_def dated_def not_less split: if_splits option.splits)

lemma cancel_ok:
  assumes "cancel_closure i day n nt w = (Inr (p, z), w')" "closures_ok (db w)" "valid_date day" "0 < year day"
  obtains c where "c \<in> set (school_closures (db w))" "c_id c = i" "closures_ok (db w')"
    "closed_days (db w') = closed_days (db w) - {x \<in> span (c_start c) (c_end c). day \<le> x}"
proof -
  from assms(1) obtain w0 w1 w2 where lock: "lockClosures w = (Inr (), w0)" and pl: "planCancel i day w0 = (Inr p, w1)"
    and ed: "(case pl_newEnd p of
          Some e \<Rightarrow> stmt (end_closure i e)
        | None \<Rightarrow> exec (\<lambda>d. d\<lparr>school_closures := del_where (\<lambda>c. c_id c = i) (school_closures d)\<rparr>)) w1 = (Inr (), w2)"
    and b: "(if n then case cancel_message p (nextSchoolWeekday day) nt of (title, body) \<Rightarrow>
              lift_err ClosureDB (closureBroadcast title body) else ret None) w2 = (Inr z, w')"
    unfolding cancel_closure_def by (auto simp: bindE_ok simple_ok lift_err_ok)
  have w0: "db w0 = db w" using lock by (auto simp: lockClosures_def dest: control_ok(1))
  from pl obtain c where c: "find_row (\<lambda>c. c_id c = i) (school_closures (db w)) = Some c" "plan_for c day = Inr p" "db w1 = db w"
    unfolding planCancel_def by (auto simp: bindE_ok simple_ok lift_err_ok w0 dest!: query_okD)
  have mem: "c \<in> set (school_closures (db w))" "c_id c = i" using find_row_Some [OF c(1)] by auto
  have dc: "dated c" using assms(2) mem by (simp add: closures_ok_def)
  have w2: "closures_ok (db w2) \<and> closed_days (db w2) = closed_days (db w) - {x \<in> span (c_start c) (c_end c). day \<le> x}"
  proof (cases "pl_newEnd p")
    case None
    with plan_ok [OF c(2) dc assms(3)] ed c(3) mem show ?thesis
      using deleted_ok [OF assms(2) mem(1)] by (auto dest!: exec_ok(1))
  next
    case (Some e)
    with plan_ok [OF c(2) dc assms(3)] have e: "e = prev_day day" "c_start c < day" "case c_end c of None \<Rightarrow> True | Some e \<Rightarrow> day \<le> e"
      by auto
    from Some ed have "stmt (end_closure i e) w1 = (Inr (), w2)" by simp
    then have "end_closure (c_id c) (prev_day day) (db w) = Inr ((), db w2)"
      using c(3) mem e(1) by (auto elim!: stmt_ok)
    from shortened_ok [OF assms(2) mem(1) e(2,3) assms(3,4) this] show ?thesis .
  qed
  obtain title body where "cancel_message p (nextSchoolWeekday day) nt = (title, body)" by fastforce
  with b have "w' = w2 \<or> closureBroadcast title body w2 = (Inr z, w')"
    by (cases n) (auto simp: simple_ok lift_err_ok)
  then have same: "school_closures (db w') = school_closures (db w2)" using closureBroadcast_ok by blast
  have "closures_ok (db w')" using w2 closures_ok_cong [OF same] by simp
  moreover have "closed_days (db w') = closed_days (db w2)" using same by (simp add: closed_days_def)
  ultimately show thesis using that [OF mem] w2 by simp
qed

section \<open>The handlers\<close>

definition keeps_at :: "(stamp \<Rightarrow> bool) \<Rightarrow> (db \<Rightarrow> bool) \<Rightarrow> ('e, 'a) tx \<Rightarrow> bool" where
  \<comment> \<open>what a run keeps that starts at a time that satisfies \<open>C\<close>\<close>
  "keeps_at C P m \<longleftrightarrow> (\<forall>w. C (clock w) \<longrightarrow> P (db w) \<longrightarrow> P (db (snd (m w))))"

lemma keeps_at_any: "keeps P m \<Longrightarrow> keeps_at C P m"
  by (simp add: keeps_def keeps_at_def)

lemma keeps_at_clock: "(\<And>now. C now \<Longrightarrow> keeps P (f now)) \<Longrightarrow> keeps_at C P (bindE get_clock f)"
  by (simp add: keeps_def keeps_at_def bindE_def run_simps)

lemma keeps_at_bindE:
  assumes "keeps P m" "calm m" "\<And>x. keeps_at C P (f x)"
  shows "keeps_at C P (bindE m f)"
  unfolding keeps_at_def
proof (intro allI impI)
  fix w :: world assume C: "C (clock w)" and P: "P (db w)"
  obtain r w1 where m: "m w = (r, w1)" by fastforce
  have "P (db w1)" "clock w1 = clock w" using keepsD [OF assms(1) P m] calmD [OF assms(2) m] by auto
  with C m assms(3) show "P (db (snd (bindE m f w)))"
    by (cases r) (auto simp: bindE_def keeps_at_def)
qed

lemma keeps_of_sum_then:
  assumes "\<And>x. v = Inr x \<Longrightarrow> keeps P (f x)"
  shows "keeps P (bindE (lift_err g (of_sum v)) f)"
proof (cases v)
  case (Inl e)
  then show ?thesis by (simp add: keeps_def bindE_def of_sum_def lift_err_def catchE_def fail_def)
next
  case (Inr x)
  with assms [OF Inr] show ?thesis by (simp add: keeps_def bindE_def of_sum_def lift_err_def catchE_def)
qed

lemma keeps_closure_push: "keeps closures_ok (PushBroadcast client i title body)"
proof (rule keeps_PushBroadcast)
  fix d t assume "closures_ok d"
  then show "closures_ok (d\<lparr>device_tokens := t\<rparr>)" by (subst closures_ok_cong [of _ d]) simp_all
qed

lemma keeps_closure_reads:
  "keeps P (overlap isPrint start end_on)" "keeps P countAllParents" "keeps P (planCancel i day)"
  "keeps P (preview_closure isPrint c b)" "keeps P (listClosures mp)" "keeps P (MobileHolidaysHandler mp)"
proof -
  show o: "keeps P (overlap isPrint start end_on)" for start end_on unfolding overlap_def by (intro keeping)
  show n: "keeps P countAllParents"
    unfolding countAllParents_def CountRecipients_def by (intro keeping)
  show "keeps P (planCancel i day)" unfolding planCancel_def by (intro keeping)
  show "keeps P (preview_closure isPrint c b)" unfolding preview_closure_def
    by (intro keeps_bindE keeps_lift_err keeps_guard keeps_if keeps_ret o n)
  show "keeps P (listClosures mp)" "keeps P (MobileHolidaysHandler mp)"
    unfolding listClosures_def MobileHolidaysHandler_def
    by (intro keeps_bindE keeps_get_clock keeps_if keeps_ret keeps_of_sum keeps_lift_err keeps_query)+
qed

lemma register_keeps:
  assumes "parseClosure req day = Inr c"
  shows "keeps_ok closures_ok (register_closure isPrint c b)"
proof (rule keeps_okI)
  fix w x w' assume P: "closures_ok (db w)" and run: "register_closure isPrint c b w = (Inr x, w')"
  obtain i z where x: "x = (i, z)" by fastforce
  from run x obtain bc now where r: "school_closures (db w') = school_closures (db w) @ [new_row c i bc now]"
      "i \<notin> c_id ` set (school_closures (db w))" "closure_checks (new_row c i bc now)"
      "\<forall>r \<in> set (school_closures (db w)). \<not> meets (cl_start c) (cl_end c) r"
    using register_ok by metis
  have "dated (new_row c i bc now)" using parse_ok [OF assms] by (auto simp: dated_def new_row_def split: option.split)
  with r show "closures_ok (db w')" by (intro added_ok [OF P r(1)]) (simp_all add: new_row_def)
qed

lemma cancel_keeps:
  assumes "good_clock now"
  shows "keeps_ok closures_ok (cancel_closure i (on_date now) b nt)"
proof (rule keeps_okI)
  fix w x w' assume P: "closures_ok (db w)" and run: "cancel_closure i (on_date now) b nt w = (Inr x, w')"
  obtain p z where x: "x = (p, z)" by fastforce
  show "closures_ok (db w')"
    by (rule cancel_ok [OF run [unfolded x] P]) (use assms in \<open>auto simp: good_clock_def\<close>)
qed

lemma createClosure_keeps: "keeps closures_ok (createClosure isPrint client b)"
  unfolding createClosure_def Let_def
  by (intro keeps_bindE keeps_of_sum keeps_get_clock keeps_of_sum_then keeps_NoteActivity keeps_if keeps_lift_err
      keeps_closure_reads keeps_ret keeps_in_tx register_keeps keeps_prod keeps_option keeps_closure_push)

lemma holidays_handler_keeps: "keeps closures_ok (AdminHolidaysHandler isPrint client meth mp b)"
  unfolding AdminHolidaysHandler_def
  by (cases meth) (auto intro!: keeps_bindE keeps_ret keeps_fail createClosure_keeps keeps_closure_reads)

lemma cancel_handler_keeps: "keeps_at good_clock closures_ok (AdminCancelHolidayHandler client meth b)"
  unfolding AdminCancelHolidayHandler_def preview_cancel_def perform_cancel_def Let_def
  by (intro keeps_at_bindE keeps_guard keeps_of_sum keeps_lift_err keeps_NoteActivity calming keeps_at_clock
      keeps_bindE keeps_if keeps_closure_reads keeps_ret keeps_in_tx cancel_keeps keeps_prod keeps_option keeps_closure_push)

lemma created_ok:
  assumes "createClosure isPrint client b w = (Inr r, w')" "\<not> cr_dry_run r"
  obtains req c i bc now where "b = Body req" "parseClosure req (on_date (clock w)) = Inr c" "cr_id r = Some i"
    "cr_start r = ymd (cl_start c)" "cr_end r = map_option ymd (cl_end c)"
    "school_closures (db w') = school_closures (db w) @ [new_row c i bc now]"
    "i \<notin> c_id ` set (school_closures (db w))" "closure_checks (new_row c i bc now)"
    "\<forall>x \<in> set (school_closures (db w)). \<not> meets (cl_start c) (cl_end c) x"
proof -
  from assms(1) obtain req c where q: "b = Body req" "parseClosure req (on_date (clock w)) = Inr c"
    and dry: "cl_dry_run c = cr_dry_run r"
    unfolding createClosure_def Let_def
    by (auto simp: bindE_ok simple_ok lift_err_ok decodeJSONBody_def closure_reply_def split: body.splits if_splits prod.splits)
  let ?n = "cl_notify c \<and> \<not> (case cl_end c of None \<Rightarrow> False | Some e \<Rightarrow> e < on_date (clock w))"
  have "\<exists>w1 i z w2 w3 k n. in_tx ClosureDB (register_closure isPrint c ?n) w1 = (Inr (i, z), w2) \<and>
      w1 = w\<lparr>noted := ([], [], dryRunDetail (cl_dry_run c) [u ''kind='' @ cl_kind c])\<rparr> \<and>
      w3 = w2\<lparr>noted := (u ''closure'', itoa i, u ''kind='' @ cl_kind c)\<rparr> \<and>
      (case z of None \<Rightarrow> ret () | Some (bid, _) \<Rightarrow> PushBroadcast client bid (cl_title c) (closure_body c)) w3 = (Inr () :: refusal + unit, w') \<and>
      r = closure_reply c (Some i) k n"
    using assms dry unfolding createClosure_def Let_def q(1)
    by (auto simp: bindE_ok simple_ok lift_err_ok decodeJSONBody_def q(2) split: prod.splits) blast
  then obtain w1 i z w2 w3 k n where t: "in_tx ClosureDB (register_closure isPrint c ?n) w1 = (Inr (i, z), w2)"
    and w1': "w1 = w\<lparr>noted := ([], [], dryRunDetail (cl_dry_run c) [u ''kind='' @ cl_kind c])\<rparr>"
    and w3': "w3 = w2\<lparr>noted := (u ''closure'', itoa i, u ''kind='' @ cl_kind c)\<rparr>"
    and p: "(case z of None \<Rightarrow> ret () | Some (bid, _) \<Rightarrow> PushBroadcast client bid (cl_title c) (closure_body c)) w3 = (Inr () :: refusal + unit, w')"
    and r: "r = closure_reply c (Some i) k n" by blast
  have w1: "db w1 = db w" and w3: "db w3 = db w2" using w1' w3' by simp_all
  obtain w0 v where reg: "register_closure isPrint c ?n w0 = (Inr (i, z), v)" "db w0 = db w1" "db w2 = db v"
    using t by (rule in_tx_ok)
  have "keeps (\<lambda>d. school_closures d = school_closures (db w3))
      ((case z of None \<Rightarrow> ret () | Some (bid, _) \<Rightarrow> PushBroadcast client bid (cl_title c) (closure_body c)) :: (refusal, unit) tx)"
    by (intro keeps_option keeps_ret keeps_prod keeps_PushBroadcast) simp
  from keepsD [OF this refl p] have w': "school_closures (db w') = school_closures (db w2)" using w3 by simp
  from reg w1 w' obtain bc now where "school_closures (db w') = school_closures (db w) @ [new_row c i bc now]"
    "i \<notin> c_id ` set (school_closures (db w))" "closure_checks (new_row c i bc now)"
    "\<forall>x \<in> set (school_closures (db w)). \<not> meets (cl_start c) (cl_end c) x"
    using register_ok by metis
  with q r show thesis by (intro that) (simp_all add: closure_reply_def)
qed

lemma performed_ok:
  assumes "perform_cancel client i day n nt w1 = (Inr r, w')" "closures_ok (db w1)" "valid_date day" "0 < year day"
  obtains c where "c \<in> set (school_closures (db w1))" "c_id c = i" "closures_ok (db w')"
    "closed_days (db w') = closed_days (db w1) - {x \<in> span (c_start c) (c_end c). day \<le> x}" "ca_id r = i"
proof -
  from assms(1) obtain p z w2 where
    t: "in_tx ClosureDB (cancel_closure i day n nt) w1 = (Inr (p, z), w2)" and r: "ca_id r = i"
    and p0: "(case z of None \<Rightarrow> ret () | Some (bid, _) \<Rightarrow>
         (case cancel_message p (nextSchoolWeekday day) nt of (title, body) \<Rightarrow> PushBroadcast client bid title body))
       (w2\<lparr>noted := (u ''closure'', itoa i, u ''kind='' @ pl_kind p @ u '' action='' @ pl_action p)\<rparr>) = (Inr () :: refusal + unit, w')"
    unfolding perform_cancel_def cancel_reply_def by (auto simp: bindE_ok simple_ok lift_err_ok)
  obtain title body where m: "cancel_message p (nextSchoolWeekday day) nt = (title, body)" by fastforce
  define w3 where "w3 = w2\<lparr>noted := (u ''closure'', itoa i, u ''kind='' @ pl_kind p @ u '' action='' @ pl_action p)\<rparr>"
  have w3: "db w3 = db w2" by (simp add: w3_def)
  have p: "(case z of None \<Rightarrow> ret () | Some (bid, _) \<Rightarrow> PushBroadcast client bid title body) w3 = (Inr () :: refusal + unit, w')"
    using p0 by (cases z) (auto simp: m w3_def)
  obtain w0 v where c: "cancel_closure i day n nt w0 = (Inr (p, z), v)" "db w0 = db w1" "db w2 = db v"
    using t by (rule in_tx_ok)
  have "keeps (\<lambda>d. school_closures d = school_closures (db w3))
      ((case z of None \<Rightarrow> ret () | Some (bid, _) \<Rightarrow> PushBroadcast client bid title body) :: (refusal, unit) tx)"
    by (intro keeps_option keeps_ret keeps_prod keeps_PushBroadcast) simp
  from keepsD [OF this refl p] have w': "school_closures (db w') = school_closures (db w2)" using w3 by simp
  have "closures_ok (db w0)" using c(2) assms(2) by simp
  from cancel_ok [OF c(1) this assms(3,4)] obtain x where "x \<in> set (school_closures (db w0))" "c_id x = i" "closures_ok (db v)"
    "closed_days (db v) = closed_days (db w0) - {y \<in> span (c_start x) (c_end x). day \<le> y}" .
  with c w' r show thesis using that [of x] closures_ok_cong [OF w'] by (simp add: closed_days_def)
qed

lemma cancelled_ok:
  assumes "AdminCancelHolidayHandler client meth b w = (Inr r, w')" "\<not> ca_dry_run r" "closures_ok (db w)" "good_clock (clock w)"
  obtains c where "c \<in> set (school_closures (db w))" "c_id c = ca_id r" "closures_ok (db w')"
    "closed_days (db w') = closed_days (db w) - {x \<in> span (c_start c) (c_end c). on_date (clock w) \<le> x}"
proof -
  have dry: "preview_cancel i day n w1 = (Inr r, w') \<Longrightarrow> ca_dry_run r" for i day n w1
    by (auto simp: preview_cancel_def bindE_ok simple_ok cancel_reply_def)
  from assms(1) obtain i n nt x where "perform_cancel client i (on_date (clock w)) n nt (w\<lparr>noted := x\<rparr>) = (Inr r, w')"
    unfolding AdminCancelHolidayHandler_def Let_def
    using dry assms(2) by (auto simp: bindE_ok simple_ok lift_err_ok split: if_splits)
  from performed_ok [OF this] assms(3,4) show thesis by (auto simp: good_clock_def intro: that)
qed


section \<open>The parents' calendar\<close>

lemma find_closed_day:
  assumes "valid_date t" "\<forall>day \<in> set ds. valid_date day"
  shows "find (\<lambda>c. cd_date c = ymd t) (List.map_filter (\<lambda>day. map_option
      (\<lambda>c. \<lparr>cd_date = ymd day, cd_kind = c_kind c, cd_title = c_title c, cd_notes = c_notes c\<rparr>) (g day)) ds) =
    (if t \<in> set ds then map_option (\<lambda>c. \<lparr>cd_date = ymd t, cd_kind = c_kind c, cd_title = c_title c, cd_notes = c_notes c\<rparr>) (g t)
     else None)"
  using assms(2)
proof (induction ds)
  case Nil
  then show ?case by (simp add: map_filter_simps)
next
  case (Cons day ds)
  then show ?case using ymd_inject [OF assms(1), of day]
    by (cases "g day") (auto simp: map_filter_simps)
qed

lemma month_dates_valid: "ym = (y, m) \<Longrightarrow> y \<le> 9999 \<Longrightarrow> 1 \<le> m \<Longrightarrow> m \<le> 12 \<Longrightarrow> day \<in> set (month_dates ym) \<longleftrightarrow>
    valid_date day \<and> year day = y \<and> mon day = m"
  by (cases day) (auto simp: month_dates_def valid_date_def)

inductive closure_step :: "(nat \<Rightarrow> bool) \<Rightarrow> multicast \<Rightarrow> world \<Rightarrow> world \<Rightarrow> bool" for isPrint client where
  register: "AdminHolidaysHandler isPrint client meth mp b w = (r, w') \<Longrightarrow> closure_step isPrint client w w'"
| cancel: "AdminCancelHolidayHandler client meth b w = (r, w') \<Longrightarrow> good_clock (clock w) \<Longrightarrow> closure_step isPrint client w w'"
| elsewhere: "school_closures (db w') = school_closures (db w) \<Longrightarrow> closure_step isPrint client w w'"

lemma closure_step_keeps: "closure_step isPrint client w w' \<Longrightarrow> closures_ok (db w) \<Longrightarrow> closures_ok (db w')"
proof (induction rule: closure_step.induct)
  case (register meth mp b w r w')
  then show ?case using keepsD [OF holidays_handler_keeps] by blast
next
  case (cancel meth b w r w')
  then show ?case using cancel_handler_keeps [of client meth b] unfolding keeps_at_def by (metis snd_conv)
next
  case (elsewhere w' w)
  then show ?case using closures_ok_cong by blast
qed

section \<open>Properties\<close>

text \<open>C3. Whatever the admins send, in whatever order, and whatever else the program does in between, the
  closures on record never overlap: no day lies in two of them, and every row stays within its \<open>CHECK\<close>
  constraints. The clock shows a date of the years 1 to 9999 when a closure is cancelled.\<close>

theorem closures_never_overlap:
  assumes "(closure_step isPrint client)\<^sup>*\<^sup>* w w'" "closures_ok (db w)"
    and "a \<in> set (school_closures (db w'))" "b \<in> set (school_closures (db w'))" "a \<noteq> b"
  shows "span (c_start a) (c_end a) \<inter> span (c_start b) (c_end b) = {} \<and> closure_checks a"
proof -
  have ok: "closures_ok (db w')"
    using assms(1,2) by (induction rule: rtranclp_induct) (auto intro: closure_step_keeps)
  have "c_id a \<noteq> c_id b" using ok assms(3-5) closure_ids.unique_row unfolding closures_ok_def by blast
  with ok assms(3,4) have "\<not> meets (c_start a) (c_end a) b" "closure_checks a" unfolding closures_ok_def by blast+
  then show ?thesis by (auto simp: meets_def span_def split: option.splits)
qed

text \<open>C13. The table refines a calendar, a set of closed days: registering a closure adds exactly the days it names,
  none of which was closed before.\<close>

theorem create_adds_days:
  assumes "AdminHolidaysHandler isPrint client POST mp b w = (Inr (Inl r), w')" "\<not> cr_dry_run r" "closures_ok (db w)"
  shows "\<exists>start end_on. valid_date start \<and> (case end_on of None \<Rightarrow> True | Some e \<Rightarrow> valid_date e) \<and>
    cr_start r = ymd start \<and> cr_end r = map_option ymd end_on \<and> closures_ok (db w') \<and>
    span start end_on \<inter> closed_days (db w) = {} \<and> closed_days (db w') = closed_days (db w) \<union> span start end_on"
proof -
  from assms(1) have "createClosure isPrint client b w = (Inr r, w')"
    by (auto simp: AdminHolidaysHandler_def ok_iffs)
  from created_ok [OF this assms(2)] obtain req c i bc now where c: "parseClosure req (on_date (clock w)) = Inr c"
    and r: "cr_start r = ymd (cl_start c)" "cr_end r = map_option ymd (cl_end c)"
    and s: "school_closures (db w') = school_closures (db w) @ [new_row c i bc now]"
    and n: "i \<notin> c_id ` set (school_closures (db w))" "closure_checks (new_row c i bc now)"
      "\<forall>x \<in> set (school_closures (db w)). \<not> meets (cl_start c) (cl_end c) x" by metis
  have "dated (new_row c i bc now)" using parse_ok [OF c] by (auto simp: dated_def new_row_def split: option.split)
  then have "closures_ok (db w')" using n by (intro added_ok [OF assms(3) s]) (simp_all add: new_row_def)
  moreover have "span (cl_start c) (cl_end c) \<inter> closed_days (db w) = {}"
  proof -
    have "meets (cl_start c) (cl_end c) q" if "x \<in> span (cl_start c) (cl_end c)" "x \<in> span (c_start q) (c_end q)" for x q
      using that by (auto simp: meets_def span_def split: option.splits)
    then show ?thesis using n(3) unfolding closed_days_span by blast
  qed
  moreover have "closed_days (db w') = closed_days (db w) \<union> span (cl_start c) (cl_end c)"
    by (auto simp: closed_days_span s new_row_def)
  moreover have "valid_date (cl_start c) \<and> (case cl_end c of None \<Rightarrow> True | Some e \<Rightarrow> valid_date e)"
    using parse_ok [OF c] by (auto split: option.split)
  ultimately show ?thesis using r by blast
qed

text \<open>C8. On that calendar, cancelling a closure reopens exactly its days from today onward: the days already
  passed stay closed, and no other closure is touched.\<close>

theorem cancel_reopens_days:
  assumes "AdminCancelHolidayHandler client meth b w = (Inr r, w')" "\<not> ca_dry_run r" "closures_ok (db w)" "good_clock (clock w)"
  shows "\<exists>c \<in> set (school_closures (db w)). c_id c = ca_id r \<and> closures_ok (db w') \<and>
    closed_days (db w') = closed_days (db w) - {x \<in> span (c_start c) (c_end c). on_date (clock w) \<le> x}"
  using cancelled_ok [OF assms] by metis

text \<open>The calendar the parents' app shows and the day type the rest of the program uses are the same: for every
  day of the month shown, the app lists a closure exactly when \<open>DayOn\<close> calls the day a holiday or pause, with
  the same kind, title and notes.\<close>

theorem parent_calendar_agrees:
  assumes "MobileHolidaysHandler mp w = (Inr (m, days), w')" "DayOn (ymd t) w = (Inr info, w'')" "valid_date t" "yyyy_mm t = m"
  shows "case find (\<lambda>c. cd_date c = ymd t) days of
      None \<Rightarrow> Type info = (if weekendDate t then DayWeekend else DaySchool)
    | Some c \<Rightarrow> \<not> weekendDate t \<and> Type info = cd_kind c \<and> Title info = Some (cd_title c) \<and> Notes info = cd_notes c"
proof -
  have m: "parse_month m = Some (year t, mon t)" using parse_month_yyyy_mm [OF assms(3)] assms(4) by simp
  then have days: "days = closed_days_query (year t, mon t) (db w)"
    using assms(1) by (auto simp: MobileHolidaysHandler_def bindE_ok simple_ok dest!: query_okD)
  have v: "\<forall>day \<in> set (filter (\<lambda>day. weekday day \<noteq> 5 \<and> weekday day \<noteq> 6) (month_dates (year t, mon t))). valid_date day"
    "t \<in> set (month_dates (year t, mon t))"
    using assms(3) month_dates_valid [OF refl, of "year t" "mon t"] by (auto simp: valid_date_def)
  have f: "find (\<lambda>c. cd_date c = ymd t) days = (if weekendDate t then None else
      map_option (\<lambda>c. \<lparr>cd_date = ymd t, cd_kind = c_kind c, cd_title = c_title c, cd_notes = c_notes c\<rparr>) (covering_closure (db w) t))"
    unfolding days closed_days_query_def find_closed_day [OF assms(3) v(1)] using v(2)
    by (simp add: weekendDate_def covering_closure_def DayPause_def ClosurePause_def)
  obtain x where x: "parse_date (ymd t) = Some x" and info: "weekendDate x \<and> Type info = DayWeekend \<or>
     \<not> weekendDate x \<and> (case covering_closure (db w) x of
        None \<Rightarrow> Type info = DaySchool
      | Some c \<Rightarrow> Type info = c_kind c \<and> Title info = Some (c_title c) \<and> Notes info = c_notes c)"
    using DayOn_ok [OF assms(2)] by metis
  have "x = t" using x assms(3) by simp
  with info show ?thesis by (cases "covering_closure (db w) t") (auto simp: f)
qed

section \<open>Examples\<close>

definition eid :: closureRequest where
  "eid = \<lparr>cq_kind = Some (JStr ClosureHoliday), cq_start = Some (JStr (u ''2026-05-25'')), cq_end = Some (JStr (u ''2026-05-28'')),
     cq_title = Some (JStr (u ''Eid'')), cq_notes = None, cq_notify = Some (JBool False), cq_confirm = None, cq_dry_run = None\<rparr>"

definition eid_closure :: closure where
  "eid_closure = \<lparr>cl_kind = ClosureHoliday, cl_start = Date 2026 5 25, cl_end = Some (Date 2026 5 28), cl_title = u ''Eid'',
     cl_notes = None, cl_notify = False, cl_confirm = False, cl_dry_run = False\<rparr>"

definition spring :: stamp where "spring = At (Date 2026 5 20) 0"

definition spring_world :: world where "spring_world = quiet empty_db spring"

lemma spring_simps: "faults spring_world = []" "school_closures (db spring_world) = []" "serial spring_world tb = 1"
    "clock spring_world = spring" "to_micro spring = spring" "db spring_world = empty_db"
  by (simp_all add: spring_world_def empty_db_def spring_def to_micro_def)

lemma eid_dates: "parse_date (u ''2026-05-25'') = Some (Date 2026 5 25)" "parse_date (u ''2026-05-28'') = Some (Date 2026 5 28)"
  by (simp_all add: parse_date_Some valid_date_def days_in_def ymd_def u_def pad4_def pad2_def)

lemma eid_parsed: "parseClosure eid (on_date spring) = Inr eid_closure"
proof -
  have t: "broadcastText ''title'' (Some (JStr (u ''Eid''))) MaxClosureTitleChars = Inr (u ''Eid'')"
    by (simp add: broadcastText_def u_def TrimSpace_def trim_by_def is_space_def tooLong_def TrimRightBlank_def MaxClosureTitleChars_def)
  have d: "MaxHolidayDays \<le> day_number (Date 2026 5 28) - day_number (Date 2026 5 25) \<longleftrightarrow> False"
    by (simp add: MaxHolidayDays_def day_number_def days_before_month_def)
  have o: "Date 2026 5 28 < Date 2026 5 25 \<longleftrightarrow> False" by (simp add: date_less_iff)
  show ?thesis
    by (simp add: parseClosure_def eid_def closure_kind_def start_date_def jsonDate_def eid_dates absent_def t yearInRange_def
        MinYear_def MaxYear_def optionalText_def jsonBool_def settle_closure_def d o Let_def eid_closure_def)
qed

definition eid_row :: closure_row where "eid_row = new_row eid_closure 1 None spring"

definition eid_world :: world where
  "eid_world = spring_world\<lparr>serial := (serial spring_world)(School_Closures := 2), db := empty_db\<lparr>school_closures := [eid_row]\<rparr>,
     noted := (u ''closure'', itoa 1, u ''kind='' @ ClosureHoliday)\<rparr>"

lemma eid_checks: "closure_checks eid_row" "dated eid_row"
proof -
  have d: "day_number (Date 2026 5 28) < day_number (Date 2026 5 25) + 60"
    by (simp add: day_number_def days_before_month_def)
  then show "closure_checks eid_row"
    by (simp add: closure_checks_def eid_row_def new_row_def eid_closure_def ClosureHoliday_def between_def u_def
        less_eq_date_def date_key_def)
  show "dated eid_row" by (simp add: dated_def eid_row_def new_row_def eid_closure_def valid_date_def days_in_def)
qed

lemma eid_registered:
  "AdminHolidaysHandler isPrint None POST mp (Body eid) spring_world =
     (Inr (Inl (closure_reply eid_closure (Some 1) False 0)), eid_world)"
proof -
  have p: "plain_texts ([cl_kind eid_closure, cl_title eid_closure] @ opt_list (cl_notes eid_closure))"
    by (simp add: plain_texts_def eid_closure_def ClosureHoliday_def opt_list_def u_def)
  have i: "insert_closure eid_closure spring 1 empty_db = Inr (1, empty_db\<lparr>school_closures := [eid_row]\<rparr>)"
    using eid_checks by (simp add: insert_closure_def Let_def eid_row_def new_row_def spring_simps empty_db_def)
  have empty_closures: "school_closures empty_db = []" by (simp add: empty_db_def)
  have r: "register_closure isPrint eid_closure False (spring_world\<lparr>noted := nt\<rparr>) = (Inr (1, None), eid_world\<lparr>noted := nt\<rparr>)" for nt
    by (simp add: register_closure_def lockClosures_def overlap_def bindE_def run_simps lift_err_run spring_simps
        with_plain_texts [OF p [simplified]] i eid_world_def empty_closures)
  have w: "faults eid_world = []" by (simp add: eid_world_def spring_simps)
  have f: "cl_notify eid_closure = False" "cl_dry_run eid_closure = False" "cl_kind eid_closure = ClosureHoliday"
    by (simp_all add: eid_closure_def)
  show ?thesis
    by (simp add: AdminHolidaysHandler_def createClosure_def bindE_def run_simps lift_err_run spring_simps eid_parsed f Let_def
        in_tx_run_nil r w) (simp add: eid_world_def)
qed

lemma eid_ok: "closures_ok (db eid_world)" "closures_ok empty_db"
  using eid_checks by (simp_all add: closures_ok_def eid_world_def unique_key_def empty_db_def)

definition cancel_eid :: closureCancelRequest where
  "cancel_eid = \<lparr>cc_id = Some (JInt 1), cc_notify = Some (JBool False), cc_notes = None, cc_dry_run = None\<rparr>"

definition mid_eid :: world where "mid_eid = eid_world\<lparr>clock := At (Date 2026 5 27) 0\<rparr>"

lemma mid_eid_simps: "faults mid_eid = []" "db mid_eid = empty_db\<lparr>school_closures := [eid_row]\<rparr>" "clock mid_eid = At (Date 2026 5 27) 0"
  by (simp_all add: mid_eid_def eid_world_def spring_simps)

lemma eid_row_simps: "c_id eid_row = 1" "c_start eid_row = Date 2026 5 25" "c_end eid_row = Some (Date 2026 5 28)"
  by (simp_all add: eid_row_def new_row_def eid_closure_def)

lemma eid_cancelled:
  "\<exists>r w'. AdminCancelHolidayHandler None POST (Body cancel_eid) mid_eid = (Inr r, w') \<and> ca_id r = 1 \<and> \<not> ca_dry_run r"
proof -
  have v: "valid_date (Date 2026 5 25)" "valid_date (Date 2026 5 27)" "valid_date (Date 2026 5 28)"
    by (simp_all add: valid_date_def days_in_def)
  have p: "plan_for eid_row (Date 2026 5 27) = Inr \<lparr>pl_kind = c_kind eid_row, pl_action = u ''shortened'',
      pl_newEnd = Some (Date 2026 5 26), pl_started = True, pl_title = c_title eid_row\<rparr>"
    by (simp add: plan_for_def eid_row_simps ymd_less v ymd_inject date_less_iff Let_def)
  have "day_number (Date 2026 5 26) < day_number (Date 2026 5 25) + 60"
    by (simp add: day_number_def days_before_month_def)
  then have e: "closure_checks (eid_row\<lparr>c_end := Some (Date 2026 5 26)\<rparr>)"
    by (simp add: closure_checks_def eid_row_def new_row_def eid_closure_def ClosureHoliday_def between_def u_def
        less_eq_date_def date_key_def)
  show ?thesis
    by (simp add: AdminCancelHolidayHandler_def perform_cancel_def cancel_closure_def lockClosures_def planCancel_def
        bindE_def run_simps lift_err_run in_tx_run_nil mid_eid_simps cancel_eid_def closure_id_def absent_def jsonBool_def
        optionalText_def Let_def p eid_row_simps end_closure_def e find_row_def cancel_reply_def)
qed

theorem closures_never_overlap_witness:
  "span (Date 2026 5 25) (Some (Date 2026 5 28)) \<inter> span (Date 2026 6 1) None = {}"
proof -
  let ?r = "eid_row\<lparr>c_id := 2, c_kind := ClosurePause, c_start := Date 2026 6 1, c_end := None\<rparr>"
  have c: "closure_checks ?r" "dated ?r"
    by (simp_all add: closure_checks_def dated_def eid_row_def new_row_def eid_closure_def ClosurePause_def between_def u_def
        valid_date_def days_in_def)
  let ?w = "eid_world\<lparr>db := empty_db\<lparr>school_closures := [eid_row, ?r]\<rparr>\<rparr>"
  have ok: "closures_ok (db ?w)"
    using eid_checks c
    by (simp add: closures_ok_def unique_key_def eid_row_simps meets_def less_eq_date_def date_key_def)
  have "closure_step (\<lambda>_. True) None ?w ?w" "eid_row \<noteq> ?r"
    by (auto intro: closure_step.elsewhere simp: eid_row_def new_row_def eid_closure_def)
  with closures_never_overlap [of "\<lambda>_. True" None ?w ?w eid_row ?r] ok show ?thesis
    by (simp add: eid_row_simps)
qed

theorem create_adds_days_witness: "closed_days (db eid_world) = span (Date 2026 5 25) (Some (Date 2026 5 28))"
proof -
  have v: "valid_date (Date 2026 5 25)" "valid_date (Date 2026 5 28)" by (simp_all add: valid_date_def days_in_def)
  obtain start end_on where d: "valid_date start" "case end_on of None \<Rightarrow> True | Some e \<Rightarrow> valid_date e"
      "ymd (Date 2026 5 25) = ymd start" "Some (ymd (Date 2026 5 28)) = map_option ymd end_on"
    and c: "closed_days (db eid_world) = closed_days empty_db \<union> span start end_on"
    using create_adds_days [OF eid_registered [of "\<lambda>_. True" "[]"]] eid_ok
    by (auto simp: closure_reply_def eid_closure_def spring_simps)
  have "start = Date 2026 5 25" using d(1,3) v ymd_inject by metis
  moreover have "end_on = Some (Date 2026 5 28)" using d(2,4) v ymd_inject by (cases end_on) auto
  moreover have "closed_days empty_db = {}" by (simp add: closed_days_def empty_db_def)
  ultimately show ?thesis using c by simp
qed

theorem cancel_reopens_days_witness:
  "\<exists>r w'. AdminCancelHolidayHandler None POST (Body cancel_eid) mid_eid = (Inr r, w') \<and>
     closed_days (db w') = span (Date 2026 5 25) (Some (Date 2026 5 28)) -
       {x \<in> span (Date 2026 5 25) (Some (Date 2026 5 28)). Date 2026 5 27 \<le> x}"
proof -
  obtain r w' where run: "AdminCancelHolidayHandler None POST (Body cancel_eid) mid_eid = (Inr r, w')" "ca_id r = 1" "\<not> ca_dry_run r"
    using eid_cancelled by blast
  have "good_clock (clock mid_eid)" by (simp add: good_clock_def mid_eid_simps valid_date_def days_in_def)
  moreover have "closures_ok (db mid_eid)" using eid_ok by (simp add: mid_eid_def)
  moreover have "closed_days (db mid_eid) = span (Date 2026 5 25) (Some (Date 2026 5 28))"
    by (simp add: closed_days_span mid_eid_simps eid_row_simps)
  ultimately show ?thesis
    using cancel_reopens_days [OF run(1,3)] run by (auto simp: mid_eid_simps eid_row_simps)
qed

theorem parent_calendar_agrees_witness:
  "\<exists>days w'. MobileHolidaysHandler (u ''2026-05'') eid_world = (Inr (u ''2026-05'', days), w') \<and>
     (\<exists>c. find (\<lambda>c. cd_date c = ymd (Date 2026 5 25)) days = Some c \<and> cd_kind c = ClosureHoliday)"
proof -
  let ?t = "Date 2026 5 25"
  have v: "valid_date ?t" by (simp add: valid_date_def days_in_def)
  have m: "yyyy_mm ?t = u ''2026-05''" by (simp add: yyyy_mm_def u_def pad4_def pad2_def)
  have pm: "parse_month (u ''2026-05'') = Some (2026, 5)" using parse_month_yyyy_mm [OF v] by (simp add: m)
  have wd: "weekday ?t = 1" by (simp add: date_eval)
  have f: "faults eid_world = []" "school_closures (db eid_world) = [eid_row]" by (simp_all add: eid_world_def spring_simps)
  have c: "covers ?t eid_row" by (simp add: covers_def eid_row_simps less_eq_date_def date_key_def)
  have run: "MobileHolidaysHandler (u ''2026-05'') eid_world =
      (Inr (u ''2026-05'', closed_days_query (2026, 5) (db eid_world)), eid_world)"
    by (simp add: MobileHolidaysHandler_def requestedMonth_def pm yearInRange_def MinYear_def MaxYear_def bindE_def run_simps
        lift_err_run f)
  have day: "DayOn (ymd ?t) eid_world = (Inr (closure_day (Some eid_row)), eid_world)"
    by (simp add: DayOn_def v wd bindE_def run_simps covering_closure_def f c)
  have "Type (closure_day (Some eid_row)) = ClosureHoliday" "ClosureHoliday \<noteq> DaySchool" "\<not> weekendDate ?t"
    by (simp_all add: closure_day_def eid_row_def new_row_def eid_closure_def ClosureHoliday_def DaySchool_def weekendDate_def wd)
  with parent_calendar_agrees [OF run day v m] run show ?thesis by (auto split: option.splits)
qed

end
