(* ===== verification/ManualAttendance.thy ===== *)
theory ManualAttendance
  imports Hardware Closures
begin

text \<open>
  Manual attendance, \<open>internal/handlers/manual_attendance.go\<close>: the admin enters a check-in or check-out for
  today or yesterday, previews one, or undoes one; and the absence job of \<open>internal/cron/absent_job.go\<close>, which
  reads the same status.
\<close>

section \<open>Requests\<close>

definition SourceManual :: str where "SourceManual = u ''manual''"

definition MaxManualNoteChars :: nat where "MaxManualNoteChars = 200"

definition ManualTypeIn :: str where "ManualTypeIn = u ''in''"

definition ManualTypeOut :: str where "ManualTypeOut = u ''out''"

definition ManualCheckInTime :: str where "ManualCheckInTime = u ''08:00''"

definition ManualCheckOutTime :: str where "ManualCheckOutTime = u ''13:00''"

definition hour_chars :: "nat \<Rightarrow> nat \<Rightarrow> bool" where
  "hour_chars a b \<longleftrightarrow> (a = 48 \<or> a = 49) \<and> is_digit b \<or> a = 50 \<and> 48 \<le> b \<and> b \<le> 51"

definition sixty_chars :: "nat \<Rightarrow> nat \<Rightarrow> bool" where
  "sixty_chars a b \<longleftrightarrow> 48 \<le> a \<and> a \<le> 53 \<and> is_digit b"

fun manualTimeRE :: "str \<Rightarrow> bool" where
  "manualTimeRE [a, b, x, c, d] \<longleftrightarrow> hour_chars a b \<and> x = 58 \<and> sixty_chars c d"
| "manualTimeRE [a, b, x, c, d, y, e, f] \<longleftrightarrow> hour_chars a b \<and> x = 58 \<and> sixty_chars c d \<and> y = 58 \<and> sixty_chars e f"
| "manualTimeRE _ \<longleftrightarrow> False"

fun clock_of_text :: "str \<Rightarrow> nat" where
  \<comment> \<open>\<open>time.Parse("15:04:05", clock)\<close> on a text that matches, as the time since midnight\<close>
  "clock_of_text (a # b # _ # c # d # _ # e # f # _) = hm (is2 a b) (is2 c d) + is2 e f * sec"
| "clock_of_text _ = 0"

record manualAttendanceRequest =
  mq_student :: "json option"
  mq_date :: "json option"
  mq_type :: "json option"
  mq_time :: "json option"
  mq_notify :: "json option"
  mq_note :: "json option"
  mq_dry_run :: "json option"

record manualEntry =
  me_student :: int
  me_date :: date
  me_type :: str
  me_clock :: nat
  me_notify :: bool
  me_note :: "str option"
  me_dry_run :: bool

definition checkTime :: "manualEntry \<Rightarrow> stamp" where
  "checkTime e = At (me_date e) (me_clock e)"

definition bool_text :: "bool \<Rightarrow> str" where
  "bool_text b = (if b then u ''true'' else u ''false'')"

definition entry_detail :: "manualEntry \<Rightarrow> str" where
  "entry_detail e = dryRunDetail (me_dry_run e)
     [u ''type='' @ me_type e, u ''date='' @ ymd (me_date e), u ''notify='' @ bool_text (me_notify e)]"

definition clockText :: "nat \<Rightarrow> str" where
  "clockText d = hh_mm_ss d"

definition manualWindow :: "str \<Rightarrow> nat \<times> nat \<times> (date \<Rightarrow> stamp \<Rightarrow> bool) \<times> str" where
  "manualWindow typ =
     (if typ = ManualTypeOut then (CheckOutWindowStart, CheckOutWindowEnd, in_check_out_window, u ''check-out'')
      else (CheckInWindowStart, CheckInWindowEnd, in_check_in_window, u ''check-in''))"

definition manualDates :: "stamp \<Rightarrow> date \<times> date" where
  "manualDates now = (on_date now, prev_day (on_date now))"

definition manual_student :: "json option \<Rightarrow> str + int" where
  "manual_student raw =
     (if absent raw then Inl (u ''student_id is required'')
      else case raw of
        Some (JInt i) \<Rightarrow> if i < 1 \<or> 2 ^ 63 \<le> i then Inl (u ''student_id must be a positive student id'') else Inr i
      | _ \<Rightarrow> Inl (u ''student_id must be a positive student id''))"

definition manual_date :: "json option \<Rightarrow> stamp \<Rightarrow> str + date" where
  "manual_date raw now =
     (case manualDates now of (td, yesterday) \<Rightarrow>
        andThen (jsonDate ''date'' raw) (\<lambda>z.
        let day = (case z of None \<Rightarrow> td | Some t \<Rightarrow> t) in
        if day \<noteq> td \<and> day \<noteq> yesterday
        then Inl (u ''date must be today ('' @ ymd td @ u '') or yesterday ('' @ ymd yesterday @ u '')'')
        else Inr day))"

definition manual_type :: "json option \<Rightarrow> str + str" where
  "manual_type raw =
     (if absent raw then Inl (u ''type is required'')
      else case raw of
        Some (JStr t) \<Rightarrow> if t = ManualTypeIn \<or> t = ManualTypeOut then Inr t else Inl (u ''type must be in or out'')
      | _ \<Rightarrow> Inl (u ''type must be in or out''))"

definition manual_clock :: "json option \<Rightarrow> str \<Rightarrow> str + nat" where
  "manual_clock raw typ =
     andThen
       (if absent raw then Inr (if typ = ManualTypeOut then ManualCheckOutTime else ManualCheckInTime)
        else case raw of
          Some (JStr s) \<Rightarrow> if manualTimeRE s then Inr s else Inl (u ''time must be formatted as HH:MM or HH:MM:SS'')
        | _ \<Rightarrow> Inl (u ''time must be formatted as HH:MM or HH:MM:SS'')) (\<lambda>text.
     let c = clock_of_text (if length text = 5 then text @ u '':00'' else text) in
     case manualWindow typ of (start, end_at, _, name) \<Rightarrow>
       if c < start \<or> end_at \<le> c
       then Inl (u ''time must be in the '' @ name @ u '' window '' @ clockText start @ u '' to '' @ clockText (end_at - sec))
       else Inr c)"

definition parseManualEntry :: "manualAttendanceRequest \<Rightarrow> stamp \<Rightarrow> str + manualEntry" where
  "parseManualEntry req now =
     andThen (manual_student (mq_student req)) (\<lambda>studentID.
     andThen (manual_date (mq_date req) now) (\<lambda>day.
     andThen (manual_type (mq_type req)) (\<lambda>typ.
     andThen (manual_clock (mq_time req) typ) (\<lambda>c.
     andThen (jsonBool ''notify'' (mq_notify req) True) (\<lambda>notify.
     andThen (optionalText ''note'' (mq_note req) MaxManualNoteChars) (\<lambda>nt.
     andThen (jsonBool ''dry_run'' (mq_dry_run req) False) (\<lambda>dryRun.
     if day = fst (manualDates now) \<and> now < At day c
     then Inl (u ''time must not be later than now ('' @ hh_mm_ss (clock_of now) @ u '') for today'')
     else Inr \<lparr>me_student = studentID, me_date = day, me_type = typ, me_clock = c, me_notify = notify, me_note = nt,
       me_dry_run = dryRun\<rparr>)))))))"

section \<open>Creating a punch\<close>

datatype manual_err = Problem409 refusal | ManualDB err | Misclassified

definition manual_refusal :: "string \<Rightarrow> manual_err \<Rightarrow> refusal" where
  "manual_refusal m e = (case e of Problem409 r \<Rightarrow> r | ManualDB f \<Rightarrow> internal_error m f | Misclassified \<Rightarrow> internal_error m Driver)"

definition same_kind :: "manualEntry \<Rightarrow> db \<Rightarrow> punch option" where
  "same_kind e d =
     (case manualWindow (me_type e) of (_, _, inside, _) \<Rightarrow>
        first_by l_time (filter (\<lambda>l. l_student l = me_student e \<and> inside (me_date e) (l_time l)) (attendance_logs d)))"

definition sameKindPunch :: "manualEntry \<Rightarrow> (err, str) tx" where
  "sameKindPunch e =
     bindE (query (same_kind e)) (\<lambda>found.
     ret (case found of
            None \<Rightarrow> []
          | Some l \<Rightarrow> u ''Student already has a '' @ snd (snd (snd (manualWindow (me_type e)))) @ u '' at '' @
              time12 (l_time l) @ u '' on '' @ ymd (me_date e) @ u '' ('' @ l_source l @ u '')''))"

definition manual_check :: "manualEntry \<Rightarrow> (manual_err, student) tx" where
  \<comment> \<open>the closure \<open>check\<close>\<close>
  "manual_check e =
     bindE (lift_err ManualDB (with_int4 [me_student e]
       (query (\<lambda>d. find_row (\<lambda>s. s_id s = me_student e \<and> s_active s) (students d))))) (\<lambda>found.
     bindE (of_option (Problem409 (Refuse 404 (u ''Student not found''))) found) (\<lambda>st.
     bindE (guard (existed_on st (me_date e))
       (Problem409 (Refuse 400 (u ''The student was not registered yet on '' @ ymd (me_date e))))) (\<lambda>_.
     bindE (lift_err ManualDB (sameKindPunch e)) (\<lambda>problem.
     bindE (guard (problem = []) (Problem409 (Refuse 409 problem))) (\<lambda>_.
     ret st)))))"

definition insert_manual :: "manualEntry \<Rightarrow> stamp \<Rightarrow> int \<Rightarrow> db \<Rightarrow> err + int \<times> db" where
  "insert_manual e now i d =
     (let row = \<lparr>l_id = i, l_student = me_student e, l_device = None, l_time = checkTime e, l_sync = Some (to_micro now),
                 l_source = SourceManual, l_note = me_note e\<rparr> in
      if i \<in> l_id ` set (attendance_logs d) then Inl (unique_violation ''attendance_logs_pkey'')
      else case insert_unique (\<lambda>l. (l_student l, l_time l)) row (attendance_logs d) of
        None \<Rightarrow> Inl (unique_violation ''unique_student_punch'')
      | Some logs \<Rightarrow> Inr (i, d\<lparr>attendance_logs := logs\<rparr>))"

definition manual_insert_err :: "manualEntry \<Rightarrow> err \<Rightarrow> manual_err" where
  "manual_insert_err e f =
     (case f of
        Pg code _ \<Rightarrow>
          if code = u ''23505''
          then Problem409 (Refuse 409 (u ''Student already has a punch at '' @ clockText (me_clock e) @ u '' on '' @ ymd (me_date e)))
          else ManualDB f
      | Driver \<Rightarrow> ManualDB f)"

type_synonym manual_push = "str list \<times> str \<times> str"

definition manualNotification :: "manualEntry \<Rightarrow> (manual_err, manual_push option) tx" where
  "manualNotification e =
     bindE (lift_err ManualDB (query (notifyPunchesSQL [(me_student e, checkTime e)]))) (\<lambda>rows.
     case rows of
       [] \<Rightarrow> ret None
     | _ \<Rightarrow>
         let n = last rows in
         (case nt_parent n of
            None \<Rightarrow> ret None
          | Some pid \<Rightarrow>
              if nt_out n \<noteq> (me_type e = ManualTypeOut) then fail Misclassified
              else case PunchNotificationText (nt_name n) (nt_time n) (nt_out n) of (title, body) \<Rightarrow>
                bindE (lift_err ManualDB (SaveNotificationTx pid title body)) (\<lambda>_.
                ret (Some (DeviceTokens (nt_tokens n), title, body)))))"

definition record_manual :: "manualEntry \<Rightarrow> (manual_err, int \<times> student \<times> manual_push option) tx" where
  \<comment> \<open>the transaction of \<open>createManualAttendance\<close>\<close>
  "record_manual e =
     bindE (manual_check e) (\<lambda>st.
     bindE get_clock (\<lambda>now.
     bindE (lift_err (manual_insert_err e) (insert_id Attendance_Logs (insert_manual e now))) (\<lambda>i.
     bindE (if me_notify e then manualNotification e else ret None) (\<lambda>out.
     ret (i, st, out)))))"

record ManualAttendanceItem =
  mi_id :: "int option"
  mi_student :: int
  mi_name :: str
  mi_grade :: "str option"
  mi_section :: "str option"
  mi_date :: str
  mi_type :: str
  mi_time :: str
  mi_source :: str
  mi_note :: "str option"
  mi_notified :: bool
  mi_dry_run :: bool

definition manual_item :: "manualEntry \<Rightarrow> student \<Rightarrow> int option \<Rightarrow> bool \<Rightarrow> ManualAttendanceItem" where
  "manual_item e st i notified =
     \<lparr>mi_id = i, mi_student = me_student e, mi_name = s_name st, mi_grade = s_grade st, mi_section = s_section st,
      mi_date = ymd (me_date e), mi_type = me_type e, mi_time = clockText (me_clock e), mi_source = SourceManual,
      mi_note = me_note e, mi_notified = notified, mi_dry_run = me_dry_run e\<rparr>"

definition open_school_day :: "date \<Rightarrow> (refusal, unit) tx" where
  "open_school_day day =
     bindE (lift_err (internal_error ''Failed to record attendance'') (DayOn (ymd day))) (\<lambda>info.
     guard (School info) (Refuse 400 (ymd day @ u '' is not a school day ('' @ Type info @ u '')'')))"

definition preview_manual :: "manualEntry \<Rightarrow> (refusal, ManualAttendanceItem) tx" where
  \<comment> \<open>the answer to a dry run\<close>
  "preview_manual e =
     bindE (lift_err (manual_refusal ''Failed to record attendance'') (manual_check e)) (\<lambda>st.
     ret (manual_item e st None (me_notify e \<and> s_parent st \<noteq> None)))"

definition perform_manual :: "fcm_client \<Rightarrow> manualEntry \<Rightarrow> (refusal, ManualAttendanceItem) tx" where
  "perform_manual client e =
     bindE (lift_err (manual_refusal ''Failed to record attendance'') (in_tx ManualDB (record_manual e))) (\<lambda>(i, st, out).
     bindE (case out of None \<Rightarrow> ret () | Some (tokens, title, body) \<Rightarrow> SendToDevices client tokens title body) (\<lambda>_.
     ret (manual_item e st (Some i) (out \<noteq> None))))"

definition createManualAttendance ::
    "fcm_client \<Rightarrow> manualAttendanceRequest body \<Rightarrow> (refusal, ManualAttendanceItem) tx" where
  "createManualAttendance client b =
     bindE (of_sum (decodeJSONBody b (u ''Invalid request body''))) (\<lambda>req.
     bindE get_clock (\<lambda>now.
     case parseManualEntry req now of
       Inl msg \<Rightarrow>
         bindE (case manual_student (mq_student req) of Inr i \<Rightarrow> NoteActivity (u ''student'') (itoa i) [] | Inl _ \<Rightarrow> ret ()) (\<lambda>_.
         fail (Refuse 400 msg))
     | Inr e \<Rightarrow>
         bindE (NoteActivity (u ''student'') (itoa (me_student e)) (entry_detail e)) (\<lambda>_.
         bindE (open_school_day (me_date e)) (\<lambda>_.
         if me_dry_run e then preview_manual e else perform_manual client e))))"

section \<open>Undoing a punch\<close>

record ManualAttendanceDeleteItem =
  md_id :: int
  md_student :: int
  md_name :: str
  md_grade :: "str option"
  md_section :: "str option"
  md_date :: str
  md_type :: str
  md_time :: str

definition delete_item :: "punch \<Rightarrow> student \<Rightarrow> ManualAttendanceDeleteItem" where
  "delete_item l s =
     \<lparr>md_id = l_id l, md_student = l_student l, md_name = s_name s, md_grade = s_grade s, md_section = s_section s,
      md_date = ymd (on_date (l_time l)),
      md_type = (if in_check_in_window (on_date (l_time l)) (l_time l) then ManualTypeIn else ManualTypeOut),
      md_time = hh_mm_ss (clock_of (l_time l))\<rparr>"

definition find_entry :: "int \<Rightarrow> db \<Rightarrow> (punch \<times> student) option" where
  "find_entry i d =
     Option.bind (find_row (\<lambda>l. l_id l = i) (attendance_logs d)) (\<lambda>l.
     map_option (Pair l) (find_row (\<lambda>s. s_id s = l_student l) (students d)))"

definition delete_manual :: "int \<Rightarrow> stamp \<Rightarrow> (manual_err, ManualAttendanceDeleteItem) tx" where
  \<comment> \<open>the transaction of \<open>deleteManualAttendance\<close>\<close>
  "delete_manual i now =
     (case manualDates now of (td, yesterday) \<Rightarrow>
     bindE (lift_err ManualDB (query (find_entry i))) (\<lambda>found.
     bindE (of_option (Problem409 (Refuse 404 (u ''Attendance entry not found''))) found) (\<lambda>(l, s).
     let item = delete_item l s in
     bindE (NoteActivity (u ''student'') (itoa (md_student item))
       (u ''id='' @ itoa i @ u '' type='' @ md_type item @ u '' date='' @ md_date item)) (\<lambda>_.
     bindE (guard (l_source l = SourceManual)
       (Problem409 (Refuse 409 (u ''Only manual entries can be deleted; this punch came from a device'')))) (\<lambda>_.
     bindE (guard (md_date item = ymd td \<or> md_date item = ymd yesterday)
       (Problem409 (Refuse 409 (u ''Only manual entries from today ('' @ ymd td @ u '') or yesterday ('' @ ymd yesterday @
         u '') can be deleted'')))) (\<lambda>_.
     bindE (lift_err ManualDB (exec (\<lambda>d. d\<lparr>attendance_logs := del_where (\<lambda>l. l_id l = i) (attendance_logs d)\<rparr>))) (\<lambda>_.
     ret item)))))))"

definition deleteManualAttendance :: "str \<Rightarrow> (refusal, ManualAttendanceDeleteItem) tx" where
  "deleteManualAttendance idParam =
     bindE (of_option (bad_request ''id must be a positive attendance entry id'') (Atoi idParam)) (\<lambda>i.
     bindE (guard (1 \<le> i) (bad_request ''id must be a positive attendance entry id'')) (\<lambda>_.
     bindE (NoteActivity [] [] (u ''id='' @ itoa i)) (\<lambda>_.
     bindE get_clock (\<lambda>now.
     lift_err (manual_refusal ''Failed to delete attendance entry'') (in_tx ManualDB (delete_manual i now))))))"

definition AdminManualAttendanceHandler ::
    "fcm_client \<Rightarrow> meth \<Rightarrow> str \<Rightarrow> manualAttendanceRequest body \<Rightarrow>
     (refusal, ManualAttendanceItem + ManualAttendanceDeleteItem) tx" where
  "AdminManualAttendanceHandler client meth idParam b =
     (case meth of
        POST \<Rightarrow> bindE (createManualAttendance client b) (\<lambda>r. ret (Inl r))
      | DELETE \<Rightarrow> bindE (deleteManualAttendance idParam) (\<lambda>r. ret (Inr r))
      | _ \<Rightarrow> fail method_not_allowed)"

section \<open>The absence job\<close>

record absence =
  ab_parent :: "int option"
  ab_name :: str
  ab_tokens :: "str option"

definition absence_query :: "date \<Rightarrow> db \<Rightarrow> absence list" where
  \<comment> \<open>\<open>students LEFT JOIN parents CROSS JOIN LATERAL get_student_status\<close>\<close>
  "absence_query day d =
     map (\<lambda>s. \<lparr>ab_parent = (case s_parent s of None \<Rightarrow> None
                 | Some p \<Rightarrow> if list_ex (\<lambda>r. p_id r = p) (parents d) then Some p else None),
               ab_name = s_name s, ab_tokens = parent_device_tokens d (s_parent s)\<rparr>)
       (filter (\<lambda>s. s_active s \<and> status_on d (s_id s) day = Absent) (students d))"

definition absence_title :: str where
  "absence_title = [1573, 1588, 1593, 1575, 1585, 32, 1594, 1610, 1575, 1576]"

definition absence_body :: "str \<Rightarrow> str" where
  "absence_body name = [1575, 1604, 1591, 1575, 1604, 1576, 32] @ name @
     [32, 1594, 1575, 1574, 1576, 32, 1575, 1604, 1610, 1608, 1605]"

fun process_absences :: "fcm_client \<Rightarrow> absence list \<Rightarrow> ('e, unit) tx" where
  "process_absences client [] = ret ()"
| "process_absences client (a # as) =
     bindE (case ab_parent a of None \<Rightarrow> ret () | Some p \<Rightarrow> SaveNotificationHistory p absence_title (absence_body (ab_name a))) (\<lambda>_.
     bindE (SendToDevices client (DeviceTokens (ab_tokens a)) absence_title (absence_body (ab_name a))) (\<lambda>_.
     process_absences client as))"

definition ProcessDailyAbsences :: "fcm_client \<Rightarrow> ('e, unit) tx" where
  "ProcessDailyAbsences client =
     quietly (bindE get_clock (\<lambda>now.
     bindE (DayOn (today now)) (\<lambda>info.
     if \<not> School info then ret ()
     else bindE (query (absence_query (on_date now))) (process_absences client))))"

section \<open>What validation lets through\<close>

lemma manual_window_simps:
  "manualWindow ManualTypeOut = (CheckOutWindowStart, CheckOutWindowEnd, in_check_out_window, u ''check-out'')"
  "manualWindow ManualTypeIn = (CheckInWindowStart, CheckInWindowEnd, in_check_in_window, u ''check-in'')"
  by (simp_all add: manualWindow_def ManualTypeIn_def ManualTypeOut_def u_def)

lemma manual_types_differ: "ManualTypeIn \<noteq> ManualTypeOut"
  by (simp add: ManualTypeIn_def ManualTypeOut_def u_def)

definition sound_entry :: "stamp \<Rightarrow> manualEntry \<Rightarrow> bool" where
  \<comment> \<open>what validation promises at the time \<open>now\<close>\<close>
  "sound_entry now e \<longleftrightarrow>
     1 \<le> me_student e \<and> (me_date e = on_date now \<or> me_date e = prev_day (on_date now)) \<and>
     (me_date e = on_date now \<longrightarrow> checkTime e \<le> now) \<and>
     (me_type e = ManualTypeIn \<and> in_check_in_window (me_date e) (checkTime e) \<or>
      me_type e = ManualTypeOut \<and> in_check_out_window (me_date e) (checkTime e))"

lemma parsed_sound:
  assumes "parseManualEntry req now = Inr e"
  shows "sound_entry now e"
proof -
  from assms obtain sid day ty c notify nt dryRun where
    s: "manual_student (mq_student req) = Inr sid" and d: "manual_date (mq_date req) now = Inr day"
    and t: "manual_type (mq_type req) = Inr ty" and c: "manual_clock (mq_time req) ty = Inr c"
    and e: "\<not> (day = on_date now \<and> now < At day c)"
      "e = \<lparr>me_student = sid, me_date = day, me_type = ty, me_clock = c, me_notify = notify, me_note = nt, me_dry_run = dryRun\<rparr>"
    unfolding parseManualEntry_def andThen_ok by (auto simp: manualDates_def split: if_splits)
  have "1 \<le> sid" using s by (auto simp: manual_student_def split: if_splits option.splits json.splits)
  moreover have "day = on_date now \<or> day = prev_day (on_date now)"
    using d by (auto simp: manual_date_def manualDates_def andThen_ok Let_def split: if_splits)
  moreover have "ty = ManualTypeIn \<or> ty = ManualTypeOut"
    using t by (auto simp: manual_type_def split: if_splits option.splits json.splits)
  moreover have "case manualWindow ty of (start, end_at, _) \<Rightarrow> start \<le> c \<and> c < end_at"
  proof -
    obtain start end_at inside name where mw: "manualWindow ty = (start, end_at, inside, name)" by (metis prod_cases4)
    then show ?thesis using c unfolding manual_clock_def Let_def andThen_ok mw by (auto split: if_split_asm)
  qed
  ultimately show ?thesis
    using e by (auto simp: sound_entry_def checkTime_def manual_window_simps in_check_in_window_def in_check_out_window_def
        stamp_le_iff stamp_less_iff)
qed

definition manual_row :: "manualEntry \<Rightarrow> stamp \<Rightarrow> int \<Rightarrow> punch" where
  "manual_row e now i = \<lparr>l_id = i, l_student = me_student e, l_device = None, l_time = checkTime e,
     l_sync = Some (to_micro now), l_source = SourceManual, l_note = me_note e\<rparr>"

definition no_same_kind :: "manualEntry \<Rightarrow> db \<Rightarrow> bool" where
  "no_same_kind e d \<longleftrightarrow> (\<forall>l \<in> set (attendance_logs d). l_student l = me_student e \<longrightarrow>
     \<not> fst (snd (snd (manualWindow (me_type e)))) (me_date e) (l_time l))"

lemma check_ok:
  assumes "manual_check e w = (Inr st, w')"
  shows "find_row (\<lambda>s. s_id s = me_student e \<and> s_active s) (students (db w)) = Some st \<and> existed_on st (me_date e) \<and>
    no_same_kind e (db w) \<and> db w' = db w \<and> clock w' = clock w"
proof -
  have k: "find_row (\<lambda>s. s_id s = me_student e \<and> s_active s) (students (db w)) = Some st \<and> existed_on st (me_date e) \<and>
      (case same_kind e (db w) of None \<Rightarrow> [] | Some l \<Rightarrow> u ''Student already has a '' @ snd (snd (snd (manualWindow (me_type e)))) @
        u '' at '' @ time12 (l_time l) @ u '' on '' @ ymd (me_date e) @ u '' ('' @ l_source l @ u '')'') = [] \<and>
      db w' = db w \<and> clock w' = clock w"
    using assms unfolding manual_check_def sameKindPunch_def
    by (auto simp: bindE_ok simple_ok lift_err_ok dest!: query_okD with_int4_laws(3) dest: sym)
  then have "same_kind e (db w) = None" by (cases "same_kind e (db w)") (auto simp: u_def)
  with k show ?thesis
    by (auto simp: same_kind_def no_same_kind_def filter_empty_conv split: prod.splits)
qed

lemma keeps_notification: "blind_to_notices P \<Longrightarrow> keeps P (manualNotification e)"
  unfolding manualNotification_def Let_def
  by (intro keeps_bindE keeps_lift_err keeps_query)
    (auto intro!: keeps_ret keeps_fail keeps_bindE keeps_lift_err keeps_SaveNotificationTx split: list.split option.split prod.split)

definition apart :: "db \<Rightarrow> db" where
  \<comment> \<open>the database without what notifying touches\<close>
  "apart d = d\<lparr>notifications := [], device_tokens := []\<rparr>"

lemma blind_apart: "blind_to_notices (\<lambda>d. apart d = X)"
  by (simp add: blind_to_notices_def apart_def)

lemma apartD:
  assumes "apart d = apart d'"
  shows "attendance_logs d = attendance_logs d'" "students d = students d'" "student_leaves d = student_leaves d'"
    "school_closures d = school_closures d'"
  using arg_cong [OF assms, of attendance_logs] arg_cong [OF assms, of students] arg_cong [OF assms, of student_leaves]
    arg_cong [OF assms, of school_closures] by (simp_all add: apart_def)

lemma record_ok:
  assumes "record_manual e w = (Inr (i, st, out), w')"
  obtains w1 where "find_row (\<lambda>s. s_id s = me_student e \<and> s_active s) (students (db w)) = Some st" "existed_on st (me_date e)"
    "no_same_kind e (db w)" "i \<notin> l_id ` set (attendance_logs (db w))"
    "db w1 = (db w)\<lparr>attendance_logs := attendance_logs (db w) @ [manual_row e (clock w) i]\<rparr>"
    "apart (db w') = apart (db w1)"
    "if me_notify e then manualNotification e w1 = (Inr out, w') else out = None"
proof -
  from assms obtain w1 w2 where c: "manual_check e w = (Inr st, w1)"
    and i: "insert_id Attendance_Logs (insert_manual e (clock w1)) w1 = (Inr i, w2)"
    and n: "(if me_notify e then manualNotification e else ret None) w2 = (Inr out, w')"
    unfolding record_manual_def by (auto simp: bindE_ok simple_ok lift_err_ok)
  have w1: "db w1 = db w" "clock w1 = clock w" using check_ok [OF c] by simp_all
  from i obtain d2 where "insert_manual e (clock w1) (serial w1 Attendance_Logs) (db w1) = Inr (i, d2)" "db w2 = d2"
    by (rule insert_id_ok)
  then have ins: "insert_manual e (clock w) (serial w1 Attendance_Logs) (db w) = Inr (i, db w2)" by (simp only: w1)
  then have w2: "db w2 = (db w)\<lparr>attendance_logs := attendance_logs (db w) @ [manual_row e (clock w) i]\<rparr>"
    "i \<notin> l_id ` set (attendance_logs (db w))"
    by (auto simp: insert_manual_def manual_row_def Let_def insert_unique_def split: if_splits option.splits)
  have k: "apart (db w') = apart (db w2)"
  proof (cases "me_notify e")
    case True
    then have run: "manualNotification e w2 = (Inr out, w')" using n by simp
    from keepsD [OF keeps_notification [OF blind_apart] _ run] show ?thesis by simp
  next
    case False
    with n show ?thesis by (simp add: simple_ok)
  qed
  have "if me_notify e then manualNotification e w2 = (Inr out, w') else out = None"
    using n by (simp add: simple_ok split: if_splits)
  with k w2 check_ok [OF c] show thesis by (intro that [of w2]) simp_all
qed

section \<open>The new punch and the status\<close>

lemma insidePunch:
  assumes "sound_entry now e" "no_same_kind e d" "d' = d\<lparr>attendance_logs := attendance_logs d @ [l]\<rparr>"
    "l_student l = me_student e" "l_time l = checkTime e"
  shows "get_student_status d' (me_student e) (me_date e) =
    (Present,
     if me_type e = ManualTypeIn then Some (time12 (checkTime e)) else map_option (\<lambda>l. time12 (l_time l)) (check_in_punch d (me_student e) (me_date e)),
     if me_type e = ManualTypeIn then map_option (\<lambda>l. time12 (l_time l)) (check_out_punch d (me_student e) (me_date e)) else Some (time12 (checkTime e)))"
proof -
  have logs: "attendance_logs d' = attendance_logs d @ [l]" using assms(3) by simp
  show ?thesis
  proof (cases "me_type e = ManualTypeIn")
    case True
    then have i: "in_check_in_window (me_date e) (checkTime e)" using assms(1) manual_types_differ by (auto simp: sound_entry_def)
    have "filter (\<lambda>l. l_student l = me_student e \<and> in_check_in_window (me_date e) (l_time l)) (attendance_logs d) = []"
      using assms(2) True by (auto simp: no_same_kind_def manual_window_simps filter_empty_conv)
    then have "check_in_punch d' (me_student e) (me_date e) = Some l"
      using i assms(4,5) by (simp add: check_in_punch_def logs)
    moreover have "check_out_punch d' (me_student e) (me_date e) = check_out_punch d (me_student e) (me_date e)"
      using windows_disjoint [OF i] assms(5) by (simp add: check_out_punch_def logs)
    ultimately show ?thesis using True assms(5) by (simp add: get_student_status_def)
  next
    case False
    then have t: "me_type e = ManualTypeOut" and i: "in_check_out_window (me_date e) (checkTime e)"
      using assms(1) by (auto simp: sound_entry_def)
    have "filter (\<lambda>l. l_student l = me_student e \<and> in_check_out_window (me_date e) (l_time l)) (attendance_logs d) = []"
      using assms(2) t by (auto simp: no_same_kind_def manual_window_simps filter_empty_conv)
    then have "check_out_punch d' (me_student e) (me_date e) = Some l"
      using i assms(4,5) by (simp add: check_out_punch_def logs)
    moreover have "check_in_punch d' (me_student e) (me_date e) = check_in_punch d (me_student e) (me_date e)"
      using windows_disjoint [of "me_date e" "checkTime e"] i assms(5) by (auto simp: check_in_punch_def logs)
    ultimately show ?thesis using False assms(5) by (simp add: get_student_status_def)
  qed
qed

lemma same_minute_inside:
  assumes "At d n \<le> t" "t < At d m" "minute_start s = minute_start t" "s < t" "on_date s = on_date t" "60 * sec dvd n"
  shows "At d n \<le> s \<and> s < At d m"
proof -
  have t: "on_date t = d" "n \<le> clock_of t" "clock_of t < m" using assms(1,2) by (cases t; auto simp: stamp_le_iff stamp_less_iff)+
  obtain k where k: "n = 60 * sec * k" using assms(6) by blast
  have "k \<le> clock_of t div (60 * sec)" using t(2) unfolding k by (simp add: sec_def div_nat_eqI less_eq_div_iff_mult_less_eq)
  then have "k \<le> clock_of s div (60 * sec)" using assms(3) by (simp add: minute_start_def)
  then have "k * (60 * sec) \<le> clock_of s" by (simp add: sec_def less_eq_div_iff_mult_less_eq)
  then have "n \<le> clock_of s" by (simp add: k mult.commute)
  moreover have "clock_of s < clock_of t" "on_date s = d" using assms(4,5) t(1) by (cases s; cases t; simp add: stamp_less_iff)+
  ultimately show ?thesis using t by (cases s) (auto simp: stamp_le_iff stamp_less_iff)
qed

lemma manual_notified:
  assumes "sound_entry now e" "no_same_kind e d" "d' = d\<lparr>attendance_logs := attendance_logs d @ [l]\<rparr>"
    "l_student l = me_student e" "l_time l = checkTime e" "school_day d (me_date e)"
  shows "notified_punch d' (me_student e, checkTime e)"
proof -
  have on: "on_date (checkTime e) = me_date e" by (simp add: checkTime_def)
  have school: "school_day d' (me_date e)" using assms(3,6) by (simp add: school_day_def)
  have "\<not> (l_student a = me_student e \<and> l_time a < checkTime e \<and> on_date (l_time a) = me_date e \<and>
      minute_start (l_time a) = minute_start (checkTime e))" if a: "a \<in> set (attendance_logs d')" for a
  proof
    assume s: "l_student a = me_student e \<and> l_time a < checkTime e \<and> on_date (l_time a) = me_date e \<and>
      minute_start (l_time a) = minute_start (checkTime e)"
    have "a \<in> set (attendance_logs d)" using a s assms(3,5) by auto
    moreover have "60 * sec dvd CheckInWindowStart" "60 * sec dvd CheckOutWindowStart"
      by (simp_all add: CheckInWindowStart_def CheckOutWindowStart_def hm_def sec_def)
    ultimately show False
      using assms(1,2) s same_minute_inside [of "me_date e" _ "checkTime e" _ "l_time a"] on manual_types_differ
      by (auto simp: sound_entry_def no_same_kind_def manual_window_simps in_check_in_window_def in_check_out_window_def)
  qed
  with insidePunch [OF assms(1-5)] school show ?thesis
    by (auto simp: notified_punch_def on list_ex_iff)
qed

section \<open>The handler\<close>

lemma open_ok:
  assumes "open_school_day day w = (Inr (), w')" "closure_kinds (db w)" "valid_date day"
  shows "db w' = db w \<and> clock w' = clock w \<and> school_day (db w) day"
proof -
  from assms(1) obtain info where r: "DayOn (ymd day) w = (Inr info, w')" and sc: "School info"
    unfolding open_school_day_def by (auto simp: bindE_ok simple_ok lift_err_ok)
  obtain t where t: "parse_date (ymd day) = Some t" "db w' = db w" "clock w' = clock w" "School info \<longleftrightarrow> school_day (db w) t"
    using DayOn_school [OF r assms(2)] .
  with sc assms(3) show ?thesis by simp
qed

lemma sound_dates: "sound_entry now e \<Longrightarrow> good_clock now \<Longrightarrow> valid_date (me_date e)"
  by (auto simp: sound_entry_def good_clock_def valid_prev_day)

lemma created_entry:
  assumes "createManualAttendance client (Body req) w = (Inr it, w')" "closure_kinds (db w)" "good_clock (clock w)"
  obtains e w1 where "parseManualEntry req (clock w) = Inr e" "sound_entry (clock w) e" "db w1 = db w" "clock w1 = clock w"
    "school_day (db w) (me_date e)" "(if me_dry_run e then preview_manual e else perform_manual client e) w1 = (Inr it, w')"
proof (cases "parseManualEntry req (clock w)")
  case (Inl msg)
  with assms(1) show thesis
    by (auto simp: createManualAttendance_def bindE_ok simple_ok decodeJSONBody_def)
next
  case (Inr e)
  let ?w = "w\<lparr>noted := (u ''student'', itoa (me_student e), entry_detail e)\<rparr>"
  from assms(1) Inr obtain w1 where o: "open_school_day (me_date e) ?w = (Inr (), w1)"
    and k: "(if me_dry_run e then preview_manual e else perform_manual client e) w1 = (Inr it, w')"
    by (auto simp: createManualAttendance_def bindE_ok simple_ok decodeJSONBody_def)
  have s: "sound_entry (clock w) e" using parsed_sound [OF Inr] .
  from open_ok [OF o] assms(2) sound_dates [OF s assms(3)]
  have "db w1 = db w" "clock w1 = clock w" "school_day (db w) (me_date e)" by simp_all
  with Inr s k show thesis by (intro that)
qed

lemma performed_manual:
  assumes "perform_manual client e w = (Inr it, w')"
  obtains i st out w1 w2 where "record_manual e w1 = (Inr (i, st, out), w2)" "db w1 = db w" "clock w1 = clock w"
    "it = manual_item e st (Some i) (out \<noteq> None)" "apart (db w') = apart (db w2)"
proof -
  from assms obtain i st out w3 where t: "in_tx ManualDB (record_manual e) w = (Inr (i, st, out), w3)"
    and s: "(case out of None \<Rightarrow> ret () | Some (tokens, title, body) \<Rightarrow> SendToDevices client tokens title body) w3 = (Inr () :: refusal + unit, w')"
    and it: "it = manual_item e st (Some i) (out \<noteq> None)"
    unfolding perform_manual_def by (auto simp: bindE_ok simple_ok lift_err_ok)
  have "keeps (\<lambda>d. apart d = apart (db w3))
      ((case out of None \<Rightarrow> ret () | Some (tokens, title, body) \<Rightarrow> SendToDevices client tokens title body) :: (refusal, unit) tx)"
    by (intro keeps_option keeps_ret keeps_prod keeps_SendToDevices blind_apart)
  from keepsD [OF this _ s] have n: "apart (db w') = apart (db w3)" by simp
  obtain w1 w2 where r: "record_manual e w1 = (Inr (i, st, out), w2)" "db w1 = db w" "clock w1 = clock w" "db w3 = db w2"
    using t by (rule in_tx_ok)
  have "apart (db w') = apart (db w2)" using n r(4) by simp
  then show thesis by (rule that [OF r(1-3) it])
qed

definition same_day_status :: "status \<times> str option \<times> str option \<Rightarrow> str \<Rightarrow> str \<Rightarrow> status \<times> str option \<times> str option" where
  \<comment> \<open>a status with the punch of one kind set\<close>
  "same_day_status st typ t =
     (Present, if typ = ManualTypeIn then Some t else fst (snd st), if typ = ManualTypeIn then snd (snd st) else Some t)"

lemma notified_out:
  assumes "manualNotification e w = (Inr out, w')" "notified_punch (db w) (me_student e, checkTime e)"
    "find_row (\<lambda>s. s_id s = me_student e) (students (db w)) = Some st"
  shows "out \<noteq> None \<longleftrightarrow> s_parent st \<noteq> None"
proof -
  let ?n = "\<lparr>nt_time = checkTime e, nt_name = s_name st, nt_tokens = parent_device_tokens (db w) (s_parent st), nt_parent = s_parent st,
    nt_out = (snd (snd (get_student_status (db w) (me_student e) (on_date (checkTime e)))) = Some (time12 (checkTime e)))\<rparr>"
  have rows: "notifyPunchesSQL [(me_student e, checkTime e)] (db w) = [?n]"
    using assms(2,3) by (simp add: notifyPunchesSQL_def notice_for_def map_filter_simps)
  from assms(1) obtain w1 where k: "(case nt_parent ?n of None \<Rightarrow> ret None
      | Some pid \<Rightarrow> if nt_out ?n \<noteq> (me_type e = ManualTypeOut) then fail Misclassified
          else case PunchNotificationText (nt_name ?n) (nt_time ?n) (nt_out ?n) of (title, body) \<Rightarrow>
            bindE (lift_err ManualDB (SaveNotificationTx pid title body)) (\<lambda>_.
            ret (Some (DeviceTokens (nt_tokens ?n), title, body)))) w1 = (Inr out, w')"
    unfolding manualNotification_def bindE_ok lift_err_ok using query_ok(1) [of "notifyPunchesSQL [(me_student e, checkTime e)]" w] rows
    by (fastforce simp: Let_def)
  show ?thesis
  proof (cases "s_parent st")
    case None
    with k show ?thesis by (simp add: simple_ok)
  next
    case (Some pid)
    obtain title body where "PunchNotificationText (nt_name ?n) (nt_time ?n) (nt_out ?n) = (title, body)" by fastforce
    with k Some show ?thesis by (auto simp: bindE_ok simple_ok split: if_splits)
  qed
qed

lemma dry_run_parse:
  assumes "parseManualEntry (req\<lparr>mq_dry_run := Some (JBool True)\<rparr>) now = Inr e"
    "parseManualEntry (req\<lparr>mq_dry_run := None\<rparr>) now = Inr e'"
  shows "me_dry_run e" "e' = e\<lparr>me_dry_run := False\<rparr>"
  using assms unfolding parseManualEntry_def andThen_ok
  by (auto simp: jsonBool_def split: if_splits)

section \<open>What the absence job writes\<close>

lemma push_quiet:
  assumes "faults w = []"
  shows "\<exists>w' t. SendPushNotification client token title body w = (Inr () :: 'e + unit, w') \<and> faults w' = [] \<and>
    db w' = (db w)\<lparr>device_tokens := t\<rparr>"
proof (cases client)
  case None
  then show ?thesis using assms by (intro exI [of _ w] exI [of _ "device_tokens (db w)"]) (simp add: SendPushNotification_def ret_def)
next
  case (Some send)
  have "\<exists>w' t. SendPushNotification (Some send) token title body w = (Inr () :: 'e + unit, w') \<and> faults w' = [] \<and> db w' = (db w)\<lparr>device_tokens := t\<rparr>"
  proof (cases "token = []")
    case True
    then show ?thesis using assms by (intro exI [of _ w] exI [of _ "device_tokens (db w)"]) (simp add: SendPushNotification_def ret_def)
  next
    case False
    let ?m = "\<lparr>push_token = token, push_title = title, push_body = body\<rparr>"
    show ?thesis
    proof (cases "send ?m = Unregistered")
      case True
      with False assms show ?thesis
        by (simp add: SendPushNotification_def Let_def push_out_def clearDeadToken_def quietly_def bindE_def catchE_def run_simps)
          (rule exI, rule refl)
    next
      case no: False
      with False assms show ?thesis
        by (simp add: SendPushNotification_def Let_def push_out_def bindE_def ret_def)
          (rule exI [of _ "device_tokens (db w)"], simp)
    qed
  qed
  with Some show ?thesis by simp
qed

lemma pushes_quiet:
  "faults w = [] \<Longrightarrow> \<exists>w' t. SendToDevices client tokens title body w = (Inr () :: 'e + unit, w') \<and> faults w' = [] \<and>
    db w' = (db w)\<lparr>device_tokens := t\<rparr>"
proof (induction tokens arbitrary: w)
  case Nil
  then show ?case by (intro exI [of _ w] exI [of _ "device_tokens (db w)"]) (simp add: ret_def)
next
  case (Cons token tokens)
  obtain w1 t where w1: "SendPushNotification client token title body w = (Inr () :: 'e + unit, w1)" "faults w1 = []"
    "db w1 = (db w)\<lparr>device_tokens := t\<rparr>" using push_quiet [OF Cons.prems] by metis
  obtain w2 t' where "SendToDevices client tokens title body w1 = (Inr () :: 'e + unit, w2)" "faults w2 = []"
    "db w2 = (db w1)\<lparr>device_tokens := t'\<rparr>" using Cons.IH [OF w1(2)] by metis
  with w1 show ?case by (intro exI [of _ w2] exI [of _ t']) (simp add: bindE_def)
qed

definition notice_key :: "notification \<Rightarrow> int option \<times> str \<times> str \<times> bool" where
  "notice_key n = (n_parent n, n_title n, n_body n, n_read n)"

definition absence_keys :: "absence \<Rightarrow> (int option \<times> str \<times> str \<times> bool) list" where
  "absence_keys a = (case ab_parent a of None \<Rightarrow> [] | Some p \<Rightarrow> [(Some p, absence_title, absence_body (ab_name a), False)])"

lemma absences_quiet:
  assumes "faults w = []" "\<forall>a \<in> set as. \<forall>p. ab_parent a = Some p \<longrightarrow> list_ex (\<lambda>r. p_id r = p) (parents (db w))"
  shows "\<exists>w' ns t. process_absences client as w = (Inr () :: 'e + unit, w') \<and> faults w' = [] \<and>
    db w' = (db w)\<lparr>device_tokens := t, notifications := notifications (db w) @ ns\<rparr> \<and>
    map notice_key ns = concat (map absence_keys as)"
  using assms
proof (induction as arbitrary: w)
  case Nil
  then show ?case
    by (intro exI [of _ w] exI [of _ "[]"] exI [of _ "device_tokens (db w)"]) (simp add: ret_def)
next
  case (Cons a as)
  have title: "length absence_title \<le> 255" by (simp add: absence_title_def)
  obtain w1 n1 where w1: "(case ab_parent a of None \<Rightarrow> ret () | Some p \<Rightarrow> SaveNotificationHistory p absence_title (absence_body (ab_name a))) w = (Inr () :: 'e + unit, w1)"
    "faults w1 = []" "db w1 = (db w)\<lparr>notifications := notifications (db w) @ n1\<rparr>" "map notice_key n1 = absence_keys a"
  proof (cases "ab_parent a")
    case None
    with Cons.prems that [of w "[]"] show thesis by (simp add: ret_def absence_keys_def)
  next
    case (Some p)
    then have "list_ex (\<lambda>r. p_id r = p) (parents (db w))" using Cons.prems(2) by simp
    with Some Cons.prems(1) title show thesis
      by (intro that [of "w\<lparr>serial := (serial w)(Notifications := serial w Notifications + 1), db := (db w)\<lparr>notifications :=
          notifications (db w) @ [\<lparr>n_id = serial w Notifications, n_parent = Some p, n_title = absence_title,
          n_body = absence_body (ab_name a), n_read = False, n_created = to_micro (clock w), n_broadcast = None\<rparr>]\<rparr>\<rparr>"
          "[\<lparr>n_id = serial w Notifications, n_parent = Some p, n_title = absence_title,
          n_body = absence_body (ab_name a), n_read = False, n_created = to_micro (clock w), n_broadcast = None\<rparr>]"])
        (simp_all add: SaveNotificationHistory_def SaveNotificationTx_def quietly_def catchE_def bindE_def run_simps
          insert_notification_def absence_keys_def notice_key_def)
  qed
  obtain w2 t where w2: "SendToDevices client (DeviceTokens (ab_tokens a)) absence_title (absence_body (ab_name a)) w1 = (Inr () :: 'e + unit, w2)"
    "faults w2 = []" "db w2 = (db w1)\<lparr>device_tokens := t\<rparr>"
    using pushes_quiet [OF w1(2)] by metis
  have "\<forall>a \<in> set as. \<forall>p. ab_parent a = Some p \<longrightarrow> list_ex (\<lambda>r. p_id r = p) (parents (db w2))"
    using Cons.prems(2) w1(3) w2(3) by simp
  from Cons.IH [OF w2(2) this] obtain w3 ns t' where w3: "process_absences client as w2 = (Inr () :: 'e + unit, w3)" "faults w3 = []"
    "db w3 = (db w2)\<lparr>device_tokens := t', notifications := notifications (db w2) @ ns\<rparr>" "map notice_key ns = concat (map absence_keys as)"
    by blast
  have "process_absences client (a # as) w = (Inr () :: 'e + unit, w3)" using w1(1) w2(1) w3(1) by (simp add: bindE_def)
  moreover have "db w3 = (db w)\<lparr>device_tokens := t', notifications := notifications (db w) @ (n1 @ ns)\<rparr>"
    using w1(3) w2(3) w3(3) by simp
  moreover have "map notice_key (n1 @ ns) = concat (map absence_keys (a # as))" using w1(4) w3(4) by simp
  ultimately show ?case using w3(2) by blast
qed

lemma absent_keys:
  "concat (map absence_keys (map (\<lambda>s. \<lparr>ab_parent = (case s_parent s of None \<Rightarrow> None
       | Some p \<Rightarrow> if list_ex (\<lambda>r. p_id r = p) (parents d) then Some p else None),
      ab_name = s_name s, ab_tokens = parent_device_tokens d (s_parent s)\<rparr>)
      (filter (\<lambda>s. s_active s \<and> status_on d (s_id s) day = Absent) ss))) =
   map (\<lambda>s. (s_parent s, absence_title, absence_body (s_name s), False))
     (filter (\<lambda>s. s_active s \<and> \<not> punched d (s_id s) day \<and> \<not> has_leave d (s_id s) day \<and>
        (\<exists>p \<in> set (parents d). s_parent s = Some (p_id p))) ss)"
  by (induction ss) (auto simp: absence_keys_def status_cases list_ex_iff split: option.splits)

section \<open>Properties\<close>

text \<open>C17. A manual punch that was recorded is one new row of the attendance table, marked manual, for an active
  student, on a school day, today or yesterday and not in the future, and at once the status function reports the
  student as present with that very time, leaving the time of the other kind as it was.\<close>

theorem manual_punch_counts:
  assumes "createManualAttendance client (Body req) w = (Inr it, w')" "\<not> mi_dry_run it"
    and "closure_kinds (db w)" "good_clock (clock w)"
  shows "\<exists>l st. attendance_logs (db w') = attendance_logs (db w) @ [l] \<and> l_source l = SourceManual \<and>
    mi_id it = Some (l_id l) \<and> l_student l = mi_student it \<and> ymd (on_date (l_time l)) = mi_date it \<and>
    hh_mm_ss (clock_of (l_time l)) = mi_time it \<and> l_note l = mi_note it \<and>
    st \<in> set (students (db w)) \<and> s_id st = mi_student it \<and> s_active st \<and> existed_on st (on_date (l_time l)) \<and>
    school_day (db w) (on_date (l_time l)) \<and>
    (on_date (l_time l) = on_date (clock w) \<and> l_time l \<le> clock w \<or> on_date (l_time l) = prev_day (on_date (clock w))) \<and>
    get_student_status (db w') (mi_student it) (on_date (l_time l)) =
      same_day_status (get_student_status (db w) (mi_student it) (on_date (l_time l))) (mi_type it) (time12 (l_time l))"
proof -
  obtain e w1 where e: "parseManualEntry req (clock w) = Inr e" "sound_entry (clock w) e" and w1: "db w1 = db w" "clock w1 = clock w"
    and sd: "school_day (db w) (me_date e)"
    and k: "(if me_dry_run e then preview_manual e else perform_manual client e) w1 = (Inr it, w')"
    using created_entry [OF assms(1,3,4)] .
  have "\<not> me_dry_run e"
    using k assms(2) by (auto simp: preview_manual_def manual_item_def bindE_ok simple_ok split: if_splits)
  with k have p: "perform_manual client e w1 = (Inr it, w')" by simp
  obtain i st out w2 w3 where r: "record_manual e w2 = (Inr (i, st, out), w3)" "db w2 = db w1" "clock w2 = clock w1"
    and it: "it = manual_item e st (Some i) (out \<noteq> None)" and a: "apart (db w') = apart (db w3)"
    using performed_manual [OF p] .
  let ?l = "manual_row e (clock w) i"
  let ?d = "(db w)\<lparr>attendance_logs := attendance_logs (db w) @ [?l]\<rparr>"
  have cw: "db w2 = db w" "clock w2 = clock w" using r(2,3) w1 by simp_all
  obtain w4 where f: "find_row (\<lambda>s. s_id s = me_student e \<and> s_active s) (students (db w)) = Some st" "existed_on st (me_date e)"
    "no_same_kind e (db w)" "i \<notin> l_id ` set (attendance_logs (db w))" and d: "db w4 = ?d" "apart (db w3) = apart (db w4)"
    and "if me_notify e then manualNotification e w4 = (Inr out, w3) else out = None"
    using record_ok [OF r(1), unfolded cw] .
  have st: "st \<in> set (students (db w))" "s_id st = me_student e" "s_active st" using find_row_Some [OF f(1)] by auto
  have l: "l_student ?l = me_student e" "l_time ?l = checkTime e" "on_date (checkTime e) = me_date e"
    "l_source ?l = SourceManual" "l_id ?l = i" "l_note ?l = me_note e" "clock_of (checkTime e) = me_clock e"
    by (simp_all add: manual_row_def checkTime_def)
  have same: "attendance_logs (db w') = attendance_logs (db w) @ [?l]" "student_leaves (db w') = student_leaves (db w)"
    using apartD [of "db w'" ?d] a d by simp_all
  then have "get_student_status (db w') sid day = get_student_status ?d sid day" for sid day
    by (simp add: get_student_status_def check_in_punch_def check_out_punch_def has_leave_def)
  with insidePunch [OF e(2) f(3) refl l(1,2)]
  have "get_student_status (db w') (me_student e) (me_date e) =
      same_day_status (get_student_status (db w) (me_student e) (me_date e)) (me_type e) (time12 (checkTime e))"
    by (simp add: same_day_status_def get_student_status_def Let_def)
  moreover have "mi_student it = me_student e" "mi_id it = Some i" "mi_date it = ymd (me_date e)" "mi_time it = hh_mm_ss (me_clock e)"
    "mi_note it = me_note e" "mi_type it = me_type e"
    by (simp_all add: it manual_item_def clockText_def)
  moreover have "me_date e = on_date (clock w) \<and> checkTime e \<le> clock w \<or> me_date e = prev_day (on_date (clock w))"
    using e(2) by (auto simp: sound_entry_def)
  ultimately show ?thesis using same(1) st f(2) sd l by (intro exI [of _ ?l] exI [of _ st]) simp
qed

text \<open>The preview of a manual punch is what creating it then does: the same student, date, time and note, and
  in particular the parent is notified exactly when the preview said so. The preview itself changes nothing.\<close>

theorem manual_preview_exact:
  assumes "createManualAttendance client (Body (req\<lparr>mq_dry_run := Some (JBool True)\<rparr>)) w = (Inr p, v)"
    "createManualAttendance client (Body (req\<lparr>mq_dry_run := None\<rparr>)) w = (Inr it, w')"
    and "closure_kinds (db w)" "good_clock (clock w)" "unique_key s_id (students (db w))"
  shows "p = it\<lparr>mi_id := None, mi_dry_run := True\<rparr> \<and> db v = db w"
proof -
  obtain e v1 where e: "parseManualEntry (req\<lparr>mq_dry_run := Some (JBool True)\<rparr>) (clock w) = Inr e" and "sound_entry (clock w) e"
    and v1: "db v1 = db w" "clock v1 = clock w" and "school_day (db w) (me_date e)"
    and kv: "(if me_dry_run e then preview_manual e else perform_manual client e) v1 = (Inr p, v)"
    using created_entry [OF assms(1,3,4)] .
  obtain e' w1 where e': "parseManualEntry (req\<lparr>mq_dry_run := None\<rparr>) (clock w) = Inr e'" and snd: "sound_entry (clock w) e'"
    and w1: "db w1 = db w" "clock w1 = clock w" and sd: "school_day (db w) (me_date e')"
    and kw: "(if me_dry_run e' then preview_manual e' else perform_manual client e') w1 = (Inr it, w')"
    using created_entry [OF assms(2-4)] .
  have dry: "me_dry_run e" "e' = e\<lparr>me_dry_run := False\<rparr>" using dry_run_parse [OF e e'] by simp_all
  from kv dry(1) obtain st' where c: "manual_check e v1 = (Inr st', v)"
    and p: "p = manual_item e st' None (me_notify e \<and> s_parent st' \<noteq> None)"
    by (auto simp: preview_manual_def bindE_ok simple_ok)
  from kw dry(2) have "perform_manual client e' w1 = (Inr it, w')" by simp
  then obtain i st out w2 w3 where r: "record_manual e' w2 = (Inr (i, st, out), w3)" "db w2 = db w1" "clock w2 = clock w1"
    and it: "it = manual_item e' st (Some i) (out \<noteq> None)" and "apart (db w') = apart (db w3)"
    by (rule performed_manual)
  have cw: "db w2 = db w" "clock w2 = clock w" using r(2,3) w1 by simp_all
  let ?l = "manual_row e' (clock w) i"
  obtain w4 where f: "find_row (\<lambda>s. s_id s = me_student e' \<and> s_active s) (students (db w)) = Some st" "existed_on st (me_date e')"
    "no_same_kind e' (db w)" "i \<notin> l_id ` set (attendance_logs (db w))"
    and d: "db w4 = (db w)\<lparr>attendance_logs := attendance_logs (db w) @ [?l]\<rparr>" "apart (db w3) = apart (db w4)"
    and n: "if me_notify e' then manualNotification e' w4 = (Inr out, w3) else out = None"
    using record_ok [OF r(1), unfolded cw] .
  have "find_row (\<lambda>s. s_id s = me_student e \<and> s_active s) (students (db w)) = Some st'" "db v = db w"
    using check_ok [OF c] v1 by simp_all
  with f(1) dry(2) have st: "st' = st" "db v = db w" by simp_all
  have m: "st \<in> set (students (db w))" "s_id st = me_student e'" using find_row_Some [OF f(1)] by auto
  have "find_row (\<lambda>s. s_id s = me_student e') (students (db w)) = Some st"
    using student_ids.find_by_key [OF assms(5) m] .
  moreover have "notified_punch (db w4) (me_student e', checkTime e')"
    by (rule manual_notified [OF snd f(3) d(1)]) (simp_all add: manual_row_def sd)
  ultimately have "me_notify e' \<Longrightarrow> out \<noteq> None \<longleftrightarrow> s_parent st \<noteq> None"
    using n notified_out [of e' w4 out w3 st] d(1) by simp
  then have "out \<noteq> None \<longleftrightarrow> me_notify e \<and> s_parent st \<noteq> None" using n dry(2) by (cases "me_notify e") auto
  with p it st dry show ?thesis by (simp add: manual_item_def)
qed

text \<open>A manual punch can be undone without a trace: deleting it by the id it was given, on the same day and with
  no statement failing, succeeds and leaves the attendance table as it was before.\<close>

theorem manual_undo:
  assumes "createManualAttendance client (Body req) w = (Inr it, w')" "mi_id it = Some i"
    and "closure_kinds (db w)" "good_clock (clock w)" "1 \<le> i" "i < 2 ^ 63"
    and w2: "db w2 = db w'" "faults w2 = []" "on_date (clock w2) = on_date (clock w)"
  shows "\<exists>r v. deleteManualAttendance (itoa i) w2 = (Inr r, v) \<and> attendance_logs (db v) = attendance_logs (db w)"
proof -
  obtain e w1 where e: "parseManualEntry req (clock w) = Inr e" "sound_entry (clock w) e" and w1: "db w1 = db w" "clock w1 = clock w"
    and "school_day (db w) (me_date e)"
    and k: "(if me_dry_run e then preview_manual e else perform_manual client e) w1 = (Inr it, w')"
    using created_entry [OF assms(1,3,4)] .
  have "\<not> me_dry_run e"
    using k assms(2) by (auto simp: preview_manual_def manual_item_def bindE_ok simple_ok split: if_splits)
  with k have "perform_manual client e w1 = (Inr it, w')" by simp
  then obtain j st out w3 w4 where r: "record_manual e w3 = (Inr (j, st, out), w4)" "db w3 = db w1" "clock w3 = clock w1"
    and it: "it = manual_item e st (Some j) (out \<noteq> None)" and a: "apart (db w') = apart (db w4)"
    by (rule performed_manual)
  have j: "j = i" using it assms(2) by (simp add: manual_item_def)
  have cw: "db w3 = db w" "clock w3 = clock w" using r(2,3) w1 by simp_all
  let ?l = "manual_row e (clock w) i"
  obtain w5 where f: "find_row (\<lambda>s. s_id s = me_student e \<and> s_active s) (students (db w)) = Some st" "existed_on st (me_date e)"
    "no_same_kind e (db w)" "i \<notin> l_id ` set (attendance_logs (db w))"
    and d: "db w5 = (db w)\<lparr>attendance_logs := attendance_logs (db w) @ [?l]\<rparr>" "apart (db w4) = apart (db w5)"
    and "if me_notify e then manualNotification e w5 = (Inr out, w4) else out = None"
    using record_ok [OF r(1), unfolded cw j] .
  have logs: "attendance_logs (db w2) = attendance_logs (db w) @ [?l]" "students (db w2) = students (db w)"
    using apartD [of "db w'" "db w5"] a d w2(1) by simp_all
  have gone: "filter (\<lambda>l. l_id l \<noteq> i) (attendance_logs (db w)) = attendance_logs (db w)"
    using f(4) by (auto intro: filter_True)
  have none: "find_row (\<lambda>l. l_id l = i) (attendance_logs (db w)) = None" using f(4) by (auto simp: find_row_None)
  obtain s where s: "find_row (\<lambda>s. s_id s = me_student e) (students (db w)) = Some s"
    using find_row_Some [OF f(1)] by (cases "find_row (\<lambda>s. s_id s = me_student e) (students (db w))") (auto simp: find_row_None)
  have found: "find_entry i (db w2) = Some (?l, s)"
    using s none by (simp add: find_entry_def logs find_row_snoc manual_row_def)
  have date: "md_date (delete_item ?l s) = ymd (on_date (clock w2)) \<or> md_date (delete_item ?l s) = ymd (prev_day (on_date (clock w2)))"
    using e(2) w2(3) by (auto simp: delete_item_def manual_row_def checkTime_def sound_entry_def)
  show ?thesis
    using assms(5,6) w2(2) found date gone
    by (simp add: deleteManualAttendance_def delete_manual_def manualDates_def bindE_def run_simps lift_err_run in_tx_run_nil
        Atoi_itoa Let_def manual_row_def logs del_where_def)
qed

text \<open>C18. At noon of a school day, when no statement fails, every active student who has neither punched nor a leave
  is reported to the parent, once, and nobody else; on a weekend or a closed day nothing is written.\<close>

theorem absences_reported_once:
  assumes "faults w = []" "valid_date (on_date (clock w))" "closure_kinds (db w)"
  shows "\<exists>w' ns t. ProcessDailyAbsences client w = (Inr (), w') \<and>
    db w' = (db w)\<lparr>device_tokens := t, notifications := notifications (db w) @ ns\<rparr> \<and>
    map notice_key ns =
      (if school_day (db w) (on_date (clock w)) then
         map (\<lambda>s. (s_parent s, absence_title, absence_body (s_name s), False))
           (filter (\<lambda>s. s_active s \<and> \<not> punched (db w) (s_id s) (on_date (clock w)) \<and> \<not> has_leave (db w) (s_id s) (on_date (clock w)) \<and>
              (\<exists>p \<in> set (parents (db w)). s_parent s = Some (p_id p))) (students (db w)))
       else [])"
proof -
  let ?day = "on_date (clock w)"
  have "\<exists>info. DayOn (ymd ?day) w = (Inr info, w)"
    using assms(1,2) by (simp add: DayOn_def bindE_def run_simps)
  then obtain info where r: "DayOn (ymd ?day) w = (Inr info, w)" by blast
  have sc: "School info \<longleftrightarrow> school_day (db w) ?day"
    using DayOn_school [OF r assms(3)] assms(2) by (metis option.inject parse_date_ymd)
  show ?thesis
  proof (cases "School info")
    case False
    with r sc assms(1) show ?thesis
      by (intro exI [of _ w] exI [of _ "[]"] exI [of _ "device_tokens (db w)"])
        (simp add: ProcessDailyAbsences_def quietly_def catchE_def bindE_def run_simps today_def)
  next
    case True
    let ?as = "absence_query ?day (db w)"
    have "\<forall>a \<in> set ?as. \<forall>p. ab_parent a = Some p \<longrightarrow> list_ex (\<lambda>r. p_id r = p) (parents (db w))"
      by (auto simp: absence_query_def split: option.splits if_splits)
    from absences_quiet [OF assms(1) this, of client] obtain w' ns t where
      w': "(process_absences client ?as :: (err, unit) tx) w = (Inr (), w')" "db w' = (db w)\<lparr>device_tokens := t, notifications := notifications (db w) @ ns\<rparr>"
        "map notice_key ns = concat (map absence_keys ?as)" by blast
    have "concat (map absence_keys ?as) =
        map (\<lambda>s. (s_parent s, absence_title, absence_body (s_name s), False))
           (filter (\<lambda>s. s_active s \<and> \<not> punched (db w) (s_id s) ?day \<and> \<not> has_leave (db w) (s_id s) ?day \<and>
              (\<exists>p \<in> set (parents (db w)). s_parent s = Some (p_id p))) (students (db w)))"
      unfolding absence_query_def by (rule absent_keys)
    with w' r True sc assms(1) show ?thesis
      by (intro exI [of _ w'] exI [of _ ns] exI [of _ t])
        (simp add: ProcessDailyAbsences_def quietly_def catchE_def bindE_def run_simps today_def)
  qed
qed

section \<open>Examples\<close>

definition pupil :: student where
  "pupil = \<lparr>s_id = 7, s_name = u ''Nada'', s_tag = u ''7'', s_created = None, s_grade = None, s_section = None, s_avatar = None,
     s_parent = Some 3, s_active = True\<rparr>"

definition mother :: parent where
  "mother = \<lparr>p_id = 3, p_name = u ''Sara'', p_phone = u ''+9647701234567'', p_pin = [], p_version = 0, p_push = True\<rparr>"

definition monday :: stamp where "monday = At (Date 2026 3 2) (hm 12 0)"

definition class_world :: world where
  "class_world = quiet (empty_db\<lparr>students := [pupil], parents := [mother]\<rparr>) monday"

definition by_hand :: manualAttendanceRequest where
  "by_hand = \<lparr>mq_student = Some (JInt 7), mq_date = None, mq_type = Some (JStr ManualTypeIn), mq_time = None, mq_notify = None,
     mq_note = None, mq_dry_run = None\<rparr>"

definition by_hand_entry :: manualEntry where
  "by_hand_entry = \<lparr>me_student = 7, me_date = Date 2026 3 2, me_type = ManualTypeIn, me_clock = hm 8 0, me_notify = True,
     me_note = None, me_dry_run = False\<rparr>"

lemma by_hand_parsed:
  "parseManualEntry by_hand monday = Inr by_hand_entry"
  "parseManualEntry (by_hand\<lparr>mq_dry_run := Some (JBool True)\<rparr>) monday = Inr (by_hand_entry\<lparr>me_dry_run := True\<rparr>)"
proof -
  have c: "manual_clock None ManualTypeIn = Inr (hm 8 0)"
    by (simp add: manual_clock_def absent_def manual_types_differ manual_window_simps Let_def)
      (simp add: ManualCheckInTime_def u_def is2_def hm_def sec_def CheckInWindowStart_def CheckInWindowEnd_def)
  have t: "manual_type (Some (JStr ManualTypeIn)) = Inr ManualTypeIn" by (simp add: manual_type_def absent_def)
  have d: "manual_date None monday = Inr (Date 2026 3 2)"
    by (simp add: manual_date_def jsonDate_def absent_def monday_def manualDates_def Let_def)
  have n: "\<not> monday < At (Date 2026 3 2) (hm 8 0)" by (simp add: monday_def stamp_less_iff hm_def sec_def)
  show "parseManualEntry by_hand monday = Inr by_hand_entry"
    "parseManualEntry (by_hand\<lparr>mq_dry_run := Some (JBool True)\<rparr>) monday = Inr (by_hand_entry\<lparr>me_dry_run := True\<rparr>)"
    by (simp_all add: parseManualEntry_def by_hand_def manual_student_def absent_def d t c n jsonBool_def optionalText_def
        by_hand_entry_def)
qed

lemma monday_facts: "valid_date (Date 2026 3 2)" "weekday (Date 2026 3 2) = 1" "on_date monday = Date 2026 3 2" "good_clock monday"
  by (simp_all add: valid_date_def days_in_def date_eval monday_def good_clock_def)

lemma class_simps: "faults class_world = []" "clock class_world = monday" "students (db class_world) = [pupil]"
    "parents (db class_world) = [mother]" "school_closures (db class_world) = []" "attendance_logs (db class_world) = []"
    "student_leaves (db class_world) = []" "device_tokens (db class_world) = []" "notifications (db class_world) = []"
    "serial class_world tb = 1" "closure_kinds (db class_world)" "unique_key s_id (students (db class_world))"
  by (simp_all add: class_world_def empty_db_def closure_kinds_def unique_key_def)

lemma pupil_simps: "s_id pupil = 7" "s_active pupil" "existed_on pupil day" "s_parent pupil = Some 3" "s_name pupil = u ''Nada''"
    "p_id mother = 3"
  by (simp_all add: pupil_def existed_on_def mother_def)

lemma monday_open: "open_school_day (Date 2026 3 2) (class_world\<lparr>noted := nt\<rparr>) = (Inr (), class_world\<lparr>noted := nt\<rparr>)"
  by (simp add: open_school_day_def DayOn_def monday_facts bindE_def run_simps lift_err_run class_simps covering_closure_def
      closure_day_def School_def)

definition by_hand_world :: world where
  "by_hand_world = class_world\<lparr>serial := (serial class_world)(Attendance_Logs := 2),
     db := (db class_world)\<lparr>attendance_logs := [manual_row by_hand_entry monday 1]\<rparr>\<rparr>"

lemma by_hand_notified:
  "\<exists>tokens title body w'. manualNotification by_hand_entry (by_hand_world\<lparr>noted := nt\<rparr>) = (Inr (Some (tokens, title, body)), w') \<and>
     faults w' = []"
proof -
  let ?e = by_hand_entry
  have e: "me_student ?e = 7" "me_date ?e = Date 2026 3 2" "me_type ?e = ManualTypeIn" "checkTime ?e = At (Date 2026 3 2) (hm 8 0)"
    by (simp_all add: by_hand_entry_def checkTime_def)
  have snd: "sound_entry monday ?e" using parsed_sound [OF by_hand_parsed(1)] .
  have d: "db (by_hand_world\<lparr>noted := nt\<rparr>) = (db class_world)\<lparr>attendance_logs := attendance_logs (db class_world) @ [manual_row ?e monday 1]\<rparr>"
    by (simp add: by_hand_world_def class_simps)
  have s: "school_day (db class_world) (Date 2026 3 2)" by (simp add: school_day_def monday_facts class_simps)
  have none: "no_same_kind ?e (db class_world)" by (simp add: no_same_kind_def class_simps)
  have n: "notified_punch (db (by_hand_world\<lparr>noted := nt\<rparr>)) (7, At (Date 2026 3 2) (hm 8 0))"
    using manual_notified [OF snd none d] s by (simp add: e manual_row_def)
  have st: "snd (snd (get_student_status (db by_hand_world) 7 (Date 2026 3 2))) = None"
    using insidePunch [OF snd none d] by (simp add: e manual_row_def check_out_punch_def class_simps)
  have f: "faults by_hand_world = []" "students (db by_hand_world) = [pupil]" "parents (db by_hand_world) = [mother]"
    by (simp_all add: by_hand_world_def class_simps)
  have t: "length (fst (PunchNotificationText n t b)) \<le> 255" for n t b by (simp add: PunchNotificationText_def)
  obtain title body where p: "PunchNotificationText (u ''Nada'') (At (Date 2026 3 2) (hm 8 0)) False = (title, body)" by fastforce
  have l: "length title \<le> 255" using t [of "u ''Nada''" "At (Date 2026 3 2) (hm 8 0)" False] p by simp
  show ?thesis
    using n l
    by (simp add: manualNotification_def notifyPunchesSQL_def notice_for_def map_filter_simps bindE_def run_simps lift_err_run
        e f st p pupil_simps find_row_def Let_def manual_types_differ SaveNotificationTx_def insert_notification_def)
qed

lemma by_hand_checked: "manual_check (by_hand_entry\<lparr>me_dry_run := b\<rparr>) (class_world\<lparr>noted := nt\<rparr>) = (Inr pupil, class_world\<lparr>noted := nt\<rparr>)"
  by (simp add: manual_check_def sameKindPunch_def same_kind_def with_int4_def bindE_def run_simps lift_err_run class_simps
      by_hand_entry_def find_row_def pupil_simps manual_window_simps)

lemma by_hand_created:
  "\<exists>w'. createManualAttendance None (Body by_hand) class_world = (Inr (manual_item by_hand_entry pupil (Some 1) True), w')"
proof -
  let ?nt = "(u ''student'', itoa (me_student by_hand_entry), entry_detail by_hand_entry)"
  obtain tokens title body w2 where n: "manualNotification by_hand_entry (by_hand_world\<lparr>noted := ?nt\<rparr>) = (Inr (Some (tokens, title, body)), w2)"
    "faults w2 = []" using by_hand_notified by metis
  have i: "insert_id Attendance_Logs (insert_manual by_hand_entry monday) (class_world\<lparr>noted := ?nt\<rparr>) =
      ((Inr 1 :: err + int), by_hand_world\<lparr>noted := ?nt\<rparr>)"
    by (simp add: run_simps insert_manual_def Let_def class_simps by_hand_world_def manual_row_def insert_unique_def)
  have c: "manual_check by_hand_entry (class_world\<lparr>noted := ?nt\<rparr>) = (Inr pupil, class_world\<lparr>noted := ?nt\<rparr>)"
    using by_hand_checked [of False] by (simp add: by_hand_entry_def)
  have r: "record_manual by_hand_entry (class_world\<lparr>noted := ?nt\<rparr>) = (Inr (1, pupil, Some (tokens, title, body)), w2)"
    using c i n by (simp add: record_manual_def bindE_def run_simps lift_err_run class_simps)
      (simp add: by_hand_entry_def)
  obtain w3 t where p: "SendToDevices None tokens title body w2 = (Inr () :: refusal + unit, w3)"
    using pushes_quiet [OF n(2)] by metis
  have e: "me_date by_hand_entry = Date 2026 3 2" "me_dry_run by_hand_entry = False" by (simp_all add: by_hand_entry_def)
  show ?thesis
    by (simp add: createManualAttendance_def bindE_def run_simps class_simps by_hand_parsed e monday_open perform_manual_def
        lift_err_run in_tx_run_nil r n(2) p)
qed

lemma by_hand_previewed:
  "\<exists>v. createManualAttendance None (Body (by_hand\<lparr>mq_dry_run := Some (JBool True)\<rparr>)) class_world =
     (Inr (manual_item (by_hand_entry\<lparr>me_dry_run := True\<rparr>) pupil None True), v) \<and> db v = db class_world"
proof -
  have e: "me_date by_hand_entry = Date 2026 3 2" "me_notify by_hand_entry" "me_student by_hand_entry = 7" by (simp_all add: by_hand_entry_def)
  show ?thesis
    by (simp add: createManualAttendance_def bindE_def run_simps class_simps by_hand_parsed e monday_open preview_manual_def
        lift_err_run by_hand_checked pupil_simps)
qed

theorem manual_punch_counts_witness:
  "\<exists>w' l. createManualAttendance None (Body by_hand) class_world = (Inr (manual_item by_hand_entry pupil (Some 1) True), w') \<and>
     attendance_logs (db w') = [l] \<and> get_student_status (db w') 7 (Date 2026 3 2) = (Present, Some (time12 (l_time l)), None)"
proof -
  obtain w' where run: "createManualAttendance None (Body by_hand) class_world = (Inr (manual_item by_hand_entry pupil (Some 1) True), w')"
    using by_hand_created by blast
  have i: "mi_student (manual_item by_hand_entry pupil (Some 1) True) = 7" "\<not> mi_dry_run (manual_item by_hand_entry pupil (Some 1) True)"
    "mi_type (manual_item by_hand_entry pupil (Some 1) True) = ManualTypeIn" "mi_date (manual_item by_hand_entry pupil (Some 1) True) = ymd (Date 2026 3 2)"
    by (simp_all add: manual_item_def by_hand_entry_def)
  have s: "get_student_status (db class_world) 7 day = (Absent, None, None)" for day
    by (simp add: get_student_status_def check_in_punch_def check_out_punch_def has_leave_def class_simps)
  have p: "prev_day (Date 2026 3 2) = Date 2026 3 1" by simp
  obtain l where l: "attendance_logs (db w') = attendance_logs (db class_world) @ [l]"
    and d: "on_date (l_time l) = on_date monday \<or> on_date (l_time l) = prev_day (on_date monday)" "ymd (on_date (l_time l)) = ymd (Date 2026 3 2)"
    and st: "get_student_status (db w') 7 (on_date (l_time l)) =
      same_day_status (get_student_status (db class_world) 7 (on_date (l_time l))) ManualTypeIn (time12 (l_time l))"
    using manual_punch_counts [OF run i(2) class_simps(11)] unfolding class_simps(2) i using monday_facts(4) by blast
  have "valid_date (Date 2026 3 1)" by (simp add: valid_date_def days_in_def)
  then have "on_date (l_time l) = Date 2026 3 2"
    using d monday_facts p ymd_inject by metis
  with l st run show ?thesis by (auto simp: s same_day_status_def class_simps)
qed

theorem manual_preview_exact_witness:
  "\<exists>v it w'. createManualAttendance None (Body (by_hand\<lparr>mq_dry_run := Some (JBool True)\<rparr>)) class_world =
     (Inr (it\<lparr>mi_id := None, mi_dry_run := True\<rparr>), v) \<and> createManualAttendance None (Body by_hand) class_world = (Inr it, w') \<and> mi_notified it"
proof -
  have b: "by_hand\<lparr>mq_dry_run := None\<rparr> = by_hand" by (simp add: by_hand_def)
  obtain w' where run: "createManualAttendance None (Body by_hand) class_world = (Inr (manual_item by_hand_entry pupil (Some 1) True), w')"
    using by_hand_created by blast
  obtain v where pre: "createManualAttendance None (Body (by_hand\<lparr>mq_dry_run := Some (JBool True)\<rparr>)) class_world =
     (Inr (manual_item (by_hand_entry\<lparr>me_dry_run := True\<rparr>) pupil None True), v)" using by_hand_previewed by blast
  have "good_clock (clock class_world)" by (simp add: class_simps monday_facts)
  from manual_preview_exact [OF pre _ class_simps(11) this class_simps(12)] b run
  have "manual_item (by_hand_entry\<lparr>me_dry_run := True\<rparr>) pupil None True = (manual_item by_hand_entry pupil (Some 1) True)\<lparr>mi_id := None, mi_dry_run := True\<rparr>"
    by metis
  with pre run show ?thesis by (intro exI conjI) (auto simp: manual_item_def)
qed

theorem manual_undo_witness:
  "\<exists>w' r v. createManualAttendance None (Body by_hand) class_world = (Inr (manual_item by_hand_entry pupil (Some 1) True), w') \<and>
     deleteManualAttendance (itoa 1) (quiet (db w') monday) = (Inr r, v) \<and> attendance_logs (db v) = []"
proof -
  obtain w' where run: "createManualAttendance None (Body by_hand) class_world = (Inr (manual_item by_hand_entry pupil (Some 1) True), w')"
    using by_hand_created by blast
  have "good_clock (clock class_world)" by (simp add: class_simps monday_facts)
  from manual_undo [OF run _ class_simps(11) this, of 1 "quiet (db w') monday"] run show ?thesis
    by (auto simp: manual_item_def class_simps)
qed

theorem absences_reported_once_witness:
  "\<exists>w' n. ProcessDailyAbsences None class_world = (Inr () :: err + unit, w') \<and> notifications (db w') = [n] \<and> n_parent n = Some 3"
proof -
  have f: "punched (db class_world) 7 day = False" "has_leave (db class_world) 7 day = False" "school_day (db class_world) (Date 2026 3 2)" for day
    by (simp_all add: punched_def has_leave_def class_simps school_day_def monday_facts)
  have v: "valid_date (on_date (clock class_world))" by (simp add: class_simps monday_facts)
  obtain w' ns t where run: "ProcessDailyAbsences None class_world = (Inr () :: err + unit, w')"
    "db w' = (db class_world)\<lparr>device_tokens := t, notifications := notifications (db class_world) @ ns\<rparr>"
    and ns: "map notice_key ns = (if school_day (db class_world) (on_date (clock class_world)) then
         map (\<lambda>s. (s_parent s, absence_title, absence_body (s_name s), False))
           (filter (\<lambda>s. s_active s \<and> \<not> punched (db class_world) (s_id s) (on_date (clock class_world)) \<and>
              \<not> has_leave (db class_world) (s_id s) (on_date (clock class_world)) \<and>
              (\<exists>p \<in> set (parents (db class_world)). s_parent s = Some (p_id p))) (students (db class_world)))
       else [])"
    using absences_reported_once [OF class_simps(1) v class_simps(11), of None] by (elim exE conjE) (rule that)
  have k: "map notice_key ns = [(Some 3, absence_title, absence_body (u ''Nada''), False)]"
    using ns by (simp add: class_simps monday_facts f pupil_simps)
  from k obtain n where "ns = [n]" "n_parent n = Some 3" by (auto simp: notice_key_def)
  with run show ?thesis by (auto simp: class_simps)
qed

end
