(* ===== verification/Families.thy ===== *)
theory Families
  imports Teachers Broadcasts
begin

text \<open>
  Students and their parents: the admin's student endpoints with \<open>resolveParent\<close> and the free device user id
  (\<open>internal/handlers/admin.go\<close>). bcrypt is a parameter: \<open>hash\<close> gives the hash of a PIN, or nothing when it
  is refused.
\<close>

section \<open>The student payload\<close>

record StudentPayload =
  sp_id :: int
  sp_name :: str
  sp_parent_name :: str
  sp_parent_phone :: str
  sp_parent_pin :: str
  sp_tag :: str
  sp_grade :: "str option"
  sp_section :: "str option"

definition letter_char :: "nat \<Rightarrow> bool" where
  "letter_char c \<longleftrightarrow> 97 \<le> c \<and> c \<le> 122 \<or> 65 \<le> c \<and> c \<le> 90"

definition validParentPin :: "str \<Rightarrow> bool" where
  "validParentPin pin \<longleftrightarrow>
     16 \<le> length pin \<and> length pin \<le> 72 \<and> list_all (\<lambda>c. 33 \<le> c \<and> c \<le> 126) pin \<and> list_ex letter_char pin \<and>
     list_ex is_digit pin \<and> list_ex (\<lambda>c. \<not> letter_char c \<and> \<not> is_digit c) pin"

definition PINFormatMessage :: str where
  "PINFormatMessage = u ''parent_pin must be 16 to 72 characters (ASCII, no spaces) with at least one letter, one digit and one symbol''"

definition PINRequiredMessage :: str where
  "PINRequiredMessage = u ''parent_pin is required for a new parent (parent_phone is not registered yet)''"

definition RFIDTagTakenMessage :: str where
  "RFIDTagTakenMessage = u ''rfid_tag is already used by another student''"

definition RFIDTagRequiredMessage :: str where
  "RFIDTagRequiredMessage = u ''rfid_tag is required''"

definition RFIDTagFormatMessage :: str where
  "RFIDTagFormatMessage = u ''rfid_tag must be digits only (1 to 14, not starting with 0): it must equal the student'' @ [39] @
     u ''s user ID on the ZKTeco device''"

definition RFIDTagStaffMessage :: str where
  "RFIDTagStaffMessage = u ''rfid_tag 1 to 99 is reserved for staff on the device; student IDs start at 100''"

definition rfidTagUniqueIndex :: string where
  "rfidTagUniqueIndex = ''students_rfid_tag_key''"

definition trimStudent :: "StudentPayload \<Rightarrow> StudentPayload" where
  "trimStudent r = r\<lparr>sp_name := TrimSpace (sp_name r), sp_parent_name := TrimSpace (sp_parent_name r),
     sp_parent_phone := TrimSpace (sp_parent_phone r), sp_tag := TrimSpace (sp_tag r)\<rparr>"

definition trimClass :: "StudentPayload \<Rightarrow> StudentPayload" where
  "trimClass r = r\<lparr>sp_grade := map_option TrimSpace (sp_grade r), sp_section := map_option TrimSpace (sp_section r)\<rparr>"

definition student_lengths :: "StudentPayload \<Rightarrow> str" where
  "student_lengths r = firstProblem
     [tooLong (u ''name'') (sp_name r) 100, tooLong (u ''parent_name'') (sp_parent_name r) 255,
      tooLong (u ''parent_phone'') (sp_parent_phone r) 20, tooLong (u ''rfid_tag'') (sp_tag r) 50,
      tooLong (u ''grade'') (case sp_grade r of None \<Rightarrow> [] | Some g \<Rightarrow> g) 50,
      tooLong (u ''section'') (case sp_section r of None \<Rightarrow> [] | Some g \<Rightarrow> g) 50]"

definition validateStudentPayload :: "StudentPayload \<Rightarrow> str + StudentPayload" where
  \<comment> \<open>the first problem, or the payload as trimmed and normalised in place\<close>
  "validateStudentPayload req =
     (let r = trimStudent req in
      if sp_parent_phone r = [] then Inl (u ''parent_phone is required'')
      else if sp_parent_name r = [] then Inl (u ''parent_name is required'')
      else if sp_name r = [] then Inl (u ''name is required'')
      else case Normalize (sp_parent_phone r) of
        None \<Rightarrow> Inl (u InvalidParentPhoneMessage)
      | Some canonical \<Rightarrow>
          if TrimSpace (sp_parent_pin r) \<noteq> [] \<and> \<not> validParentPin (sp_parent_pin r) then Inl PINFormatMessage
          else let q = trimClass (r\<lparr>sp_parent_phone := canonical\<rparr>) in
            if student_lengths q \<noteq> [] then Inl (student_lengths q) else Inr q)"

definition ValidRFIDTag :: "str \<Rightarrow> bool" where
  "ValidRFIDTag tag \<longleftrightarrow>
     (case tag of [] \<Rightarrow> False | c # cs \<Rightarrow> is_digit c \<and> c \<noteq> 48 \<and> list_all is_digit cs \<and> length cs \<le> 13)"

definition studentTagProblem :: "str \<Rightarrow> str" where
  "studentTagProblem tag =
     (if \<not> ValidRFIDTag tag then RFIDTagFormatMessage
      else if length tag < 3 then RFIDTagStaffMessage
      else [])"

section \<open>A free device user id\<close>

definition MaxRFIDTag :: int where "MaxRFIDTag = 99999999999999"

definition numeric_tags :: "db \<Rightarrow> int list" where
  "numeric_tags d = map (\<lambda>s. int (digits_value (s_tag s))) (filter (\<lambda>s. ValidRFIDTag (s_tag s)) (students d))"

definition nextFreeRFIDTag :: "str \<Rightarrow> db \<Rightarrow> str option" where
  \<comment> \<open>\<open>nextFreeRFIDTagSQL\<close>: the least candidate that is no student's tag\<close>
  "nextFreeRFIDTag tag d =
     (let n = int (digits_value tag);
          cand = (n + 1) # map (\<lambda>t. t + 1) (filter (\<lambda>t. n < t) (numeric_tags d)) in
      map_option itoa (first_by (\<lambda>c. c)
        (filter (\<lambda>c. c \<le> MaxRFIDTag \<and> \<not> list_ex (\<lambda>s. s_tag s = itoa c) (students d)) cand)))"

section \<open>Errors of a student write\<close>

datatype student_err = NewParentNeedsPIN | StudentMissing | HashFailed | StudentDB err

datatype student_refusal = Plain refusal | TagTaken "str option"

definition respondRFIDTagTaken :: "str \<Rightarrow> ('e, student_refusal) tx" where
  "respondRFIDTagTaken tag =
     (if ValidRFIDTag tag
      then catchE (bindE (query (nextFreeRFIDTag tag)) (\<lambda>s. ret (TagTaken s))) (\<lambda>_ :: err. ret (TagTaken None))
      else ret (TagTaken None))"

definition respondStudentWriteError :: "student_err \<Rightarrow> str \<Rightarrow> (student_refusal, 'a) tx" where
  \<comment> \<open>with the 404 the \<open>PUT\<close> branch answers before calling it\<close>
  "respondStudentWriteError e tag =
     (case e of
        NewParentNeedsPIN \<Rightarrow> fail (Plain (Refuse 400 PINRequiredMessage))
      | StudentMissing \<Rightarrow> fail (Plain (Refuse 404 (u ''Student not found'')))
      | HashFailed \<Rightarrow> fail (Plain (internal_error ''Internal server error'' Driver))
      | StudentDB f \<Rightarrow>
          if f = unique_violation rfidTagUniqueIndex
          then bindE (respondRFIDTagTaken tag) (\<lambda>r. fail r)
          else fail (Plain (internal_error ''Internal server error'' f)))"

section \<open>Parents\<close>

definition rename_parent :: "str \<Rightarrow> str \<Rightarrow> db \<Rightarrow> err + int option \<times> db" where
  \<comment> \<open>\<open>UPDATE parents SET full_name ... WHERE phone_number ... RETURNING id\<close>\<close>
  "rename_parent name phone d =
     Inr (map_option p_id (find_row (\<lambda>p. p_phone p = phone) (parents d)),
       d\<lparr>parents := upd_where (\<lambda>p. p_phone p = phone) (\<lambda>p. p\<lparr>p_name := name\<rparr>) (parents d)\<rparr>)"

definition upsert_parent :: "str \<Rightarrow> str \<Rightarrow> str \<Rightarrow> int \<Rightarrow> db \<Rightarrow> err + int \<times> db" where
  "upsert_parent name phone pin i d =
     (case find_row (\<lambda>p. p_phone p = phone) (parents d) of
        Some p \<Rightarrow>
          if 2 ^ 31 \<le> p_version p + 1 then Inl (Pg (u ''22003'') [])
          else Inr (p_id p, d\<lparr>parents := upd_where (\<lambda>p. p_phone p = phone)
            (\<lambda>p. p\<lparr>p_name := name, p_pin := pin, p_version := p_version p + 1\<rparr>) (parents d)\<rparr>)
      | None \<Rightarrow>
          if i \<in> p_id ` set (parents d) then Inl (unique_violation ''parents_pkey'')
          else Inr (i, d\<lparr>parents := parents d @
            [\<lparr>p_id = i, p_name = name, p_phone = phone, p_pin = pin, p_version = 0, p_push = True\<rparr>]\<rparr>))"

definition drop_tokens :: "int \<Rightarrow> db \<Rightarrow> db" where
  "drop_tokens i d = d\<lparr>device_tokens := del_where (\<lambda>t. t_parent t = i) (device_tokens d)\<rparr>"

definition resolveParent :: "(str \<Rightarrow> str option) \<Rightarrow> str \<Rightarrow> str \<Rightarrow> str \<Rightarrow> (student_err, int) tx" where
  "resolveParent hash name phone pin =
     (if TrimSpace pin = [] then
        bindE (lift_err StudentDB (with_text [name, phone] (stmt (rename_parent name phone)))) (\<lambda>found.
        of_option NewParentNeedsPIN found)
      else
        bindE (of_option HashFailed (hash pin)) (\<lambda>h.
        bindE (lift_err StudentDB (with_text [name, phone, h] (insert_id Parents (upsert_parent name phone h)))) (\<lambda>i.
        bindE (lift_err StudentDB (exec (drop_tokens i))) (\<lambda>_.
        ret i))))"

section \<open>Writing students\<close>

definition insert_student :: "StudentPayload \<Rightarrow> int \<Rightarrow> stamp \<Rightarrow> int \<Rightarrow> db \<Rightarrow> err + int \<times> db" where
  "insert_student r pid now i d =
     (if i \<in> s_id ` set (students d) then Inl (unique_violation ''students_pkey'')
      else if list_ex (\<lambda>s. s_tag s = sp_tag r) (students d) then Inl (unique_violation rfidTagUniqueIndex)
      else if \<not> list_ex (\<lambda>p. p_id p = pid) (parents d) then Inl (foreign_key_violation ''students_parent_id_fkey'')
      else Inr (i, d\<lparr>students := students d @
        [\<lparr>s_id = i, s_name = sp_name r, s_tag = sp_tag r, s_created = Some (to_micro now), s_grade = sp_grade r,
          s_section = sp_section r, s_avatar = None, s_parent = Some pid, s_active = True\<rparr>]\<rparr>))"

definition keep_stored :: "'a option \<Rightarrow> 'a option \<Rightarrow> 'a option" where
  \<comment> \<open>\<open>COALESCE($n, column)\<close>\<close>
  "keep_stored new old = (case new of None \<Rightarrow> old | Some x \<Rightarrow> Some x)"

definition changed_student :: "StudentPayload \<Rightarrow> int \<Rightarrow> student \<Rightarrow> student" where
  "changed_student r pid s =
     s\<lparr>s_name := sp_name r, s_tag := (if sp_tag r = [] then s_tag s else sp_tag r), s_parent := Some pid,
       s_grade := keep_stored (sp_grade r) (s_grade s), s_section := keep_stored (sp_section r) (s_section s)\<rparr>"

definition update_student :: "StudentPayload \<Rightarrow> int \<Rightarrow> db \<Rightarrow> err + bool \<times> db" where
  \<comment> \<open>whether a row was affected\<close>
  "update_student r pid d =
     (let hit = list_ex (\<lambda>s. s_id s = sp_id r) (students d) in
      if hit \<and> sp_tag r \<noteq> [] \<and> list_ex (\<lambda>s. s_id s \<noteq> sp_id r \<and> s_tag s = sp_tag r) (students d)
      then Inl (unique_violation rfidTagUniqueIndex)
      else if hit \<and> \<not> list_ex (\<lambda>p. p_id p = pid) (parents d) then Inl (foreign_key_violation ''students_parent_id_fkey'')
      else Inr (hit, d\<lparr>students := upd_where (\<lambda>s. s_id s = sp_id r) (changed_student r pid) (students d)\<rparr>))"

definition student_texts :: "StudentPayload \<Rightarrow> str list" where
  "student_texts r = [sp_name r, sp_tag r] @ opt_list (sp_grade r) @ opt_list (sp_section r)"

definition create_student :: "(str \<Rightarrow> str option) \<Rightarrow> StudentPayload \<Rightarrow> (student_err, int) tx" where
  \<comment> \<open>the transaction of \<open>POST\<close>\<close>
  "create_student hash r =
     bindE (resolveParent hash (sp_parent_name r) (sp_parent_phone r) (sp_parent_pin r)) (\<lambda>pid.
     bindE get_clock (\<lambda>now.
     lift_err StudentDB (with_text (student_texts r) (insert_id Students (insert_student r pid now)))))"

definition change_student :: "(str \<Rightarrow> str option) \<Rightarrow> StudentPayload \<Rightarrow> (student_err, unit) tx" where
  \<comment> \<open>the transaction of \<open>PUT\<close>\<close>
  "change_student hash r =
     bindE (resolveParent hash (sp_parent_name r) (sp_parent_phone r) (sp_parent_pin r)) (\<lambda>pid.
     bindE (lift_err StudentDB (with_int4 [sp_id r] (with_text (student_texts r) (stmt (update_student r pid))))) (\<lambda>hit.
     guard hit StudentMissing))"

definition or_refuse :: "(student_err, 'a) tx \<Rightarrow> str \<Rightarrow> (student_refusal, 'a) tx" where
  "or_refuse m tag =
     bindE (attempt m) (\<lambda>res. case res of Inl e \<Rightarrow> respondStudentWriteError e tag | Inr x \<Rightarrow> ret x)"

definition save_new_student :: "(str \<Rightarrow> str option) \<Rightarrow> StudentPayload \<Rightarrow> (student_refusal, StudentPayload) tx" where
  \<comment> \<open>\<open>POST\<close> once the payload is validated\<close>
  "save_new_student hash r =
     bindE (guard (sp_tag r \<noteq> []) (Plain (Refuse 400 RFIDTagRequiredMessage))) (\<lambda>_.
     bindE (guard (studentTagProblem (sp_tag r) = []) (Plain (Refuse 400 (studentTagProblem (sp_tag r))))) (\<lambda>_.
     bindE (or_refuse (in_tx StudentDB (create_student hash r)) (sp_tag r)) (\<lambda>i.
     bindE (NoteActivity (u ''student'') (itoa i) []) (\<lambda>_.
     ret (r\<lparr>sp_id := i, sp_parent_pin := []\<rparr>)))))"

definition post_student :: "(str \<Rightarrow> str option) \<Rightarrow> StudentPayload body \<Rightarrow> (student_refusal, StudentPayload) tx" where
  "post_student hash b =
     bindE (lift_err Plain (of_sum (decodeJSONBody b (u ''Invalid request body'')))) (\<lambda>req.
     bindE (lift_err (\<lambda>m. Plain (Refuse 400 m)) (of_sum (validateStudentPayload req))) (save_new_student hash))"

definition stored_tag :: "int \<Rightarrow> db \<Rightarrow> str option" where
  "stored_tag i d = map_option s_tag (find_row (\<lambda>s. s_id s = i) (students d))"

definition keep_odd_tag :: "str \<Rightarrow> StudentPayload \<Rightarrow> (student_refusal, StudentPayload) tx" where
  \<comment> \<open>a tag that breaks the rule is let through when the student has it already, and is then left alone\<close>
  "keep_odd_tag rawTag r =
     (if sp_tag r \<noteq> [] \<and> studentTagProblem (sp_tag r) \<noteq> [] then
        bindE (lift_err (\<lambda>e. Plain (internal_error ''Internal server error'' e))
          (with_int4 [sp_id r] (query (stored_tag (sp_id r))))) (\<lambda>stored.
        bindE (guard (stored = Some rawTag \<or> stored = Some (sp_tag r)) (Plain (Refuse 400 (studentTagProblem (sp_tag r))))) (\<lambda>_.
        ret (r\<lparr>sp_tag := []\<rparr>)))
      else ret r)"

definition save_changed_student :: "(str \<Rightarrow> str option) \<Rightarrow> str \<Rightarrow> StudentPayload \<Rightarrow> (student_refusal, unit) tx" where
  \<comment> \<open>\<open>PUT\<close> once the payload is validated\<close>
  "save_changed_student hash rawTag r =
     bindE (keep_odd_tag rawTag r) (\<lambda>q.
     or_refuse (in_tx StudentDB (change_student hash q)) (sp_tag q))"

definition put_student :: "(str \<Rightarrow> str option) \<Rightarrow> StudentPayload body \<Rightarrow> (student_refusal, unit) tx" where
  "put_student hash b =
     bindE (lift_err Plain (of_sum (decodeJSONBody b (u ''Invalid request body or missing ID'')))) (\<lambda>req.
     bindE (guard (sp_id req \<noteq> 0) (Plain (bad_request ''Invalid request body or missing ID''))) (\<lambda>_.
     bindE (if 0 < sp_id req then NoteActivity (u ''student'') (itoa (sp_id req)) [] else ret ()) (\<lambda>_.
     bindE (lift_err (\<lambda>m. Plain (Refuse 400 m)) (of_sum (validateStudentPayload req)))
       (save_changed_student hash (sp_tag req)))))"

definition positiveIDParam :: "str \<Rightarrow> str" where
  "positiveIDParam param = (case Atoi param of Some i \<Rightarrow> if 1 \<le> i then itoa i else [] | None \<Rightarrow> [])"

definition retire_student :: "int \<Rightarrow> db \<Rightarrow> bool \<times> db" where
  "retire_student i d =
     (list_ex (\<lambda>s. s_id s = i) (students d),
      d\<lparr>students := upd_where (\<lambda>s. s_id s = i) (\<lambda>s. s\<lparr>s_active := False\<rparr>) (students d)\<rparr>)"

definition delete_student :: "str \<Rightarrow> (student_refusal, unit) tx" where
  "delete_student param =
     bindE (if positiveIDParam param \<noteq> [] then NoteActivity (u ''student'') (positiveIDParam param) [] else ret ()) (\<lambda>_.
     bindE (of_option (Plain (bad_request ''Invalid student ID'')) (Atoi param)) (\<lambda>i.
     bindE (guard (i \<noteq> 0) (Plain (bad_request ''Invalid student ID''))) (\<lambda>_.
     bindE (lift_err (\<lambda>e. Plain (internal_error ''Internal server error'' e))
       (with_int4 [i] (stmt (\<lambda>d. Inr (retire_student i d))))) (\<lambda>hit.
     guard hit (Plain (Refuse 404 (u ''Student not found'')))))))"

definition listed_student :: "db \<Rightarrow> student \<Rightarrow> StudentPayload" where
  "listed_student d s =
     (let p = Option.bind (s_parent s) (\<lambda>i. find_row (\<lambda>p. p_id p = i) (parents d)) in
      \<lparr>sp_id = s_id s, sp_name = s_name s, sp_parent_name = (case p of None \<Rightarrow> [] | Some q \<Rightarrow> p_name q),
       sp_parent_phone = (case p of None \<Rightarrow> [] | Some q \<Rightarrow> p_phone q), sp_parent_pin = [], sp_tag = s_tag s,
       sp_grade = s_grade s, sp_section = s_section s\<rparr>)"

definition list_students :: "db \<Rightarrow> StudentPayload list" where
  "list_students d = map (listed_student d) (rev (sort_key s_id (filter s_active (students d))))"

datatype student_reply = StudentList "StudentPayload list" | StudentCreated StudentPayload | StudentUpdated | StudentDeleted

definition AdminStudentsHandler ::
    "(str \<Rightarrow> str option) \<Rightarrow> meth \<Rightarrow> str \<Rightarrow> StudentPayload body \<Rightarrow> (student_refusal, student_reply) tx" where
  "AdminStudentsHandler hash verb param b =
     (case verb of
        GET \<Rightarrow> bindE (lift_err (\<lambda>e. Plain (internal_error ''Database error'' e)) (query list_students)) (\<lambda>l. ret (StudentList l))
      | POST \<Rightarrow> bindE (post_student hash b) (\<lambda>r. ret (StudentCreated r))
      | PUT \<Rightarrow> bindE (put_student hash b) (\<lambda>_. ret StudentUpdated)
      | DELETE \<Rightarrow> bindE (delete_student param) (\<lambda>_. ret StudentDeleted)
      | OtherMethod \<Rightarrow> fail (Plain method_not_allowed))"

section \<open>What the tables keep\<close>

definition parents_ok :: "db \<Rightarrow> bool" where
  "parents_ok d \<longleftrightarrow>
     unique_key p_id (parents d) \<and> unique_key p_phone (parents d) \<and>
     (\<forall>p \<in> set (parents d). Normalize (p_phone p) = Some (p_phone p))"

definition children_ok :: "db \<Rightarrow> bool" where
  "children_ok d \<longleftrightarrow>
     unique_key s_id (students d) \<and> unique_key s_tag (students d) \<and>
     (\<forall>s \<in> set (students d). \<forall>i. s_parent s = Some i \<longrightarrow> i \<in> p_id ` set (parents d))"

definition staff_apart :: "db \<Rightarrow> bool" where
  "staff_apart d \<longleftrightarrow> tags_apart d \<and> (\<forall>t \<in> set (teachers d). \<forall>tag. e_tag t = Some tag \<longrightarrow> teacherTagRE tag)"

definition families_ok :: "db \<Rightarrow> bool" where
  "families_ok d \<longleftrightarrow> parents_ok d \<and> children_ok d \<and> staff_apart d"

lemma families_okI: "parents_ok d \<Longrightarrow> children_ok d \<Longrightarrow> staff_apart d \<Longrightarrow> families_ok d"
  by (simp add: families_ok_def)

lemma families_blind: "blind_to_notices families_ok"
  by (simp add: blind_to_notices_def families_ok_def parents_ok_def children_ok_def staff_apart_def tags_apart_def)

lemma unique_upd_key:
  assumes key: "unique_key key rs" and k: "unique_key k rs"
    and new: "\<And>r. r \<in> set rs \<Longrightarrow> key r = v \<Longrightarrow> k (f r) = k r \<or> (\<forall>q \<in> set rs. key q \<noteq> v \<longrightarrow> k q \<noteq> k (f r))"
  shows "unique_key k (upd_where (\<lambda>r. key r = v) f rs)"
proof (cases "\<exists>r \<in> set rs. key r = v")
  case False
  then have "upd_where (\<lambda>r. key r = v) f rs = rs" by (auto simp: upd_where_def intro: map_idI)
  with k show ?thesis by simp
next
  case True
  then obtain r where r: "r \<in> set rs" "key r = v" by blast
  have one: "q = r" if "q \<in> set rs" "key q = v" for q
    using key that r by (auto simp: unique_key_def distinct_map dest: inj_onD)
  then have "upd_where (\<lambda>r. key r = v) f rs = upd_where (\<lambda>r. key r = v) (\<lambda>_. f r) rs"
    by (auto simp: upd_where_def)
  moreover have "k (f r) \<notin> k ` set (del_where (\<lambda>r. key r = v) rs)"
    using new [OF r] k r by (auto simp: unique_key_def distinct_map dest: inj_onD)
  ultimately show ?thesis
    using k count_key_le_1 [OF key, of v] by (simp add: unique_key_def distinct_upd_const)
qed

lemma student_tag_long: "studentTagProblem tag = [] \<Longrightarrow> 3 \<le> length tag"
  by (simp add: studentTagProblem_def RFIDTagFormatMessage_def RFIDTagStaffMessage_def split: if_splits)

lemma teacher_tag_short: "teacherTagRE tag \<Longrightarrow> length tag \<le> 2"
  by (induction tag rule: teacherTagRE.induct) auto

lemma parents_written:
  assumes "families_ok d" and "map p_id ps = map p_id (parents d)" "map p_phone ps = map p_phone (parents d)"
  shows "families_ok (d\<lparr>parents := ps\<rparr>)"
proof (rule families_okI)
  have i: "p_id ` set ps = p_id ` set (parents d)" using assms(2) by (metis list.set_map)
  have f: "p_phone ` set ps = p_phone ` set (parents d)" using assms(3) by (metis list.set_map)
  have "\<forall>f \<in> p_phone ` set (parents d). Normalize f = Some f" using assms(1) by (simp add: families_ok_def parents_ok_def)
  then have "\<forall>f \<in> p_phone ` set ps. Normalize f = Some f" by (simp only: f)
  then show "parents_ok (d\<lparr>parents := ps\<rparr>)"
    using assms by (simp add: families_ok_def parents_ok_def unique_key_def)
  show "children_ok (d\<lparr>parents := ps\<rparr>)" using assms i by (simp add: families_ok_def children_ok_def)
  show "staff_apart (d\<lparr>parents := ps\<rparr>)" using assms by (simp add: families_ok_def staff_apart_def tags_apart_def)
qed

lemma rename_keeps: "families_ok d \<Longrightarrow> rename_parent name phone d = Inr (x, d') \<Longrightarrow> families_ok d'"
  by (auto simp: rename_parent_def map_upd_where intro!: parents_written)

lemma upsert_keeps:
  assumes d: "families_ok d" and "Normalize phone = Some phone" and run: "upsert_parent name phone pin i d = Inr (x, d')"
  shows "families_ok d'"
proof (cases "find_row (\<lambda>p. p_phone p = phone) (parents d)")
  case (Some p)
  with run d show ?thesis by (auto simp: upsert_parent_def map_upd_where split: if_splits intro!: parents_written)
next
  case None
  let ?p = "\<lparr>p_id = i, p_name = name, p_phone = phone, p_pin = pin, p_version = 0, p_push = True\<rparr>"
  have new: "i \<notin> p_id ` set (parents d)" "phone \<notin> p_phone ` set (parents d)" and d': "d' = d\<lparr>parents := parents d @ [?p]\<rparr>"
    using run None by (auto simp: upsert_parent_def find_row_None split: if_splits)
  show ?thesis
    unfolding d'
  proof (rule families_okI)
    show "parents_ok (d\<lparr>parents := parents d @ [?p]\<rparr>)"
      using d new assms(2) by (auto simp: families_ok_def parents_ok_def unique_key_def)
    show "children_ok (d\<lparr>parents := parents d @ [?p]\<rparr>)" using d by (auto simp: families_ok_def children_ok_def)
    show "staff_apart (d\<lparr>parents := parents d @ [?p]\<rparr>)" using d by (simp add: families_ok_def staff_apart_def tags_apart_def)
  qed
qed

lemma staff_apart_students:
  assumes "staff_apart d" "\<And>s. s \<in> set ss \<Longrightarrow> s_tag s \<in> s_tag ` set (students d) \<or> 3 \<le> length (s_tag s)"
  shows "staff_apart (d\<lparr>students := ss\<rparr>)"
  unfolding staff_apart_def tags_apart_def
proof (intro conjI ballI allI impI)
  fix t s
  assume t: "t \<in> set (teachers (d\<lparr>students := ss\<rparr>))" and s: "s \<in> set (students (d\<lparr>students := ss\<rparr>))"
  show "e_tag t \<noteq> Some (s_tag s)"
  proof
    assume e: "e_tag t = Some (s_tag s)"
    then have "length (s_tag s) \<le> 2" using assms(1) t by (auto simp: staff_apart_def intro: teacher_tag_short)
    then have "s_tag s \<in> s_tag ` set (students d)" using assms(2) [of s] s by auto
    then show False using assms(1) t e by (auto simp: staff_apart_def tags_apart_def)
  qed
qed (use assms(1) in \<open>auto simp: staff_apart_def\<close>)

lemma insert_student_keeps:
  assumes d: "families_ok d" and tag: "studentTagProblem (sp_tag r) = []" and run: "insert_student r pid now i d = Inr (x, d')"
  shows "families_ok d'"
proof -
  obtain s where s: "d' = d\<lparr>students := students d @ [s]\<rparr>" "s_id s = i" "s_tag s = sp_tag r" "s_parent s = Some pid"
    and new: "i \<notin> s_id ` set (students d)" "sp_tag r \<notin> s_tag ` set (students d)" "pid \<in> p_id ` set (parents d)"
    by (rule that [of "\<lparr>s_id = i, s_name = sp_name r, s_tag = sp_tag r, s_created = Some (to_micro now),
        s_grade = sp_grade r, s_section = sp_section r, s_avatar = None, s_parent = Some pid, s_active = True\<rparr>"])
      (use run in \<open>auto simp: insert_student_def list_ex_iff split: if_splits\<close>)
  have "staff_apart d'"
    unfolding s(1) using d student_tag_long [OF tag] by (intro staff_apart_students) (auto simp: families_ok_def s(3))
  moreover have "children_ok d'" "parents_ok d'"
    using d new s by (auto simp: families_ok_def children_ok_def parents_ok_def unique_key_def)
  ultimately show ?thesis by (simp add: families_ok_def)
qed

lemma update_student_keeps:
  assumes d: "families_ok d" and tag: "sp_tag r = [] \<or> studentTagProblem (sp_tag r) = []"
    and run: "update_student r pid d = Inr (hit, d')"
  shows "families_ok d'"
proof -
  let ?f = "changed_student r pid" and ?p = "\<lambda>s. s_id s = sp_id r"
  have d': "d' = d\<lparr>students := upd_where ?p ?f (students d)\<rparr>"
    and par: "\<And>s. s \<in> set (students d) \<Longrightarrow> ?p s \<Longrightarrow> pid \<in> p_id ` set (parents d)"
    and other: "\<And>s. s \<in> set (students d) \<Longrightarrow> sp_tag r \<noteq> [] \<Longrightarrow> \<exists>q \<in> set (students d). ?p q \<Longrightarrow> \<not> ?p s \<Longrightarrow> s_tag s \<noteq> sp_tag r"
    using run by (auto simp: update_student_def Let_def list_ex_iff split: if_splits)
  have ids: "unique_key s_id (students d)" "unique_key s_tag (students d)"
    using d by (auto simp: families_ok_def children_ok_def)
  have "staff_apart d'"
    unfolding d'
  proof (rule staff_apart_students)
    fix s assume "s \<in> set (upd_where ?p ?f (students d))"
    then show "s_tag s \<in> s_tag ` set (students d) \<or> 3 \<le> length (s_tag s)"
      using tag student_tag_long [of "sp_tag r"] by (auto simp: set_upd_where changed_student_def)
  qed (use d in \<open>simp add: families_ok_def\<close>)
  moreover have "children_ok d'"
    unfolding children_ok_def
  proof (intro conjI ballI allI impI)
    show "unique_key s_id (students d')" using ids(1) by (simp add: d' unique_key_def map_upd_where changed_student_def)
    show "unique_key s_tag (students d')"
      unfolding d' student_tags.rows_put
    proof (rule unique_upd_key [OF ids])
      fix s assume "s \<in> set (students d)" "?p s"
      then show "s_tag (?f s) = s_tag s \<or> (\<forall>q \<in> set (students d). \<not> ?p q \<longrightarrow> s_tag q \<noteq> s_tag (?f s))"
        using other by (auto simp: changed_student_def)
    qed
    fix s i assume "s \<in> set (students d')" "s_parent s = Some i"
    then show "i \<in> p_id ` set (parents d')"
      using d par by (auto simp: d' set_upd_where changed_student_def families_ok_def children_ok_def)
  qed
  moreover have "parents_ok d'" using d by (simp add: d' families_ok_def parents_ok_def)
  ultimately show ?thesis by (simp add: families_ok_def)
qed

lemma keeps_respondStudentWriteError: "keeps P (respondStudentWriteError e tag)"
  unfolding respondStudentWriteError_def respondRFIDTagTaken_def
  by (cases e) (auto intro!: keeping)

lemma keeps_or_refuse: "keeps P m \<Longrightarrow> keeps P (or_refuse m tag)"
  unfolding or_refuse_def by (intro keeping keeps_respondStudentWriteError)

lemma keeps_resolveParent:
  assumes "Normalize phone = Some phone"
  shows "keeps families_ok (resolveParent hash name phone pin)"
  unfolding resolveParent_def
  by (intro keeping; (erule (1) rename_keeps | erule upsert_keeps [OF _ assms], assumption)?)
    (use families_blind in \<open>auto simp: drop_tokens_def blind_to_notices_def\<close>)

lemma validated_phone:
  assumes "validateStudentPayload req = Inr r"
  shows "Normalize (sp_parent_phone r) = Some (sp_parent_phone r)"
proof -
  obtain canonical where "Normalize (sp_parent_phone (trimStudent req)) = Some canonical" "sp_parent_phone r = canonical"
    using assms by (auto simp: validateStudentPayload_def Let_def trimClass_def split: if_splits option.splits)
  then show ?thesis by (auto simp: Normalize_iff [of "sp_parent_phone _"] Normalize_fixed)
qed

lemma keeps_create_student:
  assumes "studentTagProblem (sp_tag r) = []" "Normalize (sp_parent_phone r) = Some (sp_parent_phone r)"
  shows "keeps families_ok (create_student hash r)"
  unfolding create_student_def
  by (intro keeping keeps_resolveParent assms) (erule insert_student_keeps, rule assms, assumption)

lemma keeps_change_student:
  assumes "sp_tag r = [] \<or> studentTagProblem (sp_tag r) = []" "Normalize (sp_parent_phone r) = Some (sp_parent_phone r)"
  shows "keeps families_ok (change_student hash r)"
  unfolding change_student_def
  by (intro keeping with_int4_laws(1) keeps_resolveParent assms) (erule update_student_keeps, rule assms, assumption)

lemma keep_odd_tag_ok:
  "keep_odd_tag rawTag r w = (Inr q, w') \<Longrightarrow>
     (sp_tag q = [] \<or> studentTagProblem (sp_tag q) = []) \<and> sp_parent_phone q = sp_parent_phone r"
  by (auto simp: keep_odd_tag_def ok_iffs split: if_splits)

lemma keeps_keep_odd_tag: "keeps P (keep_odd_tag rawTag r)"
  unfolding keep_odd_tag_def by (intro keeping with_int4_laws(1))

lemma keeps_validated:
  assumes "\<And>r. Normalize (sp_parent_phone r) = Some (sp_parent_phone r) \<Longrightarrow> keeps P (f r)"
  shows "keeps P (bindE (lift_err g (of_sum (validateStudentPayload req))) f)"
  by (rule keeps_bind_post [where Q = "\<lambda>r. Normalize (sp_parent_phone r) = Some (sp_parent_phone r)"])
    (auto intro!: keeping assms simp: ok_iffs dest: validated_phone)

lemma keeps_save_changed:
  assumes "Normalize (sp_parent_phone r) = Some (sp_parent_phone r)"
  shows "keeps families_ok (save_changed_student hash rawTag r)"
  unfolding save_changed_student_def
  by (rule keeps_bind_post [OF keeps_keep_odd_tag, OF keep_odd_tag_ok], assumption)
    (use assms in \<open>auto intro!: keeps_or_refuse keeps_in_tx keeps_keeps_ok keeps_change_student\<close>)

lemma keeps_save_new:
  assumes "Normalize (sp_parent_phone r) = Some (sp_parent_phone r)"
  shows "keeps families_ok (save_new_student hash r)"
  unfolding save_new_student_def
  by (intro keeps_guard_then keeps_bindE keeps_NoteActivity keeps_ret keeps_or_refuse keeps_in_tx keeps_keeps_ok
      keeps_create_student assms)

lemma keeps_put_student: "keeps families_ok (put_student hash b)"
  unfolding put_student_def
  by (intro keeps_bindE keeps_guard keeps_if keeps_lift_err keeps_of_sum keeps_NoteActivity keeps_ret keeps_validated
      keeps_save_changed)

lemma keeps_post_student: "keeps families_ok (post_student hash b)"
  unfolding post_student_def
  by (intro keeps_bindE keeps_lift_err keeps_of_sum keeps_validated keeps_save_new)

lemma retire_keeps: "families_ok d \<Longrightarrow> retire_student i d = (hit, d') \<Longrightarrow> families_ok d'"
proof -
  let ?ss = "upd_where (\<lambda>s. s_id s = i) (\<lambda>s. s\<lparr>s_active := False\<rparr>) (students d)"
  assume d: "families_ok d" and "retire_student i d = (hit, d')"
  then have d': "d' = d\<lparr>students := ?ss\<rparr>" by (simp add: retire_student_def)
  have "staff_apart (d\<lparr>students := ?ss\<rparr>)"
    using d by (intro staff_apart_students) (auto simp: families_ok_def set_upd_where)
  moreover have "children_ok (d\<lparr>students := ?ss\<rparr>)"
    using d by (auto simp: families_ok_def children_ok_def unique_key_def map_upd_where set_upd_where)
  ultimately show ?thesis using d by (simp add: d' families_ok_def parents_ok_def)
qed

lemma keeps_students_handler: "keeps families_ok (AdminStudentsHandler hash verb param b)"
proof -
  have "keeps families_ok (delete_student param)"
    unfolding delete_student_def by (intro keeping with_int4_laws(1)) (auto intro: retire_keeps)
  then show ?thesis
    unfolding AdminStudentsHandler_def
    by (cases verb) (auto intro!: keeps_bindE keeps_lift_err keeps_query keeps_ret keeps_fail keeps_put_student keeps_post_student)
qed

section \<open>A new PIN signs the parent out\<close>

definition follows :: "db \<Rightarrow> parent \<Rightarrow> parent \<Rightarrow> bool" where
  \<comment> \<open>q is what p has become: the same parent, whose PIN changed only with the session version, and then without phones\<close>
  "follows d p q \<longleftrightarrow>
     p_id q = p_id p \<and> p_phone q = p_phone p \<and> p_push q = p_push p \<and> p_version p \<le> p_version q \<and>
     (if p_version q = p_version p then p_pin q = p_pin p else \<forall>t \<in> set (device_tokens d). t_parent t \<noteq> p_id p)"

definition signed_out :: "db \<Rightarrow> db \<Rightarrow> bool" where
  "signed_out d0 d \<longleftrightarrow> (\<forall>p \<in> set (parents d0). \<exists>q \<in> set (parents d). follows d p q)"

definition tracked :: "db \<Rightarrow> db \<Rightarrow> bool" where
  "tracked d0 d \<longleftrightarrow> families_ok d \<and> signed_out d0 d"

lemma signed_out_self: "signed_out d d"
  by (auto simp: signed_out_def follows_def)

lemma signed_out_frame: "signed_out d0 d \<Longrightarrow> parents d' = parents d \<Longrightarrow> device_tokens d' = device_tokens d \<Longrightarrow> signed_out d0 d'"
  by (simp only: signed_out_def follows_def)

lemma signed_out_rename:
  assumes "signed_out d0 d" "rename_parent name phone d = Inr (x, d')"
  shows "signed_out d0 d'"
  unfolding signed_out_def
proof
  fix p assume "p \<in> set (parents d0)"
  with assms(1) obtain q where q: "q \<in> set (parents d)" "follows d p q" by (auto simp: signed_out_def)
  let ?q = "if p_phone q = phone then q\<lparr>p_name := name\<rparr> else q"
  have "?q \<in> set (parents d')" using assms(2) q(1) by (auto simp: rename_parent_def upd_where_def)
  moreover have "follows d' p ?q" using assms(2) q(2) by (auto simp: rename_parent_def follows_def)
  ultimately show "\<exists>q \<in> set (parents d'). follows d' p q" by blast
qed

lemma signed_out_upsert:
  assumes "signed_out d0 d" "families_ok d" "upsert_parent name phone h i d = Inr (j, d')"
  shows "signed_out d0 (drop_tokens j d')"
  unfolding signed_out_def
proof
  fix p assume "p \<in> set (parents d0)"
  with assms(1) obtain q where q: "q \<in> set (parents d)" "follows d p q" by (auto simp: signed_out_def)
  have k: "device_tokens d' = device_tokens d" using assms(3) by (auto simp: upsert_parent_def split: option.splits if_splits)
  show "\<exists>q \<in> set (parents (drop_tokens j d')). follows (drop_tokens j d') p q"
  proof (cases "p_phone q = phone")
    case True
    have "find_row (\<lambda>p. p_phone p = phone) (parents d) = Some q"
      using assms(2) q(1) True by (intro parent_phones.find_by_key) (auto simp: families_ok_def parents_ok_def)
    then have j: "j = p_id q" and d': "d' = d\<lparr>parents := upd_where (\<lambda>p. p_phone p = phone)
        (\<lambda>p. p\<lparr>p_name := name, p_pin := h, p_version := p_version p + 1\<rparr>) (parents d)\<rparr>"
      using assms(3) by (auto simp: upsert_parent_def split: if_splits)
    let ?q = "q\<lparr>p_name := name, p_pin := h, p_version := p_version q + 1\<rparr>"
    have "?q \<in> set (parents (drop_tokens j d'))" using q(1) True by (auto simp: d' drop_tokens_def set_upd_where)
    moreover have "follows (drop_tokens j d') p ?q" using q(2) j by (auto simp: follows_def drop_tokens_def)
    ultimately show ?thesis by blast
  next
    case False
    then have "q \<in> set (parents (drop_tokens j d'))"
      using assms(3) q(1) by (auto simp: upsert_parent_def drop_tokens_def set_upd_where split: option.splits if_splits)
    moreover have "follows (drop_tokens j d') p q" using q(2) k by (auto simp: follows_def drop_tokens_def)
    ultimately show ?thesis by blast
  qed
qed

lemma tracked_resolveParent:
  assumes "Normalize phone = Some phone"
  shows "keeps_ok (tracked d0) (resolveParent hash name phone pin)"
proof (rule keeps_okI)
  fix w i w'
  assume t: "tracked d0 (db w)" and run: "resolveParent hash name phone pin w = (Inr i, w')"
  have f: "families_ok (db w')"
    using keepsD [OF keeps_resolveParent [OF assms] _ run] t by (simp add: tracked_def)
  have "signed_out d0 (db w')"
  proof (cases "TrimSpace pin = []")
    case True
    then obtain x where "rename_parent name phone (db w) = Inr (x, db w')"
      using run by (auto simp: resolveParent_def ok_iffs dest!: with_text_ok elim!: stmt_ok)
    with t show ?thesis by (auto simp: tracked_def intro: signed_out_rename)
  next
    case False
    then obtain h k j d' where "upsert_parent name phone h k (db w) = Inr (j, d')" "db w' = drop_tokens j d'"
      using run by (auto simp: resolveParent_def ok_iffs exec_ok dest!: with_text_ok elim!: insert_id_ok)
    with t show ?thesis by (auto simp: tracked_def intro: signed_out_upsert)
  qed
  with f show "tracked d0 (db w')" by (simp add: tracked_def)
qed

lemma tracked_create_student:
  assumes "studentTagProblem (sp_tag r) = []" "Normalize (sp_parent_phone r) = Some (sp_parent_phone r)"
  shows "keeps_ok (tracked d0) (create_student hash r)"
  unfolding create_student_def
proof (intro keeps_ok_bindE tracked_resolveParent assms keeps_keeps_ok keeps_get_clock keeps_lift_err keeps_with_text keeps_insert_id)
  fix pid now d i x d'
  assume d: "tracked d0 d" and run: "insert_student r pid now i d = Inr (x, d')"
  then have "parents d' = parents d" "device_tokens d' = device_tokens d" by (auto simp: insert_student_def split: if_splits)
  with d show "tracked d0 d'"
    using insert_student_keeps [OF _ assms(1) run] signed_out_frame unfolding tracked_def by metis
qed

lemma tracked_change_student:
  assumes "sp_tag r = [] \<or> studentTagProblem (sp_tag r) = []" "Normalize (sp_parent_phone r) = Some (sp_parent_phone r)"
  shows "keeps_ok (tracked d0) (change_student hash r)"
  unfolding change_student_def
proof (intro keeps_ok_bindE tracked_resolveParent assms keeps_keeps_ok keeps_guard keeps_lift_err keeps_with_text
    with_int4_laws(1) keeps_stmt)
  fix pid d x d'
  assume d: "tracked d0 d" and run: "update_student r pid d = Inr (x, d')"
  then have "parents d' = parents d" "device_tokens d' = device_tokens d"
    by (auto simp: update_student_def Let_def split: if_splits)
  with d show "tracked d0 d'"
    using update_student_keeps [OF _ assms(1) run] signed_out_frame unfolding tracked_def by metis
qed

lemma tracked_students_handler: "keeps (tracked d0) (AdminStudentsHandler hash verb param b)"
proof -
  have "keeps (tracked d0) (save_new_student hash r)"
    if "Normalize (sp_parent_phone r) = Some (sp_parent_phone r)" for r
    unfolding save_new_student_def
    by (intro keeps_guard_then keeps_bindE keeps_NoteActivity keeps_ret keeps_or_refuse keeps_in_tx tracked_create_student that)
  then have "keeps (tracked d0) (post_student hash b)"
    unfolding post_student_def by (intro keeps_bindE keeps_lift_err keeps_of_sum keeps_validated)
  moreover have "keeps (tracked d0) (save_changed_student hash rawTag r)"
    if "Normalize (sp_parent_phone r) = Some (sp_parent_phone r)" for rawTag r
    unfolding save_changed_student_def
    by (rule keeps_bind_post [OF keeps_keep_odd_tag, OF keep_odd_tag_ok], assumption)
      (use that in \<open>auto intro!: keeps_or_refuse keeps_in_tx tracked_change_student\<close>)
  then have "keeps (tracked d0) (put_student hash b)"
    unfolding put_student_def
    by (intro keeps_bindE keeps_guard keeps_if keeps_lift_err keeps_of_sum keeps_NoteActivity keeps_ret keeps_validated)
  moreover have "tracked d0 d'" if "tracked d0 d" "retire_student i d = (hit, d')" for d i hit d'
  proof -
    have "parents d' = parents d" "device_tokens d' = device_tokens d" using that(2) by (auto simp: retire_student_def)
    then show ?thesis
      using that retire_keeps signed_out_frame unfolding tracked_def by metis
  qed
  then have "keeps (tracked d0) (delete_student param)"
    unfolding delete_student_def by (intro keeping with_int4_laws(1)) auto
  ultimately show ?thesis
    unfolding AdminStudentsHandler_def
    by (cases verb) (auto intro!: keeps_bindE keeps_lift_err keeps_query keeps_ret keeps_fail)
qed

section \<open>The suggested device user id\<close>

definition taken :: "db \<Rightarrow> int \<Rightarrow> bool" where
  "taken d c \<longleftrightarrow> list_ex (\<lambda>s. s_tag s = itoa c) (students d)"

lemma digits_of_length: "n < 10 ^ Suc k \<Longrightarrow> length (digits_of n) \<le> Suc k"
proof (induction k arbitrary: n)
  case 0
  then show ?case by (subst digits_of.simps) simp
next
  case (Suc k)
  show ?case
  proof (cases "n < 10")
    case True
    then show ?thesis by (subst digits_of.simps) simp
  next
    case False
    have "n div 10 < 10 ^ Suc k" using Suc.prems by (simp add: less_mult_imp_div_less)
    with False Suc.IH show ?thesis by (subst digits_of.simps) simp
  qed
qed

lemma digits_of_head: "0 < n \<Longrightarrow> hd (digits_of n) \<noteq> 48"
proof (induction n rule: digits_of.induct)
  case (1 n)
  then show ?case
    by (cases "n < 10") (simp_all add: digits_of.simps [of n] hd_append digits_of_nonempty)
qed

lemma itoa_valid: "1 \<le> c \<Longrightarrow> c \<le> MaxRFIDTag \<Longrightarrow> ValidRFIDTag (itoa c) \<and> int (digits_value (itoa c)) = c"
proof -
  assume c: "1 \<le> c" "c \<le> MaxRFIDTag"
  then have "nat c < 10 ^ Suc 13" by (simp add: MaxRFIDTag_def)
  then have l: "length (digits_of (nat c)) \<le> 14" using digits_of_length [of "nat c" 13] by simp
  have h: "hd (digits_of (nat c)) \<noteq> 48" using c by (intro digits_of_head) simp
  obtain a as where "digits_of (nat c) = a # as" using digits_of_nonempty by (cases "digits_of (nat c)") auto
  then show ?thesis
    using c l h digits_of_value [of "nat c"] by (auto simp: itoa_def ValidRFIDTag_def)
qed

text \<open>Every least free number is one of the candidates.\<close>

lemma taken_candidate: "1 \<le> c \<Longrightarrow> c \<le> MaxRFIDTag \<Longrightarrow> taken d c \<Longrightarrow> c \<in> set (numeric_tags d)"
proof -
  assume c: "1 \<le> c" "c \<le> MaxRFIDTag" and "taken d c"
  then obtain s where "s \<in> set (students d)" "s_tag s = itoa c" by (auto simp: taken_def list_ex_iff)
  with itoa_valid [OF c] show ?thesis by (force simp: numeric_tags_def)
qed

definition free_candidates :: "int \<Rightarrow> db \<Rightarrow> int list" where
  "free_candidates n d =
     filter (\<lambda>c. c \<le> MaxRFIDTag \<and> \<not> taken d c) ((n + 1) # map (\<lambda>t. t + 1) (filter (\<lambda>t. n < t) (numeric_tags d)))"

lemma nextFree_candidates:
  "nextFreeRFIDTag tag d = map_option itoa (first_by (\<lambda>c. c) (free_candidates (int (digits_value tag)) d))"
  by (simp only: nextFreeRFIDTag_def free_candidates_def taken_def Let_def)

lemma free_candidate:
  assumes "0 \<le> n" "n < c" "c \<le> MaxRFIDTag" "\<not> taken d c" "\<And>m. n < m \<Longrightarrow> m < c \<Longrightarrow> taken d m"
  shows "c \<in> set (free_candidates n d)"
proof (cases "c = n + 1")
  case False
  then have "taken d (c - 1)" using assms by simp
  then have "c - 1 \<in> set (numeric_tags d)" using assms False by (intro taken_candidate) auto
  then have "c \<in> (\<lambda>t. t + 1) ` {t \<in> set (numeric_tags d). n < t}" using False assms(2) by (intro image_eqI [of _ _ "c - 1"]) auto
  with assms show ?thesis by (auto simp: free_candidates_def)
qed (use assms in \<open>simp add: free_candidates_def\<close>)

lemma least_free:
  assumes "0 \<le> n" "n < m" "m \<le> MaxRFIDTag" "\<not> taken d m"
  shows "\<exists>c \<in> set (free_candidates n d). c \<le> m \<and> (\<forall>k. n < k \<and> k < c \<longrightarrow> taken d k)"
  using assms(2-)
proof (induction "nat m" arbitrary: m rule: less_induct)
  case less
  show ?case
  proof (cases "\<exists>k. n < k \<and> k < m \<and> \<not> taken d k")
    case True
    then obtain k where k: "n < k" "k < m" "\<not> taken d k" by blast
    with assms(1) have "nat k < nat m" by simp
    with less k obtain c where "c \<in> set (free_candidates n d)" "c \<le> k" "\<forall>j. n < j \<and> j < c \<longrightarrow> taken d j"
      by (meson less_le_trans less_imp_le)
    with k(2) show ?thesis by (intro bexI [of _ c]) auto
  next
    case False
    then have "m \<in> set (free_candidates n d)" using assms(1) less.prems by (intro free_candidate) auto
    with False show ?thesis by (intro bexI [of _ m]) auto
  qed
qed

lemma nextFree_exact:
  fixes tag d
  defines "n \<equiv> int (digits_value tag)"
  shows "nextFreeRFIDTag tag d = None \<Longrightarrow> n < m \<Longrightarrow> m \<le> MaxRFIDTag \<Longrightarrow> taken d m"
    and "nextFreeRFIDTag tag d = Some t \<Longrightarrow>
      \<exists>c. t = itoa c \<and> n < c \<and> c \<le> MaxRFIDTag \<and> \<not> taken d c \<and> (\<forall>m. n < m \<and> m < c \<longrightarrow> taken d m)"
proof -
  have n: "0 \<le> n" by (simp add: n_def)
  show "taken d m" if "nextFreeRFIDTag tag d = None" "n < m" "m \<le> MaxRFIDTag"
    using least_free [OF n that(2,3), of d] that(1) by (auto simp: nextFree_candidates simp flip: n_def)
  show "\<exists>c. t = itoa c \<and> n < c \<and> c \<le> MaxRFIDTag \<and> \<not> taken d c \<and> (\<forall>m. n < m \<and> m < c \<longrightarrow> taken d m)"
    if "nextFreeRFIDTag tag d = Some t"
  proof -
    from that obtain c where t: "t = itoa c" and c: "first_by (\<lambda>c. c) (free_candidates n d) = Some c"
      by (auto simp: nextFree_candidates n_def)
    have mem: "n < c" "c \<le> MaxRFIDTag" "\<not> taken d c" using first_by_mem [OF c] unfolding free_candidates_def set_filter by auto
    have "taken d m" if a: "n < m" and b: "m < c" for m
    proof (rule ccontr)
      assume "\<not> taken d m"
      then obtain k where "k \<in> set (free_candidates n d)" "k \<le> m" using least_free [OF n a] b mem(2) by force
      with first_by_le [OF c this(1)] b show False by simp
    qed
    with t mem show ?thesis by blast
  qed
qed

lemma respond_hint:
  assumes "respondRFIDTagTaken tag w = (Inr (TagTaken (Some t)), w')"
  shows "ValidRFIDTag tag \<and> nextFreeRFIDTag tag (db w) = Some t \<and> db w' = db w"
  using assms by (auto simp: respondRFIDTagTaken_def catchE_ok bindE_ok simple_ok split: if_splits dest!: query_okD)

lemma taken_answers: "\<exists>r w'. respondRFIDTagTaken tag w = (Inr r, w')"
  by (cases "query (nextFreeRFIDTag tag) w"; cases "fst (query (nextFreeRFIDTag tag) w)")
    (auto simp: respondRFIDTagTaken_def catchE_def bindE_def run_simps)

lemma write_error_hint:
  assumes "respondStudentWriteError e tag w = (Inl (TagTaken (Some t)), w')"
  shows "ValidRFIDTag tag \<and> nextFreeRFIDTag tag (db w) = Some t \<and> db w' = db w"
proof -
  obtain r w1 where r: "respondRFIDTagTaken tag w = (Inr r :: student_refusal + student_refusal, w1)" using taken_answers by blast
  with assms have "r = TagTaken (Some t) \<and> w1 = w'"
    by (auto simp: respondStudentWriteError_def bindE_def run_simps split: student_err.splits if_splits)
  then show ?thesis using r respond_hint by auto
qed

lemma hint_asked:
  assumes run: "or_refuse m tag w = (Inl (TagTaken (Some t)), w')" and m: "\<And>e w1. m w = (Inl e, w1) \<Longrightarrow> db w1 = db w"
  shows "ValidRFIDTag tag \<and> nextFreeRFIDTag tag (db w) = Some t \<and> db w' = db w"
proof (cases "m w")
  case (Pair z w1)
  show ?thesis
  proof (cases z)
    case (Inl e)
    then show ?thesis
      using run Pair m [of e w1] write_error_hint [of e tag w1 t w'] by (auto simp: or_refuse_def bindE_def attempt_run)
  next
    case (Inr x)
    then show ?thesis using run Pair by (simp add: or_refuse_def bindE_def attempt_run run_simps)
  qed
qed

lemma create_hint:
  assumes "post_student hash (Body req) w = (Inl (TagTaken (Some t)), w')"
  shows "studentTagProblem (TrimSpace (sp_tag req)) = [] \<and> nextFreeRFIDTag (TrimSpace (sp_tag req)) (db w) = Some t \<and> db w' = db w"
proof (cases "validateStudentPayload req")
  case (Inl e)
  with assms show ?thesis by (simp add: post_student_def bindE_def lift_err_run run_simps)
next
  case (Inr r)
  with assms have s: "save_new_student hash r w = (Inl (TagTaken (Some t)), w')"
    by (simp add: post_student_def bindE_def lift_err_run run_simps)
  then have p: "studentTagProblem (sp_tag r) = []"
    by (auto simp: save_new_student_def bindE_def run_simps split: if_splits)
  with s have "or_refuse (in_tx StudentDB (create_student hash r)) (sp_tag r) w = (Inl (TagTaken (Some t)), w')"
    by (auto simp: save_new_student_def bindE_err run_simps split: if_splits)
  moreover have "sp_tag r = TrimSpace (sp_tag req)"
    using Inr by (auto simp: validateStudentPayload_def Let_def trimStudent_def trimClass_def split: if_splits option.splits)
  ultimately show ?thesis
    using p hint_asked [of "in_tx StudentDB (create_student hash r)"] in_tx_rollback [of StudentDB "create_student hash r"] by metis
qed

lemma foldl_digits_ge: "n * 10 ^ length ds \<le> foldl (\<lambda>n c. n * 10 + (c - 48)) n ds" for n :: nat
proof (induction ds arbitrary: n)
  case (Cons c ds)
  have "n * 10 ^ Suc (length ds) \<le> (n * 10 + (c - 48)) * 10 ^ length ds" by (simp add: algebra_simps)
  also have "\<dots> \<le> foldl (\<lambda>n c. n * 10 + (c - 48)) n (c # ds)" using Cons [of "n * 10 + (c - 48)"] by simp
  finally show ?case by simp
qed simp

lemma tag_at_least_100: "studentTagProblem tag = [] \<Longrightarrow> 100 \<le> digits_value tag"
proof -
  assume p: "studentTagProblem tag = []"
  then have l: "3 \<le> length tag" and v: "ValidRFIDTag tag"
    by (simp_all add: student_tag_long studentTagProblem_def RFIDTagFormatMessage_def split: if_splits)
  then obtain c cs where t: "tag = c # cs" "1 \<le> c - 48" by (auto simp: ValidRFIDTag_def is_digit_def split: list.splits)
  have "100 \<le> (10 :: nat) ^ length cs" using l t(1) power_increasing [of 2 "length cs" "10 :: nat"] by simp
  also have "\<dots> \<le> (c - 48) * 10 ^ length cs" using t(2) by simp
  also have "\<dots> \<le> digits_value tag" using foldl_digits_ge [of "c - 48" cs] by (simp add: digits_value_def t(1))
  finally show ?thesis .
qed

lemma itoa_student_tag: "100 \<le> c \<Longrightarrow> c \<le> MaxRFIDTag \<Longrightarrow> studentTagProblem (itoa c) = []"
proof -
  assume c: "100 \<le> c" "c \<le> MaxRFIDTag"
  then have "digits_of (nat c) = digits_of (nat c div 10 div 10) @ [48 + nat c div 10 mod 10, 48 + nat c mod 10]"
    using div_le_mono [of 100 "nat c" 10] c(1) by (simp add: le_nat_iff digits_of.simps [of "nat c"] digits_of.simps [of "nat c div 10"])
  moreover have "1 \<le> length (digits_of (nat c div 10 div 10))" using digits_of_nonempty by (simp add: Suc_le_eq)
  ultimately have "3 \<le> length (itoa c)" using c(1) by (simp add: itoa_def)
  then show ?thesis using itoa_valid [of c] c by (simp add: studentTagProblem_def)
qed

section \<open>The student a create stores\<close>

lemma resolveParent_found:
  assumes "resolveParent hash name phone pin w = (Inr i, w')"
  shows "\<exists>p \<in> set (parents (db w')). p_id p = i \<and> p_name p = name \<and> p_phone p = phone"
proof (cases "TrimSpace pin = []")
  case True
  with assms have "rename_parent name phone (db w) = Inr (Some i, db w')"
    by (auto simp: resolveParent_def bindE_ok simple_ok dest!: with_text_ok elim!: stmt_ok)
  then obtain p where p: "find_row (\<lambda>p. p_phone p = phone) (parents (db w)) = Some p" "p_id p = i"
    and d: "(db w)\<lparr>parents := upd_where (\<lambda>p. p_phone p = phone) (\<lambda>p. p\<lparr>p_name := name\<rparr>) (parents (db w))\<rparr> = db w'"
    by (auto simp: rename_parent_def)
  show ?thesis using find_row_Some [OF p(1)] p(2) unfolding d [symmetric]
    by (intro bexI [of _ "p\<lparr>p_name := name\<rparr>"]) (auto simp: set_upd_where)
next
  case False
  with assms obtain h k d' where u: "upsert_parent name phone h k (db w) = Inr (i, d')" and d: "db w' = drop_tokens i d'"
    by (auto simp: resolveParent_def bindE_ok simple_ok exec_ok dest!: with_text_ok elim!: insert_id_ok)
  have "\<exists>p \<in> set (parents d'). p_id p = i \<and> p_name p = name \<and> p_phone p = phone"
  proof (cases "find_row (\<lambda>p. p_phone p = phone) (parents (db w))")
    case (Some p)
    then have d': "d' = (db w)\<lparr>parents := upd_where (\<lambda>p. p_phone p = phone)
        (\<lambda>p. p\<lparr>p_name := name, p_pin := h, p_version := p_version p + 1\<rparr>) (parents (db w))\<rparr>" and i: "i = p_id p"
      using u by (auto simp: upsert_parent_def split: if_splits)
    show ?thesis using find_row_Some [OF Some] unfolding d' i
      by (intro bexI [of _ "p\<lparr>p_name := name, p_pin := h, p_version := p_version p + 1\<rparr>"]) (auto simp: set_upd_where)
  next
    case None
    with u show ?thesis by (auto simp: upsert_parent_def split: if_splits)
  qed
  then show ?thesis by (simp add: d drop_tokens_def)
qed

lemma create_student_ok:
  assumes "create_student hash r w = (Inr i, w')"
  shows "\<exists>s pid. s \<in> set (students (db w')) \<and> s_active s \<and> s_id s = i \<and> s_name s = sp_name r \<and> s_tag s = sp_tag r \<and>
     s_grade s = sp_grade r \<and> s_section s = sp_section r \<and> s_parent s = Some pid \<and>
     (\<exists>p \<in> set (parents (db w')). p_id p = pid \<and> p_name p = sp_parent_name r \<and> p_phone p = sp_parent_phone r)"
proof -
  from assms obtain pid w1 now k where r: "resolveParent hash (sp_parent_name r) (sp_parent_phone r) (sp_parent_pin r) w = (Inr pid, w1)"
    and k: "insert_student r pid now k (db w1) = Inr (i, db w')"
    by (auto simp: create_student_def bindE_ok simple_ok dest!: with_text_ok elim!: insert_id_ok)
  let ?s = "\<lparr>s_id = i, s_name = sp_name r, s_tag = sp_tag r, s_created = Some (to_micro now), s_grade = sp_grade r,
    s_section = sp_section r, s_avatar = None, s_parent = Some pid, s_active = True\<rparr>"
  have d: "db w' = (db w1)\<lparr>students := students (db w1) @ [?s]\<rparr>" using k by (auto simp: insert_student_def split: if_splits)
  show ?thesis
    using resolveParent_found [OF r] unfolding d by (intro exI [of _ ?s] exI [of _ pid]) auto
qed

lemma listed_once:
  assumes "families_ok d" "s \<in> set (students d)" "s_active s"
  shows "filter (\<lambda>q. sp_id q = s_id s) (list_students d) = [listed_student d s]"
proof -
  have "filter (\<lambda>q. s_id q = s_id s) (students d) = [s]"
    using assms by (intro filter_unique_key) (auto simp: families_ok_def children_ok_def)
  then have "filter s_active (filter (\<lambda>q. s_id q = s_id s) (students d)) = [s]" using assms(3) by simp
  then have "filter (\<lambda>q. s_id q = s_id s \<and> s_active q) (students d) = [s]" by simp
  moreover have "filter (\<lambda>q. sp_id q = s_id s) (list_students d) =
      map (listed_student d) (rev (sort_key s_id (filter (\<lambda>q. s_id q = s_id s \<and> s_active q) (students d))))"
    by (simp add: list_students_def filter_map o_def listed_student_def Let_def filter_sort conj_commute flip: rev_filter)
  ultimately show ?thesis by simp
qed

lemma or_refuse_ok:
  assumes "or_refuse m tag w = (Inr x, w')"
  shows "m w = (Inr x, w')"
proof (cases "m w")
  case (Pair z w1)
  have "\<not> (respondStudentWriteError e tag w1 = (Inr x, w'))" for e
    by (cases e) (auto simp: respondStudentWriteError_def bindE_ok simple_ok)
  with assms Pair show ?thesis by (cases z) (auto simp: or_refuse_def bindE_def attempt_run run_simps)
qed

lemma post_student_ok:
  assumes "post_student hash b w = (Inr r, w')"
  shows "\<exists>q w1 w2. in_tx StudentDB (create_student hash q) w1 = (Inr (sp_id r), w2) \<and> r = q\<lparr>sp_id := sp_id r, sp_parent_pin := []\<rparr> \<and>
     db w1 = db w \<and> db w' = db w2"
proof -
  from assms obtain q w1 where q: "save_new_student hash q w1 = (Inr r, w')" "db w1 = db w"
    by (auto simp: post_student_def bindE_ok simple_ok)
  then obtain i w2 where "or_refuse (in_tx StudentDB (create_student hash q)) (sp_tag q) w1 = (Inr i, w2)"
    "r = q\<lparr>sp_id := i, sp_parent_pin := []\<rparr>" "db w' = db w2"
    by (auto simp: save_new_student_def bindE_ok simple_ok)
  moreover have "in_tx StudentDB (create_student hash q) w1 = (Inr i, w2)"
    using calculation(1) by (rule or_refuse_ok)
  ultimately show ?thesis using q(2) by (intro exI [of _ q] exI [of _ w1] exI [of _ w2]) auto
qed

section \<open>Properties\<close>

text \<open>C19. Whatever is sent to \<open>/api/admin/students\<close> and whatever fails: parents keep distinct ids and distinct
  phone numbers in canonical form, students keep distinct ids and distinct device user ids, every student's
  parent exists, and no student ever holds a device user id a teacher holds.\<close>

theorem families_consistent:
  assumes "families_ok (db w)"
  shows "families_ok (db (snd (AdminStudentsHandler hash verb param b w)))"
  using assms keeps_students_handler by (simp add: keeps_def)

text \<open>Whatever is sent to \<open>/api/admin/students\<close> and whatever fails, no parent is lost or renumbered, session
  versions never fall, and a parent whose PIN is another one afterwards has a higher session version and no
  registered phone left: a new PIN signs the parent out everywhere.\<close>

theorem new_pin_signs_out:
  assumes "families_ok (db w)"
  shows "\<forall>p \<in> set (parents (db w)). \<exists>q \<in> set (parents (db (snd (AdminStudentsHandler hash verb param b w)))).
     p_id q = p_id p \<and> p_phone q = p_phone p \<and> p_push q = p_push p \<and> p_version p \<le> p_version q \<and>
     (p_pin q \<noteq> p_pin p \<longrightarrow> p_version p < p_version q) \<and>
     (p_version p < p_version q \<longrightarrow>
        (\<forall>t \<in> set (device_tokens (db (snd (AdminStudentsHandler hash verb param b w)))). t_parent t \<noteq> p_id p))"
proof -
  have "tracked (db w) (db (snd (AdminStudentsHandler hash verb param b w)))"
    using assms tracked_students_handler [of "db w" hash verb param b] by (simp add: keeps_def tracked_def signed_out_self)
  then show ?thesis
    by (force simp: tracked_def signed_out_def follows_def split: if_splits)
qed

text \<open>A device user id that is taken comes back with a hint that can be used as it is: the hint is a valid
  student id above the one asked for, no student has it, and every number between the two is taken.\<close>

theorem taken_tag_hint:
  assumes "AdminStudentsHandler hash POST param (Body req) w = (Inl (TagTaken (Some t)), w')"
  shows "\<exists>c. t = itoa c \<and> studentTagProblem t = [] \<and> int (digits_value (TrimSpace (sp_tag req))) < c \<and>
    \<not> list_ex (\<lambda>s. s_tag s = t) (students (db w')) \<and>
    (\<forall>m. int (digits_value (TrimSpace (sp_tag req))) < m \<and> m < c \<longrightarrow> list_ex (\<lambda>s. s_tag s = itoa m) (students (db w')))"
proof -
  let ?tag = "TrimSpace (sp_tag req)"
  have run: "post_student hash (Body req) w = (Inl (TagTaken (Some t)), w')"
    using assms by (auto simp: AdminStudentsHandler_def bindE_err simple_ok run_simps)
  then have p: "studentTagProblem ?tag = []" "nextFreeRFIDTag ?tag (db w) = Some t" "db w' = db w"
    using create_hint by auto
  then show ?thesis
    using nextFree_exact(2) [OF p(2)] tag_at_least_100 [OF p(1)] itoa_student_tag
    by (auto simp: taken_def)
qed

text \<open>After a create was answered 200, the list of students holds exactly one entry with the returned id, and
  it is the answered student, field by field, with the parent's name and canonical phone number.\<close>

theorem student_read_back:
  assumes ok: "families_ok (db w)"
    and run: "AdminStudentsHandler hash POST param b w = (Inr (StudentCreated r), w')" and w': "faults w' = []"
  shows "\<exists>l. AdminStudentsHandler hash GET param' b' w' = (Inr (StudentList l), w') \<and> filter (\<lambda>q. sp_id q = sp_id r) l = [r]"
proof -
  have post: "post_student hash b w = (Inr r, w')"
    using run by (auto simp: AdminStudentsHandler_def bindE_ok simple_ok)
  then obtain q w1 w2 where q: "in_tx StudentDB (create_student hash q) w1 = (Inr (sp_id r), w2)"
    "r = q\<lparr>sp_id := sp_id r, sp_parent_pin := []\<rparr>" "db w' = db w2"
    using post_student_ok by blast
  from in_tx_ok [OF q(1)] obtain w3 w4 where "create_student hash q w3 = (Inr (sp_id r), w4)" "db w2 = db w4" .
  then obtain s pid p where s: "s \<in> set (students (db w'))" "s_active s" "s_id s = sp_id r" "s_name s = sp_name q"
    "s_tag s = sp_tag q" "s_grade s = sp_grade q" "s_section s = sp_section q" "s_parent s = Some pid"
    and p: "p \<in> set (parents (db w'))" "p_id p = pid" "p_name p = sp_parent_name q" "p_phone p = sp_parent_phone q"
    using create_student_ok q(3) by metis
  have f: "families_ok (db w')" using keepsD [OF keeps_post_student ok post] .
  have "find_row (\<lambda>p. p_id p = pid) (parents (db w')) = Some p"
    using f p by (intro parent_ids.find_by_key) (auto simp: families_ok_def parents_ok_def)
  then have "listed_student (db w') s = q\<lparr>sp_id := sp_id r, sp_parent_pin := []\<rparr>"
    using s p by (simp add: listed_student_def)
  then have "filter (\<lambda>q. sp_id q = sp_id r) (list_students (db w')) = [r]"
    using listed_once [OF f s(1,2)] s(3) q(2) by simp
  then show ?thesis using w' by (simp add: AdminStudentsHandler_def bindE_def lift_err_run run_simps)
qed

section \<open>Examples\<close>

definition enrol_request :: StudentPayload where
  "enrol_request = \<lparr>sp_id = 0, sp_name = u '' Noor'', sp_parent_name = u ''Ali'', sp_parent_phone = u ''0770 123-4567'',
     sp_parent_pin = u ''Secret-PIN-2025!'', sp_tag = u ''100'', sp_grade = Some (u ''1 ''), sp_section = None\<rparr>"

definition enrol_valid :: StudentPayload where
  "enrol_valid = \<lparr>sp_id = 0, sp_name = u ''Noor'', sp_parent_name = u ''Ali'', sp_parent_phone = u ''+9647701234567'',
     sp_parent_pin = u ''Secret-PIN-2025!'', sp_tag = u ''100'', sp_grade = Some (u ''1''), sp_section = None\<rparr>"

definition old_parent :: parent where
  "old_parent = \<lparr>p_id = 7, p_name = u ''A'', p_phone = u ''+9647701234567'', p_pin = u ''old'', p_version = 3, p_push = True\<rparr>"

definition new_parent :: parent where
  "new_parent = \<lparr>p_id = 7, p_name = u ''Ali'', p_phone = u ''+9647701234567'', p_pin = u ''Secret-PIN-2025!'', p_version = 4, p_push = True\<rparr>"

definition old_phone :: device_token where
  "old_phone = \<lparr>t_id = 1, t_parent = 7, t_token = u ''phone'', t_created = At (Date 2025 10 5) 0, t_seen = At (Date 2025 10 5) 0\<rparr>"

definition noor :: student where
  "noor = \<lparr>s_id = 1, s_name = u ''Noor'', s_tag = u ''100'', s_created = Some (At (Date 2025 10 5) (hm 8 0)), s_grade = Some (u ''1''),
     s_section = None, s_avatar = None, s_parent = Some 7, s_active = True\<rparr>"

definition enrol_world :: world where
  "enrol_world = (quiet (empty_db\<lparr>parents := [old_parent], device_tokens := [old_phone]\<rparr>) (At (Date 2025 10 5) (hm 8 0)))
     \<lparr>serial := (\<lambda>_. 1)(Parents := 8)\<rparr>"

definition enrolled_db :: db where
  "enrolled_db = empty_db\<lparr>parents := [new_parent], students := [noor]\<rparr>"

lemma enrol_validated: "validateStudentPayload enrol_request = Inr enrol_valid"
proof -
  have "Normalize (u ''0770 123-4567'') = Some (u ''+9647701234567'')"
    by (simp add: Normalize_def clean_def ascii_digit_def Ignored_def strip_prefix_def trim_prefix_def mobile_def is_digit_def u_def)
  moreover have "validParentPin (u ''Secret-PIN-2025!'')"
    by (simp add: validParentPin_def letter_char_def is_digit_def u_def)
  ultimately show ?thesis
    by (simp add: validateStudentPayload_def enrol_request_def enrol_valid_def trimStudent_def trimClass_def student_lengths_def
        TrimSpace_def trim_by_def is_space_def u_def tooLong_def TrimRightBlank_def Let_def)
qed

lemma enrol_tag: "studentTagProblem (u ''100'') = []"
  by (simp add: studentTagProblem_def ValidRFIDTag_def is_digit_def u_def)

lemma enrol_canonical: "Normalize (u ''+9647701234567'') = Some (u ''+9647701234567'')"
  using validated_phone [OF enrol_validated] by (simp add: enrol_valid_def)

lemma enrol_world_simps [simp]:
  "faults enrol_world = []" "parents (db enrol_world) = [old_parent]" "device_tokens (db enrol_world) = [old_phone]"
  "students (db enrol_world) = []" "serial enrol_world = (\<lambda>_. 1)(Parents := 8)" "clock enrol_world = At (Date 2025 10 5) (hm 8 0)"
  by (simp_all add: enrol_world_def empty_db_def)

definition enrolled :: world where
  "enrolled = enrol_world\<lparr>db := enrolled_db, serial := (serial enrol_world)(Parents := 9, Students := 2),
     noted := (u ''student'', itoa 1, [])\<rparr>"

lemma parent_upserted:
  "resolveParent Some (u ''Ali'') (u ''+9647701234567'') (u ''Secret-PIN-2025!'') enrol_world =
     (Inr 7, enrol_world\<lparr>db := empty_db\<lparr>parents := [new_parent]\<rparr>, serial := (serial enrol_world)(Parents := 9)\<rparr>)"
proof -
  have "upsert_parent (u ''Ali'') (u ''+9647701234567'') (u ''Secret-PIN-2025!'') 8 (db enrol_world) =
      Inr (7, (db enrol_world)\<lparr>parents := [new_parent]\<rparr>)"
    by (simp add: upsert_parent_def find_row_def old_parent_def new_parent_def upd_where_def)
  moreover have "TrimSpace (u ''Secret-PIN-2025!'') \<noteq> []" by (simp add: TrimSpace_def trim_by_def is_space_def u_def)
  moreover have "with_text [u ''Ali'', u ''+9647701234567'', u ''Secret-PIN-2025!''] m = m" for m :: "(err, int) tx"
    by (rule with_plain_texts) (simp add: plain_texts_def u_def)
  ultimately show ?thesis
    by (simp add: resolveParent_def bindE_def run_simps lift_err_run drop_tokens_def del_where_def)
      (simp add: enrol_world_def old_phone_def empty_db_def quiet_def)
qed

lemma enrol_run: "AdminStudentsHandler Some POST param (Body enrol_request) enrol_world =
  (Inr (StudentCreated (enrol_valid\<lparr>sp_id := 1, sp_parent_pin := []\<rparr>)), enrolled)"
proof -
  let ?w = "enrol_world\<lparr>db := empty_db\<lparr>parents := [new_parent]\<rparr>, serial := (serial enrol_world)(Parents := 9)\<rparr>"
  have f: "sp_parent_name enrol_valid = u ''Ali''" "sp_parent_phone enrol_valid = u ''+9647701234567''"
    "sp_parent_pin enrol_valid = u ''Secret-PIN-2025!''" "sp_tag enrol_valid = u ''100''"
    by (simp_all add: enrol_valid_def)
  have "insert_student enrol_valid 7 (At (Date 2025 10 5) (hm 8 0)) 1 (empty_db\<lparr>parents := [new_parent]\<rparr>) = Inr (1, enrolled_db)"
    by (simp add: insert_student_def enrolled_db_def empty_db_def noor_def enrol_valid_def new_parent_def to_micro_def hm_def sec_def)
  moreover have "with_text (student_texts enrol_valid) m = m" for m :: "(err, int) tx"
    by (rule with_plain_texts) (simp add: plain_texts_def student_texts_def enrol_valid_def opt_list_def u_def)
  ultimately have "create_student Some enrol_valid enrol_world = (Inr 1, enrolled\<lparr>noted := noted enrol_world\<rparr>)"
    by (simp add: create_student_def f parent_upserted bindE_def run_simps lift_err_run enrolled_def)
  then have "in_tx StudentDB (create_student Some enrol_valid) enrol_world = (Inr 1, enrolled\<lparr>noted := noted enrol_world\<rparr>)"
    by (simp add: in_tx_run_nil run_simps enrolled_def)
  then show ?thesis
    using enrol_tag
    by (simp add: AdminStudentsHandler_def post_student_def save_new_student_def or_refuse_def bindE_def attempt_run run_simps
        lift_err_run enrol_validated f enrolled_def)
qed

lemma enrol_ok: "families_ok (db enrol_world)"
  using enrol_canonical
  by (simp add: families_ok_def parents_ok_def children_ok_def staff_apart_def tags_apart_def unique_key_def old_parent_def
      enrol_world_def empty_db_def)

theorem families_consistent_witness: "families_ok (db enrolled) \<and> students (db enrolled) = [noor]"
  using families_consistent [OF enrol_ok, of Some POST "[]" "Body enrol_request"]
  by (simp add: enrol_run) (simp add: enrolled_def enrolled_db_def)

theorem new_pin_signs_out_witness:
  "p_version new_parent = 4 \<and> p_version old_parent = 3 \<and> (\<forall>t \<in> set (device_tokens (db enrolled)). t_parent t \<noteq> 7)"
  using new_pin_signs_out [OF enrol_ok, of Some POST "[]" "Body enrol_request"]
  by (simp add: enrol_run) (simp add: enrolled_def enrolled_db_def old_parent_def new_parent_def)

theorem student_read_back_witness:
  "\<exists>l. AdminStudentsHandler Some GET [] Malformed enrolled = (Inr (StudentList l), enrolled) \<and>
     filter (\<lambda>q. sp_id q = 1) l = [enrol_valid\<lparr>sp_id := 1, sp_parent_pin := []\<rparr>]"
  using student_read_back [where param' = "[]" and b' = Malformed and param = "[]", OF enrol_ok enrol_run] by (simp add: enrolled_def)

definition second_request :: StudentPayload where
  "second_request = enrol_request\<lparr>sp_parent_pin := []\<rparr>"

lemma second_validated: "validateStudentPayload second_request = Inr (enrol_valid\<lparr>sp_parent_pin := []\<rparr>)"
proof -
  have "Normalize (u ''0770 123-4567'') = Some (u ''+9647701234567'')"
    by (simp add: Normalize_def clean_def ascii_digit_def Ignored_def strip_prefix_def trim_prefix_def mobile_def is_digit_def u_def)
  then show ?thesis
    by (simp add: validateStudentPayload_def second_request_def enrol_request_def enrol_valid_def trimStudent_def trimClass_def
        student_lengths_def TrimSpace_def trim_by_def is_space_def u_def tooLong_def TrimRightBlank_def Let_def)
qed

lemma enrolled_simps [simp]: "faults enrolled = []" "db enrolled = enrolled_db" "serial enrolled Students = 2"
  by (simp_all add: enrolled_def)

lemma second_hint: "nextFreeRFIDTag (u ''100'') enrolled_db = Some (u ''101'')"
proof -
  have i: "itoa 101 = u ''101''" by (simp add: itoa_def digits_of.simps u_def)
  have v: "digits_value (u ''100'') = 100" "ValidRFIDTag (u ''100'')"
    by (simp_all add: digits_value_def ValidRFIDTag_def is_digit_def u_def)
  show ?thesis
    by (simp add: nextFreeRFIDTag_def numeric_tags_def enrolled_db_def noor_def v i MaxRFIDTag_def)
qed

lemma second_run: "\<exists>w'. AdminStudentsHandler hash POST param (Body second_request) enrolled = (Inl (TagTaken (Some (u ''101''))), w') \<and>
  db w' = enrolled_db"
proof -
  let ?r = "enrol_valid\<lparr>sp_parent_pin := []\<rparr>"
  have f: "sp_parent_name enrol_valid = u ''Ali''" "sp_parent_phone enrol_valid = u ''+9647701234567''" "sp_tag enrol_valid = u ''100''"
    by (simp_all add: enrol_valid_def)
  have p: "with_text [u ''Ali'', u ''+9647701234567''] m = m" for m :: "(err, int option) tx"
    by (rule with_plain_texts) (simp add: plain_texts_def u_def)
  have t: "with_text (student_texts ?r) m = m" for m :: "(err, int) tx"
    by (rule with_plain_texts) (simp add: plain_texts_def student_texts_def enrol_valid_def opt_list_def u_def)
  have r: "rename_parent (u ''Ali'') (u ''+9647701234567'') enrolled_db = Inr (Some 7, enrolled_db)"
    by (simp add: rename_parent_def enrolled_db_def new_parent_def find_row_def upd_where_def)
  have i: "insert_student ?r 7 now 2 enrolled_db = Inl (unique_violation rfidTagUniqueIndex)" for now
    by (simp add: insert_student_def enrolled_db_def noor_def f)
  obtain w1 where c: "create_student hash ?r enrolled = (Inl (StudentDB (unique_violation rfidTagUniqueIndex)), w1)" "faults w1 = []"
    by (rule that [of "enrolled\<lparr>serial := (serial enrolled)(Students := 3)\<rparr>"])
      (simp_all add: create_student_def resolveParent_def f p t r i bindE_def run_simps lift_err_run TrimSpace_def trim_by_def)
  have "in_tx StudentDB (create_student hash ?r) enrolled = (Inl (StudentDB (unique_violation rfidTagUniqueIndex)), rollback_to enrolled w1)"
    using c by (simp add: in_tx_run_nil)
  moreover have "ValidRFIDTag (u ''100'')" by (simp add: ValidRFIDTag_def is_digit_def u_def)
  moreover have "query g (rollback_to enrolled w1) = (Inr (g enrolled_db), rollback_to enrolled w1)" for g :: "db \<Rightarrow> str option"
    using c(2) query_run_nil [of "rollback_to enrolled w1" g] by (simp add: rollback_to_def)
  moreover have "db (rollback_to enrolled w1) = enrolled_db" by (simp add: rollback_to_def)
  ultimately show ?thesis
    using enrol_tag
    by (simp add: AdminStudentsHandler_def post_student_def save_new_student_def or_refuse_def bindE_def attempt_run run_simps
        lift_err_run second_validated f respondStudentWriteError_def respondRFIDTagTaken_def catchE_def second_hint)
qed

theorem taken_tag_hint_witness:
  "\<exists>w' c. AdminStudentsHandler Some POST [] (Body second_request) enrolled = (Inl (TagTaken (Some (u ''101''))), w') \<and>
     u ''101'' = itoa c \<and> int (digits_value (TrimSpace (sp_tag second_request))) < c"
  using second_run [of Some "[]"] taken_tag_hint by blast

end
