(* ===== verification/Paging.thy ===== *)
theory Paging
  imports Prelude
begin

text \<open>
  Keyset pagination, as the notification list, the broadcast log and the activity log do it: a page is the
  newest n rows below an id, and \<open>next_before\<close> is the last id shown when older rows are left. The locale states
  what such an endpoint promises; its lemma is what a client gets that follows \<open>next_before\<close> to the end.
\<close>

definition below :: "('r \<Rightarrow> int) \<Rightarrow> int option \<Rightarrow> 'r \<Rightarrow> bool" where
  "below key before r \<longleftrightarrow> (case before of None \<Rightarrow> True | Some i \<Rightarrow> key r < i)"

definition newest_first :: "('r \<Rightarrow> int) \<Rightarrow> int option \<Rightarrow> 'r list \<Rightarrow> 'r list" where
  "newest_first key before rs = rev (sort_key key (filter (below key before) rs))"

definition page_of :: "('r \<Rightarrow> int) \<Rightarrow> nat \<Rightarrow> int option \<Rightarrow> 'r list \<Rightarrow> 'r list \<times> bool \<times> int option" where
  "page_of key n before rs =
     (let xs = take (n + 1) (newest_first key before rs) in
      if n < length xs then (take n xs, True, Some (key (last (take n xs)))) else (xs, False, None))"

text \<open>The client: it asks for pages until one says there is no more, at most \<open>fuel\<close> times.\<close>

fun walk :: "(int option \<Rightarrow> 'r list \<times> bool \<times> int option) \<Rightarrow> nat \<Rightarrow> int option \<Rightarrow> 'r list option" where
  "walk fetch 0 before = None"
| "walk fetch (Suc fuel) before =
     (case fetch before of (items, hasMore, nextBefore) \<Rightarrow>
        if hasMore then map_option ((@) items) (walk fetch fuel nextBefore) else Some items)"

lemma filter_descending:
  assumes "sorted_wrt (\<lambda>x y. key y < (key x :: int)) xs" "0 < n" "n \<le> length xs"
  shows "filter (\<lambda>r. key r < key (xs ! (n - 1))) xs = drop n xs"
proof -
  let ?k = "key (xs ! (n - 1))"
  have lo: "\<not> key r < ?k" if r: "r \<in> set (take n xs)" for r
  proof -
    obtain i where i: "i < n" "r = xs ! i" using r assms(3) by (auto simp: in_set_conv_nth)
    then have "i = n - 1 \<or> i < n - 1" by linarith
    then show ?thesis using assms i sorted_wrt_nth_less [OF assms(1), of i "n - 1"] by fastforce
  qed
  have hi: "key r < ?k" if r: "r \<in> set (drop n xs)" for r
  proof -
    obtain j where "j < length (drop n xs)" "r = drop n xs ! j" using r by (metis in_set_conv_nth)
    then have "n + j < length xs" "r = xs ! (n + j)" using assms(3) by auto
    then show ?thesis using assms(2) sorted_wrt_nth_less [OF assms(1), of "n - 1" "n + j"] by simp
  qed
  have "filter (\<lambda>r. key r < ?k) (take n xs @ drop n xs) = drop n xs"
    using lo hi by (simp only: filter_append) (simp add: filter_empty_conv filter_id_conv)
  then show ?thesis by simp
qed

lemma newest_first_sorted:
  assumes "distinct (map key rs)"
  shows "sorted_wrt (\<lambda>x y. key y < key x) (newest_first key before rs)"
proof -
  let ?f = "filter (below key before) rs"
  have "distinct (map key ?f)" using assms by (simp add: distinct_map inj_on_def)
  then have "distinct (map key (sort_key key ?f))" by (simp add: distinct_map)
  then have "sorted_wrt (<) (map key (sort_key key ?f))" by (simp add: strict_sorted_iff)
  then have "sorted_wrt (\<lambda>x y. key x < key y) (sort_key key ?f)" by (simp add: sorted_wrt_map)
  then show ?thesis by (simp add: newest_first_def sorted_wrt_rev)
qed

lemma newest_first_next:
  assumes "distinct (map key rs)" "0 < n" "n \<le> length (newest_first key before rs)"
  shows "newest_first key (Some (key (newest_first key before rs ! (n - 1)))) rs = drop n (newest_first key before rs)"
proof -
  let ?xs = "newest_first key before rs"
  let ?k = "key (?xs ! (n - 1))"
  have "?xs ! (n - 1) \<in> set ?xs" using assms(2,3) by (intro nth_mem) linarith
  then have b: "below key before (?xs ! (n - 1))" by (simp add: newest_first_def)
  have "below key (Some ?k) = (\<lambda>r. below key before r \<and> key r < ?k)"
    using b by (auto simp: below_def fun_eq_iff split: option.splits)
  then have "newest_first key (Some ?k) rs = filter (\<lambda>r. key r < ?k) ?xs"
    by (simp add: newest_first_def filter_sort flip: rev_filter)
  then show ?thesis using filter_descending [OF newest_first_sorted [OF assms(1)] assms(2,3)] by simp
qed

locale pager =
  fixes inv :: "'s \<Rightarrow> bool" and fetch :: "'s \<Rightarrow> int option \<Rightarrow> 'r list \<times> bool \<times> int option"
    and rows :: "'s \<Rightarrow> 'r list" and key :: "'r \<Rightarrow> int" and n :: nat
  assumes fetch_page: "inv s \<Longrightarrow> before = None \<or> (\<exists>r \<in> set (rows s). before = Some (key r)) \<Longrightarrow>
      fetch s before = page_of key n before (rows s)"
    and keys: "inv s \<Longrightarrow> distinct (map key (rows s))"
    and some: "0 < n"
begin

lemma walk_from:
  assumes inv: "inv s" and "before = None \<or> (\<exists>r \<in> set (rows s). before = Some (key r))"
    "length (newest_first key before (rows s)) div n = k"
  shows "walk (fetch s) (Suc k) before = Some (newest_first key before (rows s))"
  using assms(2-)
proof (induction k arbitrary: before)
  let ?xs = "\<lambda>b. newest_first key b (rows s)"
  case 0
  then have "length (?xs before) < n" using some by (simp add: div_eq_0_iff)
  then show ?case using fetch_page [OF inv "0.prems"(1)] by (simp add: page_of_def)
next
  let ?xs = "\<lambda>b. newest_first key b (rows s)"
  case (Suc k)
  have n: "n \<le> length (?xs before)" using Suc.prems(2) by (metis div_less not_le nat.distinct(1))
  show ?case
  proof (cases "length (?xs before) = n")
    case True
    then show ?thesis using fetch_page [OF inv Suc.prems(1)] by (simp add: page_of_def)
  next
    case False
    let ?next = "Some (key (?xs before ! (n - 1)))"
    have l: "n < length (?xs before)" using n False by simp
    have "last (take n (?xs before)) = ?xs before ! (n - 1)" using l some by (subst last_conv_nth) auto
    then have f: "fetch s before = (take n (?xs before), True, ?next)"
      using fetch_page [OF inv Suc.prems(1)] l by (simp add: page_of_def Let_def min_def)
    have d: "?xs ?next = drop n (?xs before)" using newest_first_next [OF keys [OF inv] some n] .
    have "?xs before ! (n - 1) \<in> set (?xs before)" using l by (intro nth_mem) linarith
    then have "?next = None \<or> (\<exists>r \<in> set (rows s). ?next = Some (key r))" by (auto simp: newest_first_def)
    moreover have "length (?xs ?next) div n = k"
      using Suc.prems(2) n some unfolding d by (simp add: le_div_geq)
    ultimately have "walk (fetch s) (Suc k) ?next = Some (?xs ?next)" by (rule Suc.IH)
    then show ?thesis using f d by simp
  qed
qed

lemma walk_all: "inv s \<Longrightarrow> walk (fetch s) (Suc (length (rows s) div n)) None = Some (rev (sort_key key (rows s)))"
proof -
  assume inv: "inv s"
  have "newest_first key None (rows s) = rev (sort_key key (rows s))" by (simp add: newest_first_def below_def)
  then show ?thesis using walk_from [OF inv, of None "length (rows s) div n"] by simp
qed

end

end
