(* ===== verification/ParentApp.thy ===== *)
theory ParentApp
  imports Families Paging
begin

text \<open>
  What a signed-in parent's app does, \<open>internal/handlers/mobile.go\<close> and \<open>parent_account.go\<close>: the list of the
  children, the pages of notifications and their read marks, the phones registered for pushes and the push
  switch. \<open>parentID\<close> is the id the request's context carries, when it does.
\<close>

section \<open>Children and notifications\<close>

record MobileStudentPayload =
  ms_id :: int
  ms_name :: str
  ms_grade :: str
  ms_section :: str
  ms_avatar :: str

definition orBlank :: "str option \<Rightarrow> str" where
  "orBlank z = (case z of None \<Rightarrow> [] | Some s \<Rightarrow> s)"

definition mobile_student :: "student \<Rightarrow> MobileStudentPayload" where
  "mobile_student s =
     \<lparr>ms_id = s_id s, ms_name = s_name s, ms_grade = orBlank (s_grade s), ms_section = orBlank (s_section s),
      ms_avatar = orBlank (s_avatar s)\<rparr>"

definition MobileStudentsHandler :: "meth \<Rightarrow> int option \<Rightarrow> (refusal, MobileStudentPayload list) tx" where
  "MobileStudentsHandler verb parentID =
     bindE (guard (verb = GET) method_not_allowed) (\<lambda>_.
     bindE (parent_of_context parentID) (\<lambda>pid.
     lift_err (internal_error ''Database error'') (query (\<lambda>d. map mobile_student (children d pid)))))"

definition NotificationsPageSize :: nat where "NotificationsPageSize = 100"

record MobileNotificationPayload =
  mn_id :: int
  mn_title :: str
  mn_body :: str
  mn_read :: bool
  mn_created :: str

definition mobile_notification :: "notification \<Rightarrow> MobileNotificationPayload" where
  "mobile_notification n =
     \<lparr>mn_id = n_id n, mn_title = n_title n, mn_body = n_body n, mn_read = n_read n, mn_created = rfc3339 (n_created n)\<rparr>"

definition notifications_before :: "str \<Rightarrow> refusal + int option" where
  "notifications_before v =
     (if v = [] then Inr None
      else case Atoi v of
        None \<Rightarrow> Inl (bad_request ''before must be a positive notification id'')
      | Some i \<Rightarrow> if i < 1 then Inl (bad_request ''before must be a positive notification id'') else Inr (Some i))"

definition notifications_query :: "int \<Rightarrow> int option \<Rightarrow> db \<Rightarrow> MobileNotificationPayload list" where
  "notifications_query pid before d =
     map mobile_notification (take (NotificationsPageSize + 1)
       (rev (sort_key n_id (filter (\<lambda>n. n_parent n = Some pid \<and> (case before of None \<Rightarrow> True | Some i \<Rightarrow> n_id n < i))
          (notifications d)))))"

definition unread_count :: "int \<Rightarrow> db \<Rightarrow> int" where
  "unread_count pid d = count_where (\<lambda>n. n_parent n = Some pid \<and> \<not> n_read n) (notifications d)"

record NotificationPage =
  np_items :: "MobileNotificationPayload list"
  np_more :: bool
  np_next :: "int option"
  np_unread :: int

definition MobileNotificationsHandler :: "meth \<Rightarrow> int option \<Rightarrow> str \<Rightarrow> (refusal, NotificationPage) tx" where
  "MobileNotificationsHandler verb parentID beforeParam =
     bindE (guard (verb = GET) method_not_allowed) (\<lambda>_.
     bindE (parent_of_context parentID) (\<lambda>pid.
     bindE (of_sum (notifications_before beforeParam)) (\<lambda>before.
     bindE (lift_err (internal_error ''Database error'') (query (notifications_query pid before))) (\<lambda>rows.
     let hasMore = NotificationsPageSize < length rows;
         items = (if hasMore then take NotificationsPageSize rows else rows);
         nextBefore = (if hasMore then Some (mn_id (items ! (NotificationsPageSize - 1))) else None) in
     bindE (lift_err (internal_error ''Database error'') (query (unread_count pid))) (\<lambda>unread.
     ret \<lparr>np_items = items, np_more = hasMore, np_next = nextBefore, np_unread = unread\<rparr>)))))"

definition mark_read :: "(notification \<Rightarrow> bool) \<Rightarrow> db \<Rightarrow> int \<times> db" where
  \<comment> \<open>an \<open>UPDATE ... SET is_read = true\<close> with the rows it affected\<close>
  "mark_read p d =
     (count_where p (notifications d),
      d\<lparr>notifications := upd_where p (\<lambda>n. n\<lparr>n_read := True\<rparr>) (notifications d)\<rparr>)"

definition MarkNotificationReadHandler :: "int option \<Rightarrow> str \<Rightarrow> (refusal, unit) tx" where
  "MarkNotificationReadHandler parentID idParam =
     bindE (parent_of_context parentID) (\<lambda>pid.
     bindE (of_option (bad_request ''id must be a positive notification id'') (Atoi idParam)) (\<lambda>i.
     bindE (guard (\<not> i < 1) (bad_request ''id must be a positive notification id'')) (\<lambda>_.
     bindE (lift_err (internal_error ''Database error'')
       (with_int4 [i] (stmt (\<lambda>d. Inr (mark_read (\<lambda>n. n_id n = i \<and> n_parent n = Some pid) d))))) (\<lambda>n.
     guard (n \<noteq> 0) (Refuse 404 (u ''Notification not found''))))))"

definition MarkAllNotificationsReadHandler :: "int option \<Rightarrow> (refusal, int) tx" where
  "MarkAllNotificationsReadHandler parentID =
     bindE (parent_of_context parentID) (\<lambda>pid.
     lift_err (internal_error ''Database error'')
       (stmt (\<lambda>d. Inr (mark_read (\<lambda>n. n_parent n = Some pid \<and> \<not> n_read n) d))))"

section \<open>Phones registered for pushes\<close>

definition MaxDeviceTokensPerParent :: nat where "MaxDeviceTokensPerParent = 10"

definition MinDeviceTokenLength :: nat where "MinDeviceTokenLength = 20"

definition MaxDeviceTokenLength :: nat where "MaxDeviceTokenLength = 1024"

definition InvalidDeviceTokenMessage :: str where
  "InvalidDeviceTokenMessage =
     u ''token must be 20 to 1024 characters: letters, digits, '' @ [39, 58, 39] @ u '', '' @ [39, 95, 39] @ u '', '' @ [39, 46, 39] @
     u '' or '' @ [39, 45, 39]"

definition device_token_char :: "nat \<Rightarrow> bool" where
  "device_token_char c \<longleftrightarrow> letter_char c \<or> is_digit c \<or> c \<in> {58, 95, 46, 45}"

definition validDeviceToken :: "str \<Rightarrow> bool" where
  "validDeviceToken token \<longleftrightarrow>
     MinDeviceTokenLength \<le> length token \<and> length token \<le> MaxDeviceTokenLength \<and> token \<noteq> [] \<and> list_all device_token_char token"

datatype push_err = ParentGone | PushDB err

definition push_switch :: "int \<Rightarrow> db \<Rightarrow> bool option" where
  "push_switch pid d = map_option p_push (find_row (\<lambda>p. p_id p = pid) (parents d))"

definition upsert_token :: "int \<Rightarrow> str \<Rightarrow> stamp \<Rightarrow> int \<Rightarrow> db \<Rightarrow> err + unit \<times> db" where
  "upsert_token pid token now i d =
     (if \<not> list_ex (\<lambda>p. p_id p = pid) (parents d) then Inl (foreign_key_violation ''device_tokens_parent_id_fkey'')
      else if list_ex (\<lambda>t. t_token t = token) (device_tokens d) then
        Inr ((), d\<lparr>device_tokens := upd_where (\<lambda>t. t_token t = token)
          (\<lambda>t. t\<lparr>t_created := (if t_parent t = pid then t_created t else to_micro now), t_parent := pid, t_seen := to_micro now\<rparr>)
          (device_tokens d)\<rparr>)
      else if i \<in> t_id ` set (device_tokens d) then Inl (unique_violation ''device_tokens_pkey'')
      else Inr ((), d\<lparr>device_tokens := device_tokens d @
        [\<lparr>t_id = i, t_parent = pid, t_token = token, t_created = to_micro now, t_seen = to_micro now\<rparr>]\<rparr>))"

text \<open>
  A registration reads the parent's row \<open>FOR SHARE\<close>, which keeps the switch and the deletion of the account
  away until it commits, but not another registration of the same parent. Transactions are taken in the order
  in which they commit, so of two that overlap the later one may look for surplus phones in a snapshot without
  the phone the earlier one stored. What the statement sees of the table is the parameter \<open>view\<close>, any
  function of the rows; \<open>alone\<close> is the view of a registration nothing overlaps.
\<close>

type_synonym token_view = "device_token list \<Rightarrow> device_token list"

definition alone :: token_view where
  "alone rows = rows"

lemma alone_rows [simp]: "alone rows = rows"
  by (simp add: alone_def)

definition surplus_tokens :: "int \<Rightarrow> device_token list \<Rightarrow> int list" where
  \<comment> \<open>\<open>ORDER BY last_seen_at DESC, id DESC OFFSET 10\<close>, of the rows the statement sees\<close>
  "surplus_tokens pid seen =
     map t_id (drop MaxDeviceTokensPerParent
       (rev (sort_key (\<lambda>t. (t_seen t, t_id t)) (filter (\<lambda>t. t_parent t = pid) seen))))"

definition trim_tokens :: "token_view \<Rightarrow> int \<Rightarrow> db \<Rightarrow> db" where
  "trim_tokens view pid d =
     (let gone = surplus_tokens pid (view (device_tokens d)) in d\<lparr>device_tokens := del_where (\<lambda>t. t_id t \<in> set gone) (device_tokens d)\<rparr>)"

definition forget_token :: "(device_token \<Rightarrow> bool) \<Rightarrow> db \<Rightarrow> db" where
  "forget_token p d = d\<lparr>device_tokens := del_where p (device_tokens d)\<rparr>"

definition store_token :: "token_view \<Rightarrow> int \<Rightarrow> str \<Rightarrow> (push_err, bool) tx" where
  \<comment> \<open>the transaction's body\<close>
  "store_token view pid token =
     bindE (lift_err PushDB (query (push_switch pid))) (\<lambda>found.
     bindE (of_option ParentGone found) (\<lambda>enabled.
     if \<not> enabled then bindE (lift_err PushDB (exec (forget_token (\<lambda>t. t_token t = token)))) (\<lambda>_. ret False)
     else
       bindE get_clock (\<lambda>now.
       bindE (lift_err PushDB (insert_id Device_Tokens (upsert_token pid token now))) (\<lambda>_.
       bindE (lift_err PushDB (exec (trim_tokens view pid))) (\<lambda>_.
       ret True)))))"

definition registerDeviceToken :: "token_view \<Rightarrow> int \<Rightarrow> str \<Rightarrow> (push_err, bool) tx" where
  "registerDeviceToken view pid token = in_tx PushDB (store_token view pid token)"

definition decodeDeviceToken :: "str body \<Rightarrow> (refusal, str) tx" where
  "decodeDeviceToken b =
     bindE (of_sum (decodeJSONBody b (u ''Invalid request body''))) (\<lambda>token.
     bindE (guard (validDeviceToken token) (Refuse 400 InvalidDeviceTokenMessage)) (\<lambda>_.
     ret token))"

definition respondParentGone :: refusal where
  "respondParentGone = Refuse 401 (u ''Invalid or expired token'')"

definition push_refusal :: "push_err \<Rightarrow> refusal" where
  "push_refusal e = (case e of ParentGone \<Rightarrow> respondParentGone | PushDB f \<Rightarrow> internal_error ''Internal server error'' f)"

definition PushDisabledTokenMessage :: str where
  "PushDisabledTokenMessage = u ''Push notifications are turned off for this account; device token not registered''"

definition DeviceTokenRegisteredMessage :: str where
  "DeviceTokenRegisteredMessage = u ''Device token registered''"

definition RegisterDeviceTokenHandler :: "token_view \<Rightarrow> int option \<Rightarrow> str body \<Rightarrow> (refusal, str \<times> bool) tx" where
  "RegisterDeviceTokenHandler view parentID b =
     bindE (parent_of_context parentID) (\<lambda>pid.
     bindE (decodeDeviceToken b) (\<lambda>token.
     bindE (lift_err push_refusal (registerDeviceToken view pid token)) (\<lambda>registered.
     ret (if \<not> registered then PushDisabledTokenMessage else DeviceTokenRegisteredMessage, registered))))"

definition RemoveDeviceTokenHandler :: "int option \<Rightarrow> str body \<Rightarrow> (refusal, unit) tx" where
  "RemoveDeviceTokenHandler parentID b =
     bindE (parent_of_context parentID) (\<lambda>pid.
     bindE (decodeDeviceToken b) (\<lambda>token.
     lift_err (internal_error ''Internal server error'')
       (exec (forget_token (\<lambda>t. t_token t = token \<and> t_parent t = pid)))))"

section \<open>The push switch\<close>

definition PushEnabledRequiredMessage :: str where
  "PushEnabledRequiredMessage = u ''push_enabled is required (true or false)''"

definition set_push :: "int \<Rightarrow> bool \<Rightarrow> db \<Rightarrow> bool \<times> db" where
  "set_push pid enabled d =
     (list_ex (\<lambda>p. p_id p = pid) (parents d),
      d\<lparr>parents := upd_where (\<lambda>p. p_id p = pid) (\<lambda>p. p\<lparr>p_push := enabled\<rparr>) (parents d)\<rparr>)"

definition switch_push :: "int \<Rightarrow> bool \<Rightarrow> (push_err, unit) tx" where
  "switch_push pid enabled =
     bindE (lift_err PushDB (stmt (\<lambda>d. Inr (set_push pid enabled d)))) (\<lambda>hit.
     bindE (guard hit ParentGone) (\<lambda>_.
     if \<not> enabled then lift_err PushDB (exec (forget_token (\<lambda>t. t_parent t = pid))) else ret ()))"

definition NotificationSettingsHandler :: "meth \<Rightarrow> int option \<Rightarrow> bool option body \<Rightarrow> (refusal, bool) tx" where
  "NotificationSettingsHandler verb parentID b =
     bindE (parent_of_context parentID) (\<lambda>pid.
     if verb = GET then
       bindE (lift_err (internal_error ''Internal server error'') (query (push_switch pid))) (\<lambda>found.
       of_option respondParentGone found)
     else
       bindE (of_sum (decodeJSONBody b (u ''Invalid request body''))) (\<lambda>req.
       bindE (of_option (Refuse 400 PushEnabledRequiredMessage) req) (\<lambda>enabled.
       bindE (lift_err push_refusal (in_tx PushDB (switch_push pid enabled))) (\<lambda>_.
       ret enabled))))"

section \<open>What the phone table keeps\<close>

definition tokens_held :: "int \<Rightarrow> db \<Rightarrow> int" where
  "tokens_held pid d = count_where (\<lambda>t. t_parent t = pid) (device_tokens d)"

definition good_token :: "db \<Rightarrow> device_token \<Rightarrow> bool" where
  "good_token d t \<longleftrightarrow> validDeviceToken (t_token t) \<and> (\<exists>p \<in> set (parents d). p_id p = t_parent t \<and> p_push p)"

definition phones_sound :: "db \<Rightarrow> bool" where
  "phones_sound d \<longleftrightarrow>
     unique_key t_id (device_tokens d) \<and> unique_key t_token (device_tokens d) \<and> (\<forall>t \<in> set (device_tokens d). good_token d t)"

definition phones_within :: "nat \<Rightarrow> db \<Rightarrow> bool" where
  "phones_within n d \<longleftrightarrow> phones_sound d \<and> (\<forall>pid. tokens_held pid d \<le> int (MaxDeviceTokensPerParent + n))"

definition hides_at_most :: "nat \<Rightarrow> token_view \<Rightarrow> bool" where
  \<comment> \<open>the statement misses at most n phones of any one parent\<close>
  "hides_at_most n view \<longleftrightarrow>
     (\<forall>rows pid. unique_key t_token rows \<longrightarrow> length (filter (\<lambda>t. t_parent t = pid \<and> t \<notin> set (view rows)) rows) \<le> n)"

lemma alone_hides_nothing: "hides_at_most n alone"
  by (simp add: hides_at_most_def)

lemma count_where_le: "(\<And>r. r \<in> set rs \<Longrightarrow> p r \<Longrightarrow> q r) \<Longrightarrow> count_where p rs \<le> count_where q rs"
  by (induction rs) (auto simp: count_where_def)

lemma count_del_le: "count_where p (del_where q rs) \<le> count_where p rs"
  by (induction rs) (auto simp: count_where_def del_where_def)

lemma count_upd_le: "(\<And>r. r \<in> set rs \<Longrightarrow> q r \<Longrightarrow> p (f r) \<Longrightarrow> p r) \<Longrightarrow> count_where p (upd_where q f rs) \<le> count_where p rs"
  by (induction rs) (auto simp: count_where_def upd_where_def)

lemma forget_keeps: "phones_within n d \<Longrightarrow> phones_within n (forget_token p d)"
proof -
  assume d: "phones_within n d"
  have "tokens_held pid (forget_token p d) \<le> int (MaxDeviceTokensPerParent + n)" for pid
    using d count_del_le [of "\<lambda>t. t_parent t = pid" p "device_tokens d"]
    by (auto simp: phones_within_def tokens_held_def forget_token_def intro: order_trans)
  then show ?thesis
    using d by (auto simp: phones_within_def phones_sound_def forget_token_def good_token_def unique_key_def distinct_map_del_where)
qed

lemma upsert_token_ok:
  assumes "phones_sound d" "push_switch pid d = Some True" "validDeviceToken token" "upsert_token pid token now i d = Inr (x, d')"
  shows "phones_sound d' \<and> (\<forall>q. q \<noteq> pid \<longrightarrow> tokens_held q d' \<le> tokens_held q d) \<and> parents d' = parents d \<and>
    (\<exists>t \<in> set (device_tokens d'). t_token t = token \<and> t_parent t = pid \<and> t_seen t = to_micro now)"
proof -
  have p: "\<exists>p \<in> set (parents d). p_id p = pid \<and> p_push p"
    using assms(2) by (auto simp: push_switch_def dest: find_row_Some)
  let ?f = "\<lambda>t. t\<lparr>t_created := (if t_parent t = pid then t_created t else to_micro now), t_parent := pid, t_seen := to_micro now\<rparr>"
  show ?thesis
  proof (cases "list_ex (\<lambda>t. t_token t = token) (device_tokens d)")
    case True
    then have d': "d' = d\<lparr>device_tokens := upd_where (\<lambda>t. t_token t = token) ?f (device_tokens d)\<rparr>"
      using assms(4) by (auto simp: upsert_token_def split: if_splits)
    have "phones_sound d'"
      using assms(1,3) p by (auto simp: d' phones_sound_def unique_key_def map_upd_where good_token_def set_upd_where)
    moreover have "tokens_held q d' \<le> tokens_held q d" if "q \<noteq> pid" for q
      unfolding d' tokens_held_def tokens.rows_put by (rule count_upd_le) (use that in simp)
    moreover from True obtain t where "t \<in> set (device_tokens d)" "t_token t = token" by (auto simp: list_ex_iff)
    then have "\<exists>t \<in> set (device_tokens d'). t_token t = token \<and> t_parent t = pid \<and> t_seen t = to_micro now"
      by (intro bexI [of _ "?f t"]) (auto simp: d' set_upd_where)
    ultimately show ?thesis by (simp add: d')
  next
    case False
    let ?t = "\<lparr>t_id = i, t_parent = pid, t_token = token, t_created = to_micro now, t_seen = to_micro now\<rparr>"
    have d': "d' = d\<lparr>device_tokens := device_tokens d @ [?t]\<rparr>" and i: "i \<notin> t_id ` set (device_tokens d)"
      using assms(4) False by (auto simp: upsert_token_def split: if_splits)
    have "phones_sound d'"
      using assms(1,3) p False i by (auto simp: d' phones_sound_def unique_key_def good_token_def list_ex_iff)
    moreover have "tokens_held q d' \<le> tokens_held q d" if "q \<noteq> pid" for q
      using that by (simp add: d' tokens_held_def count_where_def)
    ultimately show ?thesis by (auto simp: d')
  qed
qed

lemma trim_bounds:
  assumes "unique_key t_id (device_tokens d)" "unique_key t_token (device_tokens d)" "hides_at_most n view"
  shows "tokens_held pid (trim_tokens view pid d) \<le> int (MaxDeviceTokensPerParent + n)"
proof -
  let ?R = "device_tokens d"
  let ?S = "rev (sort_key (\<lambda>t. (t_seen t, t_id t)) (filter (\<lambda>t. t_parent t = pid) (view ?R)))"
  let ?stay = "\<lambda>t. t_parent t = pid \<and> t_id t \<notin> set (map t_id (drop MaxDeviceTokensPerParent ?S))"
  have "distinct ?R" using assms(1) by (simp add: unique_key_def distinct_map)
  then have card: "length (filter P ?R) = card {t \<in> set ?R. P t}" for P
    by (simp add: distinct_length_filter Int_def conj_commute)
  have "tokens_held pid (trim_tokens view pid d) = int (length (filter ?stay ?R))"
    by (simp add: tokens_held_def trim_tokens_def surplus_tokens_def count_where_def del_where_def Let_def conj_commute)
  also have "length (filter ?stay ?R) = card {t \<in> set ?R. ?stay t}" by (rule card)
  also have "\<dots> \<le> card (set (take MaxDeviceTokensPerParent ?S) \<union> {t \<in> set ?R. t_parent t = pid \<and> t \<notin> set (view ?R)})"
  proof (rule card_mono)
    show "{t \<in> set ?R. ?stay t} \<subseteq>
        set (take MaxDeviceTokensPerParent ?S) \<union> {t \<in> set ?R. t_parent t = pid \<and> t \<notin> set (view ?R)}"
    proof
      fix t assume t: "t \<in> {t \<in> set ?R. ?stay t}"
      show "t \<in> set (take MaxDeviceTokensPerParent ?S) \<union> {t \<in> set ?R. t_parent t = pid \<and> t \<notin> set (view ?R)}"
      proof (cases "t \<in> set (view ?R)")
        case True
        then have "t \<in> set ?S" using t by simp
        then have "t \<in> set (take MaxDeviceTokensPerParent ?S) \<union> set (drop MaxDeviceTokensPerParent ?S)"
          by (simp only: set_append [symmetric] append_take_drop_id)
        moreover have "t \<notin> set (drop MaxDeviceTokensPerParent ?S)" using t by auto
        ultimately show ?thesis by simp
      qed (use t in simp)
    qed
  qed simp
  also have "\<dots> \<le> card (set (take MaxDeviceTokensPerParent ?S)) + card {t \<in> set ?R. t_parent t = pid \<and> t \<notin> set (view ?R)}"
    by (rule card_Un_le)
  also have "\<dots> \<le> MaxDeviceTokensPerParent + n"
  proof (rule add_mono)
    show "card (set (take MaxDeviceTokensPerParent ?S)) \<le> MaxDeviceTokensPerParent"
      by (rule order_trans [OF card_length]) (simp only: length_take min.cobounded2)
    have "card {t \<in> set ?R. t_parent t = pid \<and> t \<notin> set (view ?R)} =
        length (filter (\<lambda>t. t_parent t = pid \<and> t \<notin> set (view ?R)) ?R)"
      by (simp only: card)
    then show "card {t \<in> set ?R. t_parent t = pid \<and> t \<notin> set (view ?R)} \<le> n"
      using assms(2,3) by (simp add: hides_at_most_def)
  qed
  finally show ?thesis by (simp only: of_nat_le_iff)
qed

lemma trim_keeps:
  assumes "phones_sound d" "\<And>q. q \<noteq> pid \<Longrightarrow> tokens_held q d \<le> int (MaxDeviceTokensPerParent + n)" "hides_at_most n view"
  shows "phones_within n (trim_tokens view pid d)"
proof -
  have s: "phones_sound (trim_tokens view pid d)"
    using assms(1) by (auto simp: phones_sound_def trim_tokens_def Let_def unique_key_def distinct_map_del_where good_token_def)
  have "tokens_held q (trim_tokens view pid d) \<le> int (MaxDeviceTokensPerParent + n)" for q
  proof (cases "q = pid")
    case True
    then show ?thesis using trim_bounds assms(1,3) by (simp add: phones_sound_def)
  next
    case False
    then show ?thesis
      using assms(2) [OF False] count_del_le [of "\<lambda>t. t_parent t = q" _ "device_tokens d"]
      by (force simp: tokens_held_def trim_tokens_def Let_def intro: order_trans)
  qed
  with s show ?thesis by (simp add: phones_within_def)
qed

lemma phones_parents:
  assumes "phones_within n d" "\<And>p. p \<in> set (parents d) \<Longrightarrow> \<exists>q \<in> set ps. p_id q = p_id p \<and> p_push q = p_push p"
  shows "phones_within n (d\<lparr>parents := ps\<rparr>)"
proof -
  have "good_token (d\<lparr>parents := ps\<rparr>) t" if t: "t \<in> set (device_tokens d)" for t
  proof -
    obtain p where p: "validDeviceToken (t_token t)" "p \<in> set (parents d)" "p_id p = t_parent t" "p_push p"
      using assms(1) t by (auto simp: phones_within_def phones_sound_def good_token_def)
    with assms(2) [of p] show ?thesis by (auto simp: good_token_def)
  qed
  then show ?thesis using assms(1) by (simp add: phones_within_def phones_sound_def tokens_held_def)
qed

lemma phones_upd_parents:
  "phones_within n d \<Longrightarrow> (\<And>p. p_id (f p) = p_id p \<and> p_push (f p) = p_push p) \<Longrightarrow>
   phones_within n (d\<lparr>parents := upd_where c f (parents d)\<rparr>)"
  by (erule phones_parents, rule_tac x = "if c p then f p else p" in bexI) (auto simp: upd_where_def)

lemma phones_frame: "phones_within n d \<Longrightarrow> parents d' = parents d \<Longrightarrow> device_tokens d' = device_tokens d \<Longrightarrow> phones_within n d'"
  by (simp add: phones_within_def phones_sound_def good_token_def tokens_held_def)

lemma store_token_ok:
  assumes "store_token view pid token w = (Inr stored, w')"
  shows "if stored then push_switch pid (db w) = Some True \<and>
       (\<exists>i x d'. upsert_token pid token (clock w) i (db w) = Inr (x, d') \<and> db w' = trim_tokens view pid d')
     else push_switch pid (db w) = Some False \<and> db w' = forget_token (\<lambda>t. t_token t = token) (db w)"
proof -
  from assms obtain w1 enabled where q: "db w1 = db w" "clock w1 = clock w" "push_switch pid (db w) = Some enabled"
    and r: "(if \<not> enabled then bindE (lift_err PushDB (exec (forget_token (\<lambda>t. t_token t = token)))) (\<lambda>_. ret False)
      else bindE get_clock (\<lambda>now. bindE (lift_err PushDB (insert_id Device_Tokens (upsert_token pid token now)))
        (\<lambda>_. bindE (lift_err PushDB (exec (trim_tokens view pid))) (\<lambda>_. ret True)))) w1 = (Inr stored, w')"
    unfolding store_token_def by (auto simp: bindE_ok simple_ok dest!: query_okD)
  show ?thesis
  proof (cases enabled)
    case False
    with q r show ?thesis by (auto simp: bindE_ok simple_ok exec_ok)
  next
    case True
    with q r obtain i x d' where "upsert_token pid token (clock w) i (db w) = Inr (x, d')" "db w' = trim_tokens view pid d'" stored
      by (auto simp: bindE_ok simple_ok exec_ok elim!: insert_id_ok)
    with q True show ?thesis by auto
  qed
qed

lemma stored_only_on: "store_token view pid token w = (Inr stored, w') \<Longrightarrow> stored \<Longrightarrow> push_switch pid (db w) = Some True"
  using store_token_ok [of view pid token w stored w'] by simp

lemma keeps_store_token:
  assumes "validDeviceToken token" "hides_at_most n view"
  shows "keeps_ok (phones_within n) (store_token view pid token)"
proof (rule keeps_okI)
  fix w stored w'
  assume d: "phones_within n (db w)" and run: "store_token view pid token w = (Inr stored, w')"
  show "phones_within n (db w')"
  proof (cases stored)
    case False
    with store_token_ok [OF run] d show ?thesis by (simp add: forget_keeps)
  next
    case True
    with store_token_ok [OF run] obtain i x d' where p: "push_switch pid (db w) = Some True"
      and u: "upsert_token pid token (clock w) i (db w) = Inr (x, d')" and w': "db w' = trim_tokens view pid d'" by auto
    have "phones_sound (db w)" using d by (simp add: phones_within_def)
    from upsert_token_ok [OF this p assms(1) u] d show ?thesis
      unfolding w' using assms(2) by (intro trim_keeps) (auto simp: phones_within_def intro: order_trans)
  qed
qed

interpretation phone_write: guarded_write "phones_within n" "if validDeviceToken token \<and> hides_at_most n view then store_token view pid token else fail e" PushDB
  by unfold_locales (simp add: keeps_store_token keeps_keeps_ok keeps_fail)

lemma keeps_registerDeviceToken: "validDeviceToken token \<Longrightarrow> hides_at_most n view \<Longrightarrow> keeps (phones_within n) (registerDeviceToken view pid token)"
  using phone_write.write_keeps [of n token view pid] by (simp add: registerDeviceToken_def)

lemma keeps_switch_push: "keeps_ok (phones_within n) (switch_push pid enabled)"
proof (rule keeps_okI)
  fix w x w'
  assume d: "phones_within n (db w)" and run: "switch_push pid enabled w = (Inr x, w')"
  let ?ps = "upd_where (\<lambda>p. p_id p = pid) (\<lambda>p. p\<lparr>p_push := enabled\<rparr>) (parents (db w))"
  let ?d = "(db w)\<lparr>parents := ?ps\<rparr>"
  have w': "db w' = (if enabled then ?d else forget_token (\<lambda>t. t_parent t = pid) ?d)"
    using run by (auto simp: switch_push_def bindE_ok simple_ok exec_ok set_push_def elim!: stmt_ok split: if_splits)
  let ?rest = "forget_token (\<lambda>t. \<not> enabled \<and> t_parent t = pid) (db w)"
  have "phones_within n ?rest" using d by (rule forget_keeps)
  have good: "good_token (?rest\<lparr>parents := ?ps\<rparr>) t" if "t \<in> set (device_tokens ?rest)" for t
  proof -
    from that have t: "t \<in> set (device_tokens (db w))" "enabled \<or> t_parent t \<noteq> pid" by (auto simp: forget_token_def)
    then obtain p where p: "validDeviceToken (t_token t)" "p \<in> set (parents (db w))" "p_id p = t_parent t" "p_push p"
      using d by (auto simp: phones_within_def phones_sound_def good_token_def)
    let ?p = "if p_id p = pid then p\<lparr>p_push := enabled\<rparr> else p"
    have "?p \<in> set ?ps" using p(2) by (auto simp: upd_where_def)
    with p t(2) show ?thesis unfolding good_token_def by (intro conjI bexI [of _ ?p]) (auto simp: forget_token_def)
  qed
  have "phones_within n (?rest\<lparr>parents := ?ps\<rparr>)"
    using \<open>phones_within n ?rest\<close> good by (simp add: phones_within_def phones_sound_def tokens_held_def)
  moreover have "db w' = ?rest\<lparr>parents := ?ps\<rparr>" by (simp add: w' forget_token_def del_where_def)
  ultimately show "phones_within n (db w')" by simp
qed

interpretation push_switch_write: guarded_write "phones_within n" "switch_push pid enabled" PushDB
  by unfold_locales (rule keeps_switch_push)

lemma keeps_decode_token:
  assumes "\<And>token. validDeviceToken token \<Longrightarrow> keeps P (f token)"
  shows "keeps P (bindE (decodeDeviceToken b) f)"
  by (rule keeps_bind_post [where Q = validDeviceToken])
    (auto intro!: keeping assms simp: decodeDeviceToken_def bindE_ok simple_ok)

lemma keeps_parent_of_context: "keeps P (parent_of_context z)"
  by (simp add: parent_of_context_def keeps_of_option)

lemma phone_handlers_keep:
  "hides_at_most n view \<Longrightarrow> keeps (phones_within n) (RegisterDeviceTokenHandler view parentID tb)"
  "keeps (phones_within n) (RemoveDeviceTokenHandler parentID tb)"
  "keeps (phones_within n) (NotificationSettingsHandler verb parentID sb)"
  "keeps (phones_within n) (MarkNotificationReadHandler parentID idParam)"
  "keeps (phones_within n) (MarkAllNotificationsReadHandler parentID)"
proof -
  have m: "phones_within n d'" if "phones_within n d" "mark_read p d = (k, d')" for p d k d'
    using that by (auto simp: mark_read_def intro: phones_frame)
  show "keeps (phones_within n) (RegisterDeviceTokenHandler view parentID tb)" if "hides_at_most n view"
    unfolding RegisterDeviceTokenHandler_def
    by (intro keeps_bindE keeps_parent_of_context keeps_decode_token keeps_lift_err keeps_registerDeviceToken that keeps_ret)
  show "keeps (phones_within n) (RemoveDeviceTokenHandler parentID tb)"
    unfolding RemoveDeviceTokenHandler_def
    by (intro keeps_bindE keeps_parent_of_context keeps_decode_token keeps_lift_err keeps_exec forget_keeps)
  show "keeps (phones_within n) (NotificationSettingsHandler verb parentID sb)"
    unfolding NotificationSettingsHandler_def
    by (intro keeps_bindE keeps_parent_of_context keeps_if keeps_lift_err keeps_query keeps_of_option keeps_of_sum keeps_ret
        push_switch_write.write_keeps)
  show "keeps (phones_within n) (MarkNotificationReadHandler parentID idParam)"
    unfolding MarkNotificationReadHandler_def
    by (intro keeps_bindE keeps_parent_of_context keeps_of_option keeps_guard keeps_lift_err with_int4_laws(1) keeps_stmt)
      (auto intro: m)
  show "keeps (phones_within n) (MarkAllNotificationsReadHandler parentID)"
    unfolding MarkAllNotificationsReadHandler_def
    by (intro keeps_bindE keeps_parent_of_context keeps_lift_err keeps_stmt) (auto intro: m)
qed

lemma phones_frame_handler: "keeps (phones_within n) (AdminStudentsHandler hash verb param b)"
proof -
  have rename: "phones_within n d'" if "phones_within n d" "rename_parent name phone d = Inr (x, d')" for d name phone x d'
    using that by (auto simp: rename_parent_def intro!: phones_upd_parents)
  have upsert: "phones_within n d'" if d: "phones_within n d" and run: "upsert_parent name phone h i d = Inr (x, d')" for d name phone h i x d'
  proof (cases "find_row (\<lambda>p. p_phone p = phone) (parents d)")
    case None
    have "phones_within n (d\<lparr>parents := parents d @ ps\<rparr>)" for ps using d by (rule phones_parents) auto
    then show ?thesis using None run by (auto simp: upsert_parent_def split: if_splits)
  next
    case (Some p)
    then show ?thesis using d run by (auto simp: upsert_parent_def split: if_splits intro!: phones_upd_parents)
  qed
  have drop: "phones_within n (drop_tokens i d)" if "phones_within n d" for i d
    using forget_keeps [OF that, of "\<lambda>t. t_parent t = i"] by (simp add: forget_token_def drop_tokens_def)
  have ins: "phones_within n d'" if "phones_within n d" "insert_student r pid now i d = Inr (x, d')" for r pid now i d x d'
    using that by (auto simp: insert_student_def split: if_splits intro: phones_frame)
  have upd: "phones_within n d'" if "phones_within n d" "update_student r pid d = Inr (x, d')" for r pid d x d'
    using that by (auto simp: update_student_def Let_def split: if_splits intro: phones_frame)
  have retire: "phones_within n d'" if "phones_within n d" "retire_student i d = (hit, d')" for i d hit d'
    using that by (auto simp: retire_student_def intro: phones_frame)
  have resolve: "keeps (phones_within n) (resolveParent hash name phone pin)" for name phone pin
    unfolding resolveParent_def by (intro keeping) (auto intro: rename upsert drop)
  have "keeps (phones_within n) (post_student hash b)"
    unfolding post_student_def save_new_student_def create_student_def
    by (intro keeps_bindE keeps_guard keeps_NoteActivity keeps_ret keeps_lift_err keeps_of_sum keeps_or_refuse keeps_in_tx
        keeps_keeps_ok resolve keeps_get_clock keeps_with_text keeps_insert_id) (auto intro: ins)
  moreover have "keeps (phones_within n) (put_student hash b)"
    unfolding put_student_def save_changed_student_def change_student_def
    by (intro keeps_bindE keeps_guard keeps_if keeps_NoteActivity keeps_ret keeps_lift_err keeps_of_sum keeps_keep_odd_tag
        keeps_or_refuse keeps_in_tx keeps_keeps_ok resolve keeps_with_text with_int4_laws(1) keeps_stmt) (auto intro: upd)
  moreover have "keeps (phones_within n) (delete_student param)"
    unfolding delete_student_def by (intro keeping with_int4_laws(1)) (auto intro: retire)
  ultimately show ?thesis
    unfolding AdminStudentsHandler_def
    by (cases verb) (auto intro!: keeps_bindE keeps_lift_err keeps_query keeps_ret keeps_fail)
qed

section \<open>Reading every page\<close>

definition before_text :: "int option \<Rightarrow> str" where
  "before_text b = (case b of None \<Rightarrow> [] | Some i \<Rightarrow> itoa i)"

definition my_notifications :: "int \<Rightarrow> world \<Rightarrow> MobileNotificationPayload list" where
  "my_notifications pid w = map mobile_notification (filter (\<lambda>n. n_parent n = Some pid) (notifications (db w)))"

definition notification_page :: "int \<Rightarrow> world \<Rightarrow> int option \<Rightarrow> MobileNotificationPayload list \<times> bool \<times> int option" where
  "notification_page pid w b =
     (case fst (MobileNotificationsHandler GET (Some pid) (before_text b) w) of
        Inl e \<Rightarrow> ([], False, None) | Inr p \<Rightarrow> (np_items p, np_more p, np_next p))"

definition served :: "world \<Rightarrow> bool" where
  \<comment> \<open>no statement fails, and the ids are what the sequence gives\<close>
  "served w \<longleftrightarrow> faults w = [] \<and> unique_key n_id (notifications (db w)) \<and> (\<forall>n \<in> set (notifications (db w)). 1 \<le> n_id n \<and> n_id n < 2 ^ 31)"

lemma mobile_notification_id [simp]: "mn_id (mobile_notification n) = n_id n"
  by (simp add: mobile_notification_def)

lemma last_take: "k < length xs \<Longrightarrow> last (take (Suc k) xs) = xs ! k"
  by (subst last_conv_nth) auto

lemma notifications_query_page:
  "notifications_query pid b (db w) = take (NotificationsPageSize + 1) (newest_first mn_id b (my_notifications pid w))"
proof -
  let ?F = "filter (\<lambda>n. n_parent n = Some pid \<and> (case b of None \<Rightarrow> True | Some i \<Rightarrow> n_id n < i)) (notifications (db w))"
  have f: "filter (below mn_id b) (my_notifications pid w) = map mobile_notification ?F"
    by (cases b) (simp_all add: my_notifications_def filter_map o_def below_def conj_commute)
  have "sort_key mn_id (map mobile_notification ?F) = map mobile_notification (sort_key n_id ?F)"
    using map_sort_key [of mobile_notification mn_id ?F] by simp
  then show ?thesis by (simp add: notifications_query_def newest_first_def f rev_map take_map)
qed

lemma notification_page_run:
  assumes "faults w = []" "b = None \<or> (\<exists>i. b = Some i \<and> 1 \<le> i \<and> i < 2 ^ 31)"
  shows "notification_page pid w b = page_of mn_id NotificationsPageSize b (my_notifications pid w)"
proof -
  have "notifications_before (before_text b) = Inr b"
    using assms(2) by (auto simp: notifications_before_def before_text_def itoa_nonempty Atoi_itoa)
  then show ?thesis
    using assms(1) last_take [of 99 "newest_first mn_id b (my_notifications pid w)"]
    by (auto simp: notification_page_def MobileNotificationsHandler_def bindE_def lift_err_run run_simps parent_of_context_def
        notifications_query_page page_of_def Let_def NotificationsPageSize_def)
qed

interpretation notification_pages: pager served "notification_page pid" "my_notifications pid" mn_id NotificationsPageSize
proof
  fix w b
  assume w: "served w" and b: "b = None \<or> (\<exists>r \<in> set (my_notifications pid w). b = Some (mn_id r))"
  then show "notification_page pid w b = page_of mn_id NotificationsPageSize b (my_notifications pid w)"
    by (intro notification_page_run) (auto simp: served_def my_notifications_def)
next
  fix w assume "served w"
  then have "distinct (map n_id (filter (\<lambda>n. n_parent n = Some pid) (notifications (db w))))"
    by (auto simp: served_def unique_key_def distinct_map inj_on_def)
  then show "distinct (map mn_id (my_notifications pid w))"
    by (simp add: my_notifications_def o_def)
qed (simp add: NotificationsPageSize_def)

lemma decode_token_ok: "decodeDeviceToken b w = (Inr token, w') \<Longrightarrow> b = Body token \<and> validDeviceToken token \<and> w' = w"
  by (cases b) (simp_all add: decodeDeviceToken_def bindE_ok simple_ok)

lemma registered_run:
  assumes "RegisterDeviceTokenHandler view (Some pid) tb w = (Inr (message, registered), w')"
  obtains token w1 w2 where "tb = Body token" "validDeviceToken token" "store_token view pid token w1 = (Inr registered, w2)"
    "db w1 = db w" "clock w1 = clock w" "db w' = db w2"
proof -
  let ?answer = "\<lambda>r. ret (if \<not> r then PushDisabledTokenMessage else DeviceTokenRegisteredMessage, r)"
  have "bindE (decodeDeviceToken tb) (\<lambda>token. bindE (lift_err push_refusal (registerDeviceToken view pid token)) ?answer) w =
      (Inr (message, registered), w')"
    using assms by (simp add: RegisterDeviceTokenHandler_def parent_of_context_def bindE_def run_simps)
  then obtain token w3 where d: "decodeDeviceToken tb w = (Inr token, w3)"
    and k: "bindE (lift_err push_refusal (registerDeviceToken view pid token)) ?answer w3 = (Inr (message, registered), w')"
    by (rule bindE_okE)
  have r: "registerDeviceToken view pid token w3 = (Inr registered, w')"
  proof (cases "registerDeviceToken view pid token w3")
    case (Pair z w4)
    with k show ?thesis by (cases z) (simp_all add: bindE_def lift_err_run run_simps)
  qed
  then have t: "tb = Body token" "validDeviceToken token" "in_tx PushDB (store_token view pid token) w = (Inr registered, w')"
    using decode_token_ok [OF d] by (simp_all add: registerDeviceToken_def)
  from in_tx_ok [OF t(3)] obtain w1 w2 where "store_token view pid token w1 = (Inr registered, w2)" "db w1 = db w" "clock w1 = clock w"
    "db w' = db w2" .
  with t(1,2) show thesis by (rule that)
qed

lemma switched:
  assumes "p \<in> set (upd_where (\<lambda>p. p_id p = i) (\<lambda>p. p\<lparr>p_push := b\<rparr>) ps)" "p_id p = i"
  shows "p_push p = b"
proof -
  from assms(1) obtain q where q: "p = (if p_id q = i then q\<lparr>p_push := b\<rparr> else q)" by (auto simp only: upd_where_def set_map)
  show ?thesis
  proof (cases "p_id q = i")
    case True
    then show ?thesis by (simp add: q)
  next
    case False
    with assms(2) q show ?thesis by simp
  qed
qed

lemma newest_stays:
  assumes "unique_key t_id (device_tokens d)" "t \<in> set (device_tokens d)" "t_parent t = pid"
    and new: "\<And>q. q \<in> set (device_tokens d) \<Longrightarrow> t_parent q = pid \<Longrightarrow> q \<noteq> t \<Longrightarrow> t_seen q < t_seen t"
  shows "t_id t \<notin> set (surplus_tokens pid (device_tokens d))"
proof
  let ?F = "filter (\<lambda>t. t_parent t = pid) (device_tokens d)"
  let ?S = "rev (sort_key (\<lambda>t. (t_seen t, t_id t)) ?F)"
  assume "t_id t \<in> set (surplus_tokens pid (device_tokens d))"
  then obtain r where r: "r \<in> set (drop MaxDeviceTokensPerParent ?S)" "t_id r = t_id t" by (auto simp: surplus_tokens_def)
  have "r \<in> set (device_tokens d)" using set_drop_subset [of _ ?S] r(1) by auto
  then have "r = t" using assms(1,2) r(2) by (auto simp: unique_key_def distinct_map dest: inj_onD)
  moreover obtain j where j: "j < length (drop MaxDeviceTokensPerParent ?S)" "r = drop MaxDeviceTokensPerParent ?S ! j"
    using r(1) unfolding in_set_conv_nth by blast
  ultimately have t: "t = ?S ! (MaxDeviceTokensPerParent + j)" "MaxDeviceTokensPerParent + j < length ?S" by auto
  let ?h = "?S ! 0"
  have "distinct ?S" using assms(1) by (simp add: unique_key_def distinct_map)
  moreover have "0 < length ?S" using t(2) by linarith
  ultimately have "?h = ?S ! (MaxDeviceTokensPerParent + j) \<longleftrightarrow> 0 = MaxDeviceTokensPerParent + j"
    using t(2) by (intro nth_eq_iff_index_eq)
  then have ne: "?h \<noteq> t" unfolding t(1) MaxDeviceTokensPerParent_def by linarith
  have "?h \<in> set ?S" using t(2) by (intro nth_mem) linarith
  then have lt: "t_seen ?h < t_seen t" using new [of ?h] ne by simp
  have "sorted (map (\<lambda>t. (t_seen t, t_id t)) (rev ?S))" by simp
  then have "sorted_wrt (\<lambda>x y. (t_seen y, t_id y) \<le> (t_seen x, t_id x)) ?S"
    by (simp add: sorted_map sorted_wrt_rev)
  then have "(t_seen t, t_id t) \<le> (t_seen ?h, t_id ?h)"
    using sorted_wrt_nth_less [of _ ?S 0 "MaxDeviceTokensPerParent + j"] t by (simp add: MaxDeviceTokensPerParent_def)
  with lt show False by auto
qed

section \<open>Properties\<close>

text \<open>C20. Whatever a parent's app or an admin sends, whatever fails and however registrations overlap, the table of
  registered phones stays sound: no token twice, every token well-formed and held by an existing parent whose push
  switch is on. No parent has more than ten phones when registrations of one parent come one after the other; when a
  registration's search for surplus phones may miss up to n phones of the parent, stored by registrations that overlap
  it, no parent has more than n beyond the ten. The witness is an eleventh phone: two registrations at once.\<close>

theorem phones_stay_sound:
  assumes "phones_within n (db w)" "hides_at_most n view"
  shows "phones_within n (db (snd (RegisterDeviceTokenHandler view parentID tb w))) \<and>
    phones_within n (db (snd (RemoveDeviceTokenHandler parentID tb w))) \<and>
    phones_within n (db (snd (NotificationSettingsHandler verb parentID sb w))) \<and>
    phones_within n (db (snd (MarkNotificationReadHandler parentID idParam w))) \<and>
    phones_within n (db (snd (MarkAllNotificationsReadHandler parentID w))) \<and>
    phones_within n (db (snd (AdminStudentsHandler hash verb param pb w)))"
  using assms phone_handlers_keep phones_frame_handler by (simp add: keeps_def)

text \<open>A parent who turned pushes off has no registered phone left, and registering one while the switch is off
  answers \<open>registered: false\<close> and leaves the parent with none: no push can reach the parent.\<close>

theorem push_off_reaches_nobody:
  assumes off: "NotificationSettingsHandler PUT (Some pid) (Body (Some False)) w = (Inr x, w1)"
    and reg: "RegisterDeviceTokenHandler view (Some pid) tb w1 = (Inr (message, registered), w2)"
  shows "parent_device_tokens (db w1) (Some pid) = None \<and> \<not> registered \<and> parent_device_tokens (db w2) (Some pid) = None"
proof -
  have "in_tx PushDB (switch_push pid False) w = (Inr (), w1)"
    using off by (simp add: NotificationSettingsHandler_def parent_of_context_def bindE_ok simple_ok) (elim exE conjE, simp)
  then obtain w3 w4 where s: "switch_push pid False w3 = (Inr (), w4)" "db w1 = db w4" by (rule in_tx_ok)
  have d1: "db w1 = forget_token (\<lambda>t. t_parent t = pid) (snd (set_push pid False (db w3)))"
    using s by (auto simp: switch_push_def bindE_ok simple_ok exec_ok elim!: stmt_ok)
  then have none: "filter (\<lambda>t. t_parent t = pid) (device_tokens (db w1)) = []"
    by (simp add: forget_token_def del_where_def filter_empty_conv)
  have ps: "parents (db w1) = upd_where (\<lambda>p. p_id p = pid) (\<lambda>p. p\<lparr>p_push := False\<rparr>) (parents (db w3))"
    by (simp add: d1 forget_token_def set_push_def)
  have "push_switch pid (db w1) \<noteq> Some True"
  proof
    assume "push_switch pid (db w1) = Some True"
    then obtain p where p: "find_row (\<lambda>p. p_id p = pid) (parents (db w1)) = Some p" "p_push p" by (auto simp: push_switch_def)
    then have "p \<in> set (parents (db w1)) \<and> p_id p = pid" using find_row_Some [OF p(1)] by simp
    then have "p_push p = False" unfolding ps by (elim conjE) (rule switched)
    with p(2) show False by simp
  qed
  moreover obtain token w5 w6 where t: "store_token view pid token w5 = (Inr registered, w6)" "db w5 = db w1" "db w2 = db w6"
    using reg by (rule registered_run)
  ultimately have "\<not> registered" using stored_only_on [OF t(1)] t(2) by metis
  then have r: "\<not> registered" "db w2 = forget_token (\<lambda>t. t_token t = token) (db w1)"
    using store_token_ok [OF t(1)] t(2,3) by simp_all
  have "filter (\<lambda>t. t_parent t = pid) (device_tokens (db w2)) = []"
    using none by (auto simp: r(2) forget_token_def del_where_def filter_empty_conv)
  with none r(1) show ?thesis by (simp add: parent_device_tokens_def)
qed

text \<open>C21. An app that follows \<open>next_before\<close> from the first page gets, after at most one request per hundred
  notifications and one more, every notification of the parent exactly once, newest first.\<close>

theorem notification_pages_complete:
  assumes "faults w = []" "unique_key n_id (notifications (db w))"
    and "\<forall>n \<in> set (notifications (db w)). 1 \<le> n_id n \<and> n_id n < 2 ^ 31"
  shows "walk (notification_page pid w) (Suc (length (my_notifications pid w) div NotificationsPageSize)) None =
    Some (rev (sort_key mn_id (map mobile_notification (filter (\<lambda>n. n_parent n = Some pid) (notifications (db w))))))"
proof -
  have "served w" using assms by (simp add: served_def)
  then show ?thesis using notification_pages.walk_all [of w pid] by (simp add: my_notifications_def)
qed

text \<open>A phone that registers successfully while its parent's switch is on is one of the parent's phones
  afterwards and nobody else's, provided the parent's other phones were seen earlier.\<close>

theorem registered_phone_is_pushed:
  assumes ok: "phones_sound (db w)"
    and run: "RegisterDeviceTokenHandler alone (Some pid) (Body token) w = (Inr (message, True), w')"
    and earlier: "\<forall>t \<in> set (device_tokens (db w)). t_parent t = pid \<and> t_token t \<noteq> token \<longrightarrow> t_seen t < to_micro (clock w)"
  shows "token \<in> set (tokens_of (db w') pid) \<and> (\<forall>q. q \<noteq> pid \<longrightarrow> token \<notin> set (tokens_of (db w') q))"
proof -
  obtain token' w1 w2 where "Body token = Body token'" "validDeviceToken token'" "store_token alone pid token' w1 = (Inr True, w2)"
    "db w1 = db w" "clock w1 = clock w" "db w' = db w2"
    using run by (rule registered_run)
  then have s: "store_token alone pid token w1 = (Inr True, w2)" "db w1 = db w" "clock w1 = clock w" "db w' = db w2"
    and v: "validDeviceToken token" by simp_all
  then obtain i x d where d: "upsert_token pid token (clock w) i (db w) = Inr (x, d)" and w': "db w' = trim_tokens alone pid d"
    and on: "push_switch pid (db w) = Some True"
    using store_token_ok [OF s(1)] by auto
  from upsert_token_ok [OF ok on v d] obtain t where sd: "phones_sound d"
    and t: "t \<in> set (device_tokens d)" "t_token t = token" "t_parent t = pid" "t_seen t = to_micro (clock w)" by auto
  have new: "t_seen q < t_seen t" if "q \<in> set (device_tokens d)" "t_parent q = pid" "q \<noteq> t" for q
  proof -
    have "t_token q \<noteq> token" using that t(1,2) sd tokens.unique_row [of d q t] by (auto simp: phones_sound_def)
    then have "q \<in> set (device_tokens (db w))"
      using that(1) d by (auto simp: upsert_token_def set_upd_where split: if_splits)
    then show ?thesis using earlier that(2) t(4) \<open>t_token q \<noteq> token\<close> by auto
  qed
  have "t_id t \<notin> set (surplus_tokens pid (device_tokens d))" using sd t(1,3) new by (intro newest_stays) (auto simp: phones_sound_def)
  then have m: "t \<in> set (device_tokens (db w'))" using t(1) by (simp add: w' trim_tokens_def Let_def)
  have "unique_key t_token (device_tokens (db w'))"
    using sd by (simp add: w' trim_tokens_def Let_def phones_sound_def unique_key_def distinct_map_del_where)
  then have "q = t" if "q \<in> set (device_tokens (db w'))" "t_token q = token" for q
    using that m t(2) tokens.unique_row [of "db w'" q t] by simp
  then show ?thesis using m t(2,3) by (force simp: tokens_of_def)
qed

section \<open>Examples\<close>

definition a_token :: str where "a_token = u ''abcdefghij:0123456789''"

definition mother :: parent where
  "mother = \<lparr>p_id = 1, p_name = u ''Huda'', p_phone = u ''+9647701234567'', p_pin = u ''x'', p_version = 0, p_push = True\<rparr>"

definition app_world :: world where
  "app_world = quiet (empty_db\<lparr>parents := [mother]\<rparr>) (At (Date 2025 10 5) (hm 8 0))"

definition her_phone :: device_token where
  "her_phone = \<lparr>t_id = 1, t_parent = 1, t_token = a_token, t_created = At (Date 2025 10 5) (hm 8 0), t_seen = At (Date 2025 10 5) (hm 8 0)\<rparr>"

definition phone_world :: world where
  "phone_world = app_world\<lparr>serial := (serial app_world)(Device_Tokens := 2), db := empty_db\<lparr>parents := [mother], device_tokens := [her_phone]\<rparr>\<rparr>"

lemma app_simps [simp]:
  "faults app_world = []" "parents (db app_world) = [mother]" "device_tokens (db app_world) = []" "serial app_world t = 1"
  "clock app_world = At (Date 2025 10 5) (hm 8 0)" "p_id mother = 1" "p_push mother"
  by (simp_all add: app_world_def empty_db_def mother_def)

lemma phone_simps [simp]:
  "faults phone_world = []" "parents (db phone_world) = [mother]" "device_tokens (db phone_world) = [her_phone]"
  "serial phone_world Device_Tokens = 2" "clock phone_world = At (Date 2025 10 5) (hm 8 0)" "t_parent her_phone = 1"
  "t_token her_phone = a_token" "t_id her_phone = 1"
  by (simp_all add: phone_world_def her_phone_def)

lemma a_token_valid: "validDeviceToken a_token"
  by (simp add: validDeviceToken_def a_token_def MinDeviceTokenLength_def MaxDeviceTokenLength_def device_token_char_def
      letter_char_def is_digit_def u_def)

lemma register_run:
  "RegisterDeviceTokenHandler alone (Some 1) (Body a_token) app_world = (Inr (DeviceTokenRegisteredMessage, True), phone_world)"
proof -
  have "upsert_token 1 a_token (At (Date 2025 10 5) (hm 8 0)) 1 (db app_world) = Inr ((), (db app_world)\<lparr>device_tokens := [her_phone]\<rparr>)"
    by (simp add: upsert_token_def her_phone_def to_micro_def hm_def sec_def)
  moreover have "trim_tokens alone 1 ((db app_world)\<lparr>device_tokens := [her_phone]\<rparr>) = (db app_world)\<lparr>device_tokens := [her_phone]\<rparr>"
    by (simp add: trim_tokens_def surplus_tokens_def MaxDeviceTokensPerParent_def del_where_def)
  ultimately have "store_token alone 1 a_token app_world = (Inr True, phone_world)"
    by (simp add: store_token_def push_switch_def find_row_def bindE_def run_simps lift_err_run phone_world_def)
      (simp add: app_world_def)
  then show ?thesis
    using a_token_valid
    by (simp add: RegisterDeviceTokenHandler_def parent_of_context_def decodeDeviceToken_def registerDeviceToken_def bindE_def
        run_simps lift_err_run in_tx_run_nil)
qed

lemma app_ok: "phones_within n (db app_world)"
  by (simp add: phones_within_def phones_sound_def unique_key_def tokens_held_def count_where_def)

text \<open>The witness of the bound: a mother with ten phones, one of them (\<open>aaa...\<close>) stored by a registration that committed
  after this one had looked for surplus phones. Ten is all this one saw; the table now has eleven.\<close>

definition phone_of :: "int \<Rightarrow> device_token" where
  "phone_of i = \<lparr>t_id = i, t_parent = 1, t_token = replicate 20 (nat (96 + i)), t_created = At (Date 2025 10 5) 0, t_seen = At (Date 2025 10 5) 0\<rparr>"

definition ten_phones :: world where
  "ten_phones = app_world\<lparr>db := (db app_world)\<lparr>device_tokens := map phone_of [1..10]\<rparr>, serial := (serial app_world)(Device_Tokens := 11)\<rparr>"

definition missed_one :: token_view where
  "missed_one rows = filter (\<lambda>t. t_token t \<noteq> replicate 20 97) rows"

definition eleventh :: str where "eleventh = replicate 20 107"

lemma phone_of_simps [simp]: "t_id (phone_of i) = i" "t_parent (phone_of i) = 1" "t_token (phone_of i) = replicate 20 (nat (96 + i))"
  by (simp_all add: phone_of_def)

lemma missed_one_hides: "hides_at_most 1 missed_one"
proof -
  have "length (filter (\<lambda>t. t_parent t = pid \<and> t \<notin> set (missed_one rows)) rows) \<le> 1" if "unique_key t_token rows" for rows pid
  proof -
    have "filter (\<lambda>t. t_parent t = pid \<and> t \<notin> set (missed_one rows)) rows =
        filter (\<lambda>t. t_parent t = pid) (filter (\<lambda>t. t_token t = replicate 20 97) rows)"
      by (auto simp: missed_one_def intro: filter_cong)
    also have "length \<dots> \<le> length (filter (\<lambda>t. t_token t = replicate 20 97) rows)" by (rule length_filter_le)
    also have "\<dots> \<le> 1"
    proof -
      have "distinct (map t_token (filter (\<lambda>t. t_token t = replicate 20 97) rows))"
        using that by (simp add: unique_key_def distinct_map inj_on_def)
      moreover have "set (map t_token (filter (\<lambda>t. t_token t = replicate 20 97) rows)) \<subseteq> {replicate 20 97}" by auto
      ultimately show ?thesis by (metis card_mono distinct_card finite.emptyI finite.insertI is_singletonI is_singleton_altdef length_map)
    qed
    finally show ?thesis .
  qed
  then show ?thesis by (simp add: hides_at_most_def)
qed

lemma ten_facts:
  "faults ten_phones = []" "parents (db ten_phones) = [mother]" "device_tokens (db ten_phones) = map phone_of [1..10]"
  "serial ten_phones Device_Tokens = 11" "clock ten_phones = At (Date 2025 10 5) (hm 8 0)"
  by (simp_all add: ten_phones_def)

lemma ten_ok: "phones_within n (db ten_phones)"
proof -
  have "validDeviceToken (replicate 20 (nat (96 + i)))" if "i \<in> set [1..10]" for i
    using that by (auto simp: validDeviceToken_def MinDeviceTokenLength_def MaxDeviceTokenLength_def device_token_char_def letter_char_def list_all_iff)
  moreover have "distinct (map (\<lambda>i. replicate 20 (nat (96 + i))) [1..10])"
    by (auto simp: distinct_map inj_on_def)
  moreover have "tokens_held pid (db ten_phones) \<le> 10 + int n" for pid
    by (simp add: tokens_held_def ten_facts count_where_def upto.simps)
  ultimately show ?thesis
    by (auto simp: phones_within_def phones_sound_def ten_facts unique_key_def good_token_def o_def MaxDeviceTokensPerParent_def)
qed

lemma eleventh_run:
  "tokens_held 1 (db (snd (RegisterDeviceTokenHandler missed_one (Some 1) (Body eleventh) ten_phones))) = 11"
proof -
  have v: "validDeviceToken eleventh"
    by (simp add: eleventh_def validDeviceToken_def MinDeviceTokenLength_def MaxDeviceTokenLength_def device_token_char_def
        letter_char_def list_all_iff)
  let ?new = "\<lparr>t_id = 11, t_parent = 1, t_token = eleventh, t_created = to_micro (At (Date 2025 10 5) (hm 8 0)),
      t_seen = to_micro (At (Date 2025 10 5) (hm 8 0))\<rparr>"
  let ?d = "(db ten_phones)\<lparr>device_tokens := map phone_of [1..10] @ [?new]\<rparr>"
  have fresh: "\<not> list_ex (\<lambda>t. t_token t = eleventh) (map phone_of [1..10])" "11 \<notin> t_id ` set (map phone_of [1..10])"
    by (auto simp: list_ex_iff eleventh_def)
  then have ins: "upsert_token 1 eleventh (At (Date 2025 10 5) (hm 8 0)) 11 (db ten_phones) = Inr ((), ?d)"
    by (simp add: upsert_token_def ten_facts del: list.map)
  have "length (filter (\<lambda>t. t_parent t = 1) (missed_one (device_tokens ?d))) = 10"
    by (simp add: missed_one_def upto.simps eleventh_def)
  then have "surplus_tokens 1 (missed_one (device_tokens ?d)) = []"
    by (simp add: surplus_tokens_def MaxDeviceTokensPerParent_def)
  then have trim: "trim_tokens missed_one 1 ?d = ?d" by (simp add: trim_tokens_def del_where_def)
  have "\<exists>w'. store_token missed_one 1 eleventh ten_phones = (Inr True, w') \<and> db w' = ?d \<and> faults w' = []"
    using ins trim
    by (simp add: store_token_def push_switch_def find_row_def bindE_def run_simps lift_err_run ten_facts)
  then have "db (snd (RegisterDeviceTokenHandler missed_one (Some 1) (Body eleventh) ten_phones)) = ?d"
    using v by (auto simp: RegisterDeviceTokenHandler_def parent_of_context_def decodeDeviceToken_def registerDeviceToken_def bindE_def
        run_simps lift_err_run in_tx_run_nil ten_facts)
  then show ?thesis by (simp add: tokens_held_def count_where_def upto.simps)
qed

theorem phones_stay_sound_witness:
  "phones_within 1 (db (snd (RegisterDeviceTokenHandler missed_one (Some 1) (Body eleventh) ten_phones))) \<and>
   tokens_held 1 (db ten_phones) = 10 \<and>
   tokens_held 1 (db (snd (RegisterDeviceTokenHandler missed_one (Some 1) (Body eleventh) ten_phones))) = 11"
  using phones_stay_sound [OF ten_ok missed_one_hides, where parentID = "Some 1" and tb = "Body eleventh", THEN conjunct1] eleventh_run
  by (simp add: tokens_held_def ten_facts count_where_def upto.simps)

theorem registered_phone_is_pushed_witness: "a_token \<in> set (tokens_of (db phone_world) 1)"
  using registered_phone_is_pushed [OF _ register_run] app_ok [of 0] by (simp add: phones_within_def)

lemma switch_off_run:
  "\<exists>w1. NotificationSettingsHandler PUT (Some 1) (Body (Some False)) phone_world = (Inr False, w1) \<and>
     (\<exists>w2. RegisterDeviceTokenHandler alone (Some 1) (Body a_token) w1 = (Inr (PushDisabledTokenMessage, False), w2))"
proof -
  let ?off = "phone_world\<lparr>db := empty_db\<lparr>parents := [mother\<lparr>p_push := False\<rparr>]\<rparr>\<rparr>"
  have "switch_push 1 False phone_world = (Inr (), ?off)"
    by (simp add: switch_push_def set_push_def forget_token_def del_where_def upd_where_def bindE_def run_simps lift_err_run)
      (simp add: phone_world_def empty_db_def)
  then have "NotificationSettingsHandler PUT (Some 1) (Body (Some False)) phone_world = (Inr False, ?off)"
    by (simp add: NotificationSettingsHandler_def parent_of_context_def bindE_def run_simps lift_err_run in_tx_run_nil)
  moreover have "store_token alone 1 a_token ?off = (Inr False, ?off)"
    by (simp add: store_token_def push_switch_def find_row_def bindE_def run_simps lift_err_run forget_token_def del_where_def)
      (simp add: phone_world_def empty_db_def)
  then have "RegisterDeviceTokenHandler alone (Some 1) (Body a_token) ?off = (Inr (PushDisabledTokenMessage, False), ?off)"
    using a_token_valid
    by (simp add: RegisterDeviceTokenHandler_def parent_of_context_def decodeDeviceToken_def registerDeviceToken_def bindE_def
        run_simps lift_err_run in_tx_run_nil)
  ultimately show ?thesis by blast
qed

theorem push_off_reaches_nobody_witness:
  "\<exists>w1. NotificationSettingsHandler PUT (Some 1) (Body (Some False)) phone_world = (Inr False, w1) \<and>
     parent_device_tokens (db w1) (Some 1) = None"
proof -
  from switch_off_run obtain w1 w2 where
    "NotificationSettingsHandler PUT (Some 1) (Body (Some False)) phone_world = (Inr False, w1)"
    "RegisterDeviceTokenHandler alone (Some 1) (Body a_token) w1 = (Inr (PushDisabledTokenMessage, False), w2)" by (elim exE conjE)
  with push_off_reaches_nobody [OF this] show ?thesis by (intro exI [of _ w1]) simp
qed

definition busy_world :: world where
  "busy_world = quiet (empty_db\<lparr>notifications := map (\<lambda>i. \<lparr>n_id = i, n_parent = Some 1, n_title = u ''t'', n_body = u ''b'',
     n_read = False, n_created = At (Date 2025 10 5) 0, n_broadcast = None\<rparr>) [1..150]\<rparr>) (At (Date 2025 10 5) (hm 8 0))"

theorem notification_pages_complete_witness:
  "\<exists>all. walk (notification_page 1 busy_world) 2 None = Some all \<and> length all = 150"
proof -
  let ?n = "notifications (db busy_world)"
  have n: "?n = map (\<lambda>i. \<lparr>n_id = i, n_parent = Some 1, n_title = u ''t'', n_body = u ''b'', n_read = False,
      n_created = At (Date 2025 10 5) 0, n_broadcast = None\<rparr>) [1..150]" by (simp add: busy_world_def)
  have l: "length (my_notifications 1 busy_world) = 150" by (simp add: my_notifications_def n filter_map o_def)
  have "walk (notification_page 1 busy_world) (Suc (length (my_notifications 1 busy_world) div NotificationsPageSize)) None =
      Some (rev (sort_key mn_id (map mobile_notification (filter (\<lambda>n. n_parent n = Some 1) ?n))))"
  proof (rule notification_pages_complete)
    show "faults busy_world = []" by (simp add: busy_world_def)
    show "unique_key n_id ?n" unfolding n unique_key_def map_map o_def by simp
    show "\<forall>n \<in> set ?n. 1 \<le> n_id n \<and> n_id n < 2 ^ 31" by (auto simp: n)
  qed
  moreover have "length (filter (\<lambda>n. n_parent n = Some 1) ?n) = 150" by (simp add: n filter_map o_def)
  ultimately show ?thesis unfolding l by (simp add: NotificationsPageSize_def numeral_2_eq_2)
qed

end
