(* ===== verification/Sequences.thy ===== *)
theory Sequences
  imports Transactions
begin

text \<open>
  Facts about a table together with the sequence its ids are drawn from. No rollback gives an id back, so what
  holds of the rows and of every id drawn so far survives every run whose statements keep it: the locale states
  what such a fact must satisfy and carries it through the combinators.
\<close>

locale sequence_fact =
  fixes t :: tbl and fact :: "db \<Rightarrow> int \<Rightarrow> bool"
  assumes drawn: "fact d i \<Longrightarrow> i \<le> j \<Longrightarrow> fact d j"
begin

definition holds :: "('e, 'a) tx \<Rightarrow> bool" where
  "holds m \<longleftrightarrow> (\<forall>w. serial w t \<le> serial (snd (m w)) t \<and>
     (fact (db w) (serial w t) \<longrightarrow> fact (db (snd (m w))) (serial (snd (m w)) t)))"

lemma holdsI:
  "(\<And>w r w'. m w = (r, w') \<Longrightarrow> serial w t \<le> serial w' t \<and> (fact (db w) (serial w t) \<longrightarrow> fact (db w') (serial w' t))) \<Longrightarrow> holds m"
  unfolding holds_def by (metis prod.collapse)

lemma holdsD:
  "holds m \<Longrightarrow> m w = (r, w') \<Longrightarrow> serial w t \<le> serial w' t"
  "holds m \<Longrightarrow> m w = (r, w') \<Longrightarrow> fact (db w) (serial w t) \<Longrightarrow> fact (db w') (serial w' t)"
  unfolding holds_def by (metis snd_conv)+

lemma holds_simple:
  "holds (ret x)" "holds (fail e)" "holds (guard b e)" "holds get_clock" "holds (NoteActivity p q r)"
  "holds (of_sum s)" "holds (of_option e z)"
  by (simp_all add: holds_def run_simps)

lemma holds_bindE: "holds m \<Longrightarrow> (\<And>x. holds (f x)) \<Longrightarrow> holds (bindE m f)"
  unfolding holds_def bindE_alt by (auto split: sum.split intro: order_trans)

lemma holds_catchE: "holds m \<Longrightarrow> (\<And>e. holds (h e)) \<Longrightarrow> holds (catchE m h)"
  unfolding holds_def catchE_alt by (auto split: sum.split intro: order_trans)

lemma holds_lift_err: "holds m \<Longrightarrow> holds (lift_err g m)"
  by (simp add: lift_err_def holds_catchE holds_simple)

lemma holds_attempt: "holds m \<Longrightarrow> holds (attempt m)"
  by (simp add: holds_def attempt_run)

lemma holds_cases:
  "(b \<Longrightarrow> holds m) \<Longrightarrow> (\<not> b \<Longrightarrow> holds n) \<Longrightarrow> holds (if b then m else n)"
  "(\<And>e. v = Inl e \<Longrightarrow> holds (h e)) \<Longrightarrow> (\<And>x. v = Inr x \<Longrightarrow> holds (k x)) \<Longrightarrow> holds (case v of Inl e \<Rightarrow> h e | Inr x \<Rightarrow> k x)"
  "(z = None \<Longrightarrow> holds m) \<Longrightarrow> (\<And>x. z = Some x \<Longrightarrow> holds (g x)) \<Longrightarrow> holds (case z of None \<Rightarrow> m | Some x \<Rightarrow> g x)"
  by (auto split: sum.split option.split)

lemma holds_stmt: "(\<And>d i x d'. fact d i \<Longrightarrow> f d = Inr (x, d') \<Longrightarrow> fact d' i) \<Longrightarrow> holds (stmt f)"
proof (rule holdsI)
  fix w r w'
  assume f: "\<And>d i x d'. fact d i \<Longrightarrow> f d = Inr (x, d') \<Longrightarrow> fact d' i" and run: "stmt f w = (r, w')"
  then show "serial w t \<le> serial w' t \<and> (fact (db w) (serial w t) \<longrightarrow> fact (db w') (serial w' t))"
    by (cases rule: next_fault_cases [of w]) (auto simp: stmt_def split: sum.splits)
qed

lemma holds_exec: "(\<And>d i. fact d i \<Longrightarrow> fact (f d) i) \<Longrightarrow> holds (exec f)"
  by (auto simp: exec_def intro: holds_stmt)

lemma holds_query: "holds (query f)"
  by (auto simp: query_def intro: holds_stmt)

lemma holds_control: "holds control"
  by (simp add: control_def holds_exec)

lemma holds_with_text: "holds m \<Longrightarrow> holds (with_text ts m)"
  by (auto simp: with_text_def intro: holds_stmt)

lemma holds_with_int4: "holds m \<Longrightarrow> holds (with_int4 xs m)"
  by (auto simp: with_int4_def intro: holds_stmt)

lemma holds_insert_ids:
  assumes "\<And>i d n r. f i d = (n, r) \<Longrightarrow> i \<le> n"
    and "\<And>i d n x d' j. fact d j \<Longrightarrow> f i d = (n, Inr (x, d')) \<Longrightarrow> (if t' = t then j = i else True) \<Longrightarrow> fact d' (if t' = t then n else j)"
  shows "holds (insert_ids t' f)"
proof (rule holdsI)
  fix w r w'
  assume run: "insert_ids t' f w = (r, w')"
  obtain z w1 where nf: "next_fault w = (z, w1)" by fastforce
  then have w1: "db w1 = db w" "serial w1 = serial w" using next_fault_fields [of w] by simp_all
  show "serial w t \<le> serial w' t \<and> (fact (db w) (serial w t) \<longrightarrow> fact (db w') (serial w' t))"
  proof (cases z)
    case (Some e)
    then show ?thesis using run nf w1 by (simp add: insert_ids_def)
  next
    case None
    obtain n v where f: "f (serial w t') (db w) = (n, v)" by fastforce
    then have le: "serial w t' \<le> n" by (rule assms(1))
    show ?thesis
    proof (cases v)
      case (Inl e)
      then have "db w' = db w" "serial w' = (serial w)(t' := n)" using run nf w1 None f by (auto simp: insert_ids_def)
      then show ?thesis using le drawn by (cases "t' = t") auto
    next
      case (Inr y)
      then obtain x d' where y: "v = Inr (x, d')" by (cases y) auto
      then have w': "db w' = d'" "serial w' = (serial w)(t' := n)" using run nf w1 None f by (auto simp: insert_ids_def)
      have s: "serial w' t = (if t' = t then n else serial w t)" using w'(2) by simp
      have "fact (db w) (serial w t) \<Longrightarrow> fact d' (if t' = t then n else serial w t)"
        by (rule assms(2)) (use f y in auto)
      with le show ?thesis unfolding s w'(1) by auto
    qed
  qed
qed

lemma holds_insert_id:
  assumes "\<And>i d x d' j. fact d j \<Longrightarrow> f i d = Inr (x, d') \<Longrightarrow> (if t' = t then j = i else True) \<Longrightarrow> fact d' (if t' = t then i + 1 else j)"
  shows "holds (insert_id t' f)"
  unfolding insert_id_def by (rule holds_insert_ids) (use assms in auto)

lemma holds_in_tx:
  assumes "holds m"
  shows "holds (in_tx lift m)"
proof (rule holdsI)
  fix w r w'
  assume run: "in_tx lift m w = (r, w')"
  have mono: "serial w t \<le> serial w' t"
  proof -
    obtain a w1 b w2 c w3 where s: "control w = (a, w1)" "m w1 = (b, w2)" "control w2 = (c, w3)" by (metis prod.exhaust)
    then have "serial w t \<le> serial w1 t" "serial w1 t \<le> serial w2 t" "serial w2 t \<le> serial w3 t"
      using holdsD(1) [OF assms] holdsD(1) [OF holds_control] by blast+
    then show ?thesis using run s by (auto simp: in_tx_def split: sum.splits)
  qed
  show "serial w t \<le> serial w' t \<and> (fact (db w) (serial w t) \<longrightarrow> fact (db w') (serial w' t))"
  proof (cases r)
    case (Inl e)
    then have "db w' = db w" using run in_tx_rollback by metis
    then show ?thesis using mono drawn by auto
  next
    case (Inr x)
    then obtain w1 w2 where "m w1 = (Inr x, w2)" "db w1 = db w" "serial w1 = serial w" "db w' = db w2" "serial w' = serial w2"
      using run in_tx_ok by metis
    then show ?thesis using mono holdsD(2) [OF assms] by auto
  qed
qed

lemmas holding = holds_simple holds_bindE holds_lift_err holds_attempt holds_query holds_control holds_with_text holds_with_int4
  holds_in_tx

end

end
