(* ===== verification/Sessions.thy ===== *)
theory Sessions
  imports ParentApp RateLimit Sequences
begin

text \<open>
  Signing in and out: the tokens of \<open>internal/auth/jwt.go\<close>, the middlewares of \<open>internal/handlers/middleware.go\<close>,
  the two logins with their limits (\<open>login.go\<close>, \<open>mobile.go\<close>, \<open>admin.go\<close>) and the deletion of a parent's
  account (\<open>parent_account.go\<close>). The JWT library is two parameters: \<open>sign\<close> gives the token of a set of claims, and
  \<open>verify now\<close> the claims of a token it accepts at that time. bcrypt is \<open>matches\<close> (hash, secret), SHA-256 is
  \<open>digest\<close> (the hexadecimal text \<open>limiterKey\<close> keeps). The limiter's clock is a number of nanoseconds.
\<close>

section \<open>Claims\<close>

type_synonym claims = "(str \<times> json) list"

definition claim :: "claims \<Rightarrow> string \<Rightarrow> json option" where
  "claim c k = map_of c (u k)"

definition unix :: "stamp \<Rightarrow> int" where
  \<comment> \<open>\<open>Unix()\<close> of an instant of the school's clock, three hours ahead of UTC\<close>
  "unix t = (int (day_number (on_date t)) - int (day_number (Date 1970 1 1))) * 86400 + int (clock_of t div sec) - 10800"

definition ParentTokenTTL :: int where "ParentTokenTTL = 30 * 24 * 3600"

definition AdminTokenTTL :: int where "AdminTokenTTL = 7 * 24 * 3600"

definition SessionVersionClaim :: string where "SessionVersionClaim = ''sv''"

definition parent_claims :: "int \<Rightarrow> str \<Rightarrow> int \<Rightarrow> stamp \<Rightarrow> claims" where
  "parent_claims parentID phone sessionVersion now =
     [(u ''parent_id'', JInt parentID), (u ''phone'', JStr phone), (u ''role'', JStr (u ''parent'')),
      (u SessionVersionClaim, JInt sessionVersion), (u ''exp'', JInt (unix now + ParentTokenTTL)), (u ''iat'', JInt (unix now))]"

definition admin_claims :: "str \<Rightarrow> int \<Rightarrow> stamp \<Rightarrow> claims" where
  "admin_claims username sessionVersion now =
     [(u ''username'', JStr username), (u ''role'', JStr (u ''admin'')), (u SessionVersionClaim, JInt sessionVersion),
      (u ''exp'', JInt (unix now + AdminTokenTTL)), (u ''iat'', JInt (unix now))]"

definition GenerateParentToken :: "(claims \<Rightarrow> str option) \<Rightarrow> int \<Rightarrow> str \<Rightarrow> int \<Rightarrow> stamp \<Rightarrow> str option" where
  "GenerateParentToken sign parentID phone sessionVersion now = sign (parent_claims parentID phone sessionVersion now)"

definition GenerateAdminToken :: "(claims \<Rightarrow> str option) \<Rightarrow> str \<Rightarrow> int \<Rightarrow> stamp \<Rightarrow> str option" where
  "GenerateAdminToken sign username sessionVersion now = sign (admin_claims username sessionVersion now)"

datatype claim_problem = Missing | Wrong_Type | Is_Empty | Bad_Number    \<comment> \<open>the reason, which is only logged\<close>

datatype ClaimError = ClaimError string claim_problem

definition text_claim :: "string \<Rightarrow> claims \<Rightarrow> ClaimError + str" where
  "text_claim k c =
     (case claim c k of
        None \<Rightarrow> Inl (ClaimError k Missing)
      | Some (JStr s) \<Rightarrow> if s = [] then Inl (ClaimError k Is_Empty) else Inr s
      | Some _ \<Rightarrow> Inl (ClaimError k Wrong_Type))"

definition Role :: "claims \<Rightarrow> ClaimError + str" where "Role c = text_claim ''role'' c"

definition Username :: "claims \<Rightarrow> ClaimError + str" where "Username c = text_claim ''username'' c"

definition MaxInt32 :: int where "MaxInt32 = 2 ^ 31 - 1"

definition number_claim :: "string \<Rightarrow> int \<Rightarrow> claims \<Rightarrow> ClaimError + int" where
  \<comment> \<open>a JSON number that is whole and between \<open>lo\<close> and the greatest 32-bit integer\<close>
  "number_claim k lo c =
     (case claim c k of
        None \<Rightarrow> Inl (ClaimError k Missing)
      | Some (JInt i) \<Rightarrow> if i < lo \<or> MaxInt32 < i then Inl (ClaimError k Bad_Number) else Inr i
      | Some JFraction \<Rightarrow> Inl (ClaimError k Bad_Number)
      | Some _ \<Rightarrow> Inl (ClaimError k Wrong_Type))"

definition ParentID :: "claims \<Rightarrow> ClaimError + int" where "ParentID c = number_claim ''parent_id'' 1 c"

definition SessionVersion :: "claims \<Rightarrow> ClaimError + int" where "SessionVersion c = number_claim SessionVersionClaim 0 c"

section \<open>The middlewares\<close>

definition extractBearerToken :: "str \<Rightarrow> str option" where
  "extractBearerToken header =
     (case Fields header of [a, token] \<Rightarrow> if a = u ''Bearer'' then Some token else None | _ \<Rightarrow> None)"

definition malformed_claims :: "ClaimError \<Rightarrow> refusal" where
  \<comment> \<open>\<open>rejectMalformedClaims\<close>\<close>
  "malformed_claims e = Refuse 401 (u ''Invalid or expired token'')"

definition parent_version :: "int \<Rightarrow> db \<Rightarrow> int option" where
  "parent_version pid d = map_option p_version (find_row (\<lambda>p. p_id p = pid) (parents d))"

definition AuthMiddleware :: "(stamp \<Rightarrow> str \<Rightarrow> claims option) \<Rightarrow> str \<Rightarrow> (refusal, int) tx" where
  \<comment> \<open>the parent id the next handler finds in its context\<close>
  "AuthMiddleware verify header =
     bindE (of_option (Refuse 401 (u ''Unauthorized'')) (extractBearerToken header)) (\<lambda>token.
     bindE get_clock (\<lambda>now.
     bindE (of_option (Refuse 401 (u ''Invalid or expired token'')) (verify now token)) (\<lambda>c.
     bindE (lift_err malformed_claims (of_sum (Role c))) (\<lambda>role.
     bindE (guard (role = u ''parent'') (Refuse 403 (u ''Access denied''))) (\<lambda>_.
     bindE (lift_err malformed_claims (of_sum (ParentID c))) (\<lambda>parentID.
     bindE (lift_err malformed_claims (of_sum (SessionVersion c))) (\<lambda>version.
     bindE (lift_err (internal_error ''Internal server error'') (query (parent_version parentID))) (\<lambda>current.
     bindE (of_option (Refuse 401 (u ''Invalid or expired token'')) current) (\<lambda>current.
     bindE (guard (current = version) (Refuse 401 (u ''Invalid or expired token''))) (\<lambda>_.
     ret parentID))))))))))"

definition admin_version :: "str \<Rightarrow> db \<Rightarrow> int option" where
  "admin_version username d = map_option a_version (find_row (\<lambda>a. a_username a = username) (admins d))"

definition AdminMiddleware :: "(stamp \<Rightarrow> str \<Rightarrow> claims option) \<Rightarrow> str \<Rightarrow> (refusal, str) tx" where
  \<comment> \<open>the username the next handler finds in its context\<close>
  "AdminMiddleware verify header =
     bindE (of_option (Refuse 401 (u ''Unauthorized'')) (extractBearerToken header)) (\<lambda>token.
     bindE get_clock (\<lambda>now.
     bindE (of_option (Refuse 401 (u ''Unauthorized'')) (verify now token)) (\<lambda>c.
     bindE (lift_err malformed_claims (of_sum (Role c))) (\<lambda>role.
     bindE (guard (role = u ''admin'') (Refuse 403 (u ''Forbidden''))) (\<lambda>_.
     bindE (lift_err malformed_claims (of_sum (Username c))) (\<lambda>username.
     bindE (lift_err malformed_claims (of_sum (SessionVersion c))) (\<lambda>version.
     bindE (lift_err (internal_error ''Internal server error'') (with_text [username] (query (admin_version username)))) (\<lambda>current.
     bindE (of_option (Refuse 401 (u ''Unauthorized'')) current) (\<lambda>current.
     bindE (guard (current = version) (Refuse 401 (u ''Unauthorized''))) (\<lambda>_.
     ret username))))))))))"

section \<open>Limited attempts\<close>

datatype login_refusal = Denied refusal | TooMany int    \<comment> \<open>429 with \<open>Retry-After\<close> in seconds\<close>

definition retry_seconds :: "int \<Rightarrow> int" where
  \<comment> \<open>\<open>respondTooManyAttempts\<close>: rounded up, at least one\<close>
  "retry_seconds d = max 1 (- ((- d) div second))"

definition attempt_with ::
    "int \<Rightarrow> str \<Rightarrow> (outcome \<times> refusal, 'a) tx \<Rightarrow> limiter \<Rightarrow> world \<Rightarrow> (login_refusal + 'a) \<times> limiter \<times> world" where
  \<comment> \<open>\<open>Allow\<close>, the attempt, and the deferred \<open>Finish\<close> with the attempt's outcome\<close>
  "attempt_with now key m l w =
     (case Allow now l key of
        ((allowed, retryAfter), l1) \<Rightarrow>
          if \<not> allowed then (Inl (TooMany (retry_seconds retryAfter)), l1, w)
          else (case m w of
              (Inl (out, e), w') \<Rightarrow> (Inl (Denied e), Finish l1 key out, w')
            | (Inr x, w') \<Rightarrow> (Inr x, Finish l1 key Succeeded, w')))"

definition denied :: "refusal \<Rightarrow> limiter \<Rightarrow> world \<Rightarrow> (login_refusal + 'a) \<times> limiter \<times> world" where
  "denied e l w = (Inl (Denied e), l, w)"

definition query_failed :: "err \<Rightarrow> outcome \<times> refusal" where
  "query_failed e = (Released, internal_error ''Internal server error'' e)"

section \<open>The parent's login\<close>

record MobileLoginRequest =
  lg_phone :: str
  lg_pin :: str
  lg_fcm :: str

record LoginReply =
  lr_token :: str
  lr_id :: int
  lr_name :: str
  lr_phone :: str

definition parent_by_phone :: "str \<Rightarrow> db \<Rightarrow> parent option" where
  "parent_by_phone phone d = find_row (\<lambda>p. p_phone p = phone) (parents d)"

definition wrong_pin :: refusal where
  "wrong_pin = Refuse 401 (u ''Invalid phone number or PIN'')"

definition offered_token :: "token_view \<Rightarrow> int \<Rightarrow> str \<Rightarrow> ('e, unit) tx" where
  \<comment> \<open>the phone a login may bring along; a failure is only logged\<close>
  "offered_token view pid fcm =
     (if fcm \<noteq> [] \<and> validDeviceToken fcm then bindE (attempt (registerDeviceToken view pid fcm)) (\<lambda>_. ret ()) else ret ())"

definition parent_login ::
    "token_view \<Rightarrow> (str \<Rightarrow> str \<Rightarrow> bool) \<Rightarrow> (claims \<Rightarrow> str option) \<Rightarrow> str \<Rightarrow> str \<Rightarrow> str \<Rightarrow> (outcome \<times> refusal, LoginReply) tx" where
  "parent_login view matches sign phone pin fcm =
     bindE (lift_err query_failed (query (parent_by_phone phone))) (\<lambda>found.
     bindE (of_option (Failed, wrong_pin) found) (\<lambda>p.
     bindE (guard (matches (p_pin p) pin) (Failed, wrong_pin)) (\<lambda>_.
     bindE get_clock (\<lambda>now.
     bindE (of_option (Succeeded, internal_error ''Internal server error'' Driver)
       (GenerateParentToken sign (p_id p) phone (p_version p) now)) (\<lambda>token.
     bindE (offered_token view (p_id p) fcm) (\<lambda>_.
     ret \<lparr>lr_token = token, lr_id = p_id p, lr_name = p_name p, lr_phone = phone\<rparr>))))))"

definition MobileLoginHandler ::
    "token_view \<Rightarrow> (str \<Rightarrow> str \<Rightarrow> bool) \<Rightarrow> (claims \<Rightarrow> str option) \<Rightarrow> int \<Rightarrow> meth \<Rightarrow> MobileLoginRequest body \<Rightarrow>
     limiter \<Rightarrow> world \<Rightarrow> (login_refusal + LoginReply) \<times> limiter \<times> world" where
  "MobileLoginHandler view matches sign now verb b =
     (if verb \<noteq> POST then denied method_not_allowed
      else case decodeJSONBody b (u ''Invalid request'') of
        Inl e \<Rightarrow> denied e
      | Inr req \<Rightarrow>
          if TrimSpace (lg_phone req) = [] \<or> lg_pin req = [] then denied (Refuse 400 (u ''Phone and PIN are required''))
          else case Normalize (TrimSpace (lg_phone req)) of
            None \<Rightarrow> denied wrong_pin
          | Some phone \<Rightarrow> attempt_with now phone (parent_login view matches sign phone (lg_pin req) (lg_fcm req)))"

section \<open>The admin's login\<close>

definition AdminFailuresPerUserIP :: int where "AdminFailuresPerUserIP = 5"

definition AdminFailuresPerIP :: int where "AdminFailuresPerIP = 20"

definition LoginWindow :: int where "LoginWindow = 15 * 60 * second"

definition limiterKey :: "(str \<Rightarrow> str) \<Rightarrow> string \<Rightarrow> str \<Rightarrow> str" where
  "limiterKey digest prefix s = u prefix @ digest s"

record AdminLoginRequest =
  al_username :: str
  al_password :: str

definition wrong_login :: refusal where
  \<comment> \<open>the Arabic text for wrong credentials\<close>
  "wrong_login = Refuse 401 [1576, 1610, 1575, 1606, 1575, 1578, 32, 1575, 1604, 1583, 1582, 1608, 1604, 32, 1594, 1610,
     1585, 32, 1589, 1581, 1610, 1581, 1577]"

definition ActionLoginSuccess :: str where "ActionLoginSuccess = u ''login.success''"

definition ActionLoginFailed :: str where "ActionLoginFailed = u ''login.failed''"

definition noteLogin :: "bool \<Rightarrow> str \<Rightarrow> str \<times> str" where
  \<comment> \<open>the activity's login code and actor\<close>
  "noteLogin success username = (if success then (ActionLoginSuccess, username) else (ActionLoginFailed, u ''unknown''))"

record limiters =
  user_limiter :: limiter
  ip_limiter :: limiter

record admin_failure =
  af_user :: outcome
  af_ip :: outcome
  af_note :: "(str \<times> str) option"
  af_answer :: refusal

definition wrong_password :: admin_failure where
  "wrong_password = \<lparr>af_user = Failed, af_ip = Failed, af_note = Some (noteLogin False []), af_answer = wrong_login\<rparr>"

definition admin_by_name :: "str \<Rightarrow> db \<Rightarrow> admin option" where
  "admin_by_name username d = find_row (\<lambda>a. a_username a = username) (admins d)"

definition admin_login ::
    "(str \<Rightarrow> str \<Rightarrow> bool) \<Rightarrow> (claims \<Rightarrow> str option) \<Rightarrow> AdminLoginRequest \<Rightarrow> (admin_failure, str) tx" where
  "admin_login matches sign req =
     bindE (lift_err (\<lambda>e. \<lparr>af_user = Released, af_ip = Released, af_note = None,
         af_answer = internal_error ''Internal server error'' e\<rparr>)
       (with_text [al_username req] (query (admin_by_name (al_username req))))) (\<lambda>found.
     bindE (of_option wrong_password found) (\<lambda>a.
     bindE (guard (matches (a_hash a) (al_password req)) wrong_password) (\<lambda>_.
     bindE get_clock (\<lambda>now.
     of_option \<lparr>af_user = Succeeded, af_ip = Released, af_note = None, af_answer = internal_error ''Could not generate token'' Driver\<rparr>
       (GenerateAdminToken sign (al_username req) (a_version a) now)))))"

definition AdminLoginHandler ::
    "(str \<Rightarrow> str \<Rightarrow> bool) \<Rightarrow> (claims \<Rightarrow> str option) \<Rightarrow> (str \<Rightarrow> str) \<Rightarrow> int \<Rightarrow> meth \<Rightarrow> str \<times> bool \<Rightarrow> AdminLoginRequest body \<Rightarrow>
     limiters \<Rightarrow> world \<Rightarrow> (login_refusal + str) \<times> (str \<times> str) option \<times> limiters \<times> world" where
  \<comment> \<open>\<open>client\<close> is what \<open>ClientIP.Resolve\<close> gives; with the answer come what \<open>noteLogin\<close> left and the limiters\<close>
  "AdminLoginHandler matches sign digest now verb client b ls w =
     (if verb \<noteq> POST then (Inl (Denied method_not_allowed), None, ls, w)
      else case decodeJSONBody b (u ''Invalid request'') of
        Inl e \<Rightarrow> (Inl (Denied e), None, ls, w)
      | Inr req \<Rightarrow>
          (case client of (ip, identified) \<Rightarrow>
          let userKey = limiterKey digest ''user:'' (al_username req) @ u ''|'' @ ip; ipKey = u ''ip:'' @ ip in
          (case Allow now (user_limiter ls) userKey of ((allowed, retryAfter), ul) \<Rightarrow>
           if \<not> allowed then (Inl (TooMany (retry_seconds retryAfter)), None, ls\<lparr>user_limiter := ul\<rparr>, w)
           else
             (case if identified then Allow now (ip_limiter ls) ipKey else ((True, 0), ip_limiter ls) of ((allowed, retryAfter), il) \<Rightarrow>
              if \<not> allowed then
                (Inl (TooMany (retry_seconds retryAfter)), None, \<lparr>user_limiter = Finish ul userKey Released, ip_limiter = il\<rparr>, w)
              else
                (let finished = (\<lambda>uo io. \<lparr>user_limiter = Finish ul userKey uo,
                       ip_limiter = (if identified then Finish il ipKey io else il)\<rparr>) in
                 case admin_login matches sign req w of
                   (Inl f, w') \<Rightarrow> (Inl (Denied (af_answer f)), af_note f, finished (af_user f) (af_ip f), w')
                 | (Inr token, w') \<Rightarrow>
                     (Inr token, Some (noteLogin True (al_username req)), finished Succeeded Released, w'))))))"

section \<open>Deleting the account\<close>

definition AccountPINRequiredMessage :: str where "AccountPINRequiredMessage = u ''pin is required''"

definition IncorrectPINMessage :: str where "IncorrectPINMessage = u ''Incorrect PIN''"

definition ActionParentAccountDelete :: str where "ActionParentAccountDelete = u ''parent.account_delete''"

definition ParentActor :: str where "ParentActor = u ''parent''"

definition NoLinkedStudentsDetail :: str where "NoLinkedStudentsDetail = u ''no linked students''"

definition MaxActivityDetail :: nat where "MaxActivityDetail = 200"

definition unlinkStudents :: "int \<Rightarrow> db \<Rightarrow> (int \<times> str) list \<times> db" where
  "unlinkStudents pid d =
     (map (\<lambda>s. (s_id s, s_name s)) (filter (\<lambda>s. s_parent s = Some pid) (students d)),
      d\<lparr>students := upd_where (\<lambda>s. s_parent s = Some pid) (\<lambda>s. s\<lparr>s_parent := None\<rparr>) (students d)\<rparr>)"

definition delete_parent :: "int \<Rightarrow> db \<Rightarrow> err + unit \<times> db" where
  \<comment> \<open>\<open>DELETE FROM parents\<close>: refused while a student refers to the parent; notifications and device tokens go
     with the parent, a broadcast to the parent forgets whom it was for\<close>
  "delete_parent pid d =
     (if list_ex (\<lambda>p. p_id p = pid) (parents d) \<and> list_ex (\<lambda>s. s_parent s = Some pid) (students d)
      then Inl (foreign_key_violation ''students_parent_id_fkey'')
      else Inr ((), d\<lparr>parents := del_where (\<lambda>p. p_id p = pid) (parents d),
        notifications := del_where (\<lambda>n. n_parent n = Some pid) (notifications d),
        device_tokens := del_where (\<lambda>t. t_parent t = pid) (device_tokens d),
        broadcasts := upd_where (\<lambda>b. b_parent b = Some pid) (\<lambda>b. b\<lparr>b_parent := None\<rparr>) (broadcasts d)\<rparr>))"

definition deletion_row :: "str \<Rightarrow> str \<Rightarrow> stamp \<Rightarrow> (int \<times> str) option \<Rightarrow> activity_row" where
  "deletion_row verb path now target =
     \<lparr>y_id = 0, y_created = to_micro now, y_actor = ParentActor, y_action = ActionParentAccountDelete, y_method = verb,
      y_path = truncateChars path 200, y_status = 200, y_ip = None,
      y_target_type = map_option (\<lambda>_. u ''student'') target, y_target_id = map_option (\<lambda>(i, n). itoa i) target,
      y_detail = Some (case target of None \<Rightarrow> NoLinkedStudentsDetail | Some (i, n) \<Rightarrow> truncateChars n MaxActivityDetail)\<rparr>"

fun number_rows :: "int \<Rightarrow> activity_row list \<Rightarrow> activity_row list" where
  "number_rows i [] = []"
| "number_rows i (r # rs) = r\<lparr>y_id := i\<rparr> # number_rows (i + 1) rs"

definition recordAccountDelete :: "str \<Rightarrow> str \<Rightarrow> (int \<times> str) list \<Rightarrow> (err, unit) tx" where
  \<comment> \<open>one row per student that was unlinked, or one without a target\<close>
  "recordAccountDelete verb path unlinked =
     bindE get_clock (\<lambda>now.
     let rows = (if unlinked = [] then [deletion_row verb path now None]
                 else map (\<lambda>t. deletion_row verb path now (Some t)) unlinked) in
     insert_ids Admin_Activity_Log (\<lambda>i d.
       (i + int (length rows),
        if y_id ` set (number_rows i rows) \<inter> y_id ` set (admin_activity_log d) \<noteq> {}
        then Inl (unique_violation ''admin_activity_log_pkey'')
        else Inr ((), d\<lparr>admin_activity_log := admin_activity_log d @ number_rows i rows\<rparr>))))"

definition delete_account :: "(str \<Rightarrow> str \<Rightarrow> bool) \<Rightarrow> str \<Rightarrow> str \<Rightarrow> int \<Rightarrow> str \<Rightarrow> (outcome \<times> refusal, unit) tx" where
  \<comment> \<open>the transaction, from reading the PIN's hash to the log rows\<close>
  "delete_account matches verb path pid pin =
     bindE (lift_err query_failed (query (\<lambda>d. map_option p_pin (find_row (\<lambda>p. p_id p = pid) (parents d))))) (\<lambda>found.
     bindE (of_option (Released, respondParentGone) found) (\<lambda>h.
     bindE (guard (matches h pin) (Failed, Refuse 400 IncorrectPINMessage)) (\<lambda>_.
     bindE (lift_err query_failed (stmt (\<lambda>d. Inr (unlinkStudents pid d)))) (\<lambda>unlinked.
     bindE (lift_err query_failed (stmt (delete_parent pid))) (\<lambda>_.
     lift_err query_failed (recordAccountDelete verb path unlinked))))))"

definition AccountDeleteHandler ::
    "(str \<Rightarrow> str \<Rightarrow> bool) \<Rightarrow> int \<Rightarrow> str \<Rightarrow> str \<Rightarrow> int option \<Rightarrow> str body \<Rightarrow>
     limiter \<Rightarrow> world \<Rightarrow> (login_refusal + unit) \<times> limiter \<times> world" where
  "AccountDeleteHandler matches now verb path parentID b l w =
     (case parentID of
        None \<Rightarrow> denied unauthorized_context l w
      | Some pid \<Rightarrow>
          (case decodeJSONBody b (u ''Invalid request body'') of
             Inl e \<Rightarrow> denied e l w
           | Inr pin \<Rightarrow>
               if pin = [] then denied (Refuse 400 AccountPINRequiredMessage) l w
               else (case query (\<lambda>d. map_option p_phone (find_row (\<lambda>p. p_id p = pid) (parents d))) w of
                   (Inl e, w1) \<Rightarrow> denied (internal_error ''Internal server error'' e) l w1
                 | (Inr None, w1) \<Rightarrow> denied respondParentGone l w1
                 | (Inr (Some phone), w1) \<Rightarrow>
                     attempt_with now phone (in_tx query_failed (delete_account matches verb path pid pin)) l w1)))"

section \<open>Old sessions stay dead\<close>

text \<open>
  A version is dead for a parent id when the id has been given out and no row with it still has that version or a
  lower one. New parents get new ids, so this lasts whatever is done to the table of parents.
\<close>

definition dead :: "int \<Rightarrow> int \<Rightarrow> db \<Rightarrow> int \<Rightarrow> bool" where
  "dead pid v d n \<longleftrightarrow> pid < n \<and> (\<forall>p \<in> set (parents d). p_id p = pid \<longrightarrow> v < p_version p)"

interpretation dead_session: sequence_fact Parents "dead pid v"
  by unfold_locales (auto simp: dead_def)

lemma dead_frame: "dead pid v d n \<Longrightarrow> parents d' = parents d \<Longrightarrow> dead pid v d' n"
  by (simp add: dead_def)

lemma dead_upd:
  assumes "dead pid v d n" "\<And>p. p_id (f p) = p_id p \<and> p_version p \<le> p_version (f p)"
  shows "dead pid v (d\<lparr>parents := upd_where c f (parents d)\<rparr>) n"
  unfolding dead_def
proof (intro conjI ballI impI)
  show "pid < n" using assms(1) by (simp add: dead_def)
  fix q assume "q \<in> set (parents (d\<lparr>parents := upd_where c f (parents d)\<rparr>))" "p_id q = pid"
  then obtain p where p: "p \<in> set (parents d)" "q = (if c p then f p else p)" by (auto simp: upd_where_def)
  with \<open>p_id q = pid\<close> assms(2) [of p] have "p_id p = pid" "p_version p \<le> p_version q" by (auto split: if_splits)
  with assms(1) p(1) show "v < p_version q" by (auto simp: dead_def intro: less_le_trans)
qed

lemma dead_upsert:
  assumes "dead pid v d i" "upsert_parent name phone h i d = Inr (x, d')"
  shows "dead pid v d' (i + 1)"
proof (cases "find_row (\<lambda>p. p_phone p = phone) (parents d)")
  case None
  with assms show ?thesis by (auto simp: upsert_parent_def dead_def split: if_splits)
next
  case (Some p)
  then have d': "d' = d\<lparr>parents := upd_where (\<lambda>p. p_phone p = phone)
      (\<lambda>p. p\<lparr>p_name := name, p_pin := h, p_version := p_version p + 1\<rparr>) (parents d)\<rparr>"
    using assms(2) by (auto simp: upsert_parent_def split: if_splits)
  have "dead pid v d' i" unfolding d' using assms(1) by (rule dead_upd) simp
  then show ?thesis by (rule dead_session.drawn) simp
qed

lemma dead_resolve: "dead_session.holds pid v (resolveParent hash name phone pin)"
proof -
  have r: "dead pid v d' i" if "dead pid v d i" "rename_parent name phone d = Inr (x, d')" for d i x d'
    using that dead_upd [of pid v d i "\<lambda>p. p\<lparr>p_name := name\<rparr>"] by (auto simp: rename_parent_def)
  have dr: "dead pid v (drop_tokens i d) n" if "dead pid v d n" for i d n
    using that by (rule dead_frame) (simp add: drop_tokens_def)
  show ?thesis
    unfolding resolveParent_def
    by (intro dead_session.holds_cases(1) dead_session.holding dead_session.holds_insert_id dead_session.holds_exec
        dead_session.holds_stmt)
      (auto intro: r dr dead_upsert)
qed

lemmas dead_holding = dead_session.holding dead_session.holds_cases dead_session.holds_insert_id dead_session.holds_stmt
  dead_session.holds_exec dead_session.holds_catchE

lemma dead_parent_of_context: "dead_session.holds pid v (parent_of_context z)"
  by (simp add: parent_of_context_def dead_session.holds_simple)

lemma dead_students_handler: "dead_session.holds pid v (AdminStudentsHandler hash verb param b)"
proof -
  have ins: "dead pid v d' j" if "dead pid v d j" "insert_student r q now i d = Inr (x, d')" for r q now i d x d' j
    using that by (auto simp: insert_student_def split: if_splits intro: dead_frame)
  have upd: "dead pid v d' j" if "dead pid v d j" "update_student r q d = Inr (x, d')" for r q d x d' j
    using that by (auto simp: update_student_def Let_def split: if_splits intro: dead_frame)
  have ret: "dead pid v d' j" if "dead pid v d j" "retire_student i d = (hit, d')" for i d hit d' j
    using that by (auto simp: retire_student_def intro: dead_frame)
  have err: "dead_session.holds pid v (respondStudentWriteError e tag :: (student_refusal, 'z) tx)" for e tag
    unfolding respondStudentWriteError_def respondRFIDTagTaken_def by (cases e) (auto intro!: dead_holding)
  have "dead_session.holds pid v (post_student hash b)"
    unfolding post_student_def save_new_student_def create_student_def or_refuse_def
    by (intro dead_holding dead_resolve err) (auto intro: ins)
  moreover have "dead_session.holds pid v (put_student hash b)"
    unfolding put_student_def save_changed_student_def change_student_def or_refuse_def keep_odd_tag_def
    by (intro dead_holding dead_resolve err) (auto intro: upd)
  moreover have "dead_session.holds pid v (delete_student param)"
    unfolding delete_student_def by (intro dead_holding) (auto intro: ret)
  ultimately show ?thesis
    unfolding AdminStudentsHandler_def by (cases verb) (auto intro!: dead_holding)
qed

lemma dead_store_token: "dead_session.holds pid v (store_token view q token)"
proof -
  have f: "dead pid v (forget_token c d) i" if "dead pid v d i" for c d i
    using that by (rule dead_frame) (simp add: forget_token_def)
  have t: "dead pid v (trim_tokens view q d) i" if "dead pid v d i" for d i
    using that by (rule dead_frame) (simp add: trim_tokens_def Let_def)
  have ups: "dead pid v d' j" if "dead pid v d j" "upsert_token q token now i d = Inr (x, d')" for now i d x d' j
    using that by (auto simp: upsert_token_def split: if_splits intro: dead_frame)
  show ?thesis unfolding store_token_def by (intro dead_holding) (auto intro: f t ups)
qed

lemma dead_phone_handlers:
  "dead_session.holds pid v (RegisterDeviceTokenHandler view parentID tb)"
  "dead_session.holds pid v (RemoveDeviceTokenHandler parentID tb)"
  "dead_session.holds pid v (NotificationSettingsHandler verb parentID sb)"
proof -
  have f: "dead pid v (forget_token c d) i" if "dead pid v d i" for c d i
    using that by (rule dead_frame) (simp add: forget_token_def)
  have sw: "dead pid v d' i" if "dead pid v d i" "set_push q enabled d = (hit, d')" for q enabled d hit d' i
    using that dead_upd [of pid v d i "\<lambda>p. p\<lparr>p_push := enabled\<rparr>"] by (auto simp: set_push_def)
  show "dead_session.holds pid v (RegisterDeviceTokenHandler view parentID tb)"
    unfolding RegisterDeviceTokenHandler_def decodeDeviceToken_def registerDeviceToken_def
    by (intro dead_holding dead_parent_of_context dead_store_token)
  show "dead_session.holds pid v (RemoveDeviceTokenHandler parentID tb)"
    unfolding RemoveDeviceTokenHandler_def decodeDeviceToken_def
    by (intro dead_holding dead_parent_of_context f)
  show "dead_session.holds pid v (NotificationSettingsHandler verb parentID sb)"
    unfolding NotificationSettingsHandler_def switch_push_def
    by (intro dead_holding dead_parent_of_context) (auto intro: f sw)
qed

lemma dead_attempt:
  assumes "dead_session.holds pid v m" "dead pid v (db w) (serial w Parents)" "attempt_with now key m l w = (r, l', w')"
  shows "dead pid v (db w') (serial w' Parents)"
  using assms(2,3) dead_session.holdsD(2) [OF assms(1)]
  by (fastforce simp: attempt_with_def split: prod.splits if_splits sum.splits)

lemma dead_parent_login: "dead_session.holds pid v (parent_login view matches sign phone pin fcm)"
  unfolding parent_login_def offered_token_def registerDeviceToken_def
  by (intro dead_holding dead_store_token)

text \<open>The phone a login brings along keeps the table of phones as sound as one registered by itself.\<close>

lemma login_keeps_phones:
  assumes "hides_at_most n view"
  shows "keeps (phones_within n) (parent_login view matches sign phone pin fcm)"
  unfolding parent_login_def offered_token_def GenerateParentToken_def
  by (intro keeps_bindE keeps_lift_err keeps_query keeps_of_option keeps_guard keeps_get_clock keeps_ret keeps_if keeps_attempt
      keeps_registerDeviceToken assms) auto

lemma dead_login:
  assumes "dead pid v (db w) (serial w Parents)" "MobileLoginHandler view matches sign now verb b l w = (r, l', w')"
  shows "dead pid v (db w') (serial w' Parents)"
  using assms dead_attempt [OF dead_parent_login]
  by (auto simp: MobileLoginHandler_def denied_def split: if_splits sum.splits option.splits)

lemma dead_delete_account: "dead_session.holds pid v (delete_account matches verb path q pin)"
proof -
  have del: "dead pid v d' i" if "dead pid v d i" "delete_parent q d = Inr (x, d')" for d i x d'
    using that by (auto simp: delete_parent_def dead_def split: if_splits)
  have unl: "dead pid v d' i" if "dead pid v d i" "unlinkStudents q d = (ts, d')" for d i ts d'
    using that by (auto simp: unlinkStudents_def intro: dead_frame)
  have rec: "dead_session.holds pid v (recordAccountDelete verb path ts)" for ts
    unfolding recordAccountDelete_def Let_def
    by (intro dead_holding dead_session.holds_insert_ids) (auto intro: dead_frame split: if_splits)
  show ?thesis
    unfolding delete_account_def by (intro dead_holding rec) (auto intro: del unl)
qed

lemma dead_account_handler:
  assumes "dead pid v (db w) (serial w Parents)" "AccountDeleteHandler matches now verb path parentID b l w = (r, l', w')"
  shows "dead pid v (db w') (serial w' Parents)"
proof -
  have q: "dead pid v (db w1) (serial w1 Parents)" if "query f w = (z, w1)" for f :: "db \<Rightarrow> str option" and z w1
    using dead_session.holdsD(2) [OF dead_session.holds_query that assms(1)] .
  show ?thesis
    using assms
    by (auto simp: AccountDeleteHandler_def denied_def split: if_splits sum.splits option.splits prod.splits
        intro: q dead_attempt [OF dead_session.holds_in_tx [OF dead_delete_account]])
qed

section \<open>The requests that touch a session\<close>

text \<open>
  One request after the other, in any order and with any content: the requests that write the table of parents,
  and any other request as \<open>other\<close>, which leaves the parents alone and gives no id back.
\<close>

inductive session_step :: "world \<Rightarrow> world \<Rightarrow> bool" where
  students: "AdminStudentsHandler hash verb param pb w = (r, w') \<Longrightarrow> session_step w w'"
| register: "RegisterDeviceTokenHandler view parentID tb w = (r, w') \<Longrightarrow> session_step w w'"
| remove: "RemoveDeviceTokenHandler parentID tb w = (r, w') \<Longrightarrow> session_step w w'"
| settings: "NotificationSettingsHandler verb parentID sb w = (r, w') \<Longrightarrow> session_step w w'"
| login: "MobileLoginHandler view matches sign now verb lb l w = (r, l', w') \<Longrightarrow> session_step w w'"
| account: "AccountDeleteHandler matches now m path parentID ab l w = (r, l', w') \<Longrightarrow> session_step w w'"
| other: "parents (db w') = parents (db w) \<Longrightarrow> serial w Parents \<le> serial w' Parents \<Longrightarrow> session_step w w'"

lemma dead_step:
  assumes "session_step w w'" "dead pid v (db w) (serial w Parents)"
  shows "dead pid v (db w') (serial w' Parents)"
  using assms
proof cases
  case other
  then show ?thesis using assms(2) by (auto simp: dead_def)
qed (use assms(2) in \<open>auto dest: dead_login dead_account_handler dead_session.holdsD(2) [OF dead_students_handler]
      dead_session.holdsD(2) [OF dead_phone_handlers(1)] dead_session.holdsD(2) [OF dead_phone_handlers(2)]
      dead_session.holdsD(2) [OF dead_phone_handlers(3)]\<close>)

lemma dead_steps:
  assumes "session_step\<^sup>*\<^sup>* w w'" "dead pid v (db w) (serial w Parents)"
  shows "dead pid v (db w') (serial w' Parents)"
  using assms by (induction rule: rtranclp_induct) (auto intro: dead_step)

section \<open>What a middleware has checked\<close>

lemma AuthMiddleware_ok:
  assumes "AuthMiddleware verify header w = (Inr pid, w')"
  obtains token c v p where "extractBearerToken header = Some token" "verify (clock w) token = Some c"
    "Role c = Inr (u ''parent'')" "ParentID c = Inr pid" "SessionVersion c = Inr v"
    "p \<in> set (parents (db w))" "p_id p = pid" "p_version p = v" "db w' = db w"
proof -
  from assms obtain token c v current where t: "extractBearerToken header = Some token" "verify (clock w) token = Some c"
    "Role c = Inr (u ''parent'')" "ParentID c = Inr pid" "SessionVersion c = Inr v"
    and d: "db w' = db w" "parent_version pid (db w) = Some v"
    by (auto simp: AuthMiddleware_def bindE_ok simple_ok dest!: query_okD)
  then obtain p where "find_row (\<lambda>p. p_id p = pid) (parents (db w)) = Some p" "p_version p = v"
    by (auto simp: parent_version_def)
  with t d show thesis using find_row_Some [of "\<lambda>p. p_id p = pid" "parents (db w)" p] by (intro that) auto
qed

lemma AdminMiddleware_ok:
  assumes "AdminMiddleware verify header w = (Inr username, w')"
  obtains token c v a where "extractBearerToken header = Some token" "verify (clock w) token = Some c"
    "Role c = Inr (u ''admin'')" "Username c = Inr username" "SessionVersion c = Inr v"
    "a \<in> set (admins (db w))" "a_username a = username" "a_version a = v" "db w' = db w"
proof -
  from assms obtain token c v where t: "extractBearerToken header = Some token" "verify (clock w) token = Some c"
    "Role c = Inr (u ''admin'')" "Username c = Inr username" "SessionVersion c = Inr v"
    and d: "db w' = db w" "admin_version username (db w) = Some v"
    by (auto simp: AdminMiddleware_def bindE_ok simple_ok dest!: query_okD with_text_ok)
  then obtain a where "find_row (\<lambda>a. a_username a = username) (admins (db w)) = Some a" "a_version a = v"
    by (auto simp: admin_version_def)
  with t d show thesis using find_row_Some [of "\<lambda>a. a_username a = username" "admins (db w)" a] by (intro that) auto
qed

section \<open>What a login has checked\<close>

lemma limited_ok:
  "attempt_with now key m l w = (Inr x, l', w') \<Longrightarrow> m w = (Inr x, w') \<and> fst (fst (Allow now l key))"
  by (auto simp: attempt_with_def split: prod.splits if_splits sum.splits)

lemma login_ok:
  assumes "MobileLoginHandler view matches sign now verb b l w = (Inr r, l', w')"
  obtains req phone p where "b = Body req" "Normalize (TrimSpace (lg_phone req)) = Some phone"
    "find_row (\<lambda>p. p_phone p = phone) (parents (db w)) = Some p" "matches (p_pin p) (lg_pin req)"
    "lr_id r = p_id p" "lr_name r = p_name p" "lr_phone r = phone"
    "sign (parent_claims (p_id p) phone (p_version p) (clock w)) = Some (lr_token r)"
proof -
  from assms obtain req phone where q: "b = Body req" "Normalize (TrimSpace (lg_phone req)) = Some phone"
    and m: "attempt_with now phone (parent_login view matches sign phone (lg_pin req) (lg_fcm req)) l w = (Inr r, l', w')"
    by (auto simp: MobileLoginHandler_def denied_def decodeJSONBody_def split: if_splits sum.splits option.splits body.splits)
  from limited_ok [OF m] have "parent_login view matches sign phone (lg_pin req) (lg_fcm req) w = (Inr r, w')" by simp
  then obtain p where "find_row (\<lambda>p. p_phone p = phone) (parents (db w)) = Some p" "matches (p_pin p) (lg_pin req)"
    "lr_id r = p_id p" "lr_name r = p_name p" "lr_phone r = phone"
    "sign (parent_claims (p_id p) phone (p_version p) (clock w)) = Some (lr_token r)"
    by (auto simp: parent_login_def GenerateParentToken_def parent_by_phone_def bindE_ok simple_ok dest!: query_okD)
  with q show thesis by (rule that)
qed

section \<open>What a deletion has done\<close>

lemma number_rows_targets: "map y_target_id (number_rows i rs) = map y_target_id rs" "length (number_rows i rs) = length rs"
  by (induction rs arbitrary: i) auto

definition linked :: "int \<Rightarrow> db \<Rightarrow> student list" where
  "linked pid d = filter (\<lambda>s. s_parent s = Some pid) (students d)"

definition without_parent :: "int \<Rightarrow> db \<Rightarrow> db" where
  \<comment> \<open>the database once the parent and every reference to it are gone\<close>
  "without_parent pid d = d\<lparr>students := map (\<lambda>s. if s_parent s = Some pid then s\<lparr>s_parent := None\<rparr> else s) (students d),
     parents := del_where (\<lambda>p. p_id p = pid) (parents d),
     notifications := del_where (\<lambda>n. n_parent n = Some pid) (notifications d),
     device_tokens := del_where (\<lambda>t. t_parent t = pid) (device_tokens d),
     broadcasts := map (\<lambda>b. if b_parent b = Some pid then b\<lparr>b_parent := None\<rparr> else b) (broadcasts d)\<rparr>"

lemma recorded:
  assumes "recordAccountDelete verb path ts w = (Inr x, w')"
  obtains rows where "db w' = (db w)\<lparr>admin_activity_log := admin_activity_log (db w) @ rows\<rparr>"
    "map y_target_id rows = (if ts = [] then [None] else map (\<lambda>(i, n). Some (itoa i)) ts)"
proof -
  define rs where "rs = (if ts = [] then [deletion_row verb path (clock w) None]
    else map (\<lambda>t. deletion_row verb path (clock w) (Some t)) ts)"
  have "db w' = (db w)\<lparr>admin_activity_log := admin_activity_log (db w) @ number_rows (serial w Admin_Activity_Log) rs\<rparr>"
    using assms
    by (auto simp: recordAccountDelete_def bindE_ok simple_ok Let_def rs_def elim!: insert_ids_ok split: if_splits)
  then obtain i where d: "db w' = (db w)\<lparr>admin_activity_log := admin_activity_log (db w) @ number_rows i rs\<rparr>" by blast
  have "map y_target_id (number_rows i rs) = (if ts = [] then [None] else map (\<lambda>(i, n). Some (itoa i)) ts)"
    by (simp add: number_rows_targets rs_def deletion_row_def o_def case_prod_beta)
  with d show thesis by (rule that)
qed

lemma deleted:
  assumes "delete_account matches verb path pid pin w = (Inr x, w')"
  obtains p rows where "find_row (\<lambda>p. p_id p = pid) (parents (db w)) = Some p" "matches (p_pin p) pin"
    "db w' = (without_parent pid (db w))\<lparr>admin_activity_log := admin_activity_log (db w) @ rows\<rparr>"
    "map y_target_id rows = (if linked pid (db w) = [] then [None] else map (\<lambda>s. Some (itoa (s_id s))) (linked pid (db w)))"
proof -
  from assms obtain p ts d1 d2 w2 where p: "find_row (\<lambda>p. p_id p = pid) (parents (db w)) = Some p" "matches (p_pin p) pin"
    and u: "unlinkStudents pid (db w) = (ts, d1)" and d: "delete_parent pid d1 = Inr ((), d2)" and w2: "db w2 = d2"
    and r: "recordAccountDelete verb path ts w2 = (Inr x, w')"
    by (auto simp: delete_account_def bindE_ok simple_ok dest!: query_okD elim!: stmt_ok)
  from r obtain rows where rows: "db w' = (db w2)\<lparr>admin_activity_log := admin_activity_log (db w2) @ rows\<rparr>"
    "map y_target_id rows = (if ts = [] then [None] else map (\<lambda>(i, n). Some (itoa i)) ts)"
    by (rule recorded)
  have ts: "ts = map (\<lambda>s. (s_id s, s_name s)) (linked pid (db w))" using u by (simp add: unlinkStudents_def linked_def)
  have "d2 = without_parent pid (db w)"
    using u d by (auto simp: unlinkStudents_def delete_parent_def without_parent_def upd_where_def split: if_splits)
  then have "db w' = (without_parent pid (db w))\<lparr>admin_activity_log := admin_activity_log (db w) @ rows\<rparr>"
    using rows(1) w2 by (simp add: without_parent_def)
  moreover have "map y_target_id rows = (if linked pid (db w) = [] then [None] else map (\<lambda>s. Some (itoa (s_id s))) (linked pid (db w)))"
    using rows(2) by (simp add: ts o_def)
  ultimately show thesis using p by (intro that)
qed

section \<open>The JWT library\<close>

definition reads_back :: "(claims \<Rightarrow> str option) \<Rightarrow> (stamp \<Rightarrow> str \<Rightarrow> claims option) \<Rightarrow> bool" where
  \<comment> \<open>a token signed with the server's secret is accepted, with its claims, until it expires and not before it was issued\<close>
  "reads_back sign verify \<longleftrightarrow>
     (\<forall>c t n e i. sign c = Some t \<longrightarrow> claim c ''exp'' = Some (JInt e) \<longrightarrow> claim c ''iat'' = Some (JInt i) \<longrightarrow>
        i \<le> unix n \<longrightarrow> unix n < e \<longrightarrow> verify n t = Some c)"

definition stable_claims :: "(stamp \<Rightarrow> str \<Rightarrow> claims option) \<Rightarrow> bool" where
  \<comment> \<open>the claims of a token are the ones it carries, whenever it is read\<close>
  "stable_claims verify \<longleftrightarrow> (\<forall>n m t c c'. verify n t = Some c \<longrightarrow> verify m t = Some c' \<longrightarrow> c' = c)"

lemma version_rises:
  assumes ok: "families_ok (db w)" and p: "p \<in> set (parents (db w))" "p_id p < serial w Parents"
    and run: "AdminStudentsHandler hash verb param b w = (answer, w')"
    and q: "q \<in> set (parents (db w'))" "p_id q = p_id p" "p_pin q \<noteq> p_pin p"
  shows "dead (p_id p) (p_version p) (db w') (serial w' Parents)"
proof -
  have t: "tracked (db w) (db w')"
    using keepsD [OF tracked_students_handler [of "db w"] _ run] ok by (simp add: tracked_def signed_out_self)
  then obtain q' where q': "q' \<in> set (parents (db w'))" "follows (db w') p q'" using p(1) by (auto simp: tracked_def signed_out_def)
  have u: "unique_key p_id (parents (db w'))" using t by (simp add: tracked_def families_ok_def parents_ok_def)
  have one: "x = q" if "x \<in> set (parents (db w'))" "p_id x = p_id p" for x
    using parent_ids.unique_row [OF u that(1) q(1)] that(2) q(2) by simp
  have "q' = q" using one q' by (simp add: follows_def)
  then have "p_version p < p_version q" using q'(2) q(3) by (auto simp: follows_def split: if_splits)
  moreover have "serial w Parents \<le> serial w' Parents" using dead_session.holdsD(1) [OF dead_students_handler run] .
  ultimately show ?thesis using p(2) one by (auto simp: dead_def)
qed

lemma dead_refused:
  assumes "dead pid v (db w) (serial w Parents)" "stable_claims verify" "extractBearerToken header = Some token"
    "verify n token = Some c" "ParentID c = Inr pid" "SessionVersion c = Inr v"
  shows "AuthMiddleware verify header w \<noteq> (Inr pid', w')"
proof
  assume "AuthMiddleware verify header w = (Inr pid', w')"
  then obtain token' c' v' p where t: "extractBearerToken header = Some token'" "verify (clock w) token' = Some c'"
    "ParentID c' = Inr pid'" "SessionVersion c' = Inr v'" "p \<in> set (parents (db w))" "p_id p = pid'" "p_version p = v'"
    by (rule AuthMiddleware_ok)
  then have "c' = c" using assms(2-4) unfolding stable_claims_def by (metis option.inject)
  then show False using t assms(1,5,6) by (auto simp: dead_def)
qed

section \<open>Limited attempts and the limiter's gate\<close>

inductive limited_run ::
    "(str \<Rightarrow> str \<Rightarrow> bool) \<Rightarrow> (claims \<Rightarrow> str option) \<Rightarrow> int \<Rightarrow> limiter \<Rightarrow> limiter \<Rightarrow> bool"
  for matches sign t l where
  no_attempt: "limited_run matches sign t l l"
| by_login: "limited_run matches sign t l l' \<Longrightarrow> now < t \<Longrightarrow>
     MobileLoginHandler view matches sign now verb b l' w = (r, l'', w') \<Longrightarrow> limited_run matches sign t l l''"
| by_deletion: "limited_run matches sign t l l' \<Longrightarrow> now < t \<Longrightarrow>
     AccountDeleteHandler matches now m path parentID ab l' w = (r', l'', w') \<Longrightarrow> limited_run matches sign t l l''"

lemma attempt_gate_run:
  assumes run: "gate_run Allow Finish t l out l' out'" and now: "now < t" and pos: "\<And>k. 0 \<le> out' k"
    and a: "attempt_with now key m l' w = (r, l'', w')"
  shows "gate_run Allow Finish t l out l'' out'"
proof -
  obtain ok wait l1 where al: "Allow now l' key = ((ok, wait), l1)" by (metis prod.exhaust)
  have g: "gate_run Allow Finish t l out l1 (if ok then out'(key := out' key + 1) else out')"
    using run now al by (rule run_allow)
  show ?thesis
  proof (cases ok)
    case False
    then show ?thesis using g a al by (simp add: attempt_with_def)
  next
    case True
    have f: "gate_run Allow Finish t l out (Finish l1 key oc) out'" for oc
      using run_finish [OF g, of key oc] pos [of key] True by (simp add: fun_upd_idem)
    show ?thesis using f a al True by (auto simp: attempt_with_def split: prod.splits sum.splits)
  qed
qed

lemma limited_gate:
  assumes "limited_run matches sign t l l'" "\<And>k. 0 \<le> out k"
  shows "gate_run Allow Finish t l out l' out"
  using assms(1)
proof (induction rule: limited_run.induct)
  case no_attempt
  show ?case by (rule run_start)
next
  case (by_login l' now verb b w r l'' w')
  then show ?case
    using attempt_gate_run [OF by_login.IH by_login.hyps(2) assms(2)]
    by (auto simp: MobileLoginHandler_def denied_def split: if_splits sum.splits option.splits)
next
  case (by_deletion l' now m path parentID ab w r' l'' w')
  then show ?case
    using attempt_gate_run [OF by_deletion.IH by_deletion.hyps(2) assms(2)]
    by (auto simp: AccountDeleteHandler_def denied_def split: if_splits sum.splits option.splits prod.splits)
qed

section \<open>Properties\<close>

text \<open>C22. Once an admin has given a parent another PIN, a token the parent's app held before is refused for good:
  after any further requests, in any order, every request that carries it is turned away by \<open>AuthMiddleware\<close>.\<close>

theorem signed_out_for_good:
  assumes ok: "families_ok (db w)" "p \<in> set (parents (db w))" "p_id p < serial w Parents"
    and library: "stable_claims verify"
    and before: "AuthMiddleware verify header w = (Inr (p_id p), w0)"
    and change: "AdminStudentsHandler hash verb param b w = (answer, w1)" "q \<in> set (parents (db w1))" "p_id q = p_id p"
      "p_pin q \<noteq> p_pin p"
    and later: "session_step\<^sup>*\<^sup>* w1 w2"
  shows "\<exists>e. fst (AuthMiddleware verify header w2) = Inl e"
proof -
  from before obtain token c v p' where t: "extractBearerToken header = Some token" "verify (clock w) token = Some c"
    "ParentID c = Inr (p_id p)" "SessionVersion c = Inr v" and p': "p' \<in> set (parents (db w))" "p_id p' = p_id p" "p_version p' = v"
    by (rule AuthMiddleware_ok)
  have "p' = p" using ok p' by (intro parent_ids.unique_row [of "db w"]) (auto simp: families_ok_def parents_ok_def)
  then have v: "v = p_version p" using p'(3) by simp
  have "dead (p_id p) v (db w2) (serial w2 Parents)"
    using dead_steps [OF later version_rises [OF ok change]] by (simp add: v)
  from dead_refused [OF this library t] have "fst (AuthMiddleware verify header w2) \<noteq> Inr pid" for pid
    by (metis prod.collapse)
  then show ?thesis by (cases "fst (AuthMiddleware verify header w2)") auto
qed

text \<open>A login is answered 200 only with the account's own PIN, and the token it returns opens the parent's
  requests, as that parent and nobody else, for thirty days or until the session version changes.\<close>

theorem login_then_access:
  assumes run: "MobileLoginHandler view matches sign now POST (Body req) l w = (Inr r, l', w')"
    and library: "reads_back sign verify" "Fields (u ''Bearer '' @ lr_token r) = [u ''Bearer'', lr_token r]"
    and ids: "\<forall>p \<in> set (parents (db w)). 1 \<le> p_id p \<and> p_id p \<le> MaxInt32 \<and> 0 \<le> p_version p \<and> p_version p \<le> MaxInt32"
      "unique_key p_id (parents (db w))"
    and later: "faults w2 = []" "unix (clock w) \<le> unix (clock w2)" "unix (clock w2) < unix (clock w) + ParentTokenTTL"
      "parent_version (lr_id r) (db w2) = parent_version (lr_id r) (db w)"
  shows "(\<exists>p \<in> set (parents (db w)). p_id p = lr_id r \<and> Some (p_phone p) = Normalize (TrimSpace (lg_phone req)) \<and>
      matches (p_pin p) (lg_pin req)) \<and>
    AuthMiddleware verify (u ''Bearer '' @ lr_token r) w2 = (Inr (lr_id r), w2)"
proof -
  from run obtain req' phone p where b: "Body req = Body req'" and n: "Normalize (TrimSpace (lg_phone req')) = Some phone"
    and p: "find_row (\<lambda>p. p_phone p = phone) (parents (db w)) = Some p" "matches (p_pin p) (lg_pin req')" "lr_id r = p_id p"
    and sign: "sign (parent_claims (p_id p) phone (p_version p) (clock w)) = Some (lr_token r)"
    by (rule login_ok)
  let ?c = "parent_claims (p_id p) phone (p_version p) (clock w)"
  have mem: "p \<in> set (parents (db w))" "p_phone p = phone" using find_row_Some [OF p(1)] by simp_all
  have pv: "parent_version (p_id p) (db w) = Some (p_version p)"
    using parent_ids.find_by_key [OF ids(2) mem(1)] by (simp add: parent_version_def)
  have claims: "claim ?c ''exp'' = Some (JInt (unix (clock w) + ParentTokenTTL))" "claim ?c ''iat'' = Some (JInt (unix (clock w)))"
    "claim ?c ''role'' = Some (JStr (u ''parent''))" "claim ?c ''parent_id'' = Some (JInt (p_id p))"
    "claim ?c SessionVersionClaim = Some (JInt (p_version p))"
    by (simp_all add: claim_def parent_claims_def SessionVersionClaim_def)
  have "verify (clock w2) (lr_token r) = Some ?c"
    using library(1) sign claims(1,2) later(2,3) unfolding reads_back_def by blast
  moreover have "extractBearerToken (u ''Bearer '' @ lr_token r) = Some (lr_token r)"
    using library(2) by (simp add: extractBearerToken_def)
  moreover have "Role ?c = Inr (u ''parent'')" "ParentID ?c = Inr (p_id p)" "SessionVersion ?c = Inr (p_version p)"
    using ids(1) mem(1) claims by (auto simp: Role_def text_claim_def ParentID_def SessionVersion_def number_claim_def)
  ultimately have "AuthMiddleware verify (u ''Bearer '' @ lr_token r) w2 = (Inr (p_id p), w2)"
    using later(1,4) pv p(3) by (simp add: AuthMiddleware_def bindE_def run_simps lift_err_run)
  then show ?thesis using mem p n b by auto
qed

text \<open>No request passes both middlewares: a parent's token never opens the dashboard and an admin's token never
  opens a parent's data.\<close>

theorem roles_apart:
  assumes "AuthMiddleware verify header w = (Inr pid, w')" "clock w2 = clock w"
  shows "\<exists>e. fst (AdminMiddleware verify header w2) = Inl e"
proof (cases "AdminMiddleware verify header w2")
  case (Pair z w3)
  have "z \<noteq> Inr username" for username
  proof
    assume "z = Inr username"
    with Pair have "AdminMiddleware verify header w2 = (Inr username, w3)" by simp
    then obtain token c where a: "extractBearerToken header = Some token" "verify (clock w2) token = Some c" "Role c = Inr (u ''admin'')"
      by (rule AdminMiddleware_ok)
    from assms(1) obtain token' c' where "extractBearerToken header = Some token'" "verify (clock w) token' = Some c'"
      "Role c' = Inr (u ''parent'')"
      by (rule AuthMiddleware_ok)
    with a assms(2) show False by simp
  qed
  with Pair show ?thesis by (cases z) auto
qed

text \<open>While a phone number is locked, whatever other logins and account deletions come in between, an attempt
  to log in with it is answered 429 without touching the database: not even the right PIN is looked at.\<close>

theorem locked_phone_refused:
  assumes "tracked_ok l" "\<forall>k. in_progress l k = 0" "locked_until l phone t"
    and run: "limited_run matches sign t l l'" and now: "now < t"
    and req: "Normalize (TrimSpace (lg_phone req)) = Some phone" "TrimSpace (lg_phone req) \<noteq> []" "lg_pin req \<noteq> []"
  shows "\<exists>l''. MobileLoginHandler view matches' sign' now POST (Body req) l' w = (Inl (TooMany (retry_seconds (time_sub t now))), l'', w)"
proof -
  have "gate_run Allow Finish t l (\<lambda>_. 0) l' (\<lambda>_. 0)" using run by (rule limited_gate) simp
  then have "fst (Allow now l' phone) = (False, time_sub t now)"
    using assms(1-3) now by (intro gate.locked_out) auto
  then obtain l'' where "Allow now l' phone = ((False, time_sub t now), l'')" by (metis prod.collapse)
  then show ?thesis using req by (simp add: MobileLoginHandler_def attempt_with_def)
qed

text \<open>C23. An account deletion that is answered 200 was confirmed with the parent's own PIN; it removes the parent and
  every trace of the id (the children stay, without a parent; notifications, phones and the addressee of
  broadcasts go), changes nothing else but the log, which gets one entry per child, or one without a target, and
  the parent's token is refused from then on, whatever requests follow.\<close>

theorem account_deleted_for_good:
  assumes run: "AccountDeleteHandler matches now verb path (Some pid) (Body pin) l w = (Inr (), l', w')"
    and given: "pid < serial w Parents"
    and later: "session_step\<^sup>*\<^sup>* w' w2" and auth: "AuthMiddleware verify header w2 = (Inr pid', w3)"
  shows "(\<exists>p \<in> set (parents (db w)). p_id p = pid \<and> matches (p_pin p) pin) \<and>
    (\<exists>rows. db w' = (without_parent pid (db w))\<lparr>admin_activity_log := admin_activity_log (db w) @ rows\<rparr> \<and>
      map y_target_id rows = (if linked pid (db w) = [] then [None] else map (\<lambda>s. Some (itoa (s_id s))) (linked pid (db w)))) \<and>
    pid' \<noteq> pid"
proof -
  obtain w1 phone where q: "db w1 = db w" "serial w1 = serial w"
    and a: "attempt_with now phone (in_tx query_failed (delete_account matches verb path pid pin)) l w1 = (Inr (), l', w')"
  proof -
    obtain z w1 where z: "query (\<lambda>d. map_option p_phone (find_row (\<lambda>p. p_id p = pid) (parents d))) w = (z, w1)" by fastforce
    with run obtain phone where "z = Inr (Some phone)"
      "attempt_with now phone (in_tx query_failed (delete_account matches verb path pid pin)) l w1 = (Inr (), l', w')"
      by (auto simp: AccountDeleteHandler_def denied_def split: if_splits sum.splits option.splits)
    moreover from this have "db w1 = db w" "serial w1 = serial w" using z by (simp_all add: query_okD)
    ultimately show thesis using that by simp
  qed
  from limited_ok [OF a] have "in_tx query_failed (delete_account matches verb path pid pin) w1 = (Inr (), w')" by simp
  then obtain w4 w5 where w45: "delete_account matches verb path pid pin w4 = (Inr (), w5)" "db w4 = db w1" "db w' = db w5"
    by (rule in_tx_ok)
  from w45(1) obtain p rows where p: "find_row (\<lambda>p. p_id p = pid) (parents (db w4)) = Some p" "matches (p_pin p) pin"
    and d: "db w5 = (without_parent pid (db w4))\<lparr>admin_activity_log := admin_activity_log (db w4) @ rows\<rparr>"
    and t: "map y_target_id rows = (if linked pid (db w4) = [] then [None] else map (\<lambda>s. Some (itoa (s_id s))) (linked pid (db w4)))"
    by (rule deleted)
  have d': "db w' = (without_parent pid (db w))\<lparr>admin_activity_log := admin_activity_log (db w) @ rows\<rparr>"
    using d w45(2,3) q(1) by simp
  have "pid' \<noteq> pid"
  proof
    assume e: "pid' = pid"
    have "serial w1 Parents \<le> serial w' Parents"
      using dead_session.holdsD(1) [OF dead_session.holds_in_tx [OF dead_delete_account]] limited_ok [OF a] by blast
    then have dead: "dead pid v (db w') (serial w' Parents)" for v
      using given q(2) by (simp add: dead_def d' without_parent_def)
    from auth obtain q v where "q \<in> set (parents (db w2))" "p_id q = pid'" "p_version q = v" by (rule AuthMiddleware_ok)
    with dead_steps [OF later dead [of v]] e show False by (auto simp: dead_def)
  qed
  moreover have "p \<in> set (parents (db w)) \<and> p_id p = pid" using find_row_Some [OF p(1)] w45(2) q(1) by simp
  ultimately show ?thesis using p(2) d' t w45(2) q(1) by auto
qed

section \<open>Examples\<close>

definition tok :: str where "tok = u ''tok''"

definition bearer :: str where "bearer = u ''Bearer tok''"

lemma bearer_token: "Fields bearer = [u ''Bearer'', tok]" "extractBearerToken bearer = Some tok" "u ''Bearer '' @ tok = bearer"
proof -
  show "Fields bearer = [u ''Bearer'', tok]" by (simp add: Fields_def bearer_def tok_def is_space_def u_def)
  then show "extractBearerToken bearer = Some tok" by (simp add: extractBearerToken_def)
  show "u ''Bearer '' @ tok = bearer" by (simp add: bearer_def tok_def u_def)
qed

definition only_token :: "claims \<Rightarrow> stamp \<Rightarrow> str \<Rightarrow> claims option" where
  "only_token c n t = (if t = tok then Some c else None)"

definition sign_only :: "claims \<Rightarrow> claims \<Rightarrow> str option" where
  "sign_only c c' = (if c' = c then Some tok else None)"

lemma only_token_stable: "stable_claims (only_token c)"
  by (simp add: stable_claims_def only_token_def)

lemma only_token_back: "reads_back (sign_only c) (only_token c)"
  by (simp add: reads_back_def sign_only_def only_token_def)

lemma parent_claims_read:
  "Role (parent_claims i ph v n) = Inr (u ''parent'')"
  "1 \<le> i \<Longrightarrow> i \<le> MaxInt32 \<Longrightarrow> ParentID (parent_claims i ph v n) = Inr i"
  "0 \<le> v \<Longrightarrow> v \<le> MaxInt32 \<Longrightarrow> SessionVersion (parent_claims i ph v n) = Inr v"
  by (simp_all add: Role_def text_claim_def ParentID_def SessionVersion_def number_claim_def claim_def parent_claims_def
      SessionVersionClaim_def u_def)

lemma passes:
  assumes "faults w = []" "parent_version i (db w) = Some v" "1 \<le> i" "i \<le> MaxInt32" "0 \<le> v" "v \<le> MaxInt32"
  shows "AuthMiddleware (only_token (parent_claims i ph v n)) bearer w = (Inr i, w)"
  using assms
  by (simp add: AuthMiddleware_def bearer_token only_token_def parent_claims_read bindE_def run_simps lift_err_run)

theorem signed_out_for_good_witness:
  "\<exists>e. fst (AuthMiddleware (only_token (parent_claims 7 (u ''+9647701234567'') 3 (clock enrol_world))) bearer
     (snd (RegisterDeviceTokenHandler alone (Some 7) (Body a_token) enrolled))) = Inl e"
proof (rule signed_out_for_good [where w = enrol_world and p = old_parent and q = new_parent and hash = Some and verb = POST
      and param = "[]" and b = "Body enrol_request"])
  show "AuthMiddleware (only_token (parent_claims 7 (u ''+9647701234567'') 3 (clock enrol_world))) bearer enrol_world =
    (Inr (p_id old_parent), enrol_world)"
    using passes [of enrol_world 7 3] by (simp add: parent_version_def find_row_def old_parent_def MaxInt32_def)
  show "session_step\<^sup>*\<^sup>* enrolled (snd (RegisterDeviceTokenHandler alone (Some 7) (Body a_token) enrolled))"
    by (rule r_into_rtranclp, rule session_step.register, rule prod.collapse [symmetric])
qed (simp_all add: enrol_ok only_token_stable enrol_run, simp_all add: old_parent_def new_parent_def enrolled_db_def)

definition right_pin :: "str \<Rightarrow> str \<Rightarrow> bool" where
  "right_pin h pin \<longleftrightarrow> h = u ''x'' \<and> pin = u ''1234''"

definition her_login :: MobileLoginRequest where
  "her_login = \<lparr>lg_phone = u ''0770 123-4567'', lg_pin = u ''1234'', lg_fcm = []\<rparr>"

definition her_claims :: claims where
  "her_claims = parent_claims 1 (u ''+9647701234567'') 0 (At (Date 2025 10 5) (hm 8 0))"

lemma her_phone_read:
  "TrimSpace (lg_phone her_login) = u ''0770 123-4567''" "Normalize (u ''0770 123-4567'') = Some (u ''+9647701234567'')"
  by (simp_all add: her_login_def TrimSpace_def trim_by_def is_space_def Normalize_def clean_def ascii_digit_def Ignored_def
      strip_prefix_def trim_prefix_def mobile_def is_digit_def u_def)

lemma her_login_run:
  "\<exists>l'. MobileLoginHandler alone right_pin (sign_only her_claims) 10 POST (Body her_login) (NewLoginLimiter 5 100) app_world =
     (Inr \<lparr>lr_token = tok, lr_id = 1, lr_name = u ''Huda'', lr_phone = u ''+9647701234567''\<rparr>, l', app_world)"
proof -
  obtain l1 where a: "Allow 10 (NewLoginLimiter 5 100) (u ''+9647701234567'') = ((True, 0), l1)"
    by (rule that [of "snd (Allow 10 (NewLoginLimiter 5 100) (u ''+9647701234567''))"]) code_simp
  have "parent_login alone right_pin (sign_only her_claims) (u ''+9647701234567'') (u ''1234'') [] app_world =
    (Inr \<lparr>lr_token = tok, lr_id = 1, lr_name = u ''Huda'', lr_phone = u ''+9647701234567''\<rparr>, app_world)"
    by (simp add: parent_login_def parent_by_phone_def find_row_def right_pin_def GenerateParentToken_def sign_only_def
        offered_token_def bindE_def run_simps lift_err_run) (simp add: mother_def her_claims_def)
  then show ?thesis
    using her_phone_read a by (simp add: MobileLoginHandler_def attempt_with_def her_login_def u_def)
qed

theorem login_then_access_witness: "AuthMiddleware (only_token her_claims) bearer app_world = (Inr 1, app_world)"
proof -
  obtain l' where run: "MobileLoginHandler alone right_pin (sign_only her_claims) 10 POST (Body her_login) (NewLoginLimiter 5 100) app_world =
     (Inr \<lparr>lr_token = tok, lr_id = 1, lr_name = u ''Huda'', lr_phone = u ''+9647701234567''\<rparr>, l', app_world)"
    using her_login_run by blast
  have "AuthMiddleware (only_token her_claims) (u ''Bearer '' @ tok) app_world = (Inr 1, app_world)"
    using login_then_access [OF run only_token_back, of app_world] bearer_token
    by (simp add: mother_def MaxInt32_def unique_key_def ParentTokenTTL_def)
  then show ?thesis by (simp add: bearer_token)
qed

theorem roles_apart_witness: "\<exists>e. fst (AdminMiddleware (only_token her_claims) bearer app_world) = Inl e"
  unfolding her_claims_def
  by (rule roles_apart [where w = app_world, OF passes])
    (simp_all add: parent_version_def find_row_def mother_def MaxInt32_def)

definition locked_limiter :: limiter where
  "locked_limiter = Finish (snd (Allow 10 (NewLoginLimiter 1 100) (u ''+9647701234567''))) (u ''+9647701234567'') Failed"

lemma locked_limiter_run:
  "tracked_ok locked_limiter" "\<forall>k. in_progress locked_limiter k = 0" "locked_until locked_limiter (u ''+9647701234567'') 110"
proof -
  have a: "Allow 10 (NewLoginLimiter 1 100) (u ''+9647701234567'') =
      ((True, 0), snd (Allow 10 (NewLoginLimiter 1 100) (u ''+9647701234567'')))"
    by code_simp
  have "gate_run Allow Finish 50 (NewLoginLimiter 1 100) (\<lambda>_. 0)
      (snd (Allow 10 (NewLoginLimiter 1 100) (u ''+9647701234567''))) ((\<lambda>_. 0)(u ''+9647701234567'' := 1))"
    using gate_run.run_allow [where allow = Allow and now = 10 and t = 50 and granted = True,
        OF gate_run.run_start _ a, of Finish "\<lambda>_. 0"] by simp
  from gate_run.run_finish [OF this, of "u ''+9647701234567''" Failed]
  have r: "gate_run Allow Finish 50 (NewLoginLimiter 1 100) (\<lambda>_. 0) locked_limiter ((\<lambda>_. 0)(u ''+9647701234567'' := 0))"
    by (simp add: locked_limiter_def)
  from run_from_new [OF r] show "tracked_ok locked_limiter" "\<forall>k. in_progress locked_limiter k = 0" by simp_all
  have "entry_of locked_limiter (u ''+9647701234567'') = Some \<lparr>start = 10, failures = 1, inFlight = 0\<rparr>" by code_simp
  moreover have "window locked_limiter = 100" "maxFailures locked_limiter = 1" by code_simp+
  ultimately show "locked_until locked_limiter (u ''+9647701234567'') 110" by (simp add: locked_until_def)
qed

theorem locked_phone_refused_witness:
  "\<exists>l''. MobileLoginHandler alone right_pin (sign_only her_claims) 99 POST (Body her_login) locked_limiter app_world =
     (Inl (TooMany (retry_seconds (time_sub 110 99))), l'', app_world)"
proof (rule locked_phone_refused [OF locked_limiter_run, where matches = right_pin and sign = "sign_only her_claims"])
  show "limited_run right_pin (sign_only her_claims) 110 locked_limiter locked_limiter" by (rule no_attempt)
qed (use her_phone_read in \<open>simp_all add: her_login_def u_def\<close>)

definition father :: parent where
  "father = \<lparr>p_id = 2, p_name = u ''Ali'', p_phone = u ''+9647701234568'', p_pin = u ''y'', p_version = 0, p_push = True\<rparr>"

definition two_parents :: world where
  "two_parents = (quiet (empty_db\<lparr>parents := [mother, father]\<rparr>) (At (Date 2025 10 5) (hm 8 0)))\<lparr>serial := (\<lambda>_. 3)\<rparr>"

lemma delete_run:
  "\<exists>l' w'. AccountDeleteHandler right_pin 10 (u ''POST'') (u ''/'') (Some 1) (Body (u ''1234'')) (NewLoginLimiter 5 100) two_parents =
     (Inr (), l', w') \<and> parents (db w') = [father] \<and> faults w' = []"
proof -
  obtain l1 where a: "Allow 10 (NewLoginLimiter 5 100) (u ''+9647701234567'') = ((True, 0), l1)"
    by (rule that [of "snd (Allow 10 (NewLoginLimiter 5 100) (u ''+9647701234567''))"]) code_simp
  obtain w1 where d: "delete_account right_pin (u ''POST'') (u ''/'') 1 (u ''1234'') two_parents = (Inr (), w1)"
    "parents (db w1) = [father]" "faults w1 = []"
    by (rule that [of "snd (delete_account right_pin (u ''POST'') (u ''/'') 1 (u ''1234'') two_parents)"])
      (simp_all add: delete_account_def find_row_def right_pin_def unlinkStudents_def delete_parent_def recordAccountDelete_def
        two_parents_def mother_def father_def empty_db_def del_where_def upd_where_def bindE_def run_simps lift_err_run)
  then have t: "in_tx query_failed (delete_account right_pin (u ''POST'') (u ''/'') 1 (u ''1234'')) two_parents = (Inr (), w1)"
    by (simp add: in_tx_run_nil two_parents_def run_simps)
  have q: "query (\<lambda>d. map_option p_phone (find_row (\<lambda>p. p_id p = 1) (parents d))) two_parents = (Inr (Some (u ''+9647701234567'')), two_parents)"
    by (simp add: run_simps two_parents_def find_row_def mother_def)
  show ?thesis using a t q d by (simp add: AccountDeleteHandler_def attempt_with_def u_def)
qed

theorem account_deleted_for_good_witness:
  "\<exists>l' w'. AccountDeleteHandler right_pin 10 (u ''POST'') (u ''/'') (Some 1) (Body (u ''1234'')) (NewLoginLimiter 5 100) two_parents =
     (Inr (), l', w') \<and> AuthMiddleware (only_token (parent_claims 2 (u ''+9647701234568'') 0 (clock w'))) bearer w' = (Inr 2, w') \<and>
     (\<exists>rows. map y_target_id rows = [None] \<and> admin_activity_log (db w') = rows)"
proof -
  from delete_run obtain l' w' where
    r: "AccountDeleteHandler right_pin 10 (u ''POST'') (u ''/'') (Some 1) (Body (u ''1234'')) (NewLoginLimiter 5 100) two_parents =
     (Inr (), l', w')" and p: "parents (db w') = [father]" "faults w' = []" by (elim exE conjE)
  have a: "AuthMiddleware (only_token (parent_claims 2 (u ''+9647701234568'') 0 (clock w'))) bearer w' = (Inr 2, w')"
    using p by (intro passes) (simp_all add: parent_version_def find_row_def father_def MaxInt32_def)
  have "linked 1 (db two_parents) = []" by (simp add: linked_def two_parents_def empty_db_def)
  with account_deleted_for_good [OF r _ rtranclp.rtrancl_refl a]
  obtain rows where "db w' = (without_parent 1 (db two_parents))\<lparr>admin_activity_log := admin_activity_log (db two_parents) @ rows\<rparr>"
    "map y_target_id rows = [None]" by (auto simp: two_parents_def)
  then have "admin_activity_log (db w') = rows \<and> map y_target_id rows = [None]" by (simp add: two_parents_def empty_db_def)
  with r a show ?thesis by (intro exI [of _ l'] exI [of _ w']) simp
qed

end
