(* ===== verification/Activity.thy ===== *)
theory Activity
  imports Sessions
begin

text \<open>
  \<open>internal/handlers/activity.go\<close>: the log of what admins did. \<open>ActivityLog\<close> wraps a handler, which leaves the
  target of its request with \<open>NoteActivity\<close> (a login with \<open>noteLogin\<close>), and writes one row once it has answered;
  the row is inserted in the background, so a failure changes nothing but the log. The list of the rows is one more
  endpoint with pages.
\<close>

section \<open>What is recorded\<close>

definition ActivityLogPageSize :: nat where "ActivityLogPageSize = 50"

definition adminLoginPattern :: str where "adminLoginPattern = u ''POST /api/admin/login''"

definition ActivityActions :: "(str \<times> str) list" where
  "ActivityActions = map (\<lambda>(p, a). (u p, u a))
     [(''POST /api/admin/students'', ''student.create''),
      (''PUT /api/admin/students'', ''student.update''),
      (''DELETE /api/admin/students'', ''student.deactivate''),
      (''POST /api/admin/devices'', ''device.create''),
      (''PUT /api/admin/devices'', ''device.update''),
      (''DELETE /api/admin/devices'', ''device.disable''),
      (''POST /api/admin/leaves'', ''leave.create''),
      (''DELETE /api/admin/leaves'', ''leave.delete''),
      (''PUT /api/admin/settings'', ''settings.update''),
      (''PUT /api/admin/schedule'', ''schedule.save''),
      (''POST /api/admin/schedule/import'', ''schedule.import''),
      (''POST /api/admin/broadcasts'', ''broadcast.send''),
      (''POST /api/admin/holidays'', ''holiday.create''),
      (''POST /api/admin/holidays/cancel'', ''holiday.cancel''),
      (''POST /api/admin/banners'', ''banner.create''),
      (''PUT /api/admin/banners'', ''banner.update''),
      (''DELETE /api/admin/banners'', ''banner.delete''),
      (''POST /api/admin/attendance/manual'', ''attendance.manual_create''),
      (''DELETE /api/admin/attendance/manual'', ''attendance.manual_delete''),
      (''POST /api/admin/teachers'', ''teacher.create''),
      (''PUT /api/admin/teachers'', ''teacher.update''),
      (''GET /api/admin/export/excel'', ''export.attendance''),
      (''GET /api/admin/schedule/export'', ''export.schedule''),
      (''PUT /api/admin/tuition/fees'', ''tuition.fee_set''),
      (''PUT /api/admin/tuition/discount'', ''tuition.discount_set''),
      (''POST /api/admin/tuition/payments'', ''tuition.payment_create''),
      (''POST /api/admin/tuition/payments/void'', ''tuition.payment_void''),
      (''POST /api/admin/expenses/categories'', ''expense.category_create''),
      (''POST /api/admin/expenses'', ''expense.create''),
      (''POST /api/admin/expenses/void'', ''expense.void'')]"

definition activityExports :: "str list" where
  "activityExports = [u ''GET /api/admin/export/excel'', u ''GET /api/admin/schedule/export'']"

record activity =
  ac_login :: str
  ac_actor :: str
  ac_target_type :: str
  ac_target_id :: str
  ac_detail :: str

text \<open>The status of an answer is the first one the handler wrote, if any.\<close>

datatype written = WriteHeader int | Write

fun activityWriter :: "int \<Rightarrow> written \<Rightarrow> int" where
  "activityWriter status (WriteHeader code) = (if status = 0 \<and> 200 \<le> code then code else status)"
| "activityWriter status Write = (if status = 0 then 200 else status)"

text \<open>A request as the mux hands it on: its method, the pattern that matched, the path, the client's address
  (what \<open>ClientIP.Resolve\<close> gives) and the username \<open>AdminMiddleware\<close> put into its context.\<close>

record request =
  rq_method :: str
  rq_pattern :: str
  rq_path :: str
  rq_ip :: str
  rq_admin :: "str option"

definition activityRecorded :: "request \<Rightarrow> bool" where
  "activityRecorded r =
     (if rq_method r = u ''GET'' then rq_pattern r \<in> set activityExports
      else rq_method r \<noteq> u ''HEAD'' \<and> rq_method r \<noteq> u ''OPTIONS'')"

definition defaultActivityAction :: "request \<Rightarrow> str" where
  "defaultActivityAction r =
     (let segments = split_on 47 (trim_by (\<lambda>c. c = 47) (rq_path r));
          verb = (case map_of [(u ''POST'', u ''create''), (u ''PUT'', u ''update''), (u ''PATCH'', u ''update''),
              (u ''DELETE'', u ''delete''), (u ''GET'', u ''read'')] (rq_method r) of
            None \<Rightarrow> asciiLower (rq_method r) | Some v \<Rightarrow> v) in
      truncateChars (last segments @ u ''.'' @ verb) 60)"

definition nullText :: "str \<Rightarrow> nat \<Rightarrow> str option" where
  "nullText s n = (if s = [] then None else Some (truncateChars s n))"

definition activity_actor :: "request \<Rightarrow> activity \<Rightarrow> str" where
  "activity_actor r a =
     (if ac_actor a \<noteq> [] then ac_actor a
      else case rq_admin r of None \<Rightarrow> u ''admin'' | Some name \<Rightarrow> if name = [] then u ''admin'' else name)"

definition activity_action :: "request \<Rightarrow> activity \<Rightarrow> str" where
  "activity_action r a =
     (if ac_login a \<noteq> [] then ac_login a
      else case map_of ActivityActions (rq_pattern r) of None \<Rightarrow> defaultActivityAction r | Some action \<Rightarrow> action)"

definition activity_entry :: "request \<Rightarrow> activity \<Rightarrow> int \<Rightarrow> stamp \<Rightarrow> activity_row" where
  "activity_entry r a status now =
     \<lparr>y_id = 0, y_created = to_micro now, y_actor = truncateChars (activity_actor r a) 50, y_action = activity_action r a,
      y_method = rq_method r, y_path = truncateChars (rq_path r) 200, y_status = status, y_ip = nullText (rq_ip r) 64,
      y_target_type = nullText (ac_target_type a) 40, y_target_id = nullText (ac_target_id a) MaxActivityTargetID,
      y_detail = nullText (ac_detail a) MaxActivityDetail\<rparr>"

definition fits :: "nat \<Rightarrow> str option \<Rightarrow> bool" where
  "fits n t = (case t of None \<Rightarrow> True | Some s \<Rightarrow> length s \<le> n)"

definition activity_checks :: "activity_row \<Rightarrow> bool" where
  \<comment> \<open>the table's constraints\<close>
  "activity_checks y \<longleftrightarrow> between 1 50 (y_actor y) \<and> between 1 60 (y_action y) \<and> length (y_path y) \<le> 200 \<and>
     fits 64 (y_ip y) \<and> fits 40 (y_target_type y) \<and> fits 64 (y_target_id y) \<and> fits 200 (y_detail y)"

definition insert_activity :: "activity_row \<Rightarrow> int \<Rightarrow> db \<Rightarrow> err + unit \<times> db" where
  "insert_activity y i d =
     (if \<not> activity_checks y then Inl (check_violation ''admin_activity_log'')
      else if i \<in> y_id ` set (admin_activity_log d) then Inl (unique_violation ''admin_activity_log_pkey'')
      else Inr ((), d\<lparr>admin_activity_log := admin_activity_log d @ [y\<lparr>y_id := i\<rparr>]\<rparr>))"

definition activity_texts :: "activity_row \<Rightarrow> str list" where
  "activity_texts y = [y_actor y, y_action y, y_method y, y_path y] @ opt_list (y_ip y) @ opt_list (y_target_type y) @
     opt_list (y_target_id y) @ opt_list (y_detail y)"

definition recordActivity :: "request \<Rightarrow> activity \<Rightarrow> int \<Rightarrow> ('e, unit) tx" where
  \<comment> \<open>a failed insert is only logged\<close>
  "recordActivity r a status =
     bindE get_clock (\<lambda>now.
     let y = activity_entry r a status now in
     bindE (attempt (with_text (activity_texts y) (insert_id Admin_Activity_Log (insert_activity y)))) (\<lambda>_. ret ()))"

section \<open>The wrapper\<close>

text \<open>What a wrapped handler leaves: its notes, what it wrote, and whether it panicked.\<close>

record handled =
  ha_activity :: activity
  ha_written :: "written list"
  ha_panicked :: bool

definition recorded_status :: "handled \<Rightarrow> int" where
  "recorded_status h =
     (let status = foldl activityWriter 0 (ha_written h) in
      if ha_panicked h then 500 else if status = 0 then 200 else status)"

definition ActivityLog :: "request \<Rightarrow> (world \<Rightarrow> handled \<times> world) \<Rightarrow> world \<Rightarrow> handled \<times> world" where
  "ActivityLog r nxt w =
     (let login = (rq_pattern r = adminLoginPattern) in
      if \<not> login \<and> \<not> activityRecorded r then nxt w
      else case nxt w of (h, w') \<Rightarrow>
        if \<not> login \<or> ac_login (ha_activity h) \<noteq> []
        then (h, snd (recordActivity r (ha_activity h) (recorded_status h) w' :: (err + unit) \<times> world))
        else (h, w'))"

definition noting :: "('e + 'a \<Rightarrow> int) \<Rightarrow> ('e, 'a) tx \<Rightarrow> world \<Rightarrow> handled \<times> world" where
  \<comment> \<open>a handler of this development as a wrapped handler: it starts without notes and answers once\<close>
  "noting status m w =
     (case m (w\<lparr>noted := ([], [], [])\<rparr>) of
        (r, w') \<Rightarrow> (case noted w' of (t, i, d) \<Rightarrow>
          (\<lparr>ha_activity = \<lparr>ac_login = [], ac_actor = [], ac_target_type = t, ac_target_id = i, ac_detail = d\<rparr>,
             ha_written = [WriteHeader (status r), Write], ha_panicked = False\<rparr>, w')))"

section \<open>The list\<close>

definition ActivityResult :: "int \<Rightarrow> str" where
  "ActivityResult status = (if 500 \<le> status then u ''failed'' else if 400 \<le> status then u ''rejected'' else u ''success'')"

record ActivityLogItem =
  li_id :: int
  li_created :: str
  li_actor :: str
  li_action :: str
  li_method :: str
  li_path :: str
  li_status :: int
  li_result :: str
  li_ip :: "str option"
  li_target_type :: "str option"
  li_target_id :: "str option"
  li_detail :: "str option"

definition activity_item :: "activity_row \<Rightarrow> ActivityLogItem" where
  "activity_item y =
     \<lparr>li_id = y_id y, li_created = rfc3339 (y_created y), li_actor = y_actor y, li_action = y_action y, li_method = y_method y,
      li_path = y_path y, li_status = y_status y, li_result = ActivityResult (y_status y), li_ip = y_ip y,
      li_target_type = y_target_type y, li_target_id = y_target_id y, li_detail = y_detail y\<rparr>"

definition activity_before :: "str \<Rightarrow> refusal + int option" where
  "activity_before v =
     (if v = [] then Inr None
      else case Atoi v of
        None \<Rightarrow> Inl (bad_request ''before must be a positive activity log id'')
      | Some i \<Rightarrow> if i < 1 then Inl (bad_request ''before must be a positive activity log id'') else Inr (Some i))"

definition activity_query :: "int option \<Rightarrow> db \<Rightarrow> ActivityLogItem list" where
  "activity_query before d =
     map activity_item (take (ActivityLogPageSize + 1)
       (rev (sort_key y_id (filter (\<lambda>y. case before of None \<Rightarrow> True | Some i \<Rightarrow> y_id y < i) (admin_activity_log d)))))"

definition AdminActivityLogHandler :: "str \<Rightarrow> (refusal, ActivityLogItem list \<times> bool \<times> int option) tx" where
  "AdminActivityLogHandler beforeParam =
     bindE (of_sum (activity_before beforeParam)) (\<lambda>before.
     bindE (lift_err (internal_error ''Database error'') (query (activity_query before))) (\<lambda>rows.
     let hasMore = ActivityLogPageSize < length rows;
         items = (if hasMore then take ActivityLogPageSize rows else rows) in
     ret (items, hasMore, if hasMore then Some (li_id (items ! (ActivityLogPageSize - 1))) else None)))"

section \<open>A row always fits\<close>

lemma nullText_fits: "fits n (nullText s n)"
  by (simp add: fits_def nullText_def truncateChars_length)

lemma truncateChars_nonempty: "s \<noteq> [] \<Longrightarrow> 1 \<le> n \<Longrightarrow> 1 \<le> length (truncateChars s n)"
  by (cases s) (auto simp: truncateChars_def)

lemma ActivityActions_fit: "map_of ActivityActions p = Some a \<Longrightarrow> between 1 60 a \<and> plain_texts [a]"
proof -
  have "list_all (\<lambda>(p, a). between 1 60 a \<and> plain_texts [a]) ActivityActions"
    by (simp add: ActivityActions_def between_def plain_texts_def u_def)
  then show "map_of ActivityActions p = Some a \<Longrightarrow> between 1 60 a \<and> plain_texts [a]"
    by (auto simp: list_all_iff dest!: map_of_SomeD)
qed

definition noted_login :: "activity \<Rightarrow> bool" where
  \<comment> \<open>what \<open>noteLogin\<close> can leave, or nothing\<close>
  "noted_login a \<longleftrightarrow> ac_login a \<in> {[], ActionLoginSuccess, ActionLoginFailed}"

lemma activity_action_fits: "noted_login a \<Longrightarrow> between 1 60 (activity_action r a)"
proof -
  assume "noted_login a"
  moreover have "between 1 60 (defaultActivityAction r)"
    using truncateChars_length [of _ 60] truncateChars_nonempty [of _ 60]
    by (auto simp: between_def defaultActivityAction_def Let_def)
  ultimately show ?thesis
    by (auto simp: activity_action_def noted_login_def ActionLoginSuccess_def ActionLoginFailed_def between_def u_def
        split: option.split dest: ActivityActions_fit)
qed

lemma activity_entry_fits: "noted_login a \<Longrightarrow> activity_checks (activity_entry r a status now)"
proof -
  assume "noted_login a"
  moreover have "activity_actor r a \<noteq> []" by (auto simp: activity_actor_def split: option.split)
  ultimately show ?thesis
    using activity_action_fits truncateChars_nonempty [of "activity_actor r a" 50] truncateChars_length [of "activity_actor r a" 50]
      nullText_fits [of 64] nullText_fits [of 40] nullText_fits [of 200]
    by (simp add: activity_checks_def activity_entry_def between_def truncateChars_length MaxActivityTargetID_def MaxActivityDetail_def)
qed

lemma plain_truncate: "plain_texts [s] \<Longrightarrow> plain_texts [truncateChars s n]"
  by (auto simp: plain_texts_def truncateChars_def dest: in_set_takeD)

lemma plain_nullText: "plain_texts [s] \<Longrightarrow> plain_texts (opt_list (nullText s n))"
  using plain_truncate by (auto simp: nullText_def opt_list_def plain_texts_def)

definition logged_texts :: "request \<Rightarrow> activity \<Rightarrow> str list" where
  "logged_texts r a = [rq_method r, rq_path r, rq_ip r, activity_actor r a, ac_target_type a, ac_target_id a, ac_detail a]"

lemma plain_default_action:
  assumes "plain_texts [rq_method r, rq_path r]"
  shows "plain_texts [defaultActivityAction r]"
proof -
  let ?segments = "split_on 47 (trim_by (\<lambda>c. c = 47) (rq_path r))"
  have "set (last ?segments) \<subseteq> set (join_with [47] ?segments)"
  proof -
    have "set (last xs) \<subseteq> set (join_with sep xs)" if "xs \<noteq> []" for xs and sep :: str
      using that by (induction sep xs rule: join_with.induct) auto
    then show ?thesis by simp
  qed
  then have "0 \<notin> set (last ?segments)"
    using assms set_trim_by [of "\<lambda>c. c = 47" "rq_path r"] by (auto simp: split_on_join plain_texts_def)
  moreover have "0 \<notin> set (asciiLower (rq_method r))" using assms by (auto simp: asciiLower_def plain_texts_def)
  ultimately have "plain_texts [last ?segments @ u ''.'' @ v]" if "0 \<notin> set v" for v
    using that by (simp add: plain_texts_def u_def)
  with \<open>0 \<notin> set (asciiLower (rq_method r))\<close> show ?thesis
    unfolding defaultActivityAction_def Let_def
    by (intro plain_truncate) (auto simp: u_def split: option.split if_splits)
qed

lemma plain_entry:
  assumes "plain_texts (logged_texts r a)" "noted_login a"
  shows "plain_texts (activity_texts (activity_entry r a status now))"
proof -
  have "plain_texts [activity_action r a]"
    using assms plain_default_action [of r]
    by (auto simp: activity_action_def noted_login_def ActionLoginSuccess_def ActionLoginFailed_def logged_texts_def
        split: option.split dest: ActivityActions_fit) (simp_all add: plain_texts_def u_def)
  moreover have "plain_texts [truncateChars (activity_actor r a) 50]" "plain_texts [truncateChars (rq_path r) 200]"
    by (rule plain_truncate, use assms(1) in \<open>simp add: logged_texts_def plain_texts_def\<close>)+
  moreover have "plain_texts (opt_list (nullText s n))" if "s \<in> {rq_ip r, ac_target_type a, ac_target_id a, ac_detail a}" for s n
    using assms(1) that by (intro plain_nullText) (auto simp: logged_texts_def plain_texts_def)
  ultimately show ?thesis
    using assms(1)
    by (simp add: activity_texts_def activity_entry_def plain_texts_append) (simp add: plain_texts_def logged_texts_def)
qed

definition log_fresh :: "world \<Rightarrow> bool" where
  \<comment> \<open>the sequence is ahead of the ids in the log\<close>
  "log_fresh w \<longleftrightarrow> (\<forall>y \<in> set (admin_activity_log (db w)). y_id y < serial w Admin_Activity_Log)"

lemma inserted_row:
  assumes "noted_login a" "plain_texts (activity_texts (activity_entry r a status (clock w)))" "faults w = []" "log_fresh w"
  shows "db (snd (recordActivity r a status w :: (err + unit) \<times> world)) =
    (db w)\<lparr>admin_activity_log := admin_activity_log (db w) @
       [(activity_entry r a status (clock w))\<lparr>y_id := serial w Admin_Activity_Log\<rparr>]\<rparr>"
proof -
  have "serial w Admin_Activity_Log \<notin> y_id ` set (admin_activity_log (db w))"
    using assms(4) by (auto simp: log_fresh_def)
  then have "insert_activity (activity_entry r a status (clock w)) (serial w Admin_Activity_Log) (db w) =
      Inr ((), (db w)\<lparr>admin_activity_log := admin_activity_log (db w) @
         [(activity_entry r a status (clock w))\<lparr>y_id := serial w Admin_Activity_Log\<rparr>]\<rparr>)"
    using activity_entry_fits [OF assms(1)] by (simp add: insert_activity_def)
  then show ?thesis
    using assms(3)
    by (simp add: recordActivity_def bindE_def run_simps attempt_run Let_def with_plain_texts [OF assms(2)])
qed

lemmas recorded_row = inserted_row [OF _ plain_entry]

lemma plain_iff: "plain_texts ts \<longleftrightarrow> \<not> (\<exists>t \<in> set ts. 0 \<in> set t)"
  by (auto simp: plain_texts_def list_all_iff)

lemma refused_row:
  assumes "\<not> plain_texts (activity_texts (activity_entry r a status (clock w)))" "faults w = []"
  shows "db (snd (recordActivity r a status w :: (err + unit) \<times> world)) = db w"
proof -
  have "list_ex (\<lambda>t. 0 \<in> set t) (activity_texts (activity_entry r a status (clock w)))"
    using assms(1) by (auto simp: plain_iff list_ex_iff)
  then show ?thesis using assms(2) by (simp add: recordActivity_def bindE_def run_simps attempt_run Let_def with_text_def)
qed

section \<open>Reading every page\<close>

definition activity_page :: "world \<Rightarrow> int option \<Rightarrow> ActivityLogItem list \<times> bool \<times> int option" where
  "activity_page w b =
     (case fst (AdminActivityLogHandler (before_text b) w) of Inl e \<Rightarrow> ([], False, None) | Inr p \<Rightarrow> p)"

definition log_served :: "world \<Rightarrow> bool" where
  "log_served w \<longleftrightarrow> faults w = [] \<and> unique_key y_id (admin_activity_log (db w)) \<and>
     (\<forall>y \<in> set (admin_activity_log (db w)). 1 \<le> y_id y \<and> y_id y < 2 ^ 63)"

lemma activity_item_id [simp]: "li_id (activity_item y) = y_id y"
  by (simp add: activity_item_def)

lemma activity_query_page:
  "activity_query b d = take (ActivityLogPageSize + 1) (newest_first li_id b (map activity_item (admin_activity_log d)))"
proof -
  let ?F = "filter (\<lambda>y. case b of None \<Rightarrow> True | Some i \<Rightarrow> y_id y < i) (admin_activity_log d)"
  have f: "filter (below li_id b) (map activity_item (admin_activity_log d)) = map activity_item ?F"
    by (cases b) (simp_all add: filter_map o_def below_def)
  have "sort_key li_id (map activity_item ?F) = map activity_item (sort_key y_id ?F)"
    using map_sort_key [of activity_item li_id ?F] by simp
  then show ?thesis by (simp add: activity_query_def newest_first_def f rev_map take_map)
qed

interpretation activity_pages: pager log_served activity_page "\<lambda>w. map activity_item (admin_activity_log (db w))" li_id
  ActivityLogPageSize
proof
  fix w b
  assume w: "log_served w" and b: "b = None \<or> (\<exists>r \<in> set (map activity_item (admin_activity_log (db w))). b = Some (li_id r))"
  have "activity_before (before_text b) = Inr b"
    using w b by (auto simp: activity_before_def before_text_def itoa_nonempty Atoi_itoa log_served_def)
  then show "activity_page w b = page_of li_id ActivityLogPageSize b (map activity_item (admin_activity_log (db w)))"
    using w last_take [of 49 "newest_first li_id b (map activity_item (admin_activity_log (db w)))"]
    by (auto simp: activity_page_def AdminActivityLogHandler_def bindE_def lift_err_run run_simps
        activity_query_page page_of_def Let_def ActivityLogPageSize_def log_served_def)
next
  fix w assume "log_served w"
  then show "distinct (map li_id (map activity_item (admin_activity_log (db w))))"
    by (simp add: log_served_def unique_key_def o_def)
qed (simp add: ActivityLogPageSize_def)

section \<open>Logins\<close>

definition login_status :: "login_refusal + str \<Rightarrow> int" where
  "login_status r = (case r of Inr token \<Rightarrow> 200 | Inl (Denied (Refuse code msg)) \<Rightarrow> code | Inl (TooMany wait) \<Rightarrow> 429)"

definition login_activity :: "(str \<times> str) option \<Rightarrow> activity" where
  "login_activity n = (case n of
     None \<Rightarrow> \<lparr>ac_login = [], ac_actor = [], ac_target_type = [], ac_target_id = [], ac_detail = []\<rparr>
   | Some (code, actor) \<Rightarrow> \<lparr>ac_login = code, ac_actor = actor, ac_target_type = [], ac_target_id = [], ac_detail = []\<rparr>)"

definition noting_login ::
    "((login_refusal + str) \<times> (str \<times> str) option \<times> limiters \<times> world) \<Rightarrow> handled \<times> world" where
  "noting_login out = (case out of (r, n, ls, w') \<Rightarrow>
     (\<lparr>ha_activity = login_activity n, ha_written = [WriteHeader (login_status r), Write], ha_panicked = False\<rparr>, w'))"

lemma admin_login_note:
  assumes "admin_login matches sign req w = (Inl f, w')"
  shows "f = wrong_password \<or> af_note f = None \<and> af_answer f \<noteq> wrong_login"
  using assms
  by (auto simp: admin_login_def bindE_err lift_err_err of_option_def guard_def fail_def ret_def internal_error_def wrong_login_def
      get_clock_def split: option.splits if_splits)

lemma admin_login_plain: "admin_login matches sign req w = (Inr token, w') \<Longrightarrow> plain_texts [al_username req]"
  by (auto simp: admin_login_def bindE_ok simple_ok dest: with_text_plain)

lemma login_note:
  assumes "AdminLoginHandler matches sign digest now verb client b ls w = (res, n, ls', w')"
  shows "(\<exists>token req. res = Inr token \<and> b = Body req \<and> n = Some (noteLogin True (al_username req)) \<and> plain_texts [al_username req]) \<or>
    res = Inl (Denied wrong_login) \<and> n = Some (noteLogin False []) \<or>
    (\<forall>token. res \<noteq> Inr token) \<and> res \<noteq> Inl (Denied wrong_login) \<and> n = None"
proof -
  have "method_not_allowed \<noteq> wrong_login" by (simp add: method_not_allowed_def wrong_login_def)
  moreover have "decodeJSONBody b m = Inl e \<Longrightarrow> e \<noteq> wrong_login" for m e
    by (auto simp: decodeJSONBody_def wrong_login_def split: body.splits)
  moreover have "wrong_password = f \<Longrightarrow> af_answer f = wrong_login \<and> af_note f = Some (noteLogin False [])" for f
    by (auto simp: wrong_password_def)
  ultimately show ?thesis
    using assms
    by (auto simp: AdminLoginHandler_def Let_def decodeJSONBody_def split: if_splits sum.splits prod.splits body.splits
        dest: admin_login_note admin_login_plain)
qed

section \<open>Properties\<close>

text \<open>C25. Every write of an admin, and every export, leaves exactly one row in the log once its handler has answered,
  with the status it answered (500 when it panicked), however long its notes are, provided its handler notes no sign-in
  (only the login does), the insert itself meets no fault and an unused id, and no text of the row has a NUL character; when one of them has, the request is answered all the same but
  leaves no row. A request that only reads leaves none and is passed through.\<close>

theorem admin_write_logged:
  assumes r: "rq_pattern r \<noteq> adminLoginPattern" and run: "nxt w = (h, w1)" and noted: "ac_login (ha_activity h) = []"
    and w1: "faults w1 = []" "log_fresh w1"
  shows "\<exists>w2. ActivityLog r nxt w = (h, w2) \<and>
    (if \<not> activityRecorded r then w2 = w1
     else if \<exists>t \<in> set (activity_texts (activity_entry r (ha_activity h) (recorded_status h) (clock w1))). 0 \<in> set t
     then db w2 = db w1
     else \<exists>y. db w2 = (db w1)\<lparr>admin_activity_log := admin_activity_log (db w1) @ [y]\<rparr> \<and>
       y_method y = rq_method r \<and> y_path y = truncateChars (rq_path r) 200 \<and>
       y_status y = recorded_status h \<and> y_actor y = truncateChars (activity_actor r (ha_activity h)) 50 \<and>
       y_action y = activity_action r (ha_activity h) \<and> y_target_id y = nullText (ac_target_id (ha_activity h)) 64)"
proof (cases "activityRecorded r")
  case True
  let ?a = "ha_activity h" and ?st = "recorded_status h"
  define w2 where "w2 = snd (recordActivity r ?a ?st w1 :: (err + unit) \<times> world)"
  have log: "ActivityLog r nxt w = (h, w2)" using True r run by (simp add: ActivityLog_def w2_def)
  show ?thesis
  proof (cases "plain_texts (activity_texts (activity_entry r ?a ?st (clock w1)))")
    case plain: True
    have "noted_login ?a" using noted by (simp add: noted_login_def)
    note row = inserted_row [OF this plain w1, folded w2_def]
    let ?y = "(activity_entry r ?a ?st (clock w1))\<lparr>y_id := serial w1 Admin_Activity_Log\<rparr>"
    have y: "y_method ?y = rq_method r" "y_path ?y = truncateChars (rq_path r) 200" "y_status ?y = ?st"
      "y_actor ?y = truncateChars (activity_actor r ?a) 50" "y_action ?y = activity_action r ?a"
      "y_target_id ?y = nullText (ac_target_id ?a) 64"
      by (simp_all add: activity_entry_def MaxActivityTargetID_def)
    show ?thesis
      using plain True row y unfolding plain_iff by (intro exI [of _ w2] conjI log) (simp only: not_True_eq_False if_False, blast)
  next
    case False
    note row = refused_row [OF this w1(1)]
    show ?thesis
      using False True row [folded w2_def] unfolding plain_iff by (intro exI [of _ w2] conjI log) simp
  qed
next
  case False
  then show ?thesis using r run by (simp add: ActivityLog_def)
qed


section \<open>Examples\<close>

definition admin_post :: request where
  "admin_post = \<lparr>rq_method = u ''POST'', rq_pattern = u ''POST /api/admin/students'', rq_path = u ''/api/admin/students'',
     rq_ip = u ''10.0.0.9'', rq_admin = Some (u ''huda'')\<rparr>"

definition answer_code :: "student_refusal + 'a \<Rightarrow> int" where
  "answer_code r = (case r of Inr x \<Rightarrow> 200 | Inl (Plain (Refuse code msg)) \<Rightarrow> code | Inl (TagTaken hint) \<Rightarrow> 409)"

definition enrolment_noted :: handled where
  "enrolment_noted = \<lparr>ha_activity = \<lparr>ac_login = [], ac_actor = [], ac_target_type = u ''student'', ac_target_id = itoa 1, ac_detail = []\<rparr>,
     ha_written = [WriteHeader 200, Write], ha_panicked = False\<rparr>"

theorem admin_write_logged_witness:
  "\<exists>y w2. ActivityLog admin_post (noting answer_code (AdminStudentsHandler Some POST [] (Body enrol_request))) enrol_world =
       (enrolment_noted, w2) \<and> admin_activity_log (db w2) = [y] \<and>
     (y_action y, y_actor y, y_status y, y_target_id y) = (u ''student.create'', u ''huda'', 200, Some (u ''1''))"
proof -
  have n: "enrol_world\<lparr>noted := ([], [], [])\<rparr> = enrol_world" by (simp add: enrol_world_def)
  have i: "itoa 1 = u ''1''" by (simp add: itoa_def digits_of.simps u_def)
  have run: "noting answer_code (AdminStudentsHandler Some POST [] (Body enrol_request)) enrol_world = (enrolment_noted, enrolled)"
    by (simp add: noting_def n enrol_run answer_code_def enrolment_noted_def) (simp add: enrolled_def)
  have rec: "activityRecorded admin_post" by (simp add: activityRecorded_def admin_post_def)
  have a: "activity_action admin_post (ha_activity enrolment_noted) = u ''student.create''"
    by (simp add: activity_action_def admin_post_def enrolment_noted_def ActivityActions_def)
  have c: "activity_actor admin_post (ha_activity enrolment_noted) = u ''huda''"
    by (simp add: activity_actor_def admin_post_def enrolment_noted_def)
  have s: "recorded_status enrolment_noted = 200" by (simp add: recorded_status_def enrolment_noted_def)
  have t: "truncateChars (u ''huda'') 50 = u ''huda''" "nullText (itoa 1) 64 = Some (u ''1'')"
    by (simp_all add: truncateChars_def nullText_def i) (simp_all add: u_def)
  have "plain_texts (logged_texts admin_post (ha_activity enrolment_noted))"
    by (simp add: logged_texts_def c i) (simp add: plain_texts_def admin_post_def enrolment_noted_def i u_def)
  moreover have "noted_login (ha_activity enrolment_noted)" by (simp add: noted_login_def enrolment_noted_def)
  ultimately have "\<not> (\<exists>t \<in> set (activity_texts (activity_entry admin_post (ha_activity enrolment_noted)
      (recorded_status enrolment_noted) (clock enrolled))). 0 \<in> set t)"
    using plain_entry unfolding plain_iff by blast
  moreover have "log_fresh enrolled" by (simp add: log_fresh_def enrolled_db_def empty_db_def)
  moreover have "rq_pattern admin_post \<noteq> adminLoginPattern" by (simp add: admin_post_def adminLoginPattern_def)
  moreover have "ac_login (ha_activity enrolment_noted) = []" by (simp add: enrolment_noted_def)
  ultimately obtain y w2 where
    "ActivityLog admin_post (noting answer_code (AdminStudentsHandler Some POST [] (Body enrol_request))) enrol_world = (enrolment_noted, w2)"
    "db w2 = (db enrolled)\<lparr>admin_activity_log := admin_activity_log (db enrolled) @ [y]\<rparr>"
    "y_status y = recorded_status enrolment_noted" "y_actor y = truncateChars (activity_actor admin_post (ha_activity enrolment_noted)) 50"
    "y_action y = activity_action admin_post (ha_activity enrolment_noted)"
    "y_target_id y = nullText (ac_target_id (ha_activity enrolment_noted)) 64"
    using admin_write_logged [where r = admin_post and h = enrolment_noted and ?w1.0 = enrolled and w = enrol_world
        and nxt = "noting answer_code (AdminStudentsHandler Some POST [] (Body enrol_request))", OF _ run] rec by auto
  then show ?thesis
    by (intro exI [of _ y] exI [of _ w2]) (simp add: enrolled_db_def empty_db_def a c s t, simp add: enrolment_noted_def t)
qed

definition login_post :: request where
  "login_post = \<lparr>rq_method = u ''POST'', rq_pattern = adminLoginPattern, rq_path = u ''/api/admin/login'', rq_ip = u ''10.0.0.9'', rq_admin = None\<rparr>"

definition a_guess :: AdminLoginRequest where
  "a_guess = \<lparr>al_username = u ''root'', al_password = u ''root''\<rparr>"

definition empty_world :: world where
  "empty_world = quiet empty_db (At (Date 2025 10 5) (hm 8 0))"

definition fresh_limiters :: limiters where
  "fresh_limiters = \<lparr>user_limiter = NewLoginLimiter 5 100, ip_limiter = NewLoginLimiter 20 100\<rparr>"

lemma guess_run:
  "\<exists>ls'. AdminLoginHandler (\<lambda>_ _. True) (\<lambda>_. None) (\<lambda>_. u ''0'') 10 POST (u ''10.0.0.9'', False) (Body a_guess) fresh_limiters empty_world =
     (Inl (Denied wrong_login), Some (noteLogin False []), ls', empty_world)"
proof -
  obtain l1 where "Allow 10 (NewLoginLimiter 5 100) (u ''user:'' @ u ''0'' @ u ''|'' @ u ''10.0.0.9'') = ((True, 0), l1)"
    by (rule that [of "snd (Allow 10 (NewLoginLimiter 5 100) (u ''user:'' @ u ''0'' @ u ''|'' @ u ''10.0.0.9''))"]) code_simp
  moreover have "admin_login (\<lambda>_ _. True) (\<lambda>_. None) a_guess empty_world = (Inl wrong_password, empty_world)"
  proof -
    have "with_text [al_username a_guess] m = m" for m :: "(err, admin option) tx"
      by (rule with_plain_texts) (simp add: plain_texts_def a_guess_def u_def)
    then show ?thesis
      by (simp add: admin_login_def admin_by_name_def find_row_def empty_world_def empty_db_def bindE_def run_simps lift_err_run)
  qed
  ultimately show ?thesis
    by (simp add: AdminLoginHandler_def fresh_limiters_def limiterKey_def wrong_password_def)
qed


end
