(* ===== verification/ClientIP.thy ===== *)
theory ClientIP
  imports Prelude
begin

text \<open>
  \<open>internal/clientip/clientip.go\<close>: whose address a request has behind a reverse proxy. Addresses and prefixes
  are what the standard library's \<open>net/netip\<close> reads; its functions are the fields of \<open>netip\<close>.
\<close>

record ('a, 'p) netip =
  ParseAddr :: "str \<Rightarrow> 'a option"       \<comment> \<open>with \<open>Unmap\<close>\<close>
  AddrString :: "'a \<Rightarrow> str"
  FullPrefix :: "'a \<Rightarrow> str"             \<comment> \<open>\<open>PrefixFrom(a, a.BitLen()).String()\<close>\<close>
  ParsePrefix :: "str \<Rightarrow> 'p option"     \<comment> \<open>with \<open>Masked\<close>\<close>
  Contains :: "'p \<Rightarrow> 'a \<Rightarrow> bool"

section \<open>The trusted proxies\<close>

definition prefix_of :: "('a, 'p) netip \<Rightarrow> str \<Rightarrow> str + 'p" where
  "prefix_of lib f =
     (if 47 \<notin> set f
      then case ParseAddr lib f of
          None \<Rightarrow> Inl (u ''invalid proxy address'')
        | Some a \<Rightarrow> (case ParsePrefix lib (FullPrefix lib a) of None \<Rightarrow> Inl (u ''invalid proxy prefix'') | Some p \<Rightarrow> Inr p)
      else case ParsePrefix lib f of None \<Rightarrow> Inl (u ''invalid proxy prefix'') | Some p \<Rightarrow> Inr p)"

fun read_prefixes :: "('a, 'p) netip \<Rightarrow> str list \<Rightarrow> str + 'p list" where
  "read_prefixes lib [] = Inr []"
| "read_prefixes lib (f # fs) =
     (if TrimSpace f = [] then read_prefixes lib fs
      else case prefix_of lib (TrimSpace f) of
        Inl e \<Rightarrow> Inl e
      | Inr p \<Rightarrow> (case read_prefixes lib fs of Inl e \<Rightarrow> Inl e | Inr ps \<Rightarrow> Inr (p # ps)))"

definition ParsePrefixes :: "('a, 'p) netip \<Rightarrow> str \<Rightarrow> str + 'p list" where
  "ParsePrefixes lib s = read_prefixes lib (split_on 44 s)"

definition trusted :: "('a, 'p) netip \<Rightarrow> 'p list \<Rightarrow> 'a \<Rightarrow> bool" where
  "trusted lib proxies a \<longleftrightarrow> list_ex (\<lambda>p. Contains lib p a) proxies"

definition parse :: "('a, 'p) netip \<Rightarrow> str \<Rightarrow> 'a option" where
  "parse lib s = ParseAddr lib (TrimSpace s)"

section \<open>The client\<close>

fun until_last :: "nat \<Rightarrow> str \<Rightarrow> str option" where
  \<comment> \<open>the text before the last occurrence of a character\<close>
  "until_last c [] = None"
| "until_last c (x # s) =
     (case until_last c s of Some t \<Rightarrow> Some (x # t) | None \<Rightarrow> if x = c then Some [] else None)"

definition SplitHostPort :: "str \<Rightarrow> str option" where
  \<comment> \<open>\<open>net.SplitHostPort\<close>: the host, without the brackets of an IPv6 address\<close>
  "SplitHostPort hostport =
     (case until_last 58 hostport of
        None \<Rightarrow> None
      | Some before \<Rightarrow>
          if has_prefix hostport [91]
          then (if before \<noteq> [] \<and> last before = 93 \<and> 91 \<notin> set (tl hostport) \<and> 93 \<notin> set (butlast before)
                  \<and> 93 \<notin> set (drop (length before) hostport)
                then Some (butlast (tl before)) else None)
          else if 58 \<in> set before \<or> 91 \<in> set hostport \<or> 93 \<in> set hostport then None
          else Some before)"

record request_addr =
  RemoteAddr :: str
  XRealIP :: str
  XForwardedFor :: "str list"    \<comment> \<open>the header's values\<close>

fun forwarded :: "('a, 'p) netip \<Rightarrow> 'p list \<Rightarrow> str list \<Rightarrow> 'a option" where
  \<comment> \<open>the hops from the right, up to the first that is not a trusted proxy or no address\<close>
  "forwarded lib proxies [] = None"
| "forwarded lib proxies (h # hs) =
     (case parse lib h of
        None \<Rightarrow> None
      | Some a \<Rightarrow> if trusted lib proxies a then forwarded lib proxies hs else Some a)"

definition Resolve :: "('a, 'p) netip \<Rightarrow> 'p list \<Rightarrow> request_addr \<Rightarrow> str \<times> bool" where
  "Resolve lib proxies r =
     (let host = (case SplitHostPort (RemoteAddr r) of None \<Rightarrow> RemoteAddr r | Some h \<Rightarrow> h) in
      case parse lib host of
        None \<Rightarrow> (host, False)
      | Some remote \<Rightarrow>
          if \<not> trusted lib proxies remote then (AddrString lib remote, True)
          else (case (case parse lib (XRealIP r) of None \<Rightarrow> None | Some a \<Rightarrow> if trusted lib proxies a then None else Some a) of
              Some a \<Rightarrow> (AddrString lib a, True)
            | None \<Rightarrow>
                (case forwarded lib proxies (rev (split_on 44 (join_with [44] (XForwardedFor r)))) of
                   Some a \<Rightarrow> (AddrString lib a, True)
                 | None \<Rightarrow> (AddrString lib remote, False))))"

section \<open>Splitting a joined list\<close>

lemma split_no_sep: "d \<notin> set x \<Longrightarrow> split_on d x = [x]"
  by (induction x) auto

lemma split_on_first: "d \<notin> set x \<Longrightarrow> split_on d (x @ d # s) = x # split_on d s"
  by (induction x) auto

lemma split_joined:
  assumes "xs \<noteq> []" "\<forall>x \<in> set xs. d \<notin> set x"
  shows "split_on d (join_with [d] xs) = xs"
  using assms
  by (induction xs rule: induct_list012) (auto simp: split_no_sep split_on_first)

lemma forwarded_finds:
  assumes "\<forall>x \<in> set right. \<exists>a. parse lib x = Some a \<and> trusted lib proxies a"
    "parse lib h = Some a" "\<not> trusted lib proxies a"
  shows "forwarded lib proxies (right @ h # left) = Some a"
  using assms by (induction right) auto

section \<open>Properties\<close>

text \<open>What the next property's proviso on \<open>X-Real-IP\<close> is for: behind a trusted proxy the header is believed before
  \<open>X-Forwarded-For\<close> is looked at, so a client whose \<open>X-Real-IP\<close> the proxy passes on picks its own address.\<close>

lemma passed_on_real_ip:
  assumes "parse lib (case SplitHostPort (RemoteAddr r) of None \<Rightarrow> RemoteAddr r | Some h \<Rightarrow> h) = Some peer"
    and "trusted lib proxies peer" "parse lib (XRealIP r) = Some chosen" "\<not> trusted lib proxies chosen"
  shows "Resolve lib proxies r = (AddrString lib chosen, True)"
  using assms by (simp add: Resolve_def Let_def)

text \<open>C24. A client cannot choose the address it is counted under through \<open>X-Forwarded-For\<close>, and through no header at
  all on a direct connection. Behind a trusted proxy, whatever the client itself put on the left of \<open>X-Forwarded-For\<close>,
  and in however many headers, the address is the one the nearest trusted proxy saw, provided the proxy does not pass on
  an \<open>X-Real-IP\<close> of the client's own making: the header that arrives is unusable, or names a trusted proxy, or
  names the client the proxy saw. A proxy that does pass one on lets the client choose, as
  \<open>passed_on_real_ip\<close> shows.\<close>

theorem client_cannot_choose_address:
  assumes peer: "parse lib (case SplitHostPort (RemoteAddr r) of None \<Rightarrow> RemoteAddr r | Some h \<Rightarrow> h) = Some peer"
    and behind: "trusted lib proxies peer \<Longrightarrow>
      (\<forall>a. parse lib (XRealIP r) = Some a \<longrightarrow> trusted lib proxies a \<or> a = client) \<and>
      join_with [44] (XForwardedFor r) = join_with [44] (spoofed @ seen # hops) \<and>
      (\<forall>x \<in> set (spoofed @ seen # hops). 44 \<notin> set x) \<and>
      parse lib seen = Some client \<and> \<not> trusted lib proxies client \<and>
      (\<forall>x \<in> set hops. \<exists>a. parse lib x = Some a \<and> trusted lib proxies a)"
  shows "Resolve lib proxies r = (AddrString lib (if trusted lib proxies peer then client else peer), True)"
proof (cases "trusted lib proxies peer")
  case False
  then show ?thesis using peer by (simp add: Resolve_def)
next
  case True
  note b = behind [OF True]
  have "rev (split_on 44 (join_with [44] (XForwardedFor r))) = rev hops @ seen # rev spoofed"
    using b by (simp add: split_joined)
  then have "forwarded lib proxies (rev (split_on 44 (join_with [44] (XForwardedFor r)))) = Some client"
    using b forwarded_finds [of "rev hops" lib proxies seen client "rev spoofed"] by simp
  then show ?thesis using peer True b by (auto simp: Resolve_def Let_def split: option.split)
qed

section \<open>Examples\<close>

text \<open>Addresses of one host number, in a network where the proxies are the hosts below ten.\<close>

definition small_net :: "(nat, nat) netip" where
  "small_net = \<lparr>ParseAddr = decimal, AddrString = (\<lambda>a. itoa (int a)), FullPrefix = (\<lambda>a. itoa (int a)),
     ParsePrefix = decimal, Contains = (\<lambda>p a. a < p)\<rparr>"

definition forged :: request_addr where
  "forged = \<lparr>RemoteAddr = u ''1:443'', XRealIP = u ''42'', XForwardedFor = [u ''77'', u '' 42, 3'']\<rparr>"

theorem client_cannot_choose_address_witness: "Resolve small_net [10] forged = (u ''42'', True)"
proof -
  have p: "parse small_net (u ''1'') = Some 1" "parse small_net (u ''77'') = Some 77" "parse small_net (u '' 42'') = Some 42"
    "parse small_net (u '' 3'') = Some 3" "parse small_net (u ''42'') = Some 42"
    by (simp_all add: parse_def small_net_def TrimSpace_def trim_by_def is_space_def decimal_def is_digit_def digits_value_def u_def)
  have h: "SplitHostPort (u ''1:443'') = Some (u ''1'')" by (simp add: SplitHostPort_def u_def)
  have t: "trusted small_net [10] 1" "trusted small_net [10] 3" "\<not> trusted small_net [10] 42"
    by (simp_all add: trusted_def small_net_def)
  have "Resolve small_net [10] forged = (AddrString small_net (if trusted small_net [10] 1 then 42 else 1), True)"
  proof (rule client_cannot_choose_address [where spoofed = "[u ''77'']" and seen = "u '' 42''" and hops = "[u '' 3'']"])
    show "parse small_net (case SplitHostPort (RemoteAddr forged) of None \<Rightarrow> RemoteAddr forged | Some h \<Rightarrow> h) = Some 1"
      by (simp add: forged_def h p)
    show "(\<forall>a. parse small_net (XRealIP forged) = Some a \<longrightarrow> trusted small_net [10] a \<or> a = 42) \<and>
      join_with [44] (XForwardedFor forged) = join_with [44] ([u ''77''] @ u '' 42'' # [u '' 3'']) \<and>
      (\<forall>x \<in> set ([u ''77''] @ u '' 42'' # [u '' 3'']). 44 \<notin> set x) \<and>
      parse small_net (u '' 42'') = Some 42 \<and> \<not> trusted small_net [10] 42 \<and>
      (\<forall>x \<in> set [u '' 3'']. \<exists>a. parse small_net x = Some a \<and> trusted small_net [10] a)"
      using p t by (simp add: forged_def) (simp add: u_def)
  qed
  then show ?thesis using t by (simp add: small_net_def itoa_def digits_of.simps u_def)
qed

end
