(* ===== verification/Devices.thy ===== *)
theory Devices
  imports Hardware Tuition
begin

text \<open>
  The attendance devices and the settings as the dashboard keeps them (\<open>internal/handlers/admin.go\<close>), the check
  every upload of a device goes through (\<open>DeviceAuthMiddleware\<close> of \<open>middleware.go\<close>), and the settings the
  parents' app may read (\<open>mobile.go\<close>). A \<open>NULL\<close> in \<open>is_active\<close> counts as active everywhere; no handler writes one,
  so the column is a bool.
\<close>

definition varchar :: "nat \<Rightarrow> str \<Rightarrow> str" where
  \<comment> \<open>a text stored in a \<open>VARCHAR(n)\<close>: blanks beyond n are cut off (anything else beyond n is refused by \<open>tooLong\<close> before)\<close>
  "varchar n s = take n s"

section \<open>Settings\<close>

record SettingPayload =
  sg_key :: str
  sg_value :: str

datatype settings_reply = SettingList "str \<rightharpoonup> str" | SettingSaved

definition settings_map :: "db \<Rightarrow> str \<rightharpoonup> str" where
  "settings_map d = foldl (\<lambda>m k. m(k_key k \<mapsto> k_value k)) Map.empty (settings d)"

definition save_setting :: "str \<Rightarrow> str \<Rightarrow> db \<Rightarrow> db" where
  \<comment> \<open>\<open>INSERT ... ON CONFLICT (setting_key) DO UPDATE\<close>\<close>
  "save_setting k v d =
     d\<lparr>settings := (if list_ex (\<lambda>s. k_key s = k) (settings d)
       then upd_where (\<lambda>s. k_key s = k) (\<lambda>s. s\<lparr>k_value := v\<rparr>) (settings d)
       else settings d @ [\<lparr>k_key = k, k_value = v\<rparr>])\<rparr>"

definition AdminSettingsHandler :: "meth \<Rightarrow> SettingPayload body \<Rightarrow> (refusal, settings_reply) tx" where
  "AdminSettingsHandler verb b =
     (case verb of
        GET \<Rightarrow> bindE (lift_err (internal_error ''Database error'') (query settings_map)) (\<lambda>m. ret (SettingList m))
      | PUT \<Rightarrow>
          bindE (of_sum (decodeJSONBody b (u ''Invalid payload''))) (\<lambda>req.
          bindE (guard (sg_key req \<noteq> []) (bad_request ''Invalid payload'')) (\<lambda>_.
          bindE (NoteActivity (u ''setting'') (SettingKeysTarget [sg_key req]) []) (\<lambda>_.
          let msg = tooLong (u ''key'') (sg_key req) 100 in
          bindE (guard (msg = []) (Refuse 400 msg)) (\<lambda>_.
          if sg_key req = u ''academic_year'' then bindE (changeAcademicYear (sg_value req)) (\<lambda>_. ret SettingSaved)
          else
            bindE (lift_err (internal_error ''Failed to update setting'')
              (with_text [sg_key req, sg_value req] (exec (save_setting (varchar 100 (sg_key req)) (sg_value req))))) (\<lambda>_.
            ret SettingSaved)))))
      | _ \<Rightarrow> fail method_not_allowed)"

definition PublicSettingKeys :: "str list" where
  "PublicSettingKeys = [u ''whatsapp_number'', u ''school_name'']"

definition MobileSettingsHandler :: "meth \<Rightarrow> (refusal, str \<rightharpoonup> str) tx" where
  "MobileSettingsHandler verb =
     bindE (guard (verb = GET) method_not_allowed) (\<lambda>_.
     lift_err (internal_error ''Database error'') (query (\<lambda>d.
       foldl (\<lambda>m k. m(k_key k \<mapsto> k_value k)) Map.empty
         (filter (\<lambda>k. k_key k \<in> set PublicSettingKeys) (settings d)))))"

definition readSchoolName :: "(err, str) tx" where
  "readSchoolName =
     bindE (query (\<lambda>d. map_option k_value (find_row (\<lambda>k. k_key k = u ''school_name'') (settings d)))) (\<lambda>name.
     ret (case name of None \<Rightarrow> [] | Some s \<Rightarrow> s))"

section \<open>Devices\<close>

record DevicePayload =
  dp_sn :: str
  dp_location :: str
  dp_active :: bool
  dp_last_sync :: str

record DeviceCreateRequest =
  dc_sn :: str
  dc_location :: str
  dc_active :: "bool option"

record DeviceUpdateRequest =
  du_sn :: str
  du_location :: "str option"
  du_active :: "bool option"

datatype devices_reply = DeviceList "DevicePayload list" | DeviceAdded | DeviceUpdated | DeviceDisabled

definition listed_device :: "device \<Rightarrow> DevicePayload" where
  "listed_device v =
     \<lparr>dp_sn = d_sn v, dp_location = (case d_location v of None \<Rightarrow> [] | Some l \<Rightarrow> l), dp_active = d_active v,
      dp_last_sync = (case d_last_sync v of None \<Rightarrow> [] | Some t \<Rightarrow> ymd (on_date t) @ [32] @ hh_mm_ss (clock_of t))\<rparr>"

definition add_device :: "DeviceCreateRequest \<Rightarrow> db \<Rightarrow> err + unit \<times> db" where
  "add_device r d =
     (if varchar 50 (dc_sn r) \<in> d_sn ` set (devices d) then Inl (unique_violation ''devices_pkey'')
      else Inr ((), d\<lparr>devices := devices d @ [\<lparr>d_sn = varchar 50 (dc_sn r), d_location = Some (varchar 50 (dc_location r)),
        d_active = (case dc_active r of None \<Rightarrow> True | Some a \<Rightarrow> a), d_last_sync = None\<rparr>]\<rparr>))"

definition change_device :: "DeviceUpdateRequest \<Rightarrow> db \<Rightarrow> int \<times> db" where
  \<comment> \<open>with the rows it affected\<close>
  "change_device r d =
     (count_where (\<lambda>v. d_sn v = du_sn r) (devices d),
      d\<lparr>devices := upd_where (\<lambda>v. d_sn v = du_sn r)
        (\<lambda>v. v\<lparr>d_location := (case du_location r of None \<Rightarrow> d_location v | Some l \<Rightarrow> Some (varchar 50 l)),
               d_active := (case du_active r of None \<Rightarrow> d_active v | Some a \<Rightarrow> a)\<rparr>) (devices d)\<rparr>)"

definition disable_device :: "str \<Rightarrow> db \<Rightarrow> db" where
  "disable_device sn d = d\<lparr>devices := upd_where (\<lambda>v. d_sn v = sn) (\<lambda>v. v\<lparr>d_active := False\<rparr>) (devices d)\<rparr>"

definition device_conflict :: "err \<Rightarrow> refusal" where
  "device_conflict e =
     (case e of Pg code c \<Rightarrow> if code = u ''23505'' then Refuse 409 (u ''Device SN already exists'') else internal_error ''Internal server error'' e
      | _ \<Rightarrow> internal_error ''Internal server error'' e)"

definition AdminDevicesHandler ::
    "(str \<Rightarrow> 'k :: linorder) \<Rightarrow> meth \<Rightarrow> DeviceCreateRequest body \<Rightarrow> DeviceUpdateRequest body \<Rightarrow> str \<Rightarrow> (refusal, devices_reply) tx" where
  \<comment> \<open>\<open>coll\<close> is the database's collation; locations that are \<open>NULL\<close> come last\<close>
  "AdminDevicesHandler coll verb cb ub snParam =
     (case verb of
        GET \<Rightarrow>
          bindE (lift_err (internal_error ''Database error'') (query (\<lambda>d. map listed_device
            (sort_key (\<lambda>v. (d_location v = None, case d_location v of None \<Rightarrow> coll [] | Some l \<Rightarrow> coll l)) (devices d))))) (\<lambda>l.
          ret (DeviceList l))
      | POST \<Rightarrow>
          bindE (of_sum (decodeJSONBody cb (u ''Invalid payload or missing SN''))) (\<lambda>req.
          bindE (NoteActivity (u ''device'') (dc_sn req) []) (\<lambda>_.
          bindE (guard (dc_sn req \<noteq> []) (bad_request ''Invalid payload or missing SN'')) (\<lambda>_.
          let msg = firstProblem [tooLong (u ''serial_number'') (dc_sn req) 50, tooLong (u ''location_name'') (dc_location req) 50] in
          bindE (guard (msg = []) (Refuse 400 msg)) (\<lambda>_.
          bindE (lift_err device_conflict (with_text [dc_sn req, dc_location req] (stmt (add_device req)))) (\<lambda>_.
          ret DeviceAdded)))))
      | PUT \<Rightarrow>
          bindE (of_sum (decodeJSONBody ub (u ''Invalid payload''))) (\<lambda>req.
          bindE (NoteActivity (u ''device'') (du_sn req) []) (\<lambda>_.
          bindE (guard (du_sn req \<noteq> []) (bad_request ''Invalid payload'')) (\<lambda>_.
          bindE (guard (du_location req \<noteq> None \<or> du_active req \<noteq> None) (bad_request ''location_name or is_active is required'')) (\<lambda>_.
          let location = (case du_location req of None \<Rightarrow> [] | Some l \<Rightarrow> l);
              msg = firstProblem [tooLong (u ''serial_number'') (du_sn req) 50, tooLong (u ''location_name'') location 50] in
          bindE (guard (msg = []) (Refuse 400 msg)) (\<lambda>_.
          bindE (lift_err (internal_error ''Failed to update device'')
            (with_text (du_sn req # opt_list (du_location req)) (stmt (\<lambda>d. Inr (change_device req d))))) (\<lambda>rowsAffected.
          bindE (guard (rowsAffected \<noteq> 0) (Refuse 404 (u ''Device not found''))) (\<lambda>_.
          ret DeviceUpdated)))))))
      | DELETE \<Rightarrow>
          bindE (NoteActivity (u ''device'') snParam []) (\<lambda>_.
          bindE (guard (snParam \<noteq> []) (bad_request ''Missing device SN'')) (\<lambda>_.
          bindE (lift_err (internal_error ''Failed to disable device'') (with_text [snParam] (exec (disable_device snParam)))) (\<lambda>_.
          ret DeviceDisabled)))
      | _ \<Rightarrow> fail method_not_allowed)"

definition DeviceAuthMiddleware :: "str \<Rightarrow> (refusal, str) tx" where
  \<comment> \<open>the serial number the next handler finds in its context\<close>
  "DeviceAuthMiddleware deviceSN =
     bindE (guard (deviceSN \<noteq> []) (Refuse 401 (u ''Device SN is required''))) (\<lambda>_.
     bindE (lift_err (\<lambda>e. if isTransientDBError e then Refuse 503 (u ''Service temporarily unavailable, retry later'')
                        else internal_error ''Internal Server Error'' e)
       (with_text [deviceSN] (query (find_device deviceSN)))) (\<lambda>found.
     bindE (of_option (Refuse 401 (u ''Unauthorized Device'')) found) (\<lambda>isActive.
     bindE (guard isActive (Refuse 403 (u ''Device is disabled''))) (\<lambda>_.
     bindE (touch_device deviceSN) (\<lambda>_.
     ret deviceSN)))))"

section \<open>What a settings request leaves\<close>

lemma settings_map_append: "foldl (\<lambda>m k. m(k_key k \<mapsto> k_value k)) m (xs @ [x]) = (foldl (\<lambda>m k. m(k_key k \<mapsto> k_value k)) m xs)(k_key x \<mapsto> k_value x)"
  by simp

lemma settings_map_key:
  assumes "unique_key k_key rs"
  shows "foldl (\<lambda>m k. m(k_key k \<mapsto> k_value k)) Map.empty rs k = map_option k_value (find_row (\<lambda>s. k_key s = k) rs)"
  using assms
proof (induction rs rule: rev_induct)
  case (snoc x rs)
  then have u: "unique_key k_key rs" "k_key x \<notin> k_key ` set rs" by (auto simp: unique_key_def)
  have n: "find_row (\<lambda>s. k_key s = k_key x) rs = None" using u(2) unfolding find_row_None by (metis imageI)
  show ?case using snoc.IH [OF u(1)] n by (auto simp: find_row_snoc split: option.split)
qed (simp add: find_row_def)

lemma find_upd_key:
  assumes "\<And>s. k_key (f s) = k_key s"
  shows "find_row (\<lambda>s. k_key s = k') (upd_where (\<lambda>s. k_key s = k) f rs) =
    map_option (\<lambda>s. if k' = k then f s else s) (find_row (\<lambda>s. k_key s = k') rs)"
  using assms by (induction rs) (auto simp: find_row_def upd_where_def)

lemma find_upd_missing: "find_row (\<lambda>s. k_key s = k) rs \<noteq> None \<longleftrightarrow> list_ex (\<lambda>s. k_key s = k) rs"
  by (auto simp: find_row_None list_ex_iff)

lemma saved_setting:
  assumes "unique_key k_key (settings d)"
  shows "unique_key k_key (settings (save_setting k v d))" "settings_map (save_setting k v d) = (settings_map d)(k \<mapsto> v)"
proof -
  show u: "unique_key k_key (settings (save_setting k v d))"
    using assms by (auto simp: save_setting_def unique_key_def map_upd_where list_ex_iff)
  show "settings_map (save_setting k v d) = (settings_map d)(k \<mapsto> v)"
  proof
    fix k'
    have "find_row (\<lambda>s. k_key s = k') (settings (save_setting k v d)) =
        (if k' = k then (case find_row (\<lambda>s. k_key s = k) (settings d) of
             None \<Rightarrow> Some \<lparr>k_key = k, k_value = v\<rparr> | Some s \<Rightarrow> Some (s\<lparr>k_value := v\<rparr>))
         else find_row (\<lambda>s. k_key s = k') (settings d))"
      using find_upd_missing [of k "settings d"]
      by (auto simp: save_setting_def find_upd_key find_row_snoc split: option.split)
    then show "settings_map (save_setting k v d) k' = ((settings_map d)(k \<mapsto> v)) k'"
      using settings_map_key [OF u] settings_map_key [OF assms] by (auto simp: settings_map_def split: option.split)
  qed
qed

lemma year_saved:
  assumes u: "unique_key k_key (settings (db w))" and run: "changeAcademicYear v w = (Inr x, w')"
  shows "unique_key k_key (settings (db w')) \<and> settings_map (db w') = (settings_map (db w))(u ''academic_year'' \<mapsto> TrimSpace v)"
proof -
  have m: "settings_map (db w) (u ''academic_year'') = stored_year (db w)"
    using settings_map_key [OF u] by (simp add: settings_map_def stored_year_def)
  from run have "changeAcademicYear v w = (Inr (), w')" by simp
  then show ?thesis
  proof (cases rule: year_changed)
    case same
    then show ?thesis using u m by (auto simp: settings_map_def fun_upd_idem_iff)
  next
    case (switched old new st)
    let ?up = "upd_where (\<lambda>k. k_key k = u ''academic_year'') (\<lambda>k. k\<lparr>k_value := TrimSpace v\<rparr>) (settings (db w))"
    have "list_ex (\<lambda>s. k_key s = u ''academic_year'') (settings (db w))"
      using switched(1) unfolding find_upd_missing [symmetric] stored_year_def by auto
    then have s: "settings (db w') = settings (save_setting (u ''academic_year'') (TrimSpace v) (db w))"
      using switched by (simp add: save_setting_def)
    then show ?thesis using saved_setting [OF u] by (simp add: settings_map_def)
  qed
qed

section \<open>A device that is shut out\<close>

definition shut :: "str \<Rightarrow> db \<Rightarrow> bool" where
  "shut sn d \<longleftrightarrow> find_device sn d = Some False"

definition enables :: "str \<Rightarrow> meth \<Rightarrow> DeviceUpdateRequest body \<Rightarrow> bool" where
  "enables sn verb ub \<longleftrightarrow> verb = PUT \<and> (case ub of Body r \<Rightarrow> du_sn r = sn \<and> du_active r = Some True | _ \<Rightarrow> False)"

lemma find_device_upd:
  assumes "\<And>v. d_sn (f v) = d_sn v"
  shows "find_device sn (d\<lparr>devices := upd_where p f (devices d)\<rparr>) =
    map_option (\<lambda>v. d_active (if p v then f v else v)) (find_row (\<lambda>v. d_sn v = sn) (devices d))"
proof -
  have "find_row (\<lambda>v. d_sn v = sn) (upd_where p f rs) = map_option (\<lambda>v. if p v then f v else v) (find_row (\<lambda>v. d_sn v = sn) rs)" for rs
    using assms by (induction rs) (auto simp: find_row_def upd_where_def)
  then show ?thesis by (simp add: find_device_def option.map_comp o_def)
qed

lemma shut_upd:
  assumes "shut sn d" "\<And>v. d_sn (f v) = d_sn v" "\<And>v. d_sn v = sn \<Longrightarrow> p v \<Longrightarrow> d_active (f v) \<Longrightarrow> d_active v"
  shows "shut sn (d\<lparr>devices := upd_where p f (devices d)\<rparr>)"
proof -
  obtain v where v: "find_row (\<lambda>v. d_sn v = sn) (devices d) = Some v" "\<not> d_active v"
    using assms(1) by (auto simp: shut_def find_device_def)
  have "d_sn v = sn" using find_row_Some [OF v(1)] by simp
  then have "\<not> d_active (if p v then f v else v)" using v(2) assms(3) [of v] by auto
  then show ?thesis using v(1) unfolding shut_def find_device_upd [OF assms(2)] by simp
qed

lemma keeps_shut_devices:
  assumes "\<not> enables sn verb ub"
  shows "keeps (shut sn) (AdminDevicesHandler coll verb cb ub snParam)"
proof -
  have add: "shut sn d'" if "shut sn d" "add_device r d = Inr (x, d')" for r d x d'
    using that by (auto simp: shut_def add_device_def find_device_def find_row_snoc split: if_splits option.splits)
  have dis: "shut sn (disable_device q d)" if "shut sn d" for q d
    unfolding disable_device_def using that by (rule shut_upd) auto
  have chg: "shut sn d'" if "shut sn d" "change_device r d = (n, d')" "du_sn r = sn \<Longrightarrow> du_active r \<noteq> Some True" for r d n d'
  proof -
    have "d' = snd (change_device r d)" using that(2) by simp
    then show ?thesis
      unfolding change_device_def snd_conv using that(1) by (elim ssubst, intro shut_upd) (use that(3) in \<open>auto split: option.splits\<close>)
  qed
  have put: "keeps (shut sn) (AdminDevicesHandler coll PUT cb ub snParam)" if "\<not> enables sn PUT ub"
    unfolding AdminDevicesHandler_def meth.case
  proof (rule keeps_bind_post [where Q = "\<lambda>r. ub = Body r"])
    show "ub = Body r" if "of_sum (decodeJSONBody ub (u ''Invalid payload'')) w = (Inr r, w')" for w r w'
      using that by (auto simp: of_sum_def decodeJSONBody_def split: body.splits)
    show "keeps (shut sn) (bindE (NoteActivity (u ''device'') (du_sn req) []) (\<lambda>_.
          bindE (guard (du_sn req \<noteq> []) (bad_request ''Invalid payload'')) (\<lambda>_.
          bindE (guard (du_location req \<noteq> None \<or> du_active req \<noteq> None) (bad_request ''location_name or is_active is required'')) (\<lambda>_.
          let location = (case du_location req of None \<Rightarrow> [] | Some l \<Rightarrow> l);
              msg = firstProblem [tooLong (u ''serial_number'') (du_sn req) 50, tooLong (u ''location_name'') location 50] in
          bindE (guard (msg = []) (Refuse 400 msg)) (\<lambda>_.
          bindE (lift_err (internal_error ''Failed to update device'')
            (with_text (du_sn req # opt_list (du_location req)) (stmt (\<lambda>d. Inr (change_device req d))))) (\<lambda>rowsAffected.
          bindE (guard (rowsAffected \<noteq> 0) (Refuse 404 (u ''Device not found''))) (\<lambda>_.
          ret DeviceUpdated))))))) " if "ub = Body req" for req
      using \<open>\<not> enables sn PUT ub\<close> that unfolding Let_def
      by (intro keeping) (auto simp: enables_def intro: chg)
  qed (simp add: keeps_of_sum)
  show ?thesis
  proof (cases verb)
    case GET
    then show ?thesis by (simp add: AdminDevicesHandler_def) (intro keeping)
  next
    case POST
    then show ?thesis
      by (simp add: AdminDevicesHandler_def Let_def) (intro keeping, auto intro: add)
  next
    case PUT
    then show ?thesis using put assms by simp
  next
    case DELETE
    then show ?thesis by (simp add: AdminDevicesHandler_def) (intro keeping, auto intro: dis)
  next
    case OtherMethod
    then show ?thesis by (simp add: AdminDevicesHandler_def keeps_fail)
  qed
qed

text \<open>
  What can happen to the devices afterwards: any request of the dashboard that does not switch this one on again, any
  upload, and anything else that leaves serial numbers and switches alone (a batch sets only \<open>last_sync\<close>).
\<close>

inductive device_step :: "(str \<Rightarrow> 'k :: linorder) \<Rightarrow> str \<Rightarrow> world \<Rightarrow> world \<Rightarrow> bool" for coll sn where
  admin: "AdminDevicesHandler coll verb cb ub snParam w = (r, w') \<Longrightarrow> \<not> enables sn verb ub \<Longrightarrow> device_step coll sn w w'"
| upload: "DeviceAuthMiddleware q w = (r', w') \<Longrightarrow> device_step coll sn w w'"
| other: "map (\<lambda>v. (d_sn v, d_active v)) (devices (db w')) = map (\<lambda>v. (d_sn v, d_active v)) (devices (db w)) \<Longrightarrow> device_step coll sn w w'"

lemma find_device_map: "find_device sn d = map_of (map (\<lambda>v. (d_sn v, d_active v)) (devices d)) sn"
proof -
  have "map_option d_active (find_row (\<lambda>v. d_sn v = sn) rs) = map_of (map (\<lambda>v. (d_sn v, d_active v)) rs) sn" for rs
    by (induction rs) (auto simp: find_row_def)
  then show ?thesis by (simp add: find_device_def)
qed

lemma keeps_shut_touch: "keeps (shut sn) (touch_device q)"
proof -
  have "shut sn (d\<lparr>devices := upd_where (\<lambda>v. d_sn v = q) (\<lambda>v. v\<lparr>d_last_sync := t\<rparr>) (devices d)\<rparr>)" if "shut sn d" for d t
    using that by (rule shut_upd) auto
  then show ?thesis unfolding touch_device_def by (intro keeping) auto
qed

lemma keeps_shut_middleware: "keeps (shut sn) (DeviceAuthMiddleware q)"
  unfolding DeviceAuthMiddleware_def by (intro keeping keeps_shut_touch)

lemma shut_step: "device_step coll sn w w' \<Longrightarrow> shut sn (db w) \<Longrightarrow> shut sn (db w')"
  by (induction rule: device_step.induct)
    (auto simp: shut_def find_device_map keepsD [OF keeps_shut_devices] keepsD [OF keeps_shut_middleware, unfolded shut_def find_device_map]
      dest: keepsD [OF keeps_shut_devices, unfolded shut_def find_device_map])

lemma shut_steps: "(device_step coll sn)\<^sup>*\<^sup>* w w' \<Longrightarrow> shut sn (db w) \<Longrightarrow> shut sn (db w')"
  by (induction rule: rtranclp_induct) (auto intro: shut_step)

lemma shut_refused:
  assumes "shut sn (db w)"
  shows "\<exists>e. fst (DeviceAuthMiddleware sn w) = Inl e"
proof (cases "DeviceAuthMiddleware sn w")
  case (Pair r w')
  have "r \<noteq> Inr q" for q
    using Pair assms by (auto simp: DeviceAuthMiddleware_def bindE_ok simple_ok shut_def dest!: with_text_ok query_okD)
  with Pair show ?thesis by (cases r) auto
qed

lemma shut_batch:
  assumes "shut sn (db w)"
  shows "db (snd (ADMSHandler client verb sn table body w)) = db w"
proof -
  obtain z w1 where q: "with_text [sn] (query (find_device sn)) w = (z, w1)" by fastforce
  have d: "db w1 = db w"
  proof (cases z)
    case (Inl e)
    have "keeps (\<lambda>d. d = db w) (with_text [sn] (query (find_device sn)))" by (intro keeping)
    then show ?thesis using q by (auto simp: keeps_def dest: spec [of _ w])
  next
    case (Inr x)
    then show ?thesis using q by (auto dest!: with_text_ok query_okD)
  qed
  have "z = Inr x \<Longrightarrow> x = Some False" for x
    using q assms by (auto simp: shut_def dest!: with_text_ok query_okD)
  then show ?thesis
    using q d by (cases z) (auto simp: ADMSHandler_def settle_def bindE_def guard_def ret_def fail_def lift_err_run of_option_def)
qed

section \<open>Properties\<close>

text \<open>A saved setting is read back as it was sent (an academic year without the blanks around it; a key loses the blanks its
  column has no room for), no other setting
  changes, and the parents' app sees exactly the public ones of them.\<close>

theorem setting_read_back:
  assumes run: "AdminSettingsHandler PUT (Body req) w = (Inr r, w1)"
    and w: "unique_key k_key (settings (db w))" "faults w1 = []"
  shows "\<exists>m. AdminSettingsHandler GET b w1 = (Inr (SettingList m), w1) \<and>
    m = (settings_map (db w))(varchar 100 (sg_key req) \<mapsto> (if sg_key req = u ''academic_year'' then TrimSpace (sg_value req) else sg_value req)) \<and>
    MobileSettingsHandler GET w1 = (Inr (m |` set PublicSettingKeys), w1)"
proof -
  let ?v = "if sg_key req = u ''academic_year'' then TrimSpace (sg_value req) else sg_value req"
  have year_key: "varchar 100 (u ''academic_year'') = u ''academic_year''" by (simp add: varchar_def u_def)
  have u: "unique_key k_key (settings (db w1))" and m: "settings_map (db w1) = (settings_map (db w))(varchar 100 (sg_key req) \<mapsto> ?v)"
    using run year_key year_saved [of "w\<lparr>noted := x\<rparr>" for x] saved_setting [OF w(1)] w(1)
    by (auto simp: AdminSettingsHandler_def Let_def bindE_ok simple_ok decodeJSONBody_def split: if_splits
        dest!: with_text_ok exec_ok(1))
  have "find_row (\<lambda>s. k_key s = k) (filter (\<lambda>s. k_key s \<in> K) rs) = (if k \<in> K then find_row (\<lambda>s. k_key s = k) rs else None)" for k K and rs :: "setting list"
    by (induction rs) (auto simp: find_row_def)
  moreover have "unique_key k_key (filter (\<lambda>s. k_key s \<in> set PublicSettingKeys) (settings (db w1)))"
    using u by (simp add: unique_key_def distinct_map_filter)
  ultimately have "foldl (\<lambda>m k. m(k_key k \<mapsto> k_value k)) Map.empty (filter (\<lambda>k. k_key k \<in> set PublicSettingKeys) (settings (db w1))) =
      settings_map (db w1) |` set PublicSettingKeys"
    using settings_map_key [OF u] by (intro ext) (simp add: settings_map_key settings_map_def restrict_map_def)
  then show ?thesis
    using w(2) m by (simp add: AdminSettingsHandler_def MobileSettingsHandler_def bindE_def run_simps lift_err_run)
qed

text \<open>C27. A device that was disabled stays out: until the dashboard switches it on again, whatever else happens, every
  upload of it is refused by \<open>DeviceAuthMiddleware\<close> and a batch it pushes stores nothing.\<close>

theorem disabled_device_stays_out:
  assumes dev: "find_device sn (db w) \<noteq> None"
    and run: "AdminDevicesHandler coll DELETE cb ub sn w = (Inr r, w1)"
    and later: "(device_step coll sn)\<^sup>*\<^sup>* w1 w2"
  shows "(\<exists>e. fst (DeviceAuthMiddleware sn w2) = Inl e) \<and> db (snd (ADMSHandler client verb sn table body w2)) = db w2"
proof -
  have "db w1 = disable_device sn (db w)"
    using run by (auto simp: AdminDevicesHandler_def bindE_ok simple_ok dest!: with_text_ok exec_ok(1))
  moreover obtain v where v: "find_row (\<lambda>v. d_sn v = sn) (devices (db w)) = Some v" using dev by (auto simp: find_device_def)
  have "d_sn v = sn" using find_row_Some [OF v] by simp
  ultimately have "shut sn (db w1)" using v by (simp add: shut_def disable_device_def find_device_upd)
  with shut_steps [OF later] show ?thesis using shut_refused shut_batch by blast
qed

section \<open>Examples\<close>

definition name_request :: SettingPayload where
  "name_request = \<lparr>sg_key = u ''school_name'', sg_value = u ''Future''\<rparr>"

definition office :: world where
  "office = quiet (empty_db\<lparr>settings := [\<lparr>k_key = u ''secret'', k_value = u ''x''\<rparr>]\<rparr>) (At (Date 2025 10 5) (hm 8 0))"

theorem setting_read_back_witness:
  "\<exists>w1 m. AdminSettingsHandler PUT (Body name_request) office = (Inr SettingSaved, w1) \<and>
     AdminSettingsHandler GET Malformed w1 = (Inr (SettingList m), w1) \<and>
     m (u ''school_name'') = Some (u ''Future'') \<and> m (u ''secret'') = Some (u ''x'') \<and>
     MobileSettingsHandler GET w1 = (Inr (m |` set PublicSettingKeys), w1)"
proof -
  have p: "with_text [u ''school_name'', u ''Future''] m = m" for m :: "(err, unit) tx"
    by (rule with_plain_texts) (simp add: plain_texts_def u_def)
  have "tooLong (u ''key'') (u ''school_name'') 100 = []" by (simp add: tooLong_def TrimRightBlank_def u_def)
  moreover have k: "varchar 100 (u ''school_name'') = u ''school_name''" by (simp add: varchar_def u_def)
  ultimately obtain w1 where run: "AdminSettingsHandler PUT (Body name_request) office = (Inr SettingSaved, w1)" "faults w1 = []"
    by (rule_tac that [of "snd (AdminSettingsHandler PUT (Body name_request) office)"])
      (simp_all add: AdminSettingsHandler_def name_request_def bindE_def run_simps lift_err_run p office_def)
  have u: "unique_key k_key (settings (db office))" by (simp add: office_def unique_key_def)
  have m: "(settings_map (db office))(u ''school_name'' \<mapsto> u ''Future'') = [u ''secret'' \<mapsto> u ''x'', u ''school_name'' \<mapsto> u ''Future'']"
    by (simp add: settings_map_def office_def)
  show ?thesis
    using setting_read_back [OF run(1) u run(2), of Malformed] run(1) m
    by (intro exI [of _ w1] exI [of _ "[u ''secret'' \<mapsto> u ''x'', u ''school_name'' \<mapsto> u ''Future'']"])
      (simp add: name_request_def k)
qed

theorem disabled_device_stays_out_witness:
  "\<exists>w1. AdminDevicesHandler (\<lambda>s. length s) DELETE Malformed Malformed (u ''SN1'') (quiet demo_db demo_now) = (Inr DeviceDisabled, w1) \<and>
     (\<exists>e. fst (DeviceAuthMiddleware (u ''SN1'') (snd (DeviceAuthMiddleware (u ''SN1'') w1))) = Inl e)"
proof -
  have p: "with_text [u ''SN1''] m = m" for m :: "(err, unit) tx"
    by (rule with_plain_texts) (simp add: plain_texts_def u_def)
  obtain w1 where run: "AdminDevicesHandler (\<lambda>s. length s) DELETE Malformed Malformed (u ''SN1'') (quiet demo_db demo_now) = (Inr DeviceDisabled, w1)"
    by (rule that [of "snd (AdminDevicesHandler (\<lambda>s. length s) DELETE Malformed Malformed (u ''SN1'') (quiet demo_db demo_now))"])
      (simp add: AdminDevicesHandler_def bindE_def run_simps lift_err_run p)
  have "find_device (u ''SN1'') (db (quiet demo_db demo_now)) \<noteq> None"
    by (simp add: find_device_def find_row_def demo_db_simps)
  moreover have "(device_step (\<lambda>s. length s) (u ''SN1''))\<^sup>*\<^sup>* w1 (snd (DeviceAuthMiddleware (u ''SN1'') w1))"
    by (rule r_into_rtranclp, rule device_step.upload, rule prod.collapse [symmetric])
  ultimately show ?thesis using disabled_device_stays_out [OF _ run] run by blast
qed

end
