(* ===== verification/Uploads.thy ===== *)
theory Uploads
  imports Transactions
begin

text \<open>
  \<open>multipart/form-data\<close> bodies (\<open>internal/handlers/banners.go\<close>): the parts a handler knows, each within its limit, or the
  refusal of the whole body. Splitting the body into parts is the work of \<open>mime/multipart\<close>: a body is the list of its
  parts with the bytes that could be read of each, and the way its end is reported. UTF-8 is decoded here.
\<close>

type_synonym bytes = "nat list"

record formError =
  fe_status :: int
  fe_msg :: str
  fe_body :: bool    \<comment> \<open>the whole body is over its limit\<close>

definition fe_respond :: "formError \<Rightarrow> refusal" where
  "fe_respond e = (if fe_body e then Refuse 413 (u ''Request body too large'') else Refuse (fe_status e) (fe_msg e))"

datatype read_error = Over_Limit | Broken

definition formPartError :: "read_error \<Rightarrow> formError" where
  "formPartError e =
     (case e of
        Over_Limit \<Rightarrow> \<lparr>fe_status = 413, fe_msg = [], fe_body = True\<rparr>
      | Broken \<Rightarrow> \<lparr>fe_status = 400, fe_msg = u ''Invalid multipart body'', fe_body = False\<rparr>)"

record form_part =
  fp_name :: str
  fp_data :: bytes
  fp_error :: "read_error option"   \<comment> \<open>reading the part fails after these bytes\<close>

record form_request =
  fr_multipart :: bool
  fr_parts :: "form_part list"
  fr_end :: "read_error option"     \<comment> \<open>\<open>None\<close>: the closing boundary was found\<close>
  fr_over :: bool                   \<comment> \<open>draining what is left of the body runs into the limit\<close>

type_synonym form_parts = "(str \<times> bytes) list"

fun stream_parts :: "(str \<Rightarrow> nat option) \<Rightarrow> (str \<Rightarrow> formError) \<Rightarrow> read_error option \<Rightarrow> form_parts \<Rightarrow> form_part list \<Rightarrow> formError + form_parts" where
  "stream_parts limits overLimit ending raw [] = (case ending of None \<Rightarrow> Inr raw | Some e \<Rightarrow> Inl (formPartError e))"
| "stream_parts limits overLimit ending raw (p # ps) =
     (case limits (fp_name p) of
        None \<Rightarrow> (case fp_error p of Some e \<Rightarrow> Inl (formPartError e) | None \<Rightarrow> stream_parts limits overLimit ending raw ps)
      | Some limit \<Rightarrow>
          if map_of raw (fp_name p) \<noteq> None then Inl \<lparr>fe_status = 400, fe_msg = fp_name p @ u '' must be sent once'', fe_body = False\<rparr>
          else if limit < length (fp_data p) then Inl (overLimit (fp_name p))
          else case fp_error p of
            Some e \<Rightarrow> Inl (formPartError e)
          | None \<Rightarrow> stream_parts limits overLimit ending ((fp_name p, fp_data p) # raw) ps)"

definition streamFormParts :: "form_request \<Rightarrow> (str \<Rightarrow> nat option) \<Rightarrow> (str \<Rightarrow> formError) \<Rightarrow> formError + form_parts" where
  "streamFormParts r limits overLimit =
     (if \<not> fr_multipart r then Inl \<lparr>fe_status = 400, fe_msg = u ''Request must be multipart/form-data'', fe_body = False\<rparr>
      else stream_parts limits overLimit (fr_end r) [] (fr_parts r))"

definition readFormParts :: "form_request \<Rightarrow> (str \<Rightarrow> nat option) \<Rightarrow> (str \<Rightarrow> formError) \<Rightarrow> formError + form_parts" where
  "readFormParts r limits overLimit =
     (case streamFormParts r limits overLimit of
        Inr raw \<Rightarrow> Inr raw
      | Inl e \<Rightarrow>
          if \<not> fe_body e \<and> fr_over r \<and> fe_status e \<noteq> 413 then Inl \<lparr>fe_status = 413, fe_msg = [], fe_body = True\<rparr> else Inl e)"

lemma stream_parts_ok:
  "stream_parts limits overLimit ending raw ps = Inr raw' \<Longrightarrow> map_of raw' name = Some data \<Longrightarrow>
   (\<And>n d. map_of raw n = Some d \<Longrightarrow> \<exists>limit. limits n = Some limit \<and> length d \<le> limit) \<Longrightarrow>
   \<exists>limit. limits name = Some limit \<and> length data \<le> limit"
proof (induction limits overLimit ending raw ps rule: stream_parts.induct)
  case (2 limits overLimit ending raw p ps)
  show ?case
  proof (cases "limits (fp_name p)")
    case None
    then show ?thesis using 2(1) [OF None] 2(3-5) by (auto split: option.splits)
  next
    case (Some limit)
    have n: "map_of raw (fp_name p) = None" "length (fp_data p) \<le> limit" "fp_error p = None"
      and r: "stream_parts limits overLimit ending ((fp_name p, fp_data p) # raw) ps = Inr raw'"
      using 2(3) Some by (auto split: if_splits option.splits)
    show ?thesis
    proof (rule 2(2) [OF Some _ _ n(3) r 2(4)])
      show "\<exists>limit. limits n = Some limit \<and> length d \<le> limit" if "map_of ((fp_name p, fp_data p) # raw) n = Some d" for n d
        using that 2(5) n(2) Some by (auto split: if_splits)
    qed (use n in simp_all)
  qed
qed (auto split: option.splits)

lemma parts_within_limits:
  assumes "readFormParts r limits overLimit = Inr raw" "map_of raw name = Some data"
  shows "\<exists>limit. limits name = Some limit \<and> length data \<le> limit"
proof -
  have "stream_parts limits overLimit (fr_end r) [] (fr_parts r) = Inr raw"
    using assms(1) by (auto simp: readFormParts_def streamFormParts_def split: sum.splits if_splits)
  then show ?thesis by (rule stream_parts_ok [OF _ assms(2)]) simp
qed

section \<open>UTF-8\<close>

definition cont :: "nat \<Rightarrow> bool" where
  "cont c \<longleftrightarrow> 128 \<le> c \<and> c < 192"

fun decodeUTF8 :: "bytes \<Rightarrow> str option" where
  \<comment> \<open>the code points of valid UTF-8, as \<open>utf8.Valid\<close> defines it\<close>
  "decodeUTF8 [] = Some []"
| "decodeUTF8 (b # bs) =
     (if b < 128 then map_option ((#) b) (decodeUTF8 bs)
      else if 194 \<le> b \<and> b < 224 then
        (case bs of
           c # cs \<Rightarrow> if cont c then map_option ((#) ((b - 192) * 64 + (c - 128))) (decodeUTF8 cs) else None
         | _ \<Rightarrow> None)
      else if 224 \<le> b \<and> b < 240 then
        (case bs of
           c1 # c2 # cs \<Rightarrow>
             if cont c1 \<and> cont c2 \<and> (b = 224 \<longrightarrow> 160 \<le> c1) \<and> (b = 237 \<longrightarrow> c1 < 160)
             then map_option ((#) ((b - 224) * 4096 + (c1 - 128) * 64 + (c2 - 128))) (decodeUTF8 cs) else None
         | _ \<Rightarrow> None)
      else if 240 \<le> b \<and> b < 245 then
        (case bs of
           c1 # c2 # c3 # cs \<Rightarrow>
             if cont c1 \<and> cont c2 \<and> cont c3 \<and> (b = 240 \<longrightarrow> 144 \<le> c1) \<and> (b = 244 \<longrightarrow> c1 < 144)
             then map_option ((#) ((b - 240) * 262144 + (c1 - 128) * 4096 + (c2 - 128) * 64 + (c3 - 128))) (decodeUTF8 cs) else None
         | _ \<Rightarrow> None)
      else None)"

definition scalar :: "nat \<Rightarrow> bool" where
  \<comment> \<open>a Unicode scalar value\<close>
  "scalar c \<longleftrightarrow> c < 55296 \<or> (57344 \<le> c \<and> c < 1114112)"

definition char_bytes :: "nat \<Rightarrow> bytes" where
  "char_bytes c =
     (if c < 128 then [c]
      else if c < 2048 then [192 + c div 64, 128 + c mod 64]
      else if c < 65536 then [224 + c div 4096, 128 + c div 64 mod 64, 128 + c mod 64]
      else [240 + c div 262144, 128 + c div 4096 mod 64, 128 + c div 64 mod 64, 128 + c mod 64])"

lemma decode_char:
  assumes "scalar c"
  shows "decodeUTF8 (char_bytes c @ bs) = map_option ((#) c) (decodeUTF8 bs)"
proof -
  have q: "c div 4096 = c div 64 div 64" "c div 262144 = c div 4096 div 64" by (simp_all add: div_mult2_eq [symmetric])
  have a1: "c div 64 * 64 + c mod 64 = c" by simp
  have a2: "c div 4096 * 4096 + c div 64 mod 64 * 64 + c mod 64 = c"
    using a1 div_mult_mod_eq [of "c div 64" 64] unfolding q by linarith
  have a3: "c div 262144 * 262144 + c div 4096 mod 64 * 4096 + c div 64 mod 64 * 64 + c mod 64 = c"
    using a2 div_mult_mod_eq [of "c div 4096" 64] unfolding q(2) by linarith
  consider "c < 128" | "128 \<le> c" "c < 2048" | "2048 \<le> c" "c < 65536" | "65536 \<le> c" by linarith
  then show ?thesis
  proof cases
    case 2
    then have "2 \<le> c div 64" "c div 64 < 32" by (simp_all add: less_mult_imp_div_less div_le_mono [of 128 c 64, simplified])
    with 2 a1 show ?thesis by (simp add: char_bytes_def cont_def)
  next
    case 3
    define y where "y = c div 64"
    have y: "32 \<le> y" "y < 1024" "y < 864 \<or> 896 \<le> y" using 3 assms div_le_mono [of 2048 c 64] div_le_mono [of 57344 c 64]
      by (auto simp: y_def scalar_def less_mult_imp_div_less)
    moreover have "y div 64 * 64 + y mod 64 = y" "y mod 64 < 64" by simp_all
    ultimately have "y div 64 < 16" "y div 64 = 0 \<longrightarrow> 32 \<le> y mod 64" "y div 64 = 13 \<longrightarrow> y mod 64 < 32" by linarith+
    then show ?thesis using 3 a2 unfolding y_def q(1) [symmetric] by (simp add: char_bytes_def cont_def)
  next
    case 4
    define y where "y = c div 4096"
    have y: "16 \<le> y" "y < 272" using 4 assms div_le_mono [of 65536 c 4096]
      by (auto simp: y_def scalar_def less_mult_imp_div_less)
    moreover have "y div 64 * 64 + y mod 64 = y" "y mod 64 < 64" by simp_all
    ultimately have "y div 64 < 5" "y div 64 = 0 \<longrightarrow> 16 \<le> y mod 64" "y div 64 = 4 \<longrightarrow> y mod 64 < 16" by linarith+
    then show ?thesis using 4 a3 unfolding y_def q(2) [symmetric] by (simp add: char_bytes_def cont_def)
  qed (simp add: char_bytes_def)
qed

lemma decode_encode: "list_all scalar s \<Longrightarrow> decodeUTF8 (concat (map char_bytes s)) = Some s"
  by (induction s) (simp_all add: decode_char)

lemma decode_ascii: "list_all (\<lambda>c. c < 128) s \<Longrightarrow> decodeUTF8 s = Some s"
  by (induction s) simp_all

end
