(* ===== verification/Banners.thy ===== *)
theory Banners
  imports Uploads
begin

text \<open>
  Banners: the dashboard's list, uploads and edits (\<open>internal/handlers/banners.go\<close>), the parents' list (\<open>mobile.go\<close>) and the
  picture both fetch. Parameters: \<open>detect\<close> is \<open>http.DetectContentType\<close>, \<open>digest\<close> the SHA-256 of a picture in hexadecimal,
  \<open>web\<close> gives the scheme and the host of a text \<open>url.Parse\<close> accepts.
\<close>

section \<open>An upload\<close>

definition MaxBannerImageBytes :: nat where "MaxBannerImageBytes = 2097152"

definition MaxBannerTitleChars :: nat where "MaxBannerTitleChars = 255"

definition MaxBannerActionLinkChars :: nat where "MaxBannerActionLinkChars = 2048"

definition maxBannerTextPartBytes :: nat where "maxBannerTextPartBytes = 16384"

definition bannerImageTypes :: "str list" where
  "bannerImageTypes = [u ''image/jpeg'', u ''image/png'', u ''image/webp'']"

record bannerImage =
  bi_type :: str
  bi_checksum :: str
  bi_data :: bytes

record bannerForm =
  bf_image :: "bannerImage option"
  bf_title :: "str option option"
  bf_link :: "str option option"
  bf_active :: "bool option"

definition bannerForm_empty :: "bannerForm \<Rightarrow> bool" where
  "bannerForm_empty f \<longleftrightarrow> bf_image f = None \<and> bf_title f = None \<and> bf_link f = None \<and> bf_active f = None"

definition bannerPartLimits :: "str \<Rightarrow> nat option" where
  "bannerPartLimits = map_of
     [(u ''image'', MaxBannerImageBytes), (u ''title'', maxBannerTextPartBytes),
      (u ''action_link'', maxBannerTextPartBytes), (u ''is_active'', maxBannerTextPartBytes)]"

definition bad_form :: "str \<Rightarrow> formError" where
  "bad_form msg = \<lparr>fe_status = 400, fe_msg = msg, fe_body = False\<rparr>"

definition bannerPartOverLimit :: "str \<Rightarrow> formError" where
  "bannerPartOverLimit name =
     (if name = u ''image''
      then \<lparr>fe_status = 413, fe_msg = u ''image must be at most 2 MiB ('' @ itoa (int MaxBannerImageBytes) @ u '' bytes)'', fe_body = False\<rparr>
      else if name = u ''is_active'' then bad_form (u ''is_active must be \"true\" or \"false\"'')
      else if name = u ''action_link''
      then bad_form (u ''action_link must be at most '' @ itoa (int MaxBannerActionLinkChars) @ u '' characters'')
      else bad_form (name @ u '' must be at most '' @ itoa (int MaxBannerTitleChars) @ u '' characters''))"

definition absoluteWebURL :: "(str \<Rightarrow> (str \<times> str) option) \<Rightarrow> str \<Rightarrow> bool" where
  \<comment> \<open>a scheme \<open>url.Parse\<close> accepts has ASCII letters only\<close>
  "absoluteWebURL web s =
     (case web s of
        None \<Rightarrow> False
      | Some (scheme, host) \<Rightarrow> host \<noteq> [] \<and> (asciiLower scheme = u ''http'' \<or> asciiLower scheme = u ''https''))"

definition image_part :: "(bytes \<Rightarrow> str) \<Rightarrow> (bytes \<Rightarrow> str) \<Rightarrow> form_parts \<Rightarrow> str + bannerImage option" where
  "image_part detect digest raw =
     (case map_of raw (u ''image'') of
        None \<Rightarrow> Inr None
      | Some data \<Rightarrow>
          if data = [] then Inl (u ''image is empty'')
          else if detect data \<notin> set bannerImageTypes then Inl (u ''image must be a JPEG, PNG or WebP picture'')
          else Inr (Some \<lparr>bi_type = detect data, bi_checksum = digest data, bi_data = data\<rparr>))"

definition text_part :: "form_parts \<Rightarrow> str \<Rightarrow> nat \<Rightarrow> str + str option option" where
  \<comment> \<open>not sent, or the trimmed text, nothing when it is blank\<close>
  "text_part raw name chars =
     (case map_of raw name of
        None \<Rightarrow> Inr None
      | Some data \<Rightarrow>
          (case decodeUTF8 data of
             None \<Rightarrow> Inl (name @ u '' must be text'')
           | Some s \<Rightarrow>
               if 0 \<in> set s then Inl (name @ u '' must be text'')
               else let v = TrimSpace s; msg = tooLong name v chars in
                 if msg \<noteq> [] then Inl msg else Inr (Some (if v = [] then None else Some v))))"

definition flag_part :: "form_parts \<Rightarrow> str + bool option" where
  "flag_part raw =
     (case map_of raw (u ''is_active'') of
        None \<Rightarrow> Inr None
      | Some data \<Rightarrow>
          if data = u ''true'' then Inr (Some True)
          else if data = u ''false'' then Inr (Some False)
          else Inl (u ''is_active must be \"true\" or \"false\"''))"

definition parseBannerParts ::
    "(bytes \<Rightarrow> str) \<Rightarrow> (bytes \<Rightarrow> str) \<Rightarrow> (str \<Rightarrow> (str \<times> str) option) \<Rightarrow> form_parts \<Rightarrow> str + bannerForm" where
  "parseBannerParts detect digest web raw =
     andThen (image_part detect digest raw) (\<lambda>image.
     andThen (text_part raw (u ''title'') MaxBannerTitleChars) (\<lambda>title.
     andThen (text_part raw (u ''action_link'') MaxBannerActionLinkChars) (\<lambda>link.
     andThen (case link of Some (Some s) \<Rightarrow> if absoluteWebURL web s then Inr () else Inl (u ''action_link must be an absolute http or https URL'')
              | _ \<Rightarrow> Inr ()) (\<lambda>_.
     andThen (flag_part raw) (\<lambda>active.
     Inr \<lparr>bf_image = image, bf_title = title, bf_link = link, bf_active = active\<rparr>)))))"

definition readBannerForm ::
    "(bytes \<Rightarrow> str) \<Rightarrow> (bytes \<Rightarrow> str) \<Rightarrow> (str \<Rightarrow> (str \<times> str) option) \<Rightarrow> form_request \<Rightarrow> refusal + bannerForm" where
  "readBannerForm detect digest web r =
     (case readFormParts r bannerPartLimits bannerPartOverLimit of
        Inl e \<Rightarrow> Inl (fe_respond e)
      | Inr raw \<Rightarrow> (case parseBannerParts detect digest web raw of Inl msg \<Rightarrow> Inl (fe_respond (bad_form msg)) | Inr f \<Rightarrow> Inr f))"

section \<open>The list\<close>

definition bannerImageURL :: "int \<Rightarrow> bool \<Rightarrow> str \<Rightarrow> str" where
  "bannerImageURL i uploaded stored = (if uploaded then u ''/api/mobile/banners/image?id='' @ itoa i else stored)"

record AdminBanner =
  ab_id :: int
  ab_title :: "str option"
  ab_link :: "str option"
  ab_active :: bool
  ab_created :: str
  ab_url :: str
  ab_type :: "str option"
  ab_size :: "int option"

definition picture_of :: "db \<Rightarrow> int \<Rightarrow> banner_image option" where
  "picture_of d i = find_row (\<lambda>p. i_banner p = i) (banner_images d)"

definition scanAdminBanner :: "db \<Rightarrow> banner \<Rightarrow> AdminBanner" where
  "scanAdminBanner d b =
     (let p = picture_of d (r_id b) in
      \<lparr>ab_id = r_id b, ab_title = r_title b, ab_link = r_link b, ab_active = r_active b, ab_created = rfc3339 (r_created b),
       ab_url = bannerImageURL (r_id b) (p \<noteq> None) (r_image_url b), ab_type = map_option i_type p,
       ab_size = map_option (\<lambda>p. int (length (i_data p))) p\<rparr>)"

definition admin_banner_list :: "db \<Rightarrow> AdminBanner list" where
  \<comment> \<open>the newest first\<close>
  "admin_banner_list d = map (scanAdminBanner d) (rev (sort_key (\<lambda>b. (r_created b, r_id b)) (banners d)))"

datatype banner_error = Banner_Db err | Banner_Missing

definition readAdminBanner :: "int \<Rightarrow> (banner_error, AdminBanner) tx" where
  "readAdminBanner i =
     bindE (lift_err Banner_Db (query (\<lambda>d. map_option (scanAdminBanner d) (find_row (\<lambda>b. r_id b = i) (banners d))))) (of_option (Banner_Db Driver))"

section \<open>Writes\<close>

definition hex_digit :: "nat \<Rightarrow> bool" where
  "hex_digit c \<longleftrightarrow> is_digit c \<or> (97 \<le> c \<and> c \<le> 102)"

definition is_checksum :: "str \<Rightarrow> bool" where
  "is_checksum s \<longleftrightarrow> length s = 64 \<and> list_all hex_digit s"

definition picture_checks :: "banner_image \<Rightarrow> bool" where
  \<comment> \<open>the constraints of \<open>banner_images\<close>\<close>
  "picture_checks p \<longleftrightarrow> i_type p \<in> set bannerImageTypes \<and> 1 \<le> length (i_data p) \<and> length (i_data p) \<le> 2097152 \<and> is_checksum (i_checksum p)"

definition put_picture :: "int \<Rightarrow> bannerImage \<Rightarrow> db \<Rightarrow> err + unit \<times> db" where
  \<comment> \<open>insert, or replace the picture the banner has\<close>
  "put_picture i img d =
     (let p = \<lparr>i_banner = i, i_type = bi_type img, i_checksum = bi_checksum img, i_data = bi_data img\<rparr> in
      if \<not> picture_checks p then Inl (check_violation ''banner_images_check'')
      else if i \<notin> r_id ` set (banners d) then Inl (foreign_key_violation ''banner_images_banner_id_fkey'')
      else Inr ((), d\<lparr>banner_images :=
        if i \<in> i_banner ` set (banner_images d) then upd_where (\<lambda>q. i_banner q = i) (\<lambda>_. p) (banner_images d)
        else banner_images d @ [p]\<rparr>))"

definition saveBannerImage :: "int \<Rightarrow> bannerImage \<Rightarrow> (banner_error, unit) tx" where
  "saveBannerImage i img = lift_err Banner_Db (with_text [bi_type img, bi_checksum img] (stmt (put_picture i img)))"

definition insert_banner :: "str option \<Rightarrow> str option \<Rightarrow> bool \<Rightarrow> stamp \<Rightarrow> int \<Rightarrow> db \<Rightarrow> err + int \<times> db" where
  "insert_banner title link active now i d =
     (if i \<in> r_id ` set (banners d) then Inl (unique_violation ''banners_pkey'')
      else Inr (i, d\<lparr>banners := banners d @ [\<lparr>r_id = i, r_title = title, r_image_url = [], r_link = link, r_active = active, r_created = now\<rparr>]\<rparr>))"

definition flat :: "'a option option \<Rightarrow> 'a option" where
  "flat z = (case z of None \<Rightarrow> None | Some x \<Rightarrow> x)"

definition create_banner :: "bannerForm \<Rightarrow> bannerImage \<Rightarrow> (banner_error, AdminBanner) tx" where
  "create_banner form img =
     bindE get_clock (\<lambda>now.
     bindE (lift_err Banner_Db (with_text (opt_list (flat (bf_title form)) @ opt_list (flat (bf_link form)))
       (insert_id Banners (insert_banner (flat (bf_title form)) (flat (bf_link form)) (bf_active form \<noteq> Some False) now)))) (\<lambda>i.
     bindE (saveBannerImage i img) (\<lambda>_.
     readAdminBanner i)))"

definition edited :: "bannerForm \<Rightarrow> banner \<Rightarrow> banner" where
  "edited form b = b\<lparr>
     r_title := (case bf_title form of None \<Rightarrow> r_title b | Some t \<Rightarrow> t),
     r_link := (case bf_link form of None \<Rightarrow> r_link b | Some l \<Rightarrow> l),
     r_active := (case bf_active form of None \<Rightarrow> r_active b | Some a \<Rightarrow> a)\<rparr>"

definition edit_banner :: "bannerForm \<Rightarrow> int \<Rightarrow> db \<Rightarrow> err + bool \<times> db" where
  \<comment> \<open>whether a row has the id\<close>
  "edit_banner form i d =
     Inr (i \<in> r_id ` set (banners d), d\<lparr>banners := upd_where (\<lambda>b. r_id b = i) (edited form) (banners d)\<rparr>)"

definition update_banner :: "bannerForm \<Rightarrow> int \<Rightarrow> (banner_error, AdminBanner) tx" where
  "update_banner form i =
     bindE (lift_err Banner_Db (with_int4 [i] (with_text (opt_list (flat (bf_title form)) @ opt_list (flat (bf_link form)))
       (stmt (edit_banner form i))))) (\<lambda>found.
     bindE (guard found Banner_Missing) (\<lambda>_.
     bindE (case bf_image form of None \<Rightarrow> ret () | Some img \<Rightarrow> saveBannerImage i img) (\<lambda>_.
     readAdminBanner i)))"

definition delete_banner :: "int \<Rightarrow> db \<Rightarrow> err + bool \<times> db" where
  \<comment> \<open>its picture goes with it\<close>
  "delete_banner i d =
     Inr (i \<in> r_id ` set (banners d),
       d\<lparr>banners := del_where (\<lambda>b. r_id b = i) (banners d), banner_images := del_where (\<lambda>p. i_banner p = i) (banner_images d)\<rparr>)"

definition parseBannerID :: "str \<Rightarrow> int option" where
  "parseBannerID s = (case Atoi s of None \<Rightarrow> None | Some i \<Rightarrow> if 1 \<le> i then Some i else None)"

definition banner_refusal :: "banner_error \<Rightarrow> refusal" where
  "banner_refusal e = (case e of Banner_Missing \<Rightarrow> Refuse 404 (u ''Banner not found'') | Banner_Db x \<Rightarrow> internal_error ''Failed to save banner'' x)"

datatype banners_reply = Banner_List "AdminBanner list" | Banner_Saved AdminBanner | Banner_Deleted

definition banner_id_of :: "str \<Rightarrow> (refusal, int) tx" where
  "banner_id_of s = of_option (Refuse 400 (u ''Invalid banner ID'')) (parseBannerID s)"

definition AdminBannersHandler ::
    "(bytes \<Rightarrow> str) \<Rightarrow> (bytes \<Rightarrow> str) \<Rightarrow> (str \<Rightarrow> (str \<times> str) option) \<Rightarrow> meth \<Rightarrow> str \<Rightarrow> form_request \<Rightarrow> (refusal, banners_reply) tx" where
  "AdminBannersHandler detect digest web verb idParam r =
     (case verb of
        GET \<Rightarrow> bindE (lift_err (internal_error ''Database error'') (query admin_banner_list)) (\<lambda>bs. ret (Banner_List bs))
      | POST \<Rightarrow>
          bindE (of_sum (readBannerForm detect digest web r)) (\<lambda>form.
          bindE (of_option (Refuse 400 (u ''image is required'')) (bf_image form)) (\<lambda>img.
          bindE (lift_err banner_refusal (in_tx Banner_Db (create_banner form img))) (\<lambda>b.
          bindE (NoteActivity (u ''banner'') (itoa (ab_id b)) []) (\<lambda>_.
          ret (Banner_Saved b)))))
      | PUT \<Rightarrow>
          bindE (banner_id_of idParam) (\<lambda>i.
          bindE (NoteActivity (u ''banner'') (itoa i) []) (\<lambda>_.
          bindE (of_sum (readBannerForm detect digest web r)) (\<lambda>form.
          bindE (guard (\<not> bannerForm_empty form) (Refuse 400 (u ''send at least one of image, title, action_link or is_active''))) (\<lambda>_.
          bindE (lift_err banner_refusal (in_tx Banner_Db (update_banner form i))) (\<lambda>b.
          ret (Banner_Saved b))))))
      | DELETE \<Rightarrow>
          bindE (banner_id_of idParam) (\<lambda>i.
          bindE (NoteActivity (u ''banner'') (itoa i) []) (\<lambda>_.
          bindE (lift_err (internal_error ''Failed to delete banner'') (with_int4 [i] (stmt (delete_banner i)))) (\<lambda>found.
          bindE (guard found (Refuse 404 (u ''Banner not found''))) (\<lambda>_.
          ret Banner_Deleted))))
      | _ \<Rightarrow> fail method_not_allowed)"

section \<open>What clients fetch\<close>

record Banner =
  bn_id :: int
  bn_title :: str
  bn_url :: str
  bn_link :: str

definition mobile_banner :: "db \<Rightarrow> banner \<Rightarrow> Banner" where
  "mobile_banner d b =
     \<lparr>bn_id = r_id b, bn_title = (case r_title b of None \<Rightarrow> [] | Some t \<Rightarrow> t),
      bn_url = bannerImageURL (r_id b) (picture_of d (r_id b) \<noteq> None) (r_image_url b),
      bn_link = (case r_link b of None \<Rightarrow> [] | Some l \<Rightarrow> l)\<rparr>"

definition active_banners :: "(banner \<Rightarrow> nat) \<Rightarrow> db \<Rightarrow> Banner list" where
  \<comment> \<open>the newest first; \<open>tie\<close> is the order the query leaves open\<close>
  "active_banners tie d = map (mobile_banner d) (rev (sort_key (\<lambda>b. (r_created b, tie b)) (filter r_active (banners d))))"

definition GetActiveBannersHandler :: "(banner \<Rightarrow> nat) \<Rightarrow> meth \<Rightarrow> (refusal, Banner list) tx" where
  "GetActiveBannersHandler tie verb =
     bindE (guard (verb = GET) method_not_allowed) (\<lambda>_.
     lift_err (internal_error ''Internal server error'') (query (active_banners tie)))"

definition etag_checksum :: "str \<Rightarrow> str option" where
  \<comment> \<open>the checksum an entity tag names\<close>
  "etag_checksum tag =
     (let t = (if take 2 tag = u ''W/'' then drop 2 tag else tag); inner = butlast (tl t) in
      if 2 \<le> length t \<and> hd t = 34 \<and> last t = 34 \<and> is_checksum inner then Some inner else None)"

definition ifNoneMatch :: "str \<Rightarrow> str list \<times> bool" where
  \<comment> \<open>the checksums named in the header, and whether one of its entries is a star\<close>
  "ifNoneMatch header =
     (let tags = map TrimSpace (split_on 44 header); named = filter (\<lambda>t. t \<noteq> u ''*'') tags in
      (map the (filter (\<lambda>z. z \<noteq> None) (map etag_checksum named)), u ''*'' \<in> set tags))"

record picture_reply =
  pr_etag :: str
  pr_cache :: str
  pr_body :: "(str \<times> bytes) option"   \<comment> \<open>\<open>None\<close>: 304, nothing sent\<close>

definition served_picture :: "int \<Rightarrow> bool \<Rightarrow> db \<Rightarrow> banner_image option" where
  "served_picture i activeOnly d =
     find_row (\<lambda>p. i_banner p = i \<and> list_ex (\<lambda>b. r_id b = i \<and> (activeOnly \<longrightarrow> r_active b)) (banners d)) (banner_images d)"

definition serveBannerImage :: "bool \<Rightarrow> str \<Rightarrow> str \<Rightarrow> str \<Rightarrow> str \<Rightarrow> (refusal, picture_reply) tx" where
  "serveBannerImage activeOnly cacheControl verb idParam header =
     bindE (guard (verb = u ''GET'' \<or> verb = u ''HEAD'') method_not_allowed) (\<lambda>_.
     bindE (banner_id_of idParam) (\<lambda>i.
     bindE (lift_err (internal_error ''Database error'') (with_int4 [i] (query (served_picture i activeOnly)))) (\<lambda>found.
     bindE (of_option (Refuse 404 (u ''Banner image not found'')) found) (\<lambda>p.
     let (sums, wildcard) = ifNoneMatch header in
     ret \<lparr>pr_etag = [34] @ i_checksum p @ [34], pr_cache = cacheControl,
       pr_body = (if wildcard \<or> i_checksum p \<in> set sums then None else Some (i_type p, i_data p))\<rparr>))))"

definition PublicBannerImageCache :: str where "PublicBannerImageCache = u ''public, max-age=300''"

definition AdminBannerImageCache :: str where "AdminBannerImageCache = u ''private, no-cache''"

definition AdminBannerImageHandler :: "str \<Rightarrow> str \<Rightarrow> str \<Rightarrow> (refusal, picture_reply) tx" where
  "AdminBannerImageHandler = serveBannerImage False AdminBannerImageCache"

definition MobileBannerImageHandler :: "str \<Rightarrow> str \<Rightarrow> str \<Rightarrow> (refusal, picture_reply) tx" where
  "MobileBannerImageHandler = serveBannerImage True PublicBannerImageCache"

section \<open>Sound pictures\<close>

interpretation banner_ids: keyed_table banners "\<lambda>rs d. d\<lparr>banners := rs\<rparr>" r_id
  by unfold_locales simp_all

interpretation pictures: keyed_table banner_images "\<lambda>rs d. d\<lparr>banner_images := rs\<rparr>" i_banner
  by unfold_locales simp_all

definition picture_sound :: "(bytes \<Rightarrow> str) \<Rightarrow> (bytes \<Rightarrow> str) \<Rightarrow> banner_image \<Rightarrow> bool" where
  "picture_sound detect digest p \<longleftrightarrow> i_type p \<in> set bannerImageTypes \<and> i_type p = detect (i_data p) \<and>
     i_checksum p = digest (i_data p) \<and> is_checksum (i_checksum p) \<and> i_data p \<noteq> [] \<and> length (i_data p) \<le> MaxBannerImageBytes"

definition banners_sound :: "(bytes \<Rightarrow> str) \<Rightarrow> (bytes \<Rightarrow> str) \<Rightarrow> db \<Rightarrow> bool" where
  "banners_sound detect digest d \<longleftrightarrow> unique_key r_id (banners d) \<and> unique_key i_banner (banner_images d) \<and>
     i_banner ` set (banner_images d) \<subseteq> r_id ` set (banners d) \<and> list_all (picture_sound detect digest) (banner_images d)"

lemma bannerPartLimits_image [simp]: "bannerPartLimits (u ''image'') = Some MaxBannerImageBytes"
  by (simp add: bannerPartLimits_def)

lemma parsed_form:
  assumes "parseBannerParts detect digest web raw = Inr form"
  shows "image_part detect digest raw = Inr (bf_image form)" "text_part raw (u ''title'') MaxBannerTitleChars = Inr (bf_title form)"
    "text_part raw (u ''action_link'') MaxBannerActionLinkChars = Inr (bf_link form)" "flag_part raw = Inr (bf_active form)"
    "bf_link form = Some (Some s) \<Longrightarrow> absoluteWebURL web s"
  using assms by (auto simp: parseBannerParts_def andThen_ok split: if_splits)

lemma uploaded_picture:
  assumes "readBannerForm detect digest web r = Inr form" "bf_image form = Some img"
  shows "bi_type img = detect (bi_data img)" "bi_checksum img = digest (bi_data img)" "bi_data img \<noteq> []"
    "bi_type img \<in> set bannerImageTypes" "length (bi_data img) \<le> MaxBannerImageBytes"
proof -
  from assms(1) obtain raw where r: "readFormParts r bannerPartLimits bannerPartOverLimit = Inr raw"
    and p: "parseBannerParts detect digest web raw = Inr form"
    by (auto simp: readBannerForm_def split: sum.splits)
  have i: "image_part detect digest raw = Inr (Some img)" using parsed_form(1) [OF p] assms(2) by simp
  then show "bi_type img = detect (bi_data img)" "bi_checksum img = digest (bi_data img)" "bi_data img \<noteq> []"
    "bi_type img \<in> set bannerImageTypes"
    by (auto simp: image_part_def split: option.splits if_splits)
  from i have "map_of raw (u ''image'') = Some (bi_data img)" by (auto simp: image_part_def split: option.splits if_splits)
  from parts_within_limits [OF r this] show "length (bi_data img) \<le> MaxBannerImageBytes" by simp
qed

lemma put_picture_ok:
  assumes "put_picture i img d = Inr (x, d')"
  shows "picture_checks \<lparr>i_banner = i, i_type = bi_type img, i_checksum = bi_checksum img, i_data = bi_data img\<rparr>"
    "i \<in> r_id ` set (banners d)" "banners d' = banners d"
    "set (banner_images d') = insert \<lparr>i_banner = i, i_type = bi_type img, i_checksum = bi_checksum img, i_data = bi_data img\<rparr>
       {p \<in> set (banner_images d). i_banner p \<noteq> i}"
    "unique_key i_banner (banner_images d) \<Longrightarrow> unique_key i_banner (banner_images d')"
proof -
  let ?p = "\<lparr>i_banner = i, i_type = bi_type img, i_checksum = bi_checksum img, i_data = bi_data img\<rparr>"
  show "picture_checks ?p" "i \<in> r_id ` set (banners d)" "banners d' = banners d"
    using assms by (auto simp: put_picture_def Let_def split: if_splits)
  have d': "banner_images d' = (if i \<in> i_banner ` set (banner_images d) then upd_where (\<lambda>q. i_banner q = i) (\<lambda>_. ?p) (banner_images d)
      else banner_images d @ [?p])"
    using assms by (auto simp: put_picture_def Let_def split: if_splits)
  show "set (banner_images d') = insert ?p {p \<in> set (banner_images d). i_banner p \<noteq> i}"
    unfolding d' by (auto simp: upd_where_def image_iff)
  show "unique_key i_banner (banner_images d) \<Longrightarrow> unique_key i_banner (banner_images d')"
    unfolding d' unique_key_def by (auto simp: upd_where_def o_def if_distrib cong: if_cong)
qed

lemma sound_put:
  assumes "banners_sound detect digest d" "put_picture i img d = Inr (x, d')"
    "bi_type img = detect (bi_data img)" "bi_checksum img = digest (bi_data img)" "length (bi_data img) \<le> MaxBannerImageBytes"
  shows "banners_sound detect digest d'"
  using assms(1,3-5) put_picture_ok [OF assms(2)]
  by (auto simp: banners_sound_def picture_sound_def picture_checks_def list_all_iff image_iff)

lemma sound_insert:
  assumes "banners_sound detect digest d" "insert_banner t l a now i d = Inr (j, d')"
  shows "banners_sound detect digest d'"
proof -
  obtain b where "banners d' = banners d @ [b]" "banner_images d' = banner_images d" "r_id b \<notin> r_id ` set (banners d)"
    using assms(2) by (auto simp: insert_banner_def split: if_splits)
  then show ?thesis using assms(1) by (simp add: banners_sound_def unique_key_def subset_insertI2)
qed

lemma edited_id [simp]: "r_id (edited form b) = r_id b"
  by (simp add: edited_def)

lemma sound_edit:
  assumes "banners_sound detect digest d" "edit_banner form i d = Inr (f, d')"
  shows "banners_sound detect digest d'"
proof -
  have "map r_id (banners d') = map r_id (banners d)" "banner_images d' = banner_images d"
    using assms(2) by (auto simp: edit_banner_def upd_where_def)
  moreover from this(1) have "r_id ` set (banners d') = r_id ` set (banners d)" by (metis set_map)
  ultimately show ?thesis using assms(1) by (simp add: banners_sound_def unique_key_def)
qed

lemma sound_delete:
  assumes "banners_sound detect digest d" "delete_banner i d = Inr (f, d')"
  shows "banners_sound detect digest d'"
proof -
  have d': "banners d' = del_where (\<lambda>b. r_id b = i) (banners d)" "banner_images d' = del_where (\<lambda>p. i_banner p = i) (banner_images d)"
    using assms(2) by (auto simp: delete_banner_def)
  have "i_banner ` set (banner_images d') \<subseteq> r_id ` set (banners d')"
    using assms(1) unfolding d' banners_sound_def del_where_def by (auto simp: image_iff subset_iff) 
  moreover have "unique_key r_id (banners d')" "unique_key i_banner (banner_images d')"
    using assms(1) unfolding d' banners_sound_def unique_key_def by (simp_all add: distinct_map_del_where)
  moreover have "list_all (picture_sound detect digest) (banner_images d')"
    using assms(1) unfolding d' banners_sound_def del_where_def by (simp add: list_all_iff)
  ultimately show ?thesis by (simp add: banners_sound_def)
qed

lemma keeps_save:
  assumes "readBannerForm detect digest web r = Inr form" "bf_image form = Some img"
  shows "keeps (banners_sound detect digest) (saveBannerImage i img)"
  unfolding saveBannerImage_def
  by (intro keeping) (rule sound_put, use uploaded_picture [OF assms] in auto)

lemma keeps_read_banner [keeping]: "keeps P (readAdminBanner i)"
  unfolding readAdminBanner_def by (intro keeping)

lemma keeps_banners: "keeps (banners_sound detect digest) (AdminBannersHandler detect digest web verb idParam r)"
proof -
  let ?I = "banners_sound detect digest"
  have f: "keeps ?I (bindE (of_sum (readBannerForm detect digest web r)) g)"
    if "\<And>form. readBannerForm detect digest web r = Inr form \<Longrightarrow> keeps ?I (g form)" for g :: "bannerForm \<Rightarrow> (refusal, banners_reply) tx"
    by (rule keeps_bind_post [where Q = "\<lambda>form. readBannerForm detect digest web r = Inr form"])
      (use that in \<open>auto simp: simple_ok intro: keeping\<close>)
  have c: "keeps ?I (create_banner form img)" if "readBannerForm detect digest web r = Inr form" "bf_image form = Some img" for form img
    unfolding create_banner_def by (intro keeping keeps_save [OF that]) (rule sound_insert)
  have p: "keeps ?I (update_banner form i)" if "readBannerForm detect digest web r = Inr form" for form i
    unfolding update_banner_def by (intro keeping keeps_save [OF that]) (rule sound_edit)
  have o: "keeps ?I (bindE (of_option e (bf_image form)) g)"
    if "\<And>img. bf_image form = Some img \<Longrightarrow> keeps ?I (g img)" for e form and g :: "bannerImage \<Rightarrow> (refusal, banners_reply) tx"
    by (rule keeps_bind_post [where Q = "\<lambda>img. bf_image form = Some img"]) (use that in \<open>auto simp: simple_ok intro: keeping\<close>)
  show ?thesis
  proof (cases verb)
    case POST
    then show ?thesis unfolding AdminBannersHandler_def
      by simp (intro f o keeping keeps_keeps_ok c)
  next
    case PUT
    then show ?thesis unfolding AdminBannersHandler_def banner_id_of_def
      by simp (intro f keeping keeps_keeps_ok p)
  next
    case DELETE
    then show ?thesis unfolding AdminBannersHandler_def banner_id_of_def
      by simp (intro keeping, rule sound_delete)
  qed (simp_all add: AdminBannersHandler_def, (intro keeping)+)
qed

section \<open>A picture that was uploaded\<close>

lemma served_row:
  assumes "unique_key r_id (banners d)" "b \<in> set (banners d)"
  shows "served_picture (r_id b) activeOnly d = (if activeOnly \<longrightarrow> r_active b then picture_of d (r_id b) else None)"
proof -
  have "list_ex (\<lambda>c. r_id c = r_id b \<and> (activeOnly \<longrightarrow> r_active c)) (banners d) \<longleftrightarrow> (activeOnly \<longrightarrow> r_active b)"
    using assms by (auto simp: list_ex_iff unique_key_def distinct_map dest: inj_onD)
  then show ?thesis by (simp add: served_picture_def picture_of_def find_row_None)
qed

lemma put_picture_read:
  assumes "put_picture i img d = Inr (x, d')"
  shows "picture_of d' i = Some \<lparr>i_banner = i, i_type = bi_type img, i_checksum = bi_checksum img, i_data = bi_data img\<rparr>"
proof -
  let ?p = "\<lparr>i_banner = i, i_type = bi_type img, i_checksum = bi_checksum img, i_data = bi_data img\<rparr>"
  have s: "set (banner_images d') = insert ?p {p \<in> set (banner_images d). i_banner p \<noteq> i}" by (rule put_picture_ok(4) [OF assms])
  show ?thesis
  proof (cases "picture_of d' i")
    case None
    then show ?thesis using s by (auto simp: picture_of_def find_row_None)
  next
    case (Some p)
    with s find_row_Some [OF Some [unfolded picture_of_def]] show ?thesis by auto
  qed
qed

lemma created:
  assumes "in_tx Banner_Db (create_banner form img) w = (Inr b, w1)"
  obtains row where "row = \<lparr>r_id = serial w Banners, r_title = flat (bf_title form), r_image_url = [], r_link = flat (bf_link form),
      r_active = (bf_active form \<noteq> Some False), r_created = clock w\<rparr>"
    "banners (db w1) = banners (db w) @ [row]" "b = scanAdminBanner (db w1) row"
    "picture_of (db w1) (r_id row) = Some \<lparr>i_banner = r_id row, i_type = bi_type img, i_checksum = bi_checksum img, i_data = bi_data img\<rparr>"
    "is_checksum (bi_checksum img)"
proof -
  let ?row = "\<lparr>r_id = serial w Banners, r_title = flat (bf_title form), r_image_url = [], r_link = flat (bf_link form),
      r_active = (bf_active form \<noteq> Some False), r_created = clock w\<rparr>"
  from assms obtain w2 w5 where t: "create_banner form img w2 = (Inr b, w5)" "db w2 = db w" "clock w2 = clock w" "serial w2 = serial w"
    "db w1 = db w5"
    by (rule in_tx_ok) simp
  from t(1) obtain i w3 x w4 z w6 where ins: "insert_id Banners (insert_banner (flat (bf_title form)) (flat (bf_link form)) (bf_active form \<noteq> Some False) (clock w2)) w2 = (Inr i, w3)"
    and put: "stmt (put_picture i img) w3 = (Inr x, w4)"
    and rd: "query (\<lambda>d. map_option (scanAdminBanner d) (find_row (\<lambda>b. r_id b = i) (banners d))) w4 = (Inr z, w6)" "z = Some b" "w5 = w6"
    by (auto simp: create_banner_def saveBannerImage_def readAdminBanner_def bindE_ok simple_ok dest!: with_text_ok)
  from ins have i: "i = serial w Banners" "banners (db w3) = banners (db w) @ [?row]" "serial w Banners \<notin> r_id ` set (banners (db w))"
  proof -
    from ins obtain e where "insert_banner (flat (bf_title form)) (flat (bf_link form)) (bf_active form \<noteq> Some False) (clock w2) (serial w2 Banners) (db w2) = Inr (i, e)"
      and e: "db w3 = e" by (rule insert_id_ok)
    then have "i = serial w Banners" "e = (db w)\<lparr>banners := banners (db w) @ [?row]\<rparr>" "serial w Banners \<notin> r_id ` set (banners (db w))"
      unfolding t by (auto simp: insert_banner_def split: if_splits)
    then show "i = serial w Banners" "banners (db w3) = banners (db w) @ [?row]" "serial w Banners \<notin> r_id ` set (banners (db w))"
      unfolding e by simp_all
  qed
  from put obtain d where d: "put_picture i img (db w3) = Inr (x, d)" "db w4 = d" by (rule stmt_ok)
  have d1: "db w1 = d" and z: "Some b = map_option (scanAdminBanner d) (find_row (\<lambda>b. r_id b = i) (banners d))"
    using query_okD [OF rd(1)] rd(2,3) d(2) t(5) by simp_all
  have bs: "banners d = banners (db w) @ [?row]" using put_picture_ok(3) [OF d(1)] i(2) by simp
  have "find_row (\<lambda>b. r_id b = i) (banners (db w)) = None" using i(1,3) by (auto simp: find_row_None image_iff)
  then have "find_row (\<lambda>b. r_id b = i) (banners d) = Some ?row" unfolding bs by (simp add: find_row_snoc i(1))
  then have "b = scanAdminBanner (db w1) ?row" using z d1 by simp
  moreover have "is_checksum (bi_checksum img)" using put_picture_ok(1) [OF d(1)] by (simp add: picture_checks_def)
  ultimately show thesis
    using that [of ?row] bs put_picture_read [OF d(1)] i(1) unfolding d1 by simp
qed

lemma checksum_chars: "is_checksum s \<Longrightarrow> c \<in> set s \<Longrightarrow> hex_digit c"
  by (simp add: is_checksum_def list_all_iff)

lemma no_tags [simp]: "ifNoneMatch [] = ([], False)"
  by (simp add: ifNoneMatch_def etag_checksum_def TrimSpace_def trim_by_def u_def)

lemma one_tag:
  assumes "is_checksum s"
  shows "ifNoneMatch (34 # s @ [34]) = ([s], False)"
proof -
  have split: "44 \<notin> set t \<Longrightarrow> split_on 44 t = [t]" for t by (induction t) auto
  have "44 \<notin> set (34 # s @ [34])" using checksum_chars [OF assms, of 44] by (auto simp: hex_digit_def is_digit_def)
  then have "split_on 44 (34 # s @ [34]) = [34 # s @ [34]]" 
    using split [of "34 # s @ [34]"] by blast
  moreover have "TrimSpace (34 # s @ [34]) = 34 # s @ [34]" by (simp add: TrimSpace_def trim_by_def is_space_def)
  moreover have "take 2 (34 # s @ [34]) \<noteq> u ''W/''" by (simp add: u_def)
  ultimately show ?thesis using assms by (simp add: ifNoneMatch_def etag_checksum_def u_def butlast_append)
qed

section \<open>Properties\<close>

lemma parsed_id: "1 \<le> i \<Longrightarrow> i < 2 ^ 31 \<Longrightarrow> parseBannerID (itoa i) = Some i"
  by (simp add: parseBannerID_def Atoi_itoa)

lemma serve_run:
  assumes "faults w = []" "1 \<le> i" "i < 2 ^ 31"
  shows "serveBannerImage activeOnly cache (u ''GET'') (itoa i) header w =
    (case served_picture i activeOnly (db w) of
       None \<Rightarrow> (Inl (Refuse 404 (u ''Banner image not found'')), w)
     | Some p \<Rightarrow> (Inr \<lparr>pr_etag = [34] @ i_checksum p @ [34], pr_cache = cache,
         pr_body = (if snd (ifNoneMatch header) \<or> i_checksum p \<in> set (fst (ifNoneMatch header)) then None else Some (i_type p, i_data p))\<rparr>, w))"
  using assms
  by (simp add: serveBannerImage_def banner_id_of_def parsed_id bindE_def run_simps lift_err_run with_int4_def case_prod_unfold Let_def
      split: option.split)

definition picture_answer :: "str \<Rightarrow> (bytes \<Rightarrow> str) \<Rightarrow> bannerImage \<Rightarrow> picture_reply" where
  "picture_answer cache digest img =
     \<lparr>pr_etag = [34] @ digest (bi_data img) @ [34], pr_cache = cache, pr_body = Some (bi_type img, bi_data img)\<rparr>"

text \<open>C29. A picture that was uploaded is the picture everybody gets: after the dashboard's upload is answered, its own preview and,
  exactly while the banner is active, the parents' route answer with the uploaded bytes and the type detected from them; a client that
  sends the entity tag back is told that nothing changed; and the banner is in the dashboard's list under an id no other banner has.\<close>

theorem upload_is_served:
  assumes sound: "banners_sound detect digest (db w)" and i: "1 \<le> serial w Banners" "serial w Banners < 2 ^ 31"
    and run: "AdminBannersHandler detect digest web POST idParam r w = (Inr (Banner_Saved b), w1)" and w1: "faults w1 = []"
  shows "\<exists>form img bs. readBannerForm detect digest web r = Inr form \<and> bf_image form = Some img \<and>
    ab_title b = flat (bf_title form) \<and> ab_link b = flat (bf_link form) \<and> (ab_active b \<longleftrightarrow> bf_active form \<noteq> Some False) \<and>
    AdminBannerImageHandler (u ''GET'') (itoa (ab_id b)) [] w1 = (Inr (picture_answer AdminBannerImageCache digest img), w1) \<and>
    MobileBannerImageHandler (u ''GET'') (itoa (ab_id b)) [] w1 =
      (if ab_active b then Inr (picture_answer PublicBannerImageCache digest img) else Inl (Refuse 404 (u ''Banner image not found'')), w1) \<and>
    AdminBannerImageHandler (u ''GET'') (itoa (ab_id b)) (pr_etag (picture_answer [] digest img)) w1 =
      (Inr ((picture_answer AdminBannerImageCache digest img)\<lparr>pr_body := None\<rparr>), w1) \<and>
    AdminBannersHandler detect digest web GET idParam r w1 = (Inr (Banner_List bs), w1) \<and> b \<in> set bs \<and> distinct (map ab_id bs)"
proof -
  from run obtain form img w2 where f: "readBannerForm detect digest web r = Inr form" "bf_image form = Some img"
    and t: "in_tx Banner_Db (create_banner form img) w = (Inr b, w2)" and w2: "db w1 = db w2"
    by (auto simp: AdminBannersHandler_def bindE_ok simple_ok)
  from t obtain row where row: "row = \<lparr>r_id = serial w Banners, r_title = flat (bf_title form), r_image_url = [], r_link = flat (bf_link form),
      r_active = (bf_active form \<noteq> Some False), r_created = clock w\<rparr>"
    and d: "banners (db w1) = banners (db w) @ [row]" "b = scanAdminBanner (db w1) row"
    and p: "picture_of (db w1) (r_id row) = Some \<lparr>i_banner = r_id row, i_type = bi_type img, i_checksum = bi_checksum img, i_data = bi_data img\<rparr>"
    and c: "is_checksum (bi_checksum img)"
    unfolding w2 by (rule created)
  have b: "ab_id b = r_id row" "ab_active b = r_active row" "ab_title b = r_title row" "ab_link b = r_link row"
    by (simp_all add: d(2) scanAdminBanner_def Let_def)
  have u: "unique_key r_id (banners (db w1))"
    using keepsD [OF keeps_banners sound run] by (simp add: banners_sound_def)
  have s: "served_picture (r_id row) ao (db w1) = (if ao \<longrightarrow> r_active row
      then Some \<lparr>i_banner = r_id row, i_type = bi_type img, i_checksum = bi_checksum img, i_data = bi_data img\<rparr> else None)" for ao
    using served_row [OF u, of row ao] d(1) p by simp
  have k: "bi_checksum img = digest (bi_data img)" by (rule uploaded_picture(2) [OF f])
  note run = serve_run [OF w1, of "r_id row"]
  have r: "1 \<le> r_id row" "r_id row < 2 ^ 31" using i by (simp_all add: row)
  have g1: "AdminBannerImageHandler (u ''GET'') (itoa (ab_id b)) [] w1 = (Inr (picture_answer AdminBannerImageCache digest img), w1)"
    by (simp add: AdminBannerImageHandler_def b run [OF r] s picture_answer_def k)
  have g2: "MobileBannerImageHandler (u ''GET'') (itoa (ab_id b)) [] w1 =
      (if ab_active b then Inr (picture_answer PublicBannerImageCache digest img) else Inl (Refuse 404 (u ''Banner image not found'')), w1)"
    by (simp add: MobileBannerImageHandler_def b run [OF r] s picture_answer_def k)
  have g3: "AdminBannerImageHandler (u ''GET'') (itoa (ab_id b)) (pr_etag (picture_answer [] digest img)) w1 =
      (Inr ((picture_answer AdminBannerImageCache digest img)\<lparr>pr_body := None\<rparr>), w1)"
    by (simp add: AdminBannerImageHandler_def b run [OF r] s picture_answer_def one_tag [OF c] k flip: k)
  have g4: "AdminBannersHandler detect digest web GET idParam r w1 = (Inr (Banner_List (admin_banner_list (db w1))), w1)"
    using w1 by (simp add: AdminBannersHandler_def bindE_def run_simps lift_err_run)
  have g5: "b \<in> set (admin_banner_list (db w1))" by (simp add: admin_banner_list_def d)
  have ids: "map ab_id (map (scanAdminBanner d) bs) = map r_id bs" for d bs by (simp add: scanAdminBanner_def Let_def)
  have g6: "distinct (map ab_id (admin_banner_list (db w1)))"
    unfolding admin_banner_list_def ids using u by (simp add: unique_key_def distinct_map rev_map [symmetric])
  show ?thesis
    by (intro exI conjI) (rule f g1 g2 g3 g4 g5 g6 | simp add: b row)+
qed

fun banner_requests ::
    "(bytes \<Rightarrow> str) \<Rightarrow> (bytes \<Rightarrow> str) \<Rightarrow> (str \<Rightarrow> (str \<times> str) option) \<Rightarrow> (meth \<times> str \<times> form_request) list \<Rightarrow> world \<Rightarrow> world" where
  "banner_requests detect digest web [] w = w"
| "banner_requests detect digest web ((verb, idParam, r) # rs) w =
     banner_requests detect digest web rs (snd (AdminBannersHandler detect digest web verb idParam r w))"

text \<open>C30. Whatever the dashboard sends, every stored picture belongs to a banner that exists, is not empty and at most 2 MiB, is a JPEG,
  PNG or WebP picture by its bytes, and carries the checksum of its bytes; ids stay unique.\<close>

theorem pictures_stay_sound:
  assumes "banners_sound detect digest (db w)"
  shows "banners_sound detect digest (db (banner_requests detect digest web rs w))"
  using assms
proof (induction rs arbitrary: w)
  case (Cons q rs)
  obtain verb idParam r where q: "q = (verb, idParam, r)" by (cases q)
  have "banners_sound detect digest (db (snd (AdminBannersHandler detect digest web verb idParam r w)))"
    using keeps_banners Cons.prems by (simp add: keeps_def)
  from Cons.IH [OF this] show ?case by (simp add: q)
qed simp

section \<open>Examples\<close>

definition png :: "bytes \<Rightarrow> str" where "png data = u ''image/png''"

definition sixty_four :: "bytes \<Rightarrow> str" where "sixty_four data = replicate 64 97"

definition picture_request :: form_request where
  "picture_request = \<lparr>fr_multipart = True, fr_parts =
     [\<lparr>fp_name = u ''title'', fp_data = u '' Open day '', fp_error = None\<rparr>,
      \<lparr>fp_name = u ''note'', fp_data = u ''x'', fp_error = None\<rparr>,
      \<lparr>fp_name = u ''image'', fp_data = [137, 80, 78, 71], fp_error = None\<rparr>,
      \<lparr>fp_name = u ''is_active'', fp_data = u ''false'', fp_error = None\<rparr>], fr_end = None, fr_over = False\<rparr>"

definition picture_form :: bannerForm where
  "picture_form = \<lparr>bf_image = Some \<lparr>bi_type = u ''image/png'', bi_checksum = replicate 64 97, bi_data = [137, 80, 78, 71]\<rparr>,
     bf_title = Some (Some (u ''Open day'')), bf_link = None, bf_active = Some False\<rparr>"

lemma picture_read: "readBannerForm png sixty_four (\<lambda>_. None) picture_request = Inr picture_form"
proof -
  have "readFormParts picture_request bannerPartLimits bannerPartOverLimit =
      Inr [(u ''is_active'', u ''false''), (u ''image'', [137, 80, 78, 71]), (u ''title'', u '' Open day '')]"
    by (simp add: readFormParts_def streamFormParts_def picture_request_def bannerPartLimits_def MaxBannerImageBytes_def
        maxBannerTextPartBytes_def u_def)
  moreover have "decodeUTF8 (u '' Open day '') = Some (u '' Open day '')" by (rule decode_ascii) (simp add: u_def)
  moreover have "TrimSpace (u '' Open day '') = u ''Open day''" "0 \<notin> set (u '' Open day '')"
    by (simp_all add: TrimSpace_def trim_by_def is_space_def u_def)
  moreover have "tooLong (u ''title'') (u ''Open day'') MaxBannerTitleChars = []"
    by (simp add: tooLong_def TrimRightBlank_def MaxBannerTitleChars_def u_def)
  ultimately show ?thesis
    by (simp add: readBannerForm_def parseBannerParts_def image_part_def text_part_def flag_part_def png_def sixty_four_def
        bannerImageTypes_def picture_form_def)
qed

lemma picture_saved:
  "\<exists>b w1. AdminBannersHandler png sixty_four (\<lambda>_. None) POST [] picture_request (quiet empty_db (At (Date 2025 10 5) (hm 8 0))) =
     (Inr (Banner_Saved b), w1) \<and> faults w1 = []"
proof -
  let ?w = "quiet empty_db (At (Date 2025 10 5) (hm 8 0))"
  have t: "with_text (opt_list (flat (bf_title picture_form)) @ opt_list (flat (bf_link picture_form))) m = m" for m :: "(err, int) tx"
    by (rule with_plain_texts) (simp add: picture_form_def flat_def opt_list_def plain_texts_def u_def)
  have t2: "with_text [u ''image/png'', replicate 64 97] m = m" for m :: "(err, unit) tx"
    by (rule with_plain_texts) (simp add: plain_texts_def u_def)
  have c: "picture_checks \<lparr>i_banner = i, i_type = u ''image/png'', i_checksum = replicate 64 97, i_data = [137, 80, 78, 71]\<rparr>" for i
    by (simp add: picture_checks_def bannerImageTypes_def is_checksum_def hex_digit_def list_all_iff)
  obtain img where img: "bf_image picture_form = Some img" "bi_type img = u ''image/png''" "bi_checksum img = replicate 64 97" "bi_data img = [137, 80, 78, 71]"
    by (rule that [of "\<lparr>bi_type = u ''image/png'', bi_checksum = replicate 64 97, bi_data = [137, 80, 78, 71]\<rparr>"])
      (simp_all add: picture_form_def)
  have "\<exists>b w1. create_banner picture_form img ?w = (Inr b, w1) \<and> faults w1 = []"
    by (simp add: create_banner_def t saveBannerImage_def readAdminBanner_def bindE_def run_simps lift_err_run insert_banner_def put_picture_def
        img t2 c Let_def empty_db_def find_row_def)
  then obtain b w1 where "create_banner picture_form img ?w = (Inr b, w1)" "faults w1 = []" by blast
  then have "in_tx Banner_Db (create_banner picture_form img) ?w = (Inr b, w1)"
    by (simp add: in_tx_run_nil control_run_nil)
  with \<open>faults w1 = []\<close> show ?thesis
    by (intro exI [of _ b] exI [of _ "w1\<lparr>noted := (u ''banner'', itoa (ab_id b), [])\<rparr>"])
      (simp add: AdminBannersHandler_def bindE_def run_simps lift_err_run picture_read img)
qed

lemma no_banners: "banners_sound detect digest (db (quiet empty_db now))"
  by (simp add: banners_sound_def empty_db_def unique_key_def)

theorem upload_is_served_witness:
  "\<exists>b w1. AdminBannersHandler png sixty_four (\<lambda>_. None) POST [] picture_request (quiet empty_db (At (Date 2025 10 5) (hm 8 0))) =
     (Inr (Banner_Saved b), w1) \<and> ab_title b = Some (u ''Open day'') \<and>
     fst (AdminBannerImageHandler (u ''GET'') (itoa (ab_id b)) [] w1) =
       Inr \<lparr>pr_etag = [34] @ replicate 64 97 @ [34], pr_cache = AdminBannerImageCache, pr_body = Some (u ''image/png'', [137, 80, 78, 71])\<rparr> \<and>
     fst (MobileBannerImageHandler (u ''GET'') (itoa (ab_id b)) [] w1) = Inl (Refuse 404 (u ''Banner image not found''))"
proof -
  obtain b w1 where run: "AdminBannersHandler png sixty_four (\<lambda>_. None) POST [] picture_request (quiet empty_db (At (Date 2025 10 5) (hm 8 0))) =
     (Inr (Banner_Saved b), w1)" and w1: "faults w1 = []"
    using picture_saved by blast
  have i: "1 \<le> serial (quiet empty_db (At (Date 2025 10 5) (hm 8 0))) Banners" "serial (quiet empty_db (At (Date 2025 10 5) (hm 8 0))) Banners < 2 ^ 31"
    by simp_all
  from upload_is_served [OF no_banners i run w1] run picture_read show ?thesis
    by (auto simp: picture_form_def flat_def picture_answer_def sixty_four_def)
qed

theorem pictures_stay_sound_witness:
  "banners_sound png sixty_four (db (banner_requests png sixty_four (\<lambda>_. None) [(POST, [], picture_request), (DELETE, u ''1'', picture_request)]
     (quiet empty_db (At (Date 2025 10 5) (hm 8 0)))))"
  by (rule pictures_stay_sound) (rule no_banners)

end
