(* ===== verification/Schedule.thy ===== *)
theory Schedule
  imports Transactions
begin

text \<open>
  The weekly timetable: reading and replacing a class's periods (\<open>internal/handlers/admin.go\<close>), what a parent's
  app shows of it (\<open>mobile.go\<close>) and the key of a subject's icon (\<open>subject_key.go\<close>). The collation of day names
  PostgreSQL sorts by is \<open>coll\<close>, \<open>unicode.ToLower\<close> is \<open>low\<close> and \<open>unicode.IsLetter\<close> is \<open>letter\<close>. The names of
  the days have no letter to which a character outside ASCII is lowered, so \<open>asciiLower\<close> decides them as
  \<open>strings.ToLower\<close> and SQL's \<open>lower\<close> do.
\<close>

section \<open>Days and periods\<close>

record SchedulePeriod =
  sd_day :: str
  sd_number :: int
  sd_subject :: str
  sd_teacher :: "str option"

definition MinDayPeriods :: int where "MinDayPeriods = 5"

definition MaxPeriodNumber :: int where "MaxPeriodNumber = 6"

definition MaxSchedulePeriods :: int where "MaxSchedulePeriods = 5 * MaxPeriodNumber"

definition schoolWeek :: "str list" where
  "schoolWeek =
    [[1575, 1604, 1571, 1581, 1583],
     [1575, 1604, 1573, 1579, 1606, 1610, 1606],
     [1575, 1604, 1579, 1604, 1575, 1579, 1575, 1569],
     [1575, 1604, 1571, 1585, 1576, 1593, 1575, 1569],
     [1575, 1604, 1582, 1605, 1610, 1587]]"

definition dayPeriodsProblem :: "int list \<Rightarrow> str" where
  \<comment> \<open>nothing when the numbers are exactly 1 to 5 or 1 to 6 in any order\<close>
  "dayPeriodsProblem numbers =
     (let sorted = sort numbers; n = int (length sorted) in
      if MinDayPeriods \<le> n \<and> n \<le> MaxPeriodNumber \<and> sorted = [1..n] then []
      else u ''periods '' @ join_with (u '', '') (map itoa sorted))"

definition dayPeriodsRule :: str where
  "dayPeriodsRule = u ''a school day must have exactly 5 or 6 periods, numbered 1 to 5 or 1 to 6''"

definition hamzaFold :: "str \<Rightarrow> str" where
  "hamzaFold s = map (\<lambda>c. if c = 1571 \<or> c = 1573 \<or> c = 1570 then 1575 else c) s"

definition schoolDays :: "(str \<times> str) list" where
  "schoolDays =
    [(u ''sunday'', [1575, 1604, 1571, 1581, 1583]),
     ([1575, 1604, 1575, 1581, 1583], [1575, 1604, 1571, 1581, 1583]),
     (u ''monday'', [1575, 1604, 1573, 1579, 1606, 1610, 1606]),
     ([1575, 1604, 1575, 1579, 1606, 1610, 1606], [1575, 1604, 1573, 1579, 1606, 1610, 1606]),
     (u ''tuesday'', [1575, 1604, 1579, 1604, 1575, 1579, 1575, 1569]),
     ([1575, 1604, 1579, 1604, 1575, 1579, 1575, 1569], [1575, 1604, 1579, 1604, 1575, 1579, 1575, 1569]),
     (u ''wednesday'', [1575, 1604, 1571, 1585, 1576, 1593, 1575, 1569]),
     ([1575, 1604, 1575, 1585, 1576, 1593, 1575, 1569], [1575, 1604, 1571, 1585, 1576, 1593, 1575, 1569]),
     (u ''thursday'', [1575, 1604, 1582, 1605, 1610, 1587]),
     ([1575, 1604, 1582, 1605, 1610, 1587], [1575, 1604, 1582, 1605, 1610, 1587])]"

definition canonicalSchoolDay :: "str \<Rightarrow> str option" where
  "canonicalSchoolDay day = map_of schoolDays (hamzaFold (asciiLower (TrimSpace day)))"

definition scheduleClassProblem :: "str \<Rightarrow> str \<Rightarrow> str" where
  "scheduleClassProblem grade section =
     (if grade = [] then u ''grade is required''
      else if section = [] then u ''section is required''
      else firstProblem [tooLong (u ''grade'') grade 50, tooLong (u ''section'') section 50])"

section \<open>Checking a request\<close>

record ScheduleRequest =
  sr_grade :: str
  sr_section :: str
  sr_periods :: "SchedulePeriod list option"

definition period_field :: "nat \<Rightarrow> string \<Rightarrow> str" where
  "period_field i name = u ''periods['' @ itoa (int i) @ u ''].'' @ u name"

definition check_period :: "nat \<Rightarrow> (str \<times> int) list \<Rightarrow> SchedulePeriod \<Rightarrow> str + SchedulePeriod" where
  "check_period i seen p =
     (case canonicalSchoolDay (sd_day p) of
        None \<Rightarrow> Inl (period_field i ''day_of_week'' @ u '' must be a school day, Sunday to Thursday (Arabic or English)'')
      | Some day \<Rightarrow>
          if sd_number p < 1 \<or> MaxPeriodNumber < sd_number p
          then Inl (period_field i ''period_number'' @ u '' must be from 1 to '' @ itoa MaxPeriodNumber)
          else let subject = TrimSpace (sd_subject p); teacher = (case sd_teacher p of None \<Rightarrow> [] | Some t \<Rightarrow> TrimSpace t);
              msg = firstProblem [tooLong (period_field i ''subject_name'') subject 100, tooLong (period_field i ''teacher_name'') teacher 100] in
            if subject = [] then Inl (period_field i ''subject_name'' @ u '' is required'')
            else if msg \<noteq> [] then Inl msg
            else if (day, sd_number p) \<in> set seen
            then Inl (u ''periods contain day_of_week '' @ day @ u '' with period_number '' @ itoa (sd_number p) @ u '' more than once'')
            else Inr \<lparr>sd_day = day, sd_number = sd_number p, sd_subject = subject, sd_teacher = optional_text teacher\<rparr>)"

fun check_periods :: "nat \<Rightarrow> (str \<times> int) list \<Rightarrow> SchedulePeriod list \<Rightarrow> str + SchedulePeriod list" where
  "check_periods i seen [] = Inr []"
| "check_periods i seen (p # ps) =
     (case check_period i seen p of
        Inl e \<Rightarrow> Inl e
      | Inr q \<Rightarrow> (case check_periods (i + 1) ((sd_day q, sd_number q) # seen) ps of Inl e \<Rightarrow> Inl e | Inr qs \<Rightarrow> Inr (q # qs)))"

definition numbers_on :: "str \<Rightarrow> SchedulePeriod list \<Rightarrow> int list" where
  "numbers_on day ps = map sd_number (filter (\<lambda>p. sd_day p = day) ps)"

fun check_days :: "SchedulePeriod list \<Rightarrow> str list \<Rightarrow> str" where
  \<comment> \<open>every school day that has periods, in the order of the week\<close>
  "check_days ps [] = []"
| "check_days ps (day # ds) =
     (let got = numbers_on day ps; problem = dayPeriodsProblem got in
      if got \<noteq> [] \<and> problem \<noteq> []
      then period_field (length (takeWhile (\<lambda>p. sd_day p \<noteq> day) ps)) ''day_of_week '' @ day @ u '' has '' @ problem @ u ''; '' @ dayPeriodsRule
      else check_days ps ds)"

definition validateScheduleRequest :: "ScheduleRequest \<Rightarrow> str + str \<times> str \<times> SchedulePeriod list" where
  \<comment> \<open>the first problem, or the class and its periods in canonical form\<close>
  "validateScheduleRequest req =
     (let grade = TrimSpace (sr_grade req); section = TrimSpace (sr_section req); msg = scheduleClassProblem grade section in
      if msg \<noteq> [] then Inl msg
      else case sr_periods req of
        None \<Rightarrow> Inl (u ''periods is required; send an empty array to clear the schedule'')
      | Some ps \<Rightarrow>
          if MaxSchedulePeriods < int (length ps)
          then Inl (u ''periods must contain at most '' @ itoa MaxSchedulePeriods @ u '' entries'')
          else case check_periods 0 [] ps of
            Inl e \<Rightarrow> Inl e
          | Inr qs \<Rightarrow> let problem = check_days qs schoolWeek in if problem \<noteq> [] then Inl problem else Inr (grade, section, qs))"

section \<open>The key of a subject\<close>

definition SubjectKeys :: "str list" where
  "SubjectKeys = map u [''math'', ''pe'', ''arabic'', ''english'', ''islamic'', ''computer'', ''science'', ''social'', ''art'', ''music'', ''other'']"

definition subjectKeywords :: "(str \<times> str list) list" where
  "subjectKeywords =
    [(u ''math'', [[1585, 1610, 1575, 1590, 1610, 1575, 1578], [1581, 1587, 1575, 1576], u ''math'', u ''maths'', u ''mathematics'']),
     (u ''pe'', [[1585, 1610, 1575, 1590, 1607], [1585, 1610, 1575, 1590, 1610, 1607], [1576, 1583, 1606, 1610, 1607], u ''physical'', u ''sport'', u ''sports'']),
     (u ''arabic'', [[1593, 1585, 1576, 1610], [1602, 1585, 1575, 1569, 1607], u ''arabic'']),
     (u ''english'', [[1575, 1606, 1580, 1604, 1610, 1586], [1575, 1606, 1603, 1604, 1610, 1586], u ''english'']),
     (u ''islamic'', [[1575, 1587, 1604, 1575, 1605], [1602, 1585, 1575, 1606], [1583, 1610, 1606, 1610, 1607], u ''islamic'', u ''quran'']),
     (u ''computer'', [[1581, 1575, 1587, 1608, 1576], [1581, 1575, 1587, 1576], [1603, 1605, 1576, 1610, 1608, 1578, 1585], [1605, 1593, 1604, 1608, 1605, 1575, 1578, 1610, 1607], u ''computer'', u ''computers'', u ''ict'']),
     (u ''science'', [[1593, 1604, 1608, 1605], u ''science'', u ''sciences'']),
     (u ''social'', [[1575, 1580, 1578, 1605, 1575, 1593], [1580, 1594, 1585, 1575, 1601], [1578, 1575, 1585, 1610, 1582], [1608, 1591, 1606, 1610, 1607], u ''social'', u ''history'', u ''geography'']),
     (u ''art'', [[1601, 1606, 1610], [1585, 1587, 1605], u ''art'', u ''arts'', u ''drawing'']),
     (u ''music'', [[1605, 1608, 1587, 1610, 1602], [1606, 1588, 1610, 1583], [1575, 1606, 1575, 1588, 1610, 1583], u ''music''])]"

definition arabicFold :: "str \<Rightarrow> str" where
  "arabicFold s = map (\<lambda>c. if c \<in> {1571, 1573, 1570, 1649} then 1575 else if c = 1609 \<or> c = 1740 then 1610
     else if c = 1705 then 1603 else if c = 1577 then 1607 else c) s"

definition diacritic :: "nat \<Rightarrow> bool" where
  "diacritic c \<longleftrightarrow> (1611 \<le> c \<and> c \<le> 1618) \<or> c = 1648 \<or> c = 1600"

definition normalizeArabic :: "(nat \<Rightarrow> nat) \<Rightarrow> str \<Rightarrow> str" where
  "normalizeArabic low s = join_with (u '' '') (Fields (arabicFold (map low (filter (\<lambda>c. \<not> diacritic c) s))))"

fun FieldsFunc :: "(nat \<Rightarrow> bool) \<Rightarrow> str \<Rightarrow> str list" where
  \<comment> \<open>\<open>strings.FieldsFunc\<close>: the longest runs of characters that are no separators\<close>
  "FieldsFunc sep [] = []"
| "FieldsFunc sep (c # s) =
     (if sep c then FieldsFunc sep s
      else case FieldsFunc sep s of
        [] \<Rightarrow> [[c]]
      | w # ws \<Rightarrow> (case s of [] \<Rightarrow> [[c]] | d # _ \<Rightarrow> if sep d then [c] # w # ws else (c # w) # ws))"

definition keyword_found :: "str \<Rightarrow> str list \<Rightarrow> str \<Rightarrow> bool" where
  \<comment> \<open>a Latin keyword is a word of the name, an Arabic one may be anywhere in it\<close>
  "keyword_found name words w = (if hd w < 128 then w \<in> set words else contains name w)"

definition SubjectKey :: "(nat \<Rightarrow> nat) \<Rightarrow> (nat \<Rightarrow> bool) \<Rightarrow> str \<Rightarrow> str" where
  "SubjectKey low letter subject =
     (let name = normalizeArabic low subject; words = FieldsFunc (\<lambda>c. \<not> letter c) name in
      case find (\<lambda>(k, ws). list_ex (keyword_found name words) ws) subjectKeywords of
        None \<Rightarrow> u ''other'' | Some (k, ws) \<Rightarrow> k)"

section \<open>The stored timetable\<close>

definition weekday_names :: "(str \<times> nat) list" where
  "weekday_names =
    [(u ''sunday'', 1),
     ([1575, 1604, 1575, 1581, 1583], 1),
     (u ''monday'', 2),
     ([1575, 1604, 1575, 1579, 1606, 1610, 1606], 2),
     (u ''tuesday'', 3),
     ([1575, 1604, 1579, 1604, 1575, 1579, 1575, 1569], 3),
     (u ''wednesday'', 4),
     ([1575, 1604, 1575, 1585, 1576, 1593, 1575, 1569], 4),
     (u ''thursday'', 5),
     ([1575, 1604, 1582, 1605, 1610, 1587], 5),
     (u ''friday'', 6),
     ([1575, 1604, 1580, 1605, 1593, 1577], 6),
     (u ''saturday'', 7),
     ([1575, 1604, 1587, 1576, 1578], 7)]"

definition weekday_rank :: "str \<Rightarrow> nat" where
  \<comment> \<open>\<open>weekdayRankSQL\<close>\<close>
  "weekday_rank day = (case map_of weekday_names (hamzaFold (asciiLower (btrim day))) of None \<Rightarrow> 8 | Some r \<Rightarrow> r)"

definition period_order :: "(str \<Rightarrow> 'k :: linorder) \<Rightarrow> period \<Rightarrow> nat \<times> 'k \<times> int" where
  "period_order coll w = (weekday_rank (w_day w), coll (if weekday_rank (w_day w) = 8 then w_day w else []), w_number w)"

definition of_class :: "str \<Rightarrow> str \<Rightarrow> period \<Rightarrow> bool" where
  "of_class grade section w \<longleftrightarrow> w_grade w = grade \<and> w_section w = section"

definition stored_period :: "period \<Rightarrow> SchedulePeriod" where
  "stored_period w = \<lparr>sd_day = w_day w, sd_number = w_number w, sd_subject = w_subject w, sd_teacher = w_teacher w\<rparr>"

definition class_schedule :: "(str \<Rightarrow> 'k :: linorder) \<Rightarrow> str \<Rightarrow> str \<Rightarrow> db \<Rightarrow> SchedulePeriod list" where
  "class_schedule coll grade section d =
     map stored_period (sort_key (period_order coll) (filter (of_class grade section) (weekly_schedules d)))"

definition readSchedule :: "(str \<Rightarrow> 'k :: linorder) \<Rightarrow> str \<Rightarrow> str \<Rightarrow> (err, SchedulePeriod list) tx" where
  "readSchedule coll grade section = with_text [grade, section] (query (class_schedule coll grade section))"

definition respondSchedule :: "(nat \<Rightarrow> nat) \<Rightarrow> (nat \<Rightarrow> bool) \<Rightarrow> SchedulePeriod list \<Rightarrow> (SchedulePeriod \<times> str) list" where
  \<comment> \<open>each period with its \<open>subject_key\<close>\<close>
  "respondSchedule low letter ps = map (\<lambda>p. (p, SubjectKey low letter (sd_subject p))) ps"

definition lockSchedules :: "(err, unit) tx" where
  \<comment> \<open>a lock taken until the transaction ends\<close>
  "lockSchedules = control"

definition period_row :: "str \<Rightarrow> str \<Rightarrow> SchedulePeriod \<Rightarrow> period" where
  "period_row grade section p =
     \<lparr>w_grade = grade, w_section = section, w_day = sd_day p, w_number = sd_number p, w_subject = sd_subject p, w_teacher = sd_teacher p\<rparr>"

abbreviation slot :: "period \<Rightarrow> str \<times> str \<times> str \<times> int" where
  "slot w \<equiv> (w_grade w, w_section w, w_day w, w_number w)"

definition insert_period :: "str \<Rightarrow> str \<Rightarrow> SchedulePeriod \<Rightarrow> db \<Rightarrow> err + unit \<times> db" where
  "insert_period grade section p d =
     (case insert_unique slot (period_row grade section p) (weekly_schedules d) of
        None \<Rightarrow> Inl (unique_violation ''weekly_schedules_grade_section_day_of_week_period_number_key'')
      | Some rows \<Rightarrow> Inr ((), d\<lparr>weekly_schedules := rows\<rparr>))"

definition clear_class :: "str \<Rightarrow> str \<Rightarrow> db \<Rightarrow> db" where
  "clear_class grade section d = d\<lparr>weekly_schedules := del_where (of_class grade section) (weekly_schedules d)\<rparr>"

fun insert_periods :: "str \<Rightarrow> str \<Rightarrow> SchedulePeriod list \<Rightarrow> (err, unit) tx" where
  "insert_periods grade section [] = ret ()"
| "insert_periods grade section (p # ps) =
     bindE (with_text ([grade, section, sd_day p, sd_subject p] @ opt_list (sd_teacher p)) (stmt (insert_period grade section p))) (\<lambda>_.
     insert_periods grade section ps)"

definition replaceClassSchedule :: "str \<Rightarrow> str \<Rightarrow> SchedulePeriod list \<Rightarrow> (err, unit) tx" where
  "replaceClassSchedule grade section ps =
     bindE (with_text [grade, section] (exec (clear_class grade section))) (\<lambda>_. insert_periods grade section ps)"

definition save_schedule :: "(str \<Rightarrow> 'k :: linorder) \<Rightarrow> str \<Rightarrow> str \<Rightarrow> SchedulePeriod list \<Rightarrow> (err, SchedulePeriod list) tx" where
  "save_schedule coll grade section ps =
     bindE lockSchedules (\<lambda>_.
     bindE (replaceClassSchedule grade section ps) (\<lambda>_.
     readSchedule coll grade section))"

definition AdminScheduleHandler ::
    "(str \<Rightarrow> 'k :: linorder) \<Rightarrow> (nat \<Rightarrow> nat) \<Rightarrow> (nat \<Rightarrow> bool) \<Rightarrow> meth \<Rightarrow> str \<Rightarrow> str \<Rightarrow> ScheduleRequest body \<Rightarrow>
     (refusal, str \<times> str \<times> (SchedulePeriod \<times> str) list) tx" where
  "AdminScheduleHandler coll low letter verb gradeParam sectionParam b =
     (case verb of
        GET \<Rightarrow>
          let grade = TrimSpace gradeParam; section = TrimSpace sectionParam; msg = scheduleClassProblem grade section in
          bindE (guard (msg = []) (Refuse 400 msg)) (\<lambda>_.
          bindE (lift_err (internal_error ''Database error'') (readSchedule coll grade section)) (\<lambda>ps.
          ret (grade, section, respondSchedule low letter ps)))
      | PUT \<Rightarrow>
          bindE (of_sum (decodeJSONBody b (u ''Invalid request body''))) (\<lambda>req.
          bindE (lift_err (Refuse 400) (of_sum (validateScheduleRequest req))) (\<lambda>(grade, section, ps).
          bindE (NoteActivity (u ''class'') (grade @ u ''/'' @ section) (u ''periods='' @ itoa (int (length ps)))) (\<lambda>_.
          bindE (lift_err (internal_error ''Failed to save schedule'') (in_tx id (save_schedule coll grade section ps))) (\<lambda>saved.
          ret (grade, section, respondSchedule low letter saved)))))
      | _ \<Rightarrow> fail method_not_allowed)"

section \<open>The parent's view\<close>

record MobileSchedulePayload =
  ms_student :: int
  ms_name :: str
  ms_grade :: str
  ms_section :: str
  ms_day :: str
  ms_number :: int
  ms_subject :: str
  ms_teacher :: str
  ms_key :: str

definition mobile_period :: "(nat \<Rightarrow> nat) \<Rightarrow> (nat \<Rightarrow> bool) \<Rightarrow> student \<times> period \<Rightarrow> MobileSchedulePayload" where
  "mobile_period low letter = (\<lambda>(s, w).
     \<lparr>ms_student = s_id s, ms_name = s_name s, ms_grade = w_grade w, ms_section = w_section w, ms_day = w_day w,
      ms_number = w_number w, ms_subject = w_subject w, ms_teacher = (case w_teacher w of None \<Rightarrow> [] | Some t \<Rightarrow> t),
      ms_key = SubjectKey low letter (w_subject w)\<rparr>)"

definition takes :: "student \<Rightarrow> period \<Rightarrow> bool" where
  "takes s w \<longleftrightarrow> s_grade s = Some (w_grade w) \<and> s_section s = Some (w_section w)"

definition mobile_schedule :: "(str \<Rightarrow> 'k :: linorder) \<Rightarrow> (period \<Rightarrow> nat) \<Rightarrow> int \<Rightarrow> db \<Rightarrow> (student \<times> period) list" where
  \<comment> \<open>\<open>tie\<close> is the order of the rows that the query's \<open>ORDER BY\<close> leaves open\<close>
  "mobile_schedule coll tie pid d =
     sort_key (\<lambda>(s, w). (s_id s, period_order coll w, tie w))
       (filter (\<lambda>(s, w). takes s w \<and> s_parent s = Some pid \<and> s_active s) (List.product (students d) (weekly_schedules d)))"

definition MobileScheduleHandler ::
    "(str \<Rightarrow> 'k :: linorder) \<Rightarrow> (period \<Rightarrow> nat) \<Rightarrow> (nat \<Rightarrow> nat) \<Rightarrow> (nat \<Rightarrow> bool) \<Rightarrow> meth \<Rightarrow> int option \<Rightarrow>
     (refusal, MobileSchedulePayload list) tx" where
  "MobileScheduleHandler coll tie low letter verb parentID =
     bindE (guard (verb = GET) method_not_allowed) (\<lambda>_.
     bindE (parent_of_context parentID) (\<lambda>pid.
     bindE (lift_err (internal_error ''Database error'') (query (mobile_schedule coll tie pid))) (\<lambda>rows.
     ret (map (mobile_period low letter) rows))))"

section \<open>A complete day\<close>

definition whole_day :: "int list \<Rightarrow> bool" where
  "whole_day ns \<longleftrightarrow> ns = [] \<or> sort ns = [1..5] \<or> sort ns = [1..6]"

definition whole_days :: "SchedulePeriod list \<Rightarrow> bool" where
  \<comment> \<open>what a class's timetable looks like: school days only, each with exactly periods 1 to 5 or 1 to 6\<close>
  "whole_days ps \<longleftrightarrow> distinct (map (\<lambda>p. (sd_day p, sd_number p)) ps) \<and> (\<forall>p \<in> set ps. sd_day p \<in> set schoolWeek) \<and>
     (\<forall>day \<in> set schoolWeek. whole_day (numbers_on day ps))"

definition dayIndex :: "str \<Rightarrow> nat" where
  "dayIndex day = length (takeWhile (\<lambda>d. d \<noteq> day) schoolWeek)"

lemma dayPeriodsProblem_ok: "dayPeriodsProblem ns = [] \<longleftrightarrow> sort ns = [1..5] \<or> sort ns = [1..6]"
proof -
  have n: "dayPeriodsProblem ns = [] \<longleftrightarrow> 5 \<le> int (length (sort ns)) \<and> int (length (sort ns)) \<le> 6 \<and> sort ns = [1..int (length (sort ns))]"
    unfolding dayPeriodsProblem_def Let_def MinDayPeriods_def MaxPeriodNumber_def by (simp add: u_def)
  show ?thesis
  proof
    assume "dayPeriodsProblem ns = []"
    then have "int (length (sort ns)) = 5 \<or> int (length (sort ns)) = 6" "sort ns = [1..int (length (sort ns))]" using n by auto
    then show "sort ns = [1..5] \<or> sort ns = [1..6]" by metis
  next
    assume "sort ns = [1..5] \<or> sort ns = [1..6]"
    then obtain k where k: "sort ns = [1..k]" "k = 5 \<or> k = 6" by blast
    then have "int (length (sort ns)) = k" by auto
    with k show "dayPeriodsProblem ns = []" unfolding n by auto
  qed
qed

lemma canonical_day: "canonicalSchoolDay day = Some d \<Longrightarrow> d \<in> set schoolWeek"
proof -
  have "list_all (\<lambda>(a, d). d \<in> set schoolWeek) schoolDays" by (simp add: schoolDays_def schoolWeek_def)
  then show "canonicalSchoolDay day = Some d \<Longrightarrow> d \<in> set schoolWeek"
    by (auto simp: canonicalSchoolDay_def list_all_iff dest!: map_of_SomeD)
qed

lemma dayIndex_week: "map dayIndex schoolWeek = [0, 1, 2, 3, 4]"
  by (simp add: schoolWeek_def dayIndex_def)

lemma rank_of_day: "day \<in> set schoolWeek \<Longrightarrow> weekday_rank day = dayIndex day + 1"
proof -
  have "list_all (\<lambda>d. weekday_rank d = dayIndex d + 1) schoolWeek"
    by (simp add: schoolWeek_def weekday_rank_def weekday_names_def hamzaFold_def asciiLower_def btrim_def trim_by_def dayIndex_def u_def)
  then show "day \<in> set schoolWeek \<Longrightarrow> weekday_rank day = dayIndex day + 1" by (simp add: list_all_iff)
qed

lemma dayIndex_inj: "inj_on dayIndex (set schoolWeek)"
proof -
  have "distinct (map dayIndex schoolWeek)" unfolding dayIndex_week by simp
  then show ?thesis by (simp only: distinct_map)
qed

lemma dayIndex_less: "day \<in> set schoolWeek \<Longrightarrow> dayIndex day < 5"
proof -
  have "list_all (\<lambda>d. dayIndex d < 5) schoolWeek"
    by (simp add: schoolWeek_def dayIndex_def)
  then show "day \<in> set schoolWeek \<Longrightarrow> dayIndex day < 5" by (simp add: list_all_iff)
qed

section \<open>A request that passes the checks\<close>

definition period_sound :: "SchedulePeriod \<Rightarrow> bool" where
  "period_sound p \<longleftrightarrow> sd_day p \<in> set schoolWeek \<and> 1 \<le> sd_number p \<and> sd_number p \<le> MaxPeriodNumber \<and>
     sd_subject p \<noteq> [] \<and> TrimSpace (sd_subject p) = sd_subject p \<and>
     (\<forall>t. sd_teacher p = Some t \<longrightarrow> t \<noteq> [] \<and> TrimSpace t = t)"

lemma check_period_ok:
  "check_period i seen p = Inr q \<Longrightarrow> period_sound q \<and> (sd_day q, sd_number q) \<notin> set seen"
  by (auto simp: check_period_def Let_def period_sound_def optional_text_def TrimSpace_idem dest: canonical_day
      split: option.splits if_splits)

lemma check_periods_ok:
  "check_periods i seen ps = Inr qs \<Longrightarrow> list_all period_sound qs \<and> distinct (map (\<lambda>p. (sd_day p, sd_number p)) qs) \<and>
     set (map (\<lambda>p. (sd_day p, sd_number p)) qs) \<inter> set seen = {} \<and> length qs = length ps"
proof (induction i seen ps arbitrary: qs rule: check_periods.induct)
  case (2 i seen p ps)
  then obtain q qs' where q: "check_period i seen p = Inr q" "check_periods (i + 1) ((sd_day q, sd_number q) # seen) ps = Inr qs'"
    "qs = q # qs'" by (auto split: sum.splits)
  from 2(1) [OF q(1,2)] check_period_ok [OF q(1)] q(3) show ?case by (auto simp: image_iff)
qed simp

lemma check_days_ok: "check_days ps ds = [] \<Longrightarrow> day \<in> set ds \<Longrightarrow> whole_day (numbers_on day ps)"
  by (induction ds) (auto simp: Let_def whole_day_def dayPeriodsProblem_ok period_field_def u_def split: if_splits)

lemma validated:
  assumes "validateScheduleRequest req = Inr (grade, section, ps)"
  shows "grade = TrimSpace (sr_grade req)" "section = TrimSpace (sr_section req)" "scheduleClassProblem grade section = []"
    "whole_days ps" "list_all period_sound ps"
proof -
  from assms obtain rs where r: "check_periods 0 [] rs = Inr ps" "check_days ps schoolWeek = []"
    "grade = TrimSpace (sr_grade req)" "section = TrimSpace (sr_section req)" "scheduleClassProblem grade section = []"
    by (auto simp: validateScheduleRequest_def Let_def split: if_splits option.splits sum.splits)
  from check_periods_ok [OF r(1)] check_days_ok [OF r(2)] show "whole_days ps" "list_all period_sound ps"
    by (auto simp: whole_days_def list_all_iff period_sound_def)
qed (use assms in \<open>auto simp: validateScheduleRequest_def Let_def split: if_splits option.splits sum.splits\<close>)

section \<open>Replacing a class\<close>

definition with_class :: "str \<Rightarrow> str \<Rightarrow> SchedulePeriod list \<Rightarrow> db \<Rightarrow> db" where
  \<comment> \<open>the database with exactly these periods for the class\<close>
  "with_class grade section ps d =
     d\<lparr>weekly_schedules := del_where (of_class grade section) (weekly_schedules d) @ map (period_row grade section) ps\<rparr>"

lemma insert_periods_ok:
  "insert_periods grade section ps w = (Inr x, w') \<Longrightarrow>
   db w' = (db w)\<lparr>weekly_schedules := weekly_schedules (db w) @ map (period_row grade section) ps\<rparr>"
proof (induction ps arbitrary: w)
  case (Cons p ps)
  then obtain w1 y where s: "stmt (insert_period grade section p) w = (Inr y, w1)" "insert_periods grade section ps w1 = (Inr x, w')"
    by (auto simp: bindE_ok dest!: with_text_ok)
  from s(1) have "db w1 = (db w)\<lparr>weekly_schedules := weekly_schedules (db w) @ [period_row grade section p]\<rparr>"
    by (auto simp: insert_period_def elim!: stmt_ok split: option.splits)
  with Cons.IH [OF s(2)] show ?case by simp
qed (simp add: simple_ok)

lemma replaced_ok: "replaceClassSchedule grade section ps w = (Inr x, w') \<Longrightarrow> db w' = with_class grade section ps (db w)"
  by (auto simp: replaceClassSchedule_def bindE_ok with_class_def clear_class_def dest!: with_text_ok exec_ok(1) insert_periods_ok)

lemma insert_periods_run:
  assumes "faults w = []" "distinct (map (\<lambda>p. (sd_day p, sd_number p)) ps)"
    "\<And>p. p \<in> set ps \<Longrightarrow> plain_texts ([grade, section, sd_day p, sd_subject p] @ opt_list (sd_teacher p))"
    "\<And>p. p \<in> set ps \<Longrightarrow> slot (period_row grade section p) \<notin> slot ` set (weekly_schedules (db w))"
  shows "insert_periods grade section ps w =
    (Inr (), w\<lparr>db := (db w)\<lparr>weekly_schedules := weekly_schedules (db w) @ map (period_row grade section) ps\<rparr>\<rparr>)"
  using assms
proof (induction ps arbitrary: w)
  case (Cons p ps)
  let ?d = "(db w)\<lparr>weekly_schedules := weekly_schedules (db w) @ [period_row grade section p]\<rparr>"
  have s: "with_text ([grade, section, sd_day p, sd_subject p] @ opt_list (sd_teacher p)) (stmt (insert_period grade section p)) w =
      (Inr (), w\<lparr>db := ?d\<rparr>)"
    using Cons.prems(3,4) [of p] Cons.prems(1)
    by (simp only: with_plain_texts list.set_intros) (simp add: run_simps insert_period_def insert_unique_def)
  have "insert_periods grade section ps (w\<lparr>db := ?d\<rparr>) = (Inr (), w\<lparr>db := ?d\<lparr>weekly_schedules := weekly_schedules ?d @ map (period_row grade section) ps\<rparr>\<rparr>)"
  proof (subst Cons.IH)
    show "slot (period_row grade section q) \<notin> slot ` set (weekly_schedules (db (w\<lparr>db := ?d\<rparr>)))" if "q \<in> set ps" for q
      using Cons.prems(2) Cons.prems(4) [of q] that by (auto simp: period_row_def image_iff)
  qed (use Cons.prems in \<open>simp_all\<close>)
  then show ?case using s by (simp add: bindE_def)
qed (simp add: run_simps)

lemma replaced_run:
  assumes w: "faults w = []" and whole: "whole_days ps" and plain: "plain_texts [grade, section]"
      "\<And>p. p \<in> set ps \<Longrightarrow> plain_texts ([grade, section, sd_day p, sd_subject p] @ opt_list (sd_teacher p))"
  shows "replaceClassSchedule grade section ps w = (Inr (), w\<lparr>db := with_class grade section ps (db w)\<rparr>)"
proof -
  let ?c = "w\<lparr>db := clear_class grade section (db w)\<rparr>"
  have "insert_periods grade section ps ?c = (Inr (), w\<lparr>db := with_class grade section ps (db w)\<rparr>)"
  proof (subst insert_periods_run)
    show "slot (period_row grade section p) \<notin> slot ` set (weekly_schedules (db ?c))" for p
      by (auto simp: clear_class_def del_where_def of_class_def period_row_def)
    show "distinct (map (\<lambda>p. (sd_day p, sd_number p)) ps)" using whole by (simp add: whole_days_def)
  qed (use w plain(2) in \<open>auto simp: with_class_def clear_class_def\<close>)
  then show ?thesis using w plain(1) by (simp add: replaceClassSchedule_def with_plain_texts bindE_def run_simps)
qed

lemma saved_run:
  assumes w: "faults w = []" and v: "validateScheduleRequest req = Inr (grade, section, ps)"
    and plain: "plain_texts [grade, section]"
      "\<And>p. p \<in> set ps \<Longrightarrow> plain_texts ([grade, section, sd_day p, sd_subject p] @ opt_list (sd_teacher p))"
  shows "AdminScheduleHandler coll low letter PUT g s (Body req) w =
    (Inr (grade, section, respondSchedule low letter (class_schedule coll grade section (with_class grade section ps (db w)))),
     w\<lparr>noted := (u ''class'', grade @ u ''/'' @ section, u ''periods='' @ itoa (int (length ps))), db := with_class grade section ps (db w)\<rparr>)"
proof -
  let ?w = "w\<lparr>noted := (u ''class'', grade @ u ''/'' @ section, u ''periods='' @ itoa (int (length ps)))\<rparr>"
  have r: "replaceClassSchedule grade section ps ?w = (Inr (), ?w\<lparr>db := with_class grade section ps (db w)\<rparr>)"
    using replaced_run [OF _ validated(4) [OF v] plain, of ?w] w by simp
  have "save_schedule coll grade section ps ?w =
      (Inr (class_schedule coll grade section (with_class grade section ps (db w))), ?w\<lparr>db := with_class grade section ps (db w)\<rparr>)"
    using w plain(1) r by (simp add: save_schedule_def lockSchedules_def readSchedule_def with_plain_texts bindE_def run_simps)
  then have "in_tx id (save_schedule coll grade section ps) ?w =
      (Inr (class_schedule coll grade section (with_class grade section ps (db w))), ?w\<lparr>db := with_class grade section ps (db w)\<rparr>)"
    using w by (simp add: in_tx_run_nil control_run_nil)
  then show ?thesis
    using w v by (simp add: AdminScheduleHandler_def decodeJSONBody_def bindE_def run_simps lift_err_run)
qed

lemma class_rows: "filter (of_class grade section) (weekly_schedules (with_class grade section ps d)) = map (period_row grade section) ps"
proof -
  have "filter (of_class grade section) (del_where (of_class grade section) rs) = []" for rs
    by (auto simp: del_where_def filter_empty_conv)
  moreover have "filter (of_class grade section) (map (period_row grade section) ps) = map (period_row grade section) ps"
    by (auto simp: filter_id_conv of_class_def period_row_def)
  ultimately show ?thesis by (simp add: with_class_def)
qed

lemma other_class_rows:
  assumes "(g, s) \<noteq> (grade, section)"
  shows "filter (of_class g s) (weekly_schedules (with_class grade section ps d)) = filter (of_class g s) (weekly_schedules d)"
proof -
  have "filter (of_class g s) (map (period_row grade section) ps) = []"
    using assms by (auto simp: filter_empty_conv of_class_def period_row_def)
  moreover have "filter (of_class g s) (del_where (of_class grade section) rs) = filter (of_class g s) rs" for rs
    using assms by (auto simp: del_where_def of_class_def intro!: filter_cong)
  ultimately show ?thesis by (simp add: with_class_def)
qed

lemma sort_whole_days:
  assumes "whole_days ps"
  shows "map stored_period (sort_key (period_order coll) (map (period_row grade section) ps)) =
    sort_key (\<lambda>p. (dayIndex (sd_day p), sd_number p)) ps"
proof -
  let ?f = "\<lambda>p. period_order coll (period_row grade section p)" and ?g = "\<lambda>p. (dayIndex (sd_day p), sd_number p)"
  have days: "sd_day p \<in> set schoolWeek" if "p \<in> set ps" for p using assms that by (simp add: whole_days_def)
  have f: "?f p = (dayIndex (sd_day p) + 1, coll [], sd_number p)" if "p \<in> set ps" for p
    using rank_of_day [OF days [OF that]] dayIndex_less [OF days [OF that]] by (simp add: period_order_def period_row_def)
  have inj: "inj_on ?f (set ps)"
  proof (rule inj_onI)
    fix p q assume "p \<in> set ps" "q \<in> set ps" "?f p = ?f q"
    then have "sd_day p = sd_day q" "sd_number p = sd_number q"
      using f days inj_onD [OF dayIndex_inj] by auto
    with assms \<open>p \<in> set ps\<close> \<open>q \<in> set ps\<close> show "p = q" by (auto simp: whole_days_def distinct_map dest: inj_onD)
  qed
  have "sorted (map ?f (sort_key ?g ps))"
    unfolding sorted_map
  proof (rule sorted_wrt_mono_rel)
    show "sorted_wrt (\<lambda>p q. ?g p \<le> ?g q) (sort_key ?g ps)" using sorted_sort_key [of ?g ps] by (simp add: sorted_map)
    show "?f p \<le> ?f q" if "p \<in> set (sort_key ?g ps)" "q \<in> set (sort_key ?g ps)" "?g p \<le> ?g q" for p q
      using that f [of p] f [of q] by auto
  qed
  moreover have "distinct ps" using assms by (simp add: whole_days_def distinct_map)
  moreover have "distinct (map ?f ps')" if "distinct ps'" "set ps' = set ps" for ps' using that inj by (simp add: distinct_map)
  ultimately have "sort_key ?f ps = sort_key ?g ps"
    using inj by (intro map_sorted_distinct_set_unique [of ?f]) auto
  moreover have "sort_key (period_order coll) (map (period_row grade section) ps) = map (period_row grade section) (sort_key ?f ps)"
    using map_sort_key [of "period_row grade section" "period_order coll" ps] by simp
  moreover have "stored_period (period_row grade section p) = p" for p by (simp add: stored_period_def period_row_def)
  ultimately show ?thesis by (simp add: o_def)
qed

lemma saved_class:
  "whole_days ps \<Longrightarrow> class_schedule coll grade section (with_class grade section ps d) =
     sort_key (\<lambda>p. (dayIndex (sd_day p), sd_number p)) ps"
  by (simp add: class_schedule_def class_rows sort_whole_days)

lemma other_class: "(g, s) \<noteq> (grade, section) \<Longrightarrow>
  class_schedule coll g s (with_class grade section ps d) = class_schedule coll g s d"
  by (simp add: class_schedule_def other_class_rows)

section \<open>One child's part of the parent's view\<close>

lemma product_one:
  assumes "unique_key s_id ss" "s \<in> set ss"
  shows "filter (\<lambda>(q, w). s_id q = s_id s \<and> R q w) (List.product ss ws) = map (Pair s) (filter (R s) ws)"
  using assms
proof (induction ss)
  case (Cons q ss)
  show ?case
  proof (cases "q = s")
    case True
    have "s_id q' \<noteq> s_id s" if "q' \<in> set ss" for q'
      using that Cons.prems(1) True by (auto simp: unique_key_def) (metis imageI)
    then have "filter (\<lambda>(q, w). s_id q = s_id s \<and> R q w) (List.product ss ws) = []"
      by (auto simp: filter_empty_conv)
    moreover have "filter (\<lambda>(q, w). s_id q = s_id s \<and> R q w) (map (Pair s) ws) = map (Pair s) (filter (R s) ws)"
      by (simp add: filter_map o_def)
    ultimately show ?thesis using True by simp
  next
    case False
    then have "s \<in> set ss" "s_id q \<noteq> s_id s" using Cons.prems by (auto simp: unique_key_def)
    moreover from this have "filter (\<lambda>(q, w). s_id q = s_id s \<and> R q w) (map (Pair q) ws) = []"
      by (auto simp: filter_empty_conv)
    ultimately show ?thesis using Cons by (simp add: unique_key_def)
  qed
qed simp

lemma sort_key_const: "sort_key (\<lambda>w. (c, f w)) ws = sort_key f ws"
proof -
  have "insort_key (\<lambda>w. (c, f w)) x ys = insort_key f x ys" for x ys by (induction ys) auto
  then show ?thesis by (induction ws) (simp_all add: sort_key_def)
qed

lemma sort_key_ties:
  assumes "distinct (map f ws)"
  shows "sort_key (\<lambda>w. (f w, tie w)) ws = sort_key f ws"
proof (rule map_sorted_distinct_set_unique [of f])
  show "sorted (map f (sort_key (\<lambda>w. (f w, tie w)) ws))"
    unfolding sorted_map
    by (rule sorted_wrt_mono_rel [OF _ sorted_sort_key [of "\<lambda>w. (f w, tie w)" ws, unfolded sorted_map]]) auto
qed (use assms in \<open>simp_all add: distinct_map\<close>)

lemma child_rows:
  assumes "unique_key s_id (students d)" "s \<in> set (students d)" "s_parent s = Some pid" "s_active s"
    "s_grade s = Some grade" "s_section s = Some section"
  shows "filter (\<lambda>(q, w). s_id q = s_id s) (mobile_schedule coll tie pid d) =
    map (Pair s) (sort_key (\<lambda>w. (period_order coll w, tie w)) (filter (of_class grade section) (weekly_schedules d)))"
proof -
  have "filter (\<lambda>(q, w). s_id q = s_id s) (mobile_schedule coll tie pid d) =
      sort_key (\<lambda>(q, w). (s_id q, period_order coll w, tie w))
        (filter (\<lambda>(q, w). s_id q = s_id s \<and> takes q w \<and> s_parent q = Some pid \<and> s_active q) (List.product (students d) (weekly_schedules d)))"
    unfolding mobile_schedule_def filter_sort filter_filter by (intro arg_cong2 [of _ _ _ _ sort_key] filter_cong) auto
  also have "\<dots> = sort_key (\<lambda>(q, w). (s_id q, period_order coll w, tie w)) (map (Pair s) (filter (of_class grade section) (weekly_schedules d)))"
  proof -
    have "(\<lambda>w. takes s w \<and> s_parent s = Some pid \<and> s_active s) = of_class grade section"
      using assms by (auto simp: takes_def of_class_def fun_eq_iff)
    then show ?thesis using product_one [OF assms(1,2), of "\<lambda>q w. takes q w \<and> s_parent q = Some pid \<and> s_active q"] by simp
  qed
  also have "\<dots> = map (Pair s) (sort_key (\<lambda>w. (period_order coll w, tie w)) (filter (of_class grade section) (weekly_schedules d)))"
    using map_sort_key [of "Pair s" "\<lambda>(q, w). (s_id q, period_order coll w, tie w)"] by (simp add: sort_key_const)
  finally show ?thesis .
qed

section \<open>Properties\<close>

text \<open>C28. A saved timetable is the one that was sent: the answer lists exactly the checked periods, in the order of the
  week, asking for the class again gives the same list, and the rows of no other class change.\<close>

theorem timetable_read_back:
  assumes run: "AdminScheduleHandler coll low letter PUT gradeParam sectionParam (Body req) w = (Inr (grade, section, saved), w1)"
    and w1: "faults w1 = []"
  shows "\<exists>ps. validateScheduleRequest req = Inr (grade, section, ps) \<and>
    map fst saved = sort_key (\<lambda>p. (dayIndex (sd_day p), sd_number p)) ps \<and>
    AdminScheduleHandler coll low letter GET grade section b w1 = (Inr (grade, section, saved), w1) \<and>
    (\<forall>g s. (g, s) \<noteq> (grade, section) \<longrightarrow>
       filter (of_class g s) (weekly_schedules (db w1)) = filter (of_class g s) (weekly_schedules (db w)))"
proof -
  from run obtain ps l where v: "validateScheduleRequest req = Inr (grade, section, ps)"
    and t: "in_tx id (save_schedule coll grade section ps)
      (w\<lparr>noted := (u ''class'', grade @ u ''/'' @ section, u ''periods='' @ itoa (int (length ps)))\<rparr>) = (Inr l, w1)"
    and saved: "saved = respondSchedule low letter l"
    by (auto simp: AdminScheduleHandler_def bindE_ok simple_ok split: prod.splits)
  note val = validated [OF v]
  from t obtain w3 w4 where body: "save_schedule coll grade section ps w3 = (Inr l, w4)" and d: "db w3 = db w" "db w1 = db w4"
    by (rule in_tx_ok) simp
  from body obtain w5 w6 x where r: "replaceClassSchedule grade section ps w5 = (Inr x, w6)" and w5: "db w5 = db w3"
    and l: "with_text [grade, section] (query (class_schedule coll grade section)) w6 = (Inr l, w4)"
    by (auto simp: save_schedule_def readSchedule_def lockSchedules_def bindE_ok dest!: control_ok(1))
  have plain: "plain_texts [grade, section]" using l by (rule with_text_plain)
  have q: "l = class_schedule coll grade section (db w6)" "db w4 = db w6" using query_okD [OF with_text_ok [OF l]] by simp_all
  have db1: "db w1 = with_class grade section ps (db w)" using replaced_ok [OF r] q(2) w5 d by simp
  have l': "l = sort_key (\<lambda>p. (dayIndex (sd_day p), sd_number p)) ps"
    using q(1) replaced_ok [OF r] saved_class [OF val(4)] by simp
  have "map fst saved = l" by (simp add: saved respondSchedule_def o_def)
  moreover have "AdminScheduleHandler coll low letter GET grade section b w1 = (Inr (grade, section, saved), w1)"
  proof -
    have t: "TrimSpace grade = grade" "TrimSpace section = section" using val(1,2) by (simp_all add: TrimSpace_idem)
    have "readSchedule coll grade section w1 = (Inr l, w1)"
      unfolding readSchedule_def with_plain_texts [OF plain] query_run_nil [OF w1] db1 saved_class [OF val(4)] l' ..
    then show ?thesis
      by (simp add: AdminScheduleHandler_def Let_def bindE_def guard_run ret_run lift_err_run t val(3) saved)
  qed
  moreover have "\<forall>g s. (g, s) \<noteq> (grade, section) \<longrightarrow>
      filter (of_class g s) (weekly_schedules (db w1)) = filter (of_class g s) (weekly_schedules (db w))"
    unfolding db1 by (intro allI impI other_class_rows)
  ultimately show ?thesis by (intro exI [of _ ps]) (simp only: v l' simp_thms)
qed

text \<open>A parent sees of each child exactly the timetable the dashboard shows for the child's class: the same periods in the
  same order, with the same subject keys. Two stored periods of one class must not tie in the order of the week: the query of the
  app leaves ties open.\<close>

theorem parents_see_timetable:
  assumes w: "faults w = []" "unique_key s_id (students (db w))"
    and child: "s \<in> set (students (db w))" "s_parent s = Some pid" "s_active s" "s_grade s = Some grade" "s_section s = Some section"
    and named: "TrimSpace grade = grade" "TrimSpace section = section" "scheduleClassProblem grade section = []"
      "plain_texts [grade, section]"
    and apart: "distinct (map (period_order coll) (filter (of_class grade section) (weekly_schedules (db w))))"
  shows "\<exists>rows items. MobileScheduleHandler coll tie low letter GET (Some pid) w = (Inr rows, w) \<and>
    AdminScheduleHandler coll low letter GET grade section b w = (Inr (grade, section, items), w) \<and>
    map (\<lambda>r. (ms_day r, ms_number r, ms_subject r, ms_teacher r, ms_key r)) (filter (\<lambda>r. ms_student r = s_id s) rows) =
    map (\<lambda>(p, k). (sd_day p, sd_number p, sd_subject p, case sd_teacher p of None \<Rightarrow> [] | Some t \<Rightarrow> t, k)) items"
proof -
  let ?rows = "map (mobile_period low letter) (mobile_schedule coll tie pid (db w))"
  let ?items = "respondSchedule low letter (class_schedule coll grade section (db w))"
  have m: "MobileScheduleHandler coll tie low letter GET (Some pid) w = (Inr ?rows, w)"
    using w(1) by (simp add: MobileScheduleHandler_def parent_of_context_def bindE_def run_simps lift_err_run)
  have a: "AdminScheduleHandler coll low letter GET grade section b w = (Inr (grade, section, ?items), w)"
    using w(1) named
    by (simp add: AdminScheduleHandler_def Let_def bindE_def run_simps lift_err_run readSchedule_def with_plain_texts)
  have "filter (\<lambda>r. ms_student r = s_id s) ?rows =
      map (mobile_period low letter) (filter (\<lambda>(q, w). s_id q = s_id s) (mobile_schedule coll tie pid (db w)))"
    by (simp add: filter_map o_def mobile_period_def case_prod_unfold)
  also have "\<dots> = map (mobile_period low letter \<circ> Pair s) (sort_key (period_order coll) (filter (of_class grade section) (weekly_schedules (db w))))"
    using child_rows [OF w(2) child, of coll tie] by (simp add: sort_key_ties [OF apart])
  finally have "map (\<lambda>r. (ms_day r, ms_number r, ms_subject r, ms_teacher r, ms_key r)) (filter (\<lambda>r. ms_student r = s_id s) ?rows) =
    map (\<lambda>(p, k). (sd_day p, sd_number p, sd_subject p, case sd_teacher p of None \<Rightarrow> [] | Some t \<Rightarrow> t, k)) ?items"
    by (simp add: respondSchedule_def class_schedule_def mobile_period_def stored_period_def o_def)
  with m a show ?thesis by blast
qed

section \<open>Examples\<close>

definition sunday :: "int \<Rightarrow> SchedulePeriod" where
  "sunday n = \<lparr>sd_day = schoolWeek ! 0, sd_number = n, sd_subject = u ''Math'', sd_teacher = None\<rparr>"

definition sunday_request :: ScheduleRequest where
  "sunday_request = \<lparr>sr_grade = u ''1'', sr_section = u '' A'',
     sr_periods = Some (map (\<lambda>n. \<lparr>sd_day = u ''Sunday'', sd_number = n, sd_subject = u ''Math '', sd_teacher = Some []\<rparr>) [2, 1, 3, 5, 4])\<rparr>"

definition class_world :: world where
  "class_world = quiet (empty_db\<lparr>students := [\<lparr>s_id = 3, s_name = u ''Noor'', s_tag = u ''100'', s_created = None, s_grade = Some (u ''1''),
     s_section = Some (u ''A''), s_avatar = None, s_parent = Some 7, s_active = True\<rparr>],
     weekly_schedules := [\<lparr>w_grade = u ''1'', w_section = u ''A'', w_day = schoolWeek ! 1, w_number = 3, w_subject = u ''Art'', w_teacher = None\<rparr>]\<rparr>) (At (Date 2025 10 5) (hm 8 0))"

lemma sunday_checked: "validateScheduleRequest sunday_request = Inr (u ''1'', u ''A'', map sunday [2, 1, 3, 5, 4])"
proof -
  have c: "canonicalSchoolDay (u ''Sunday'') = Some (schoolWeek ! 0)"
    by (simp add: canonicalSchoolDay_def TrimSpace_def trim_by_def is_space_def asciiLower_def hamzaFold_def schoolDays_def schoolWeek_def u_def)
  have t: "TrimSpace (u ''Math '') = u ''Math''" "TrimSpace (u ''1'') = u ''1''" "TrimSpace (u '' A'') = u ''A''" "TrimSpace [] = []"
    by (simp_all add: TrimSpace_def trim_by_def is_space_def u_def)
  have l: "tooLong f (u ''Math'') 100 = []" "tooLong f [] 100 = []" "tooLong f (u ''1'') 50 = []" "tooLong f (u ''A'') 50 = []" for f
    by (simp_all add: tooLong_def TrimRightBlank_def u_def)
  have p: "check_period i seen \<lparr>sd_day = u ''Sunday'', sd_number = n, sd_subject = u ''Math '', sd_teacher = Some []\<rparr> = Inr (sunday n)"
    if "1 \<le> n" "n \<le> 6" "(schoolWeek ! 0, n) \<notin> set seen" for i seen n
    using that by (simp add: check_period_def c t l MaxPeriodNumber_def sunday_def optional_text_def)
  have s: "sd_day (sunday n) = schoolWeek ! 0" "sd_number (sunday n) = n" for n by (simp_all add: sunday_def)
  have "check_periods 0 [] (map (\<lambda>n. \<lparr>sd_day = u ''Sunday'', sd_number = n, sd_subject = u ''Math '', sd_teacher = Some []\<rparr>) [2, 1, 3, 5, 4]) =
    Inr (map sunday [2, 1, 3, 5, 4])"
    by (simp add: p s)
  moreover have "check_days (map sunday [2, 1, 3, 5, 4]) schoolWeek = []"
  proof -
    have "dayPeriodsProblem [2, 1, 3, 5, 4] = []" by (simp add: dayPeriodsProblem_ok) (simp add: upto.simps)
    moreover have "numbers_on day (map sunday [2, 1, 3, 5, 4]) = (if day = schoolWeek ! 0 then [2, 1, 3, 5, 4] else [])" for day
      by (simp add: numbers_on_def s)
    ultimately have "check_days (map sunday [2, 1, 3, 5, 4]) ds = []" for ds by (induction ds) simp_all
    then show ?thesis .
  qed
  ultimately show ?thesis
    by (simp add: validateScheduleRequest_def sunday_request_def t l scheduleClassProblem_def MaxSchedulePeriods_def MaxPeriodNumber_def)
qed

lemma sunday_saved:
  "AdminScheduleHandler length low letter PUT [] [] (Body sunday_request) class_world =
     (Inr (u ''1'', u ''A'', respondSchedule low letter (class_schedule length (u ''1'') (u ''A'') (with_class (u ''1'') (u ''A'') (map sunday [2, 1, 3, 5, 4]) (db class_world)))),
      class_world\<lparr>noted := (u ''class'', u ''1/A'', u ''periods=5''), db := with_class (u ''1'') (u ''A'') (map sunday [2, 1, 3, 5, 4]) (db class_world)\<rparr>)"
proof -
  have "plain_texts ([u ''1'', u ''A'', sd_day p, sd_subject p] @ opt_list (sd_teacher p))" if "p \<in> set (map sunday [2, 1, 3, 5, 4])" for p
    using that by (auto simp: sunday_def opt_list_def plain_texts_def schoolWeek_def u_def)
  moreover have "plain_texts [u ''1'', u ''A'']" by (simp add: plain_texts_def u_def)
  moreover have "faults class_world = []" by (simp add: class_world_def)
  moreover have "u ''1'' @ u ''/'' @ u ''A'' = u ''1/A''" "u ''periods='' @ itoa (int (length (map sunday [2, 1, 3, 5, 4]))) = u ''periods=5''"
    by (simp_all add: u_def itoa_def digits_of.simps)
  ultimately show ?thesis by (metis saved_run [OF _ sunday_checked])
qed

theorem timetable_read_back_witness:
  "\<exists>saved w1. AdminScheduleHandler length id (\<lambda>c. c < 128) PUT [] [] (Body sunday_request) class_world = (Inr (u ''1'', u ''A'', saved), w1) \<and>
     map fst saved = map sunday [1..5] \<and>
     AdminScheduleHandler length id (\<lambda>c. c < 128) GET (u ''1'') (u ''A'') (Body sunday_request) w1 = (Inr (u ''1'', u ''A'', saved), w1)"
proof -
  define saved where "saved = respondSchedule id (\<lambda>c. c < 128)
    (class_schedule length (u ''1'') (u ''A'') (with_class (u ''1'') (u ''A'') (map sunday [2, 1, 3, 5, 4]) (db class_world)))"
  define w1 where "w1 = class_world\<lparr>noted := (u ''class'', u ''1/A'', u ''periods=5''),
    db := with_class (u ''1'') (u ''A'') (map sunday [2, 1, 3, 5, 4]) (db class_world)\<rparr>"
  have run: "AdminScheduleHandler length id (\<lambda>c. c < 128) PUT [] [] (Body sunday_request) class_world = (Inr (u ''1'', u ''A'', saved), w1)"
    unfolding saved_def w1_def by (rule sunday_saved)
  have w1: "faults w1 = []" by (simp add: w1_def class_world_def)
  have "[1..5] = [1, 2, 3, 4, 5::int]" by (simp add: upto.simps)
  then have "sort_key (\<lambda>p. (dayIndex (sd_day p), sd_number p)) (map sunday [2, 1, 3, 5, 4]) = map sunday [1..5]"
    by (simp add: sort_key_def sunday_def)
  with timetable_read_back [OF run w1, of "Body sunday_request"] run sunday_checked show ?thesis by auto
qed

theorem parents_see_timetable_witness:
  "\<exists>rows items. MobileScheduleHandler length (\<lambda>_. 0) id (\<lambda>c. c < 128) GET (Some 7) class_world = (Inr rows, class_world) \<and>
    AdminScheduleHandler length id (\<lambda>c. c < 128) GET (u ''1'') (u ''A'') Malformed class_world = (Inr (u ''1'', u ''A'', items), class_world) \<and>
    map (\<lambda>r. (ms_day r, ms_number r, ms_subject r, ms_teacher r, ms_key r)) (filter (\<lambda>r. ms_student r = 3) rows) =
    map (\<lambda>(p, k). (sd_day p, sd_number p, sd_subject p, case sd_teacher p of None \<Rightarrow> [] | Some t \<Rightarrow> t, k)) items"
proof -
  let ?s = "\<lparr>s_id = 3, s_name = u ''Noor'', s_tag = u ''100'', s_created = None, s_grade = Some (u ''1''),
     s_section = Some (u ''A''), s_avatar = None, s_parent = Some 7, s_active = True\<rparr>"
  have "?s \<in> set (students (db class_world))" "unique_key s_id (students (db class_world))" "faults class_world = []"
    by (simp_all add: class_world_def unique_key_def)
  moreover have "TrimSpace (u ''1'') = u ''1''" "TrimSpace (u ''A'') = u ''A''" "plain_texts [u ''1'', u ''A'']"
    by (simp_all add: TrimSpace_def trim_by_def is_space_def plain_texts_def u_def)
  moreover have "distinct (map (period_order length) (filter (of_class (u ''1'') (u ''A'')) (weekly_schedules (db class_world))))"
    by (simp add: class_world_def of_class_def)
  moreover have "scheduleClassProblem (u ''1'') (u ''A'') = []"
    by (simp add: scheduleClassProblem_def tooLong_def TrimRightBlank_def u_def)
  ultimately show ?thesis
    using parents_see_timetable [of class_world ?s 7 "u ''1''" "u ''A''" length "\<lambda>_. 0" id "\<lambda>c. c < 128" Malformed] by simp
qed

end
