(* ===== verification/ScheduleImport.thy ===== *)
theory ScheduleImport
  imports Schedule Uploads Devices Broadcasts
begin

text \<open>
  The timetable as an Excel workbook (\<open>internal/handlers/schedule_excel.go\<close>): the known classes, the export of one class and
  the import of many. The workbook is read by the excelize package: a worksheet is what the package reports of it, row by row
  and cell by cell. Parameters: \<open>unzip\<close> gives the declared sizes of the files in an archive, \<open>open_book\<close> its worksheets (a panic
  while reading counts as a failure to open), \<open>cell_name\<close> the name of a cell; \<open>whole\<close> is the whole number
  \<open>strconv.ParseFloat\<close> reads, and \<open>plain\<close> what \<open>strconv.FormatFloat\<close> prints of a number it reads.
\<close>

section \<open>Columns\<close>

definition MaxScheduleFileBytes :: nat where "MaxScheduleFileBytes = 2097152"
definition MaxScheduleUnzippedBytes :: nat where "MaxScheduleUnzippedBytes = 20971520"
definition MaxScheduleImportRows :: nat where "MaxScheduleImportRows = 2000"
definition MaxScheduleImportClasses :: nat where "MaxScheduleImportClasses = 100"
definition MaxScheduleImportErrors :: nat where "MaxScheduleImportErrors = 50"
definition scheduleHeaderSearchRows :: nat where "scheduleHeaderSearchRows = 10"
definition scheduleHeaderMinMatches :: nat where "scheduleHeaderMinMatches = 3"
definition maxScheduleClassPartBytes :: nat where "maxScheduleClassPartBytes = 200"

abbreviation (input) colGrade :: nat where "colGrade \<equiv> 0"
abbreviation (input) colSection :: nat where "colSection \<equiv> 1"
abbreviation (input) colDay :: nat where "colDay \<equiv> 2"
abbreviation (input) colPeriod :: nat where "colPeriod \<equiv> 3"
abbreviation (input) colSubject :: nat where "colSubject \<equiv> 4"
abbreviation (input) colTeacher :: nat where "colTeacher \<equiv> 5"

definition scheduleColumns :: "(str \<times> str list) list" where
  "scheduleColumns =
    [([1575, 1604, 1605, 1585, 1581, 1604, 1577], [[1575, 1604, 1605, 1585, 1581, 1604, 1577], [1575, 1604, 1589, 1601], u ''grade'']),
     ([1575, 1604, 1588, 1593, 1576, 1577], [[1575, 1604, 1588, 1593, 1576, 1577], u ''section'']),
     ([1575, 1604, 1610, 1608, 1605], [[1575, 1604, 1610, 1608, 1605], u ''day'']),
     ([1575, 1604, 1581, 1589, 1577], [[1575, 1604, 1581, 1589, 1577], u ''period'']),
     ([1575, 1604, 1605, 1575, 1583, 1577], [[1575, 1604, 1605, 1575, 1583, 1577], u ''subject'']),
     ([1575, 1604, 1605, 1593, 1604, 1605], [[1575, 1604, 1605, 1593, 1604, 1605], [1575, 1604, 1605, 1583, 1585, 1587], u ''teacher''])]"

definition scheduleHeaderAliases :: "(nat \<Rightarrow> nat) \<Rightarrow> str \<Rightarrow> nat option" where
  "scheduleHeaderAliases low =
     map_of (rev (concat (map (\<lambda>(i, n, aliases). map (\<lambda>a. (normalizeArabic low a, i)) aliases) (enumerate 0 scheduleColumns))))"

definition scheduleHeaders :: "str list" where
  "scheduleHeaders = map fst scheduleColumns"

definition column_name :: "nat \<Rightarrow> str" where
  "column_name k = fst (scheduleColumns ! k)"

section \<open>Known classes\<close>

type_synonym scheduleClassKey = "str \<times> str"

definition student_class :: "student \<Rightarrow> scheduleClassKey option" where
  \<comment> \<open>of an active student, both parts non-blank\<close>
  "student_class s =
     (case (s_grade s, s_section s) of
        (Some g, Some c) \<Rightarrow> if s_active s \<and> btrim g \<noteq> [] \<and> btrim c \<noteq> [] then Some (g, c) else None
      | _ \<Rightarrow> None)"

definition schedule_classes :: "db \<Rightarrow> scheduleClassKey list" where
  \<comment> \<open>\<open>scheduleClassesSQL\<close>\<close>
  "schedule_classes d =
     remdups (map the (filter (\<lambda>z. z \<noteq> None) (map student_class (students d))) @ map (\<lambda>w. (w_grade w, w_section w)) (weekly_schedules d))"

definition in_class :: "scheduleClassKey \<Rightarrow> student \<Rightarrow> bool" where
  "in_class k s \<longleftrightarrow> s_active s \<and> s_grade s = Some (fst k) \<and> s_section s = Some (snd k)"

definition class_students :: "scheduleClassKey \<Rightarrow> db \<Rightarrow> int" where
  "class_students k d = int (length (filter (in_class k) (students d)))"

record ScheduleClass =
  sc_grade :: str
  sc_section :: str
  sc_students :: int
  sc_periods :: int
  sc_days :: int

definition day_label :: "period \<Rightarrow> str" where
  "day_label w = (if weekday_rank (w_day w) = 8 then w_day w else u ''#'' @ itoa (int (weekday_rank (w_day w))))"

definition ScheduleClass_of :: "db \<Rightarrow> scheduleClassKey \<Rightarrow> ScheduleClass" where
  "ScheduleClass_of d k =
     (let ws = filter (of_class (fst k) (snd k)) (weekly_schedules d) in
      \<lparr>sc_grade = fst k, sc_section = snd k, sc_students = class_students k d, sc_periods = int (length ws),
       sc_days = int (card (set (map day_label ws)))\<rparr>)"

definition AdminScheduleClassesHandler :: "(refusal, ScheduleClass list) tx" where
  "AdminScheduleClassesHandler =
     lift_err (internal_error ''Database error'') (query (\<lambda>d. map (ScheduleClass_of d) (sort_key (\<lambda>k. k) (schedule_classes d))))"

section \<open>Export\<close>

definition ministry_line :: str where
  "ministry_line = [1608, 1586, 1575, 1585, 1577, 32, 1575, 1604, 1578, 1585, 1576, 1610, 1577, 32, 1608, 1575, 1604, 1578, 1593, 1604, 1610, 1605]"

definition newReportWorkbook :: "str \<Rightarrow> str \<Rightarrow> str list \<Rightarrow> str list list" where
  \<comment> \<open>the text of the rows up to the column headers; a merged cell holds its text in its first column\<close>
  "newReportWorkbook schoolName title headers = [[ministry_line], [schoolName], [title], [], headers]"

record gridRow =
  gr_rank :: nat
  gr_period :: int
  gr_subject :: str
  gr_teacher :: str

definition stored_at :: "str \<Rightarrow> str \<Rightarrow> nat \<Rightarrow> int \<Rightarrow> db \<Rightarrow> period option" where
  \<comment> \<open>the first stored period of the class at this place of the week\<close>
  "stored_at grade section rank n d =
     find_row (\<lambda>w. of_class grade section w \<and> weekday_rank (w_day w) = rank \<and> w_number w = n) (weekly_schedules d)"

definition schedule_grid :: "str \<Rightarrow> str \<Rightarrow> db \<Rightarrow> gridRow list" where
  "schedule_grid grade section d =
     (if (grade, section) \<in> set (schedule_classes d)
      then concat (map (\<lambda>rank. map (\<lambda>n. let st = stored_at grade section rank n d in
        \<lparr>gr_rank = rank, gr_period = n, gr_subject = (case st of None \<Rightarrow> [] | Some w \<Rightarrow> w_subject w),
         gr_teacher = (case st of None \<Rightarrow> [] | Some w \<Rightarrow> (case w_teacher w of None \<Rightarrow> [] | Some t \<Rightarrow> t))\<rparr>) [1..MaxPeriodNumber]) [1..<6])
      else [])"

definition grid_cells :: "str \<Rightarrow> str \<Rightarrow> gridRow \<Rightarrow> str list" where
  "grid_cells grade section g = [grade, section, schoolWeek ! (gr_rank g - 1), itoa (gr_period g), gr_subject g, gr_teacher g]"

definition schedule_title :: "str \<Rightarrow> str \<Rightarrow> str" where
  "schedule_title grade section =
     [1575, 1604, 1580, 1583, 1608, 1604, 32, 1575, 1604, 1571, 1587, 1576, 1608, 1593, 1610, 32, 45, 32] @ grade @ u '' '' @ section"

definition AdminScheduleExportHandler :: "str \<Rightarrow> str \<Rightarrow> (refusal, str list list) tx" where
  \<comment> \<open>the text of the rows of the exported sheet\<close>
  "AdminScheduleExportHandler gradeParam sectionParam =
     (let grade = TrimSpace gradeParam; section = TrimSpace sectionParam; msg = scheduleClassProblem grade section in
      bindE (guard (msg = []) (Refuse 400 msg)) (\<lambda>_.
      bindE (NoteActivity (u ''class'') (grade @ u ''/'' @ section) []) (\<lambda>_.
      bindE (lift_err (internal_error ''Database error'') (with_text [grade, section] (query (schedule_grid grade section)))) (\<lambda>grid.
      bindE (guard (grid \<noteq> []) (Refuse 404 (u ''No class has this grade and section: no active student and no schedule''))) (\<lambda>_.
      bindE (lift_err (internal_error ''Database error'') readSchoolName) (\<lambda>schoolName.
      ret (newReportWorkbook schoolName (schedule_title grade section) scheduleHeaders @ map (grid_cells grade section) grid)))))))"

section \<open>Reading a worksheet\<close>

record worksheet =
  ws_name :: str
  ws_rows :: "str list option list option"   \<comment> \<open>\<open>None\<close>: the sheet, or one of its rows, cannot be read\<close>
  ws_closes :: bool
  ws_formula :: "nat \<Rightarrow> nat \<Rightarrow> bool"         \<comment> \<open>row and column of a cell with a formula\<close>
  ws_numeric :: "nat \<Rightarrow> nat \<Rightarrow> bool"         \<comment> \<open>a cell without a type or with a number\<close>

record problem =
  pm_row :: nat
  pm_column :: nat
  pm_message :: str

definition notAWorkbook :: str where "notAWorkbook = u ''file must be an Excel workbook (.xlsx)''"

fun header_cells :: "(str \<Rightarrow> nat option) \<Rightarrow> nat \<Rightarrow> str list \<Rightarrow> (nat \<Rightarrow> nat option) \<times> nat list \<Rightarrow> (nat \<Rightarrow> nat option) \<times> nat list" where
  \<comment> \<open>the sheet column of each field found so far, and the fields found twice\<close>
  "header_cells field c [] st = st"
| "header_cells field c (v # vs) (cols, repeated) =
     (case field v of
        None \<Rightarrow> header_cells field (c + 1) vs (cols, repeated)
      | Some k \<Rightarrow>
          if cols k \<noteq> None then header_cells field (c + 1) vs (cols, k # repeated)
          else header_cells field (c + 1) vs (cols(k := Some c), repeated))"

definition column_fields :: "nat list" where "column_fields = [0..<length scheduleColumns]"

definition matchScheduleHeader :: "(nat \<Rightarrow> nat) \<Rightarrow> str list \<Rightarrow> nat \<Rightarrow> problem list \<times> nat list option option" where
  \<comment> \<open>no header row, a header row with problems, or the columns of the fields\<close>
  "matchScheduleHeader low cells rowNum =
     (let (cols, repeated) = header_cells (\<lambda>v. scheduleHeaderAliases low (normalizeArabic low v)) 0 cells (\<lambda>_. None, []) in
      if length (filter (\<lambda>k. cols k \<noteq> None) column_fields) < scheduleHeaderMinMatches then ([], None)
      else
        let ps = concat (map (\<lambda>k.
            if k \<in> set repeated
            then [\<lparr>pm_row = rowNum, pm_column = k, pm_message = u ''the header row has the column '' @ column_name k @ u '' more than once''\<rparr>]
            else if cols k = None
            then [\<lparr>pm_row = rowNum, pm_column = k, pm_message = u ''the header row has no column '' @ column_name k\<rparr>]
            else []) column_fields) in
        if repeated = [] \<and> (\<forall>k \<in> set column_fields. cols k \<noteq> None) then (ps, Some (Some (map (\<lambda>k. the (cols k)) column_fields)))
        else (ps, Some None))"

record rawScheduleRow =
  rr_row :: nat
  rr_values :: "str list"

definition raw_row :: "nat \<Rightarrow> nat list \<Rightarrow> str list \<Rightarrow> rawScheduleRow" where
  "raw_row rowNum cols cells =
     \<lparr>rr_row = rowNum, rr_values = map (\<lambda>c. if c < length cells then TrimSpace (cells ! c) else []) cols\<rparr>"

definition empty_cells :: "nat \<Rightarrow> nat list \<Rightarrow> str list \<Rightarrow> (nat \<times> nat) list" where
  "empty_cells rowNum cols cells = map (Pair rowNum) (filter (\<lambda>c. c < length cells \<and> cells ! c = []) cols)"

record scan =
  sn_found :: bool
  sn_cols :: "nat list option"
  sn_problems :: "problem list"
  sn_raw :: "rawScheduleRow list"
  sn_formulas :: "(nat \<times> nat) list"
  sn_count :: nat

fun scan_rows :: "(nat \<Rightarrow> nat) \<Rightarrow> nat \<Rightarrow> scan \<Rightarrow> str list option list \<Rightarrow> str + scan" where
  "scan_rows low n s [] = Inr s"
| "scan_rows low n s (row # rows) =
     (case row of
        None \<Rightarrow> Inl notAWorkbook
      | Some cells \<Rightarrow>
          (case sn_cols s of
             None \<Rightarrow>
               if scheduleHeaderSearchRows < n then Inr s
               else (case matchScheduleHeader low cells n of
                   (ps, None) \<Rightarrow> scan_rows low (n + 1) s rows
                 | (ps, Some None) \<Rightarrow> Inr (s\<lparr>sn_found := True, sn_problems := sn_problems s @ ps\<rparr>)
                 | (ps, Some (Some cols)) \<Rightarrow>
                     scan_rows low (n + 1) (s\<lparr>sn_found := True, sn_cols := Some cols, sn_problems := sn_problems s @ ps\<rparr>) rows)
           | Some cols \<Rightarrow>
               let r = raw_row n cols cells; s' = s\<lparr>sn_formulas := sn_formulas s @ empty_cells n cols cells\<rparr> in
               if rr_values r ! colSubject = [] \<and> rr_values r ! colTeacher = [] then scan_rows low (n + 1) s' rows
               else if MaxScheduleImportRows < sn_count s + 1
               then Inl (u ''The file has more than '' @ itoa (int MaxScheduleImportRows) @ u '' schedule rows'')
               else scan_rows low (n + 1) (s'\<lparr>sn_count := sn_count s + 1, sn_raw := sn_raw s @ [r]\<rparr>) rows))"

definition easternDigits :: "str \<Rightarrow> str" where
  "easternDigits s = map (\<lambda>c. if 1632 \<le> c \<and> c \<le> 1641 then c - 1584 else if 1776 \<le> c \<and> c \<le> 1785 then c - 1728 else c) s"

definition period_of_text :: "(str \<Rightarrow> int option) \<Rightarrow> str \<Rightarrow> int option" where
  "period_of_text whole s =
     (case whole (easternDigits s) of None \<Rightarrow> None | Some n \<Rightarrow> if 1 \<le> n \<and> n \<le> MaxPeriodNumber then Some n else None)"

definition validScheduleRow :: "(str \<Rightarrow> int option) \<Rightarrow> rawScheduleRow \<Rightarrow> problem list \<times> SchedulePeriod option" where
  "validScheduleRow whole r =
     (let v = (\<lambda>k. rr_values r ! k); bad = (\<lambda>k msg. \<lparr>pm_row = rr_row r, pm_column = k, pm_message = msg\<rparr>);
          part = (\<lambda>k name. if v k = [] then [bad k (name @ u '' is required'')]
            else let msg = tooLong name (v k) 50 in if msg \<noteq> [] then [bad k msg] else []);
          day = canonicalSchoolDay (v colDay); n = period_of_text whole (v colPeriod);
          subject = v colSubject; teacher = v colTeacher;
          ps = part colGrade (u ''grade'') @ part colSection (u ''section'') @
            (if day = None then [bad colDay (u ''day must be a school day, Sunday to Thursday (Arabic or English)'')] else []) @
            (if n = None then [bad colPeriod (u ''period must be a whole number from 1 to '' @ itoa MaxPeriodNumber)] else []) @
            (if subject = [] then [bad colSubject (u ''subject is required when a teacher is given'')]
             else let msg = tooLong (u ''subject'') subject 100 in if msg \<noteq> [] then [bad colSubject msg] else []) @
            (let msg = tooLong (u ''teacher'') teacher 100 in if msg \<noteq> [] then [bad colTeacher msg] else [])
      in (ps, if ps = [] then Some \<lparr>sd_day = the day, sd_number = the n, sd_subject = subject,
                sd_teacher = (if teacher = [] then None else Some teacher)\<rparr> else None))"

definition numeric_text :: "(str \<Rightarrow> str option) \<Rightarrow> worksheet \<Rightarrow> nat list \<Rightarrow> nat \<Rightarrow> nat \<Rightarrow> str \<Rightarrow> str" where
  \<comment> \<open>a number stored as 1.0 or 1e0 is the text a user sees\<close>
  "numeric_text plain ws cols row k v =
     (if \<not> list_ex (\<lambda>c. c = 46 \<or> c = 101 \<or> c = 69) v then v
      else case plain v of None \<Rightarrow> v | Some p \<Rightarrow> if ws_numeric ws row (cols ! k) then p else v)"

record importedRow =
  im_sheet :: str
  im_index :: nat
  im_row :: nat
  im_class :: scheduleClassKey
  im_period :: SchedulePeriod

definition formula_problems :: "(nat \<Rightarrow> nat \<Rightarrow> str) \<Rightarrow> worksheet \<Rightarrow> nat list \<Rightarrow> (nat \<times> nat) list \<Rightarrow> problem list" where
  "formula_problems cell_name ws cols cells =
     map (\<lambda>(row, c). \<lparr>pm_row = row, pm_column = length (takeWhile (\<lambda>d. d \<noteq> c) cols),
         pm_message = u ''cell '' @ cell_name row c @ u '' has a formula without a saved value; type the value, or open and save the file in Excel''\<rparr>)
       (filter (\<lambda>(row, c). ws_formula ws row c) cells)"

definition read_row :: "(str \<Rightarrow> int option) \<Rightarrow> (str \<Rightarrow> str option) \<Rightarrow> worksheet \<Rightarrow> nat \<Rightarrow> nat list \<Rightarrow> rawScheduleRow \<Rightarrow> problem list \<times> importedRow list" where
  "read_row whole plain ws i cols r =
     (let g = numeric_text plain ws cols (rr_row r) colGrade (rr_values r ! colGrade);
          c = numeric_text plain ws cols (rr_row r) colSection (rr_values r ! colSection);
          (ps, p) = validScheduleRow whole (r\<lparr>rr_values := (rr_values r)[colGrade := g, colSection := c]\<rparr>) in
      (ps, case p of None \<Rightarrow> []
           | Some q \<Rightarrow> [\<lparr>im_sheet = ws_name ws, im_index = i, im_row = rr_row r, im_class = (g, c), im_period = q\<rparr>]))"

definition readScheduleSheet ::
    "(nat \<Rightarrow> nat) \<Rightarrow> (str \<Rightarrow> int option) \<Rightarrow> (str \<Rightarrow> str option) \<Rightarrow> (nat \<Rightarrow> nat \<Rightarrow> str) \<Rightarrow> worksheet \<Rightarrow> nat \<Rightarrow> nat \<Rightarrow>
     str + (problem list \<times> importedRow list \<times> bool \<times> nat)" where
  \<comment> \<open>the problems, the valid rows, whether there is a header row, and the rows counted so far\<close>
  "readScheduleSheet low whole plain cell_name ws i counted =
     (case ws_rows ws of
        None \<Rightarrow> Inl notAWorkbook
      | Some rows \<Rightarrow>
          (case scan_rows low 1 \<lparr>sn_found = False, sn_cols = None, sn_problems = [], sn_raw = [], sn_formulas = [], sn_count = counted\<rparr> rows of
             Inl msg \<Rightarrow> Inl msg
           | Inr s \<Rightarrow>
               if \<not> ws_closes ws then Inl notAWorkbook
               else let cols = (case sn_cols s of None \<Rightarrow> [] | Some cs \<Rightarrow> cs); rs = map (read_row whole plain ws i cols) (sn_raw s) in
                 Inr (sn_problems s @ formula_problems cell_name ws cols (sn_formulas s) @ concat (map fst rs), concat (map snd rs),
                      sn_found s, sn_count s)))"

section \<open>Reading a workbook\<close>

record ScheduleImportError =
  ie_sheet :: str
  ie_index :: nat
  ie_row :: nat
  ie_column :: nat
  ie_message :: str

record scheduleImport =
  si_classes :: "(scheduleClassKey \<times> SchedulePeriod list) list"   \<comment> \<open>in the order of the file\<close>
  si_problems :: "ScheduleImportError list"

definition import_error :: "str \<Rightarrow> nat \<Rightarrow> problem \<Rightarrow> ScheduleImportError" where
  "import_error name i p = \<lparr>ie_sheet = name, ie_index = i, ie_row = pm_row p, ie_column = pm_column p, ie_message = pm_message p\<rparr>"

record sheets_read =
  sr_problems :: "ScheduleImportError list"
  sr_valid :: "importedRow list"
  sr_headers :: nat
  sr_count :: nat

fun read_sheets ::
    "(nat \<Rightarrow> nat) \<Rightarrow> (str \<Rightarrow> int option) \<Rightarrow> (str \<Rightarrow> str option) \<Rightarrow> (nat \<Rightarrow> nat \<Rightarrow> str) \<Rightarrow> nat \<Rightarrow> sheets_read \<Rightarrow> worksheet list \<Rightarrow> str + sheets_read" where
  "read_sheets low whole plain cell_name i s [] = Inr s"
| "read_sheets low whole plain cell_name i s (ws # wss) =
     (case readScheduleSheet low whole plain cell_name ws i (sr_count s) of
        Inl msg \<Rightarrow> Inl msg
      | Inr (ps, rows, found, n) \<Rightarrow>
          read_sheets low whole plain cell_name (i + 1)
            \<lparr>sr_problems = sr_problems s @ map (import_error (ws_name ws) i) ps, sr_valid = sr_valid s @ rows,
             sr_headers = sr_headers s + (if found then 1 else 0), sr_count = n\<rparr> wss)"

record grouping =
  gp_order :: "scheduleClassKey list"
  gp_rows :: "importedRow list"
  gp_problems :: "ScheduleImportError list"

definition row_key :: "importedRow \<Rightarrow> str" where
  "row_key r = fst (im_class r) @ [0] @ snd (im_class r) @ [0] @ sd_day (im_period r) @ [0] @ itoa (sd_number (im_period r))"

definition row_error :: "importedRow \<Rightarrow> nat \<Rightarrow> str \<Rightarrow> ScheduleImportError" where
  "row_error r k msg = \<lparr>ie_sheet = im_sheet r, ie_index = im_index r, ie_row = im_row r, ie_column = k, ie_message = msg\<rparr>"

definition group_own :: "grouping \<Rightarrow> importedRow \<Rightarrow> grouping" where
  "group_own g r =
     (let g' = (if im_class r \<in> set (gp_order g) then g else g\<lparr>gp_order := gp_order g @ [im_class r]\<rparr>) in
      case find_row (\<lambda>q. row_key q = row_key r) (gp_rows g) of
        Some first \<Rightarrow> g'\<lparr>gp_problems := gp_problems g @ [row_error r colPeriod
          (u ''period '' @ itoa (sd_number (im_period r)) @ u '' on '' @ sd_day (im_period r) @ u '' for grade '' @ fst (im_class r) @
           u '', section '' @ snd (im_class r) @ u '' is already in sheet '' @ im_sheet first @ u '' row '' @ itoa (int (im_row first)))]\<rparr>
      | None \<Rightarrow> g'\<lparr>gp_rows := gp_rows g @ [r]\<rparr>)"

definition group_row :: "scheduleClassKey option \<Rightarrow> grouping \<Rightarrow> importedRow \<Rightarrow> grouping" where
  "group_row only g r =
     (case only of
        Some k \<Rightarrow>
          if im_class r \<noteq> k then g\<lparr>gp_problems := gp_problems g @ [row_error r (if fst (im_class r) = fst k then colSection else colGrade)
            (u ''this file is for grade '' @ fst k @ u '', section '' @ snd k @ u '' only'')]\<rparr>
          else group_own g r
      | None \<Rightarrow> group_own g r)"

definition class_rows_of :: "grouping \<Rightarrow> scheduleClassKey \<Rightarrow> importedRow list" where
  "class_rows_of g k = filter (\<lambda>r. im_class r = k) (gp_rows g)"

definition day_problems :: "grouping \<Rightarrow> scheduleClassKey \<Rightarrow> ScheduleImportError list" where
  "day_problems g k =
     concat (map (\<lambda>day.
       let rs = filter (\<lambda>r. sd_day (im_period r) = day) (class_rows_of g k); p = dayPeriodsProblem (map (sd_number \<circ> im_period) rs) in
       if rs \<noteq> [] \<and> p \<noteq> []
       then [row_error (hd rs) colPeriod (u ''grade '' @ fst k @ u '', section '' @ snd k @ u '' has '' @ p @ u '' on '' @ day @ u ''; '' @ dayPeriodsRule)]
       else []) schoolWeek)"

definition group_rows :: "scheduleClassKey option \<Rightarrow> ScheduleImportError list \<Rightarrow> importedRow list \<Rightarrow> grouping" where
  "group_rows only ps rs = foldl (group_row only) \<lparr>gp_order = [], gp_rows = [], gp_problems = ps\<rparr> rs"

definition grouped_import :: "grouping \<Rightarrow> scheduleImport" where
  "grouped_import g =
     \<lparr>si_classes = map (\<lambda>k. (k, sort_key (\<lambda>p. (dayIndex (sd_day p), sd_number p)) (map im_period (class_rows_of g k)))) (gp_order g),
      si_problems = sort_key (\<lambda>e. (ie_index e, ie_row e, ie_column e)) (gp_problems g @ concat (map (day_problems g) (gp_order g)))\<rparr>"

fun unzips_too_much :: "nat \<Rightarrow> nat list \<Rightarrow> bool" where
  "unzips_too_much unzipped [] = False"
| "unzips_too_much unzipped (n # ns) =
     (MaxScheduleUnzippedBytes < n \<or> MaxScheduleUnzippedBytes < unzipped + n \<or> unzips_too_much (unzipped + n) ns)"

definition readScheduleWorkbook ::
    "(nat \<Rightarrow> nat) \<Rightarrow> (str \<Rightarrow> int option) \<Rightarrow> (str \<Rightarrow> str option) \<Rightarrow> (nat \<Rightarrow> nat \<Rightarrow> str) \<Rightarrow> (bytes \<Rightarrow> nat list option) \<Rightarrow>
     (bytes \<Rightarrow> worksheet list option) \<Rightarrow> bytes \<Rightarrow> scheduleClassKey option \<Rightarrow> str + scheduleImport" where
  "readScheduleWorkbook low whole plain cell_name unzip open_book data only =
     (if data = [] then Inl (u ''file is empty'')
      else if take 4 data \<noteq> [80, 75, 3, 4] then Inl notAWorkbook
      else case unzip data of
        None \<Rightarrow> Inl notAWorkbook
      | Some sizes \<Rightarrow>
          if unzips_too_much 0 sizes then Inl (u ''file must unpack to at most 20 MiB'')
          else (case open_book data of
            None \<Rightarrow> Inl notAWorkbook
          | Some sheets \<Rightarrow>
              if sheets = [] then Inl notAWorkbook
              else (case read_sheets low whole plain cell_name 0 \<lparr>sr_problems = [], sr_valid = [], sr_headers = 0, sr_count = 0\<rparr> sheets of
                Inl msg \<Rightarrow> Inl msg
              | Inr s \<Rightarrow>
                  if sr_headers s = 0
                  then Inl (u ''No worksheet has the header row ('' @ join_with (u '', '') scheduleHeaders @ u '') in its first '' @
                    itoa (int scheduleHeaderSearchRows) @ u '' rows'')
                  else let g = group_rows only (sr_problems s) (sr_valid s); n = length (gp_order g) in
                    (case only of
                       Some k \<Rightarrow> if gp_order g = [] \<and> gp_problems g = []
                         then Inl (u ''The file has no rows for grade '' @ fst k @ u '', section '' @ snd k)
                         else if MaxScheduleImportClasses < n
                         then Inl (u ''The file has '' @ itoa (int n) @ u '' classes; at most '' @ itoa (int MaxScheduleImportClasses) @ u '' can be imported at once'')
                         else Inr (grouped_import g)
                     | None \<Rightarrow> if MaxScheduleImportClasses < n
                         then Inl (u ''The file has '' @ itoa (int n) @ u '' classes; at most '' @ itoa (int MaxScheduleImportClasses) @ u '' can be imported at once'')
                         else Inr (grouped_import g)))))"

section \<open>Importing\<close>

definition scheduleImportPartLimits :: "str \<Rightarrow> nat option" where
  "scheduleImportPartLimits = map_of [(u ''file'', MaxScheduleFileBytes), (u ''dry_run'', 16),
     (u ''grade'', maxScheduleClassPartBytes), (u ''section'', maxScheduleClassPartBytes)]"

definition bad_import :: "str \<Rightarrow> formError" where
  "bad_import msg = \<lparr>fe_status = 400, fe_msg = msg, fe_body = False\<rparr>"

definition dry_run_message :: str where "dry_run_message = u ''dry_run must be \"true\" or \"false\"''"

definition scheduleImportOverLimit :: "str \<Rightarrow> formError" where
  "scheduleImportOverLimit name =
     (if name = u ''file''
      then \<lparr>fe_status = 413, fe_msg = u ''file must be at most 2 MiB ('' @ itoa (int MaxScheduleFileBytes) @ u '' bytes)'', fe_body = False\<rparr>
      else if name = u ''grade'' \<or> name = u ''section'' then bad_import (name @ u '' must be at most 50 characters'')
      else bad_import dry_run_message)"

definition text_of_part :: "string \<Rightarrow> bytes \<Rightarrow> str + str" where
  "text_of_part name data =
     (case decodeUTF8 data of
        None \<Rightarrow> Inl (u name @ u '' must be text'')
      | Some s \<Rightarrow> if 0 \<in> set s then Inl (u name @ u '' must be text'') else Inr (TrimSpace s))"

definition importClassGuard :: "form_parts \<Rightarrow> str + scheduleClassKey option" where
  "importClassGuard raw =
     (case (map_of raw (u ''grade''), map_of raw (u ''section'')) of
        (None, None) \<Rightarrow> Inr None
      | (Some g, None) \<Rightarrow> Inl (u ''section is required when grade is sent'')
      | (None, Some c) \<Rightarrow> Inl (u ''grade is required when section is sent'')
      | (Some g, Some c) \<Rightarrow>
          andThen (text_of_part ''grade'' g) (\<lambda>grade.
          andThen (text_of_part ''section'' c) (\<lambda>section.
          let msg = scheduleClassProblem grade section in if msg \<noteq> [] then Inl msg else Inr (Some (grade, section)))))"

definition dry_run_part :: "form_parts \<Rightarrow> str + bool" where
  "dry_run_part raw =
     (case map_of raw (u ''dry_run'') of
        None \<Rightarrow> Inr False
      | Some v \<Rightarrow> if v = u ''true'' then Inr True else if v = u ''false'' then Inr False else Inl dry_run_message)"

record ScheduleImportClass =
  ic_grade :: str
  ic_section :: str
  ic_periods :: int
  ic_students :: int

fun import_classes :: "(scheduleClassKey \<times> SchedulePeriod list) list \<Rightarrow> (err, ScheduleImportClass list) tx" where
  "import_classes [] = ret []"
| "import_classes ((k, ps) # kps) =
     bindE (replaceClassSchedule (fst k) (snd k) ps) (\<lambda>_.
     bindE (with_text [fst k, snd k] (query (class_students k))) (\<lambda>n.
     bindE (import_classes kps) (\<lambda>cs.
     ret (\<lparr>ic_grade = fst k, ic_section = snd k, ic_periods = int (length ps), ic_students = n\<rparr> # cs))))"

definition rolled_back :: "('e, 'a) tx \<Rightarrow> ('e, 'a) tx" where
  \<comment> \<open>a transaction that is never committed\<close>
  "rolled_back m w = (case m w of (r, w') \<Rightarrow> (r, rollback_to w w'))"

definition import_tx :: "bool \<Rightarrow> (scheduleClassKey \<times> SchedulePeriod list) list \<Rightarrow> (err, ScheduleImportClass list) tx" where
  "import_tx dryRun kps =
     (if dryRun then bindE control (\<lambda>_. rolled_back (bindE lockSchedules (\<lambda>_. import_classes kps)))
      else in_tx id (bindE lockSchedules (\<lambda>_. import_classes kps)))"

record reported_error =
  re_sheet :: str
  re_row :: nat
  re_column :: str
  re_message :: str

definition reported :: "ScheduleImportError \<Rightarrow> reported_error" where
  "reported e = \<lparr>re_sheet = ie_sheet e, re_row = ie_row e, re_column = column_name (ie_column e), re_message = ie_message e\<rparr>"

definition capImportErrors :: "ScheduleImportError list \<Rightarrow> reported_error list" where
  "capImportErrors ps =
     (if length ps \<le> MaxScheduleImportErrors then map reported ps
      else map reported (take MaxScheduleImportErrors ps) @
        [\<lparr>re_sheet = [], re_row = 0, re_column = [],
          re_message = u ''and '' @ itoa (int (length ps - MaxScheduleImportErrors)) @ u '' more problems''\<rparr>])"

datatype import_reply =
    Import_Refused str "reported_error list"   \<comment> \<open>answered with status 400\<close>
  | Import_Done bool int "ScheduleImportClass list" "str list"

definition import_warnings :: "ScheduleImportClass list \<Rightarrow> str list" where
  "import_warnings cs =
     map (\<lambda>c. u ''grade '' @ ic_grade c @ u '', section '' @ ic_section c @
         u '': no active student has this grade and section, parents will not see it'')
       (filter (\<lambda>c. ic_students c = 0) cs)"

definition class_target :: "scheduleClassKey option \<Rightarrow> str \<times> str" where
  "class_target only = (case only of None \<Rightarrow> ([], []) | Some k \<Rightarrow> (u ''class'', fst k @ u ''/'' @ snd k))"

definition save_import :: "bool \<Rightarrow> scheduleClassKey option \<Rightarrow> scheduleImport \<Rightarrow> (refusal, import_reply) tx" where
  "save_import dryRun only imp =
     (if si_problems imp \<noteq> []
      then ret (Import_Refused (u ''The file has '' @ itoa (int (length (si_problems imp))) @
          (if length (si_problems imp) = 1 then u '' problem'' else u '' problems'') @ u ''; nothing was saved'') (capImportErrors (si_problems imp)))
      else
        bindE (lift_err (internal_error ''Failed to import schedule'') (import_tx dryRun (sort_key fst (si_classes imp)))) (\<lambda>cs.
        let periods = sum_list (map ic_periods cs) in
        bindE (NoteActivity (fst (class_target only)) (snd (class_target only))
          (dryRunDetail dryRun [u ''classes='' @ itoa (int (length cs)), u ''periods='' @ itoa periods])) (\<lambda>_.
        ret (Import_Done dryRun periods cs (import_warnings cs)))))"

definition AdminScheduleImportHandler ::
    "(nat \<Rightarrow> nat) \<Rightarrow> (str \<Rightarrow> int option) \<Rightarrow> (str \<Rightarrow> str option) \<Rightarrow> (nat \<Rightarrow> nat \<Rightarrow> str) \<Rightarrow> (bytes \<Rightarrow> nat list option) \<Rightarrow>
     (bytes \<Rightarrow> worksheet list option) \<Rightarrow> form_request \<Rightarrow> (refusal, import_reply) tx" where
  "AdminScheduleImportHandler low whole plain cell_name unzip open_book r =
     bindE (lift_err fe_respond (of_sum (readFormParts r scheduleImportPartLimits scheduleImportOverLimit))) (\<lambda>raw.
     bindE (of_option (Refuse 400 (u ''file is required'')) (map_of raw (u ''file''))) (\<lambda>data.
     bindE (lift_err (Refuse 400) (of_sum (dry_run_part raw))) (\<lambda>dryRun.
     bindE (NoteActivity [] [] (dryRunDetail dryRun [])) (\<lambda>_.
     bindE (lift_err (Refuse 400) (of_sum (importClassGuard raw))) (\<lambda>only.
     bindE (case only of None \<Rightarrow> ret () | Some k \<Rightarrow> NoteActivity (fst (class_target only)) (snd (class_target only)) (dryRunDetail dryRun [])) (\<lambda>_.
     bindE (lift_err (Refuse 400) (of_sum (readScheduleWorkbook low whole plain cell_name unzip open_book data only))) (\<lambda>imp.
     save_import dryRun only imp)))))))"

section \<open>What the rows of a file amount to\<close>

definition row_sound :: "importedRow \<Rightarrow> bool" where
  "row_sound r \<longleftrightarrow> sd_day (im_period r) \<in> set schoolWeek"

definition grouping_sound :: "scheduleClassKey option \<Rightarrow> grouping \<Rightarrow> bool" where
  "grouping_sound only g \<longleftrightarrow> distinct (gp_order g) \<and> distinct (map row_key (gp_rows g)) \<and> list_all row_sound (gp_rows g) \<and>
     (\<forall>k. only = Some k \<longrightarrow> set (gp_order g) \<subseteq> {k})"

lemma row_sound_read:
  assumes "read_row whole plain ws i cols r = (ps, rs)"
  shows "list_all row_sound rs"
proof -
  have "day \<in> set schoolWeek" if "canonicalSchoolDay s = Some day" for s day using that by (rule canonical_day)
  then show ?thesis using assms
    by (auto simp: read_row_def validScheduleRow_def Let_def row_sound_def split: prod.splits option.splits if_splits)
qed

lemma sheet_rows_sound:
  assumes "readScheduleSheet low whole plain cell_name ws i n = Inr (ps, rs, found, n')"
  shows "list_all row_sound rs"
proof -
  from assms obtain cols raws where "rs = concat (map snd (map (read_row whole plain ws i cols) raws))"
    by (auto simp: readScheduleSheet_def Let_def split: option.splits sum.splits if_splits)
  moreover have "list_all row_sound (snd (read_row whole plain ws i cols r))" for r
    using row_sound_read [of whole plain ws i cols r] by (metis prod.collapse)
  ultimately show ?thesis by (auto simp: list_all_iff)
qed

lemma sheets_rows_sound:
  "read_sheets low whole plain cell_name i s wss = Inr s' \<Longrightarrow> list_all row_sound (sr_valid s) \<Longrightarrow> list_all row_sound (sr_valid s')"
  by (induction low whole plain cell_name i s wss rule: read_sheets.induct)
    (auto split: sum.splits prod.splits dest: sheet_rows_sound)

lemma group_own_sound: "grouping_sound None g \<Longrightarrow> row_sound r \<Longrightarrow> grouping_sound None (group_own g r)"
  by (auto simp: grouping_sound_def group_own_def Let_def find_row_None split: option.splits)

lemma group_own_order: "set (gp_order (group_own g r)) \<subseteq> insert (im_class r) (set (gp_order g))"
  by (auto simp: group_own_def Let_def split: option.splits)

lemma group_row_sound: "grouping_sound only g \<Longrightarrow> row_sound r \<Longrightarrow> grouping_sound only (group_row only g r)"
proof (cases only)
  case None
  then show "grouping_sound only g \<Longrightarrow> row_sound r \<Longrightarrow> grouping_sound only (group_row only g r)"
    using group_own_sound by (simp add: group_row_def)
next
  case (Some k)
  assume g: "grouping_sound only g" and r: "row_sound r"
  then have "grouping_sound None (group_own g r)" by (intro group_own_sound) (simp_all add: grouping_sound_def)
  with Some g group_own_order [of g r] show "grouping_sound only (group_row only g r)"
    by (auto simp: group_row_def grouping_sound_def split: if_splits)
qed

lemma grouped_sound:
  assumes "list_all row_sound rs"
  shows "grouping_sound only (group_rows only ps rs)"
proof -
  have "grouping_sound only g \<Longrightarrow> list_all row_sound rs \<Longrightarrow> grouping_sound only (foldl (group_row only) g rs)" for g
    by (induction rs arbitrary: g) (simp_all add: group_row_sound)
  then show ?thesis using assms by (simp add: group_rows_def grouping_sound_def)
qed

lemma class_periods_whole:
  assumes g: "grouping_sound only g" and d: "day_problems g k = []"
  shows "whole_days (map im_period (class_rows_of g k))"
proof -
  have key: "row_key r = row_key q" if "im_class r = im_class q" "sd_day (im_period r) = sd_day (im_period q)"
    "sd_number (im_period r) = sd_number (im_period q)" for r q using that by (simp add: row_key_def)
  have c: "im_class r = k" "r \<in> set (gp_rows g)" if "r \<in> set (class_rows_of g k)" for r using that by (auto simp: class_rows_of_def)
  have "distinct (map row_key (class_rows_of g k))"
    using g by (simp add: grouping_sound_def class_rows_of_def distinct_map_filter)
  then have "distinct (map (\<lambda>r. (sd_day (im_period r), sd_number (im_period r))) (class_rows_of g k))"
    unfolding distinct_map inj_on_def using key c(1) by (metis prod.inject)
  moreover have "whole_day (numbers_on day (map im_period (class_rows_of g k)))" if "day \<in> set schoolWeek" for day
  proof -
    let ?rs = "filter (\<lambda>r. sd_day (im_period r) = day) (class_rows_of g k)"
    have "?rs = [] \<or> dayPeriodsProblem (map (sd_number \<circ> im_period) ?rs) = []"
      using d that by (auto simp: day_problems_def Let_def split: if_splits)
    moreover have "numbers_on day (map im_period (class_rows_of g k)) = map (sd_number \<circ> im_period) ?rs"
      by (simp add: numbers_on_def filter_map o_def)
    ultimately show ?thesis by (auto simp: whole_day_def dayPeriodsProblem_ok)
  qed
  ultimately show ?thesis
    using g c(2) by (auto simp: whole_days_def o_def grouping_sound_def list_all_iff row_sound_def)
qed

lemma whole_days_sort: "whole_days (sort_key f ps) \<longleftrightarrow> whole_days ps"
proof -
  have "mset (map (\<lambda>p. (sd_day p, sd_number p)) (sort_key f ps)) = mset (map (\<lambda>p. (sd_day p, sd_number p)) ps)" by simp
  then have "distinct (map (\<lambda>p. (sd_day p, sd_number p)) (sort_key f ps)) \<longleftrightarrow> distinct (map (\<lambda>p. (sd_day p, sd_number p)) ps)"
    by (rule mset_eq_imp_distinct_iff)
  moreover have "sort (numbers_on day (sort_key f ps)) = sort (numbers_on day ps)" for day
  proof (rule properties_for_sort)
    have "mset (numbers_on day (sort_key f ps)) = mset (numbers_on day ps)" by (simp add: numbers_on_def)
    then show "mset (sort (numbers_on day ps)) = mset (numbers_on day (sort_key f ps))" by simp
  qed simp
  moreover have "numbers_on day (sort_key f ps) = [] \<longleftrightarrow> numbers_on day ps = []" for day
    by (simp add: numbers_on_def filter_empty_conv)
  ultimately show ?thesis by (simp add: whole_days_def whole_day_def)
qed

lemma accepted_import:
  assumes "readScheduleWorkbook low whole plain cell_name unzip open_book data only = Inr imp" "si_problems imp = []"
  shows "distinct (map fst (si_classes imp))"
    "(k, ps) \<in> set (si_classes imp) \<Longrightarrow> whole_days ps \<and> sort_key (\<lambda>p. (dayIndex (sd_day p), sd_number p)) ps = ps"
    "only = Some c \<Longrightarrow> k \<in> fst ` set (si_classes imp) \<Longrightarrow> k = c"
proof -
  from assms(1) obtain s sheets where r: "read_sheets low whole plain cell_name 0 \<lparr>sr_problems = [], sr_valid = [], sr_headers = 0, sr_count = 0\<rparr> sheets = Inr s"
    and i: "imp = grouped_import (group_rows only (sr_problems s) (sr_valid s))"
    by (auto simp: readScheduleWorkbook_def Let_def split: option.splits sum.splits if_splits)
  let ?g = "group_rows only (sr_problems s) (sr_valid s)"
  have g: "grouping_sound only ?g" using sheets_rows_sound [OF r] by (intro grouped_sound) simp
  show "distinct (map fst (si_classes imp))" using g by (simp add: i grouped_import_def o_def grouping_sound_def)
  show "k = c" if "only = Some c" "k \<in> fst ` set (si_classes imp)"
    using g that by (auto simp: i grouped_import_def grouping_sound_def)
  show "whole_days ps \<and> sort_key (\<lambda>p. (dayIndex (sd_day p), sd_number p)) ps = ps" if "(k, ps) \<in> set (si_classes imp)"
  proof -
    have "gp_problems ?g @ concat (map (day_problems ?g) (gp_order ?g)) = []"
    proof -
      have "set (gp_problems ?g @ concat (map (day_problems ?g) (gp_order ?g))) = set (si_problems imp)" by (simp add: i grouped_import_def)
      then show ?thesis using assms(2) by simp
    qed
    moreover from that have "k \<in> set (gp_order ?g)"
      and ps: "ps = sort_key (\<lambda>p. (dayIndex (sd_day p), sd_number p)) (map im_period (class_rows_of ?g k))"
      by (auto simp: i grouped_import_def)
    ultimately have "day_problems ?g k = []" by simp
    from class_periods_whole [OF g this] show ?thesis unfolding ps whole_days_sort by (simp add: sort_key_id_if_sorted)
  qed
qed

section \<open>What an import stores\<close>

definition with_classes :: "(scheduleClassKey \<times> SchedulePeriod list) list \<Rightarrow> db \<Rightarrow> db" where
  "with_classes kps d = foldl (\<lambda>d (k, ps). with_class (fst k) (snd k) ps d) d kps"

lemma import_classes_ok:
  "import_classes kps w = (Inr cs, w') \<Longrightarrow> db w' = with_classes kps (db w) \<and>
   map (\<lambda>c. ((ic_grade c, ic_section c), ic_periods c)) cs = map (\<lambda>(k, ps). (k, int (length ps))) kps"
proof (induction kps arbitrary: w cs)
  case (Cons kp kps)
  obtain k ps where kp: "kp = (k, ps)" by fastforce
  with Cons.prems obtain x w1 n w2 cs1 where s: "replaceClassSchedule (fst k) (snd k) ps w = (Inr x, w1)"
    "with_text [fst k, snd k] (query (class_students k)) w1 = (Inr n, w2)" "import_classes kps w2 = (Inr cs1, w')"
    "cs = \<lparr>ic_grade = fst k, ic_section = snd k, ic_periods = int (length ps), ic_students = n\<rparr> # cs1"
    by (auto simp: bindE_ok simple_ok)
  have "db w2 = with_class (fst k) (snd k) ps (db w)" using query_okD [OF with_text_ok [OF s(2)]] replaced_ok [OF s(1)] by simp
  with Cons.IH [OF s(3)] s(4) show ?case by (simp add: kp with_classes_def)
qed (simp add: simple_ok with_classes_def)

lemma with_classes_other:
  "k \<notin> fst ` set kps \<Longrightarrow> filter (of_class (fst k) (snd k)) (weekly_schedules (with_classes kps d)) =
     filter (of_class (fst k) (snd k)) (weekly_schedules d)"
proof (induction kps arbitrary: d)
  case (Cons kp kps)
  obtain k1 ps where kp: "kp = (k1, ps)" by fastforce
  with Cons.prems have "(fst k, snd k) \<noteq> (fst k1, snd k1)" by auto
  then show ?case
    using Cons.IH [of "with_class (fst k1) (snd k1) ps d"] Cons.prems other_class_rows [of "fst k" "snd k" "fst k1" "snd k1" ps d]
    by (simp add: kp with_classes_def)
qed (simp add: with_classes_def)

lemma with_classes_at:
  "distinct (map fst kps) \<Longrightarrow> (k, ps) \<in> set kps \<Longrightarrow>
   filter (of_class (fst k) (snd k)) (weekly_schedules (with_classes kps d)) = map (period_row (fst k) (snd k)) ps"
proof (induction kps arbitrary: d)
  case (Cons kp kps)
  obtain k1 ps1 where kp: "kp = (k1, ps1)" by fastforce
  let ?d = "with_class (fst k1) (snd k1) ps1 d"
  have e: "with_classes (kp # kps) d = with_classes kps ?d" by (simp add: kp with_classes_def)
  show ?case
  proof (cases "(k, ps) = kp")
    case True
    with Cons.prems kp have "k \<notin> fst ` set kps" "k1 = k" "ps1 = ps" by auto
    then show ?thesis unfolding e using with_classes_other [of k kps ?d] class_rows by simp
  next
    case False
    with Cons show ?thesis unfolding e by simp
  qed
qed simp

lemma rolled_back_db: "rolled_back m w = (r, w') \<Longrightarrow> db w' = db w"
  by (auto simp: rolled_back_def split: prod.splits)

lemma import_tx_db:
  assumes "import_tx dryRun kps w = (r, w')"
  shows "(dryRun \<or> isl r \<longrightarrow> db w' = db w) \<and> (\<forall>cs. \<not> dryRun \<longrightarrow> r = Inr cs \<longrightarrow> db w' = with_classes kps (db w) \<and>
    map (\<lambda>c. ((ic_grade c, ic_section c), ic_periods c)) cs = map (\<lambda>(k, ps). (k, int (length ps))) kps)"
proof (cases dryRun)
  case True
  have "db w' = db w"
  proof (cases "control w")
    case (Pair z w1)
    with assms True show ?thesis
      by (cases z) (auto simp: import_tx_def bindE_def control_ok dest: rolled_back_db failed_db)
  qed
  then show ?thesis using True by simp
next
  case False
  then have t: "in_tx id (bindE lockSchedules (\<lambda>_. import_classes kps)) w = (r, w')" using assms by (simp add: import_tx_def)
  show ?thesis
  proof (cases r)
    case (Inl e)
    then show ?thesis using t in_tx_rollback False by auto
  next
    case (Inr cs)
    with t obtain w1 w2 where "bindE lockSchedules (\<lambda>_. import_classes kps) w1 = (Inr cs, w2)" "db w1 = db w" "db w' = db w2"
      by (auto elim: in_tx_ok)
    then obtain w3 where "import_classes kps w3 = (Inr cs, w2)" "db w3 = db w" "db w' = db w2"
      by (auto simp: bindE_ok lockSchedules_def control_ok)
    with import_classes_ok [of kps w3 cs w2] Inr False show ?thesis by auto
  qed
qed

lemma save_import_db:
  assumes "save_import dryRun only imp w = (res, w1)"
  shows "(db w1 = db w \<and> (\<forall>n cs ws. res \<noteq> Inr (Import_Done False n cs ws))) \<or>
    (\<exists>cs. res = Inr (Import_Done False (sum_list (map ic_periods cs)) cs (import_warnings cs)) \<and> si_problems imp = [] \<and>
       db w1 = with_classes (sort_key fst (si_classes imp)) (db w) \<and>
       map (\<lambda>c. ((ic_grade c, ic_section c), ic_periods c)) cs = map (\<lambda>(k, ps). (k, int (length ps))) (sort_key fst (si_classes imp)))"
proof (cases "si_problems imp = []")
  case True
  obtain z w2 where t: "import_tx dryRun (sort_key fst (si_classes imp)) w = (z, w2)" by fastforce
  note d = import_tx_db [OF t]
  show ?thesis
  proof (cases z)
    case (Inl e)
    then show ?thesis using assms d t by (auto simp: save_import_def True bindE_def lift_err_run internal_error_def)
  next
    case (Inr cs)
    then have r: "res = Inr (Import_Done dryRun (sum_list (map ic_periods cs)) cs (import_warnings cs))" "db w1 = db w2"
      using assms t by (auto simp: save_import_def True bindE_def lift_err_run Let_def run_simps)
    then show ?thesis using d True Inr by (cases dryRun) auto
  qed
qed (use assms in \<open>auto simp: save_import_def run_simps\<close>)

lemma import_run:
  assumes "AdminScheduleImportHandler low whole plain cell_name unzip open_book r w = (res, w1)"
  shows "(db w1 = db w \<and> isl res) \<or>
    (\<exists>raw data dryRun only imp w0. readFormParts r scheduleImportPartLimits scheduleImportOverLimit = Inr raw \<and> map_of raw (u ''file'') = Some data \<and>
       dry_run_part raw = Inr dryRun \<and> importClassGuard raw = Inr only \<and>
       readScheduleWorkbook low whole plain cell_name unzip open_book data only = Inr imp \<and> db w0 = db w \<and> faults w0 = faults w \<and>
       save_import dryRun only imp w0 = (res, w1))"
proof -
  note d = AdminScheduleImportHandler_def bindE_def lift_err_run run_simps
  show ?thesis
  proof (cases "readFormParts r scheduleImportPartLimits scheduleImportOverLimit")
    case (Inl e)
    then show ?thesis using assms by (auto simp: d)
  next
    case raw: (Inr raw)
    show ?thesis
    proof (cases "map_of raw (u ''file'')")
      case None
      then show ?thesis using assms raw by (auto simp: d)
    next
      case data: (Some data)
      show ?thesis
      proof (cases "dry_run_part raw")
        case (Inl e)
        then show ?thesis using assms raw data by (auto simp: d)
      next
        case dry: (Inr dryRun)
        show ?thesis
        proof (cases "importClassGuard raw")
          case (Inl e)
          then show ?thesis using assms raw data dry by (auto simp: d)
        next
          case only: (Inr only)
          let ?w = "w\<lparr>noted := (fst (class_target only), snd (class_target only), dryRunDetail dryRun [])\<rparr>"
          have run: "(case readScheduleWorkbook low whole plain cell_name unzip open_book data only of
              Inl msg \<Rightarrow> (Inl (Refuse 400 msg), ?w) | Inr imp \<Rightarrow> save_import dryRun only imp ?w) = (res, w1)"
            using assms raw data dry only
            by (cases only; cases "readScheduleWorkbook low whole plain cell_name unzip open_book data only")
              (simp_all add: d class_target_def)
          show ?thesis
          proof (cases "readScheduleWorkbook low whole plain cell_name unzip open_book data only")
            case (Inl msg)
            then show ?thesis using run by auto
          next
            case (Inr imp)
            then have s: "save_import dryRun only imp ?w = (res, w1)" using run by simp
            show ?thesis
              by (rule disjI2, rule exI [of _ raw], rule exI [of _ data], rule exI [of _ dryRun], rule exI [of _ only],
                  rule exI [of _ imp], rule exI [of _ ?w]) (simp add: raw data dry only Inr s)
          qed
        qed
      qed
    qed
  qed
qed

lemma with_classes_frame: "with_classes kps d = d\<lparr>weekly_schedules := weekly_schedules (with_classes kps d)\<rparr>"
proof (induction kps arbitrary: d)
  case (Cons kp kps)
  have "with_classes (kp # kps) d = with_classes kps (with_class (fst (fst kp)) (snd (fst kp)) (snd kp) d)"
    by (simp add: with_classes_def case_prod_beta)
  with Cons [of "with_class (fst (fst kp)) (snd (fst kp)) (snd kp) d"] show ?case by (simp add: with_class_def)
qed (simp add: with_classes_def)

lemma class_stored:
  "filter (of_class g s) (weekly_schedules d) = map (period_row g s) ps \<Longrightarrow> whole_days ps \<Longrightarrow>
   class_schedule coll g s d = sort_key (\<lambda>p. (dayIndex (sd_day p), sd_number p)) ps"
  by (simp add: class_schedule_def sort_whole_days)

section \<open>Whole days\<close>

definition timetable_whole :: "db \<Rightarrow> bool" where
  "timetable_whole d \<longleftrightarrow> (\<forall>g s. whole_days (map stored_period (filter (of_class g s) (weekly_schedules d))))"

lemma stored_rows: "map stored_period (map (period_row g s) ps) = ps"
  by (induction ps) (simp_all add: stored_period_def period_row_def)

lemma whole_with_class:
  assumes "timetable_whole d" "whole_days ps"
  shows "timetable_whole (with_class g s ps d)"
  unfolding timetable_whole_def
proof (intro allI)
  fix g' s'
  show "whole_days (map stored_period (filter (of_class g' s') (weekly_schedules (with_class g s ps d))))"
  proof (cases "(g', s') = (g, s)")
    case True
    then show ?thesis using assms(2) class_rows [of g s ps d] stored_rows [of g s ps] by simp
  next
    case False
    then show ?thesis using assms(1) other_class_rows [OF False] by (simp add: timetable_whole_def)
  qed
qed

lemma whole_with_classes:
  "timetable_whole d \<Longrightarrow> (\<And>k ps. (k, ps) \<in> set kps \<Longrightarrow> whole_days ps) \<Longrightarrow> timetable_whole (with_classes kps d)"
proof (induction kps arbitrary: d)
  case (Cons kp kps)
  obtain k ps where kp: "kp = (k, ps)" by fastforce
  have "timetable_whole (with_class (fst k) (snd k) ps d)" using Cons.prems(1) Cons.prems(2) [of k ps] kp by (intro whole_with_class) simp_all
  from Cons.IH [OF this] Cons.prems(2) show ?case by (auto simp: kp with_classes_def)
qed (simp add: with_classes_def)

lemma save_schedule_db:
  assumes "save_schedule coll g s ps w = (Inr l, w')"
  shows "db w' = with_class g s ps (db w)"
proof -
  from assms obtain w5 w6 x where r: "replaceClassSchedule g s ps w5 = (Inr x, w6)" and w5: "db w5 = db w"
    and l: "with_text [g, s] (query (class_schedule coll g s)) w6 = (Inr l, w')"
    by (auto simp: save_schedule_def readSchedule_def lockSchedules_def bindE_ok dest!: control_ok(1))
  from query_okD [OF with_text_ok [OF l]] replaced_ok [OF r] w5 show ?thesis by simp
qed

lemma keeps_whole_save: "keeps timetable_whole (AdminScheduleHandler coll low letter verb g s b)"
proof (cases verb)
  case PUT
  have t: "keeps timetable_whole (lift_err f (in_tx id (save_schedule coll g s ps)))" if "whole_days ps" for g s ps and f :: "err \<Rightarrow> refusal"
    by (intro keeping keeps_okI) (use that save_schedule_db whole_with_class in metis)
  show ?thesis unfolding AdminScheduleHandler_def PUT meth.case
    by (rule keeps_bindE, rule keeps_of_sum, rule keeps_bind_post [where Q = "\<lambda>(g, s, ps). whole_days ps"])
      (auto simp: simple_ok dest: validated(4) intro!: keeping t split: prod.splits)
qed (simp_all add: AdminScheduleHandler_def Let_def readSchedule_def, (intro keeping)+)

lemma whole_after_import:
  assumes "timetable_whole (db w)" "AdminScheduleImportHandler low whole plain cell_name unzip open_book r w = (res, w1)"
  shows "timetable_whole (db w1)"
  using import_run [OF assms(2)]
proof (elim disjE exE conjE)
  fix raw data dryRun only imp w0
  assume b: "readScheduleWorkbook low whole plain cell_name unzip open_book data only = Inr imp"
    and w0: "db w0 = db w" and s: "save_import dryRun only imp w0 = (res, w1)"
  show ?thesis using save_import_db [OF s]
  proof (elim disjE exE conjE)
    fix cs
    assume "si_problems imp = []" "db w1 = with_classes (sort_key fst (si_classes imp)) (db w0)"
    then show ?thesis using accepted_import(2) [OF b] whole_with_classes [of "db w0" "sort_key fst (si_classes imp)"] assms(1) w0 by auto
  qed (use assms(1) w0 in simp)
qed (use assms(1) in simp)

datatype timetable_request =
    Schedule_Request meth str str "ScheduleRequest body"
  | Import_Request form_request

fun timetable_requests ::
    "(str \<Rightarrow> 'k :: linorder) \<Rightarrow> (nat \<Rightarrow> nat) \<Rightarrow> (nat \<Rightarrow> bool) \<Rightarrow> (str \<Rightarrow> int option) \<Rightarrow> (str \<Rightarrow> str option) \<Rightarrow> (nat \<Rightarrow> nat \<Rightarrow> str) \<Rightarrow>
     (bytes \<Rightarrow> nat list option) \<Rightarrow> (bytes \<Rightarrow> worksheet list option) \<Rightarrow> timetable_request list \<Rightarrow> world \<Rightarrow> world" where
  "timetable_requests coll low letter whole plain cell_name unzip open_book [] w = w"
| "timetable_requests coll low letter whole plain cell_name unzip open_book (q # qs) w =
     timetable_requests coll low letter whole plain cell_name unzip open_book qs
       (case q of
          Schedule_Request verb g s b \<Rightarrow> snd (AdminScheduleHandler coll low letter verb g s b w)
        | Import_Request r \<Rightarrow> snd (AdminScheduleImportHandler low whole plain cell_name unzip open_book r w))"

section \<open>Properties\<close>

text \<open>C31. An import is all or nothing. When it is answered as done, the file had no problem, every class of the file has exactly the
  file's periods, in complete days, and nothing else in the database changed; in every other case, a dry run included, the database is
  what it was.\<close>

theorem import_all_or_nothing:
  assumes run: "AdminScheduleImportHandler low whole plain cell_name unzip open_book r w = (res, w1)"
  shows "(case res of
      Inr (Import_Done False n cs ws) \<Rightarrow>
        (\<exists>raw data only imp. readFormParts r scheduleImportPartLimits scheduleImportOverLimit = Inr raw \<and> map_of raw (u ''file'') = Some data \<and>
           importClassGuard raw = Inr only \<and> readScheduleWorkbook low whole plain cell_name unzip open_book data only = Inr imp \<and>
           si_problems imp = [] \<and> n = sum_list (map (\<lambda>(k, ps). int (length ps)) (si_classes imp)) \<and>
           (\<forall>(k, ps) \<in> set (si_classes imp). whole_days ps \<and> class_schedule coll (fst k) (snd k) (db w1) = ps \<and> (only = None \<or> only = Some k)) \<and>
           (\<forall>g s. (g, s) \<notin> fst ` set (si_classes imp) \<longrightarrow>
              filter (of_class g s) (weekly_schedules (db w1)) = filter (of_class g s) (weekly_schedules (db w))) \<and>
           db w1 = (db w)\<lparr>weekly_schedules := weekly_schedules (db w1)\<rparr>)
    | _ \<Rightarrow> db w1 = db w)"
  using import_run [OF run]
proof (elim disjE exE conjE)
  fix raw data dryRun only imp w0
  assume f: "readFormParts r scheduleImportPartLimits scheduleImportOverLimit = Inr raw" "map_of raw (u ''file'') = Some data"
    "importClassGuard raw = Inr only"
    and b: "readScheduleWorkbook low whole plain cell_name unzip open_book data only = Inr imp"
    and w0: "db w0 = db w" and s: "save_import dryRun only imp w0 = (res, w1)"
  show ?thesis using save_import_db [OF s]
  proof (elim disjE exE conjE)
    assume "db w1 = db w0" "\<forall>n cs ws. res \<noteq> Inr (Import_Done False n cs ws)"
    then show ?thesis using w0 by (auto split: sum.splits import_reply.splits bool.splits)
  next
    fix cs
    let ?kps = "sort_key fst (si_classes imp)"
    assume r: "res = Inr (Import_Done False (sum_list (map ic_periods cs)) cs (import_warnings cs))" and p: "si_problems imp = []"
      and d: "db w1 = with_classes ?kps (db w0)"
      and c: "map (\<lambda>c. ((ic_grade c, ic_section c), ic_periods c)) cs = map (\<lambda>(k, ps). (k, int (length ps))) ?kps"
    note a = accepted_import [OF b p]
    have ds: "distinct (map fst ?kps)"
    proof -
      have "mset (map fst ?kps) = mset (map fst (si_classes imp))" by simp
      from mset_eq_imp_distinct_iff [OF this] a(1) show ?thesis by simp
    qed
    have "map ic_periods cs = map snd (map (\<lambda>c. ((ic_grade c, ic_section c), ic_periods c)) cs)" by simp
    also have "\<dots> = map (\<lambda>(k, ps). int (length ps)) ?kps" unfolding c by (simp add: case_prod_beta)
    finally have n: "sum_list (map ic_periods cs) = sum_list (map (\<lambda>(k, ps). int (length ps)) (si_classes imp))"
      by (metis mset_map mset_sort sum_mset_sum_list)
    have at: "whole_days ps \<and> class_schedule coll (fst k) (snd k) (db w1) = ps \<and> (only = None \<or> only = Some k)" if "(k, ps) \<in> set (si_classes imp)" for k ps
      using a(2) [OF that] a(3) [of _ k] that with_classes_at [OF ds, of k ps "db w0"] class_stored [of "fst k" "snd k" "db w1" ps coll] d
      by (cases only) force+
    have other: "filter (of_class g s) (weekly_schedules (db w1)) = filter (of_class g s) (weekly_schedules (db w))"
      if "(g, s) \<notin> fst ` set (si_classes imp)" for g s
      using with_classes_other [of "(g, s)" ?kps "db w0"] that d w0 by simp
    have fr: "db w1 = (db w)\<lparr>weekly_schedules := weekly_schedules (db w1)\<rparr>" unfolding d w0 by (rule with_classes_frame)
    have "\<forall>(k, ps) \<in> set (si_classes imp). whole_days ps \<and> class_schedule coll (fst k) (snd k) (db w1) = ps \<and> (only = None \<or> only = Some k)"
      by (intro ballI, clarify) (rule at)
    moreover have "\<forall>g s. (g, s) \<notin> fst ` set (si_classes imp) \<longrightarrow>
        filter (of_class g s) (weekly_schedules (db w1)) = filter (of_class g s) (weekly_schedules (db w))"
      by (intro allI impI) (rule other)
    ultimately show ?thesis unfolding r sum.case import_reply.case bool.case
      by (rule_tac exI [of _ raw], rule_tac exI [of _ data], rule_tac exI [of _ only], rule_tac exI [of _ imp]) (intro conjI f b p n fr)
  qed
qed (auto split: sum.splits)

text \<open>C32. Whatever is saved or imported, every class's timetable stays complete: on a school day it has no period at all, or
  exactly periods 1 to 5 or 1 to 6, and no day is outside the school week.\<close>

theorem timetable_stays_whole:
  assumes "timetable_whole (db w)"
  shows "timetable_whole (db (timetable_requests coll low letter whole plain cell_name unzip open_book qs w))"
  using assms
proof (induction qs arbitrary: w)
  case (Cons q qs)
  let ?w = "case q of Schedule_Request verb g s b \<Rightarrow> snd (AdminScheduleHandler coll low letter verb g s b w)
    | Import_Request r \<Rightarrow> snd (AdminScheduleImportHandler low whole plain cell_name unzip open_book r w)"
  have "timetable_whole (db ?w)"
  proof (cases q)
    case (Schedule_Request verb g s b)
    then show ?thesis using keeps_whole_save [of coll low letter verb g s b] Cons.prems by (simp add: keeps_def)
  next
    case (Import_Request r)
    then show ?thesis using whole_after_import [OF Cons.prems prod.collapse [symmetric]] by simp
  qed
  from Cons.IH [OF this] show ?case by simp
qed simp

lemma empty_whole: "timetable_whole empty_db"
  by (simp add: timetable_whole_def empty_db_def whole_days_def whole_day_def numbers_on_def)

theorem timetable_stays_whole_witness:
  "timetable_whole (db (timetable_requests (\<lambda>s. length s) id (\<lambda>c. c < 128) (\<lambda>_. None) (\<lambda>_. None) (\<lambda>_ _. []) (\<lambda>_. None) (\<lambda>_. None)
     [Schedule_Request PUT [] [] (Body sunday_request), Import_Request \<lparr>fr_multipart = False, fr_parts = [], fr_end = None, fr_over = False\<rparr>]
     (quiet empty_db (At (Date 2025 10 5) (hm 8 0)))))"
  by (rule timetable_stays_whole) (simp add: empty_whole)

end
