(* ===== verification/ScheduleRoundtrip.thy ===== *)
theory ScheduleRoundtrip
  imports ScheduleImport
begin

text \<open>
  Exporting a class and importing the file: the sheet \<open>AdminScheduleExportHandler\<close> writes is read back by
  \<open>readScheduleWorkbook\<close> as exactly the class's timetable. \<open>letters_kept\<close> and \<open>digits_read\<close> say what the standard library does
  with the characters involved.
\<close>

definition letters_kept :: "(nat \<Rightarrow> nat) \<Rightarrow> bool" where
  \<comment> \<open>\<open>unicode.ToLower\<close> changes no lower-case ASCII letter and no Arabic letter\<close>
  "letters_kept low \<longleftrightarrow> (\<forall>c. (97 \<le> c \<and> c \<le> 122) \<or> (1569 \<le> c \<and> c \<le> 1610) \<longrightarrow> low c = c)"

definition digits_read :: "(str \<Rightarrow> int option) \<Rightarrow> bool" where
  \<comment> \<open>\<open>strconv.ParseFloat\<close> reads the numbers of periods\<close>
  "digits_read whole \<longleftrightarrow> (\<forall>n. 1 \<le> n \<and> n \<le> MaxPeriodNumber \<longrightarrow> whole (itoa n) = Some n)"

section \<open>The header row\<close>

definition kept_letter :: "nat \<Rightarrow> bool" where
  "kept_letter c \<longleftrightarrow> (97 \<le> c \<and> c \<le> 122) \<or> (1569 \<le> c \<and> c \<le> 1610)"

lemma normalize_kept:
  assumes "letters_kept low" "list_all kept_letter s"
  shows "normalizeArabic low s = normalizeArabic (\<lambda>c. c) s"
proof -
  have "map low (filter (\<lambda>c. \<not> diacritic c) s) = map (\<lambda>c. c) (filter (\<lambda>c. \<not> diacritic c) s)"
    by (intro map_cong refl) (use assms in \<open>auto simp: letters_kept_def kept_letter_def list_all_iff\<close>)
  then show ?thesis by (simp add: normalizeArabic_def)
qed

lemma kept_aliases: "\<forall>(n, as) \<in> set scheduleColumns. list_all kept_letter n \<and> list_all (list_all kept_letter) as"
  by (simp add: scheduleColumns_def kept_letter_def u_def)

lemma aliases_kept:
  assumes "letters_kept low"
  shows "scheduleHeaderAliases low = scheduleHeaderAliases (\<lambda>c. c)"
proof -
  have "map (\<lambda>(i, n, as). map (\<lambda>a. (normalizeArabic low a, i)) as) (enumerate 0 scheduleColumns) =
      map (\<lambda>(i, n, as). map (\<lambda>a. (normalizeArabic (\<lambda>c. c) a, i)) as) (enumerate 0 scheduleColumns)"
  proof (rule map_cong [OF refl])
    fix x assume x: "x \<in> set (enumerate 0 scheduleColumns)"
    obtain i n as where e: "x = (i, n, as)" by (cases x)
    with x have "(n, as) \<in> set scheduleColumns" 
      by (auto simp: in_set_enumerate_eq) (metis nth_mem)
    then have "normalizeArabic low a = normalizeArabic (\<lambda>c. c) a" if "a \<in> set as" for a
      using kept_aliases that normalize_kept [OF assms] by (fastforce simp: list_all_iff)
    then show "(case x of (i, n, as) \<Rightarrow> map (\<lambda>a. (normalizeArabic low a, i)) as) =
        (case x of (i, n, as) \<Rightarrow> map (\<lambda>a. (normalizeArabic (\<lambda>c. c) a, i)) as)"
      by (simp add: e)
  qed
  then show ?thesis unfolding scheduleHeaderAliases_def by (rule arg_cong [where f = "\<lambda>xs. map_of (rev (concat xs))"])
qed

lemma one_cell_no_header:
  assumes "length cells \<le> 1"
  shows "matchScheduleHeader low cells n = ([], None)"
proof -
  have l: "length (filter (\<lambda>k. k = j) column_fields) \<le> 1" for j
    by (simp add: column_fields_def scheduleColumns_def upt_rec)
  show ?thesis
  proof (cases cells)
    case Nil
    then show ?thesis by (simp add: matchScheduleHeader_def scheduleHeaderMinMatches_def)
  next
    case (Cons v vs)
    then have v: "cells = [v]" using assms by simp
    show ?thesis
    proof (cases "scheduleHeaderAliases low (normalizeArabic low v)")
      case (Some j)
      have "(\<lambda>k. ((\<lambda>_. None)(j := Some 0)) k \<noteq> (None :: nat option)) = (\<lambda>k. k = j)" by auto
      then show ?thesis using Some l [of j] unfolding v
        by (simp add: matchScheduleHeader_def scheduleHeaderMinMatches_def del: fun_upd_apply)
    qed (simp add: v matchScheduleHeader_def scheduleHeaderMinMatches_def)
  qed
qed

lemma names_normal: "map (normalizeArabic (\<lambda>c. c)) scheduleHeaders =
    [[1575, 1604, 1605, 1585, 1581, 1604, 1607], [1575, 1604, 1588, 1593, 1576, 1607], [1575, 1604, 1610, 1608, 1605],
     [1575, 1604, 1581, 1589, 1607], [1575, 1604, 1605, 1575, 1583, 1607], [1575, 1604, 1605, 1593, 1604, 1605]]"
  by (simp add: scheduleHeaders_def scheduleColumns_def normalizeArabic_def diacritic_def arabicFold_def Fields_def is_space_def)

lemma alias_table: "concat (map (\<lambda>(i, n, as). map (\<lambda>a. (normalizeArabic (\<lambda>c. c) a, i)) as) (enumerate 0 scheduleColumns)) =
    [([1575, 1604, 1605, 1585, 1581, 1604, 1607], 0), ([1575, 1604, 1589, 1601], 0), (u ''grade'', 0),
     ([1575, 1604, 1588, 1593, 1576, 1607], 1), (u ''section'', 1),
     ([1575, 1604, 1610, 1608, 1605], 2), (u ''day'', 2),
     ([1575, 1604, 1581, 1589, 1607], 3), (u ''period'', 3),
     ([1575, 1604, 1605, 1575, 1583, 1607], 4), (u ''subject'', 4),
     ([1575, 1604, 1605, 1593, 1604, 1605], 5), ([1575, 1604, 1605, 1583, 1585, 1587], 5), (u ''teacher'', 5)]"
  by (simp add: scheduleColumns_def normalizeArabic_def diacritic_def arabicFold_def Fields_def is_space_def u_def)

lemma alias_of_names: "map (\<lambda>v. scheduleHeaderAliases (\<lambda>c. c) (normalizeArabic (\<lambda>c. c) v)) scheduleHeaders = map Some [0..<6]"
proof -
  have "map (scheduleHeaderAliases (\<lambda>c. c)) (map (normalizeArabic (\<lambda>c. c)) scheduleHeaders) = map Some [0..<6]"
    unfolding names_normal scheduleHeaderAliases_def alias_table by (simp add: u_def upt_rec)
  then show ?thesis unfolding map_map o_def .
qed

lemma header_scan: "map field vs = map Some [a..<a + length vs] \<Longrightarrow> (\<forall>k \<ge> a. cols k = None) \<Longrightarrow>
  header_cells field a vs (cols, []) = (\<lambda>k. if a \<le> k \<and> k < a + length vs then Some k else cols k, [])"
proof (induction vs arbitrary: a cols)
  case (Cons v vs)
  have e: "[a..<a + length (v # vs)] = a # [Suc a..<Suc a + length vs]" by (simp add: upt_conv_Cons del: upt_Suc)
  have "map field (v # vs) = map Some (a # [Suc a..<Suc a + length vs])" using Cons.prems(1) unfolding e .
  then have f: "field v = Some a" "map field vs = map Some [Suc a..<Suc a + length vs]" by (simp_all del: upt_Suc)
  have "header_cells field (Suc a) vs (cols(a := Some a), []) =
      (\<lambda>k. if Suc a \<le> k \<and> k < Suc a + length vs then Some k else (cols(a := Some a)) k, [])"
    using Cons.prems(2) by (intro Cons.IH f(2)) auto
  then show ?case using f(1) Cons.prems(2) by (auto simp: fun_eq_iff)
qed auto

lemma six: "[0..<6] = [0, 1, 2, 3, 4, 5]"
  by (simp add: eval_nat_numeral)

lemma header_found:
  assumes "letters_kept low"
  shows "matchScheduleHeader low scheduleHeaders n = ([], Some (Some [0..<6]))"
proof -
  have "normalizeArabic low v = normalizeArabic (\<lambda>c. c) v" if "v \<in> set scheduleHeaders" for v
    using kept_aliases that normalize_kept [OF assms] by (fastforce simp: scheduleHeaders_def)
  then have "map (\<lambda>v. scheduleHeaderAliases low (normalizeArabic low v)) scheduleHeaders = map Some [0..<6]"
    unfolding aliases_kept [OF assms] alias_of_names [symmetric] by simp
  moreover have l: "length scheduleHeaders = 6" "column_fields = [0, 1, 2, 3, 4, 5]" by (simp_all add: scheduleHeaders_def column_fields_def scheduleColumns_def)
  ultimately have "header_cells (\<lambda>v. scheduleHeaderAliases low (normalizeArabic low v)) 0 scheduleHeaders (\<lambda>_. None, []) =
      (\<lambda>k. if k < 6 then Some k else None, [])"
    using header_scan [of "\<lambda>v. scheduleHeaderAliases low (normalizeArabic low v)" scheduleHeaders 0 "\<lambda>_. None"] by simp
  then show ?thesis
    unfolding six by (simp add: matchScheduleHeader_def Let_def l scheduleHeaderMinMatches_def)
qed

section \<open>The rows of an export\<close>

definition shown :: "gridRow \<Rightarrow> bool" where
  "shown x \<longleftrightarrow> gr_subject x \<noteq> [] \<or> gr_teacher x \<noteq> []"

fun raws :: "str \<Rightarrow> str \<Rightarrow> nat \<Rightarrow> gridRow list \<Rightarrow> rawScheduleRow list" where
  "raws g c n [] = []"
| "raws g c n (x # xs) = (if shown x then [\<lparr>rr_row = n, rr_values = grid_cells g c x\<rparr>] else []) @ raws g c (Suc n) xs"

lemma grid_cells_at [simp]:
  "length (grid_cells g c x) = 6" "grid_cells g c x ! 0 = g" "grid_cells g c x ! Suc 0 = c" "grid_cells g c x ! 2 = schoolWeek ! (gr_rank x - 1)"
  "grid_cells g c x ! 3 = itoa (gr_period x)" "grid_cells g c x ! 4 = gr_subject x" "grid_cells g c x ! 5 = gr_teacher x"
  by (simp_all add: grid_cells_def eval_nat_numeral)

lemma tidy_row:
  assumes "list_all (\<lambda>s. TrimSpace s = s) (grid_cells g c x)"
  shows "raw_row n [0..<6] (grid_cells g c x) = \<lparr>rr_row = n, rr_values = grid_cells g c x\<rparr>"
proof -
  have "TrimSpace (grid_cells g c x ! k) = grid_cells g c x ! k" if "k < 6" for k
    using assms that by (simp add: list_all_length)
  then have "map (\<lambda>k. if k < length (grid_cells g c x) then TrimSpace (grid_cells g c x ! k) else []) [0..<6] = map ((!) (grid_cells g c x)) [0..<6]"
    by (intro map_cong) auto
  also have "\<dots> = grid_cells g c x" using map_nth [of "grid_cells g c x"] by (simp only: grid_cells_at)
  finally show ?thesis by (simp only: raw_row_def)
qed

text \<open>What excelize reports of a row: its cells without the blank ones at the end.\<close>

definition trim_blanks :: "str list \<Rightarrow> str list" where
  "trim_blanks row = rev (dropWhile (\<lambda>v. v = []) (rev row))"

lemma trim_blanks_split:
  obtains k where "row = trim_blanks row @ replicate k []"
proof -
  have "rev row = takeWhile (\<lambda>v. v = []) (rev row) @ dropWhile (\<lambda>v. v = []) (rev row)" by simp
  then have "row = trim_blanks row @ rev (takeWhile (\<lambda>v. v = []) (rev row))"
    unfolding trim_blanks_def by (metis rev_append rev_rev_ident)
  moreover have "takeWhile (\<lambda>v. v = []) (rev row) = replicate (length (takeWhile (\<lambda>v. v = []) (rev row))) []"
    by (rule replicate_eqI [symmetric, THEN sym]) (auto dest: set_takeWhileD)
  ultimately show thesis using that by (metis rev_replicate)
qed

lemma trim_space_nil: "TrimSpace [] = []"
  by (simp add: TrimSpace_def trim_by_def)

lemma raw_row_trimmed: "raw_row n cols (trim_blanks row) = raw_row n cols row"
proof -
  obtain k where k: "row = trim_blanks row @ replicate k []" by (rule trim_blanks_split)
  have "(if c < length (trim_blanks row) then TrimSpace (trim_blanks row ! c) else []) =
      (if c < length row then TrimSpace (row ! c) else [])" for c
    by (subst (3 4) k) (auto simp: nth_append trim_space_nil)
  then show ?thesis by (simp add: raw_row_def)
qed

lemma scan_grid:
  assumes "sn_cols s = Some [0..<6]" "sn_count s + length xs \<le> MaxScheduleImportRows"
    "\<And>x. x \<in> set xs \<Longrightarrow> list_all (\<lambda>s. TrimSpace s = s) (grid_cells g c x)"
  shows "\<exists>F m. scan_rows low n s (map (\<lambda>x. Some (trim_blanks (grid_cells g c x))) xs) =
    Inr (s\<lparr>sn_raw := sn_raw s @ raws g c n xs, sn_formulas := F, sn_count := m\<rparr>)"
  using assms
proof (induction xs arbitrary: n s)
  case (Cons x xs)
  let ?F = "sn_formulas s @ empty_cells n [0..<6] (trim_blanks (grid_cells g c x))"
  let ?s = "if shown x then s\<lparr>sn_formulas := ?F, sn_count := sn_count s + 1, sn_raw := sn_raw s @ [\<lparr>rr_row = n, rr_values = grid_cells g c x\<rparr>]\<rparr>
    else s\<lparr>sn_formulas := ?F\<rparr>"
  have r: "raw_row n [0..<6] (trim_blanks (grid_cells g c x)) = \<lparr>rr_row = n, rr_values = grid_cells g c x\<rparr>"
    unfolding raw_row_trimmed using Cons.prems(3) by (intro tidy_row) simp
  have "scan_rows low n s (map (\<lambda>x. Some (trim_blanks (grid_cells g c x))) (x # xs)) =
      scan_rows low (Suc n) ?s (map (\<lambda>x. Some (trim_blanks (grid_cells g c x))) xs)"
    using Cons.prems(1,2) by (simp add: r Let_def shown_def del: upt_Suc)
  moreover have "\<exists>F m. scan_rows low (Suc n) ?s (map (\<lambda>x. Some (trim_blanks (grid_cells g c x))) xs) =
      Inr (?s\<lparr>sn_raw := sn_raw ?s @ raws g c (Suc n) xs, sn_formulas := F, sn_count := m\<rparr>)"
    by (rule Cons.IH) (use Cons.prems in auto)
  ultimately show ?case by (cases "shown x") auto
next
  case Nil
  show ?case by (intro exI [of _ "sn_formulas s"] exI [of _ "sn_count s"]) simp
qed

section \<open>Reading a row back\<close>

definition grid_period :: "gridRow \<Rightarrow> SchedulePeriod" where
  "grid_period x = \<lparr>sd_day = schoolWeek ! (gr_rank x - 1), sd_number = gr_period x, sd_subject = gr_subject x,
     sd_teacher = (if gr_teacher x = [] then None else Some (gr_teacher x))\<rparr>"

definition grid_sound :: "gridRow \<Rightarrow> bool" where
  "grid_sound x \<longleftrightarrow> 1 \<le> gr_rank x \<and> gr_rank x \<le> 5 \<and> 1 \<le> gr_period x \<and> gr_period x \<le> MaxPeriodNumber \<and>
     TrimSpace (gr_subject x) = gr_subject x \<and> TrimSpace (gr_teacher x) = gr_teacher x \<and>
     (gr_subject x = [] \<longrightarrow> gr_teacher x = []) \<and>
     tooLong (u ''subject'') (gr_subject x) 100 = [] \<and> tooLong (u ''teacher'') (gr_teacher x) 100 = []"

lemma week_canonical: "day \<in> set schoolWeek \<Longrightarrow> canonicalSchoolDay day = Some day \<and> TrimSpace day = day"
proof -
  have "list_all (\<lambda>d. canonicalSchoolDay d = Some d \<and> TrimSpace d = d) schoolWeek"
    by (simp add: schoolWeek_def canonicalSchoolDay_def schoolDays_def TrimSpace_def trim_by_def is_space_def asciiLower_def hamzaFold_def u_def)
  then show "day \<in> set schoolWeek \<Longrightarrow> canonicalSchoolDay day = Some day \<and> TrimSpace day = day" by (simp add: list_all_iff)
qed

lemma week_at: "1 \<le> r \<Longrightarrow> r \<le> 5 \<Longrightarrow> schoolWeek ! (r - 1) \<in> set schoolWeek"
proof -
  have "length schoolWeek = 5" by (simp add: schoolWeek_def)
  then show "1 \<le> r \<Longrightarrow> r \<le> 5 \<Longrightarrow> schoolWeek ! (r - 1) \<in> set schoolWeek" by (intro nth_mem) simp
qed

lemma small_itoa: "1 \<le> n \<Longrightarrow> n \<le> MaxPeriodNumber \<Longrightarrow> itoa n = [48 + nat n]"
  by (simp add: itoa_def MaxPeriodNumber_def digits_of.simps)

lemma read_grid_row:
  assumes x: "grid_sound x" "shown x" and k: "scheduleClassProblem g c = []" and w: "digits_read whole" and t: "\<And>r k. \<not> ws_numeric ws r k"
  shows "read_row whole plain ws i [0..<6] \<lparr>rr_row = n, rr_values = grid_cells g c x\<rparr> =
    ([], [\<lparr>im_sheet = ws_name ws, im_index = i, im_row = n, im_class = (g, c), im_period = grid_period x\<rparr>])"
proof -
  have num: "numeric_text plain ws cols r k v = v" for cols r k v using t by (simp add: numeric_text_def split: option.split)
  have kk: "g \<noteq> []" "c \<noteq> []" "tooLong (u ''grade'') g 50 = []" "tooLong (u ''section'') c 50 = []"
    using k by (auto simp: scheduleClassProblem_def u_def split: if_splits)
  have day: "canonicalSchoolDay (schoolWeek ! (gr_rank x - 1)) = Some (schoolWeek ! (gr_rank x - 1))"
    using x(1) by (intro conjunct1 [OF week_canonical] week_at) (simp_all add: grid_sound_def)
  have "nat (gr_period x) \<le> 6" using x(1) by (auto simp: grid_sound_def MaxPeriodNumber_def)
  then have "easternDigits (itoa (gr_period x)) = itoa (gr_period x)"
    using x(1) by (simp add: grid_sound_def small_itoa easternDigits_def MaxPeriodNumber_def)
  then have p: "period_of_text whole (itoa (gr_period x)) = Some (gr_period x)"
    using w x(1) by (simp add: period_of_text_def digits_read_def grid_sound_def)
  have "gr_subject x \<noteq> []" using x by (auto simp: grid_sound_def shown_def)
  then have v: "validScheduleRow whole \<lparr>rr_row = n, rr_values = grid_cells g c x\<rparr> = ([], Some (grid_period x))"
    using kk day p x(1) by (simp add: validScheduleRow_def grid_sound_def grid_period_def)
  have "(grid_cells g c x)[0 := g, Suc 0 := c] = grid_cells g c x" by (simp add: grid_cells_def)
  then show ?thesis using v by (simp add: read_row_def num)
qed

fun imported :: "worksheet \<Rightarrow> nat \<Rightarrow> str \<Rightarrow> str \<Rightarrow> nat \<Rightarrow> gridRow list \<Rightarrow> importedRow list" where
  "imported ws i g c n [] = []"
| "imported ws i g c n (x # xs) =
     (if shown x then [\<lparr>im_sheet = ws_name ws, im_index = i, im_row = n, im_class = (g, c), im_period = grid_period x\<rparr>] else []) @
     imported ws i g c (Suc n) xs"

lemma imported_facts:
  "map im_period (imported ws i g c n xs) = map grid_period (filter shown xs)" "r \<in> set (imported ws i g c n xs) \<Longrightarrow> im_class r = (g, c)"
  by (induction xs arbitrary: n) (auto split: if_splits)

lemma read_raws:
  assumes "\<And>x. x \<in> set xs \<Longrightarrow> grid_sound x" "scheduleClassProblem g c = []" "digits_read whole" "\<And>r k. \<not> ws_numeric ws r k"
  shows "map (read_row whole plain ws i [0..<6]) (raws g c n xs) = map (\<lambda>r. ([], [r])) (imported ws i g c n xs)"
  using assms(1)
proof (induction xs arbitrary: n)
  case (Cons x xs)
  have "grid_sound x" using Cons.prems by simp
  with Cons.IH [of "Suc n"] Cons.prems read_grid_row [of x g c whole ws plain i n] assms(2-4) show ?case
    by (simp del: upt_Suc)
qed simp

lemma concat_singles: "concat (map fst (map (\<lambda>r. ([], [r])) rs)) = []" "concat (map snd (map (\<lambda>r. ([], [r])) rs)) = rs"
  by (induction rs) simp_all

section \<open>One class in a file\<close>

lemma group_one:
  assumes "\<And>r. r \<in> set rs \<Longrightarrow> im_class r = k" "only = None \<or> only = Some k" "distinct (map row_key (as @ rs))"
  shows "foldl (group_row only) \<lparr>gp_order = (if as = [] then [] else [k]), gp_rows = as, gp_problems = []\<rparr> rs =
    \<lparr>gp_order = (if as @ rs = [] then [] else [k]), gp_rows = as @ rs, gp_problems = []\<rparr>"
  using assms
proof (induction rs arbitrary: as)
  case (Cons r rs)
  let ?g = "\<lparr>gp_order = (if as = [] then [] else [k]), gp_rows = as, gp_problems = []\<rparr>"
  have "find_row (\<lambda>q. row_key q = row_key r) as = None" using Cons.prems(3) by (auto simp: find_row_None image_iff)
  then have "group_own ?g r = \<lparr>gp_order = [k], gp_rows = as @ [r], gp_problems = []\<rparr>"
    using Cons.prems(1) by (simp add: group_own_def)
  then have "group_row only ?g r = \<lparr>gp_order = (if as @ [r] = [] then [] else [k]), gp_rows = as @ [r], gp_problems = []\<rparr>"
    using Cons.prems(1) [of r] Cons.prems(2) by (auto simp: group_row_def)
  moreover have "foldl (group_row only) \<lparr>gp_order = (if as @ [r] = [] then [] else [k]), gp_rows = as @ [r], gp_problems = []\<rparr> rs =
      \<lparr>gp_order = (if (as @ [r]) @ rs = [] then [] else [k]), gp_rows = (as @ [r]) @ rs, gp_problems = []\<rparr>"
    by (rule Cons.IH) (use Cons.prems in simp_all)
  ultimately show ?case by simp
qed simp

lemma same_key:
  assumes "row_key r = row_key q" "im_class r = im_class q"
    "1 \<le> sd_number (im_period r)" "sd_number (im_period r) \<le> MaxPeriodNumber" "1 \<le> sd_number (im_period q)" "sd_number (im_period q) \<le> MaxPeriodNumber"
  shows "sd_day (im_period r) = sd_day (im_period q) \<and> sd_number (im_period r) = sd_number (im_period q)"
proof -
  have "sd_day (im_period r) @ [0, 48 + nat (sd_number (im_period r))] = sd_day (im_period q) @ [0, 48 + nat (sd_number (im_period q))]"
    using assms by (simp add: row_key_def small_itoa)
  then have "sd_day (im_period r) = sd_day (im_period q)" "nat (sd_number (im_period r)) = nat (sd_number (im_period q))"
    by (simp_all add: append_eq_append_conv)
  then show ?thesis using assms(3,5) by (simp add: eq_nat_nat_iff)
qed

section \<open>The grid of a class\<close>

lemma grid_product: "concat (map (\<lambda>r. map (h r) ns) rs) = map (\<lambda>(r, n). h r n) (List.product rs ns)"
  by (induction rs) simp_all

lemma find_row_filter: "find_row (\<lambda>x. p x \<and> q x) xs = find_row q (filter p xs)"
  by (induction xs) (simp_all add: find_row_def)

lemma find_row_map: "find_row q (map f xs) = map_option f (find_row (\<lambda>x. q (f x)) xs)"
  by (induction xs) (simp_all add: find_row_def)

lemma week_index: "day \<in> set schoolWeek \<Longrightarrow> schoolWeek ! dayIndex day = day"
proof -
  have "list_all (\<lambda>d. schoolWeek ! dayIndex d = d) schoolWeek" by (simp add: schoolWeek_def dayIndex_def)
  then show "day \<in> set schoolWeek \<Longrightarrow> schoolWeek ! dayIndex day = day" by (simp add: list_all_iff)
qed

abbreviation slot_of :: "SchedulePeriod \<Rightarrow> nat \<times> int" where
  "slot_of p \<equiv> (dayIndex (sd_day p), sd_number p)"

definition cell :: "SchedulePeriod list \<Rightarrow> nat \<times> int \<Rightarrow> SchedulePeriod option" where
  "cell ps = (\<lambda>(r, n). find_row (\<lambda>p. dayIndex (sd_day p) + 1 = r \<and> sd_number p = n) ps)"

definition cell_row :: "nat \<times> int \<Rightarrow> SchedulePeriod option \<Rightarrow> gridRow" where
  "cell_row rn z = \<lparr>gr_rank = fst rn, gr_period = snd rn, gr_subject = (case z of None \<Rightarrow> [] | Some p \<Rightarrow> sd_subject p),
     gr_teacher = (case z of None \<Rightarrow> [] | Some p \<Rightarrow> (case sd_teacher p of None \<Rightarrow> [] | Some t \<Rightarrow> t))\<rparr>"

lemma grid_of_class:
  assumes rows: "filter (of_class g c) (weekly_schedules d) = map (period_row g c) ps" and ps: "ps \<noteq> []" "\<And>p. p \<in> set ps \<Longrightarrow> sd_day p \<in> set schoolWeek"
  shows "schedule_grid g c d = map (\<lambda>rn. cell_row rn (cell ps rn)) (List.product [1..<6] [1..MaxPeriodNumber])"
proof -
  have "stored_at g c r n d = map_option (period_row g c) (cell ps (r, n))" for r n
  proof -
    have "stored_at g c r n d = find_row (\<lambda>w. weekday_rank (w_day w) = r \<and> w_number w = n) (map (period_row g c) ps)"
      unfolding stored_at_def rows [symmetric] by (rule find_row_filter)
    also have "\<dots> = map_option (period_row g c) (find_row (\<lambda>p. weekday_rank (sd_day p) = r \<and> sd_number p = n) ps)"
      by (simp add: find_row_map period_row_def)
    also have "find_row (\<lambda>p. weekday_rank (sd_day p) = r \<and> sd_number p = n) ps = cell ps (r, n)"
      unfolding cell_def prod.case find_row_def by (rule find_cong) (simp_all add: rank_of_day ps(2))
    finally show ?thesis .
  qed
  moreover have "(g, c) \<in> set (schedule_classes d)"
  proof -
    obtain p where "p \<in> set ps" using ps(1) by (cases ps) auto
    then have "period_row g c p \<in> set (filter (of_class g c) (weekly_schedules d))" unfolding rows by simp
    then have "period_row g c p \<in> set (weekly_schedules d)" by simp
    then show ?thesis by (auto simp: schedule_classes_def period_row_def image_iff intro!: disjI2 bexI [of _ "period_row g c p"])
  qed
  ultimately show ?thesis
    by (simp add: schedule_grid_def grid_product Let_def cell_row_def period_row_def case_prod_beta option.case_eq_if option.map_sel del: upt_Suc)
qed

lemma cell_of:
  assumes d: "distinct (map slot_of ps)" "p \<in> set ps"
  shows "cell ps (dayIndex (sd_day p) + 1, sd_number p) = Some p"
proof (cases "cell ps (dayIndex (sd_day p) + 1, sd_number p)")
  case (Some q)
  then have "q \<in> set ps" "slot_of q = slot_of p" by (auto simp: cell_def dest: find_row_Some)
  with d have "q = p" by (auto simp: distinct_map dest: inj_onD)
  with Some show ?thesis by simp
qed (use d(2) in \<open>auto simp: cell_def find_row_None\<close>)

lemma cell_Some: "cell ps rn = Some p \<Longrightarrow> p \<in> set ps \<and> rn = (dayIndex (sd_day p) + 1, sd_number p)"
  by (auto simp: cell_def split: prod.splits dest: find_row_Some)

definition grid_periods :: "SchedulePeriod list \<Rightarrow> SchedulePeriod list" where
  "grid_periods ps = map the (filter (\<lambda>z. z \<noteq> None) (map (cell ps) (List.product [1..<6] [1..MaxPeriodNumber])))"

lemma grid_periods_facts:
  assumes d: "distinct (map slot_of ps)"
    and s: "\<And>p. p \<in> set ps \<Longrightarrow> sd_day p \<in> set schoolWeek \<and> 1 \<le> sd_number p \<and> sd_number p \<le> MaxPeriodNumber"
  shows "set (grid_periods ps) = set ps" "distinct (map slot_of (grid_periods ps))"
proof -
  let ?P = "List.product [1..<6::nat] [1..MaxPeriodNumber]"
  show "set (grid_periods ps) = set ps"
  proof (intro equalityI subsetI)
    fix p assume "p \<in> set (grid_periods ps)"
    then show "p \<in> set ps" by (auto simp: grid_periods_def dest: cell_Some)
  next
    fix p assume p: "p \<in> set ps"
    have "(dayIndex (sd_day p) + 1, sd_number p) \<in> set ?P" using s [OF p] dayIndex_less [of "sd_day p"] by auto
    with cell_of [OF d p] show "p \<in> set (grid_periods ps)" by (force simp: grid_periods_def image_iff)
  qed
  have f: "map slot_of (map the (filter (\<lambda>z. z \<noteq> None) (map (cell ps) rns))) =
      map (\<lambda>rn. (fst rn - 1, snd rn)) (filter (\<lambda>rn. cell ps rn \<noteq> None) rns)" for rns
  proof (induction rns)
    case (Cons rn rns)
    show ?case
    proof (cases "cell ps rn")
      case (Some p)
      then have "slot_of p = (fst rn - 1, snd rn)" using cell_Some [OF Some] by (cases rn) simp
      with Cons Some show ?thesis by simp
    qed (use Cons in simp)
  qed simp
  have "distinct ?P" by (intro distinct_product) simp_all
  moreover have "inj_on (\<lambda>rn. (fst rn - 1, snd rn)) (set (filter (\<lambda>rn. cell ps rn \<noteq> None) ?P))"
    by (auto simp: inj_on_def)
  ultimately show "distinct (map slot_of (grid_periods ps))"
    unfolding grid_periods_def f by (simp add: distinct_map)
qed

lemma same_sorted:
  fixes f :: "'a \<Rightarrow> 'k :: linorder"
  assumes "set xs = set ys" "distinct (map f xs)" "distinct (map f ys)"
  shows "sort_key f xs = sort_key f ys"
  by (rule map_sorted_distinct_set_unique [of f]) (use assms in \<open>auto simp: distinct_map\<close>)

lemma slots_distinct: "whole_days ps \<Longrightarrow> distinct (map slot_of ps)"
proof -
  assume w: "whole_days ps"
  then have "inj_on slot_of (set ps)"
    by (auto simp: inj_on_def whole_days_def distinct_map dest: inj_onD [OF dayIndex_inj])
  with w show ?thesis by (simp add: distinct_map whole_days_def)
qed

section \<open>The file of a class\<close>

definition written :: "worksheet \<Rightarrow> str list list \<Rightarrow> bool" where
  \<comment> \<open>what excelize reports of a sheet whose cells were written as text: the text of the cells, row by row, each row
     without the blank cells at its end\<close>
  "written ws rows \<longleftrightarrow> ws_rows ws = Some (map (\<lambda>row. Some (trim_blanks row)) rows) \<and> ws_closes ws \<and> (\<forall>r k. \<not> ws_formula ws r k) \<and> (\<forall>r k. \<not> ws_numeric ws r k)"

definition period_fits :: "SchedulePeriod \<Rightarrow> bool" where
  "period_fits p \<longleftrightarrow> (\<forall>f. tooLong f (sd_subject p) 100 = []) \<and> (\<forall>t f. sd_teacher p = Some t \<longrightarrow> tooLong f t 100 = [])"

lemma trim_nothing: "TrimSpace [] = []"
  by (simp add: TrimSpace_def trim_by_def)

lemma check_period_fits: "check_period i seen p = Inr q \<Longrightarrow> period_fits q"
  by (auto simp: trim_nothing check_period_def Let_def period_fits_def tooLong_ok_iff firstProblem_ok_iff optional_text_def split: option.splits if_splits)

lemma check_periods_fit: "check_periods i seen ps = Inr qs \<Longrightarrow> list_all period_fits qs"
  by (induction i seen ps arbitrary: qs rule: check_periods.induct) (auto split: sum.splits dest: check_period_fits)

lemma validated_fit: "validateScheduleRequest req = Inr (g, c, ps) \<Longrightarrow> list_all period_fits ps"
  by (auto simp: validateScheduleRequest_def Let_def split: if_splits option.splits sum.splits dest: check_periods_fit)

lemma cell_row_period:
  assumes "cell ps rn = Some p" "period_sound p"
  shows "grid_period (cell_row rn (cell ps rn)) = p" "shown (cell_row rn (cell ps rn))"
  using assms cell_Some [OF assms(1)]
  by (auto simp: grid_period_def cell_row_def shown_def period_sound_def week_index split: option.split)

lemma cell_row_hidden: "cell ps rn = None \<Longrightarrow> \<not> shown (cell_row rn (cell ps rn))"
  by (simp add: shown_def cell_row_def)

lemma grid_shown:
  assumes "list_all period_sound ps"
  shows "map grid_period (filter shown (map (\<lambda>rn. cell_row rn (cell ps rn)) rns)) = map the (filter (\<lambda>z. z \<noteq> None) (map (cell ps) rns))"
proof (induction rns)
  case (Cons rn rns)
  show ?case
  proof (cases "cell ps rn")
    case None
    then show ?thesis using Cons cell_row_hidden [OF None] by simp
  next
    case (Some p)
    then have "period_sound p" using assms cell_Some [OF Some] by (simp add: list_all_iff)
    with Cons cell_row_period [OF Some this] Some show ?thesis by simp
  qed
qed simp

lemma cell_row_sound:
  assumes "list_all period_sound ps" "list_all period_fits ps" "rn \<in> set (List.product [1..<6] [1..MaxPeriodNumber])"
  shows "grid_sound (cell_row rn (cell ps rn))"
proof (cases "cell ps rn")
  case None
  then show ?thesis using assms(3) by (auto simp: grid_sound_def cell_row_def TrimSpace_def trim_by_def tooLong_ok_iff TrimRightBlank_def)
next
  case (Some p)
  then have "period_sound p" "period_fits p" using assms(1,2) cell_Some [OF Some] by (simp_all add: list_all_iff)
  then show ?thesis using assms(3) Some
    by (auto simp: grid_sound_def cell_row_def period_sound_def period_fits_def TrimSpace_def trim_by_def tooLong_ok_iff TrimRightBlank_def
        split: option.splits)
qed

lemma export_run:
  assumes w: "faults w = []" "plain_texts [g, c]" and k: "TrimSpace g = g" "TrimSpace c = c" "scheduleClassProblem g c = []"
    and grid: "schedule_grid g c (db w) \<noteq> []"
  shows "\<exists>name. AdminScheduleExportHandler g c w =
    (Inr (newReportWorkbook name (schedule_title g c) scheduleHeaders @ map (grid_cells g c) (schedule_grid g c (db w))),
     w\<lparr>noted := (u ''class'', g @ u ''/'' @ c, [])\<rparr>)"
  using w k grid
  by (auto simp: AdminScheduleExportHandler_def Let_def bindE_def run_simps lift_err_run with_plain_texts readSchoolName_def split: option.split)

lemma scan_report:
  assumes "letters_kept low" "length xs \<le> MaxScheduleImportRows" "\<And>x. x \<in> set xs \<Longrightarrow> list_all (\<lambda>s. TrimSpace s = s) (grid_cells g c x)"
  shows "\<exists>F m. scan_rows low 1 \<lparr>sn_found = False, sn_cols = None, sn_problems = [], sn_raw = [], sn_formulas = [], sn_count = 0\<rparr>
      (map (\<lambda>row. Some (trim_blanks row)) (newReportWorkbook name title scheduleHeaders @ map (grid_cells g c) xs)) =
    Inr \<lparr>sn_found = True, sn_cols = Some [0..<6], sn_problems = [], sn_raw = raws g c 6 xs, sn_formulas = F, sn_count = m\<rparr>"
proof -
  let ?s = "\<lparr>sn_found = True, sn_cols = Some [0..<6], sn_problems = [], sn_raw = [], sn_formulas = [], sn_count = 0\<rparr>"
  have one: "length (trim_blanks [v]) \<le> 1" "length (trim_blanks []) \<le> 1" for v by (simp_all add: trim_blanks_def)
  have headers: "trim_blanks scheduleHeaders = scheduleHeaders" by (simp add: trim_blanks_def scheduleHeaders_def scheduleColumns_def)
  have "scan_rows low 1 \<lparr>sn_found = False, sn_cols = None, sn_problems = [], sn_raw = [], sn_formulas = [], sn_count = 0\<rparr>
      (map (\<lambda>row. Some (trim_blanks row)) (newReportWorkbook name title scheduleHeaders @ map (grid_cells g c) xs)) =
    scan_rows low 6 ?s (map (\<lambda>x. Some (trim_blanks (grid_cells g c x))) xs)"
    by (simp add: newReportWorkbook_def one_cell_no_header one [simplified] headers header_found [OF assms(1)] scheduleHeaderSearchRows_def o_def del: upt_Suc)
      (simp add: eval_nat_numeral del: upt_Suc)
  with scan_grid [of ?s xs g c low 6] assms(2,3) show ?thesis by simp
qed

lemma tidy_cells: "grid_sound x \<Longrightarrow> TrimSpace g = g \<Longrightarrow> TrimSpace c = c \<Longrightarrow> list_all (\<lambda>s. TrimSpace s = s) (grid_cells g c x)"
  using week_at [of "gr_rank x"] week_canonical
  by (auto simp: grid_cells_def grid_sound_def small_itoa) (auto simp: TrimSpace_def trim_by_def is_space_def MaxPeriodNumber_def)

lemma read_report:
  assumes std: "letters_kept low" "digits_read whole" and ws: "written ws (newReportWorkbook name title scheduleHeaders @ map (grid_cells g c) xs)"
    and xs: "length xs \<le> MaxScheduleImportRows" "\<And>x. x \<in> set xs \<Longrightarrow> grid_sound x"
    and k: "TrimSpace g = g" "TrimSpace c = c" "scheduleClassProblem g c = []"
  shows "\<exists>m. readScheduleSheet low whole plain cell_name ws i 0 = Inr ([], imported ws i g c 6 xs, True, m)"
proof -
  from scan_report [OF std(1) xs(1) tidy_cells [OF xs(2) k(1,2)]] obtain F m where
    s: "scan_rows low 1 \<lparr>sn_found = False, sn_cols = None, sn_problems = [], sn_raw = [], sn_formulas = [], sn_count = 0\<rparr>
      (map (\<lambda>row. Some (trim_blanks row)) (newReportWorkbook name title scheduleHeaders @ map (grid_cells g c) xs)) =
    Inr \<lparr>sn_found = True, sn_cols = Some [0..<6], sn_problems = [], sn_raw = raws g c 6 xs, sn_formulas = F, sn_count = m\<rparr>"
    by blast
  have "map (read_row whole plain ws i [0..<6]) (raws g c 6 xs) = map (\<lambda>r. ([], [r])) (imported ws i g c 6 xs)"
    by (rule read_raws) (use xs(2) k(3) std(2) ws in \<open>auto simp: written_def\<close>)
  moreover have "formula_problems cell_name ws [0..<6] F = []" using ws by (simp add: formula_problems_def written_def del: upt_Suc)
  ultimately show ?thesis
    using ws s
    by (simp add: readScheduleSheet_def written_def Let_def concat_singles del: upt_Suc map_append map_map concat_eq_Nil_conv)
qed

lemma one_class_grouped:
  assumes rs: "rs \<noteq> []" "\<And>r. r \<in> set rs \<Longrightarrow> im_class r = k" and only: "only = None \<or> only = Some k"
    and ps: "map im_period rs = qs" "whole_days qs" "list_all period_sound qs"
  shows "grouped_import (group_rows only [] rs) = \<lparr>si_classes = [(k, sort_key slot_of qs)], si_problems = []\<rparr>"
proof -
  have "inj_on row_key (set rs)"
  proof (rule inj_onI)
    fix r q assume rq: "r \<in> set rs" "q \<in> set rs" "row_key r = row_key q"
    have n: "period_sound (im_period x)" if "x \<in> set rs" for x using ps(1,3) that by (auto simp: list_all_iff)
    have "sd_day (im_period r) = sd_day (im_period q)" "sd_number (im_period r) = sd_number (im_period q)"
      using same_key [OF rq(3)] rs(2) rq n by (auto simp: period_sound_def)
    moreover have "inj_on (\<lambda>r. (sd_day (im_period r), sd_number (im_period r))) (set rs)"
      using ps(2) unfolding ps(1) [symmetric] whole_days_def by (simp add: distinct_map o_def)
    ultimately show "r = q" using rq by (auto dest: inj_onD)
  qed
  moreover have "distinct rs" using ps(2) unfolding ps(1) [symmetric] whole_days_def by (auto simp: distinct_map)
  ultimately have "distinct (map row_key rs)" by (simp add: distinct_map)
  then have g: "group_rows only [] rs = \<lparr>gp_order = [k], gp_rows = rs, gp_problems = []\<rparr>"
    using group_one [of rs k only "[]"] rs only by (simp add: group_rows_def)
  have c: "class_rows_of (group_rows only [] rs) k = rs" using rs(2) by (simp add: g class_rows_of_def)
  have "day_problems (group_rows only [] rs) k = []"
  proof -
    have "numbers_on day qs = map (sd_number \<circ> im_period) (filter (\<lambda>r. sd_day (im_period r) = day) rs)" for day
      by (simp add: numbers_on_def ps(1) [symmetric] filter_map o_def)
    then have "dayPeriodsProblem (map (sd_number \<circ> im_period) (filter (\<lambda>r. sd_day (im_period r) = day) rs)) = [] \<or>
        filter (\<lambda>r. sd_day (im_period r) = day) rs = []" if "day \<in> set schoolWeek" for day
      using ps(2) that by (auto simp: whole_days_def whole_day_def dayPeriodsProblem_ok)
    then show ?thesis unfolding day_problems_def c Let_def by (auto simp: concat_eq_Nil_conv)
  qed
  then show ?thesis using c by (simp add: grouped_import_def g ps(1))
qed

lemma export_read:
  assumes v: "validateScheduleRequest req = Inr (g, c, ps)" "ps \<noteq> []"
    and rows: "filter (of_class g c) (weekly_schedules (db w)) = map (period_row g c) ps"
    and w: "faults w = []" "plain_texts [g, c]"
    and std: "letters_kept low" "digits_read whole"
    and zip: "take 4 data = [80, 75, 3, 4]" "unzip data = Some sizes" "\<not> unzips_too_much 0 sizes"
    and only: "only = None \<or> only = Some (g, c)"
  shows "\<exists>report. fst (AdminScheduleExportHandler g c w) = Inr report \<and>
    (\<forall>ws. open_book data = Some [ws] \<longrightarrow> written ws report \<longrightarrow>
      readScheduleWorkbook low whole plain cell_name unzip open_book data only =
        Inr \<lparr>si_classes = [((g, c), class_schedule coll g c (db w))], si_problems = []\<rparr>)"
proof -
  note val = validated [OF v(1)]
  have k: "TrimSpace g = g" "TrimSpace c = c" "scheduleClassProblem g c = []"
    using val(1,2) val(3) by (simp_all only: TrimSpace_idem)
  let ?rns = "List.product [1..<6::nat] [1..MaxPeriodNumber]"
  let ?xs = "map (\<lambda>rn. cell_row rn (cell ps rn)) ?rns"
  have sound: "list_all period_sound ps" by (rule val(5))
  have s: "sd_day p \<in> set schoolWeek \<and> 1 \<le> sd_number p \<and> sd_number p \<le> MaxPeriodNumber" if "p \<in> set ps" for p
    using sound that by (simp add: list_all_iff period_sound_def)
  have xs: "schedule_grid g c (db w) = ?xs" by (rule grid_of_class [OF rows v(2)]) (use s in blast)
  have n: "length ?xs = 30" by (simp add: MaxPeriodNumber_def)
  have gs: "grid_sound x" if "x \<in> set ?xs" for x using that cell_row_sound [OF sound validated_fit [OF v(1)]] by auto
  have g0: "schedule_grid g c (db w) \<noteq> []" using n unfolding xs by (metis list.size(3) zero_neq_numeral)
  have le: "length ?xs \<le> MaxScheduleImportRows" unfolding n by (simp add: MaxScheduleImportRows_def)
  obtain name where e: "AdminScheduleExportHandler g c w =
      (Inr (newReportWorkbook name (schedule_title g c) scheduleHeaders @ map (grid_cells g c) ?xs), w\<lparr>noted := (u ''class'', g @ u ''/'' @ c, [])\<rparr>)"
    using export_run [OF w k g0] unfolding xs by (elim exE) (rule that)
  have p: "map grid_period (filter shown ?xs) = grid_periods ps" unfolding grid_periods_def by (rule grid_shown [OF sound])
  have d: "distinct (map slot_of ps)" by (rule slots_distinct [OF val(4)])
  note gp = grid_periods_facts [OF d s]
  have sk: "sort_key slot_of (grid_periods ps) = sort_key slot_of ps" by (rule same_sorted [OF gp d])
  have whole: "whole_days (grid_periods ps)" using val(4) whole_days_sort [of slot_of ps] whole_days_sort [of slot_of "grid_periods ps"] sk by simp
  have gsound: "list_all period_sound (grid_periods ps)" using sound gp(1) by (simp add: list_all_iff)
  have reads: "readScheduleWorkbook low whole plain cell_name unzip open_book data only =
      Inr \<lparr>si_classes = [((g, c), class_schedule coll g c (db w))], si_problems = []\<rparr>"
    if o: "open_book data = Some [ws]" and r: "written ws (newReportWorkbook name (schedule_title g c) scheduleHeaders @ map (grid_cells g c) ?xs)" for ws
  proof -
    let ?rs = "imported ws 0 g c 6 ?xs"
    obtain m where rd: "readScheduleSheet low whole plain cell_name ws 0 0 = Inr ([], ?rs, True, m)"
      using read_report [OF std r le gs k, of plain cell_name 0] by blast
    have f: "map im_period ?rs = grid_periods ps" "\<And>r. r \<in> set ?rs \<Longrightarrow> im_class r = (g, c)"
      using imported_facts p by simp_all
    have ne: "?rs \<noteq> []" using f(1) gp(1) v(2) by auto
    have gr: "grouped_import (group_rows only [] ?rs) = \<lparr>si_classes = [((g, c), class_schedule coll g c (db w))], si_problems = []\<rparr>"
      using one_class_grouped [OF ne f(2) only f(1) whole gsound] class_stored [OF rows val(4), of coll] sk by simp
    then have "length (gp_order (group_rows only [] ?rs)) = 1" by (simp add: grouped_import_def map_eq_Cons_conv split: if_splits)
    then show ?thesis
      using zip o rd gr only by (auto simp: readScheduleWorkbook_def Let_def MaxScheduleImportClasses_def)
  qed
  show ?thesis
  proof (intro exI conjI allI impI)
    show "fst (AdminScheduleExportHandler g c w) =
        Inr (newReportWorkbook name (schedule_title g c) scheduleHeaders @ map (grid_cells g c) ?xs)" unfolding e by (rule fst_conv)
  qed (rule reads)
qed

section \<open>The property\<close>

text \<open>C33. What an export writes, an import reads: the sheet exported for a class whose timetable was saved is accepted without a
  problem, by itself or for that class only, and holds exactly the class's timetable. The standard library is assumed to leave lower-case
  letters alone and to read the digits 1 to 6, and excelize to report the text of the cells that were written, each row without the blank
  cells at its end, as it documents: the rows of free periods come back with four cells of six, those without a teacher with five.\<close>

theorem export_imports_back:
  assumes v: "validateScheduleRequest req = Inr (g, c, ps)" "ps \<noteq> []"
    and rows: "filter (of_class g c) (weekly_schedules (db w)) = map (period_row g c) ps"
    and w: "faults w = []" "plain_texts [g, c]"
    and std: "letters_kept low" "digits_read whole"
    and zip: "take 4 data = [80, 75, 3, 4]" "unzip data = Some sizes" "\<not> unzips_too_much 0 sizes"
    and only: "only = None \<or> only = Some (g, c)"
  shows "\<exists>report. fst (AdminScheduleExportHandler g c w) = Inr report \<and>
    (\<forall>ws. open_book data = Some [ws] \<longrightarrow> written ws report \<longrightarrow>
      readScheduleWorkbook low whole plain cell_name unzip open_book data only =
        Inr \<lparr>si_classes = [((g, c), class_schedule coll g c (db w))], si_problems = []\<rparr>)"
  using assms by (rule export_read)

section \<open>Examples\<close>

definition one_digit :: "str \<Rightarrow> int option" where
  "one_digit s = (case s of [c] \<Rightarrow> if is_digit c then Some (int c - 48) else None | _ \<Rightarrow> None)"

definition saved_world :: world where
  "saved_world = class_world\<lparr>db := with_class (u ''1'') (u ''A'') (map sunday [2, 1, 3, 5, 4]) (db class_world)\<rparr>"

definition sunday_report :: "str list list" where
  "sunday_report = (case fst (AdminScheduleExportHandler (u ''1'') (u ''A'') saved_world) of Inl e \<Rightarrow> [] | Inr report \<Rightarrow> report)"

definition sunday_sheet :: worksheet where
  "sunday_sheet = \<lparr>ws_name = u ''Sheet1'', ws_rows = Some (map (\<lambda>row. Some (trim_blanks row)) sunday_report), ws_closes = True,
     ws_formula = (\<lambda>_ _. False), ws_numeric = (\<lambda>_ _. False)\<rparr>"

definition zip_file :: bytes where "zip_file = [80, 75, 3, 4]"

lemma sundays_sorted: "sort_key slot_of (map sunday [2, 1, 3, 5, 4]) = map sunday [1, 2, 3, 4, 5]"
  by (simp add: sort_key_def sunday_def)

lemma saved_rows: "filter (of_class (u ''1'') (u ''A'')) (weekly_schedules (db saved_world)) = map (period_row (u ''1'') (u ''A'')) (map sunday [2, 1, 3, 5, 4])"
proof -
  have "db saved_world = with_class (u ''1'') (u ''A'') (map sunday [2, 1, 3, 5, 4]) (db class_world)" by (simp add: saved_world_def)
  then show ?thesis by (simp only: class_rows)
qed

lemma saved_facts:
  "faults saved_world = []" "plain_texts [u ''1'', u ''A'']" "letters_kept id" "digits_read one_digit"
  "take 4 zip_file = [80, 75, 3, 4]" "\<not> unzips_too_much 0 []" "map sunday [2, 1, 3, 5, 4] \<noteq> []"
  by (auto simp: saved_world_def class_world_def plain_texts_def u_def letters_kept_def digits_read_def small_itoa one_digit_def
      is_digit_def MaxPeriodNumber_def zip_file_def)

lemma sunday_sheet_read:
  "fst (AdminScheduleExportHandler (u ''1'') (u ''A'') saved_world) = Inr sunday_report \<and>
   readScheduleWorkbook id one_digit (\<lambda>_. None) (\<lambda>_ _. []) (\<lambda>_. Some []) (\<lambda>_. Some [sunday_sheet]) zip_file None =
     Inr \<lparr>si_classes = [((u ''1'', u ''A''), map sunday [1, 2, 3, 4, 5])], si_problems = []\<rparr>"
proof -
  have "\<exists>report. fst (AdminScheduleExportHandler (u ''1'') (u ''A'') saved_world) = Inr report \<and>
    (\<forall>ws. Some [sunday_sheet] = Some [ws] \<longrightarrow> written ws report \<longrightarrow>
      readScheduleWorkbook id one_digit (\<lambda>_. None) (\<lambda>_ _. []) (\<lambda>_. Some []) (\<lambda>_. Some [sunday_sheet]) zip_file None =
      Inr \<lparr>si_classes = [((u ''1'', u ''A''), class_schedule length (u ''1'') (u ''A'') (db saved_world))], si_problems = []\<rparr>)"
    using export_read [OF sunday_checked saved_facts(7) saved_rows saved_facts(1-5) refl saved_facts(6), of None "\<lambda>_. Some [sunday_sheet]"
        "\<lambda>_. None" "\<lambda>_ _. []" length]
    by simp
  then obtain report where r: "fst (AdminScheduleExportHandler (u ''1'') (u ''A'') saved_world) = Inr report"
    and i: "written sunday_sheet report \<Longrightarrow>
      readScheduleWorkbook id one_digit (\<lambda>_. None) (\<lambda>_ _. []) (\<lambda>_. Some []) (\<lambda>_. Some [sunday_sheet]) zip_file None =
      Inr \<lparr>si_classes = [((u ''1'', u ''A''), class_schedule length (u ''1'') (u ''A'') (db saved_world))], si_problems = []\<rparr>"
    by auto
  have "report = sunday_report" using r by (simp add: sunday_report_def)
  moreover have "written sunday_sheet sunday_report" by (simp add: written_def sunday_sheet_def)
  moreover have "class_schedule length (u ''1'') (u ''A'') (db saved_world) = map sunday [1, 2, 3, 4, 5]"
    using class_stored [OF saved_rows validated(4) [OF sunday_checked], of length] sundays_sorted by simp
  ultimately show ?thesis using r i by simp
qed

definition import_request :: form_request where
  "import_request = \<lparr>fr_multipart = True, fr_parts = [\<lparr>fp_name = u ''file'', fp_data = zip_file, fp_error = None\<rparr>], fr_end = None, fr_over = False\<rparr>"

lemma sunday_import:
  assumes "readScheduleWorkbook id one_digit (\<lambda>_. None) (\<lambda>_ _. []) (\<lambda>_. Some []) (\<lambda>_. Some [sunday_sheet]) zip_file None =
     Inr \<lparr>si_classes = [((u ''1'', u ''A''), map sunday [1, 2, 3, 4, 5])], si_problems = []\<rparr>"
  shows "\<exists>w1. AdminScheduleImportHandler id one_digit (\<lambda>_. None) (\<lambda>_ _. []) (\<lambda>_. Some []) (\<lambda>_. Some [sunday_sheet]) import_request class_world =
    (Inr (Import_Done False 5 [\<lparr>ic_grade = u ''1'', ic_section = u ''A'', ic_periods = 5, ic_students = 1\<rparr>] []), w1)"
proof -
  let ?ps = "map sunday [1, 2, 3, 4, 5]" and ?k = "(u ''1'', u ''A'')"
  let ?w = "class_world\<lparr>noted := ([], [], dryRunDetail False [])\<rparr>"
  let ?c = "\<lparr>ic_grade = u ''1'', ic_section = u ''A'', ic_periods = 5, ic_students = 1\<rparr>"
  have parts: "readFormParts import_request scheduleImportPartLimits scheduleImportOverLimit = Inr [(u ''file'', zip_file)]"
    by (simp add: readFormParts_def streamFormParts_def import_request_def scheduleImportPartLimits_def MaxScheduleFileBytes_def zip_file_def)
  have g: "importClassGuard [(u ''file'', zip_file)] = Inr None" "dry_run_part [(u ''file'', zip_file)] = Inr False"
    by (simp_all add: importClassGuard_def dry_run_part_def)
  have f: "faults ?w = []" by (simp add: class_world_def)
  have "whole_days (map sunday [2, 1, 3, 5, 4])" by (rule validated(4) [OF sunday_checked])
  then have whole: "whole_days ?ps" using whole_days_sort [of slot_of "map sunday [2, 1, 3, 5, 4]"] unfolding sundays_sorted by simp
  have pl: "plain_texts [u ''1'', u ''A'']" by (simp add: plain_texts_def u_def)
  have "plain_texts ([u ''1'', u ''A'', sd_day p, sd_subject p] @ opt_list (sd_teacher p))" if "p \<in> set ?ps" for p
    using that by (auto simp: sunday_def opt_list_def plain_texts_def schoolWeek_def u_def)
  from replaced_run [OF f whole pl this]
  have r: "replaceClassSchedule (u ''1'') (u ''A'') ?ps ?w = (Inr (), ?w\<lparr>db := with_class (u ''1'') (u ''A'') ?ps (db class_world)\<rparr>)" by simp
  have n: "class_students ?k (with_class (u ''1'') (u ''A'') ?ps (db class_world)) = 1"
    by (simp add: class_students_def in_class_def with_class_def class_world_def)
  let ?w1 = "?w\<lparr>db := with_class (u ''1'') (u ''A'') ?ps (db class_world)\<rparr>"
  have "bindE lockSchedules (\<lambda>_. import_classes [(?k, ?ps)]) ?w = (Inr [?c], ?w1)"
    using r n f by (simp add: lockSchedules_def bindE_def run_simps with_plain_texts [OF pl])
  then have t: "import_tx False [(?k, ?ps)] ?w = (Inr [?c], ?w1)"
    using f by (simp add: import_tx_def in_tx_run_nil control_run_nil)
  show ?thesis
    using assms t by (simp add: AdminScheduleImportHandler_def bindE_def run_simps lift_err_run parts g save_import_def import_warnings_def class_target_def Let_def)
qed

theorem export_imports_back_witness:
  "fst (AdminScheduleExportHandler (u ''1'') (u ''A'') saved_world) = Inr sunday_report \<and>
   readScheduleWorkbook id one_digit (\<lambda>_. None) (\<lambda>_ _. []) (\<lambda>_. Some []) (\<lambda>_. Some [sunday_sheet]) zip_file None =
     Inr \<lparr>si_classes = [((u ''1'', u ''A''), map sunday [1, 2, 3, 4, 5])], si_problems = []\<rparr>"
proof -
  have "\<exists>report. fst (AdminScheduleExportHandler (u ''1'') (u ''A'') saved_world) = Inr report \<and>
    (\<forall>ws. Some [sunday_sheet] = Some [ws] \<longrightarrow> written ws report \<longrightarrow>
      readScheduleWorkbook id one_digit (\<lambda>_. None) (\<lambda>_ _. []) (\<lambda>_. Some []) (\<lambda>_. Some [sunday_sheet]) zip_file None =
      Inr \<lparr>si_classes = [((u ''1'', u ''A''), class_schedule length (u ''1'') (u ''A'') (db saved_world))], si_problems = []\<rparr>)"
    using export_imports_back [OF sunday_checked saved_facts(7) saved_rows saved_facts(1-5) refl saved_facts(6), of None "\<lambda>_. Some [sunday_sheet]"
        "\<lambda>_. None" "\<lambda>_ _. []" length]
    by simp
  then obtain report where r: "fst (AdminScheduleExportHandler (u ''1'') (u ''A'') saved_world) = Inr report"
    and i: "written sunday_sheet report \<Longrightarrow>
      readScheduleWorkbook id one_digit (\<lambda>_. None) (\<lambda>_ _. []) (\<lambda>_. Some []) (\<lambda>_. Some [sunday_sheet]) zip_file None =
      Inr \<lparr>si_classes = [((u ''1'', u ''A''), class_schedule length (u ''1'') (u ''A'') (db saved_world))], si_problems = []\<rparr>"
    by auto
  have "report = sunday_report" using r by (simp add: sunday_report_def)
  moreover have "written sunday_sheet sunday_report" by (simp add: written_def sunday_sheet_def)
  moreover have "class_schedule length (u ''1'') (u ''A'') (db saved_world) = map sunday [1, 2, 3, 4, 5]"
    using class_stored [OF saved_rows validated(4) [OF sunday_checked], of length] sundays_sorted by simp
  ultimately show ?thesis using r i by simp
qed

theorem import_all_or_nothing_witness:
  "\<exists>w1. AdminScheduleImportHandler id one_digit (\<lambda>_. None) (\<lambda>_ _. []) (\<lambda>_. Some []) (\<lambda>_. Some [sunday_sheet]) import_request class_world =
     (Inr (Import_Done False 5 [\<lparr>ic_grade = u ''1'', ic_section = u ''A'', ic_periods = 5, ic_students = 1\<rparr>] []), w1) \<and>
   (\<exists>raw data only imp. readFormParts import_request scheduleImportPartLimits scheduleImportOverLimit = Inr raw \<and>
      map_of raw (u ''file'') = Some data \<and> importClassGuard raw = Inr only \<and>
      readScheduleWorkbook id one_digit (\<lambda>_. None) (\<lambda>_ _. []) (\<lambda>_. Some []) (\<lambda>_. Some [sunday_sheet]) data only = Inr imp \<and>
      si_problems imp = [] \<and> (5::int) = sum_list (map (\<lambda>(k, ps). int (length ps)) (si_classes imp)) \<and>
      (\<forall>(k, ps) \<in> set (si_classes imp). whole_days ps \<and> class_schedule length (fst k) (snd k) (db w1) = ps \<and> (only = None \<or> only = Some k)) \<and>
      (\<forall>g s. (g, s) \<notin> fst ` set (si_classes imp) \<longrightarrow>
         filter (of_class g s) (weekly_schedules (db w1)) = filter (of_class g s) (weekly_schedules (db class_world))) \<and>
      db w1 = (db class_world)\<lparr>weekly_schedules := weekly_schedules (db w1)\<rparr>)"
proof -
  from sunday_import [OF conjunct2 [OF sunday_sheet_read]] obtain w1 where
    run: "AdminScheduleImportHandler id one_digit (\<lambda>_. None) (\<lambda>_ _. []) (\<lambda>_. Some []) (\<lambda>_. Some [sunday_sheet]) import_request class_world =
     (Inr (Import_Done False 5 [\<lparr>ic_grade = u ''1'', ic_section = u ''A'', ic_periods = 5, ic_students = 1\<rparr>] []), w1)"
    by (elim exE)
  from import_all_or_nothing [OF run, of length, unfolded sum.case import_reply.case bool.case] run show ?thesis by (intro exI [of _ w1] conjI)
qed

end
