(* ===== verification/DailyReport.thy ===== *)
theory DailyReport
  imports Attendance ScheduleImport
begin

text \<open>
  The attendance of a day as an Excel sheet: \<open>AdminExportExcelHandler\<close> of \<open>internal/handlers/admin.go\<close>. The sheet is the text
  of its rows; the styles and the merging of cells, which change no text, are left out.
\<close>

section \<open>The sheet\<close>

definition WeekendLabel :: str where
  "WeekendLabel = [1593, 1591, 1604, 1577, 32, 1606, 1607, 1575, 1610, 1577, 32, 1575, 1604, 1571, 1587, 1576,
    1608, 1593]"

definition manualEntryLabel :: "str option \<Rightarrow> str option \<Rightarrow> str" where
  "manualEntryLabel inSource outSource =
     (let came = (inSource = Some (u ''manual'')); left = (outSource = Some (u ''manual'')) in
      if came \<and> left then [1575, 1604, 1583, 1582, 1608, 1604, 32, 1608, 1575, 1604, 1582, 1585, 1608, 1580]
      else if came then [1575, 1604, 1583, 1582, 1608, 1604]
      else if left then [1575, 1604, 1582, 1585, 1608, 1580]
      else [])"

definition status_label :: "status \<Rightarrow> str" where
  "status_label s =
     (case s of
        Present \<Rightarrow> [1581, 1575, 1590, 1585]
      | Excused \<Rightarrow> [1605, 1580, 1575, 1586]
      | Absent \<Rightarrow> [1594, 1575, 1574, 1576])"

definition report_headers :: "str list" where
  "report_headers =
     [[1585, 1602, 1605, 32, 1575, 1604, 1591, 1575, 1604, 1576],
      [1575, 1587, 1605, 32, 1575, 1604, 1591, 1575, 1604, 1576],
      [1575, 1604, 1589, 1601],
      [1575, 1604, 1588, 1593, 1576, 1577],
      [1608, 1604, 1610, 32, 1575, 1604, 1571, 1605, 1585],
      [1585, 1602, 1605, 32, 1575, 1604, 1607, 1575, 1578, 1601],
      [1575, 1604, 1581, 1575, 1604, 1577],
      [1608, 1602, 1578, 32, 1575, 1604, 1583, 1582, 1608, 1604],
      [1608, 1602, 1578, 32, 1575, 1604, 1582, 1585, 1608, 1580],
      [1573, 1583, 1582, 1575, 1604, 32, 1610, 1583, 1608, 1610]]"

definition report_title :: "str \<Rightarrow> str" where
  "report_title dateParam =
     [1578, 1602, 1585, 1610, 1585, 32, 1575, 1604, 1581, 1590, 1608, 1585, 32, 1608, 1575, 1604,
    1594, 1610, 1575, 1576, 32, 1575, 1604, 1610, 1608, 1605, 1610, 32, 1575, 1604, 1588, 1575,
    1605, 1604, 32, 45, 32, 1578, 1575, 1585, 1610, 1582, 58, 32] @ dateParam"

definition or_dash :: "str option \<Rightarrow> str" where
  "or_dash t = (case t of None \<Rightarrow> u ''-'' | Some s \<Rightarrow> s)"

definition or_empty :: "str option \<Rightarrow> str" where
  "or_empty t = (case t of None \<Rightarrow> [] | Some s \<Rightarrow> s)"

definition report_row :: "db \<Rightarrow> date \<Rightarrow> student \<Rightarrow> str list" where
  \<comment> \<open>the columns A to J\<close>
  "report_row d day s =
     (let p = (case s_parent s of None \<Rightarrow> None | Some pid \<Rightarrow> find_row (\<lambda>p. p_id p = pid) (parents d)) in
      case get_student_status d (s_id s) day of (st, check_in, check_out) \<Rightarrow>
        [itoa (s_id s), s_name s,
         (case s_grade s of None \<Rightarrow> [1594, 1610, 1585, 32, 1605, 1581, 1583, 1583] | Some g \<Rightarrow> g),
         or_dash (s_section s), or_dash (map_option p_name p), or_dash (map_option p_phone p), status_label st,
         or_empty check_in, or_empty check_out,
         manualEntryLabel (map_option l_source (check_in_punch d (s_id s) day)) (map_option l_source (check_out_punch d (s_id s) day))])"

definition report_rows :: "(str \<Rightarrow> str) \<Rightarrow> date \<Rightarrow> db \<Rightarrow> str list list" where
  \<comment> \<open>\<open>ORDER BY st.status DESC, s.full_name ASC\<close>\<close>
  "report_rows coll day d =
     map (report_row d day)
       (sort_key (\<lambda>s. (status_rank (status_on d (s_id s) day), coll (s_name s)))
         (filter (\<lambda>s. s_active s \<and> existed_on s day) (students d)))"

definition closed_label :: "day_type \<Rightarrow> str" where
  "closed_label day =
     (if Type day \<noteq> DayWeekend then (case Title day of Some t \<Rightarrow> t | None \<Rightarrow> WeekendLabel) else WeekendLabel)"

definition AdminExportExcelHandler ::
    "(str \<Rightarrow> str) \<Rightarrow> meth \<Rightarrow> str \<Rightarrow> (refusal, str \<times> str list list) tx" where
  \<comment> \<open>the date in the file's name and the rows of the sheet; the fourth row, blank otherwise, names a day without school\<close>
  "AdminExportExcelHandler coll meth dateQuery =
     bindE (guard (meth = GET) method_not_allowed) (\<lambda>_.
     bindE get_clock (\<lambda>now.
     bindE (of_sum (requestedDate dateQuery now)) (\<lambda>dateParam.
     bindE (NoteActivity (u ''date'') dateParam []) (\<lambda>_.
     bindE (lift_err (internal_error ''Database error'') readSchoolName) (\<lambda>schoolName.
     bindE (lift_err (internal_error ''Database error'') (DayOn dateParam)) (\<lambda>day.
     let book = newReportWorkbook schoolName (report_title dateParam) report_headers in
     if \<not> School day then ret (dateParam, book[3 := [closed_label day]])
     else bindE (lift_err (internal_error ''Database error'') (query (report_rows coll (the (parse_date dateParam))))) (\<lambda>rows.
          ret (dateParam, book @ rows))))))))"

section \<open>The same day on the dashboard\<close>

text \<open>What a row of the sheet has to say about a child on the dashboard, with the words of the sheet spelt out: the
  statuses, and in the last column the checks that were entered by hand, joined by the Arabic for \<open>and\<close>.\<close>

definition expected_cells :: "AdminDailyAttendance \<Rightarrow> str list" where
  "expected_cells r =
     [itoa (StudentID r), FullName r,
      (if Status r = Present then [1581, 1575, 1590, 1585]
       else if Status r = Excused then [1605, 1580, 1575, 1586]
       else [1594, 1575, 1574, 1576]),
      (if CheckInTime r = None then [] else the (CheckInTime r)), (if CheckOutTime r = None then [] else the (CheckOutTime r)),
      (if CheckInSource r = Some (u ''manual'') then [1575, 1604, 1583, 1582, 1608, 1604] else []) @
      (if CheckInSource r = Some (u ''manual'') \<and> CheckOutSource r = Some (u ''manual'') then [32, 1608] else []) @
      (if CheckOutSource r = Some (u ''manual'') then [1575, 1604, 1582, 1585, 1608, 1580] else [])]"

definition own_columns :: "str list \<Rightarrow> str list" where
  \<comment> \<open>A, B, G, H, I and J\<close>
  "own_columns row = [row ! 0, row ! 1, row ! 6, row ! 7, row ! 8, row ! 9]"

definition family_columns :: "db \<Rightarrow> str list \<Rightarrow> bool" where
  \<comment> \<open>C to F: class and parent of a student of this id, or the words for what is missing\<close>
  "family_columns d row \<longleftrightarrow> (\<exists>s \<in> set (students d). row ! 0 = itoa (s_id s) \<and>
     row ! 2 = (if s_grade s = None then [1594, 1610, 1585, 32, 1605, 1581, 1583, 1583] else the (s_grade s)) \<and>
     row ! 3 = (if s_section s = None then [45] else the (s_section s)) \<and>
     ((row ! 4 = [45] \<and> row ! 5 = [45] \<and> (\<forall>p \<in> set (parents d). s_parent s \<noteq> Some (p_id p))) \<or>
      (\<exists>p \<in> set (parents d). s_parent s = Some (p_id p) \<and> row ! 4 = p_name p \<and> row ! 5 = p_phone p)))"

definition status_place :: "str list \<Rightarrow> nat" where
  \<comment> \<open>present children first, then the excused ones, then the absent ones\<close>
  "status_place row = (if row ! 6 = [1581, 1575, 1590, 1585] then 0 else if row ! 6 = [1605, 1580, 1575, 1586] then 1 else 2)"

definition weekend_text :: str where
  "weekend_text = [1593, 1591, 1604, 1577, 32, 1606, 1607, 1575, 1610, 1577, 32, 1575, 1604, 1571, 1587, 1576,
    1608, 1593]"

lemma report_daily: "own_columns (report_row d day s) = expected_cells (daily_row d day s)"
  by (cases "get_student_status d (s_id s) day"; cases "fst (get_student_status d (s_id s) day)")
    (auto simp: own_columns_def report_row_def daily_row_def expected_cells_def status_label_def or_empty_def
      manualEntryLabel_def Let_def split: option.split)

lemma report_family: "s \<in> set (students d) \<Longrightarrow> family_columns d (report_row d day s)"
  unfolding family_columns_def
  by (intro bexI [of _ s])
    (auto simp: report_row_def or_dash_def u_def find_row_None Let_def split: prod.split option.split dest!: find_row_Some)

lemma report_place: "status_place (report_row d day s) = status_rank (status_on d (s_id s) day) \<and> report_row d day s ! 1 = s_name s"
  by (cases "get_student_status d (s_id s) day"; cases "fst (get_student_status d (s_id s) day)")
    (auto simp: report_row_def status_place_def status_rank_def status_on_def status_label_def Let_def)

lemma own_rows: "mset (map own_columns (report_rows coll day d)) = mset (map expected_cells (daily_query coll day d))"
  by (simp add: report_rows_def daily_query_def report_daily o_def mset_map image_mset.compositionality)

lemma report_sorted: "sorted (map (\<lambda>row. (status_place row, coll (row ! 1))) (report_rows coll day d))"
proof -
  have "map (\<lambda>row. (status_place row, coll (row ! 1))) (report_rows coll day d) =
      map (\<lambda>s. (status_rank (status_on d (s_id s) day), coll (s_name s)))
        (sort_key (\<lambda>s. (status_rank (status_on d (s_id s) day), coll (s_name s)))
          (filter (\<lambda>s. s_active s \<and> existed_on s day) (students d)))"
    by (simp add: report_rows_def report_place [unfolded One_nat_def])
  then show ?thesis by (simp only: sorted_sort_key)
qed

lemma report_families: "\<forall>row \<in> set (report_rows coll day d). family_columns d row"
  by (auto simp: report_rows_def intro: report_family)

lemma export_header: "length (newReportWorkbook n t h) = 5"
  by (simp add: newReportWorkbook_def)

definition day_info :: "db \<Rightarrow> str \<Rightarrow> day_type" where
  "day_info d dateParam =
     (let t = the (parse_date dateParam) in
      if weekday t = 5 \<or> weekday t = 6 then \<lparr>Type = DayWeekend, Title = None, Notes = None\<rparr>
      else closure_day (covering_closure d t))"

lemma closed_day:
  assumes "closure_kinds d" "\<not> School (day_info d dateParam)"
  shows "if weekday (the (parse_date dateParam)) \<in> {5, 6} then closed_label (day_info d dateParam) = weekend_text
    else \<exists>c \<in> set (school_closures d). covers (the (parse_date dateParam)) c \<and> closed_label (day_info d dateParam) = c_title c"
proof (cases "weekday (the (parse_date dateParam)) \<in> {5, 6}")
  case True
  then show ?thesis by (auto simp: day_info_def closed_label_def weekend_text_def WeekendLabel_def Let_def)
next
  case False
  then have i: "day_info d dateParam = closure_day (covering_closure d (the (parse_date dateParam)))"
    by (auto simp: day_info_def Let_def)
  with assms(2) obtain c where c: "covering_closure d (the (parse_date dateParam)) = Some c"
    by (cases "covering_closure d (the (parse_date dateParam))") (auto simp: closure_day_def School_def)
  note mem = covering_closure_Some [OF c]
  then have "c_kind c \<noteq> DayWeekend"
    using assms(1) by (auto simp: closure_kinds_def list_all_iff DayHoliday_def DayPause_def DayWeekend_def)
  with False mem i c show ?thesis by (auto simp: closed_label_def closure_day_def)
qed

lemma DayOn_value: "DayOn dateParam w = (Inr day, w') \<Longrightarrow> day = day_info (db w) dateParam \<and> db w' = db w"
  by (auto simp: DayOn_def day_info_def ok_iffs Let_def bindE_ok split: option.splits if_splits dest!: query_okD)

lemma readSchoolName_db: "readSchoolName w = (Inr n, w') \<Longrightarrow> db w' = db w"
  by (auto simp: readSchoolName_def ok_iffs bindE_ok dest!: query_okD)

lemma export_result:
  assumes "AdminExportExcelHandler coll GET dateQuery w = (Inr (fileDate, sheet), w')"
  shows "requestedDate dateQuery (clock w) = Inr fileDate"
    "\<exists>n. sheet = (let book = newReportWorkbook n (report_title fileDate) report_headers; day = day_info (db w) fileDate in
      if School day then book @ report_rows coll (the (parse_date fileDate)) (db w) else book[3 := [closed_label day]])"
  using assms
  by (auto simp: AdminExportExcelHandler_def ok_iffs bindE_ok Let_def split: if_splits
      dest!: query_okD DayOn_value readSchoolName_db)

lemma daily_result:
  assumes "AdminDailyAttendanceHandler coll GET dateQuery w = (Inr (dateParam, records, day), w')"
  shows "requestedDate dateQuery (clock w) = Inr dateParam \<and> day = day_info (db w) dateParam \<and>
    records = (if School day then daily_query coll (the (parse_date dateParam)) (db w) else [])"
  using assms
  by (auto simp: AdminDailyAttendanceHandler_def ok_iffs bindE_ok split: if_splits dest!: query_okD DayOn_value)

section \<open>Properties\<close>

text \<open>C34. The exported sheet of a day and the day's list on the dashboard say the same, read at the same moment: below
  its five heading rows the sheet has one row per student of the list, with the same id, name, status (in the Arabic
  word for each), times and checks entered by hand, next to the student's own class and parent, sorted by status and
  name; on a day without school it has no row and its fourth row names the weekend, or the title of a closure that
  covers the day.\<close>

theorem export_matches_dashboard:
  assumes "AdminExportExcelHandler coll GET dateQuery w = (Inr (fileDate, sheet), w1)"
    "AdminDailyAttendanceHandler coll GET dateQuery w' = (Inr (dateParam, records, day), w2)"
    "db w' = db w" "clock w' = clock w" "closure_kinds (db w)"
  shows "fileDate = dateParam \<and> mset (map own_columns (drop 5 sheet)) = mset (map expected_cells records) \<and>
    sorted (map (\<lambda>row. (status_place row, coll (row ! 1))) (drop 5 sheet)) \<and>
    (\<forall>row \<in> set (drop 5 sheet). family_columns (db w) row) \<and>
    (\<not> School day \<longrightarrow> records = [] \<and> length sheet = 5 \<and>
       (if weekday (the (parse_date dateParam)) \<in> {5, 6} then sheet ! 3 = [weekend_text]
        else \<exists>c \<in> set (school_closures (db w)). covers (the (parse_date dateParam)) c \<and> sheet ! 3 = [c_title c]))"
proof -
  note e = export_result [OF assms(1)]
  have d: "requestedDate dateQuery (clock w) = Inr dateParam" "day = day_info (db w) dateParam"
    "records = (if School day then daily_query coll (the (parse_date dateParam)) (db w) else [])"
    using daily_result [OF assms(2)] assms(3,4) by auto
  have date: "fileDate = dateParam" using e(1) d(1) by simp
  obtain n where n: "sheet = (let book = newReportWorkbook n (report_title fileDate) report_headers in
      if School day then book @ report_rows coll (the (parse_date fileDate)) (db w) else book[3 := [closed_label day]])"
    using e(2) d(2) date by (auto simp: Let_def)
  have rows: "drop 5 sheet = (if School day then report_rows coll (the (parse_date dateParam)) (db w) else [])"
    using n date by (simp add: export_header Let_def)
  have closed: "records = [] \<and> length sheet = 5 \<and>
       (if weekday (the (parse_date dateParam)) \<in> {5, 6} then sheet ! 3 = [weekend_text]
        else \<exists>c \<in> set (school_closures (db w)). covers (the (parse_date dateParam)) c \<and> sheet ! 3 = [c_title c])"
    if "\<not> School day"
    using that n d(2,3) closed_day [OF assms(5), of dateParam] by (simp add: export_header Let_def)
  show ?thesis
    using rows d(3) date closed own_rows report_sorted report_families by simp
qed

section \<open>Example\<close>

text \<open>A child whose arrival and departure of Monday, 2 March 2026 were both entered by hand.\<close>

definition typed_punch :: "int \<Rightarrow> nat \<Rightarrow> punch" where
  "typed_punch i c = \<lparr>l_id = i, l_student = 7, l_device = None, l_time = At (Date 2026 3 2) c, l_sync = None,
     l_source = u ''manual'', l_note = None\<rparr>"

definition one_student :: db where
  "one_student = empty_db\<lparr>students := [\<lparr>s_id = 7, s_name = u ''Ali'', s_tag = [], s_created = None, s_grade = None, s_section = None,
     s_avatar = None, s_parent = None, s_active = True\<rparr>], attendance_logs := [typed_punch 1 (hm 7 40), typed_punch 2 (hm 12 30)]\<rparr>"

definition report_on :: "date \<Rightarrow> world" where "report_on day = quiet one_student (At day 0)"

lemma report_date:
  assumes "valid_date day" "2000 \<le> year day" "year day \<le> 2100"
  shows "requestedDate (ymd day) at = Inr (ymd day)" "parse_date (ymd day) = Some day"
proof -
  show p: "parse_date (ymd day) = Some day" using assms(1) by (rule parse_date_ymd)
  have "ymd day \<noteq> []" by (cases day) (simp add: ymd_def)
  with p show "requestedDate (ymd day) at = Inr (ymd day)"
    using assms(2,3) by (simp add: requestedDate_def yearInRange_def MinYear_def MaxYear_def)
qed

lemma no_closures: "school_closures one_student = []" "closure_kinds one_student" "covering_closure one_student day = None"
  by (simp_all add: one_student_def empty_db_def closure_kinds_def covering_closure_def)

lemma report_runs:
  assumes "valid_date day" "2000 \<le> year day" "year day \<le> 2100"
  obtains sheet w1 records info w2 where
    "AdminExportExcelHandler (\<lambda>s. s) GET (ymd day) (report_on day) = (Inr (ymd day, sheet), w1)"
    "AdminDailyAttendanceHandler (\<lambda>s. s) GET (ymd day) (report_on day) = (Inr (ymd day, records, info), w2)"
    "info = day_info one_student (ymd day)"
    "records = (if School info then daily_query (\<lambda>s. s) day one_student else [])"
proof -
  have f: "faults (report_on day) = []" "db (report_on day) = one_student" by (simp_all add: report_on_def)
  note d = report_date [OF assms] f
  have "\<exists>sheet w1. AdminExportExcelHandler (\<lambda>s. s) GET (ymd day) (report_on day) = (Inr (ymd day, sheet), w1)"
    using d no_closures
    by (simp add: AdminExportExcelHandler_def bindE_def lift_err_run run_simps readSchoolName_def DayOn_def closure_day_def School_def Let_def)
  moreover have "\<exists>records info w2. AdminDailyAttendanceHandler (\<lambda>s. s) GET (ymd day) (report_on day) = (Inr (ymd day, records, info), w2)"
    using d no_closures
    by (simp add: AdminDailyAttendanceHandler_def bindE_def lift_err_run run_simps DayOn_def closure_day_def School_def)
  ultimately obtain sheet w1 records info w2 where
    x: "AdminExportExcelHandler (\<lambda>s. s) GET (ymd day) (report_on day) = (Inr (ymd day, sheet), w1)" and
    y: "AdminDailyAttendanceHandler (\<lambda>s. s) GET (ymd day) (report_on day) = (Inr (ymd day, records, info), w2)"
    by blast
  show thesis using daily_result [OF y] d by (intro that [OF x y]) auto
qed

lemma ali_checks:
  "check_in_punch one_student 7 (Date 2026 3 2) = Some (typed_punch 1 (hm 7 40))"
  "check_out_punch one_student 7 (Date 2026 3 2) = Some (typed_punch 2 (hm 12 30))"
  "l_source (typed_punch i at) = u ''manual''"
proof -
  note windows = in_check_in_window_def in_check_out_window_def CheckInWindowStart_def CheckInWindowEnd_def
    CheckOutWindowStart_def CheckOutWindowEnd_def stamp_le_iff stamp_less_iff hm_def sec_def
  have l: "attendance_logs one_student = [typed_punch 1 (hm 7 40), typed_punch 2 (hm 12 30)]" by (simp add: one_student_def)
  have t: "l_time (typed_punch i at) = At (Date 2026 3 2) at" "l_student (typed_punch i at) = 7" for i at
    by (simp_all add: typed_punch_def)
  have w: "in_check_in_window (Date 2026 3 2) (At (Date 2026 3 2) (hm 7 40))" "\<not> in_check_in_window (Date 2026 3 2) (At (Date 2026 3 2) (hm 12 30))"
    "in_check_out_window (Date 2026 3 2) (At (Date 2026 3 2) (hm 12 30))" "\<not> in_check_out_window (Date 2026 3 2) (At (Date 2026 3 2) (hm 7 40))"
    by (simp_all add: windows)
  show "check_in_punch one_student 7 (Date 2026 3 2) = Some (typed_punch 1 (hm 7 40))"
    "check_out_punch one_student 7 (Date 2026 3 2) = Some (typed_punch 2 (hm 12 30))"
    by (simp_all add: check_in_punch_def check_out_punch_def l t w)
  show "l_source (typed_punch i at) = u ''manual''" by (simp add: typed_punch_def)
qed

lemma ali_status:
  "get_student_status one_student 7 (Date 2026 3 2) = (Present, Some (u ''07:40 AM''), Some (u ''12:30 PM''))"
  by (simp add: get_student_status_def ali_checks)
    (simp add: typed_punch_def time12_def hm_def hour_of_def minute_of_def pad2_def u_def sec_def Let_def)

theorem export_matches_dashboard_witness:
  "(\<exists>sheet. fst (AdminExportExcelHandler (\<lambda>s. s) GET (ymd (Date 2026 3 2)) (report_on (Date 2026 3 2))) =
      Inr (ymd (Date 2026 3 2), sheet) \<and>
    map own_columns (drop 5 sheet) = [[u ''7'', u ''Ali'', [1581, 1575, 1590, 1585], u ''07:40 AM'', u ''12:30 PM'',
      [1575, 1604, 1583, 1582, 1608, 1604, 32, 1608, 1575, 1604, 1582, 1585, 1608, 1580]]]) \<and>
   (\<exists>sheet. fst (AdminExportExcelHandler (\<lambda>s. s) GET (ymd (Date 2026 3 6)) (report_on (Date 2026 3 6))) =
      Inr (ymd (Date 2026 3 6), sheet) \<and> drop 5 sheet = [] \<and>
    sheet ! 3 = [[1593, 1591, 1604, 1577, 32, 1606, 1607, 1575, 1610, 1577, 32, 1575, 1604, 1571, 1587, 1576,
    1608, 1593]])"
  (is "?monday \<and> ?friday")
proof
  have v: "valid_date (Date 2026 3 2)" "valid_date (Date 2026 3 6)" by (simp_all add: valid_date_def days_in_def)
  have wd: "weekday (Date 2026 3 2) = 1" "weekday (Date 2026 3 6) = 5" by (simp_all add: date_eval)
  have c: "closure_kinds (db (report_on day))" for day by (simp add: report_on_def no_closures)
  show ?monday
  proof (rule report_runs [OF v(1)]; (simp; fail)?)
    fix sheet w1 records info w2
    assume x: "AdminExportExcelHandler (\<lambda>s. s) GET (ymd (Date 2026 3 2)) (report_on (Date 2026 3 2)) = (Inr (ymd (Date 2026 3 2), sheet), w1)"
      and y: "AdminDailyAttendanceHandler (\<lambda>s. s) GET (ymd (Date 2026 3 2)) (report_on (Date 2026 3 2)) = (Inr (ymd (Date 2026 3 2), records, info), w2)"
      and info: "info = day_info one_student (ymd (Date 2026 3 2))"
      and records: "records = (if School info then daily_query (\<lambda>s. s) (Date 2026 3 2) one_student else [])"
    have ali: "students one_student = [\<lparr>s_id = 7, s_name = u ''Ali'', s_tag = [], s_created = None, s_grade = None, s_section = None,
        s_avatar = None, s_parent = None, s_active = True\<rparr>]" by (simp add: one_student_def)
    have "School info"
      using report_date(2) [OF v(1)] wd(1) by (simp add: info day_info_def closure_day_def no_closures School_def)
    then have "map expected_cells records = [[itoa 7, u ''Ali'', [1581, 1575, 1590, 1585], u ''07:40 AM'', u ''12:30 PM'',
      [1575, 1604, 1583, 1582, 1608, 1604, 32, 1608, 1575, 1604, 1582, 1585, 1608, 1580]]]"
      by (simp add: records daily_query_def ali existed_on_def)
        (simp add: daily_row_def expected_cells_def ali_status ali_checks)
    moreover have "mset (map own_columns (drop 5 sheet)) = mset (map expected_cells records)"
      using export_matches_dashboard [OF x y refl refl c] by simp
    moreover have "map own_columns (drop 5 sheet) = [cells]" if "mset (map own_columns (drop 5 sheet)) = mset [cells]" for cells
      using that by (metis mset_single_iff mset.simps(1,2) add_mset_add_single)
    moreover have "itoa 7 = u ''7''" by (simp add: itoa_def digits_of.simps u_def)
    ultimately show ?monday using x by simp
  qed
  show ?friday
  proof (rule report_runs [OF v(2)]; (simp; fail)?)
    fix sheet w1 records info w2
    assume x: "AdminExportExcelHandler (\<lambda>s. s) GET (ymd (Date 2026 3 6)) (report_on (Date 2026 3 6)) = (Inr (ymd (Date 2026 3 6), sheet), w1)"
      and y: "AdminDailyAttendanceHandler (\<lambda>s. s) GET (ymd (Date 2026 3 6)) (report_on (Date 2026 3 6)) = (Inr (ymd (Date 2026 3 6), records, info), w2)"
      and info: "info = day_info one_student (ymd (Date 2026 3 6))"
    have wd: "weekday (the (parse_date (ymd (Date 2026 3 6)))) = 5"
      using report_date(2) [OF v(2)] wd(2) by simp
    then have "\<not> School info" by (simp add: info day_info_def School_def day_names)
    with export_matches_dashboard [OF x y refl refl c] wd show ?friday using x by (simp add: weekend_text_def)
  qed
qed

end
