(* ===== verification/MigratePins.thy ===== *)
theory MigratePins
  imports Startup
begin

text \<open>
  \<open>cmd/migrate-pins/main.go\<close>: the tool that replaces plain PINs by bcrypt hashes before the login code that expects
  hashes is deployed. bcrypt is a parameter: the hash of a PIN, or nothing when it is refused. Nothing else uses the
  database while the tool runs; a statement of its loop may fail, which the tool counts.
\<close>

section \<open>The tool\<close>

definition utf8_bytes :: "str \<Rightarrow> nat" where
  \<comment> \<open>Go's \<open>len\<close>\<close>
  "utf8_bytes s = sum_list (map (\<lambda>c. if c < 128 then 1 else if c < 2048 then 2 else if c < 65536 then 3 else 4) s)"

definition already_hashed :: "str \<Rightarrow> bool" where
  "already_hashed pin \<longleftrightarrow> utf8_bytes pin = 60 \<and>
     (has_prefix pin (u ''$2a$'') \<or> has_prefix pin (u ''$2b$'') \<or> has_prefix pin (u ''$2y$''))"

record tally =
  ta_already :: nat
  ta_migrated :: nat
  ta_failed :: nat

definition save_pin :: "str \<Rightarrow> int \<Rightarrow> db \<Rightarrow> db" where
  "save_pin hashed pid d = d\<lparr>parents := upd_where (\<lambda>p. p_id p = pid) (\<lambda>p. p\<lparr>p_pin := hashed\<rparr>) (parents d)\<rparr>"

definition migrate_pin :: "(str \<Rightarrow> str option) \<Rightarrow> int \<times> str \<Rightarrow> tally \<Rightarrow> (err, tally) tx" where
  "migrate_pin hash = (\<lambda>(pid, pin) t.
     if already_hashed pin then ret (t\<lparr>ta_already := ta_already t + 1\<rparr>)
     else case hash pin of
       None \<Rightarrow> ret (t\<lparr>ta_failed := ta_failed t + 1\<rparr>)
     | Some hashed \<Rightarrow>
         bindE (attempt (with_text [hashed] (exec (save_pin hashed pid)))) (\<lambda>r.
         ret (case r of Inl e \<Rightarrow> t\<lparr>ta_failed := ta_failed t + 1\<rparr> | Inr _ \<Rightarrow> t\<lparr>ta_migrated := ta_migrated t + 1\<rparr>)))"

fun migrate_pins :: "(str \<Rightarrow> str option) \<Rightarrow> (int \<times> str) list \<Rightarrow> tally \<Rightarrow> (err, tally) tx" where
  "migrate_pins hash [] t = ret t"
| "migrate_pins hash (p # ps) t = bindE (migrate_pin hash p t) (migrate_pins hash ps)"

definition migration :: "(str \<Rightarrow> str option) \<Rightarrow> (err, tally) tx" where
  "migration hash =
     bindE (query (\<lambda>d. map (\<lambda>p. (p_id p, p_pin p)) (parents d))) (\<lambda>ps.
     migrate_pins hash ps \<lparr>ta_already = 0, ta_migrated = 0, ta_failed = 0\<rparr>)"

definition migrate_main ::
    "('u, 'b) golib \<Rightarrow> (str \<Rightarrow> bool) \<Rightarrow> (str \<Rightarrow> str option) \<Rightarrow> environ \<Rightarrow> world \<Rightarrow> int \<times> world" where
  \<comment> \<open>the exit code; \<open>reaches\<close>: the driver opens the URL and the ping is answered\<close>
  "migrate_main lib reaches hash env w =
     (let dbURL = (if Getenv env ''DATABASE_URL'' = [] then Getenv env ''DB_URL'' else Getenv env ''DATABASE_URL'') in
      if dbURL = [] then (1, w)
      else case BuildDBURL lib dbURL (Getenv env ''DB_SSL_MODE'') of
        Inl e \<Rightarrow> (1, w)
      | Inr dsn \<Rightarrow>
          if \<not> reaches dsn then (1, w)
          else (case migration hash w of
              (Inl e, w') \<Rightarrow> (1, w')
            | (Inr t, w') \<Rightarrow> (if 0 < ta_failed t then 1 else 0, w')))"

section \<open>What a run leaves\<close>

definition hashed_by :: "(str \<Rightarrow> str option) \<Rightarrow> parent \<Rightarrow> parent \<Rightarrow> bool" where
  "hashed_by hash p q \<longleftrightarrow> \<not> already_hashed (p_pin p) \<and> (\<exists>h. hash (p_pin p) = Some h \<and> q = p\<lparr>p_pin := h\<rparr>)"

definition settled :: "(str \<Rightarrow> str option) \<Rightarrow> parent \<Rightarrow> parent \<Rightarrow> bool" where
  "settled hash p q \<longleftrightarrow> already_hashed (p_pin p) \<and> q = p \<or> hashed_by hash p q"

abbreviation touched :: "(str \<Rightarrow> str option) \<Rightarrow> parent \<Rightarrow> parent \<Rightarrow> bool" where
  "touched hash p q \<equiv> q = p \<or> hashed_by hash p q"

lemma upd_one:
  assumes "distinct (map p_id (ps @ p # qs))"
  shows "upd_where (\<lambda>q. p_id q = p_id p) f (ps @ p # qs) = ps @ f p # qs"
proof -
  have "upd_where (\<lambda>q. p_id q = p_id p) f xs = xs" if "p_id p \<notin> p_id ` set xs" for xs
    using that by (induction xs) (auto simp: upd_where_def)
  then show ?thesis using assms by (auto simp: upd_where_def)
qed

lemma same_parents: "parents d = ps \<Longrightarrow> d\<lparr>parents := ps\<rparr> = d"
  by auto

lemma migrate_pin_ok:
  assumes "migrate_pin hash (p_id p, p_pin p) t w = (Inr t', w')" "parents (db w) = ps @ p # qs"
    "distinct (map p_id (ps @ p # qs))"
  shows "\<exists>q. db w' = (db w)\<lparr>parents := ps @ q # qs\<rparr> \<and> p_id q = p_id p \<and> touched hash p q \<and>
    ta_failed t \<le> ta_failed t' \<and> (ta_failed t' = ta_failed t \<longrightarrow> settled hash p q) \<and>
    ta_already t' + ta_migrated t' + ta_failed t' = ta_already t + ta_migrated t + ta_failed t + 1"
proof (cases "already_hashed (p_pin p) \<or> hash (p_pin p) = None")
  case True
  have d: "(db w)\<lparr>parents := ps @ p # qs\<rparr> = db w" using assms(2) by (rule same_parents)
  have "w' = w" "(already_hashed (p_pin p) \<and> t' = t\<lparr>ta_already := ta_already t + 1\<rparr>) \<or>
      (\<not> already_hashed (p_pin p) \<and> t' = t\<lparr>ta_failed := ta_failed t + 1\<rparr>)"
    using assms(1) True by (cases "already_hashed (p_pin p)"; simp add: migrate_pin_def run_simps)+
  then show ?thesis using d by (intro exI [of _ p]) (auto simp: settled_def)
next
  case False
  then obtain h where h: "hash (p_pin p) = Some h" "\<not> already_hashed (p_pin p)" by auto
  obtain r w1 where r: "with_text [h] (exec (save_pin h (p_id p))) w = (r, w1)" by fastforce
  have run: "w' = w1" "t' = (case r of Inl e \<Rightarrow> t\<lparr>ta_failed := ta_failed t + 1\<rparr> | Inr _ \<Rightarrow> t\<lparr>ta_migrated := ta_migrated t + 1\<rparr>)"
    using assms(1) h r by (auto simp: migrate_pin_def bindE_def attempt_def run_simps)
  show ?thesis
  proof (cases r)
    case (Inl e)
    then have "db w1 = db w" using r by (auto simp: with_text_def exec_def stmt_def next_fault_def split: if_splits option.splits sum.splits list.splits)
    then show ?thesis using Inl run same_parents [OF assms(2)] by (intro exI [of _ p]) simp
  next
    case (Inr v)
    then have "db w1 = save_pin h (p_id p) (db w)" using r with_text_ok exec_ok(1) by metis
    then show ?thesis
      using Inr run h upd_one [OF assms(3), of "\<lambda>p. p\<lparr>p_pin := h\<rparr>"] assms(2)
      by (intro exI [of _ "p\<lparr>p_pin := h\<rparr>"]) (auto simp: save_pin_def hashed_by_def settled_def)
  qed
qed

lemma migrate_pins_ok:
  assumes "migrate_pins hash (map (\<lambda>p. (p_id p, p_pin p)) todo) t w = (Inr t', w')" "parents (db w) = ps @ todo"
    "distinct (map p_id (ps @ todo))"
  shows "\<exists>qs. db w' = (db w)\<lparr>parents := ps @ qs\<rparr> \<and> list_all2 (touched hash) todo qs \<and>
    ta_failed t \<le> ta_failed t' \<and> (ta_failed t' = ta_failed t \<longrightarrow> list_all2 (settled hash) todo qs) \<and>
    ta_already t' + ta_migrated t' + ta_failed t' = ta_already t + ta_migrated t + ta_failed t + length todo"
  using assms
proof (induction todo arbitrary: t w ps)
  case Nil
  then show ?case using same_parents [of "db w" ps] by (simp add: run_simps)
next
  case (Cons p todo)
  from Cons.prems(1) obtain t1 w1 where one: "migrate_pin hash (p_id p, p_pin p) t w = (Inr t1, w1)"
    and rest: "migrate_pins hash (map (\<lambda>p. (p_id p, p_pin p)) todo) t1 w1 = (Inr t', w')"
    by (auto simp: bindE_ok)
  obtain q where q: "db w1 = (db w)\<lparr>parents := ps @ q # todo\<rparr>" "p_id q = p_id p" "touched hash p q"
      "ta_failed t \<le> ta_failed t1" "ta_failed t1 = ta_failed t \<longrightarrow> settled hash p q"
      "ta_already t1 + ta_migrated t1 + ta_failed t1 = ta_already t + ta_migrated t + ta_failed t + 1"
    using migrate_pin_ok [OF one Cons.prems(2,3)] by blast
  have "distinct (map p_id ((ps @ [q]) @ todo))" "parents (db w1) = (ps @ [q]) @ todo"
    using Cons.prems(3) q(1,2) by auto
  from Cons.IH [OF rest this(2,1)] obtain qs where r: "db w' = (db w1)\<lparr>parents := (ps @ [q]) @ qs\<rparr>"
      "list_all2 (touched hash) todo qs" "ta_failed t1 \<le> ta_failed t'"
      "ta_failed t' = ta_failed t1 \<longrightarrow> list_all2 (settled hash) todo qs"
      "ta_already t' + ta_migrated t' + ta_failed t' = ta_already t1 + ta_migrated t1 + ta_failed t1 + length todo"
    by blast
  show ?case
    using q r by (intro exI [of _ "q # qs"]) auto
qed

text \<open>Each PIN is either as it was or hashed; without a failure all are.\<close>

lemma migration_ok:
  assumes "migration hash w = (Inr t, w')" "unique_key p_id (parents (db w))"
  shows "\<exists>qs. db w' = (db w)\<lparr>parents := qs\<rparr> \<and> list_all2 (touched hash) (parents (db w)) qs \<and>
    (ta_failed t = 0 \<longrightarrow> list_all2 (settled hash) (parents (db w)) qs) \<and>
    ta_already t + ta_migrated t + ta_failed t = length (parents (db w))"
proof -
  obtain w1 where "db w1 = db w"
    "migrate_pins hash (map (\<lambda>p. (p_id p, p_pin p)) (parents (db w))) \<lparr>ta_already = 0, ta_migrated = 0, ta_failed = 0\<rparr> w1 = (Inr t, w')"
    using assms(1) by (auto simp: migration_def bindE_ok dest!: query_okD)
  then show ?thesis
    using migrate_pins_ok [of hash "parents (db w)" "\<lparr>ta_already = 0, ta_migrated = 0, ta_failed = 0\<rparr>" w1 t w' "[]"] assms(2)
    by (simp add: unique_key_def)
qed

definition proper_bcrypt :: "(str \<Rightarrow> str option) \<Rightarrow> bool" where
  \<comment> \<open>what \<open>GenerateFromPassword\<close> returns has the form of a hash\<close>
  "proper_bcrypt hash \<longleftrightarrow> (\<forall>pin h. hash pin = Some h \<longrightarrow> already_hashed h)"

lemma touched_twice:
  assumes "proper_bcrypt hash" "touched hash p q"
  shows "touched hash q r \<Longrightarrow> touched hash p r" "settled hash q r \<Longrightarrow> settled hash p r"
  using assms by (auto simp: hashed_by_def settled_def proper_bcrypt_def)

lemma list_all2_pins:
  assumes "proper_bcrypt hash" "list_all2 (touched hash) ps qs"
  shows "list_all2 (touched hash) qs rs \<Longrightarrow> list_all2 (touched hash) ps rs"
    "list_all2 (settled hash) qs rs \<Longrightarrow> list_all2 (settled hash) ps rs"
proof -
  show "list_all2 (touched hash) ps rs" if "list_all2 (touched hash) qs rs"
    using list_all2_trans [of "touched hash" "touched hash" "touched hash" ps qs rs] touched_twice(1) [OF assms(1)] assms(2) that by blast
  show "list_all2 (settled hash) ps rs" if "list_all2 (settled hash) qs rs"
    using list_all2_trans [of "touched hash" "settled hash" "settled hash" ps qs rs] touched_twice(2) [OF assms(1)] assms(2) that by blast
qed

lemma touched_ids: "list_all2 (touched hash) ps qs \<Longrightarrow> map p_id qs = map p_id ps"
  by (induction rule: list_all2_induct) (auto simp: hashed_by_def)

lemma settled_hashed:
  assumes "proper_bcrypt hash" "list_all2 (settled hash) ps qs"
  shows "\<forall>q \<in> set qs. already_hashed (p_pin q)"
  using assms(2)
  by (induction rule: list_all2_induct) (use assms(1) in \<open>auto simp: settled_def hashed_by_def proper_bcrypt_def\<close>)

inductive migration_runs :: "(str \<Rightarrow> str option) \<Rightarrow> db \<Rightarrow> db \<Rightarrow> bool" for hash d where
  none: "migration_runs hash d d"
| again: "migration_runs hash d (db w) \<Longrightarrow> migration hash w = (Inr t, w') \<Longrightarrow> migration_runs hash d (db w')"

lemma one_more_run:
  assumes "db w = d\<lparr>parents := ps\<rparr>" "list_all2 (touched hash) (parents d) ps" "migration hash w = (Inr t, w')"
    "unique_key p_id (parents d)" "proper_bcrypt hash"
  shows "\<exists>qs. db w' = d\<lparr>parents := qs\<rparr> \<and> list_all2 (touched hash) (parents d) qs \<and>
    (ta_failed t = 0 \<longrightarrow> list_all2 (settled hash) (parents d) qs)"
proof -
  have u: "unique_key p_id (parents (db w))" using assms(1,4) touched_ids [OF assms(2)] by (simp add: unique_key_def)
  show ?thesis using migration_ok [OF assms(3) u] assms(1) list_all2_pins [OF assms(5,2)] by auto
qed

lemma runs_touch:
  assumes "migration_runs hash d d'" "unique_key p_id (parents d)" "proper_bcrypt hash"
  shows "\<exists>ps. d' = d\<lparr>parents := ps\<rparr> \<and> list_all2 (touched hash) (parents d) ps"
  using assms(1)
proof (induction rule: migration_runs.induct)
  case none
  show ?case by (intro exI [of _ "parents d"]) (auto simp: list_all2_refl)
next
  case (again w t w')
  then show ?case using one_more_run assms(2,3) by blast
qed

section \<open>Properties\<close>

text \<open>C40. The migration can be run again at any time. After any number of runs, with whatever statements failing, every parent's
  PIN is the original one or the hash of it, never a hash of a hash, and nothing else in the database has
  changed; and a run that reports no failure leaves no plain PIN.\<close>

theorem migration_reruns:
  assumes "migration_runs hash d (db w)" "migration hash w = (Inr t, w')" "unique_key p_id (parents d)" "proper_bcrypt hash"
  shows "\<exists>ps. db w' = d\<lparr>parents := ps\<rparr> \<and> list_all2 (touched hash) (parents d) ps \<and>
    (ta_failed t = 0 \<longrightarrow> list_all2 (settled hash) (parents d) ps \<and> (\<forall>p \<in> set ps. already_hashed (p_pin p)))"
proof -
  obtain ps where ps: "db w = d\<lparr>parents := ps\<rparr>" "list_all2 (touched hash) (parents d) ps"
    using runs_touch [OF assms(1,3,4)] by auto
  obtain qs where qs: "db w' = d\<lparr>parents := qs\<rparr>" "list_all2 (touched hash) (parents d) qs"
    "ta_failed t = 0 \<longrightarrow> list_all2 (settled hash) (parents d) qs"
    using one_more_run [OF ps assms(2-4)] by auto
  have "\<forall>p \<in> set qs. already_hashed (p_pin p)" if "list_all2 (settled hash) (parents d) qs"
    using that by (rule settled_hashed [OF assms(4)])
  then show ?thesis using qs by (intro exI [of _ qs]) simp
qed

section \<open>Example\<close>

definition long_hash :: str where "long_hash = u ''$2a$'' @ replicate 56 48"

definition hash_1234 :: "str \<Rightarrow> str option" where
  "hash_1234 pin = (if pin = u ''1234'' then Some long_hash else None)"

definition two_pins :: db where
  "two_pins = empty_db\<lparr>parents :=
     [\<lparr>p_id = 1, p_name = [], p_phone = [], p_pin = u ''1234'', p_version = 1, p_push = True\<rparr>,
      \<lparr>p_id = 2, p_name = [], p_phone = [], p_pin = long_hash, p_version = 1, p_push = True\<rparr>]\<rparr>"

lemma long_hash_form: "already_hashed long_hash" "\<not> already_hashed (u ''1234'')" "0 \<notin> set long_hash"
proof -
  show "already_hashed long_hash" by (simp add: already_hashed_def long_hash_def utf8_bytes_def sum_list_replicate u_def)
  show "\<not> already_hashed (u ''1234'')" by (simp add: already_hashed_def utf8_bytes_def u_def)
  show "0 \<notin> set long_hash" by (simp add: long_hash_def u_def)
qed

lemma two_pins_run: "\<exists>w'. migration hash_1234 (quiet two_pins now) = (Inr \<lparr>ta_already = 1, ta_migrated = 1, ta_failed = 0\<rparr>, w')"
  using long_hash_form
  by (simp add: migration_def two_pins_def bindE_def run_simps migrate_pin_def hash_1234_def attempt_def with_text_def)

theorem migration_reruns_witness:
  "\<exists>t w'. migration hash_1234 (quiet two_pins (At (Date 2026 3 2) 0)) = (Inr t, w') \<and> (\<forall>p \<in> set (parents (db w')). already_hashed (p_pin p))"
proof -
  let ?w = "quiet two_pins (At (Date 2026 3 2) 0)"
  obtain w' where r: "migration hash_1234 ?w = (Inr \<lparr>ta_already = 1, ta_migrated = 1, ta_failed = 0\<rparr>, w')"
    using two_pins_run by blast
  have a: "migration_runs hash_1234 two_pins (db ?w)" by (simp add: migration_runs.none)
  have p: "proper_bcrypt hash_1234" using long_hash_form by (simp add: proper_bcrypt_def hash_1234_def)
  have u: "unique_key p_id (parents two_pins)" by (simp add: unique_key_def two_pins_def)
  show ?thesis using migration_reruns [OF a r u p] r by auto
qed

end
