(* ===== verification/Shutdown.thy ===== *)
theory Shutdown
  imports Prelude
begin

text \<open>
  Work that runs in the background (\<open>internal/background/background.go\<close>) and the end of the process
  (\<open>shutdown\<close> and the last lines of \<open>run\<close> in \<open>cmd/api/main.go\<close>). A \<open>Group\<close> counts its goroutines under a
  mutex, so its methods are single steps; a channel is a number, closed when it is in \<open>closed\<close>. The
  process is a step relation: requests, absence jobs and background tasks come and go between the phases
  of the shutdown, each of which ends when its work has ended or when the time is up.
\<close>

section \<open>The group\<close>

record Group =
  running :: int
  idle :: "nat option"
  closed :: "nat list"
  next_chan :: nat       \<comment> \<open>the number of the channel \<open>make\<close> returns next\<close>

definition zero_group :: Group where
  "zero_group = \<lparr>running = 0, idle = None, closed = [], next_chan = 0\<rparr>"

definition go_start :: "Group option \<Rightarrow> Group option" where
  \<comment> \<open>\<open>Go\<close> before the goroutine; a nil group tracks nothing\<close>
  "go_start g = map_option (\<lambda>g. g\<lparr>running := running g + 1\<rparr>) g"

definition go_end :: "Group option \<Rightarrow> Group option" where
  \<comment> \<open>the deferred call of the goroutine, after a panic too\<close>
  "go_end g = map_option (\<lambda>g.
     let g = g\<lparr>running := running g - 1\<rparr> in
     case idle g of
       Some c \<Rightarrow> if running g = 0 then g\<lparr>closed := c # closed g, idle := None\<rparr> else g
     | None \<Rightarrow> g) g"

definition Running :: "Group option \<Rightarrow> int" where
  "Running g = (case g of None \<Rightarrow> 0 | Some g \<Rightarrow> running g)"

definition Wait :: "Group option \<Rightarrow> nat option \<times> Group option" where
  \<comment> \<open>up to the select: the channel to wait for, or nothing to wait for\<close>
  "Wait g =
     (case g of
        None \<Rightarrow> (None, None)
      | Some g \<Rightarrow>
          if running g = 0 then (None, Some g)
          else (case idle g of
              Some c \<Rightarrow> (Some c, Some g)
            | None \<Rightarrow> (Some (next_chan g), Some (g\<lparr>idle := Some (next_chan g), next_chan := next_chan g + 1\<rparr>))))"

text \<open>
  Any number of goroutines start, end and wait, in any order. A waiter is its channel and whether the
  group has been idle since it began to wait.
\<close>

type_synonym waited = "Group \<times> (nat \<times> bool) list"

inductive group_step :: "waited \<Rightarrow> waited \<Rightarrow> bool" where
  start: "go_start (Some g) = Some g' \<Longrightarrow> group_step (g, ws) (g', ws)"
| ends: "0 < running g \<Longrightarrow> go_end (Some g) = Some g' \<Longrightarrow>
    group_step (g, ws) (g', if running g' = 0 then map (\<lambda>(c, seen). (c, True)) ws else ws)"
| waits: "Wait (Some g) = (Some c, Some g') \<Longrightarrow> group_step (g, ws) (g', (c, False) # ws)"
| returns: "group_step (g, ws1 @ w # ws2) (g, ws1 @ ws2)"

inductive group_reach :: "waited \<Rightarrow> bool" where
  fresh: "group_reach (zero_group, [])"
| step: "group_reach s \<Longrightarrow> group_step s t \<Longrightarrow> group_reach t"

inductive_cases group_stepE: "group_step (g, ws) t"

definition group_inv :: "Group \<Rightarrow> bool" where
  "group_inv g \<longleftrightarrow> 0 \<le> running g \<and> (\<forall>c \<in> set (closed g). c < next_chan g) \<and>
     (\<forall>c. idle g = Some c \<longrightarrow> 0 < running g \<and> c < next_chan g \<and> c \<notin> set (closed g))"

definition waiting_on :: "Group \<Rightarrow> nat \<Rightarrow> bool" where
  \<comment> \<open>the channel has been closed, or the end of the last task will close it\<close>
  "waiting_on g c \<longleftrightarrow> c \<in> set (closed g) \<or> idle g = Some c"

lemma start_inv: "group_inv g \<Longrightarrow> go_start (Some g) = Some g' \<Longrightarrow> group_inv g'"
  by (auto simp: group_inv_def go_start_def)

lemma end_inv: "group_inv g \<Longrightarrow> 0 < running g \<Longrightarrow> go_end (Some g) = Some g' \<Longrightarrow> group_inv g'"
  by (auto simp: group_inv_def go_end_def Let_def split: option.splits if_splits)

lemma wait_inv: "group_inv g \<Longrightarrow> Wait (Some g) = (c, Some g') \<Longrightarrow> group_inv g'"
  by (auto simp: group_inv_def Wait_def less_Suc_eq split: option.splits if_splits)

lemma start_waiting: "go_start (Some g) = Some g' \<Longrightarrow> waiting_on g' c \<longleftrightarrow> waiting_on g c"
  by (auto simp: waiting_on_def go_start_def)

lemma end_waiting: "go_end (Some g) = Some g' \<Longrightarrow> waiting_on g' c \<longleftrightarrow> waiting_on g c"
  by (auto simp: waiting_on_def go_end_def Let_def split: option.splits if_splits)

lemma wait_waiting:
  "Wait (Some g) = (r, Some g') \<Longrightarrow> waiting_on g c \<Longrightarrow> waiting_on g' c"
  "Wait (Some g) = (Some c, Some g') \<Longrightarrow> waiting_on g' c"
  by (auto simp: waiting_on_def Wait_def split: option.splits if_splits)

lemma idle_released: "group_inv g \<Longrightarrow> running g = 0 \<Longrightarrow> waiting_on g c \<Longrightarrow> c \<in> set (closed g)"
  by (auto simp: group_inv_def waiting_on_def)

lemma zero_inv: "group_inv zero_group"
  by (simp add: group_inv_def zero_group_def)

definition waiters_inv :: "waited \<Rightarrow> bool" where
  "waiters_inv s \<longleftrightarrow> group_inv (fst s) \<and>
     (\<forall>(c, seen) \<in> set (snd s). waiting_on (fst s) c \<and> (c \<in> set (closed (fst s)) \<longleftrightarrow> seen))"

lemma closed_kept: "go_start (Some g) = Some g' \<Longrightarrow> closed g' = closed g"
  "Wait (Some g) = (r, Some g') \<Longrightarrow> closed g' = closed g"
  by (auto simp: go_start_def Wait_def split: option.splits if_splits)

lemma end_closed:
  assumes "group_inv g" "0 < running g" "go_end (Some g) = Some g'" "waiting_on g c"
  shows "c \<in> set (closed g') \<longleftrightarrow> c \<in> set (closed g) \<or> running g' = 0"
  using assms by (auto simp: group_inv_def waiting_on_def go_end_def Let_def split: option.splits if_splits)

lemma waiters_step:
  assumes "group_step s t" "waiters_inv s"
  shows "waiters_inv t"
  using assms
proof cases
  case (start g g' ws)
  then show ?thesis using assms(2) start_inv [of g g'] start_waiting [of g g'] closed_kept(1) [of g g']
    by (auto simp: waiters_inv_def)
next
  case (ends g g' ws)
  then show ?thesis using assms(2) end_inv [of g g'] end_waiting [of g g'] end_closed [of g g']
    by (auto simp: waiters_inv_def split: if_splits)
next
  case (waits g c g' ws)
  have "c \<notin> set (closed g)" using waits assms(2)
    by (auto simp: waiters_inv_def group_inv_def Wait_def split: option.splits if_splits)
  then show ?thesis
    using waits assms(2) wait_inv [of g "Some c" g'] wait_waiting(1) [of g "Some c" g'] wait_waiting(2) [of g c g'] closed_kept(2) [of g "Some c" g']
    by (auto simp: waiters_inv_def)
next
  case (returns g ws1 w ws2)
  then show ?thesis using assms(2) by (auto simp: waiters_inv_def)
qed

lemma waiters_reach: "group_reach s \<Longrightarrow> waiters_inv s"
  by (induction rule: group_reach.induct) (simp add: waiters_inv_def zero_inv, blast intro: waiters_step)

section \<open>The process\<close>

datatype phase =
    Serving
  | Draining              \<comment> \<open>in \<open>srv.Shutdown\<close>\<close>
  | Stopping_Cron         \<comment> \<open>in \<open>finished(c.Stop().Done(), ctx)\<close>\<close>
  | Waiting "nat option"  \<comment> \<open>in the select of \<open>bg.Wait\<close>\<close>
  | Failing               \<comment> \<open>the server stopped by itself: in \<open><-c.Stop().Done()\<close>\<close>
  | Exited int

record process =
  listening :: bool
  requests :: nat         \<comment> \<open>in flight\<close>
  cron_on :: bool
  jobs :: nat             \<comment> \<open>absence jobs running\<close>
  bg :: Group
  phase :: phase
  on_time :: bool         \<comment> \<open>the variable \<open>clean\<close>\<close>
  db_open :: bool

definition serving :: process where
  "serving = \<lparr>listening = True, requests = 0, cron_on = True, jobs = 0, bg = zero_group, phase = Serving,
     on_time = True, db_open = True\<rparr>"

definition with_bg :: "(Group option \<Rightarrow> Group option) \<Rightarrow> process \<Rightarrow> process" where
  "with_bg f p = (case f (Some (bg p)) of None \<Rightarrow> p | Some g \<Rightarrow> p\<lparr>bg := g\<rparr>)"

text \<open>What the handlers, the schedule and the background tasks do meanwhile.\<close>

inductive work_step :: "process \<Rightarrow> process \<Rightarrow> bool" where
  accepts: "listening p \<Longrightarrow> work_step p (p\<lparr>requests := requests p + 1\<rparr>)"
| answers: "requests p = Suc n \<Longrightarrow> work_step p (p\<lparr>requests := n\<rparr>)"
| fires: "cron_on p \<Longrightarrow> work_step p (p\<lparr>jobs := jobs p + 1\<rparr>)"
| job_ends: "jobs p = Suc n \<Longrightarrow> work_step p (p\<lparr>jobs := n\<rparr>)"
| spawns: "0 < requests p \<or> 0 < jobs p \<or> 0 < Running (Some (bg p)) \<Longrightarrow> work_step p (with_bg go_start p)"
| task_ends: "0 < Running (Some (bg p)) \<Longrightarrow> work_step p (with_bg go_end p)"

definition stop_cron :: "process \<Rightarrow> process" where
  "stop_cron p = p\<lparr>cron_on := False, phase := Stopping_Cron\<rparr>"

definition begin_wait :: "process \<Rightarrow> process" where
  "begin_wait p =
     (case Wait (Some (bg p)) of (c, g) \<Rightarrow> p\<lparr>bg := (case g of Some g \<Rightarrow> g | None \<Rightarrow> bg p), phase := Waiting c\<rparr>)"

definition finish_shutdown :: "process \<Rightarrow> process" where
  \<comment> \<open>the database is closed only when every phase finished in time\<close>
  "finish_shutdown p = (if on_time p then p\<lparr>db_open := False, phase := Exited 0\<rparr> else p\<lparr>phase := Exited 1\<rparr>)"

definition late :: "process \<Rightarrow> process" where
  "late p = p\<lparr>on_time := False\<rparr>"

text \<open>The phases of \<open>shutdown\<close>; the flag tells those that end because the time is up.\<close>

inductive advance :: "bool \<Rightarrow> process \<Rightarrow> process \<Rightarrow> bool" where
  signal: "phase p = Serving \<Longrightarrow> advance False p (p\<lparr>listening := False, phase := Draining\<rparr>)"
| drained: "phase p = Draining \<Longrightarrow> requests p = 0 \<Longrightarrow> advance False p (stop_cron p)"
| drain_late: "phase p = Draining \<Longrightarrow> advance True p (stop_cron (late p))"
| cron_stopped: "phase p = Stopping_Cron \<Longrightarrow> jobs p = 0 \<Longrightarrow> advance False p (begin_wait p)"
| cron_late: "phase p = Stopping_Cron \<Longrightarrow> advance True p (begin_wait (late p))"
| nothing_left: "phase p = Waiting None \<Longrightarrow> advance False p (finish_shutdown p)"
| released: "phase p = Waiting (Some c) \<Longrightarrow> c \<in> set (closed (bg p)) \<Longrightarrow> advance False p (finish_shutdown p)"
| wait_late: "phase p = Waiting (Some c) \<Longrightarrow> advance True p (finish_shutdown (late p))"
| serve_error: "phase p = Serving \<Longrightarrow> advance False p (p\<lparr>listening := False, cron_on := False, phase := Failing\<rparr>)"
| failed: "phase p = Failing \<Longrightarrow> jobs p = 0 \<Longrightarrow> advance False p (p\<lparr>db_open := False, phase := Exited 1\<rparr>)"

inductive reach :: "process \<Rightarrow> bool" where
  boot: "reach serving"
| acts: "reach p \<Longrightarrow> work_step p q \<Longrightarrow> reach q"
| advances: "reach p \<Longrightarrow> advance t p q \<Longrightarrow> reach q"

inductive_simps work_iff: "work_step p q"
inductive_cases advanceE: "advance t p q"

definition quiet_requests :: "process \<Rightarrow> bool" where
  "quiet_requests p \<longleftrightarrow> \<not> listening p \<and> requests p = 0"

definition quiet_jobs :: "process \<Rightarrow> bool" where
  "quiet_jobs p \<longleftrightarrow> \<not> cron_on p \<and> jobs p = 0"

text \<open>What each phase can rely on, as long as none before it ran out of time.\<close>

definition process_inv :: "process \<Rightarrow> bool" where
  "process_inv p \<longleftrightarrow> group_inv (bg p) \<and>
     (case phase p of
        Serving \<Rightarrow> on_time p \<and> db_open p
      | Draining \<Rightarrow> on_time p \<and> \<not> listening p \<and> db_open p
      | Stopping_Cron \<Rightarrow> db_open p \<and> \<not> cron_on p \<and> (on_time p \<longrightarrow> quiet_requests p)
      | Waiting c \<Rightarrow> db_open p \<and> (on_time p \<longrightarrow> quiet_requests p \<and> quiet_jobs p \<and>
          (case c of None \<Rightarrow> running (bg p) = 0
           | Some c \<Rightarrow> waiting_on (bg p) c \<and> (c \<in> set (closed (bg p)) \<longrightarrow> running (bg p) = 0)))
      | Failing \<Rightarrow> \<not> listening p
      | Exited code \<Rightarrow> (code = 0 \<longrightarrow> \<not> db_open p \<and> quiet_requests p \<and> quiet_jobs p \<and> running (bg p) = 0))"

lemma with_bg_fields [simp]:
  "phase (with_bg f p) = phase p" "requests (with_bg f p) = requests p" "jobs (with_bg f p) = jobs p"
  "listening (with_bg f p) = listening p" "cron_on (with_bg f p) = cron_on p" "on_time (with_bg f p) = on_time p"
  "db_open (with_bg f p) = db_open p"
  by (simp_all add: with_bg_def split: option.split)

lemma bg_start: "\<exists>g. go_start (Some (bg p)) = Some g \<and> bg (with_bg go_start p) = g"
  by (simp add: with_bg_def go_start_def)

lemma bg_end: "\<exists>g. go_end (Some (bg p)) = Some g \<and> bg (with_bg go_end p) = g"
  by (simp add: with_bg_def go_end_def)

lemma start_closed_idle:
  assumes "go_start (Some g) = Some g'" "0 < running g" "c \<in> set (closed g) \<longrightarrow> running g = 0"
  shows "c \<in> set (closed g') \<longrightarrow> running g' = 0"
  using assms by (simp add: closed_kept(1) [OF assms(1)])

lemma end_closed_idle:
  assumes "group_inv g" "0 < running g" "go_end (Some g) = Some g'" "waiting_on g c"
    "c \<in> set (closed g) \<longrightarrow> running g = 0"
  shows "c \<in> set (closed g') \<longrightarrow> running g' = 0"
  using assms end_closed [OF assms(1-4)] by auto

lemma work_inv:
  assumes "work_step p q" "process_inv p"
  shows "process_inv q"
  using assms
proof cases
  case spawns
  obtain g where g: "go_start (Some (bg p)) = Some g" "bg q = g" using bg_start [of p] spawns by auto
  show ?thesis
    using assms(2) spawns g start_inv [OF _ g(1)] start_waiting [OF g(1)] start_closed_idle [OF g(1)]
    by (auto simp: process_inv_def quiet_requests_def quiet_jobs_def Running_def split: phase.splits option.splits)
next
  case task_ends
  obtain g where g: "go_end (Some (bg p)) = Some g" "bg q = g" using bg_end [of p] task_ends by auto
  have pos: "0 < running (bg p)" using task_ends by (simp add: Running_def)
  show ?thesis
    using assms(2) task_ends pos g end_inv [OF _ pos g(1)] end_waiting [OF g(1)] end_closed_idle [OF _ pos g(1)]
    by (auto simp: process_inv_def quiet_requests_def quiet_jobs_def Running_def split: phase.splits option.splits)
qed (auto simp: process_inv_def quiet_requests_def quiet_jobs_def split: phase.splits option.splits)

lemma wait_some: "\<exists>c g'. Wait (Some g) = (c, Some g')"
  by (auto simp: Wait_def split: option.split)

lemma begin_wait_inv:
  assumes "group_inv (bg p)" "db_open p" "on_time p \<longrightarrow> quiet_requests p \<and> quiet_jobs p"
  shows "process_inv (begin_wait p)"
proof -
  obtain c g where w: "Wait (Some (bg p)) = (c, Some g)" using wait_some [of "bg p"] by auto
  have "c = None \<longrightarrow> running g = 0" "\<forall>d. c = Some d \<longrightarrow> d \<notin> set (closed g)"
    using w assms(1) by (cases "idle (bg p)"; auto simp: Wait_def group_inv_def split: if_splits)+
  then show ?thesis
    using w assms wait_inv [OF assms(1) w] wait_waiting(2) [of "bg p" _ g]
    by (auto simp: process_inv_def begin_wait_def quiet_requests_def quiet_jobs_def split: option.splits)
qed

lemma finish_inv:
  assumes "group_inv (bg p)" "on_time p \<longrightarrow> quiet_requests p \<and> quiet_jobs p \<and> running (bg p) = 0"
  shows "process_inv (finish_shutdown p)"
  using assms by (auto simp: process_inv_def finish_shutdown_def quiet_requests_def quiet_jobs_def)

lemma advance_inv:
  assumes "advance t p q" "process_inv p"
  shows "process_inv q"
  using assms
proof cases
  case cron_stopped
  have "process_inv (begin_wait p)"
    by (rule begin_wait_inv) (use cron_stopped assms(2) in \<open>auto simp: process_inv_def quiet_jobs_def\<close>)
  then show ?thesis using cron_stopped by simp
next
  case cron_late
  have "process_inv (begin_wait (late p))"
    by (rule begin_wait_inv) (use cron_late assms(2) in \<open>auto simp: process_inv_def late_def\<close>)
  then show ?thesis using cron_late by simp
next
  case nothing_left
  have "process_inv (finish_shutdown p)"
    by (rule finish_inv) (use nothing_left assms(2) in \<open>auto simp: process_inv_def\<close>)
  then show ?thesis using nothing_left by simp
next
  case (released c)
  have "process_inv (finish_shutdown p)"
    by (rule finish_inv) (use released assms(2) in \<open>auto simp: process_inv_def\<close>)
  then show ?thesis using released by simp
next
  case (wait_late c)
  have "process_inv (finish_shutdown (late p))"
    by (rule finish_inv) (use wait_late assms(2) in \<open>auto simp: process_inv_def late_def\<close>)
  then show ?thesis using wait_late by simp
qed (auto simp: process_inv_def stop_cron_def late_def quiet_requests_def)

lemma reach_inv: "reach p \<Longrightarrow> process_inv p"
proof (induction rule: reach.induct)
  case boot
  show ?case by (simp add: process_inv_def serving_def zero_inv)
qed (auto intro: work_inv advance_inv)

section \<open>How the phases end\<close>

abbreviation in_time :: "process \<Rightarrow> process \<Rightarrow> bool" where
  "in_time \<equiv> (advance False)\<^sup>*\<^sup>*"

lemma idle_wait: "running (bg p) = 0 \<Longrightarrow> begin_wait p = p\<lparr>phase := Waiting None\<rparr>"
  by (simp add: begin_wait_def Wait_def)

lemma from_waiting:
  assumes "phase p = Waiting c" "on_time p" "\<forall>d. c = Some d \<longrightarrow> d \<in> set (closed (bg p))"
  shows "in_time p (finish_shutdown p)"
proof (cases c)
  case None
  then show ?thesis using assms by (auto intro!: r_into_rtranclp advance.nothing_left)
next
  case (Some d)
  then show ?thesis using assms by (auto intro!: r_into_rtranclp advance.released)
qed

lemma from_cron:
  assumes "phase p = Stopping_Cron" "on_time p" "jobs p = 0" "running (bg p) = 0"
  shows "in_time p (finish_shutdown (p\<lparr>phase := Waiting None\<rparr>))"
proof -
  have "advance False p (p\<lparr>phase := Waiting None\<rparr>)"
    using advance.cron_stopped [of p] assms by (simp add: idle_wait)
  moreover have "in_time (p\<lparr>phase := Waiting None\<rparr>) (finish_shutdown (p\<lparr>phase := Waiting None\<rparr>))"
    by (rule from_waiting [where c = None]) (simp_all add: assms)
  ultimately show ?thesis by (rule converse_rtranclp_into_rtranclp)
qed

lemma from_draining:
  assumes "phase p = Draining" "on_time p" "requests p = 0" "jobs p = 0" "running (bg p) = 0"
  shows "in_time p (finish_shutdown ((stop_cron p)\<lparr>phase := Waiting None\<rparr>))"
proof -
  have "advance False p (stop_cron p)" using assms by (auto intro: advance.drained)
  moreover have "in_time (stop_cron p) (finish_shutdown ((stop_cron p)\<lparr>phase := Waiting None\<rparr>))"
    by (rule from_cron) (simp_all add: assms stop_cron_def)
  ultimately show ?thesis by (rule converse_rtranclp_into_rtranclp)
qed

lemma finish_on_time: "on_time p \<Longrightarrow> phase (finish_shutdown p) = Exited 0 \<and> \<not> db_open (finish_shutdown p)"
  by (simp add: finish_shutdown_def)

section \<open>Properties\<close>

text \<open>C36. \<open>Group.Wait\<close> returns exactly when it should, however starts, ends and waits interleave: the channel a caller
  waits on is closed if and only if the group has been idle since the caller began to wait, so that no
  waiter is woken too early and none is left waiting once everything has returned.\<close>

theorem no_lost_wakeup:
  assumes "group_reach (g, ws)" "(c, seen) \<in> set ws"
  shows "(c \<in> set (closed g) \<longleftrightarrow> seen) \<and> (running g = 0 \<longrightarrow> seen) \<and> 0 \<le> running g"
proof -
  have "waiters_inv (g, ws)" using assms(1) by (rule waiters_reach)
  then show ?thesis using assms(2) idle_released [of g c] by (auto simp: waiters_inv_def group_inv_def)
qed

text \<open>C37. A clean exit closes the database last: when the process leaves with code 0, no request is in flight, no absence
  job and no background task is running, and nothing that could use the closed database can start any more.\<close>

theorem database_closed_last:
  assumes "reach p" "phase p = Exited 0"
  shows "\<not> db_open p \<and> requests p = 0 \<and> jobs p = 0 \<and> Running (Some (bg p)) = 0 \<and> (\<nexists>q. work_step p q)"
  using reach_inv [OF assms(1)] assms(2)
  by (auto simp: process_inv_def quiet_requests_def quiet_jobs_def Running_def work_iff)

text \<open>C38. A shutdown that still has time ends by itself, with code 0 and the database closed, once the requests, the absence
  job and the background work have finished: no phase waits for something that has already happened.\<close>

theorem finished_work_ends_shutdown:
  assumes "reach p" "phase p = Draining \<or> phase p = Stopping_Cron \<or> (\<exists>c. phase p = Waiting c)" "on_time p"
    "requests p = 0" "jobs p = 0" "Running (Some (bg p)) = 0"
  shows "\<exists>q. in_time p q \<and> phase q = Exited 0 \<and> \<not> db_open q"
proof -
  have inv: "process_inv p" using assms(1) by (rule reach_inv)
  have r: "running (bg p) = 0" using assms(6) by (simp add: Running_def)
  from assms(2) show ?thesis
  proof (elim disjE exE)
    assume "phase p = Draining"
    then show ?thesis using from_draining [of p] assms r finish_on_time [of "(stop_cron p)\<lparr>phase := Waiting None\<rparr>"]
      by (auto simp: stop_cron_def)
  next
    assume "phase p = Stopping_Cron"
    then show ?thesis using from_cron [of p] assms r finish_on_time [of "p\<lparr>phase := Waiting None\<rparr>"] by auto
  next
    fix c assume c: "phase p = Waiting c"
    then have "\<forall>d. c = Some d \<longrightarrow> d \<in> set (closed (bg p))"
      using inv r assms(3) idle_released by (auto simp: process_inv_def)
    then show ?thesis using from_waiting [OF c assms(3)] finish_on_time [OF assms(3)] by auto
  qed
qed

section \<open>Examples\<close>

lemma ends_with: "0 < running g \<Longrightarrow> go_end (Some g) = Some g' \<Longrightarrow> running g' = 0 \<Longrightarrow>
    group_step (g, ws) (g', map (\<lambda>(c, seen). (c, True)) ws)"
  using group_step.ends [of g g' ws] by simp

text \<open>A task starts, shutdown waits for it, the task ends.\<close>

definition waited_group :: Group where
  "waited_group = \<lparr>running = 0, idle = None, closed = [0], next_chan = 1\<rparr>"

lemma waited_reached: "group_reach (waited_group, [(0, True)])"
proof -
  have a: "group_reach (zero_group\<lparr>running := 1\<rparr>, [])"
    by (rule group_reach.step [OF group_reach.fresh group_step.start]) (simp add: go_start_def zero_group_def)
  have b: "group_reach (\<lparr>running = 1, idle = Some 0, closed = [], next_chan = 1\<rparr>, [(0, False)])"
    by (rule group_reach.step [OF a group_step.waits]) (simp add: Wait_def zero_group_def)
  have "group_reach (waited_group, map (\<lambda>(c, seen). (c, True)) [(0, False)])"
    by (rule group_reach.step [OF b ends_with]) (simp_all add: go_end_def waited_group_def)
  then show ?thesis by simp
qed

theorem no_lost_wakeup_witness: "0 \<in> set (closed waited_group) \<and> 0 \<le> running waited_group"
  using no_lost_wakeup [OF waited_reached, of 0 True] by simp

definition draining :: process where
  "draining = serving\<lparr>listening := False, phase := Draining\<rparr>"

lemma draining_reached: "reach draining"
  unfolding draining_def by (rule reach.advances [OF reach.boot advance.signal]) (simp add: serving_def)

lemma exit_reached: "\<exists>q. reach q \<and> phase q = Exited 0"
proof -
  have idle: "in_time draining (finish_shutdown ((stop_cron draining)\<lparr>phase := Waiting None\<rparr>))"
    by (rule from_draining) (simp_all add: draining_def serving_def zero_group_def)
  have "reach q" if "in_time draining q" for q
    using that by (induction rule: rtranclp_induct) (auto intro: draining_reached reach.advances)
  then show ?thesis using idle finish_on_time [of "(stop_cron draining)\<lparr>phase := Waiting None\<rparr>"]
    by (auto simp: stop_cron_def draining_def serving_def)
qed

theorem database_closed_last_witness: "\<exists>q. reach q \<and> phase q = Exited 0 \<and> \<not> db_open q \<and> requests q = 0"
proof -
  obtain q where q: "reach q" "phase q = Exited 0" using exit_reached by auto
  show ?thesis using database_closed_last [OF q] q by auto
qed

theorem finished_work_ends_shutdown_witness: "\<exists>q. in_time draining q \<and> phase q = Exited 0"
  using finished_work_ends_shutdown [OF draining_reached]
  by (auto simp: draining_def serving_def Running_def zero_group_def)

text \<open>When the server stops by itself nothing waits for requests or background work: the database can be closed while
  a task is running.\<close>

lemma unexpected_stop_abandons_work: "\<exists>p. reach p \<and> \<not> db_open p \<and> phase p = Exited 1 \<and> 0 < Running (Some (bg p))"
proof -
  let ?g = "zero_group\<lparr>running := 1\<rparr>" and ?r = "serving\<lparr>requests := 1\<rparr>"
  let ?f = "serving\<lparr>requests := 1, bg := zero_group\<lparr>running := 1\<rparr>, listening := False, cron_on := False, phase := Failing\<rparr>"
  have "reach ?r" using reach.acts [OF reach.boot work_step.accepts] by (simp add: serving_def)
  then have "reach (with_bg go_start ?r)" by (rule reach.acts [OF _ work_step.spawns]) simp
  moreover have "with_bg go_start ?r = serving\<lparr>requests := 1, bg := ?g\<rparr>"
    by (simp add: with_bg_def go_start_def serving_def zero_group_def)
  ultimately have "reach (serving\<lparr>requests := 1, bg := ?g\<rparr>)" by simp
  then have f: "reach ?f"
    using reach.advances [OF _ advance.serve_error, of "serving\<lparr>requests := 1, bg := ?g\<rparr>"] by (simp add: serving_def)
  have "reach (?f\<lparr>db_open := False, phase := Exited 1\<rparr>)"
    by (rule reach.advances [OF f advance.failed]) (simp_all add: serving_def)
  then show ?thesis by (intro exI) (auto simp: Running_def)
qed

end
