(* ===== verification/Routes.thy ===== *)
theory Routes
  imports Activity Devices
begin

text \<open>
  The routes of \<open>cmd/api/main.go\<close>, \<open>RouteErrors\<close> of \<open>internal/handlers/routes.go\<close>, and the way a request takes through the
  middlewares of its route to its handler. The mux is \<open>net/http\<close>'s: every pattern is an exact path with a method or
  without one. The handlers are an argument, a function from the names of the table; the cleaned form of a path is
  \<open>cleanPath\<close>'s, an argument too.
\<close>

section \<open>The table\<close>

datatype middleware = With_Admin | With_Log | With_Parent | With_Device | With_Hardware_Log

record route =
  rt_method :: "str option"
  rt_path :: str
  rt_wrappers :: "middleware list"    \<comment> \<open>the outermost first\<close>
  rt_handler :: string

definition HandleFunc :: "middleware list \<Rightarrow> string \<times> string \<times> string \<Rightarrow> route" where
  "HandleFunc ws = (\<lambda>(verb, path, h).
     \<lparr>rt_method = (if verb = [] then None else Some (u verb)), rt_path = u path, rt_wrappers = ws, rt_handler = h\<rparr>)"

definition public_routes :: "route list" where
  "public_routes = map (HandleFunc [])
     [(''GET'', ''/health'', ''HealthHandler''),
      (''GET'', ''/iclock/cdata'', ''ADMSCdataHandler''),
      (''POST'', ''/iclock/cdata'', ''ADMSHandler''),
      (''GET'', ''/iclock/getrequest'', ''ADMSGetRequestHandler''),
      (''POST'', ''/api/mobile/login'', ''MobileLoginHandler''),
      (''GET'', ''/api/mobile/settings'', ''MobileSettingsHandler''),
      (''GET'', ''/api/mobile/banners/image'', ''MobileBannerImageHandler'')]"

definition hardware_routes :: "route list" where
  "hardware_routes =
     [HandleFunc [With_Hardware_Log] ([], ''/api/attendance/push'', ''ADMSHandler''),
      HandleFunc [With_Hardware_Log, With_Device] ([], ''/api/attendance/push/json'', ''HardwareAttendancePushHandler'')]"

definition parent_routes :: "route list" where
  "parent_routes = map (HandleFunc [With_Parent])
     [(''GET'', ''/api/mobile/attendance/today'', ''MobileTodayAttendanceHandler''),
      (''GET'', ''/api/mobile/attendance/monthly'', ''MobileMonthlyAttendanceHandler''),
      (''GET'', ''/api/mobile/attendance/summary'', ''MobileAttendanceSummaryHandler''),
      (''GET'', ''/api/mobile/students'', ''MobileStudentsHandler''),
      (''GET'', ''/api/mobile/schedule'', ''MobileScheduleHandler''),
      (''GET'', ''/api/mobile/notifications'', ''MobileNotificationsHandler''),
      (''PUT'', ''/api/mobile/notifications/read'', ''MarkNotificationReadHandler''),
      (''PUT'', ''/api/mobile/notifications/read-all'', ''MarkAllNotificationsReadHandler''),
      (''GET'', ''/api/mobile/holidays'', ''MobileHolidaysHandler''),
      (''GET'', ''/api/mobile/banners'', ''GetActiveBannersHandler''),
      (''PUT'', ''/api/mobile/device-token'', ''RegisterDeviceTokenHandler''),
      (''DELETE'', ''/api/mobile/device-token'', ''RemoveDeviceTokenHandler''),
      (''GET'', ''/api/mobile/notification-settings'', ''NotificationSettingsHandler''),
      (''PUT'', ''/api/mobile/notification-settings'', ''NotificationSettingsHandler''),
      (''POST'', ''/api/mobile/account/delete'', ''AccountDeleteHandler''),
      (''GET'', ''/api/mobile/tuition'', ''MobileTuitionHandler'')]"

definition admin_routes :: "route list" where
  "admin_routes = map (HandleFunc [With_Admin, With_Log])
     [(''GET'', ''/api/admin/dashboard'', ''AdminDashboardHandler''),
      (''GET'', ''/api/admin/students'', ''AdminStudentsHandler''),
      (''POST'', ''/api/admin/students'', ''AdminStudentsHandler''),
      (''PUT'', ''/api/admin/students'', ''AdminStudentsHandler''),
      (''DELETE'', ''/api/admin/students'', ''AdminStudentsHandler''),
      (''GET'', ''/api/admin/devices'', ''AdminDevicesHandler''),
      (''POST'', ''/api/admin/devices'', ''AdminDevicesHandler''),
      (''PUT'', ''/api/admin/devices'', ''AdminDevicesHandler''),
      (''DELETE'', ''/api/admin/devices'', ''AdminDevicesHandler''),
      (''POST'', ''/api/admin/leaves'', ''AdminCreateLeaveHandler''),
      (''DELETE'', ''/api/admin/leaves'', ''AdminCreateLeaveHandler''),
      (''GET'', ''/api/admin/attendance'', ''AdminDailyAttendanceHandler''),
      (''POST'', ''/api/admin/attendance/manual'', ''AdminManualAttendanceHandler''),
      (''DELETE'', ''/api/admin/attendance/manual'', ''AdminManualAttendanceHandler''),
      (''GET'', ''/api/admin/export/excel'', ''AdminExportExcelHandler''),
      (''GET'', ''/api/admin/settings'', ''AdminSettingsHandler''),
      (''PUT'', ''/api/admin/settings'', ''AdminSettingsHandler''),
      (''GET'', ''/api/admin/schedule'', ''AdminScheduleHandler''),
      (''PUT'', ''/api/admin/schedule'', ''AdminScheduleHandler''),
      (''GET'', ''/api/admin/schedule/classes'', ''AdminScheduleClassesHandler''),
      (''GET'', ''/api/admin/schedule/export'', ''AdminScheduleExportHandler''),
      (''POST'', ''/api/admin/schedule/import'', ''AdminScheduleImportHandler''),
      (''GET'', ''/api/admin/broadcasts'', ''AdminBroadcastsHandler''),
      (''POST'', ''/api/admin/broadcasts'', ''AdminBroadcastsHandler''),
      (''GET'', ''/api/admin/holidays'', ''AdminHolidaysHandler''),
      (''POST'', ''/api/admin/holidays'', ''AdminHolidaysHandler''),
      (''POST'', ''/api/admin/holidays/cancel'', ''AdminCancelHolidayHandler''),
      (''GET'', ''/api/admin/banners'', ''AdminBannersHandler''),
      (''POST'', ''/api/admin/banners'', ''AdminBannersHandler''),
      (''PUT'', ''/api/admin/banners'', ''AdminBannersHandler''),
      (''DELETE'', ''/api/admin/banners'', ''AdminBannersHandler''),
      (''GET'', ''/api/admin/banners/image'', ''AdminBannerImageHandler''),
      (''GET'', ''/api/admin/activity-log'', ''AdminActivityLogHandler''),
      (''GET'', ''/api/admin/teachers'', ''AdminTeachersHandler''),
      (''POST'', ''/api/admin/teachers'', ''AdminTeachersHandler''),
      (''PUT'', ''/api/admin/teachers'', ''AdminTeachersHandler''),
      (''GET'', ''/api/admin/teachers/attendance'', ''AdminTeachersAttendanceHandler''),
      (''GET'', ''/api/admin/teachers/specializations'', ''AdminTeacherSpecializationsHandler''),
      (''GET'', ''/api/admin/tuition'', ''AdminTuitionHandler''),
      (''GET'', ''/api/admin/tuition/student'', ''AdminTuitionStudentHandler''),
      (''GET'', ''/api/admin/tuition/fees'', ''AdminTuitionFeesHandler''),
      (''PUT'', ''/api/admin/tuition/fees'', ''AdminTuitionFeesHandler''),
      (''PUT'', ''/api/admin/tuition/discount'', ''AdminTuitionDiscountHandler''),
      (''POST'', ''/api/admin/tuition/payments'', ''AdminTuitionPaymentsHandler''),
      (''POST'', ''/api/admin/tuition/payments/void'', ''AdminTuitionVoidHandler''),
      (''GET'', ''/api/admin/expenses'', ''AdminExpensesHandler''),
      (''POST'', ''/api/admin/expenses'', ''AdminExpensesHandler''),
      (''POST'', ''/api/admin/expenses/void'', ''AdminExpenseVoidHandler''),
      (''GET'', ''/api/admin/expenses/categories'', ''AdminExpenseCategoriesHandler''),
      (''POST'', ''/api/admin/expenses/categories'', ''AdminExpenseCategoriesHandler''),
      (''GET'', ''/api/admin/expenses/summary'', ''AdminExpensesSummaryHandler'')]"

definition login_route :: route where
  "login_route = HandleFunc [With_Log] (''POST'', ''/api/admin/login'', ''AdminLoginHandler'')"

definition routes :: "route list" where
  "routes = public_routes @ hardware_routes @ parent_routes @ login_route # admin_routes"

definition rt_pattern :: "route \<Rightarrow> str" where
  "rt_pattern r = (case rt_method r of None \<Rightarrow> rt_path r | Some m \<Rightarrow> m @ 32 # rt_path r)"

section \<open>The mux\<close>

definition route_for :: "str \<Rightarrow> str \<Rightarrow> route option" where
  \<comment> \<open>the pattern with the method, for \<open>HEAD\<close> then the one with \<open>GET\<close>, then the one without a method\<close>
  "route_for verb path =
     (let at = filter (\<lambda>r. rt_path r = path) routes;
          named = (\<lambda>v. find (\<lambda>r. rt_method r = Some v) at) in
      case named verb of
        Some r \<Rightarrow> Some r
      | None \<Rightarrow>
          (case (if verb = u ''HEAD'' then named (u ''GET'') else None) of
             Some r \<Rightarrow> Some r
           | None \<Rightarrow> find (\<lambda>r. rt_method r = None) at))"

definition allowed_methods :: "str \<Rightarrow> str list" where
  \<comment> \<open>the methods of the patterns with this path, sorted; \<open>GET\<close> answers \<open>HEAD\<close> too\<close>
  "allowed_methods path =
     (let ms = concat (map (\<lambda>r. opt_list (rt_method r)) (filter (\<lambda>r. rt_path r = path) routes)) in
      sort (remdups (if u ''GET'' \<in> set ms then u ''HEAD'' # ms else ms)))"

definition plainRouteErrors :: "str \<Rightarrow> bool" where
  "plainRouteErrors path \<longleftrightarrow> path = u ''/health'' \<or> path = u ''/iclock'' \<or> has_prefix path (u ''/iclock/'')"

datatype answer =
    Handled handled
  | Redirected str                     \<comment> \<open>to the cleanPath path\<close>
  | Enveloped refusal "str list"       \<comment> \<open>the JSON envelope with an \<open>Allow\<close> header\<close>
  | Plain int "str list"               \<comment> \<open>the mux's own plain text\<close>

definition unrouted :: "str \<Rightarrow> answer" where
  "unrouted path =
     (let allow = allowed_methods path in
      if plainRouteErrors path then (if allow = [] then Plain 404 [] else Plain 405 allow)
      else if allow = [] then Enveloped (Refuse 404 (u ''Not found'')) []
      else Enveloped (Refuse 405 (u ''Method not allowed'')) allow)"

section \<open>Middlewares around a handler\<close>

record req_context =
  cx_request :: request
  cx_authorization :: str      \<comment> \<open>the \<open>Authorization\<close> header\<close>
  cx_sn :: str                 \<comment> \<open>the \<open>SN\<close> parameter\<close>
  cx_parent :: "int option"

type_synonym handler = "req_context \<Rightarrow> world \<Rightarrow> handled \<times> world"

definition refused :: "refusal \<Rightarrow> handled" where
  "refused r = (case r of Refuse s m \<Rightarrow>
     \<lparr>ha_activity = \<lparr>ac_login = [], ac_actor = [], ac_target_type = [], ac_target_id = [], ac_detail = []\<rparr>,
      ha_written = [WriteHeader s, Write], ha_panicked = False\<rparr>)"

definition guarded :: "(refusal, 'a) tx \<Rightarrow> ('a \<Rightarrow> world \<Rightarrow> handled \<times> world) \<Rightarrow> world \<Rightarrow> handled \<times> world" where
  \<comment> \<open>a refused request never reaches the next handler\<close>
  "guarded m nxt w = (case m w of (Inl e, w') \<Rightarrow> (refused e, w') | (Inr x, w') \<Rightarrow> nxt x w')"

fun wrapped :: "(stamp \<Rightarrow> str \<Rightarrow> claims option) \<Rightarrow> middleware \<Rightarrow> handler \<Rightarrow> handler" where
  "wrapped verify With_Admin nxt c w =
     guarded (AdminMiddleware verify (cx_authorization c))
       (\<lambda>name. nxt (c\<lparr>cx_request := (cx_request c)\<lparr>rq_admin := Some name\<rparr>\<rparr>)) w"
| "wrapped verify With_Parent nxt c w =
     guarded (AuthMiddleware verify (cx_authorization c)) (\<lambda>pid. nxt (c\<lparr>cx_parent := Some pid\<rparr>)) w"
| "wrapped verify With_Device nxt c w = guarded (DeviceAuthMiddleware (cx_sn c)) (\<lambda>sn. nxt c) w"
| "wrapped verify With_Log nxt c w = ActivityLog (cx_request c) (nxt c) w"
| "wrapped verify With_Hardware_Log nxt c w = nxt c w"

definition serve ::
    "(str \<Rightarrow> str) \<Rightarrow> (stamp \<Rightarrow> str \<Rightarrow> claims option) \<Rightarrow> (string \<Rightarrow> handler) \<Rightarrow> req_context \<Rightarrow> world \<Rightarrow> answer \<times> world" where
  "serve cleanPath verify handlers c w =
     (let path = rq_path (cx_request c) in
      if cleanPath path \<noteq> path then (Redirected (cleanPath path), w)
      else case route_for (rq_method (cx_request c)) path of
        None \<Rightarrow> (unrouted path, w)
      | Some r \<Rightarrow>
          (case foldr (wrapped verify) (rt_wrappers r) (handlers (rt_handler r))
                  (c\<lparr>cx_request := (cx_request c)\<lparr>rq_pattern := rt_pattern r, rq_admin := None\<rparr>, cx_parent := None\<rparr>) w of
             (h, w') \<Rightarrow> (Handled h, w')))"

section \<open>What the table says\<close>

lemma route_for_in: "route_for verb path = Some r \<Longrightarrow> r \<in> set routes \<and> rt_path r = path"
  by (auto simp: route_for_def Let_def find_Some_iff split: option.splits if_splits dest!: nth_mem)

definition in_dir :: "string \<Rightarrow> str \<Rightarrow> bool" where
  "in_dir dir path \<longleftrightarrow> has_prefix path (u dir)"

definition open_to_parents :: "str \<Rightarrow> bool" where
  "open_to_parents path \<longleftrightarrow> path \<in> u ` {''/api/mobile/login'', ''/api/mobile/settings'', ''/api/mobile/banners/image''}"

fun starts_with :: "string \<Rightarrow> string \<Rightarrow> bool" where
  "starts_with s [] = True"
| "starts_with [] (p # ps) = False"
| "starts_with (c # s) (p # ps) = (c = p \<and> starts_with s ps)"

lemma in_dir_u: "in_dir dir (u s) \<longleftrightarrow> starts_with s dir"
  unfolding in_dir_def by (induction s dir rule: starts_with.induct) (auto simp: u_def)

lemma public_dirs: "r \<in> set public_routes \<Longrightarrow> \<not> in_dir ''/api/admin/'' (rt_path r) \<and>
    (in_dir ''/api/mobile/'' (rt_path r) \<longrightarrow> open_to_parents (rt_path r))"
  by (auto simp: public_routes_def HandleFunc_def in_dir_u open_to_parents_def)

lemma hardware_dirs: "r \<in> set hardware_routes \<Longrightarrow> \<not> in_dir ''/api/admin/'' (rt_path r) \<and> \<not> in_dir ''/api/mobile/'' (rt_path r)"
  by (auto simp: hardware_routes_def HandleFunc_def in_dir_u)

lemma parent_dirs: "r \<in> set parent_routes \<Longrightarrow> \<not> in_dir ''/api/admin/'' (rt_path r) \<and> rt_wrappers r = [With_Parent]"
  by (auto simp: parent_routes_def HandleFunc_def in_dir_u)

lemma admin_dirs: "r \<in> set admin_routes \<Longrightarrow> \<not> in_dir ''/api/mobile/'' (rt_path r) \<and> rt_wrappers r = [With_Admin, With_Log]"
  by (auto simp: admin_routes_def HandleFunc_def in_dir_u)

lemma login_dir: "\<not> in_dir ''/api/mobile/'' (rt_path login_route)" "rt_path login_route = u ''/api/admin/login''"
  by (simp_all add: login_route_def HandleFunc_def in_dir_u)

lemma admin_wrapped:
  assumes "r \<in> set routes" "in_dir ''/api/admin/'' (rt_path r)" "rt_path r \<noteq> u ''/api/admin/login''"
  shows "rt_wrappers r = [With_Admin, With_Log]"
  using assms public_dirs hardware_dirs parent_dirs admin_dirs login_dir by (auto simp: routes_def)

lemma parent_wrapped:
  assumes "r \<in> set routes" "in_dir ''/api/mobile/'' (rt_path r)" "\<not> open_to_parents (rt_path r)"
  shows "rt_wrappers r = [With_Parent]"
  using assms public_dirs hardware_dirs parent_dirs admin_dirs login_dir by (auto simp: routes_def)

text \<open>Every admin route that writes or exports has a name of its own in the log, and the log names no other.\<close>

lemma named_in_log: "set (map fst ActivityActions) =
    {rt_pattern r | r. r \<in> set admin_routes \<and> (rt_method r \<noteq> Some (u ''GET'') \<or> rt_pattern r \<in> set activityExports)}"
proof -
  let ?logged = "\<lambda>r. rt_method r \<noteq> Some (u ''GET'') \<or> rt_pattern r \<in> set activityExports"
  have get: "u ''GET'' @ 32 # u s = u (''GET '' @ s)" "u ''PUT'' @ 32 # u s = u (''PUT '' @ s)" "u ''POST'' @ 32 # u s = u (''POST '' @ s)"
    "u ''DELETE'' @ 32 # u s = u (''DELETE '' @ s)" for s
    by (simp_all add: u_def)
  have "set (map rt_pattern (filter ?logged admin_routes)) = set (map fst ActivityActions)"
    unfolding admin_routes_def
    by (simp add: HandleFunc_def rt_pattern_def activityExports_def ActivityActions_def get del: append.simps(2)) (simp, blast)
  then show ?thesis by auto
qed

section \<open>What a middleware leaves\<close>

lemma middleware_reads:
  "keeps P (AdminMiddleware verify h)" "keeps P (AuthMiddleware verify h)"
  "calm (AdminMiddleware verify h)" "calm (AuthMiddleware verify h)"
  unfolding AdminMiddleware_def AuthMiddleware_def by (intro keeping calming)+

lemma reads_only:
  assumes "\<And>P. keeps P m" "calm m" "m w = (r, w')"
  shows "db w' = db w \<and> outbox w' = outbox w"
  using keepsD [OF assms(1) [of "\<lambda>d. d = db w"] refl assms(3)] calmD [OF assms(2,3)] by simp

text \<open>A wrong method is answered before anything is asked of the database, whoever asks.\<close>

lemma wrong_method_first:
  assumes "cleanPath (rq_path (cx_request c)) = rq_path (cx_request c)" "route_for (rq_method (cx_request c)) (rq_path (cx_request c)) = None"
    "\<not> plainRouteErrors (rq_path (cx_request c))" "allowed_methods (rq_path (cx_request c)) \<noteq> []"
  shows "serve cleanPath verify handlers c w =
    (Enveloped (Refuse 405 (u ''Method not allowed'')) (allowed_methods (rq_path (cx_request c))), w)"
  using assms by (simp add: serve_def unrouted_def Let_def)

section \<open>Properties\<close>

text \<open>C39. Without a session nothing under \<open>/api/admin/\<close> but the login and nothing under \<open>/api/mobile/\<close> but the login, the public
  settings and the banner pictures can be reached: when the middleware of the area refuses the request, the answer is
  that refusal (or the mux's own for a path or method it does not know), the tables and the phones are left
  alone, and no handler has any influence on what happens.\<close>

theorem no_session_no_access:
  assumes "in_dir ''/api/admin/'' (rq_path (cx_request c)) \<and> rq_path (cx_request c) \<noteq> u ''/api/admin/login'' \<and>
      fst (AdminMiddleware verify (cx_authorization c) w) = Inl e \<or>
    in_dir ''/api/mobile/'' (rq_path (cx_request c)) \<and> \<not> open_to_parents (rq_path (cx_request c)) \<and>
      fst (AuthMiddleware verify (cx_authorization c) w) = Inl e"
    and "serve cleanPath verify handlers c w = (a, w')"
  shows "(a = Handled (refused e) \<or> a = Redirected (cleanPath (rq_path (cx_request c))) \<or> a = unrouted (rq_path (cx_request c))) \<and>
    db w' = db w \<and> outbox w' = outbox w \<and> serve cleanPath verify other_handlers c w = (a, w')"
proof -
  let ?path = "rq_path (cx_request c)"
  consider "cleanPath ?path \<noteq> ?path \<or> route_for (rq_method (cx_request c)) ?path = None"
    | r where "cleanPath ?path = ?path" "route_for (rq_method (cx_request c)) ?path = Some r" by blast
  then show ?thesis
  proof cases
    case 1
    then show ?thesis using assms(2) by (auto simp: serve_def Let_def split: if_splits)
  next
    case 2
    then have r: "r \<in> set routes" "rt_path r = ?path" using route_for_in by auto
    from assms(1) show ?thesis
    proof (elim disjE conjE)
      assume admin: "in_dir ''/api/admin/'' ?path" "?path \<noteq> u ''/api/admin/login''" "fst (AdminMiddleware verify (cx_authorization c) w) = Inl e"
      obtain w1 where m: "AdminMiddleware verify (cx_authorization c) w = (Inl e, w1)" using admin(3) by (metis prod.collapse)
      have "rt_wrappers r = [With_Admin, With_Log]" using admin_wrapped [OF r(1)] admin r(2) by simp
      then have "serve cleanPath verify hs c w = (Handled (refused e), w1)" for hs
        using 2 m by (simp add: serve_def guarded_def)
      then show ?thesis using assms(2) reads_only [OF middleware_reads(1,3) m] by auto
    next
      assume parent: "in_dir ''/api/mobile/'' ?path" "\<not> open_to_parents ?path" "fst (AuthMiddleware verify (cx_authorization c) w) = Inl e"
      obtain w1 where m: "AuthMiddleware verify (cx_authorization c) w = (Inl e, w1)" using parent(3) by (metis prod.collapse)
      have "rt_wrappers r = [With_Parent]" using parent_wrapped [OF r(1)] parent r(2) by simp
      then have "serve cleanPath verify hs c w = (Handled (refused e), w1)" for hs
        using 2 m by (simp add: serve_def guarded_def)
      then show ?thesis using assms(2) reads_only [OF middleware_reads(2,4) m] by auto
    qed
  qed
qed

section \<open>Examples\<close>

definition delete_request :: req_context where
  "delete_request = \<lparr>cx_request = \<lparr>rq_method = u ''DELETE'', rq_pattern = [], rq_path = u ''/api/admin/students'', rq_ip = [],
     rq_admin = None\<rparr>, cx_authorization = [], cx_sn = [], cx_parent = None\<rparr>"

lemma delete_routed: "\<exists>r. route_for (u ''DELETE'') (u ''/api/admin/students'') = Some r"
  by (simp add: route_for_def Let_def routes_def public_routes_def hardware_routes_def parent_routes_def login_route_def
      admin_routes_def HandleFunc_def)

lemma delete_refused: "fst (AdminMiddleware verify (cx_authorization delete_request) w) = Inl (Refuse 401 (u ''Unauthorized''))"
  by (simp add: AdminMiddleware_def delete_request_def extractBearerToken_def Fields_def bindE_def run_simps of_option_def fail_def)

theorem no_session_no_access_witness:
  "fst (serve (\<lambda>p. p) (\<lambda>_ _. None) (\<lambda>_ _ w. (undefined, w\<lparr>db := empty_db\<rparr>)) delete_request empty_world) = Handled (refused (Refuse 401 (u ''Unauthorized'')))"
proof -
  obtain a w' where s: "serve (\<lambda>p. p) (\<lambda>_ _. None) (\<lambda>_ _ w. (undefined, w\<lparr>db := empty_db\<rparr>)) delete_request empty_world = (a, w')"
    by fastforce
  have path: "in_dir ''/api/admin/'' (rq_path (cx_request delete_request)) \<and> rq_path (cx_request delete_request) \<noteq> u ''/api/admin/login'' \<and>
      fst (AdminMiddleware (\<lambda>_ _. None) (cx_authorization delete_request) empty_world) = Inl (Refuse 401 (u ''Unauthorized''))"
    using delete_refused [of "\<lambda>_ _. None" empty_world] by (simp add: delete_request_def in_dir_u)
  have handled: "\<exists>h. a = Handled h"
    using s delete_routed by (auto simp: serve_def delete_request_def split: prod.splits)
  have "a = Handled (refused (Refuse 401 (u ''Unauthorized''))) \<or> a = Redirected (rq_path (cx_request delete_request)) \<or>
      a = unrouted (rq_path (cx_request delete_request))"
    using no_session_no_access [OF disjI1 [OF path] s] by simp
  then show ?thesis using handled s by (auto simp: unrouted_def Let_def split: if_splits)
qed

end
