(* ===== verification/Spec2Isabelle.thy ===== *)
theory Spec2Isabelle
  imports RateLimit Phone Attendance Notify Hardware Tuition Expenses ManualAttendance Activity ClientIP Devices Banners ScheduleRoundtrip DailyReport Startup MigratePins Shutdown Routes
begin

text \<open>
  FutureKids: the attendance back end of an elementary school, a Go server over PostgreSQL.

  \<^bold>\<open>The program.\<close> ZKTeco devices at the door push punches to \<open>/iclock/cdata\<close> and \<open>/api/attendance/push\<close>. The school's
  dashboard (\<open>/api/admin\<close>) keeps students, parents, teachers, devices, the timetable, closures, tuition, expenses,
  banners and broadcasts. The parents' app (\<open>/api/mobile\<close>) shows a parent the children's attendance,
  timetable, tuition and notifications. A punch or an absence becomes a row of the notification history and a push
  through Firebase. All state is in the database, except the login limiters, which live in memory, and the
  group of background tasks. A handler decodes and checks its request, runs statements or one transaction, and
  answers with JSON; several start background work (pushes, the log of admin actions) that shutdown waits for.

  \<^bold>\<open>How it is modelled.\<close> Every handler is a function of its own arguments and of a \<open>world\<close> (theory \<open>Database\<close>): the
  tables, each the list of its rows, the sequences, the clock, the pushes sent, what the request noted for the
  log, and the faults to come. A statement is a function on the tables that may fail with PostgreSQL's error, or
  because the next fault says so; a theorem about every world therefore covers every way the connection can
  fail. A transaction undoes its statements when it fails, its commit included. Errors are values: \<open>Inl\<close> with the
  status and the message, \<open>Inr\<close> with the payload of a 200. What is not in the repository is an argument: bcrypt, the
  JWT library, SHA-256, Firebase, the excelize package, \<open>mime/multipart\<close>, \<open>net/netip\<close>, \<open>net/url\<close>, the
  collation and case folding of the database. A row lock or a table lock makes the transaction that takes it
  one step, and transactions are taken in the order in which they commit. Where the locks leave a gap between two
  statements, what other transactions do in it is an argument: \<open>meanwhile\<close> in the re-pricing of \<open>Tuition\<close> (the accounts
  of a grade are checked under locks, then updated by predicate), \<open>view\<close> in the registration of a phone in \<open>ParentApp\<close>
  (\<open>FOR SHARE\<close> does not hold off a second registration of the parent). Both gaps do harm: a balance can become negative,
  a parent can have an eleventh phone.

  \<^bold>\<open>Foundations.\<close>
  \<^item> \<open>Prelude\<close>: text as code points, replies and bodies (\<open>handlers/response.go\<close>), \<open>strconv\<close> and \<open>strings\<close> functions, lists used
    as tables; the collections \<open>run_simps\<close>, \<open>ok_iffs\<close> and \<open>run_elims\<close>.
  \<^item> \<open>Calendar\<close>: dates, times of day and the layouts the code parses and formats, the query parameters \<open>date\<close> and \<open>month\<close>, the
    attendance windows (\<open>handlers/attendance.go\<close>, \<open>tz/tz.go\<close>). The day loops are proved to end.
  \<^item> \<open>Database\<close>: the tables after all migrations (\<open>db/migrations\<close>), statements, transactions, savepoints, faults.
  \<^item> \<open>Transactions\<close>: laws of the combinators; the locales \<open>keyed_table\<close> (a table with a unique key) and \<open>guarded_write\<close> (a
    transaction whose body keeps an invariant), interpreted on the tables and transactions of the components.
  \<^item> \<open>Paging\<close>: the locale \<open>pager\<close>, pages by \<open>next_before\<close>; interpreted on the notifications and on the activity log.
  \<^item> \<open>Sequences\<close>: the locale \<open>sequence_fact\<close>, facts about a table and the ids drawn for it; interpreted on dead sessions.

  \<^bold>\<open>Components\<close> (files under \<open>internal\<close>, unless \<open>cmd\<close> is named).
  \<^item> \<open>RateLimit\<close> (\<open>ratelimit/login.go\<close>): the limiter and every interleaving of its calls: bounds on failures and keys, a
    lockout that holds and ends. The locale \<open>attempt_gate\<close> is the contract the logins use.
  \<^item> \<open>Phone\<close> (\<open>phone/phone.go\<close>), \<open>Search\<close> (\<open>likePattern\<close>): the canonical form of mobile numbers, searching with \<open>ILIKE\<close>.
  \<^item> \<open>Attendance\<close> (\<open>handlers/attendance.go\<close>, \<open>admin.go\<close>, \<open>mobile.go\<close>, migration 17): the status of a student on a date, the type of a
    day, dashboard, daily, today and month views, leaves. The views agree with the status function and each other.
    \<open>DailyReport\<close>: the same day as a workbook (\<open>AdminExportExcelHandler\<close>).
  \<^item> \<open>Notify\<close> (\<open>notify/notify.go\<close>), \<open>Broadcasts\<close> (\<open>notify/broadcast.go\<close>, \<open>handlers/broadcasts.go\<close>): the history, pushes, dead tokens,
    audiences; who is told what, exactly once.
  \<^item> \<open>Hardware\<close> (\<open>handlers/hardware.go\<close>, \<open>zkteco_handler.go\<close>): parsing a batch, storing it with its savepoints, deciding whom to
    tell. What a device is told about a batch is what the tables hold; no punch is stored twice.
    An unknown device changes nothing.
  \<^item> \<open>Tuition\<close>, \<open>Teachers\<close>, \<open>Expenses\<close> (\<open>handlers/tuition.go\<close>, \<open>teachers.go\<close>, \<open>expenses.go\<close>): every endpoint with its constraints;
    the invariants of the ledgers (and how an overlapping payment breaks one), closed years, figures that add up.
  \<^item> \<open>Closures\<close> (\<open>handlers/holidays.go\<close>): the set of closed days is the abstract state; creating and cancelling refine adding and
    removing days.
  \<^item> \<open>ManualAttendance\<close> (\<open>handlers/manual_attendance.go\<close>, \<open>cron/absent_job.go\<close>): manual punches, their preview and undo, the absence job.
  \<^item> \<open>Families\<close> (\<open>handlers/admin.go\<close>), \<open>ParentApp\<close> (\<open>mobile.go\<close>, \<open>parent_account.go\<close>): students and parents, notification pages, phones.
  \<^item> \<open>Sessions\<close> (\<open>auth/jwt.go\<close>, \<open>handlers/middleware.go\<close>, \<open>login.go\<close>, \<open>mobile.go\<close>, \<open>admin.go\<close>, \<open>parent_account.go\<close>): tokens, middlewares, both
    logins, the deletion of an account, over any sequence of requests. \<open>ClientIP\<close> (\<open>clientip/clientip.go\<close>): whose
    address a request has.
  \<^item> \<open>Activity\<close> (\<open>handlers/activity.go\<close>): the wrapper around admin handlers, the row it writes, the list.
  \<^item> \<open>Devices\<close> (\<open>handlers/admin.go\<close>, \<open>mobile.go\<close>, \<open>middleware.go\<close>): devices, settings, the check of uploads.
  \<^item> \<open>Schedule\<close> (\<open>handlers/admin.go\<close>, \<open>mobile.go\<close>, \<open>subject_key.go\<close>), \<open>ScheduleImport\<close> and \<open>ScheduleRoundtrip\<close> (\<open>schedule_excel.go\<close>): the
    timetable, its workbook, and that an exported file is read back; excelize reports a row without its blank cells at the end.
  \<^item> \<open>Uploads\<close>, \<open>Banners\<close> (\<open>handlers/banners.go\<close>, \<open>mobile.go\<close>): form parts within their limits, pictures and who is served them.
  \<^item> \<open>Routes\<close> (\<open>cmd/api/main.go\<close>, \<open>handlers/routes.go\<close>): the table of routes, the mux, and the middlewares around every handler.
  \<^item> \<open>Startup\<close> (\<open>config/config.go\<close>, \<open>config/startup.go\<close>, \<open>database/db.go\<close>, \<open>cmd/api/main.go\<close>): settings, startup checks, the gate of \<open>run\<close>.
  \<^item> \<open>Shutdown\<close> (\<open>background/background.go\<close>, \<open>cmd/api/main.go\<close>): the group of background tasks and the phases of a shutdown as
    step relations, with their invariants.
  \<^item> \<open>MigratePins\<close> (\<open>cmd/migrate-pins/main.go\<close>): the tool that hashes plain PINs.

  \<^bold>\<open>How they interact.\<close> \<open>Hardware\<close>, \<open>ManualAttendance\<close> and the leaves write the rows the status function reads; closures decide
  which days count. \<open>Tuition\<close> freezes the grade a student has in \<open>Families\<close>; \<open>Expenses\<close> reads what \<open>Tuition\<close> collected and
  names teachers of \<open>Teachers\<close>, whose device user ids are kept apart from the students'. \<open>Broadcasts\<close> and \<open>Closures\<close>
  write notifications \<open>ParentApp\<close> pages through. \<open>Sessions\<close> uses the limiter through its contract, and \<open>Routes\<close> puts
  \<open>Sessions\<close>, \<open>Activity\<close> and \<open>Devices\<close> in front of the handlers.

  \<^bold>\<open>Bounds and fuel.\<close> Every loop of the code is structural recursion or has a termination proof (\<open>schoolDaysBetween\<close>,
  \<open>nextSchoolWeekday\<close>, \<open>batches\<close>). The only fuel is that of \<open>walk\<close>, a client that follows \<open>next_before\<close>: the number of rows divided by the
  page size, plus one, is proved to be enough. Integers of the code are 64 bits wide: amounts are at most 10^9, so
  no sum of the school's rows reaches that range, \<open>Atoi\<close> refuses what does not fit, \<open>int4\<close> parameters refuse more than 32 bits,
  and where a product may wrap (\<open>wrap64\<close>) it wraps. A word on time: the limiter's \<open>Sub\<close> saturates as Go's does.

  \<^bold>\<open>Reading a theorem.\<close> A hypothesis \<open>reliable w\<close> says that no statement will fail; without it the theorem holds whatever
  fails. The claims are marked C1, C2 and so on in the theories; each with a hypothesis is followed, at the end of its theory
  or in the next, by a witness on a concrete world.

  \<^bold>\<open>Not modelled.\<close>
  \<^item> \<open>cmd/seed-staging\<close>: a client that fills the staging server with random fake data over HTTP; it is no part of the server.
  \<^item> \<open>internal/testdb\<close>: throwaway databases for the tests.
  \<^item> The rest of \<open>run\<close> in \<open>cmd/api/main.go\<close>: creating the Firebase client, listening, the warnings it logs, pinning the date for
    tests; \<open>internal/server\<close>: the time limits of connections, which \<open>net/http\<close> enforces.
  \<^item> \<open>handlers/health.go\<close>, \<open>HardwareLoggerMiddleware\<close>, \<open>LogObservedClients\<close> and the helpers that only log: a constant answer and log
    lines.
  \<^item> \<open>tz/tz.go\<close>: loading the time zone; Baghdad has no daylight saving, so a time is a civil date and a clock.
  \<^item> Bytes on the wire: JSON encoding of answers, HTTP headers other than those named, deadlines of uploads, styles of workbooks.
  \<^item> The migrations as changes of existing data, and the interleaving of the statements of two transactions beyond the two
    gaps above.
\<close>

end
